(* ===== verification/Prelude.thy ===== *)
theory Prelude
  imports Main "HOL-Library.Word"
begin

text \<open>
  Shared vocabulary of the development: the machine types of the C sources, \<^verbatim>\<open>size_t\<close>
  arithmetic with its wrap-around, byte memory with explicit out-of-bounds outcomes, the result
  type every model function returns, and the generic lemmas the component theories use.

  The target is an LP64 platform: \<^verbatim>\<open>size_t\<close> and pointers have 64 bits, \<^verbatim>\<open>int\<close> has 32.
  Sizes and offsets are natural numbers below \<open>2 ^ 64\<close>, and every addition and
  subtraction that the C code does in \<^verbatim>\<open>size_t\<close> goes through \<open>sz_add\<close> and \<open>sz_sub\<close>.
\<close>

unbundle bit_operations_syntax

named_theorems mem_simps \<open>reading and writing byte memory\<close>
named_theorems wire_intros \<open>what an encoder writes and a decoder reads\<close>

section \<open>Machine types\<close>

type_synonym u8 = "8 word"
type_synonym u16 = "16 word"
type_synonym u32 = "32 word"
type_synonym u64 = "64 word"

text \<open>
  \<^verbatim>\<open>amqp_bytes_t\<close> is a length and a pointer. The model keeps the bytes the pointer points
  at; the length is the length of the list.
\<close>

type_synonym amqp_bytes = "u8 list"

definition UINT8_MAX :: nat where "UINT8_MAX = 255"
definition UINT16_MAX :: nat where "UINT16_MAX = 65535"
definition UINT32_MAX :: nat where "UINT32_MAX = 4294967295"

definition sz_add :: "nat \<Rightarrow> nat \<Rightarrow> nat" where
  "sz_add a b = (a + b) mod 2 ^ 64"

definition sz_mul :: "nat \<Rightarrow> nat \<Rightarrow> nat" where
  "sz_mul a b = (a * b) mod 2 ^ 64"

definition sz_sub :: "nat \<Rightarrow> nat \<Rightarrow> nat" where
  "sz_sub a b = (a + (2 ^ 64 - b mod 2 ^ 64)) mod 2 ^ 64"

text \<open>The conversions \<^verbatim>\<open>(int)n\<close> of a \<^verbatim>\<open>size_t\<close> and \<^verbatim>\<open>(size_t)i\<close> of an \<^verbatim>\<open>int\<close>.\<close>

definition as_int :: "nat \<Rightarrow> int" where
  "as_int n = sint (of_nat n :: u32)"

definition size_of_int :: "int \<Rightarrow> nat" where
  "size_of_int i = nat (i mod 2 ^ 64)"

text \<open>
  The byte buffers of the theorems below are shorter than \<open>2 ^ 56\<close> bytes, more than the address
  space of an LP64 machine has room for; offsets into them then do not wrap around.
\<close>

abbreviation in_memory :: "amqp_bytes \<Rightarrow> bool" where
  "in_memory bs \<equiv> length bs < 2 ^ 56"

section \<open>Byte memory\<close>

definition blit :: "amqp_bytes \<Rightarrow> nat \<Rightarrow> amqp_bytes \<Rightarrow> amqp_bytes" where
  "blit buf off bs = take off buf @ bs @ drop (off + length bs) buf"

text \<open>\<^verbatim>\<open>memcpy\<close> out of and into a buffer; \<open>None\<close> is an access out of the buffer's bounds.\<close>

definition mem_read :: "amqp_bytes \<Rightarrow> nat \<Rightarrow> nat \<Rightarrow> amqp_bytes option" where
  "mem_read buf off n = (if off + n \<le> length buf then Some (take n (drop off buf)) else None)"

definition mem_write :: "amqp_bytes \<Rightarrow> nat \<Rightarrow> amqp_bytes \<Rightarrow> amqp_bytes option" where
  "mem_write buf off bs = (if off + length bs \<le> length buf then Some (blit buf off bs) else None)"

text \<open>\<open>at_off buf off bs\<close>: the bytes \<open>bs\<close> stand in \<open>buf\<close> from offset \<open>off\<close> on.\<close>

definition at_off :: "amqp_bytes \<Rightarrow> nat \<Rightarrow> amqp_bytes \<Rightarrow> bool" where
  "at_off buf off bs \<longleftrightarrow> off + length bs \<le> length buf \<and> take (length bs) (drop off buf) = bs"

section \<open>Lemmas on sizes\<close>

lemma sz_add_exact [simp]: "a + b < 2 ^ 64 \<Longrightarrow> sz_add a b = a + b"
  by (simp add: sz_add_def)

lemma sz_mul_exact [simp]: "a * b < 2 ^ 64 \<Longrightarrow> sz_mul a b = a * b"
  by (simp add: sz_mul_def)

lemma sz_sub_exact [simp]: "b \<le> a \<Longrightarrow> a < 2 ^ 64 \<Longrightarrow> sz_sub a b = a - b"
proof -
  assume ba: "b \<le> a" and a: "a < 2 ^ 64"
  then have b: "b mod 2 ^ 64 = b" by simp
  from ba a have "a + (2 ^ 64 - b) = (a - b) + 2 ^ 64" by simp
  then have "(a + (2 ^ 64 - b)) mod 2 ^ 64 = (a - b) mod 2 ^ 64"
    by (metis mod_add_self2)
  with b a show ?thesis by (simp add: sz_sub_def)
qed

lemma sz_sub_wraps: "a < b \<Longrightarrow> b < 2 ^ 64 \<Longrightarrow> sz_sub a b = 2 ^ 64 - (b - a)"
  by (simp add: sz_sub_def)

lemma as_int_small: "n < 2 ^ 31 \<Longrightarrow> as_int n = int n"
  by (simp add: as_int_def signed_of_nat signed_take_bit_int_eq_self)

lemma size_of_int_nonneg: "0 \<le> i \<Longrightarrow> i < 2 ^ 31 \<Longrightarrow> size_of_int i = nat i"
  by (simp add: size_of_int_def)

section \<open>Lemmas on byte memory\<close>

lemma length_blit [simp]: "off + length bs \<le> length buf \<Longrightarrow> length (blit buf off bs) = length buf"
  by (simp add: blit_def)

lemma blit_Nil [simp]: "blit buf off [] = buf"
  by (simp add: blit_def)

lemma blit_append:
  "off + length xs \<le> length buf \<Longrightarrow>
   blit (blit buf off xs) (off + length xs) ys = blit buf off (xs @ ys)"
  by (cases xs) (auto simp: blit_def min_def add.commute add.left_commute)

lemma take_blit [simp]: "off \<le> length buf \<Longrightarrow> take off (blit buf off bs) = take off buf"
  by (simp add: blit_def)

lemma drop_blit:
  "off + length bs \<le> length buf \<Longrightarrow> drop (off + length bs) (blit buf off bs) = drop (off + length bs) buf"
  by (cases bs) (auto simp: blit_def min_def)

lemma blit_prepend:
  assumes "off + length xs + length ys \<le> length buf"
  shows "blit (blit buf (off + length xs) ys) off xs = blit buf off (xs @ ys)"
proof -
  have "drop (off + length xs) (blit buf (off + length xs) ys)
      = ys @ drop (off + length xs + length ys) buf"
    using assms by (simp add: blit_def)
  moreover have "take off (blit buf (off + length xs) ys) = take off buf"
    using assms by (simp add: blit_def min_def)
  ultimately show ?thesis
    by (simp add: blit_def [of "blit buf (off + length xs) ys"] blit_def [of buf off "xs @ ys"]
        add.assoc)
qed

lemma at_off_Nil [simp]: "at_off buf off [] \<longleftrightarrow> off \<le> length buf"
  by (simp add: at_off_def)

lemma at_off_append:
  "at_off buf off (xs @ ys) \<longleftrightarrow> at_off buf off xs \<and> at_off buf (off + length xs) ys"
proof -
  have "take (length xs + length ys) (drop off buf)
      = take (length xs) (drop off buf) @ take (length ys) (drop (off + length xs) buf)"
    by (simp add: take_add add.commute)
  moreover have "off + (length xs + length ys) \<le> length buf \<Longrightarrow>
      length (take (length xs) (drop off buf)) = length xs"
    by simp
  ultimately show ?thesis
    by (auto simp: at_off_def add.assoc)
qed

lemma at_off_Cons: "at_off buf off (x # xs) \<longleftrightarrow> at_off buf off [x] \<and> at_off buf (Suc off) xs"
  using at_off_append [of buf off "[x]" xs] by simp

lemma at_off_length: "at_off buf off w \<Longrightarrow> length w \<le> length buf"
  by (simp add: at_off_def)

lemma at_off_blit [simp]: "off + length bs \<le> length buf \<Longrightarrow> at_off (blit buf off bs) off bs"
  by (simp add: at_off_def blit_def)

lemma mem_read_at_off [mem_simps]: "at_off buf off bs \<Longrightarrow> n = length bs \<Longrightarrow> mem_read buf off n = Some bs"
  by (auto simp: at_off_def mem_read_def)

lemma mem_read_length: "mem_read buf off n = Some bs \<Longrightarrow> length bs = n \<and> at_off buf off bs"
  by (auto simp: mem_read_def at_off_def split: if_splits)

lemma mem_write_length [mem_simps]:
  "mem_write buf off bs = Some buf' \<Longrightarrow> length buf' = length buf \<and> buf' = blit buf off bs"
  by (auto simp: mem_write_def split: if_splits)

end
