(* ===== verification/Amqp_Status.thy ===== *)
theory Amqp_Status
  imports Prelude
begin

text \<open>
  The status codes of \<^verbatim>\<open>amqp.h\<close> and their texts (\<^verbatim>\<open>amqp_api.c\<close>), and the outcome type
  of the model: every function that can fail returns \<open>Inl\<close> of a \<open>fault\<close> or \<open>Inr\<close> of its result.
  A negative return value of the C code is \<open>Status s\<close>; the other faults are outcomes the C code
  has no value for.
\<close>

section \<open>amqp.h: amqp\_status\_enum\<close>

datatype amqp_status_enum =
    AMQP_STATUS_OK
  | AMQP_STATUS_NO_MEMORY
  | AMQP_STATUS_BAD_AMQP_DATA
  | AMQP_STATUS_UNKNOWN_CLASS
  | AMQP_STATUS_UNKNOWN_METHOD
  | AMQP_STATUS_HOSTNAME_RESOLUTION_FAILED
  | AMQP_STATUS_INCOMPATIBLE_AMQP_VERSION
  | AMQP_STATUS_CONNECTION_CLOSED
  | AMQP_STATUS_BAD_URL
  | AMQP_STATUS_SOCKET_ERROR
  | AMQP_STATUS_INVALID_PARAMETER
  | AMQP_STATUS_TABLE_TOO_BIG
  | AMQP_STATUS_WRONG_METHOD
  | AMQP_STATUS_TIMEOUT
  | AMQP_STATUS_TIMER_FAILURE
  | AMQP_STATUS_HEARTBEAT_TIMEOUT
  | AMQP_STATUS_UNEXPECTED_STATE
  | AMQP_STATUS_SOCKET_CLOSED
  | AMQP_STATUS_SOCKET_INUSE
  | AMQP_STATUS_BROKER_UNSUPPORTED_SASL_METHOD
  | AMQP_STATUS_UNSUPPORTED
  | AMQP_STATUS_TCP_ERROR
  | AMQP_STATUS_TCP_SOCKETLIB_INIT_ERROR
  | AMQP_STATUS_SSL_ERROR
  | AMQP_STATUS_SSL_HOSTNAME_VERIFY_FAILED
  | AMQP_STATUS_SSL_PEER_VERIFY_FAILED
  | AMQP_STATUS_SSL_CONNECTION_FAILED

fun status_code :: "amqp_status_enum \<Rightarrow> int" where
  "status_code AMQP_STATUS_OK = 0"
| "status_code AMQP_STATUS_NO_MEMORY = -0x0001"
| "status_code AMQP_STATUS_BAD_AMQP_DATA = -0x0002"
| "status_code AMQP_STATUS_UNKNOWN_CLASS = -0x0003"
| "status_code AMQP_STATUS_UNKNOWN_METHOD = -0x0004"
| "status_code AMQP_STATUS_HOSTNAME_RESOLUTION_FAILED = -0x0005"
| "status_code AMQP_STATUS_INCOMPATIBLE_AMQP_VERSION = -0x0006"
| "status_code AMQP_STATUS_CONNECTION_CLOSED = -0x0007"
| "status_code AMQP_STATUS_BAD_URL = -0x0008"
| "status_code AMQP_STATUS_SOCKET_ERROR = -0x0009"
| "status_code AMQP_STATUS_INVALID_PARAMETER = -0x000A"
| "status_code AMQP_STATUS_TABLE_TOO_BIG = -0x000B"
| "status_code AMQP_STATUS_WRONG_METHOD = -0x000C"
| "status_code AMQP_STATUS_TIMEOUT = -0x000D"
| "status_code AMQP_STATUS_TIMER_FAILURE = -0x000E"
| "status_code AMQP_STATUS_HEARTBEAT_TIMEOUT = -0x000F"
| "status_code AMQP_STATUS_UNEXPECTED_STATE = -0x0010"
| "status_code AMQP_STATUS_SOCKET_CLOSED = -0x0011"
| "status_code AMQP_STATUS_SOCKET_INUSE = -0x0012"
| "status_code AMQP_STATUS_BROKER_UNSUPPORTED_SASL_METHOD = -0x0013"
| "status_code AMQP_STATUS_UNSUPPORTED = -0x0014"
| "status_code AMQP_STATUS_TCP_ERROR = -0x0100"
| "status_code AMQP_STATUS_TCP_SOCKETLIB_INIT_ERROR = -0x0101"
| "status_code AMQP_STATUS_SSL_ERROR = -0x0200"
| "status_code AMQP_STATUS_SSL_HOSTNAME_VERIFY_FAILED = -0x0201"
| "status_code AMQP_STATUS_SSL_PEER_VERIFY_FAILED = -0x0202"
| "status_code AMQP_STATUS_SSL_CONNECTION_FAILED = -0x0203"

section \<open>Outcomes\<close>

text \<open>
  \<open>Memory_fault\<close> is an access out of bounds (undefined behaviour in C), \<open>Aborted\<close> a call of
  \<^verbatim>\<open>amqp_abort\<close> or a failed \<^verbatim>\<open>assert\<close>, \<open>Out_of_fuel\<close> the exhaustion of a recursion
  bound of the model, which the theorems show does not happen, \<open>Undefined_behaviour\<close> any other
  operation C gives no meaning to, and \<open>Blocked\<close> a call that waits for the operating system when
  the run under consideration ends.
\<close>

datatype fault = Status amqp_status_enum | Memory_fault | Aborted | Out_of_fuel
  | Undefined_behaviour | Blocked

type_synonym 'a outcome = "fault + 'a"

section \<open>amqp\_api.c: error texts\<close>

definition base_error_strings :: "string list" where
  "base_error_strings =
    [''operation completed successfully'',
     ''could not allocate memory'',
     ''invalid AMQP data'',
     ''unknown AMQP class id'',
     ''unknown AMQP method id'',
     ''hostname lookup failed'',
     ''incompatible AMQP version'',
     ''connection closed unexpectedly'',
     ''could not parse AMQP URL'',
     ''a socket error occurred'',
     ''invalid parameter'',
     ''table too large for buffer'',
     ''unexpected method received'',
     ''request timed out'',
     ''system timer has failed'',
     ''heartbeat timeout, connection closed'',
     ''unexpected protocol state'',
     ''socket is closed'',
     ''socket already open'',
     ''unsupported sasl method requested'',
     ''parameter value is unsupported'']"

definition tcp_error_strings :: "string list" where
  "tcp_error_strings =
    [''a socket error occurred'',
     ''socket library initialization failed'']"

definition ssl_error_strings :: "string list" where
  "ssl_error_strings =
    [''a SSL error occurred'',
     ''SSL hostname verification failed'',
     ''SSL peer cert verification failed'',
     ''SSL handshake failed'']"

definition unknown_error_string :: string where
  "unknown_error_string = ''(unknown error)''"

definition nth_error_string :: "string list \<Rightarrow> nat \<Rightarrow> string" where
  "nth_error_string tab n = (if n < length tab then tab ! n else unknown_error_string)"

definition amqp_error_string2 :: "int \<Rightarrow> string" where
  "amqp_error_string2 code =
    (let category = drop_bit 8 ((- code) AND 0xFF00);
         err = nat ((- code) AND 0x00FF)
     in if category = 0 then nth_error_string base_error_strings err
        else if category = 1 then nth_error_string tcp_error_strings err
        else if category = 2 then nth_error_string ssl_error_strings err
        else unknown_error_string)"

definition amqp_error_string :: "int \<Rightarrow> string" where
  "amqp_error_string code = amqp_error_string2 (if code > 0 then - code else code)"

section \<open>Lemmas\<close>

lemma status_code_inj: "status_code s = status_code t \<Longrightarrow> s = t"
  by (cases s; cases t) simp_all

lemma status_code_nonpos: "status_code s \<le> 0"
  by (cases s) simp_all

text \<open>
  Every status of the enumeration has a text of its own category's table, so no status is
  reported as unknown, and the first value past each block of codes is unknown.
\<close>

lemma error_string_known: "amqp_error_string2 (status_code s) \<noteq> unknown_error_string"
  by (cases s)
    (simp_all add: amqp_error_string2_def nth_error_string_def base_error_strings_def
      tcp_error_strings_def ssl_error_strings_def unknown_error_string_def)

end
