(* ===== verification/Amqp_Mem.thy ===== *)
theory Amqp_Mem
  imports Amqp_Status
begin

text \<open>
  The C heap and the memory pools of \<^verbatim>\<open>amqp_mem.c\<close>.

  The heap is a sequence of numbered requests: \<open>h_grants h k n\<close> says whether the \<open>k\<close>-th request,
  for \<open>n\<close> bytes, is granted, so that every failure of \<^verbatim>\<open>malloc\<close> is an input of the model. A
  granted request returns a block named by its number; \<open>h_live\<close> holds the blocks that are
  allocated and not yet freed, \<open>h_size\<close> their sizes. A call of \<^verbatim>\<open>free\<close> with a block that is not
  allocated is undefined behaviour in C; the heap records it in \<open>h_stray\<close>, and a well-formed heap
  (\<open>heap_wf\<close>) is one where no such call was ever made. The bytes of pool memory are not modelled here:
  values the code stores in it appear as values of the callers. The invariant of a pool and the
  theorems on it are in \<open>Amqp_Pool\<close>.
\<close>

section \<open>The C heap\<close>

record heap =
  h_grants :: "nat \<Rightarrow> nat \<Rightarrow> bool"
  h_count :: nat
  h_live :: "nat list"
  h_size :: "nat \<Rightarrow> nat"
  h_stray :: "nat list"

definition malloc :: "nat \<Rightarrow> heap \<Rightarrow> nat option \<times> heap" where
  "malloc n h =
    (let k = h_count h
     in if h_grants h k n
        then (Some k, h\<lparr>h_count := Suc k, h_live := k # h_live h, h_size := (h_size h)(k := n)\<rparr>)
        else (None, h\<lparr>h_count := Suc k\<rparr>))"

definition free :: "nat \<Rightarrow> heap \<Rightarrow> heap" where
  "free b h = h\<lparr>h_live := removeAll b (h_live h),
     h_stray := (if b \<in> set (h_live h) then h_stray h else b # h_stray h)\<rparr>"

text \<open>A granted \<^verbatim>\<open>realloc\<close> moves the block; a refused one keeps the old block allocated.\<close>

definition realloc :: "nat \<Rightarrow> nat \<Rightarrow> heap \<Rightarrow> nat option \<times> heap" where
  "realloc b n h =
    (case malloc n h of
       (Some k, h') \<Rightarrow> (Some k, free b h')
     | (None, h') \<Rightarrow> (None, h'))"

definition free_opt :: "nat option \<Rightarrow> heap \<Rightarrow> heap" where
  "free_opt p h = (case p of None \<Rightarrow> h | Some b \<Rightarrow> free b h)"

definition heap_ok :: "heap \<Rightarrow> bool" where
  "heap_ok h \<longleftrightarrow> (\<forall>k n. 0 < n \<longrightarrow> h_grants h k n)"

definition heap_wf :: "heap \<Rightarrow> bool" where
  "heap_wf h \<longleftrightarrow> distinct (h_live h) \<and> (\<forall>b \<in> set (h_live h). b < h_count h) \<and> h_stray h = []"

section \<open>amqp.h: amqp\_pool\_t\<close>

text \<open>An array of block pointers: the heap block that holds the array (\<open>None\<close> for \<^verbatim>\<open>NULL\<close>)
  and its entries, whose number is \<^verbatim>\<open>num_blocks\<close>.\<close>

record amqp_pool_blocklist =
  bl_array :: "nat option"
  bl_blocks :: "nat list"

record amqp_pool =
  pagesize :: nat
  pages :: amqp_pool_blocklist
  large_blocks :: amqp_pool_blocklist
  next_page :: nat
  alloc_block :: "nat option"
  alloc_used :: nat

text \<open>A pointer into a block: the block and the offset in it.\<close>

type_synonym addr = "nat \<times> nat"

abbreviation empty_blocks :: amqp_pool_blocklist where
  "empty_blocks \<equiv> \<lparr>bl_array = None, bl_blocks = []\<rparr>"

definition init_amqp_pool :: "nat \<Rightarrow> amqp_pool" where
  "init_amqp_pool psize =
    \<lparr>pagesize = (if psize \<noteq> 0 then psize else 4096),
     pages = empty_blocks, large_blocks = empty_blocks,
     next_page = 0, alloc_block = None, alloc_used = 0\<rparr>"

definition empty_blocklist :: "amqp_pool_blocklist \<Rightarrow> heap \<Rightarrow> amqp_pool_blocklist \<times> heap" where
  "empty_blocklist x h =
    (empty_blocks,
     case bl_array x of
       None \<Rightarrow> h
     | Some a \<Rightarrow> free a (fold free (bl_blocks x) h))"

definition recycle_amqp_pool :: "amqp_pool \<Rightarrow> heap \<Rightarrow> amqp_pool \<times> heap" where
  "recycle_amqp_pool pool h =
    (let (large, h') = empty_blocklist (large_blocks pool) h
     in (pool\<lparr>large_blocks := large, next_page := 0, alloc_block := None, alloc_used := 0\<rparr>, h'))"

definition empty_amqp_pool :: "amqp_pool \<Rightarrow> heap \<Rightarrow> amqp_pool \<times> heap" where
  "empty_amqp_pool pool h =
    (let (pool', h') = recycle_amqp_pool pool h;
         (pgs, h'') = empty_blocklist (pages pool') h'
     in (pool'\<lparr>pages := pgs\<rparr>, h''))"

definition record_pool_block ::
    "amqp_pool_blocklist \<Rightarrow> nat \<Rightarrow> heap \<Rightarrow> bool \<times> amqp_pool_blocklist \<times> heap" where
  "record_pool_block x block h =
    (let blocklistlength = 8 * (length (bl_blocks x) + 1);
         (arr, h') = (case bl_array x of
                        None \<Rightarrow> malloc blocklistlength h
                      | Some a \<Rightarrow> realloc a blocklistlength h)
     in case arr of
          None \<Rightarrow> (False, x, h')
        | Some a \<Rightarrow> (True, \<lparr>bl_array = Some a, bl_blocks = bl_blocks x @ [block]\<rparr>, h'))"

text \<open>\<^verbatim>\<open>(amount + 7) & (~7)\<close> in \<^verbatim>\<open>size_t\<close>.\<close>

definition round8 :: "nat \<Rightarrow> nat" where
  "round8 amount = sz_add amount 7 div 8 * 8"

definition amqp_pool_alloc_large ::
    "amqp_pool \<Rightarrow> nat \<Rightarrow> heap \<Rightarrow> addr option \<times> amqp_pool \<times> heap" where
  "amqp_pool_alloc_large pool amount h =
    (case malloc amount h of
       (None, h1) \<Rightarrow> (None, pool, h1)
     | (Some result, h1) \<Rightarrow>
         (case record_pool_block (large_blocks pool) result h1 of
            (False, _, h2) \<Rightarrow> (None, pool, free result h2)
          | (True, large, h2) \<Rightarrow> (Some (result, 0), pool\<lparr>large_blocks := large\<rparr>, h2)))"

definition amqp_pool_alloc_page ::
    "amqp_pool \<Rightarrow> nat \<Rightarrow> heap \<Rightarrow> addr option \<times> amqp_pool \<times> heap" where
  "amqp_pool_alloc_page pool amount h =
    (if next_page pool \<ge> length (bl_blocks (pages pool)) then
       (case malloc (pagesize pool) h of
          (None, h1) \<Rightarrow> (None, pool\<lparr>alloc_block := None\<rparr>, h1)
        | (Some b, h1) \<Rightarrow>
            (case record_pool_block (pages pool) b h1 of
               (False, _, h2) \<Rightarrow> (None, pool\<lparr>alloc_block := Some b\<rparr>, h2)
             | (True, pgs, h2) \<Rightarrow>
                 (Some (b, 0),
                  pool\<lparr>alloc_block := Some b, pages := pgs,
                       next_page := length (bl_blocks pgs), alloc_used := amount\<rparr>, h2)))
     else
       (let b = bl_blocks (pages pool) ! next_page pool
        in (Some (b, 0),
            pool\<lparr>alloc_block := Some b, next_page := next_page pool + 1, alloc_used := amount\<rparr>, h)))"

text \<open>
  The \<^verbatim>\<open>assert\<close> of the C code, that \<^verbatim>\<open>alloc_used\<close> is at most \<^verbatim>\<open>pagesize\<close>, is part of the
  invariant of a pool and always holds.
\<close>

definition amqp_pool_alloc ::
    "amqp_pool \<Rightarrow> nat \<Rightarrow> heap \<Rightarrow> addr option \<times> amqp_pool \<times> heap" where
  "amqp_pool_alloc pool amount0 h =
    (if amount0 = 0 then (None, pool, h)
     else
       (let amount = round8 amount0
        in if amount > pagesize pool then amqp_pool_alloc_large pool amount h
           else
             (case alloc_block pool of
                Some b \<Rightarrow>
                  if sz_add (alloc_used pool) amount \<le> pagesize pool
                  then (Some (b, alloc_used pool), pool\<lparr>alloc_used := alloc_used pool + amount\<rparr>, h)
                  else amqp_pool_alloc_page pool amount h
              | None \<Rightarrow> amqp_pool_alloc_page pool amount h)))"

section \<open>Lemmas on the heap\<close>

lemma malloc_ok:
  assumes "heap_ok h" "0 < n"
  shows "malloc n h = (Some (h_count h),
    h\<lparr>h_count := Suc (h_count h), h_live := h_count h # h_live h, h_size := (h_size h)(h_count h := n)\<rparr>)"
  using assms by (simp add: malloc_def heap_ok_def Let_def)

lemma malloc_heap_ok [simp]: "malloc n h = (r, h') \<Longrightarrow> heap_ok h' = heap_ok h"
  by (auto simp: malloc_def heap_ok_def Let_def split: if_splits)

lemma free_heap_ok [simp]: "heap_ok (free b h) = heap_ok h"
  by (simp add: free_def heap_ok_def)

lemma free_opt_heap_ok [simp]: "heap_ok (free_opt p h) = heap_ok h"
  by (simp add: free_opt_def split: option.split)

lemma realloc_heap_ok [simp]: "realloc b n h = (r, h') \<Longrightarrow> heap_ok h' = heap_ok h"
  by (auto simp: realloc_def split: prod.splits option.splits)

lemma realloc_ok: "heap_ok h \<Longrightarrow> 0 < n \<Longrightarrow> \<exists>k h'. realloc b n h = (Some k, h') \<and> heap_ok h'"
  by (auto simp: realloc_def malloc_ok heap_ok_def free_def)

section \<open>Allocation succeeds where the heap grants it\<close>

lemma round8_props:
  assumes "0 < n" "n \<le> 2 ^ 63"
  shows "n \<le> round8 n" "8 \<le> round8 n" "8 dvd round8 n" "round8 n < n + 8"
proof -
  have "round8 n = (n + 7) div 8 * 8" using assms by (simp add: round8_def)
  moreover have "n \<le> (n + 7) div 8 * 8" "8 \<le> (n + 7) div 8 * 8" "(n + 7) div 8 * 8 < n + 8"
    using assms by presburger+
  ultimately show "n \<le> round8 n" "8 \<le> round8 n" "8 dvd round8 n" "round8 n < n + 8"
    by simp_all
qed

lemma record_pool_block_ok:
  assumes "heap_ok h"
  shows "\<exists>x' h'. record_pool_block x b h = (True, x', h') \<and> heap_ok h'"
proof (cases "bl_array x")
  case None
  with malloc_ok [OF assms] assms show ?thesis
    by (simp add: record_pool_block_def Let_def) (simp add: heap_ok_def)
next
  case (Some a)
  with realloc_ok [OF assms, of "8 * (length (bl_blocks x) + 1)" a] show ?thesis
    by (auto simp: record_pool_block_def Let_def)
qed

lemma record_pool_block_heap_ok:
  "record_pool_block x b h = (r, x', h') \<Longrightarrow> heap_ok h \<Longrightarrow> heap_ok h'"
  by (auto simp: record_pool_block_def Let_def split: option.splits prod.splits)

lemma amqp_pool_alloc_large_ok:
  assumes "heap_ok h" "0 < amount"
  shows "\<exists>a p' h'. amqp_pool_alloc_large p amount h = (Some a, p', h') \<and> heap_ok h'"
proof -
  obtain k h1 where m: "malloc amount h = (Some k, h1)" "heap_ok h1"
    using malloc_ok [OF assms] assms(1) malloc_heap_ok by blast
  obtain x h2 where "record_pool_block (large_blocks p) k h1 = (True, x, h2)" "heap_ok h2"
    using record_pool_block_ok [OF m(2)] by blast
  with m(1) show ?thesis by (simp add: amqp_pool_alloc_large_def)
qed

lemma amqp_pool_alloc_page_ok:
  assumes "heap_ok h" "0 < pagesize p"
  shows "\<exists>a p' h'. amqp_pool_alloc_page p amount h = (Some a, p', h') \<and> heap_ok h'"
proof (cases "length (bl_blocks (pages p)) \<le> next_page p")
  case True
  obtain k h1 where m: "malloc (pagesize p) h = (Some k, h1)" "heap_ok h1"
    using malloc_ok [OF assms] assms(1) malloc_heap_ok by blast
  obtain x h2 where "record_pool_block (pages p) k h1 = (True, x, h2)" "heap_ok h2"
    using record_pool_block_ok [OF m(2)] by blast
  with m(1) True show ?thesis by (simp add: amqp_pool_alloc_page_def)
next
  case False
  with assms(1) show ?thesis by (simp add: amqp_pool_alloc_page_def Let_def)
qed

lemma amqp_pool_alloc_ok:
  assumes "heap_ok h" "0 < n" "n \<le> 2 ^ 63"
  shows "\<exists>a p' h'. amqp_pool_alloc p n h = (Some a, p', h') \<and> heap_ok h'"
proof (cases "pagesize p < round8 n")
  case True
  with amqp_pool_alloc_large_ok [OF assms(1), of "round8 n" p] assms(2) show ?thesis
    by (simp add: amqp_pool_alloc_def)
next
  case False
  then have "0 < pagesize p" using round8_props(2) [OF assms(2,3)] by simp
  from amqp_pool_alloc_page_ok [OF assms(1) this, of "round8 n"] assms(1,2) False
  show ?thesis by (cases "alloc_block p") (auto simp: amqp_pool_alloc_def Let_def)
qed

end
