(* ===== verification/Amqp_Pool.thy ===== *)
theory Amqp_Pool
  imports Amqp_Mem
begin

text \<open>
  Why the memory pools of \<^verbatim>\<open>amqp_mem.c\<close> are safe: the invariant of a pool, a record of the
  regions it has handed out since it was last recycled, and that an allocation keeps both whatever
  the heap refuses. The regions never overlap, stay inside their block and are 8-byte aligned.
  Emptying a pool frees what it allocated, unless the heap refused the array that records a page.
\<close>

section \<open>The invariant\<close>

definition pool_arrays :: "amqp_pool \<Rightarrow> nat set" where
  "pool_arrays p = set_option (bl_array (pages p)) \<union> set_option (bl_array (large_blocks p))"

definition pool_blocks :: "amqp_pool \<Rightarrow> nat set" where
  "pool_blocks p = set (bl_blocks (pages p)) \<union> set (bl_blocks (large_blocks p))"

text \<open>Pages that a later allocation will take.\<close>

definition free_pages :: "amqp_pool \<Rightarrow> nat set" where
  "free_pages p = set (drop (next_page p) (bl_blocks (pages p)))"

definition blocklist_wf :: "amqp_pool_blocklist \<Rightarrow> bool" where
  "blocklist_wf x \<longleftrightarrow> (bl_array x = None \<longleftrightarrow> bl_blocks x = []) \<and> distinct (bl_blocks x)"

definition pool_lists_wf :: "amqp_pool \<Rightarrow> bool" where
  "pool_lists_wf p \<longleftrightarrow>
     blocklist_wf (pages p) \<and> blocklist_wf (large_blocks p)
     \<and> set (bl_blocks (pages p)) \<inter> set (bl_blocks (large_blocks p)) = {}
     \<and> pool_arrays p \<inter> pool_blocks p = {}
     \<and> set_option (bl_array (pages p)) \<inter> set_option (bl_array (large_blocks p)) = {}
     \<and> next_page p \<le> length (bl_blocks (pages p))"

definition pool_inv :: "amqp_pool \<Rightarrow> heap \<Rightarrow> bool" where
  "pool_inv p h \<longleftrightarrow>
     heap_wf h \<and> pool_lists_wf p
     \<and> pagesize p < 2 ^ 63 \<and> alloc_used p \<le> pagesize p \<and> 8 dvd alloc_used p
     \<and> pool_arrays p \<union> pool_blocks p \<subseteq> set (h_live h)
     \<and> (\<forall>b \<in> set (bl_blocks (pages p)). h_size h b = pagesize p)
     \<and> (\<forall>b. alloc_block p = Some b \<longrightarrow>
          b \<in> set (h_live h) \<and> h_size h b = pagesize p
          \<and> b \<notin> free_pages p \<union> pool_arrays p \<union> set (bl_blocks (large_blocks p)))"

type_synonym region = "addr \<times> nat"

fun apart :: "region \<Rightarrow> region \<Rightarrow> bool" where
  "apart ((b, i), n) ((c, j), m) \<longleftrightarrow> b \<noteq> c \<or> i + n \<le> j \<or> j + m \<le> i"

fun region_ok :: "amqp_pool \<Rightarrow> heap \<Rightarrow> region \<Rightarrow> bool" where
  "region_ok p h ((b, i), n) \<longleftrightarrow>
     b \<in> set (h_live h) \<and> i + n \<le> h_size h b \<and> 8 dvd i
     \<and> b \<notin> free_pages p \<union> pool_arrays p
     \<and> (alloc_block p = Some b \<longrightarrow> i + n \<le> alloc_used p)"

definition regions_inv :: "amqp_pool \<Rightarrow> heap \<Rightarrow> region list \<Rightarrow> bool" where
  "regions_inv p h R \<longleftrightarrow> (\<forall>r \<in> set R. region_ok p h r) \<and> sorted_wrt apart R"

lemma region_cases:
  fixes r :: region
  obtains b i n where "r = ((b, i), n)"
  by (metis surj_pair)

section \<open>The heap\<close>

lemma malloc_wf:
  assumes "malloc n h = (r, h')" "heap_wf h"
  shows "heap_wf h' \<and> h_count h' = Suc (h_count h)
    \<and> (case r of
         None \<Rightarrow> h_live h' = h_live h \<and> h_size h' = h_size h
       | Some k \<Rightarrow> k = h_count h \<and> k \<notin> set (h_live h) \<and> set (h_live h') = insert k (set (h_live h))
           \<and> h_size h' = (h_size h)(k := n))"
  using assms by (auto simp: malloc_def heap_wf_def Let_def less_SucI split: if_splits)

lemma free_wf:
  "heap_wf h \<Longrightarrow> b \<in> set (h_live h) \<Longrightarrow> heap_wf (free b h) \<and> h_size (free b h) = h_size h
    \<and> set (h_live (free b h)) = set (h_live h) - {b}"
  by (auto simp: free_def heap_wf_def distinct_removeAll)

lemma record_pool_block_wf:
  assumes "record_pool_block x b h = (ok, x', h')" "heap_wf h" "set_option (bl_array x) \<subseteq> set (h_live h)"
  shows "heap_wf h'
    \<and> (if ok then
         (\<exists>a. a \<notin> set (h_live h) \<and> bl_array x' = Some a \<and> bl_blocks x' = bl_blocks x @ [b]
            \<and> set (h_live h') = insert a (set (h_live h) - set_option (bl_array x))
            \<and> (\<forall>c. c \<noteq> a \<longrightarrow> h_size h' c = h_size h c))
       else x' = x \<and> h_live h' = h_live h \<and> h_size h' = h_size h)"
proof (cases "bl_array x")
  case None
  with assms malloc_wf [of "8 * (length (bl_blocks x) + 1)" h] show ?thesis
    by (auto simp: record_pool_block_def Let_def split: prod.splits option.splits)
next
  case (Some a)
  obtain r h1 where m: "malloc (8 * (length (bl_blocks x) + 1)) h = (r, h1)" by fastforce
  from malloc_wf [OF m assms(2)] free_wf [of h1 a] Some m assms show ?thesis
    by (cases r) (auto simp: record_pool_block_def realloc_def Let_def heap_wf_def)
qed

text \<open>A new block and the new array that records it.\<close>

lemma alloc_and_record:
  assumes wf: "heap_wf h" and m: "malloc n h = (Some k, h1)"
    and rec: "record_pool_block x k h1 = (True, x', h2)" and x: "set_option (bl_array x) \<subseteq> set (h_live h)"
  obtains a where "heap_wf h2" "bl_array x' = Some a" "bl_blocks x' = bl_blocks x @ [k]"
    "k \<notin> set (h_live h)" "a \<notin> set (h_live h)" "a \<noteq> k" "h_size h2 k = n"
    "set (h_live h2) = insert a (insert k (set (h_live h)) - set_option (bl_array x))"
    "\<And>b. b \<in> set (h_live h) \<Longrightarrow> h_size h2 b = h_size h b"
proof -
  note m' = malloc_wf [OF m wf, simplified]
  obtain a where a: "heap_wf h2" "a \<notin> set (h_live h1)" "bl_array x' = Some a" "bl_blocks x' = bl_blocks x @ [k]"
    "set (h_live h2) = insert a (set (h_live h1) - set_option (bl_array x))"
    "\<And>c. c \<noteq> a \<Longrightarrow> h_size h2 c = h_size h1 c"
    using record_pool_block_wf [OF rec] m' x by auto
  moreover have "a \<noteq> k" "a \<notin> set (h_live h)" using m' a(2) by auto
  moreover have "h_size h2 k = n" using a(6) [of k] m' calculation(7) by simp
  moreover have "h_size h2 b = h_size h b" if "b \<in> set (h_live h)" for b
    using a(6) [of b] m' calculation(8) that by (cases "b = a"; cases "b = k") auto
  ultimately show ?thesis using m' by (intro that [of a]) auto
qed

section \<open>Allocation keeps the invariant\<close>

lemmas pool_defs = pool_lists_wf_def pool_arrays_def pool_blocks_def free_pages_def blocklist_wf_def

lemma pool_invD:
  assumes "pool_inv p h"
  shows "heap_wf h" "pool_lists_wf p" "set_option (bl_array (pages p)) \<subseteq> set (h_live h)"
    "set_option (bl_array (large_blocks p)) \<subseteq> set (h_live h)"
    "set (bl_blocks (pages p)) \<subseteq> set (h_live h)" "set (bl_blocks (large_blocks p)) \<subseteq> set (h_live h)"
  using assms by (auto simp: pool_inv_def pool_defs)

lemma free_pages_subset: "free_pages p \<subseteq> set (bl_blocks (pages p))"
  by (auto simp: free_pages_def dest: in_set_dropD)

lemma large_block_recorded:
  assumes inv: "pool_inv p h" and R: "regions_inv p h R"
    and m: "malloc n h = (Some k, h1)"
    and rec: "record_pool_block (large_blocks p) k h1 = (True, x, h2)"
  shows "pool_inv (p\<lparr>large_blocks := x\<rparr>) h2 \<and> regions_inv (p\<lparr>large_blocks := x\<rparr>) h2 (((k, 0), n) # R)"
proof -
  note D = pool_invD [OF inv]
  obtain a where a: "heap_wf h2" "bl_array x = Some a" "bl_blocks x = bl_blocks (large_blocks p) @ [k]"
    and fresh: "k \<notin> set (h_live h)" "a \<notin> set (h_live h)" "a \<noteq> k" and sz: "h_size h2 k = n"
    and live: "set (h_live h2) = insert a (insert k (set (h_live h)) - set_option (bl_array (large_blocks p)))"
    and keep: "\<And>b. b \<in> set (h_live h) \<Longrightarrow> h_size h2 b = h_size h b"
    using alloc_and_record [OF D(1) m rec D(4)] by blast
  let ?p = "p\<lparr>large_blocks := x\<rparr>"
  have k: "k \<notin> set_option (bl_array (large_blocks p))" "k \<notin> set_option (bl_array (pages p))"
    "k \<notin> free_pages p" "alloc_block p \<noteq> Some k"
    using fresh D inv free_pages_subset [of p] by (auto simp: pool_inv_def)
  have "pool_lists_wf ?p"
    using D fresh a(2,3) by (auto simp: pool_defs)
  moreover have "pool_arrays ?p \<union> pool_blocks ?p \<subseteq> set (h_live h2)"
    using D a(2,3) k live by (auto simp: pool_defs)
  moreover have "\<forall>b \<in> set (bl_blocks (pages p)). h_size h2 b = pagesize p"
    using inv D(5) keep by (auto simp: pool_inv_def)
  moreover have "b \<in> set (h_live h2) \<and> h_size h2 b = pagesize p \<and> b \<notin> free_pages ?p \<union> pool_arrays ?p \<union> set (bl_blocks x)"
    if "alloc_block p = Some b" for b
    using inv that live keep [of b] a(2,3) fresh by (auto simp: pool_inv_def pool_defs)
  ultimately have "pool_inv ?p h2"
    using inv a(1) by (simp add: pool_inv_def)
  moreover have "region_ok ?p h2 r" if "region_ok p h r" for r
    using that keep live fresh a(2) by (cases r rule: region_cases) (auto simp: pool_defs)
  moreover have "apart ((k, 0), n) r" if "region_ok p h r" for r
    using that fresh(1) by (cases r rule: region_cases) auto
  moreover have "region_ok ?p h2 ((k, 0), n)" using k fresh(3) live sz a(2) by (auto simp: pool_defs)
  ultimately show ?thesis using R by (auto simp: regions_inv_def)
qed

lemma page_recorded:
  assumes inv: "pool_inv p h" and R: "regions_inv p h R"
    and m: "malloc (pagesize p) h = (Some k, h1)"
    and rec: "record_pool_block (pages p) k h1 = (True, x, h2)"
    and full: "length (bl_blocks (pages p)) \<le> next_page p"
    and n: "n \<le> pagesize p" "8 dvd n"
  defines "p' \<equiv> p\<lparr>alloc_block := Some k, pages := x, next_page := length (bl_blocks x), alloc_used := n\<rparr>"
  shows "pool_inv p' h2 \<and> regions_inv p' h2 (((k, 0), n) # R)"
proof -
  note D = pool_invD [OF inv]
  obtain a where a: "heap_wf h2" "bl_array x = Some a" "bl_blocks x = bl_blocks (pages p) @ [k]"
    and fresh: "k \<notin> set (h_live h)" "a \<notin> set (h_live h)" "a \<noteq> k" and sz: "h_size h2 k = pagesize p"
    and live: "set (h_live h2) = insert a (insert k (set (h_live h)) - set_option (bl_array (pages p)))"
    and keep: "\<And>b. b \<in> set (h_live h) \<Longrightarrow> h_size h2 b = h_size h b"
    using alloc_and_record [OF D(1) m rec D(3)] by blast
  have "pool_lists_wf p'"
    using D fresh a(2,3) by (auto simp: pool_defs p'_def)
  moreover have "pool_arrays p' \<union> pool_blocks p' \<subseteq> set (h_live h2)"
    using D a(2,3) fresh live by (auto simp: pool_defs p'_def)
  moreover have "\<forall>b \<in> set (bl_blocks x). h_size h2 b = pagesize p"
    using inv D(5) keep sz a(3) by (auto simp: pool_inv_def)
  moreover have "k \<in> set (h_live h2) \<and> k \<notin> free_pages p' \<union> pool_arrays p' \<union> set (bl_blocks (large_blocks p))"
    using D fresh live a(2) by (auto simp: pool_defs p'_def)
  ultimately have "pool_inv p' h2"
    using inv a(1) sz n by (simp add: pool_inv_def p'_def)
  moreover have "region_ok p' h2 r" if "region_ok p h r" for r
    using that keep live fresh a(2) by (cases r rule: region_cases) (auto simp: pool_defs p'_def)
  moreover have "apart ((k, 0), n) r" if "region_ok p h r" for r
    using that fresh(1) by (cases r rule: region_cases) auto
  moreover have "region_ok p' h2 ((k, 0), n)"
    using D fresh live sz n a(2) by (auto simp: pool_defs p'_def)
  ultimately show ?thesis using R by (auto simp: regions_inv_def)
qed

text \<open>Blocks that come into being and blocks that are gone do not matter to a pool that has neither.\<close>

lemma pool_inv_heap:
  assumes inv: "pool_inv p h" and R: "regions_inv p h R" and wf: "heap_wf h'"
    and live: "set (h_live h) \<subseteq> set (h_live h')" and keep: "\<And>b. b \<in> set (h_live h) \<Longrightarrow> h_size h' b = h_size h b"
  shows "pool_inv p h' \<and> regions_inv p h' R"
proof -
  have "region_ok p h' r" if "region_ok p h r" for r
    using that live keep by (cases r rule: region_cases) auto
  moreover have "pool_inv p h'"
    using inv live keep wf pool_invD(5) [OF inv] unfolding pool_inv_def by auto
  ultimately show ?thesis using R by (auto simp: regions_inv_def)
qed

lemma page_unrecorded:
  assumes inv: "pool_inv p h" and R: "regions_inv p h R" and wf: "heap_wf h'"
    and k: "k \<notin> set (h_live h)" "h_size h' k = pagesize p"
    and live: "set (h_live h') = insert k (set (h_live h))"
    and keep: "\<And>b. b \<in> set (h_live h) \<Longrightarrow> h_size h' b = h_size h b"
  shows "pool_inv (p\<lparr>alloc_block := Some k\<rparr>) h' \<and> regions_inv (p\<lparr>alloc_block := Some k\<rparr>) h' R"
proof -
  note D = pool_invD [OF inv]
  have "region_ok (p\<lparr>alloc_block := Some k\<rparr>) h' r" if "region_ok p h r" for r
    using that live keep k by (cases r rule: region_cases) (auto simp: pool_defs)
  moreover have "pool_lists_wf (p\<lparr>alloc_block := Some k\<rparr>)"
    using D(2) by (simp add: pool_defs)
  moreover have "k \<notin> free_pages p \<union> pool_arrays p \<union> set (bl_blocks (large_blocks p))"
    using D k(1) free_pages_subset [of p] by (auto simp: pool_arrays_def)
  ultimately show ?thesis
    using inv R live keep wf k D(5) unfolding pool_inv_def regions_inv_def
    by (auto simp: pool_arrays_def pool_blocks_def free_pages_def)
qed

lemma no_page:
  assumes inv: "pool_inv p h" and R: "regions_inv p h R"
  shows "pool_inv (p\<lparr>alloc_block := None\<rparr>) h \<and> regions_inv (p\<lparr>alloc_block := None\<rparr>) h R"
proof -
  have "region_ok (p\<lparr>alloc_block := None\<rparr>) h r" if "region_ok p h r" for r
    using that by (cases r rule: region_cases) (auto simp: pool_defs)
  moreover have "pool_inv (p\<lparr>alloc_block := None\<rparr>) h"
    using inv by (auto simp: pool_inv_def pool_defs)
  ultimately show ?thesis using R by (auto simp: regions_inv_def)
qed

lemma page_reused:
  assumes inv: "pool_inv p h" and R: "regions_inv p h R"
    and np: "next_page p < length (bl_blocks (pages p))" and n: "n \<le> pagesize p" "8 dvd n"
  defines "k \<equiv> bl_blocks (pages p) ! next_page p"
  defines "p' \<equiv> p\<lparr>alloc_block := Some k, next_page := next_page p + 1, alloc_used := n\<rparr>"
  shows "pool_inv p' h \<and> regions_inv p' h (((k, 0), n) # R)"
proof -
  note D = pool_invD [OF inv]
  have drop: "drop (next_page p) (bl_blocks (pages p)) = k # drop (next_page p + 1) (bl_blocks (pages p))"
    using Cons_nth_drop_Suc [OF np] by (simp add: k_def)
  have "distinct (drop (next_page p) (bl_blocks (pages p)))"
    using D(2) by (simp add: pool_defs)
  then have fp: "free_pages p = insert k (free_pages p')" "k \<notin> free_pages p'"
    by (simp_all add: free_pages_def drop p'_def)
  have k: "k \<in> set (bl_blocks (pages p))" using np by (simp add: k_def)
  have "region_ok p' h r \<and> apart ((k, 0), n) r" if "region_ok p h r" for r
    using that fp by (cases r rule: region_cases) (auto simp: p'_def pool_arrays_def)
  moreover have "pool_inv p' h"
    using inv D k fp np n by (auto simp: pool_inv_def pool_lists_wf_def pool_arrays_def pool_blocks_def p'_def)
  moreover have "region_ok p' h ((k, 0), n)"
    using inv D k fp n by (auto simp: pool_inv_def pool_lists_wf_def pool_arrays_def pool_blocks_def p'_def)
  ultimately show ?thesis using R by (auto simp: regions_inv_def)
qed

lemma page_bumped:
  assumes inv: "pool_inv p h" and R: "regions_inv p h R" and b: "alloc_block p = Some b"
    and fits: "alloc_used p + n \<le> pagesize p" and n: "8 dvd n"
  defines "p' \<equiv> p\<lparr>alloc_used := alloc_used p + n\<rparr>"
  shows "pool_inv p' h \<and> regions_inv p' h (((b, alloc_used p), n) # R)"
proof -
  have "region_ok p' h r \<and> apart ((b, alloc_used p), n) r" if "region_ok p h r" for r
    using that b by (cases r rule: region_cases) (auto simp: p'_def pool_defs)
  moreover have "pool_inv p' h"
    using inv fits n by (auto simp: pool_inv_def pool_defs p'_def)
  moreover have "region_ok p' h ((b, alloc_used p), n)"
    using inv b fits by (auto simp: pool_inv_def pool_defs p'_def)
  ultimately show ?thesis using R by (auto simp: regions_inv_def)
qed

definition alloc_result_ok :: "region list \<Rightarrow> nat \<Rightarrow> addr option \<times> amqp_pool \<times> heap \<Rightarrow> bool" where
  "alloc_result_ok R n = (\<lambda>(r, p, h).
     pool_inv p h \<and> (case r of None \<Rightarrow> regions_inv p h R | Some a \<Rightarrow> regions_inv p h ((a, n) # R)))"

lemma alloc_large_inv:
  assumes inv: "pool_inv p h" and R: "regions_inv p h R"
  shows "alloc_result_ok R n (amqp_pool_alloc_large p n h)"
proof (cases "malloc n h")
  case (Pair r h1)
  note m = malloc_wf [OF Pair pool_invD(1) [OF inv]]
  show ?thesis
  proof (cases r)
    case None
    with pool_inv_heap [OF inv R, of h1] m Pair show ?thesis
      by (simp add: alloc_result_ok_def amqp_pool_alloc_large_def)
  next
    case (Some k)
    obtain ok x h2 where rec: "record_pool_block (large_blocks p) k h1 = (ok, x, h2)"
      by (metis prod_cases3)
    show ?thesis
    proof (cases ok)
      case True
      with large_block_recorded [OF inv R, of n k h1 x h2] Pair Some rec show ?thesis
        by (simp add: alloc_result_ok_def amqp_pool_alloc_large_def)
    next
      case False
      have x: "set_option (bl_array (large_blocks p)) \<subseteq> set (h_live h1)"
        using m Some pool_invD(4) [OF inv] by auto
      have "set (h_live h) \<subseteq> set (h_live (free k h2))" "heap_wf (free k h2)"
        "\<And>b. b \<in> set (h_live h) \<Longrightarrow> h_size (free k h2) b = h_size h b"
        using record_pool_block_wf [OF rec _ x] m Some False free_wf [of h2 k] by auto
      with pool_inv_heap [OF inv R] Pair Some rec False show ?thesis
        by (simp add: alloc_result_ok_def amqp_pool_alloc_large_def)
    qed
  qed
qed

lemma alloc_page_inv:
  assumes inv: "pool_inv p h" and R: "regions_inv p h R" and n: "n \<le> pagesize p" "8 dvd n"
  shows "alloc_result_ok R n (amqp_pool_alloc_page p n h)"
proof (cases "next_page p < length (bl_blocks (pages p))")
  case True
  with page_reused [OF inv R True n] show ?thesis
    by (simp add: alloc_result_ok_def amqp_pool_alloc_page_def Let_def)
next
  case full: False
  obtain r h1 where M: "malloc (pagesize p) h = (r, h1)" by fastforce
  note m = malloc_wf [OF M pool_invD(1) [OF inv]]
  show ?thesis
  proof (cases r)
    case None
    with pool_inv_heap [OF inv R, of h1] m have "pool_inv p h1 \<and> regions_inv p h1 R" by simp
    with no_page [of p h1 R] None M full show ?thesis
      by (simp add: alloc_result_ok_def amqp_pool_alloc_page_def)
  next
    case (Some k)
    obtain ok x h2 where rec: "record_pool_block (pages p) k h1 = (ok, x, h2)"
      by (metis prod_cases3)
    show ?thesis
    proof (cases ok)
      case True
      with page_recorded [OF inv R _ _ _ n, of k h1 x h2] M Some rec full show ?thesis
        by (simp add: alloc_result_ok_def amqp_pool_alloc_page_def)
    next
      case False
      have x: "set_option (bl_array (pages p)) \<subseteq> set (h_live h1)"
        using m Some pool_invD(3) [OF inv] by auto
      have "pool_inv (p\<lparr>alloc_block := Some k\<rparr>) h2 \<and> regions_inv (p\<lparr>alloc_block := Some k\<rparr>) h2 R"
        by (rule page_unrecorded [OF inv R])
          (use record_pool_block_wf [OF rec _ x] m Some False in auto)
      with M Some rec False full show ?thesis
        by (simp add: alloc_result_ok_def amqp_pool_alloc_page_def)
    qed
  qed
qed

lemma amqp_pool_alloc_inv:
  assumes inv: "pool_inv p h" and R: "regions_inv p h R" and n: "0 < n" "n \<le> 2 ^ 63"
  shows "alloc_result_ok R (round8 n) (amqp_pool_alloc p n h)"
proof (cases "pagesize p < round8 n")
  case True
  with alloc_large_inv [OF inv R] n show ?thesis by (simp add: amqp_pool_alloc_def)
next
  case False
  note r8 = round8_props [OF n]
  have page: "alloc_result_ok R (round8 n) (amqp_pool_alloc_page p (round8 n) h)"
    using alloc_page_inv [OF inv R _ r8(3)] False by simp
  have no_wrap: "sz_add (alloc_used p) (round8 n) = alloc_used p + round8 n"
    using inv False by (simp add: pool_inv_def)
  show ?thesis
  proof (cases "alloc_block p")
    case None
    with page False n show ?thesis by (simp add: amqp_pool_alloc_def)
  next
    case (Some b)
    with page page_bumped [OF inv R Some _ r8(3)] False n no_wrap show ?thesis
      by (simp add: amqp_pool_alloc_def alloc_result_ok_def Let_def)
  qed
qed

section \<open>A sequence of allocations\<close>

text \<open>The regions handed out for a list of requests, the last one first.\<close>

fun pool_run :: "nat list \<Rightarrow> region list \<Rightarrow> amqp_pool \<Rightarrow> heap \<Rightarrow> region list \<times> amqp_pool \<times> heap" where
  "pool_run [] R p h = (R, p, h)"
| "pool_run (n # ns) R p h =
    (case amqp_pool_alloc p n h of
       (None, p', h') \<Rightarrow> pool_run ns R p' h'
     | (Some a, p', h') \<Rightarrow> pool_run ns ((a, round8 n) # R) p' h')"

lemma pool_run_inv:
  assumes "pool_inv p h" "regions_inv p h R" "\<forall>n \<in> set ns. 0 < n \<and> n \<le> 2 ^ 63" "pool_run ns R p h = (R', p', h')"
  shows "pool_inv p' h' \<and> regions_inv p' h' R'"
  using assms
proof (induction ns arbitrary: R p h)
  case (Cons n ns)
  obtain r p1 h1 where alloc: "amqp_pool_alloc p n h = (r, p1, h1)" by (metis prod_cases3)
  have "alloc_result_ok R (round8 n) (r, p1, h1)"
    using amqp_pool_alloc_inv [OF Cons.prems(1,2), of n] Cons.prems(3) alloc by simp
  with alloc Cons show ?case
    by (cases r) (auto simp: alloc_result_ok_def)
qed simp

lemma init_pool_inv: "heap_wf h \<Longrightarrow> psize < 2 ^ 63 \<Longrightarrow> pool_inv (init_amqp_pool psize) h"
  by (simp add: pool_inv_def init_amqp_pool_def pool_defs)

lemma regions_inv_Nil [simp]: "regions_inv p h []"
  by (simp add: regions_inv_def)

section \<open>Recycling and emptying\<close>

lemma fold_free_wf:
  "heap_wf h \<Longrightarrow> distinct bs \<Longrightarrow> set bs \<subseteq> set (h_live h)
    \<Longrightarrow> heap_wf (fold free bs h) \<and> h_size (fold free bs h) = h_size h
    \<and> set (h_live (fold free bs h)) = set (h_live h) - set bs"
proof (induction bs arbitrary: h)
  case (Cons b bs)
  from Cons.IH [of "free b h"] free_wf [OF Cons.prems(1), of b] Cons.prems(2,3) show ?case by auto
qed simp

lemma empty_blocklist_wf:
  assumes "heap_wf h" "blocklist_wf x" "empty_blocklist x h = (x', h')"
    and live: "set (bl_blocks x) \<union> set_option (bl_array x) \<subseteq> set (h_live h)"
      "set (bl_blocks x) \<inter> set_option (bl_array x) = {}"
  shows "x' = empty_blocks \<and> heap_wf h' \<and> h_size h' = h_size h
    \<and> set (h_live h') = set (h_live h) - set (bl_blocks x) - set_option (bl_array x)"
proof (cases "bl_array x")
  case None
  with assms show ?thesis by (auto simp: empty_blocklist_def blocklist_wf_def)
next
  case (Some a)
  with assms fold_free_wf [OF assms(1), of "bl_blocks x"] free_wf [of "fold free (bl_blocks x) h" a]
  show ?thesis by (auto simp: empty_blocklist_def blocklist_wf_def)
qed

lemma recycle_pool_inv:
  assumes "pool_inv p h" "recycle_amqp_pool p h = (p', h')"
  shows "pool_inv p' h' \<and> pages p' = pages p \<and> large_blocks p' = empty_blocks
    \<and> set (h_live h') = set (h_live h) - set (bl_blocks (large_blocks p)) - set_option (bl_array (large_blocks p))"
proof -
  note D = pool_invD [OF assms(1)]
  obtain x h1 where e: "empty_blocklist (large_blocks p) h = (x, h1)" by fastforce
  have bw: "blocklist_wf (large_blocks p)" using D(2) by (simp add: pool_lists_wf_def)
  have "set (bl_blocks (large_blocks p)) \<inter> set_option (bl_array (large_blocks p)) = {}"
    using D(2) by (auto simp: pool_defs)
  with D(4,6) have w: "x = empty_blocks \<and> heap_wf h1 \<and> h_size h1 = h_size h
    \<and> set (h_live h1) = set (h_live h) - set (bl_blocks (large_blocks p)) - set_option (bl_array (large_blocks p))"
    by (intro empty_blocklist_wf [OF D(1) bw e]) simp_all
  have p': "p' = p\<lparr>large_blocks := empty_blocks, next_page := 0, alloc_block := None, alloc_used := 0\<rparr>" "h' = h1"
    using assms(2) e w by (auto simp: recycle_amqp_pool_def)
  have "pool_lists_wf p'" using D(2) by (auto simp: p' pool_defs)
  moreover have "pool_arrays p' \<union> pool_blocks p' \<subseteq> set (h_live h')"
    using D w by (auto simp: p' pool_defs)
  ultimately show ?thesis using assms(1) w p' by (simp add: pool_inv_def)
qed

lemma empty_pool_live:
  assumes "pool_inv p h" "empty_amqp_pool p h = (p', h')"
  shows "heap_wf h' \<and> set (h_live h') = set (h_live h) - pool_blocks p - pool_arrays p
    \<and> pool_blocks p' = {} \<and> pool_arrays p' = {} \<and> alloc_block p' = None"
proof -
  obtain p1 h1 where r: "recycle_amqp_pool p h = (p1, h1)" by fastforce
  note w = recycle_pool_inv [OF assms(1) r]
  obtain x h2 where e: "empty_blocklist (pages p) h1 = (x, h2)" by fastforce
  have bw: "blocklist_wf (pages p)" using pool_invD(2) [OF assms(1)] by (simp add: pool_lists_wf_def)
  have inv: "pool_inv p1 h1" and pgs: "pages p1 = pages p" using w by simp_all
  note D = pool_invD [OF inv]
  have "set (bl_blocks (pages p)) \<inter> set_option (bl_array (pages p)) = {}"
    using D(2) pgs by (auto simp: pool_defs)
  then have v: "x = empty_blocks \<and> heap_wf h2 \<and> h_size h2 = h_size h1
    \<and> set (h_live h2) = set (h_live h1) - set (bl_blocks (pages p)) - set_option (bl_array (pages p))"
    using D(3,5) pgs by (intro empty_blocklist_wf [OF D(1) bw e]) simp_all
  have "p' = p1\<lparr>pages := empty_blocks\<rparr>" "h' = h2"
    using assms(2) r e v w by (auto simp: empty_amqp_pool_def)
  moreover have "alloc_block p1 = None"
    using r by (auto simp: recycle_amqp_pool_def split: prod.splits)
  ultimately show ?thesis using v w by (auto simp: pool_arrays_def pool_blocks_def)
qed

section \<open>What a pool owns\<close>

text \<open>The blocks of the heap are those of the pool and the blocks \<open>others\<close> of the rest of the program.\<close>

definition accounted :: "nat set \<Rightarrow> amqp_pool \<Rightarrow> heap \<Rightarrow> bool" where
  "accounted others p h \<longleftrightarrow>
    set (h_live h) = others \<union> pool_blocks p \<union> pool_arrays p \<and> others \<inter> (pool_blocks p \<union> pool_arrays p) = {}"

lemma accounted_step:
  assumes "accounted others p h" "pool_blocks p' = insert k (pool_blocks p)"
    "pool_arrays p' = insert a (pool_arrays p - old)" "old \<subseteq> pool_arrays p" "pool_arrays p \<inter> pool_blocks p = {}"
    "k \<notin> set (h_live h)" "a \<notin> set (h_live h)" "set (h_live h') = insert a (insert k (set (h_live h)) - old)"
  shows "accounted others p' h'"
proof -
  have live: "set (h_live h) = others \<union> pool_blocks p \<union> pool_arrays p"
    and apart: "others \<inter> (pool_blocks p \<union> pool_arrays p) = {}"
    using assms(1) by (auto simp: accounted_def)
  have "insert k (set (h_live h)) - old = others \<union> insert k (pool_blocks p) \<union> (pool_arrays p - old)"
    using live apart assms(4,5,6) by auto
  moreover have "k \<notin> others" "a \<notin> others" using live assms(6,7) by auto
  ultimately show ?thesis
    using apart by (auto simp: accounted_def assms(2,3,8))
qed

lemma accounted_large:
  assumes inv: "pool_inv p h" and acc: "accounted others p h" and ok: "heap_ok h" "0 < n"
    and alloc: "amqp_pool_alloc_large p n h = (r, p', h')"
  shows "accounted others p' h'"
proof -
  note D = pool_invD [OF inv]
  obtain k h1 where m: "malloc n h = (Some k, h1)" "heap_ok h1"
    using malloc_ok [OF ok] ok(1) malloc_heap_ok by blast
  obtain x h2 where rec: "record_pool_block (large_blocks p) k h1 = (True, x, h2)"
    using record_pool_block_ok [OF m(2)] by blast
  show ?thesis
  proof (rule alloc_and_record [OF D(1) m(1) rec D(4)])
    fix a
    assume x: "bl_array x = Some a" "bl_blocks x = bl_blocks (large_blocks p) @ [k]"
      and fresh: "k \<notin> set (h_live h)" "a \<notin> set (h_live h)" "a \<noteq> k"
      and live: "set (h_live h2) = insert a (insert k (set (h_live h)) - set_option (bl_array (large_blocks p)))"
    have "p' = p\<lparr>large_blocks := x\<rparr>" "h' = h2"
      using alloc m(1) rec by (auto simp: amqp_pool_alloc_large_def)
    then have p': "pool_blocks p' = insert k (pool_blocks p)"
      "pool_arrays p' = insert a (set_option (bl_array (pages p)))" "h' = h2"
      using x by (auto simp: pool_blocks_def pool_arrays_def)
    have "set_option (bl_array (pages p)) = pool_arrays p - set_option (bl_array (large_blocks p))"
      "set_option (bl_array (large_blocks p)) \<subseteq> pool_arrays p" "pool_arrays p \<inter> pool_blocks p = {}"
      using D(2) by (auto simp: pool_lists_wf_def pool_arrays_def)
    with p' accounted_step [OF acc p'(1) _ _ _ fresh(1,2) live] show ?thesis by simp
  qed
qed

lemma accounted_page:
  assumes inv: "pool_inv p h" and acc: "accounted others p h" and ok: "heap_ok h" "0 < pagesize p"
    and alloc: "amqp_pool_alloc_page p n h = (r, p', h')"
  shows "accounted others p' h'"
proof (cases "next_page p < length (bl_blocks (pages p))")
  case True
  with alloc have "pool_blocks p' = pool_blocks p" "pool_arrays p' = pool_arrays p" "h' = h"
    by (auto simp: amqp_pool_alloc_page_def Let_def pool_blocks_def pool_arrays_def)
  with acc show ?thesis by (simp add: accounted_def)
next
  case full: False
  note D = pool_invD [OF inv]
  obtain k h1 where m: "malloc (pagesize p) h = (Some k, h1)" "heap_ok h1"
    using malloc_ok [OF ok] ok(1) malloc_heap_ok by blast
  obtain x h2 where rec: "record_pool_block (pages p) k h1 = (True, x, h2)"
    using record_pool_block_ok [OF m(2)] by blast
  show ?thesis
  proof (rule alloc_and_record [OF D(1) m(1) rec D(3)])
    fix a
    assume x: "bl_array x = Some a" "bl_blocks x = bl_blocks (pages p) @ [k]"
      and fresh: "k \<notin> set (h_live h)" "a \<notin> set (h_live h)" "a \<noteq> k"
      and live: "set (h_live h2) = insert a (insert k (set (h_live h)) - set_option (bl_array (pages p)))"
    have "p' = p\<lparr>alloc_block := Some k, pages := x, next_page := length (bl_blocks x), alloc_used := n\<rparr>" "h' = h2"
      using alloc m(1) rec full by (auto simp: amqp_pool_alloc_page_def)
    then have p': "pool_blocks p' = insert k (pool_blocks p)"
      "pool_arrays p' = insert a (set_option (bl_array (large_blocks p)))" "h' = h2"
      using x by (auto simp: pool_blocks_def pool_arrays_def)
    have "set_option (bl_array (large_blocks p)) = pool_arrays p - set_option (bl_array (pages p))"
      "set_option (bl_array (pages p)) \<subseteq> pool_arrays p" "pool_arrays p \<inter> pool_blocks p = {}"
      using D(2) by (auto simp: pool_lists_wf_def pool_arrays_def)
    with p' accounted_step [OF acc p'(1) _ _ _ fresh(1,2) live] show ?thesis by simp
  qed
qed

lemma accounted_alloc:
  assumes inv: "pool_inv p h" and acc: "accounted others p h" and ok: "heap_ok h"
    and n: "0 < n" "n \<le> 2 ^ 63" and alloc: "amqp_pool_alloc p n h = (r, p', h')"
  shows "accounted others p' h' \<and> heap_ok h'"
proof -
  have "0 < round8 n" using round8_props(2) [OF n] by simp
  moreover have "heap_ok h'" using amqp_pool_alloc_ok [OF ok n, of p] alloc by auto
  moreover have "accounted others (p\<lparr>alloc_used := u\<rparr>) h" for u
    using acc by (simp add: accounted_def pool_defs)
  moreover have "0 < pagesize p" if "\<not> pagesize p < round8 n" using that calculation(1) by simp
  ultimately show ?thesis
    using alloc accounted_large [OF inv acc ok, of "round8 n" r p' h']
      accounted_page [OF inv acc ok, of "round8 n" r p' h'] n
    by (auto simp: amqp_pool_alloc_def Let_def split: if_splits option.splits)
qed

lemma pool_run_accounted:
  assumes "pool_inv p h" "regions_inv p h R" "accounted others p h" "heap_ok h"
    "\<forall>n \<in> set ns. 0 < n \<and> n \<le> 2 ^ 63" "pool_run ns R p h = (R', p', h')"
  shows "accounted others p' h'"
  using assms
proof (induction ns arbitrary: R p h)
  case (Cons n ns)
  obtain r p1 h1 where alloc: "amqp_pool_alloc p n h = (r, p1, h1)" by (metis prod_cases3)
  have "alloc_result_ok R (round8 n) (r, p1, h1)"
    using amqp_pool_alloc_inv [OF Cons.prems(1,2), of n] Cons.prems(5) alloc by simp
  moreover have "accounted others p1 h1 \<and> heap_ok h1"
    using accounted_alloc [OF Cons.prems(1,3,4) _ _ alloc] Cons.prems(5) by simp
  ultimately show ?case
    using alloc Cons by (cases r) (auto simp: alloc_result_ok_def)
qed simp

end
