(* ===== verification/Amqp_Alloc.thy ===== *)
theory Amqp_Alloc
  imports Amqp_Pool
begin

text \<open>
  Code that takes its memory from a pool, as a state monad over the pool and the heap: the
  sequencing with an early return, the loops over an array, and the contract such code keeps. A
  computation is \<open>pool_safe\<close> if it keeps the invariant of the pool, every region handed out
  before stays valid and untouched by the new ones, and it fails with a status only.

  The last section has the byte-string helpers of \<^verbatim>\<open>amqp_mem.c\<close>.
\<close>

type_synonym 'a palloc = "amqp_pool \<times> heap \<Rightarrow> 'a outcome \<times> amqp_pool \<times> heap"

definition p_return :: "'a \<Rightarrow> 'a palloc" where
  "p_return v = (\<lambda>(p, h). (Inr v, p, h))"

definition p_fail :: "fault \<Rightarrow> 'a palloc" where
  "p_fail e = (\<lambda>(p, h). (Inl e, p, h))"

definition p_bind :: "'a palloc \<Rightarrow> ('a \<Rightarrow> 'b palloc) \<Rightarrow> 'b palloc" where
  "p_bind m f s = (case m s of (Inl e, p, h) \<Rightarrow> (Inl e, p, h) | (Inr v, p, h) \<Rightarrow> f v (p, h))"

text \<open>\<^verbatim>\<open>amqp_pool_alloc\<close> followed by the test for \<^verbatim>\<open>NULL\<close>.\<close>

definition p_alloc :: "nat \<Rightarrow> addr palloc" where
  "p_alloc n = (\<lambda>(p, h). case amqp_pool_alloc p n h of
     (None, p', h') \<Rightarrow> (Inl (Status AMQP_STATUS_NO_MEMORY), p', h')
   | (Some a, p', h') \<Rightarrow> (Inr a, p', h'))"

text \<open>A loop that fills an array, and a loop that updates one.\<close>

fun p_map :: "('a \<Rightarrow> 'b palloc) \<Rightarrow> 'a list \<Rightarrow> 'b list palloc" where
  "p_map f [] = p_return []"
| "p_map f (x # xs) = p_bind (f x) (\<lambda>y. p_bind (p_map f xs) (\<lambda>ys. p_return (y # ys)))"

fun p_fold :: "('a \<Rightarrow> 'b \<Rightarrow> 'b palloc) \<Rightarrow> 'a list \<Rightarrow> 'b \<Rightarrow> 'b palloc" where
  "p_fold f [] acc = p_return acc"
| "p_fold f (x # xs) acc = p_bind (f x acc) (p_fold f xs)"

lemma p_map_cong [fundef_cong]:
  "xs = ys \<Longrightarrow> (\<And>x. x \<in> set ys \<Longrightarrow> f x = g x) \<Longrightarrow> p_map f xs = p_map g ys"
  by (induction xs arbitrary: ys) auto

lemma p_fold_cong [fundef_cong]:
  assumes "xs = ys" "acc = acc'" "\<And>x. x \<in> set ys \<Longrightarrow> f x = g x"
  shows "p_fold f xs acc = p_fold g ys acc'"
proof -
  have "p_fold f ys = p_fold g ys"
    using assms(3) by (induction ys) auto
  with assms show ?thesis by simp
qed

section \<open>The contract\<close>

definition pool_safe :: "'a palloc \<Rightarrow> bool" where
  "pool_safe m \<longleftrightarrow> (\<forall>p h R. pool_inv p h \<longrightarrow> regions_inv p h R \<longrightarrow>
    (case m (p, h) of (r, p', h') \<Rightarrow>
       pool_inv p' h' \<and> (\<exists>R'. set R \<subseteq> set R' \<and> regions_inv p' h' R')
       \<and> (\<forall>e. r = Inl e \<longrightarrow> (\<exists>s. e = Status s))))"

lemma pool_safeD:
  assumes "pool_safe m" "pool_inv p h" "regions_inv p h R" "m (p, h) = (r, p', h')"
  shows "pool_inv p' h'" "\<exists>R'. set R \<subseteq> set R' \<and> regions_inv p' h' R'" "\<And>e. r = Inl e \<Longrightarrow> \<exists>s. e = Status s"
  using assms unfolding pool_safe_def by fastforce+

named_theorems pool_safe_intros \<open>computations that keep the contract of a pool\<close>

lemma pool_safe_return [pool_safe_intros]: "pool_safe (p_return v)"
  by (auto simp: pool_safe_def p_return_def)

lemma pool_safe_fail [pool_safe_intros]: "pool_safe (p_fail (Status s))"
  by (auto simp: pool_safe_def p_fail_def)

lemma pool_safe_alloc [pool_safe_intros]: "n \<le> 2 ^ 63 \<Longrightarrow> pool_safe (p_alloc n)"
proof (cases "n = 0")
  case True
  then show ?thesis by (auto simp: pool_safe_def p_alloc_def amqp_pool_alloc_def)
next
  case False
  assume "n \<le> 2 ^ 63"
  show ?thesis unfolding pool_safe_def
  proof (intro allI impI)
    fix p h R
    assume "pool_inv p h" "regions_inv p h R"
    from amqp_pool_alloc_inv [OF this _ \<open>n \<le> 2 ^ 63\<close>] False
    have ok: "alloc_result_ok R (round8 n) (amqp_pool_alloc p n h)" by simp
    obtain r p' h' where a: "amqp_pool_alloc p n h = (r, p', h')" by (metis prod_cases3)
    show "case p_alloc n (p, h) of (r, p', h') \<Rightarrow>
       pool_inv p' h' \<and> (\<exists>R'. set R \<subseteq> set R' \<and> regions_inv p' h' R')
       \<and> (\<forall>e. r = Inl e \<longrightarrow> (\<exists>s. e = Status s))"
      using ok a by (cases r) (auto simp: alloc_result_ok_def p_alloc_def intro: exI [of _ "(_, _) # R"])
  qed
qed

lemma pool_safe_bind [pool_safe_intros]:
  assumes "pool_safe m" "\<And>v. pool_safe (f v)"
  shows "pool_safe (p_bind m f)"
  unfolding pool_safe_def
proof (intro allI impI)
  fix p h R
  assume inv: "pool_inv p h" "regions_inv p h R"
  obtain r p1 h1 where m: "m (p, h) = (r, p1, h1)" by (metis prod_cases3)
  note s = pool_safeD [OF assms(1) inv m]
  show "case p_bind m f (p, h) of (r, p', h') \<Rightarrow>
      pool_inv p' h' \<and> (\<exists>R'. set R \<subseteq> set R' \<and> regions_inv p' h' R')
      \<and> (\<forall>e. r = Inl e \<longrightarrow> (\<exists>s. e = Status s))"
  proof (cases r)
    case (Inl e)
    with m s show ?thesis by (simp add: p_bind_def)
  next
    case (Inr v)
    from s(2) obtain R1 where R1: "set R \<subseteq> set R1" "regions_inv p1 h1 R1" by blast
    obtain r' p2 h2 where f: "f v (p1, h1) = (r', p2, h2)" by (metis prod_cases3)
    note s2 = pool_safeD [OF assms(2) s(1) R1(2) f]
    from s2(2) R1(1) have "\<exists>R'. set R \<subseteq> set R' \<and> regions_inv p2 h2 R'" by blast
    with s2(1,3) m Inr f show ?thesis by (simp add: p_bind_def)
  qed
qed

lemma pool_safe_map [pool_safe_intros]: "(\<And>x. x \<in> set xs \<Longrightarrow> pool_safe (f x)) \<Longrightarrow> pool_safe (p_map f xs)"
  by (induction xs) (auto intro!: pool_safe_intros)

section \<open>Results when memory is granted\<close>

text \<open>\<open>yields m r\<close>: on a heap that grants every request the computation ends with \<open>r\<close>.\<close>

definition yields :: "'a palloc \<Rightarrow> 'a outcome \<Rightarrow> bool" where
  "yields m r \<longleftrightarrow> (\<forall>p h. heap_ok h \<longrightarrow> (\<exists>p' h'. m (p, h) = (r, p', h') \<and> heap_ok h'))"

lemma yieldsD: "yields m r \<Longrightarrow> heap_ok h \<Longrightarrow> \<exists>p' h'. m (p, h) = (r, p', h') \<and> heap_ok h'"
  by (simp add: yields_def)

lemma yields_return [simp]: "yields (p_return v) (Inr v)"
  by (simp add: yields_def p_return_def)

lemma yields_fail [simp]: "yields (p_fail e) (Inl e)"
  by (simp add: yields_def p_fail_def)

lemma yields_bind:
  assumes m: "yields m (Inr v)" and f: "yields (f v) r"
  shows "yields (p_bind m f) r"
  unfolding yields_def
proof (intro allI impI)
  fix p h
  assume "heap_ok h"
  from yieldsD [OF m this] obtain p1 h1 where "m (p, h) = (Inr v, p1, h1)" "heap_ok h1" by blast
  with yieldsD [OF f, of h1 p1] show "\<exists>p' h'. p_bind m f (p, h) = (r, p', h') \<and> heap_ok h'"
    by (simp add: p_bind_def)
qed

lemma yields_bind_fail:
  assumes "yields m (Inl e)"
  shows "yields (p_bind m f) (Inl e)"
  unfolding yields_def
proof (intro allI impI)
  fix p h
  assume "heap_ok h"
  from yieldsD [OF assms this, of p] show "\<exists>p' h'. p_bind m f (p, h) = (Inl e, p', h') \<and> heap_ok h'"
    by (auto simp: p_bind_def)
qed

lemma yields_alloc:
  assumes "0 < n" "n \<le> 2 ^ 63" "\<And>a. yields (f a) r"
  shows "yields (p_bind (p_alloc n) f) r"
  unfolding yields_def
proof (intro allI impI)
  fix p h
  assume "heap_ok h"
  from amqp_pool_alloc_ok [OF this assms(1,2)] obtain a p1 h1
    where "amqp_pool_alloc p n h = (Some a, p1, h1)" "heap_ok h1" by blast
  with assms(3) [of a] show "\<exists>p' h'. p_bind (p_alloc n) f (p, h) = (r, p', h') \<and> heap_ok h'"
    by (simp add: p_bind_def p_alloc_def yields_def)
qed

lemma yields_map:
  assumes "\<And>x. x \<in> set xs \<Longrightarrow> yields (f x) (if P x then Inr (g x) else Inl e)"
  shows "yields (p_map f xs) (if list_all P xs then Inr (map g xs) else Inl e)"
  using assms
proof (induction xs)
  case (Cons x xs)
  then have x: "yields (f x) (if P x then Inr (g x) else Inl e)"
    and xs: "yields (p_map f xs) (if list_all P xs then Inr (map g xs) else Inl e)" by simp_all
  show ?case
  proof (cases "P x")
    case True
    with x have "yields (f x) (Inr (g x))" by simp
    then show ?thesis
      using xs True by (auto intro!: yields_bind [where v = "g x"] intro: yields_bind [where v = "map g xs"] yields_bind_fail)
  next
    case False
    with x show ?thesis by (auto intro: yields_bind_fail)
  qed
qed simp

section \<open>amqp\_mem.c: byte strings\<close>

text \<open>\<^verbatim>\<open>memcmp\<close>: the order of the first bytes that differ, as unsigned numbers.\<close>

fun memcmp :: "amqp_bytes \<Rightarrow> amqp_bytes \<Rightarrow> int" where
  "memcmp (x # xs) (y # ys) = (if x = y then memcmp xs ys else if x < y then -1 else 1)"
| "memcmp _ _ = 0"

definition amqp_bytes_equal :: "amqp_bytes \<Rightarrow> amqp_bytes \<Rightarrow> bool" where
  "amqp_bytes_equal r l \<longleftrightarrow> length r = length l \<and> memcmp r l = 0"

text \<open>\<^verbatim>\<open>amqp_cstring_bytes\<close> keeps the bytes up to the first zero byte.\<close>

definition amqp_cstring_bytes :: "amqp_bytes \<Rightarrow> amqp_bytes" where
  "amqp_cstring_bytes cstr = takeWhile (\<lambda>c. c \<noteq> 0) cstr"

text \<open>A byte string on the heap: its bytes and the block that holds them, \<open>None\<close> for \<^verbatim>\<open>NULL\<close>.\<close>

record heap_bytes =
  hb_bytes :: amqp_bytes
  hb_block :: "nat option"

text \<open>The bytes of a new block are those that were there before, \<open>stale\<close>, and zeros behind them.\<close>

definition amqp_bytes_malloc :: "amqp_bytes \<Rightarrow> nat \<Rightarrow> heap \<Rightarrow> heap_bytes \<times> heap" where
  "amqp_bytes_malloc stale amount h =
    (case malloc amount h of
       (b, h') \<Rightarrow> (\<lparr>hb_bytes = take amount (stale @ replicate amount 0), hb_block = b\<rparr>, h'))"

definition amqp_bytes_malloc_dup :: "amqp_bytes \<Rightarrow> heap \<Rightarrow> heap_bytes \<times> heap" where
  "amqp_bytes_malloc_dup src h =
    (case malloc (length src) h of (b, h') \<Rightarrow> (\<lparr>hb_bytes = src, hb_block = b\<rparr>, h'))"

definition amqp_bytes_free :: "heap_bytes \<Rightarrow> heap \<Rightarrow> heap" where
  "amqp_bytes_free bytes h = free_opt (hb_block bytes) h"

lemma memcmp_eq_0 [simp]: "length r = length l \<Longrightarrow> memcmp r l = 0 \<longleftrightarrow> r = l"
  by (induction r l rule: memcmp.induct) auto

lemma amqp_bytes_equal_eq [simp]: "amqp_bytes_equal r l \<longleftrightarrow> r = l"
  by (auto simp: amqp_bytes_equal_def)

end
