(* ===== verification/Amqp_Url.thy ===== *)
theory Amqp_Url
  imports Amqp_Alloc
begin

text \<open>
  Connection URLs (\<^verbatim>\<open>amqp_url.c\<close>). \<^verbatim>\<open>find_delim\<close> copies a component of the URL over the URL itself;
  the copy never overtakes the scan, so that the component and the rest of the URL are two values
  here. A component is a C string and ends at its first zero byte, which \<^verbatim>\<open>%00\<close> can put into its
  middle. The record of a failed call is not modelled, only its status.

  Of the C library the code uses \<^verbatim>\<open>sscanf\<close> with \<^verbatim>\<open>%2x%n\<close> and \<^verbatim>\<open>strtol\<close>; both skip white space
  and accept a sign.
\<close>

section \<open>The C library\<close>

definition is_space :: "u8 \<Rightarrow> bool" where
  "is_space c \<longleftrightarrow> c = 0x20 \<or> 9 \<le> c \<and> c \<le> 13"

definition hex_digit :: "u8 \<Rightarrow> nat option" where
  "hex_digit c =
    (if 0x30 \<le> c \<and> c \<le> 0x39 then Some (unat c - 0x30)
     else if 0x41 \<le> c \<and> c \<le> 0x46 then Some (unat c - 0x37)
     else if 0x61 \<le> c \<and> c \<le> 0x66 then Some (unat c - 0x57)
     else None)"

definition dec_digit :: "u8 \<Rightarrow> nat option" where
  "dec_digit c = (if 0x30 \<le> c \<and> c \<le> 0x39 then Some (unat c - 0x30) else None)"

text \<open>
  An unsigned hexadecimal number of at most \<open>w\<close> digits: its value and the number of digits. A
  leading \<^verbatim>\<open>0x\<close> is part of the item, and an item that ends there does not match.
\<close>

fun scan_digits :: "nat \<Rightarrow> amqp_bytes \<Rightarrow> nat \<Rightarrow> nat \<times> nat" where
  "scan_digits 0 s acc = (acc, 0)"
| "scan_digits w [] acc = (acc, 0)"
| "scan_digits (Suc w) (c # s) acc =
    (case hex_digit c of
       None \<Rightarrow> (acc, 0)
     | Some d \<Rightarrow> (case scan_digits w s (16 * acc + d) of (v, n) \<Rightarrow> (v, Suc n)))"

definition scan_item :: "nat \<Rightarrow> amqp_bytes \<Rightarrow> (nat \<times> nat) option" where
  "scan_item w s =
    (case s of
       c # x # _ \<Rightarrow>
         if 2 \<le> w \<and> c = 0x30 \<and> (x = 0x78 \<or> x = 0x58) then None
         else (case scan_digits w s 0 of (v, n) \<Rightarrow> if n = 0 then None else Some (v, n))
     | _ \<Rightarrow> (case scan_digits w s 0 of (v, n) \<Rightarrow> if n = 0 then None else Some (v, n)))"

text \<open>
  \<^verbatim>\<open>sscanf(from, "%2x%n", &val, &chars)\<close>: the value, an \<^verbatim>\<open>unsigned int\<close>, and the number of
  characters read; \<open>None\<close> when nothing is converted.
\<close>

definition sscanf_2x :: "amqp_bytes \<Rightarrow> (nat \<times> nat) option" where
  "sscanf_2x s =
    (let skipped = length (takeWhile is_space s); item = dropWhile is_space s
     in case item of
          [] \<Rightarrow> None
        | c # s' \<Rightarrow>
            if c = 0x2B then map_option (\<lambda>(v, n). (v, skipped + 1 + n)) (scan_item 1 s')
            else if c = 0x2D then map_option (\<lambda>(v, n). ((2 ^ 32 - v) mod 2 ^ 32, skipped + 1 + n)) (scan_item 1 s')
            else map_option (\<lambda>(v, n). (v, skipped + n)) (scan_item 2 item))"

text \<open>\<^verbatim>\<open>strtol(s, &end, 10)\<close>: the value and what is left at \<^verbatim>\<open>end\<close>; \<open>None\<close> when there are no digits.\<close>

fun dec_value :: "amqp_bytes \<Rightarrow> int \<Rightarrow> int \<times> amqp_bytes" where
  "dec_value [] acc = (acc, [])"
| "dec_value (c # s) acc =
    (case dec_digit c of None \<Rightarrow> (acc, c # s) | Some d \<Rightarrow> dec_value s (10 * acc + int d))"

definition strtol :: "amqp_bytes \<Rightarrow> (int \<times> amqp_bytes) option" where
  "strtol s =
    (let item = dropWhile is_space s;
         neg = (item \<noteq> [] \<and> hd item = 0x2D);
         digits = (if item \<noteq> [] \<and> (hd item = 0x2D \<or> hd item = 0x2B) then tl item else item)
     in if digits = [] \<or> dec_digit (hd digits) = None then None
        else (case dec_value digits 0 of
                (v, rest) \<Rightarrow> Some (if neg then max (- v) (- (2 ^ 63)) else min v (2 ^ 63 - 1), rest)))"

section \<open>amqp\_url.c\<close>

record amqp_connection_info =
  user :: amqp_bytes
  password :: amqp_bytes
  host :: amqp_bytes
  vhost :: amqp_bytes
  port :: int
  ssl :: bool

definition amqp_default_connection_info :: amqp_connection_info where
  "amqp_default_connection_info =
    \<lparr>user = [0x67, 0x75, 0x65, 0x73, 0x74], password = [0x67, 0x75, 0x65, 0x73, 0x74],
     host = [0x6C, 0x6F, 0x63, 0x61, 0x6C, 0x68, 0x6F, 0x73, 0x74], vhost = [0x2F], port = 5672, ssl = False\<rparr>"

text \<open>
  The component up to the next delimiter, the delimiter (0 at the end of the URL) and the rest
  behind it; \<open>None\<close> stands for the delimiter \<^verbatim>\<open>%\<close> of a bad percent-encoding, which every caller
  answers with \<^verbatim>\<open>AMQP_STATUS_BAD_URL\<close>.
\<close>

function find_delim :: "bool \<Rightarrow> amqp_bytes \<Rightarrow> (amqp_bytes \<times> u8 \<times> amqp_bytes) option" where
  "find_delim colon_and_at_sign_are_delims [] = Some ([], 0, [])"
| "find_delim colon_and_at_sign_are_delims (ch # from) =
    (if (ch = 0x3A \<or> ch = 0x40) \<and> \<not> colon_and_at_sign_are_delims
     then map_option (\<lambda>(to, d, rest). (ch # to, d, rest)) (find_delim colon_and_at_sign_are_delims from)
     else if ch = 0x3A \<or> ch = 0x40 \<or> ch = 0 \<or> ch = 0x2F \<or> ch = 0x3F \<or> ch = 0x23 \<or> ch = 0x5B \<or> ch = 0x5D
     then Some ([], ch, from)
     else if ch = 0x25 then
       (case sscanf_2x from of
          None \<Rightarrow> None
        | Some (val, chars) \<Rightarrow>
            if chars \<noteq> 2 \<or> val > 127 then None
            else map_option (\<lambda>(to, d, rest). (of_nat val # to, d, rest))
                   (find_delim colon_and_at_sign_are_delims (drop 2 from)))
     else map_option (\<lambda>(to, d, rest). (ch # to, d, rest)) (find_delim colon_and_at_sign_are_delims from))"
  by pat_completeness auto
termination by (relation "measure (\<lambda>(b, s). length s)") auto

text \<open>The end of \<^verbatim>\<open>amqp_parse_url\<close>: the port and the virtual host.\<close>

definition parse_vhost ::
    "amqp_bytes option \<Rightarrow> u8 \<Rightarrow> amqp_bytes \<Rightarrow> amqp_connection_info \<Rightarrow> amqp_connection_info option" where
  "parse_vhost prt delim url parsed =
    (case (case prt of
             None \<Rightarrow> Some parsed
           | Some p \<Rightarrow>
               (case strtol (amqp_cstring_bytes p) of
                  None \<Rightarrow> None
                | Some (portnum, end) \<Rightarrow>
                    if end \<noteq> [] \<or> portnum < 0 \<or> portnum > 65535 then None
                    else Some (parsed\<lparr>port := portnum\<rparr>))) of
       None \<Rightarrow> None
     | Some parsed' \<Rightarrow>
         if delim = 0x2F then
           (case find_delim True url of
              None \<Rightarrow> None
            | Some (start, delim', _) \<Rightarrow>
                if delim' \<noteq> 0 then None else Some (parsed'\<lparr>vhost := amqp_cstring_bytes start\<rparr>))
         else if delim = 0 then Some parsed' else None)"

definition parse_port ::
    "amqp_bytes option \<Rightarrow> u8 \<Rightarrow> amqp_bytes \<Rightarrow> amqp_connection_info \<Rightarrow> amqp_connection_info option" where
  "parse_port prt delim url parsed =
    (if delim = 0x3A then
       (case find_delim True url of
          None \<Rightarrow> None
        | Some (start, delim', url') \<Rightarrow> parse_vhost (Some start) delim' url' parsed)
     else parse_vhost prt delim url parsed)"

text \<open>The host, which may be an IPv6 address in brackets.\<close>

definition parse_host ::
    "amqp_bytes \<Rightarrow> amqp_bytes option \<Rightarrow> u8 \<Rightarrow> amqp_bytes \<Rightarrow> amqp_connection_info \<Rightarrow> amqp_connection_info option" where
  "parse_host hst prt delim url parsed =
    (if delim = 0x5B then
       (if prt \<noteq> None \<or> amqp_cstring_bytes hst \<noteq> [] then None
        else
          (case find_delim False url of
             None \<Rightarrow> None
           | Some (addr, delim1, url1) \<Rightarrow>
               if delim1 \<noteq> 0x5D then None
               else
                 (case find_delim True url1 of
                    None \<Rightarrow> None
                  | Some (start, delim2, url2) \<Rightarrow>
                      if amqp_cstring_bytes start \<noteq> [] then None
                      else parse_port prt delim2 url2 (parsed\<lparr>host := amqp_cstring_bytes addr\<rparr>))))
     else
       parse_port prt delim url
         (if amqp_cstring_bytes hst \<noteq> [] then parsed\<lparr>host := amqp_cstring_bytes hst\<rparr> else parsed))"

text \<open>The user and the password, if an at sign follows.\<close>

definition parse_userinfo ::
    "amqp_bytes \<Rightarrow> amqp_bytes option \<Rightarrow> u8 \<Rightarrow> amqp_bytes \<Rightarrow> amqp_connection_info \<Rightarrow> amqp_connection_info option" where
  "parse_userinfo hst prt delim url parsed =
    (if delim = 0x40 then
       (let parsed1 = parsed\<lparr>user := amqp_cstring_bytes hst\<rparr>;
            parsed2 = (case prt of None \<Rightarrow> parsed1 | Some p \<Rightarrow> parsed1\<lparr>password := amqp_cstring_bytes p\<rparr>)
        in case find_delim True url of
             None \<Rightarrow> None
           | Some (hst', delim', url') \<Rightarrow> parse_host hst' None delim' url' parsed2)
     else parse_host hst prt delim url parsed)"

definition parse_authority :: "amqp_bytes \<Rightarrow> amqp_connection_info \<Rightarrow> amqp_connection_info option" where
  "parse_authority url parsed =
    (case find_delim True url of
       None \<Rightarrow> None
     | Some (hst, delim, url1) \<Rightarrow>
         if delim = 0x3A then
           (case find_delim True url1 of
              None \<Rightarrow> None
            | Some (prt, delim', url2) \<Rightarrow> parse_userinfo hst (Some prt) delim' url2 parsed)
         else parse_userinfo hst None delim url1 parsed)"

abbreviation AMQP_SCHEME :: amqp_bytes where "AMQP_SCHEME \<equiv> [0x61, 0x6D, 0x71, 0x70, 0x3A, 0x2F, 0x2F]"
abbreviation AMQPS_SCHEME :: amqp_bytes where "AMQPS_SCHEME \<equiv> [0x61, 0x6D, 0x71, 0x70, 0x73, 0x3A, 0x2F, 0x2F]"

definition amqp_parse_url :: "amqp_bytes \<Rightarrow> amqp_connection_info outcome" where
  "amqp_parse_url url =
    (case (if take 7 url = AMQP_SCHEME then parse_authority (drop 7 url) amqp_default_connection_info
           else if take 8 url = AMQPS_SCHEME
           then parse_authority (drop 8 url) (amqp_default_connection_info\<lparr>port := 5671, ssl := True\<rparr>)
           else None) of
       None \<Rightarrow> Inl (Status AMQP_STATUS_BAD_URL)
     | Some parsed \<Rightarrow> Inr parsed)"

declare find_delim.simps [simp del]

section \<open>Writing URLs\<close>

text \<open>The URL of a connection, with every delimiter and percent sign in a component escaped.\<close>

definition url_special :: "amqp_bytes" where
  "url_special = [0x3A, 0x40, 0x2F, 0x3F, 0x23, 0x5B, 0x5D, 0x25]"

definition hex_char :: "nat \<Rightarrow> u8" where
  "hex_char d = (if d < 10 then 0x30 + of_nat d else 0x37 + of_nat d)"

definition url_escape :: "u8 \<Rightarrow> amqp_bytes" where
  "url_escape c =
    (if c \<in> set url_special then [0x25, hex_char (unat c div 16), hex_char (unat c mod 16)] else [c])"

definition url_text :: "amqp_bytes \<Rightarrow> amqp_bytes" where
  "url_text s = concat (map url_escape s)"

fun dec_text :: "nat \<Rightarrow> amqp_bytes" where
  "dec_text n = (if n < 10 then [0x30 + of_nat n] else dec_text (n div 10) @ [0x30 + of_nat (n mod 10)])"

declare dec_text.simps [simp del]

definition url_of :: "amqp_connection_info \<Rightarrow> amqp_bytes" where
  "url_of ci =
    (if ssl ci then AMQPS_SCHEME else AMQP_SCHEME) @ url_text (user ci) @ [0x3A] @ url_text (password ci) @ [0x40]
    @ url_text (host ci) @ [0x3A] @ dec_text (nat (port ci)) @ [0x2F] @ url_text (vhost ci)"

section \<open>Lemmas\<close>

lemma hex_digit_range: "hex_digit a = Some x \<Longrightarrow> 0x30 \<le> a \<and> a \<noteq> 0x78 \<and> a \<noteq> 0x58"
  by (auto simp: hex_digit_def word_le_nat_alt split: if_splits)

lemma scan_digits_two:
  "hex_digit a = Some x \<Longrightarrow> hex_digit b = Some y \<Longrightarrow> scan_digits 2 (a # b # s) 0 = (16 * x + y, 2)"
  by (simp add: numeral_2_eq_2)

text \<open>Two hexadecimal digits are read as such.\<close>

lemma sscanf_2x_hex:
  assumes "hex_digit a = Some x" "hex_digit b = Some y"
  shows "sscanf_2x (a # b # s) = Some (16 * x + y, 2)"
proof -
  have a: "0x30 \<le> a" and b: "b \<noteq> 0x78" "b \<noteq> 0x58" using assms hex_digit_range by auto
  then have "\<not> is_space a" "a \<noteq> 0x2B" "a \<noteq> 0x2D" by (auto simp: is_space_def word_le_nat_alt)
  with assms b show ?thesis
    by (simp add: sscanf_2x_def scan_item_def scan_digits_two del: scan_digits.simps)
qed

lemma hex_digit_char: "d < 16 \<Longrightarrow> hex_digit (hex_char d) = Some d"
proof -
  assume "d < 16"
  then have "unat (0x30 + of_nat d :: u8) = 0x30 + d" "unat (0x37 + of_nat d :: u8) = 0x37 + d"
    by (simp_all add: unat_word_ariths unsigned_of_nat take_bit_nat_eq_self)
  with \<open>d < 16\<close> show ?thesis by (simp add: hex_digit_def hex_char_def word_le_nat_alt)
qed

lemma find_delim_escape:
  assumes "c \<noteq> 0"
  shows "find_delim True (url_escape c @ s) = map_option (\<lambda>(to, d, rest). (c # to, d, rest)) (find_delim True s)"
proof (cases "c \<in> set url_special")
  case True
  then have c: "unat c < 128" by (auto simp: url_special_def)
  then have "sscanf_2x (hex_char (unat c div 16) # hex_char (unat c mod 16) # s) = Some (unat c, 2)"
    using sscanf_2x_hex [OF hex_digit_char hex_digit_char, of "unat c div 16" "unat c mod 16" s] by simp
  with True c show ?thesis
    by (simp add: url_escape_def find_delim.simps(2) [of True "0x25"])
next
  case False
  with assms show ?thesis
    by (simp add: url_escape_def url_special_def find_delim.simps)
qed

lemma find_delim_text:
  assumes "0 \<notin> set s"
  shows "find_delim True (url_text s @ u) = map_option (\<lambda>(to, d, rest). (s @ to, d, rest)) (find_delim True u)"
  using assms
proof (induction s)
  case (Cons c s)
  then have "find_delim True (url_escape c @ url_text s @ u)
      = map_option (\<lambda>(to, d, rest). (c # to, d, rest)) (find_delim True (url_text s @ u))"
    by (simp add: find_delim_escape)
  with Cons show ?case
    by (simp add: url_text_def option.map_comp comp_def case_prod_beta)
qed (simp add: url_text_def option.map_id)

lemma dec_value_append: "dec_value xs acc = (v, []) \<Longrightarrow> dec_value (xs @ ys) acc = dec_value ys v"
  by (induction xs arbitrary: acc) (auto split: option.splits)

lemma dec_digit_char: "d < 10 \<Longrightarrow> dec_digit (0x30 + of_nat d) = Some d"
proof -
  assume "d < 10"
  then have "unat (0x30 + of_nat d :: u8) = 0x30 + d"
    by (simp add: unat_word_ariths unsigned_of_nat take_bit_nat_eq_self)
  with \<open>d < 10\<close> show ?thesis by (simp add: dec_digit_def word_le_nat_alt)
qed

lemma dec_value_text: "dec_value (dec_text n) 0 = (int n, [])"
proof (induction n rule: dec_text.induct)
  case (1 n)
  show ?case
  proof (cases "n < 10")
    case True
    then show ?thesis by (simp add: dec_text.simps [of n] dec_digit_char)
  next
    case False
    with 1 have "dec_value (dec_text (n div 10) @ [0x30 + of_nat (n mod 10)]) 0
        = dec_value [0x30 + of_nat (n mod 10)] (int (n div 10))"
      by (simp add: dec_value_append)
    moreover have "10 * int (n div 10) + int (n mod 10) = int n" by (simp add: zdiv_int zmod_int)
    ultimately show ?thesis using False by (simp add: dec_text.simps [of n] dec_digit_char del: mult_div_mod_eq)
  qed
qed

lemma dec_text_digits: "\<forall>c \<in> set (dec_text n). \<exists>d < 10. c = 0x30 + of_nat d"
proof (induction n rule: dec_text.induct)
  case (1 n)
  show ?case
  proof (cases "n < 10")
    case True
    then show ?thesis by (auto simp: dec_text.simps [of n])
  next
    case False
    with 1 show ?thesis by (auto simp: dec_text.simps [of n] intro: exI [of _ "n mod 10"])
  qed
qed

lemma dec_text_not_Nil [simp]: "dec_text n \<noteq> []"
  by (simp add: dec_text.simps [of n])

lemma url_text_digits: "\<forall>c \<in> set s. \<exists>d < 10. c = 0x30 + of_nat d \<Longrightarrow> url_text s = s"
proof (induction s)
  case (Cons c s)
  then obtain d where "d < 10" "c = 0x30 + of_nat d" by auto
  then have "unat c = 0x30 + d" by (simp add: unat_word_ariths unsigned_of_nat take_bit_nat_eq_self)
  with \<open>d < 10\<close> have "c \<notin> set url_special" by (auto simp: url_special_def)
  with Cons show ?case by (simp add: url_text_def url_escape_def)
qed (simp add: url_text_def)

lemma dec_text_nonzero: "0 \<notin> set (dec_text n)"
proof
  assume "0 \<in> set (dec_text n)"
  then obtain d where "d < 10" "(0 :: u8) = 0x30 + of_nat d" using dec_text_digits by blast
  then have "unat (0 :: u8) = unat (0x30 + of_nat d :: u8)" by simp
  with \<open>d < 10\<close> show False by (simp add: unat_word_ariths unsigned_of_nat take_bit_nat_eq_self)
qed

lemma find_delim_dec: "find_delim True (dec_text n @ u) = map_option (\<lambda>(to, d, rest). (dec_text n @ to, d, rest)) (find_delim True u)"
  using find_delim_text [OF dec_text_nonzero, of n u] url_text_digits [OF dec_text_digits, of n] by simp

lemma strtol_dec_text:
  assumes "n < 2 ^ 63"
  shows "strtol (dec_text n) = Some (int n, [])"
proof -
  obtain c s where cs: "dec_text n = c # s" by (metis dec_text_not_Nil neq_Nil_conv)
  then obtain d where d: "d < 10" "c = 0x30 + of_nat d" using dec_text_digits [of n] by auto
  then have "unat c = 0x30 + d" by (simp add: unat_word_ariths unsigned_of_nat take_bit_nat_eq_self)
  then have "\<not> is_space c" "c \<noteq> 0x2D" "c \<noteq> 0x2B" by (auto simp: is_space_def word_le_nat_alt)
  with cs d dec_value_text [of n] assms show ?thesis
    by (simp add: strtol_def dec_digit_char Let_def del: dec_value.simps)
qed

lemma cstring_nonzero: "0 \<notin> set s \<Longrightarrow> amqp_cstring_bytes s = s"
  by (auto simp: amqp_cstring_bytes_def takeWhile_eq_all_conv)

lemmas url_steps = parse_authority_def parse_userinfo_def parse_host_def parse_port_def parse_vhost_def
  find_delim.simps find_delim_text find_delim_dec strtol_dec_text cstring_nonzero dec_text_nonzero

lemma parse_authority_url:
  assumes "0 \<notin> set u" "0 \<notin> set pw" "0 \<notin> set h" "0 \<notin> set v" "h \<noteq> []" "n \<le> 65535"
  shows "parse_authority (url_text u @ 0x3A # url_text pw @ 0x40 # url_text h @ 0x3A # dec_text n @ 0x2F # url_text v) ci
    = Some (ci\<lparr>user := u, password := pw, host := h, port := int n, vhost := v\<rparr>)"
  using assms find_delim_text [OF assms(4), of "[]"] by (simp add: url_steps)

section \<open>Properties\<close>

text \<open>
  C31. The URL of a connection, with its delimiters escaped, is parsed back to the same user,
  password, host, port, virtual host and scheme.
\<close>

theorem url_roundtrip:
  assumes "0 \<notin> set (user ci)" "0 \<notin> set (password ci)" "0 \<notin> set (host ci)" "0 \<notin> set (vhost ci)"
    and "host ci \<noteq> []" "0 \<le> port ci" "port ci \<le> 65535"
  shows "amqp_parse_url (url_of ci) = Inr ci"
  using assms parse_authority_url [OF assms(1-5), of "nat (port ci)"]
  by (cases ci) (simp add: amqp_parse_url_def url_of_def amqp_default_connection_info_def)

theorem url_roundtrip_witness:
  "amqp_parse_url (url_of \<lparr>user = [0x75], password = [0x40, 0x3A], host = [0x68], vhost = [0x2F], port = 5672, ssl = True\<rparr>)
   = Inr \<lparr>user = [0x75], password = [0x40, 0x3A], host = [0x68], vhost = [0x2F], port = 5672, ssl = True\<rparr>"
  by (rule url_roundtrip) simp_all

text \<open>
  A percent sign with two hexadecimal digits stands for the byte they name if that is at most 127,
  and makes the URL invalid otherwise. But the check of the digits is that of \<^verbatim>\<open>sscanf\<close>: a blank or a plus
  sign followed by one digit is taken for an escape of two characters as well.
\<close>

theorem url_escapes:
  assumes "hex_digit b = Some y"
  shows "(\<forall>x. hex_digit a = Some x \<longrightarrow> find_delim f (0x25 # a # b # s) =
      (if 16 * x + y \<le> 127 then map_option (\<lambda>(to, d, rest). (of_nat (16 * x + y) # to, d, rest)) (find_delim f s) else None))
    \<and> (a \<in> {0x20, 0x2B} \<and> (s = [] \<or> hex_digit (hd s) = None \<and> hd s \<noteq> 0x78 \<and> hd s \<noteq> 0x58) \<longrightarrow>
      find_delim f (0x25 # a # b # s) = map_option (\<lambda>(to, d, rest). (of_nat y # to, d, rest)) (find_delim f s))"
proof (intro conjI allI impI)
  fix x
  assume "hex_digit a = Some x"
  with assms show "find_delim f (0x25 # a # b # s) =
      (if 16 * x + y \<le> 127 then map_option (\<lambda>(to, d, rest). (of_nat (16 * x + y) # to, d, rest)) (find_delim f s) else None)"
    by (simp add: find_delim.simps(2) [of f "0x25"] sscanf_2x_hex)
next
  assume a: "a \<in> {0x20, 0x2B} \<and> (s = [] \<or> hex_digit (hd s) = None \<and> hd s \<noteq> 0x78 \<and> hd s \<noteq> 0x58)"
  have b: "0x30 \<le> b" using hex_digit_range [OF assms] by simp
  then have nb: "\<not> is_space b" "b \<noteq> 0x2B" "b \<noteq> 0x2D" by (auto simp: is_space_def word_le_nat_alt)
  have y: "y \<le> 127"
    using assms unsigned_less [of b] by (auto simp: hex_digit_def word_le_nat_alt split: if_splits)
  have one: "scan_digits 1 (b # s) 0 = (y, 1)" "scan_item 1 (b # s) = Some (y, 1)"
    using assms by (simp_all add: scan_item_def split: list.split)
  have two: "scan_item 2 (b # s) = Some (y, 1)"
    using assms a by (cases s) (auto simp: scan_item_def numeral_2_eq_2)
  have "sscanf_2x (a # b # s) = Some (y, 2)"
    using a nb one two by (auto simp: sscanf_2x_def is_space_def)
  with y show "find_delim f (0x25 # a # b # s) = map_option (\<lambda>(to, d, rest). (of_nat y # to, d, rest)) (find_delim f s)"
    by (simp add: find_delim.simps(2) [of f "0x25"])
qed

theorem url_escapes_witness:
  "find_delim True [0x25, 0x34, 0x31] = Some ([0x41], 0, []) \<and> find_delim True [0x25, 0x20, 0x37] = Some ([7], 0, [])"
  using url_escapes [of "0x31" 1 "0x34" True "[]"] url_escapes [of "0x37" 7 "0x20" True "[]"]
  by (simp add: hex_digit_def find_delim.simps)

end
