(* ===== verification/Amqp_Codec.thy ===== *)
theory Amqp_Codec
  imports Amqp_Mem
begin

text \<open>
  The encoding and decoding functions of the AMQP base types (\<^verbatim>\<open>amqp_private.h\<close>), the way
  \<^verbatim>\<open>amqp_table.c\<close> and \<^verbatim>\<open>amqp_framing.c\<close> chain them, and the contract they share.

  An encoder works on a buffer of fixed length and an offset; a decoder on a read-only buffer, an
  offset and the memory pool it allocates from. The contract of a pair of them is the locale
  \<open>wire_format\<close>: there is a byte string, the wire format of the value, that the encoder writes
  exactly when it fits and that the decoder maps back to the value. The locale \<open>wire_codec\<close> adds
  that the decoder stays inside the buffer on every input.
\<close>

section \<open>Byte order\<close>

text \<open>\<^verbatim>\<open>htons\<close>, \<^verbatim>\<open>htonl\<close> and \<^verbatim>\<open>htonll\<close> followed by \<^verbatim>\<open>memcpy\<close>: the bytes of the value,
  most significant first. \<^verbatim>\<open>htonll\<close> treats the two 32-bit halves separately.\<close>

definition be16 :: "u16 \<Rightarrow> amqp_bytes" where
  "be16 v = [ucast (drop_bit 8 v), ucast v]"

definition be32 :: "u32 \<Rightarrow> amqp_bytes" where
  "be32 v = be16 (ucast (drop_bit 16 v)) @ be16 (ucast v)"

definition be64 :: "u64 \<Rightarrow> amqp_bytes" where
  "be64 v = be32 (ucast (drop_bit 32 v)) @ be32 (ucast v)"

definition from_be16 :: "amqp_bytes \<Rightarrow> u16" where
  "from_be16 bs = push_bit 8 (ucast (bs ! 0)) OR ucast (bs ! 1)"

definition from_be32 :: "amqp_bytes \<Rightarrow> u32" where
  "from_be32 bs = push_bit 16 (ucast (from_be16 (take 2 bs))) OR ucast (from_be16 (drop 2 bs))"

definition from_be64 :: "amqp_bytes \<Rightarrow> u64" where
  "from_be64 bs = push_bit 32 (ucast (from_be32 (take 4 bs))) OR ucast (from_be32 (drop 4 bs))"

section \<open>Unchecked reads and writes at an offset\<close>

definition amqp_e8 :: "amqp_bytes \<Rightarrow> nat \<Rightarrow> u8 \<Rightarrow> amqp_bytes option" where
  "amqp_e8 buf off v = mem_write buf off [v]"

definition amqp_e16 :: "amqp_bytes \<Rightarrow> nat \<Rightarrow> u16 \<Rightarrow> amqp_bytes option" where
  "amqp_e16 buf off v = mem_write buf off (be16 v)"

definition amqp_e32 :: "amqp_bytes \<Rightarrow> nat \<Rightarrow> u32 \<Rightarrow> amqp_bytes option" where
  "amqp_e32 buf off v = mem_write buf off (be32 v)"

definition amqp_e64 :: "amqp_bytes \<Rightarrow> nat \<Rightarrow> u64 \<Rightarrow> amqp_bytes option" where
  "amqp_e64 buf off v = mem_write buf off (be64 v)"

definition amqp_d8 :: "amqp_bytes \<Rightarrow> nat \<Rightarrow> u8 option" where
  "amqp_d8 buf off = map_option (\<lambda>bs. bs ! 0) (mem_read buf off 1)"

definition amqp_d16 :: "amqp_bytes \<Rightarrow> nat \<Rightarrow> u16 option" where
  "amqp_d16 buf off = map_option from_be16 (mem_read buf off 2)"

definition amqp_d32 :: "amqp_bytes \<Rightarrow> nat \<Rightarrow> u32 option" where
  "amqp_d32 buf off = map_option from_be32 (mem_read buf off 4)"

definition amqp_d64 :: "amqp_bytes \<Rightarrow> nat \<Rightarrow> u64 option" where
  "amqp_d64 buf off = map_option from_be64 (mem_read buf off 8)"

section \<open>Checked encoders and decoders\<close>

text \<open>
  A buffer to encode into and the offset in it. \<open>Inr True\<close> is the return value 1, \<open>Inr False\<close>
  the return value 0; the offset moves in both cases, as \<^verbatim>\<open>*offset\<close> does.
\<close>

type_synonym ebuf = "amqp_bytes \<times> nat"
type_synonym enc_prim = "ebuf \<Rightarrow> bool outcome \<times> ebuf"
type_synonym 'a dec_prim = "amqp_bytes \<Rightarrow> nat \<Rightarrow> 'a option outcome \<times> nat"

text \<open>The two checked functions of the macro \<^verbatim>\<open>DECLARE_CODEC_BASE_TYPE\<close>.\<close>

definition encode_base :: "nat \<Rightarrow> (amqp_bytes \<Rightarrow> nat \<Rightarrow> amqp_bytes option) \<Rightarrow> enc_prim" where
  "encode_base n put = (\<lambda>(encoded, off).
     let off' = sz_add off n
     in if off' \<le> length encoded
        then (case put encoded off of
                Some encoded' \<Rightarrow> (Inr True, (encoded', off'))
              | None \<Rightarrow> (Inl Memory_fault, (encoded, off')))
        else (Inr False, (encoded, off')))"

definition decode_base :: "nat \<Rightarrow> (amqp_bytes \<Rightarrow> nat \<Rightarrow> 'a option) \<Rightarrow> 'a dec_prim" where
  "decode_base n get encoded off =
    (let off' = sz_add off n
     in if off' \<le> length encoded
        then (case get encoded off of
                Some v \<Rightarrow> (Inr (Some v), off')
              | None \<Rightarrow> (Inl Memory_fault, off'))
        else (Inr None, off'))"

definition amqp_encode_8 :: "u8 \<Rightarrow> enc_prim" where
  "amqp_encode_8 v = encode_base 1 (\<lambda>b off. amqp_e8 b off v)"

definition amqp_encode_16 :: "u16 \<Rightarrow> enc_prim" where
  "amqp_encode_16 v = encode_base 2 (\<lambda>b off. amqp_e16 b off v)"

definition amqp_encode_32 :: "u32 \<Rightarrow> enc_prim" where
  "amqp_encode_32 v = encode_base 4 (\<lambda>b off. amqp_e32 b off v)"

definition amqp_encode_64 :: "u64 \<Rightarrow> enc_prim" where
  "amqp_encode_64 v = encode_base 8 (\<lambda>b off. amqp_e64 b off v)"

definition amqp_decode_8 :: "u8 dec_prim" where
  "amqp_decode_8 = decode_base 1 amqp_d8"

definition amqp_decode_16 :: "u16 dec_prim" where
  "amqp_decode_16 = decode_base 2 amqp_d16"

definition amqp_decode_32 :: "u32 dec_prim" where
  "amqp_decode_32 = decode_base 4 amqp_d32"

definition amqp_decode_64 :: "u64 dec_prim" where
  "amqp_decode_64 = decode_base 8 amqp_d64"

definition amqp_encode_bytes :: "amqp_bytes \<Rightarrow> enc_prim" where
  "amqp_encode_bytes input = (\<lambda>(encoded, off).
     if length input = 0 then (Inr True, (encoded, off))
     else
       (let off' = sz_add off (length input)
        in if off' \<le> length encoded
           then (case mem_write encoded off input of
                   Some encoded' \<Rightarrow> (Inr True, (encoded', off'))
                 | None \<Rightarrow> (Inl Memory_fault, (encoded, off')))
           else (Inr False, (encoded, off'))))"

definition amqp_decode_bytes :: "nat \<Rightarrow> amqp_bytes dec_prim" where
  "amqp_decode_bytes len encoded off =
    (let off' = sz_add off len
     in if off' \<le> length encoded
        then (case mem_read encoded off len of
                Some bs \<Rightarrow> (Inr (Some bs), off')
              | None \<Rightarrow> (Inl Memory_fault, off'))
        else (Inr None, off'))"

section \<open>Chaining\<close>

text \<open>
  An encoding statement returns \<open>None\<close> to go on and \<open>Some\<close> fault to leave the function;
  \<open>e_block\<close> runs the statements of a block in order. \<open>e_try s p\<close> is the C statement
  \<^verbatim>\<open>if (!p) return s;\<close>.
\<close>

type_synonym enc = "ebuf \<Rightarrow> fault option \<times> ebuf"

definition e_fail :: "amqp_status_enum \<Rightarrow> enc" where
  "e_fail s st = (Some (Status s), st)"

definition e_seq :: "enc \<Rightarrow> enc \<Rightarrow> enc" where
  "e_seq f g st = (case f st of (None, st') \<Rightarrow> g st' | (Some e, st') \<Rightarrow> (Some e, st'))"

definition e_try :: "amqp_status_enum \<Rightarrow> enc_prim \<Rightarrow> enc" where
  "e_try s p st =
    (case p st of
       (Inr True, st') \<Rightarrow> (None, st')
     | (Inr False, st') \<Rightarrow> (Some (Status s), st')
     | (Inl e, st') \<Rightarrow> (Some e, st'))"

fun e_block :: "enc list \<Rightarrow> enc" where
  "e_block [] st = (None, st)"
| "e_block (f # fs) st = e_seq f (e_block fs) st"

text \<open>The state of a decoding function: the offset, the pool and the heap.\<close>

record dec_state =
  d_off :: nat
  d_pool :: amqp_pool
  d_heap :: heap

type_synonym 'a dec = "amqp_bytes \<Rightarrow> dec_state \<Rightarrow> 'a outcome \<times> dec_state"

definition d_return :: "'a \<Rightarrow> 'a dec" where
  "d_return v encoded d = (Inr v, d)"

definition d_fail :: "fault \<Rightarrow> 'a dec" where
  "d_fail e encoded d = (Inl e, d)"

definition d_bind :: "'a dec \<Rightarrow> ('a \<Rightarrow> 'b dec) \<Rightarrow> 'b dec" where
  "d_bind f g encoded d =
    (case f encoded d of
       (Inr v, d') \<Rightarrow> g v encoded d'
     | (Inl e, d') \<Rightarrow> (Inl e, d'))"

definition d_try :: "amqp_status_enum \<Rightarrow> 'a dec_prim \<Rightarrow> 'a dec" where
  "d_try s p encoded d =
    (case p encoded (d_off d) of
       (Inr (Some v), off') \<Rightarrow> (Inr v, d\<lparr>d_off := off'\<rparr>)
     | (Inr None, off') \<Rightarrow> (Inl (Status s), d\<lparr>d_off := off'\<rparr>)
     | (Inl e, off') \<Rightarrow> (Inl e, d\<lparr>d_off := off'\<rparr>))"

text \<open>\<^verbatim>\<open>m = amqp_pool_alloc(pool, size); if (m == NULL) return AMQP_STATUS_NO_MEMORY;\<close>\<close>

definition d_pool_alloc :: "nat \<Rightarrow> unit dec" where
  "d_pool_alloc amount encoded d =
    (case amqp_pool_alloc (d_pool d) amount (d_heap d) of
       (None, p, h) \<Rightarrow> (Inl (Status AMQP_STATUS_NO_MEMORY), d\<lparr>d_pool := p, d_heap := h\<rparr>)
     | (Some a, p, h) \<Rightarrow> (Inr (), d\<lparr>d_pool := p, d_heap := h\<rparr>))"

section \<open>What a statement writes and reads\<close>

text \<open>
  \<open>writes f w\<close>: wherever the bytes \<open>w\<close> fit, \<open>f\<close> puts exactly them into the buffer and moves the
  offset behind them; where they do not fit, \<open>f\<close> reports an error. \<open>reads f w v\<close>: where \<open>w\<close>
  stands in the buffer and the heap grants every request, \<open>f\<close> returns \<open>v\<close> and moves the offset
  behind \<open>w\<close>.
\<close>

definition writes :: "enc \<Rightarrow> amqp_bytes \<Rightarrow> bool" where
  "writes f w \<longleftrightarrow>
    (\<forall>buf off. in_memory buf \<and> off \<le> length buf \<longrightarrow>
       (if off + length w \<le> length buf
        then f (buf, off) = (None, (blit buf off w, off + length w))
        else (\<exists>s. fst (f (buf, off)) = Some (Status s))))"

definition reads :: "'a dec \<Rightarrow> amqp_bytes \<Rightarrow> 'a \<Rightarrow> bool" where
  "reads f w v \<longleftrightarrow>
    (\<forall>encoded d. in_memory encoded \<and> heap_ok (d_heap d) \<and> at_off encoded (d_off d) w \<longrightarrow>
       (\<exists>d'. f encoded d = (Inr v, d') \<and> d_off d' = d_off d + length w \<and> heap_ok (d_heap d')))"

text \<open>
  \<open>guarded f\<close>: on any buffer whatever, \<open>f\<close> keeps the offset inside the buffer when it returns a
  value, and fails with a status only: no access out of bounds, no abort.
\<close>

definition guarded :: "'a dec \<Rightarrow> bool" where
  "guarded f \<longleftrightarrow>
    (\<forall>encoded d. in_memory encoded \<and> d_off d \<le> length encoded \<longrightarrow>
       (case f encoded d of
          (Inr v, d') \<Rightarrow> d_off d \<le> d_off d' \<and> d_off d' \<le> length encoded
        | (Inl e, d') \<Rightarrow> (\<exists>s. e = Status s)))"

section \<open>Lemmas on what is written and read\<close>

lemma writesI:
  assumes "\<And>buf off. in_memory buf \<Longrightarrow> off + length w \<le> length buf \<Longrightarrow>
      f (buf, off) = (None, (blit buf off w, off + length w))"
    and "\<And>buf off. in_memory buf \<Longrightarrow> off \<le> length buf \<Longrightarrow> length buf < off + length w \<Longrightarrow>
      \<exists>s. fst (f (buf, off)) = Some (Status s)"
  shows "writes f w"
  unfolding writes_def using assms by (meson not_le)

lemma writes_fit:
  assumes "writes f w" "in_memory buf" "off + length w \<le> length buf"
  shows "f (buf, off) = (None, (blit buf off w, off + length w))"
  using assms unfolding writes_def by (metis add_leE)

lemma writes_overflow:
  assumes "writes f w" "in_memory buf" "off \<le> length buf" "length buf < off + length w"
  shows "\<exists>s. fst (f (buf, off)) = Some (Status s)"
  using assms unfolding writes_def by (meson not_le)

lemma writes_success:
  assumes "writes f w" "in_memory buf" "off \<le> length buf" "f (buf, off) = (None, st')"
  shows "off + length w \<le> length buf \<and> st' = (blit buf off w, off + length w)"
proof (cases "off + length w \<le> length buf")
  case True
  with writes_fit [OF assms(1,2) True] assms(4) show ?thesis by simp
next
  case False
  then have "\<exists>s. fst (f (buf, off)) = Some (Status s)"
    by (intro writes_overflow [OF assms(1-3)]) auto
  with assms(4) show ?thesis by auto
qed

lemma writes_nothing [wire_intros]: "writes (e_block []) []"
  by (rule writesI) auto

lemma writes_seq [wire_intros]:
  assumes f: "writes f w" and g: "writes g v"
  shows "writes (e_seq f g) (w @ v)"
proof (rule writesI)
  fix buf :: amqp_bytes and off :: nat
  assume mem: "in_memory buf" and fits: "off + length (w @ v) \<le> length buf"
  have "f (buf, off) = (None, (blit buf off w, off + length w))"
    by (rule writes_fit [OF f mem]) (use fits in simp)
  moreover have "g (blit buf off w, off + length w)
      = (None, (blit (blit buf off w) (off + length w) v, off + length w + length v))"
    by (rule writes_fit [OF g]) (use fits mem in simp_all)
  ultimately show "e_seq f g (buf, off) = (None, (blit buf off (w @ v), off + length (w @ v)))"
    using fits by (simp add: e_seq_def blit_append add.assoc)
next
  fix buf :: amqp_bytes and off :: nat
  assume mem: "in_memory buf" "off \<le> length buf" and big: "length buf < off + length (w @ v)"
  show "\<exists>s. fst (e_seq f g (buf, off)) = Some (Status s)"
  proof (cases "off + length w \<le> length buf")
    case True
    then have fw: "f (buf, off) = (None, (blit buf off w, off + length w))"
      by (rule writes_fit [OF f mem(1)])
    have "\<exists>s. fst (g (blit buf off w, off + length w)) = Some (Status s)"
      by (rule writes_overflow [OF g]) (use True big mem in simp_all)
    with fw show ?thesis by (simp add: e_seq_def)
  next
    case False
    then have "\<exists>s. fst (f (buf, off)) = Some (Status s)"
      by (intro writes_overflow [OF f mem]) auto
    then show ?thesis by (auto simp: e_seq_def split: prod.splits)
  qed
qed

lemma e_block_Cons [simp]: "e_block (f # fs) = e_seq f (e_block fs)"
  by (rule ext) simp

lemma writes_block [wire_intros]:
  "writes f w \<Longrightarrow> writes (e_block fs) v \<Longrightarrow> writes (e_block (f # fs)) (w @ v)"
  by (simp add: writes_seq del: e_block.simps)

lemma readsI:
  assumes "\<And>encoded d. in_memory encoded \<Longrightarrow> heap_ok (d_heap d) \<Longrightarrow> at_off encoded (d_off d) w \<Longrightarrow>
      \<exists>d'. f encoded d = (Inr v, d') \<and> d_off d' = d_off d + length w \<and> heap_ok (d_heap d')"
  shows "reads f w v"
  unfolding reads_def using assms by blast

lemma readsE:
  assumes "reads f w v" "in_memory encoded" "heap_ok (d_heap d)" "at_off encoded (d_off d) w"
  obtains d' where "f encoded d = (Inr v, d')" "d_off d' = d_off d + length w" "heap_ok (d_heap d')"
  using assms unfolding reads_def by blast

lemma reads_return [wire_intros]: "reads (d_return v) [] v"
  by (rule readsI) (simp add: d_return_def)

lemma reads_bind [wire_intros]:
  assumes f: "reads f w v" and g: "reads (g v) w' x"
  shows "reads (d_bind f g) (w @ w') x"
proof (rule readsI)
  fix encoded :: amqp_bytes and d :: dec_state
  assume mem: "in_memory encoded" "heap_ok (d_heap d)" and "at_off encoded (d_off d) (w @ w')"
  then have at: "at_off encoded (d_off d) w" "at_off encoded (d_off d + length w) w'"
    by (simp_all add: at_off_append)
  obtain d1 where d1: "f encoded d = (Inr v, d1)" "d_off d1 = d_off d + length w" "heap_ok (d_heap d1)"
    by (rule readsE [OF f mem at(1)])
  then obtain d2 where "g v encoded d1 = (Inr x, d2)" "d_off d2 = d_off d1 + length w'" "heap_ok (d_heap d2)"
    using at(2) by (metis readsE [OF g mem(1)])
  with d1 show "\<exists>d'. d_bind f g encoded d = (Inr x, d') \<and> d_off d' = d_off d + length (w @ w') \<and> heap_ok (d_heap d')"
    by (simp add: d_bind_def)
qed

lemma reads_bind_Nil: "reads f [] v \<Longrightarrow> reads (g v) w x \<Longrightarrow> reads (d_bind f g) w x"
  using reads_bind [of f "[]"] by simp

lemma guardedI:
  assumes "\<And>encoded d v d'. in_memory encoded \<Longrightarrow> d_off d \<le> length encoded \<Longrightarrow> f encoded d = (Inr v, d') \<Longrightarrow>
      d_off d \<le> d_off d' \<and> d_off d' \<le> length encoded"
    and "\<And>encoded d e d'. in_memory encoded \<Longrightarrow> d_off d \<le> length encoded \<Longrightarrow> f encoded d = (Inl e, d') \<Longrightarrow>
      \<exists>s. e = Status s"
  shows "guarded f"
  unfolding guarded_def using assms by (auto split: prod.split sum.split)

lemma guarded_value:
  assumes "guarded f" "in_memory encoded" "d_off d \<le> length encoded" "f encoded d = (Inr v, d')"
  shows "d_off d \<le> d_off d' \<and> d_off d' \<le> length encoded"
  using assms by (fastforce simp: guarded_def)

lemma guarded_fault:
  assumes "guarded f" "in_memory encoded" "d_off d \<le> length encoded" "f encoded d = (Inl e, d')"
  shows "\<exists>s. e = Status s"
  using assms by (fastforce simp: guarded_def)

lemma guarded_return [wire_intros]: "guarded (d_return v)"
  by (rule guardedI) (auto simp: d_return_def)

lemma guarded_fail [wire_intros]: "guarded (d_fail (Status s))"
  by (rule guardedI) (auto simp: d_fail_def)

lemma guarded_bind [wire_intros]:
  assumes f: "guarded f" and g: "\<And>v. guarded (g v)"
  shows "guarded (d_bind f g)"
proof (rule guardedI)
  fix encoded :: amqp_bytes and d d' :: dec_state and x
  assume mem: "in_memory encoded" "d_off d \<le> length encoded" and "d_bind f g encoded d = (Inr x, d')"
  then obtain v d1 where 1: "f encoded d = (Inr v, d1)" and 2: "g v encoded d1 = (Inr x, d')"
    by (auto simp: d_bind_def split: prod.splits sum.splits)
  from guarded_value [OF f mem 1] guarded_value [OF g mem(1) _ 2]
  show "d_off d \<le> d_off d' \<and> d_off d' \<le> length encoded" by auto
next
  fix encoded :: amqp_bytes and d d' :: dec_state and e
  assume mem: "in_memory encoded" "d_off d \<le> length encoded" and "d_bind f g encoded d = (Inl e, d')"
  then consider "f encoded d = (Inl e, d')" | v d1 where "f encoded d = (Inr v, d1)" "g v encoded d1 = (Inl e, d')"
    by (auto simp: d_bind_def split: prod.splits sum.splits)
  then show "\<exists>s. e = Status s"
  proof cases
    case 1
    then show ?thesis by (rule guarded_fault [OF f mem])
  next
    case 2
    with guarded_value [OF f mem 2(1)] show ?thesis by (intro guarded_fault [OF g mem(1)]) auto
  qed
qed

section \<open>The base types\<close>

lemma length_be [simp]: "length (be16 x) = 2" "length (be32 y) = 4" "length (be64 z) = 8"
  by (simp_all add: be16_def be32_def be64_def)

lemma from_be16_be16 [simp]: "from_be16 (be16 v) = v"
  by (rule bit_word_eqI) (auto simp: from_be16_def be16_def bit_simps)

lemma from_be32_be32 [simp]: "from_be32 (be32 v) = v"
  by (rule bit_word_eqI) (auto simp: from_be32_def be32_def bit_simps)

lemma from_be64_be64 [simp]: "from_be64 (be64 v) = v"
  by (rule bit_word_eqI) (auto simp: from_be64_def be64_def bit_simps)

lemma writes_base:
  assumes put: "\<And>buf off. put buf off = mem_write buf off w" and w: "length w = n" "n < 2 ^ 63"
  shows "writes (e_try s (encode_base n put)) w"
proof (rule writesI)
  fix buf :: amqp_bytes and off :: nat
  assume "in_memory buf" and "off + length w \<le> length buf"
  with w show "e_try s (encode_base n put) (buf, off) = (None, (blit buf off w, off + length w))"
    by (simp add: e_try_def encode_base_def put mem_write_def Let_def)
next
  fix buf :: amqp_bytes and off :: nat
  assume "in_memory buf" "off \<le> length buf" and "length buf < off + length w"
  with w show "\<exists>t. fst (e_try s (encode_base n put) (buf, off)) = Some (Status t)"
    by (simp add: e_try_def encode_base_def Let_def)
qed

lemma writes_8 [wire_intros]: "writes (e_try s (amqp_encode_8 v)) [v]"
  unfolding amqp_encode_8_def by (rule writes_base) (simp_all add: amqp_e8_def)

lemma writes_16 [wire_intros]: "writes (e_try s (amqp_encode_16 v)) (be16 v)"
  unfolding amqp_encode_16_def by (rule writes_base) (simp_all add: amqp_e16_def)

lemma writes_32 [wire_intros]: "writes (e_try s (amqp_encode_32 v)) (be32 v)"
  unfolding amqp_encode_32_def by (rule writes_base) (simp_all add: amqp_e32_def)

lemma writes_64 [wire_intros]: "writes (e_try s (amqp_encode_64 v)) (be64 v)"
  unfolding amqp_encode_64_def by (rule writes_base) (simp_all add: amqp_e64_def)

lemma writes_bytes [wire_intros]:
  assumes "length bs < 2 ^ 63"
  shows "writes (e_try s (amqp_encode_bytes bs)) bs"
proof (rule writesI)
  fix buf :: amqp_bytes and off :: nat
  assume "in_memory buf" and "off + length bs \<le> length buf"
  with assms show "e_try s (amqp_encode_bytes bs) (buf, off) = (None, (blit buf off bs, off + length bs))"
    by (simp add: e_try_def amqp_encode_bytes_def mem_write_def Let_def)
next
  fix buf :: amqp_bytes and off :: nat
  assume "in_memory buf" "off \<le> length buf" and "length buf < off + length bs"
  with assms show "\<exists>t. fst (e_try s (amqp_encode_bytes bs) (buf, off)) = Some (Status t)"
    by (auto simp: e_try_def amqp_encode_bytes_def Let_def)
qed

text \<open>Behind the end of the buffer the first byte is refused.\<close>

lemma e_try_8_behind:
  assumes "length buf < off" "off < 2 ^ 63"
  shows "fst (e_seq (e_try s (amqp_encode_8 v)) g (buf, off)) = Some (Status s)"
  using assms by (simp add: e_seq_def e_try_def amqp_encode_8_def encode_base_def Let_def)

lemma reads_base:
  assumes get: "\<And>buf off. at_off buf off w \<Longrightarrow> get buf off = Some v" and w: "length w = n" "n < 2 ^ 63"
  shows "reads (d_try s (decode_base n get)) w v"
proof (rule readsI)
  fix encoded :: amqp_bytes and d :: dec_state
  assume mem: "in_memory encoded" "heap_ok (d_heap d)" and at: "at_off encoded (d_off d) w"
  then have "d_off d + n \<le> length encoded" using w by (simp add: at_off_def)
  with mem w get [OF at]
  show "\<exists>d'. d_try s (decode_base n get) encoded d = (Inr v, d')
      \<and> d_off d' = d_off d + length w \<and> heap_ok (d_heap d')"
    by (simp add: d_try_def decode_base_def Let_def)
qed

lemma reads_8 [wire_intros]: "reads (d_try s amqp_decode_8) [v] v"
  unfolding amqp_decode_8_def by (rule reads_base) (simp_all add: amqp_d8_def mem_simps)

lemma reads_16 [wire_intros]: "reads (d_try s amqp_decode_16) (be16 v) v"
  unfolding amqp_decode_16_def by (rule reads_base) (simp_all add: amqp_d16_def mem_simps)

lemma reads_32 [wire_intros]: "reads (d_try s amqp_decode_32) (be32 v) v"
  unfolding amqp_decode_32_def by (rule reads_base) (simp_all add: amqp_d32_def mem_simps)

lemma reads_64 [wire_intros]: "reads (d_try s amqp_decode_64) (be64 v) v"
  unfolding amqp_decode_64_def by (rule reads_base) (simp_all add: amqp_d64_def mem_simps)

lemma reads_bytes [wire_intros]:
  assumes "n = length bs" shows "reads (d_try s (amqp_decode_bytes n)) bs bs"
proof (rule readsI)
  fix encoded :: amqp_bytes and d :: dec_state
  assume mem: "in_memory encoded" "heap_ok (d_heap d)" and at: "at_off encoded (d_off d) bs"
  then have "d_off d + n \<le> length encoded" using assms by (simp add: at_off_def)
  with mem at assms
  show "\<exists>d'. d_try s (amqp_decode_bytes n) encoded d = (Inr bs, d')
      \<and> d_off d' = d_off d + length bs \<and> heap_ok (d_heap d')"
    by (simp add: d_try_def amqp_decode_bytes_def Let_def mem_simps)
qed

lemma reads_pool_alloc [wire_intros]:
  assumes "0 < n" "n \<le> 2 ^ 63"
  shows "reads (d_pool_alloc n) [] ()"
proof (rule readsI)
  fix encoded :: amqp_bytes and d :: dec_state
  assume "heap_ok (d_heap d)"
  from amqp_pool_alloc_ok [OF this assms, of "d_pool d"]
  show "\<exists>d'. d_pool_alloc n encoded d = (Inr (), d')
      \<and> d_off d' = d_off d + length ([] :: amqp_bytes) \<and> heap_ok (d_heap d')"
    by (auto simp: d_pool_alloc_def)
qed

text \<open>Wrap-around of the offset is what the bound on the buffer excludes.\<close>

lemma guarded_base:
  assumes get: "\<And>buf off. off + n \<le> length buf \<Longrightarrow> get buf off \<noteq> None" and n: "n < 2 ^ 63"
  shows "guarded (d_try s (decode_base n get))"
proof (rule guardedI)
  fix encoded :: amqp_bytes and d d' :: dec_state and v
  assume "in_memory encoded" "d_off d \<le> length encoded" "d_try s (decode_base n get) encoded d = (Inr v, d')"
  with n show "d_off d \<le> d_off d' \<and> d_off d' \<le> length encoded"
    by (auto simp: d_try_def decode_base_def Let_def split: if_splits option.splits)
next
  fix encoded :: amqp_bytes and d d' :: dec_state and e
  assume mem: "in_memory encoded" "d_off d \<le> length encoded" and "d_try s (decode_base n get) encoded d = (Inl e, d')"
  with n get [of "d_off d" encoded] show "\<exists>t. e = Status t"
    by (auto simp: d_try_def decode_base_def Let_def split: if_splits option.splits)
qed

lemma guarded_8 [wire_intros]: "guarded (d_try s amqp_decode_8)"
  unfolding amqp_decode_8_def by (rule guarded_base) (simp_all add: amqp_d8_def mem_read_def)

lemma guarded_16 [wire_intros]: "guarded (d_try s amqp_decode_16)"
  unfolding amqp_decode_16_def by (rule guarded_base) (simp_all add: amqp_d16_def mem_read_def)

lemma guarded_32 [wire_intros]: "guarded (d_try s amqp_decode_32)"
  unfolding amqp_decode_32_def by (rule guarded_base) (simp_all add: amqp_d32_def mem_read_def)

lemma guarded_64 [wire_intros]: "guarded (d_try s amqp_decode_64)"
  unfolding amqp_decode_64_def by (rule guarded_base) (simp_all add: amqp_d64_def mem_read_def)

lemma guarded_bytes [wire_intros]:
  assumes "n < 2 ^ 63" shows "guarded (d_try s (amqp_decode_bytes n))"
proof -
  have "amqp_decode_bytes n = decode_base n (\<lambda>buf off. mem_read buf off n)"
    by (intro ext) (simp add: amqp_decode_bytes_def decode_base_def)
  with guarded_base [of n "\<lambda>buf off. mem_read buf off n" s] assms show ?thesis
    by (simp add: mem_read_def)
qed

lemma guarded_pool_alloc [wire_intros]: "guarded (d_pool_alloc n)"
  by (rule guardedI) (auto simp: d_pool_alloc_def split: prod.splits option.splits)

section \<open>The contract of an encoder and its decoder\<close>

locale wire_format =
  fixes encode :: "'v \<Rightarrow> enc" and decode :: "'v dec" and wire :: "'v \<Rightarrow> amqp_bytes"
    and valid :: "'v \<Rightarrow> bool"
  assumes encode_writes: "valid v \<Longrightarrow> writes (encode v) (wire v)"
    and decode_reads: "valid v \<Longrightarrow> reads decode (wire v) v"
begin

lemma encode_success:
  assumes "valid v" "in_memory buf" "off \<le> length buf" "encode v (buf, off) = (None, (buf', off'))"
  shows "off + length (wire v) \<le> length buf \<and> buf' = blit buf off (wire v) \<and> off' = off + length (wire v)"
  using writes_success [OF encode_writes [OF assms(1)] assms(2-)] by simp

lemma encode_iff_fits:
  assumes "valid v" "in_memory buf" "off \<le> length buf"
  shows "(fst (encode v (buf, off)) = None) = (off + length (wire v) \<le> length buf)"
proof
  assume "fst (encode v (buf, off)) = None"
  then obtain buf' off' where "encode v (buf, off) = (None, (buf', off'))"
    by (metis prod.collapse)
  with encode_success [OF assms] show "off + length (wire v) \<le> length buf" by blast
next
  assume "off + length (wire v) \<le> length buf"
  with writes_fit [OF encode_writes [OF assms(1)] assms(2)]
  show "fst (encode v (buf, off)) = None" by simp
qed

lemma roundtrip:
  assumes v: "valid v" and buf: "in_memory buf" "off \<le> length buf"
    and enc: "encode v (buf, off) = (None, (buf', off'))"
    and d: "d_off d = off" "heap_ok (d_heap d)"
  shows "\<exists>d'. decode buf' d = (Inr v, d') \<and> d_off d' = off'"
proof -
  from encode_success [OF v buf enc]
  have fits: "off + length (wire v) \<le> length buf" "buf' = blit buf off (wire v)"
    "off' = off + length (wire v)" by auto
  then have "in_memory buf'" "at_off buf' (d_off d) (wire v)" using buf d by simp_all
  then show ?thesis
    using readsE [OF decode_reads [OF v] _ d(2)] d(1) fits(3) by metis
qed

text \<open>The wire format determines the value, whatever follows it.\<close>

lemma wire_prefix_free:
  assumes "valid v" "valid w" "wire v @ xs = wire w @ ys" "in_memory (wire v @ xs)"
  shows "v = w \<and> xs = ys"
proof -
  define d :: dec_state where
    "d = \<lparr>d_off = 0, d_pool = init_amqp_pool 0,
          d_heap = \<lparr>h_grants = \<lambda>_ _. True, h_count = 0, h_live = [], h_size = \<lambda>_. 0, h_stray = []\<rparr>\<rparr>"
  have d: "heap_ok (d_heap d)" "d_off d = 0" by (simp_all add: d_def heap_ok_def)
  have "at_off (wire v @ xs) 0 (wire v)" by (simp add: at_off_def)
  moreover have "at_off (wire v @ xs) 0 (wire w)"
    by (simp add: assms(3) at_off_def)
  ultimately have "\<exists>d1. decode (wire v @ xs) d = (Inr v, d1)" "\<exists>d2. decode (wire v @ xs) d = (Inr w, d2)"
    using readsE [OF decode_reads [OF assms(1)] assms(4) d(1)]
      readsE [OF decode_reads [OF assms(2)] assms(4) d(1)] d(2) by metis+
  then have "v = w" by auto
  with assms(3) show ?thesis by simp
qed

end

text \<open>A decoder that is safe on every input, not only on what the encoder wrote.\<close>

locale wire_codec = wire_format +
  assumes decode_guarded: "guarded decode"
begin

lemma decode_safe:
  assumes "in_memory encoded" "d_off d \<le> length encoded" "decode encoded d = (r, d')"
  shows "(\<exists>v. r = Inr v \<and> d_off d \<le> d_off d' \<and> d_off d' \<le> length encoded) \<or> (\<exists>s. r = Inl (Status s))"
  using guarded_value [OF decode_guarded assms(1,2)] guarded_fault [OF decode_guarded assms(1,2)] assms(3)
  by (cases r) auto

end

end
