(* ===== verification/Amqp_Table.thy ===== *)
theory Amqp_Table
  imports Amqp_Codec
begin

text \<open>
  Field values, arrays and tables (\<^verbatim>\<open>amqp_table.c\<close>): the recursive encoder, which writes
  the size of an array or table after its entries, and the recursive decoder, which collects the
  entries in a temporary block that it grows by doubling and then copies into the pool.

  A field value is the tagged union \<^verbatim>\<open>amqp_field_value_t\<close>; the constructors carry the member
  of the union the tag selects. Signed and floating-point members are kept as bit patterns: the
  code moves them by casts and type punning that keep the pattern. \<open>FV_Other\<close> is a value whose tag
  is none of the enumeration's. An array or table with no entries has \<^verbatim>\<open>entries == NULL\<close>.
\<close>

section \<open>amqp.h: field values and tables\<close>

abbreviation AMQP_FIELD_KIND_BOOLEAN :: u8 where "AMQP_FIELD_KIND_BOOLEAN \<equiv> 0x74"
abbreviation AMQP_FIELD_KIND_I8 :: u8 where "AMQP_FIELD_KIND_I8 \<equiv> 0x62"
abbreviation AMQP_FIELD_KIND_U8 :: u8 where "AMQP_FIELD_KIND_U8 \<equiv> 0x42"
abbreviation AMQP_FIELD_KIND_I16 :: u8 where "AMQP_FIELD_KIND_I16 \<equiv> 0x73"
abbreviation AMQP_FIELD_KIND_U16 :: u8 where "AMQP_FIELD_KIND_U16 \<equiv> 0x75"
abbreviation AMQP_FIELD_KIND_I32 :: u8 where "AMQP_FIELD_KIND_I32 \<equiv> 0x49"
abbreviation AMQP_FIELD_KIND_U32 :: u8 where "AMQP_FIELD_KIND_U32 \<equiv> 0x69"
abbreviation AMQP_FIELD_KIND_I64 :: u8 where "AMQP_FIELD_KIND_I64 \<equiv> 0x6C"
abbreviation AMQP_FIELD_KIND_U64 :: u8 where "AMQP_FIELD_KIND_U64 \<equiv> 0x4C"
abbreviation AMQP_FIELD_KIND_F32 :: u8 where "AMQP_FIELD_KIND_F32 \<equiv> 0x66"
abbreviation AMQP_FIELD_KIND_F64 :: u8 where "AMQP_FIELD_KIND_F64 \<equiv> 0x64"
abbreviation AMQP_FIELD_KIND_DECIMAL :: u8 where "AMQP_FIELD_KIND_DECIMAL \<equiv> 0x44"
abbreviation AMQP_FIELD_KIND_UTF8 :: u8 where "AMQP_FIELD_KIND_UTF8 \<equiv> 0x53"
abbreviation AMQP_FIELD_KIND_ARRAY :: u8 where "AMQP_FIELD_KIND_ARRAY \<equiv> 0x41"
abbreviation AMQP_FIELD_KIND_TIMESTAMP :: u8 where "AMQP_FIELD_KIND_TIMESTAMP \<equiv> 0x54"
abbreviation AMQP_FIELD_KIND_TABLE :: u8 where "AMQP_FIELD_KIND_TABLE \<equiv> 0x46"
abbreviation AMQP_FIELD_KIND_VOID :: u8 where "AMQP_FIELD_KIND_VOID \<equiv> 0x56"
abbreviation AMQP_FIELD_KIND_BYTES :: u8 where "AMQP_FIELD_KIND_BYTES \<equiv> 0x78"

datatype amqp_field_value =
    FV_Boolean bool
  | FV_I8 u8
  | FV_U8 u8
  | FV_I16 u16
  | FV_U16 u16
  | FV_I32 u32
  | FV_U32 u32
  | FV_I64 u64
  | FV_U64 u64
  | FV_F32 u32
  | FV_F64 u64
  | FV_Decimal u8 u32
  | FV_Utf8 amqp_bytes
  | FV_Bytes amqp_bytes
  | FV_Array "amqp_field_value list"
  | FV_Timestamp u64
  | FV_Table "(amqp_bytes \<times> amqp_field_value) list"
  | FV_Void
  | FV_Other u8

type_synonym amqp_array = "amqp_field_value list"
type_synonym amqp_table_entry = "amqp_bytes \<times> amqp_field_value"
type_synonym amqp_table = "amqp_table_entry list"

fun field_kind :: "amqp_field_value \<Rightarrow> u8" where
  "field_kind (FV_Boolean _) = AMQP_FIELD_KIND_BOOLEAN"
| "field_kind (FV_I8 _) = AMQP_FIELD_KIND_I8"
| "field_kind (FV_U8 _) = AMQP_FIELD_KIND_U8"
| "field_kind (FV_I16 _) = AMQP_FIELD_KIND_I16"
| "field_kind (FV_U16 _) = AMQP_FIELD_KIND_U16"
| "field_kind (FV_I32 _) = AMQP_FIELD_KIND_I32"
| "field_kind (FV_U32 _) = AMQP_FIELD_KIND_U32"
| "field_kind (FV_I64 _) = AMQP_FIELD_KIND_I64"
| "field_kind (FV_U64 _) = AMQP_FIELD_KIND_U64"
| "field_kind (FV_F32 _) = AMQP_FIELD_KIND_F32"
| "field_kind (FV_F64 _) = AMQP_FIELD_KIND_F64"
| "field_kind (FV_Decimal _ _) = AMQP_FIELD_KIND_DECIMAL"
| "field_kind (FV_Utf8 _) = AMQP_FIELD_KIND_UTF8"
| "field_kind (FV_Bytes _) = AMQP_FIELD_KIND_BYTES"
| "field_kind (FV_Array _) = AMQP_FIELD_KIND_ARRAY"
| "field_kind (FV_Timestamp _) = AMQP_FIELD_KIND_TIMESTAMP"
| "field_kind (FV_Table _) = AMQP_FIELD_KIND_TABLE"
| "field_kind FV_Void = AMQP_FIELD_KIND_VOID"
| "field_kind (FV_Other k) = k"

text \<open>\<^verbatim>\<open>sizeof(amqp_field_value_t)\<close> and \<^verbatim>\<open>sizeof(amqp_table_entry_t)\<close> on LP64.\<close>

definition sizeof_field_value :: nat where "sizeof_field_value = 24"
definition sizeof_table_entry :: nat where "sizeof_table_entry = 40"

section \<open>Encoding\<close>

text \<open>
  The common body of \<^verbatim>\<open>amqp_encode_array\<close> and \<^verbatim>\<open>amqp_encode_table\<close>: skip four bytes, encode
  the entries, then write the size of what they took at the saved offset.
\<close>

definition encode_sized :: "enc list \<Rightarrow> enc" where
  "encode_sized entries = (\<lambda>(encoded, off).
     case e_block entries (encoded, sz_add off 4) of
       (Some e, st) \<Rightarrow> (Some e, st)
     | (None, (encoded', off')) \<Rightarrow>
         (case e_try AMQP_STATUS_TABLE_TOO_BIG
                 (amqp_encode_32 (of_nat (sz_sub (sz_sub off' off) 4))) (encoded', off) of
            (r, (encoded'', _)) \<Rightarrow> (r, (encoded'', off'))))"

fun amqp_encode_field_value :: "amqp_field_value \<Rightarrow> enc" where
  "amqp_encode_field_value v =
    e_seq (e_try AMQP_STATUS_BAD_AMQP_DATA (amqp_encode_8 (field_kind v)))
      (case v of
         FV_Boolean b \<Rightarrow> e_try AMQP_STATUS_TABLE_TOO_BIG (amqp_encode_8 (if b then 1 else 0))
       | FV_I8 x \<Rightarrow> e_try AMQP_STATUS_TABLE_TOO_BIG (amqp_encode_8 x)
       | FV_U8 x \<Rightarrow> e_try AMQP_STATUS_TABLE_TOO_BIG (amqp_encode_8 x)
       | FV_I16 x \<Rightarrow> e_try AMQP_STATUS_TABLE_TOO_BIG (amqp_encode_16 x)
       | FV_U16 x \<Rightarrow> e_try AMQP_STATUS_TABLE_TOO_BIG (amqp_encode_16 x)
       | FV_I32 x \<Rightarrow> e_try AMQP_STATUS_TABLE_TOO_BIG (amqp_encode_32 x)
       | FV_U32 x \<Rightarrow> e_try AMQP_STATUS_TABLE_TOO_BIG (amqp_encode_32 x)
       | FV_I64 x \<Rightarrow> e_try AMQP_STATUS_TABLE_TOO_BIG (amqp_encode_64 x)
       | FV_U64 x \<Rightarrow> e_try AMQP_STATUS_TABLE_TOO_BIG (amqp_encode_64 x)
       | FV_F32 x \<Rightarrow> e_try AMQP_STATUS_TABLE_TOO_BIG (amqp_encode_32 x)
       | FV_F64 x \<Rightarrow> e_try AMQP_STATUS_TABLE_TOO_BIG (amqp_encode_64 x)
       | FV_Decimal decimals val \<Rightarrow>
           e_seq (e_try AMQP_STATUS_TABLE_TOO_BIG (amqp_encode_8 decimals))
             (e_try AMQP_STATUS_TABLE_TOO_BIG (amqp_encode_32 val))
       | FV_Utf8 bs \<Rightarrow>
           e_seq (e_try AMQP_STATUS_TABLE_TOO_BIG (amqp_encode_32 (of_nat (length bs))))
             (e_try AMQP_STATUS_TABLE_TOO_BIG (amqp_encode_bytes bs))
       | FV_Bytes bs \<Rightarrow>
           e_seq (e_try AMQP_STATUS_TABLE_TOO_BIG (amqp_encode_32 (of_nat (length bs))))
             (e_try AMQP_STATUS_TABLE_TOO_BIG (amqp_encode_bytes bs))
       | FV_Array vs \<Rightarrow> encode_sized (map amqp_encode_field_value vs)
       | FV_Timestamp x \<Rightarrow> e_try AMQP_STATUS_TABLE_TOO_BIG (amqp_encode_64 x)
       | FV_Table t \<Rightarrow>
           encode_sized
             (map (\<lambda>(key, value).
                e_block [e_try AMQP_STATUS_TABLE_TOO_BIG (amqp_encode_8 (of_nat (length key))),
                         e_try AMQP_STATUS_TABLE_TOO_BIG (amqp_encode_bytes key),
                         amqp_encode_field_value value]) t)
       | FV_Void \<Rightarrow> e_block []
       | FV_Other _ \<Rightarrow> e_fail AMQP_STATUS_INVALID_PARAMETER)"

definition amqp_encode_array :: "amqp_array \<Rightarrow> enc" where
  "amqp_encode_array input = encode_sized (map amqp_encode_field_value input)"

definition amqp_encode_table :: "amqp_table \<Rightarrow> enc" where
  "amqp_encode_table input =
    encode_sized
      (map (\<lambda>(key, value).
         e_block [e_try AMQP_STATUS_TABLE_TOO_BIG (amqp_encode_8 (of_nat (length key))),
                  e_try AMQP_STATUS_TABLE_TOO_BIG (amqp_encode_bytes key),
                  amqp_encode_field_value value]) input)"

section \<open>Decoding\<close>

text \<open>The cases of the switch that do not call back into the table and array decoders.\<close>

definition decode_scalar_field :: "u8 \<Rightarrow> amqp_field_value dec" where
  "decode_scalar_field kind =
    (let d8 = d_try AMQP_STATUS_BAD_AMQP_DATA amqp_decode_8;
         d16 = d_try AMQP_STATUS_BAD_AMQP_DATA amqp_decode_16;
         d32 = d_try AMQP_STATUS_BAD_AMQP_DATA amqp_decode_32;
         d64 = d_try AMQP_STATUS_BAD_AMQP_DATA amqp_decode_64;
         dbytes = (\<lambda>n. d_try AMQP_STATUS_BAD_AMQP_DATA (amqp_decode_bytes n))
     in if kind = AMQP_FIELD_KIND_BOOLEAN then d_bind d8 (\<lambda>val. d_return (FV_Boolean (val \<noteq> 0)))
        else if kind = AMQP_FIELD_KIND_I8 then d_bind d8 (\<lambda>val. d_return (FV_I8 val))
        else if kind = AMQP_FIELD_KIND_U8 then d_bind d8 (\<lambda>val. d_return (FV_U8 val))
        else if kind = AMQP_FIELD_KIND_I16 then d_bind d16 (\<lambda>val. d_return (FV_I16 val))
        else if kind = AMQP_FIELD_KIND_U16 then d_bind d16 (\<lambda>val. d_return (FV_U16 val))
        else if kind = AMQP_FIELD_KIND_I32 then d_bind d32 (\<lambda>val. d_return (FV_I32 val))
        else if kind = AMQP_FIELD_KIND_U32 then d_bind d32 (\<lambda>val. d_return (FV_U32 val))
        else if kind = AMQP_FIELD_KIND_I64 then d_bind d64 (\<lambda>val. d_return (FV_I64 val))
        else if kind = AMQP_FIELD_KIND_U64 then d_bind d64 (\<lambda>val. d_return (FV_U64 val))
        else if kind = AMQP_FIELD_KIND_F32 then d_bind d32 (\<lambda>val. d_return (FV_F32 val))
        else if kind = AMQP_FIELD_KIND_F64 then d_bind d64 (\<lambda>val. d_return (FV_F64 val))
        else if kind = AMQP_FIELD_KIND_DECIMAL then
          d_bind d8 (\<lambda>decimals. d_bind d32 (\<lambda>val. d_return (FV_Decimal decimals val)))
        else if kind = AMQP_FIELD_KIND_UTF8 then
          d_bind d32 (\<lambda>len. d_bind (dbytes (unat len)) (\<lambda>bs. d_return (FV_Utf8 bs)))
        else if kind = AMQP_FIELD_KIND_BYTES then
          d_bind d32 (\<lambda>len. d_bind (dbytes (unat len)) (\<lambda>bs. d_return (FV_Bytes bs)))
        else if kind = AMQP_FIELD_KIND_TIMESTAMP then d_bind d64 (\<lambda>val. d_return (FV_Timestamp val))
        else if kind = AMQP_FIELD_KIND_VOID then d_return FV_Void
        else d_fail (Status AMQP_STATUS_BAD_AMQP_DATA))"

definition d_free :: "nat \<Rightarrow> dec_state \<Rightarrow> dec_state" where
  "d_free b d = d\<lparr>d_heap := free b (d_heap d)\<rparr>"

text \<open>The temporary array of entries: its block and the number of entries it has room for.\<close>

definition alloc_entries :: "nat \<Rightarrow> nat dec" where
  "alloc_entries sz encoded d =
    (case malloc (sz_mul 16 sz) (d_heap d) of
       (None, h) \<Rightarrow> (Inl (Status AMQP_STATUS_NO_MEMORY), d\<lparr>d_heap := h\<rparr>)
     | (Some b, h) \<Rightarrow> (Inr b, d\<lparr>d_heap := h\<rparr>))"

definition grow_entries ::
    "nat \<Rightarrow> nat \<Rightarrow> nat \<Rightarrow> nat \<Rightarrow> dec_state \<Rightarrow> (nat \<times> nat) option \<times> dec_state" where
  "grow_entries sz entries allocated num_entries d =
    (if num_entries \<ge> allocated then
       (case realloc entries (sz_mul (allocated * 2) sz) (d_heap d) of
          (None, h) \<Rightarrow> (None, d\<lparr>d_heap := h\<rparr>)
        | (Some b, h) \<Rightarrow> (Some (b, allocated * 2), d\<lparr>d_heap := h\<rparr>))
     else (Some (entries, allocated), d))"

text \<open>The end of both decoders: copy the entries into the pool and free the temporary array.\<close>

definition finish_entries :: "nat \<Rightarrow> nat \<Rightarrow> 'a list \<Rightarrow> dec_state \<Rightarrow> 'a list outcome \<times> dec_state" where
  "finish_entries sz entries acc d =
    (case amqp_pool_alloc (d_pool d) (sz_mul (length acc) sz) (d_heap d) of
       (None, p, h) \<Rightarrow>
         (if length acc = 0 then Inr [] else Inl (Status AMQP_STATUS_NO_MEMORY),
          d_free entries (d\<lparr>d_pool := p, d_heap := h\<rparr>))
     | (Some a, p, h) \<Rightarrow> (Inr acc, d_free entries (d\<lparr>d_pool := p, d_heap := h\<rparr>)))"

text \<open>
  The mutual recursion, with a bound on its depth as the first argument. The loops carry the
  temporary array, its capacity and the entries decoded so far.
\<close>

fun decode_field_value :: "nat \<Rightarrow> amqp_field_value dec"
  and decode_array :: "nat \<Rightarrow> amqp_array dec"
  and decode_table :: "nat \<Rightarrow> amqp_table dec"
  and decode_array_loop :: "nat \<Rightarrow> nat \<Rightarrow> nat \<Rightarrow> nat \<Rightarrow> amqp_array \<Rightarrow> amqp_array dec"
  and decode_table_loop :: "nat \<Rightarrow> nat \<Rightarrow> nat \<Rightarrow> nat \<Rightarrow> amqp_table \<Rightarrow> amqp_table dec" where
  "decode_field_value 0 = d_fail Out_of_fuel"
| "decode_field_value (Suc fuel) =
    d_bind (d_try AMQP_STATUS_BAD_AMQP_DATA amqp_decode_8) (\<lambda>kind.
      if kind = AMQP_FIELD_KIND_ARRAY then d_bind (decode_array fuel) (\<lambda>a. d_return (FV_Array a))
      else if kind = AMQP_FIELD_KIND_TABLE then d_bind (decode_table fuel) (\<lambda>t. d_return (FV_Table t))
      else decode_scalar_field kind)"
| "decode_array 0 = d_fail Out_of_fuel"
| "decode_array (Suc fuel) =
    d_bind (d_try AMQP_STATUS_BAD_AMQP_DATA amqp_decode_32) (\<lambda>arraysize.
      d_bind (alloc_entries sizeof_field_value) (\<lambda>entries encoded d.
        decode_array_loop fuel (sz_add (d_off d) (unat arraysize)) entries 16 [] encoded d))"
| "decode_table 0 = d_fail Out_of_fuel"
| "decode_table (Suc fuel) =
    d_bind (d_try AMQP_STATUS_BAD_AMQP_DATA amqp_decode_32) (\<lambda>tablesize.
      d_bind (alloc_entries sizeof_table_entry) (\<lambda>entries encoded d.
        decode_table_loop fuel (sz_add (d_off d) (unat tablesize)) entries 16 [] encoded d))"
| "decode_array_loop 0 limit entries allocated acc encoded d = (Inl Out_of_fuel, d)"
| "decode_array_loop (Suc fuel) limit entries allocated acc encoded d =
    (if d_off d < limit then
       (case grow_entries sizeof_field_value entries allocated (length acc) d of
          (None, d1) \<Rightarrow> (Inl (Status AMQP_STATUS_NO_MEMORY), d_free entries d1)
        | (Some (entries', allocated'), d1) \<Rightarrow>
            (case decode_field_value fuel encoded d1 of
               (Inl e, d2) \<Rightarrow> (Inl e, d_free entries' d2)
             | (Inr v, d2) \<Rightarrow> decode_array_loop fuel limit entries' allocated' (acc @ [v]) encoded d2))
     else finish_entries sizeof_field_value entries acc d)"
| "decode_table_loop 0 limit entries allocated acc encoded d = (Inl Out_of_fuel, d)"
| "decode_table_loop (Suc fuel) limit entries allocated acc encoded d =
    (if d_off d < limit then
       (case d_try AMQP_STATUS_BAD_AMQP_DATA amqp_decode_8 encoded d of
          (Inl e, d1) \<Rightarrow> (Inl e, d_free entries d1)
        | (Inr keylen, d1) \<Rightarrow>
            (case grow_entries sizeof_table_entry entries allocated (length acc) d1 of
               (None, d2) \<Rightarrow> (Inl (Status AMQP_STATUS_NO_MEMORY), d_free entries d2)
             | (Some (entries', allocated'), d2) \<Rightarrow>
                 (case d_try AMQP_STATUS_BAD_AMQP_DATA (amqp_decode_bytes (unat keylen)) encoded d2 of
                    (Inl e, d3) \<Rightarrow> (Inl e, d_free entries' d3)
                  | (Inr key, d3) \<Rightarrow>
                      (case decode_field_value fuel encoded d3 of
                         (Inl e, d4) \<Rightarrow> (Inl e, d_free entries' d4)
                       | (Inr v, d4) \<Rightarrow>
                           decode_table_loop fuel limit entries' allocated' (acc @ [(key, v)]) encoded d4))))
     else finish_entries sizeof_table_entry entries acc d)"

text \<open>
  Every nested call starts at least one byte further into the buffer, so three times the length of
  the buffer is more depth than a run can use.
\<close>

definition amqp_decode_table :: "amqp_table dec" where
  "amqp_decode_table encoded d = decode_table (3 * length encoded + 3) encoded d"

definition amqp_decode_field_value :: "amqp_field_value dec" where
  "amqp_decode_field_value encoded d = decode_field_value (3 * length encoded + 1) encoded d"

section \<open>The wire format\<close>

definition wire_sized :: "amqp_bytes \<Rightarrow> amqp_bytes" where
  "wire_sized body = be32 (of_nat (length body)) @ body"

fun wire_field_value :: "amqp_field_value \<Rightarrow> amqp_bytes" where
  "wire_field_value v = field_kind v #
    (case v of
       FV_Boolean b \<Rightarrow> [if b then 1 else 0]
     | FV_I8 x \<Rightarrow> [x]
     | FV_U8 x \<Rightarrow> [x]
     | FV_I16 x \<Rightarrow> be16 x
     | FV_U16 x \<Rightarrow> be16 x
     | FV_I32 x \<Rightarrow> be32 x
     | FV_U32 x \<Rightarrow> be32 x
     | FV_I64 x \<Rightarrow> be64 x
     | FV_U64 x \<Rightarrow> be64 x
     | FV_F32 x \<Rightarrow> be32 x
     | FV_F64 x \<Rightarrow> be64 x
     | FV_Decimal decimals val \<Rightarrow> decimals # be32 val
     | FV_Utf8 bs \<Rightarrow> wire_sized bs
     | FV_Bytes bs \<Rightarrow> wire_sized bs
     | FV_Array vs \<Rightarrow> wire_sized (concat (map wire_field_value vs))
     | FV_Timestamp x \<Rightarrow> be64 x
     | FV_Table t \<Rightarrow>
         wire_sized (concat (map (\<lambda>(key, value). of_nat (length key) # key @ wire_field_value value) t))
     | FV_Void \<Rightarrow> []
     | FV_Other _ \<Rightarrow> [])"

definition wire_entry :: "amqp_table_entry \<Rightarrow> amqp_bytes" where
  "wire_entry = (\<lambda>(key, value). of_nat (length key) # key @ wire_field_value value)"

definition wire_table :: "amqp_table \<Rightarrow> amqp_bytes" where
  "wire_table t = wire_sized (concat (map wire_entry t))"

text \<open>
  The values the format can carry: keys of at most 255 bytes, strings, arrays and tables of less
  than \<open>2 ^ 32\<close> bytes, no unknown tag.
\<close>

fun valid_field_value :: "amqp_field_value \<Rightarrow> bool" where
  "valid_field_value v =
    (case v of
       FV_Utf8 bs \<Rightarrow> length bs < 2 ^ 32
     | FV_Bytes bs \<Rightarrow> length bs < 2 ^ 32
     | FV_Array vs \<Rightarrow> list_all valid_field_value vs \<and> length (concat (map wire_field_value vs)) < 2 ^ 32
     | FV_Table t \<Rightarrow>
         list_all (\<lambda>(key, value). length key \<le> 255 \<and> valid_field_value value) t
         \<and> length (concat (map wire_entry t)) < 2 ^ 32
     | FV_Other _ \<Rightarrow> False
     | _ \<Rightarrow> True)"

definition valid_table :: "amqp_table \<Rightarrow> bool" where
  "valid_table t \<longleftrightarrow>
     list_all (\<lambda>(key, value). length key \<le> 255 \<and> valid_field_value value) t
     \<and> length (concat (map wire_entry t)) < 2 ^ 32"

section \<open>What the encoder writes\<close>

declare amqp_encode_field_value.simps [simp del]
declare wire_field_value.simps [simp del]
declare valid_field_value.simps [simp del]

text \<open>A block that is empty or starts with a one-byte tag.\<close>

definition tag_first :: "enc list \<Rightarrow> bool" where
  "tag_first es \<longleftrightarrow> es = [] \<or> (\<exists>s v g. hd es = e_seq (e_try s (amqp_encode_8 v)) g)"

lemma tag_first_behind:
  assumes "tag_first es" "es \<noteq> []" "length buf < off" "off < 2 ^ 63"
  shows "\<exists>s. fst (e_block es (buf, off)) = Some (Status s)"
proof -
  obtain s v g es' where "es = e_seq (e_try s (amqp_encode_8 v)) g # es'"
    using assms(1,2) by (cases es) (auto simp: tag_first_def)
  with e_try_8_behind [OF assms(3,4), of s v g] show ?thesis
    by (auto simp: e_seq_def [of "e_seq _ _"] split: prod.splits)
qed

lemma writes_sized [wire_intros]:
  assumes body: "writes (e_block es) body" and len: "length body < 2 ^ 32" and tag: "tag_first es"
  shows "writes (encode_sized es) (wire_sized body)"
proof (rule writesI)
  fix buf :: amqp_bytes and off :: nat
  assume mem: "in_memory buf" and "off + length (wire_sized body) \<le> length buf"
  then have fits: "off + 4 + length body \<le> length buf" by (simp add: wire_sized_def)
  let ?size = "be32 (of_nat (length body))"
  have blk: "e_block es (buf, off + 4) = (None, (blit buf (off + 4) body, off + 4 + length body))"
    by (rule writes_fit [OF body mem fits])
  have "e_try AMQP_STATUS_TABLE_TOO_BIG (amqp_encode_32 (of_nat (length body))) (blit buf (off + 4) body, off)
      = (None, (blit (blit buf (off + 4) body) off ?size, off + 4))"
    using writes_fit [OF writes_32, of "blit buf (off + 4) body" off] mem fits by simp
  moreover have "blit (blit buf (off + 4) body) off ?size = blit buf off (wire_sized body)"
    using blit_prepend [of off ?size body buf] fits by (simp add: wire_sized_def)
  ultimately show "encode_sized es (buf, off) = (None, (blit buf off (wire_sized body), off + length (wire_sized body)))"
    using blk fits mem by (simp add: encode_sized_def wire_sized_def)
next
  fix buf :: amqp_bytes and off :: nat
  assume mem: "in_memory buf" "off \<le> length buf" and "length buf < off + length (wire_sized body)"
  then have big: "length buf < off + 4 + length body" by (simp add: wire_sized_def)
  show "\<exists>s. fst (encode_sized es (buf, off)) = Some (Status s)"
  proof (cases "off + 4 \<le> length buf")
    case True
    then have "\<exists>s. fst (e_block es (buf, off + 4)) = Some (Status s)"
      using writes_overflow [OF body mem(1)] big by simp
    then show ?thesis using mem by (auto simp: encode_sized_def split: prod.splits)
  next
    case False
    show ?thesis
    proof (cases "es = []")
      case True
      with False mem show ?thesis
        by (simp add: encode_sized_def e_try_def amqp_encode_32_def encode_base_def Let_def)
    next
      case False
      then have "\<exists>s. fst (e_block es (buf, off + 4)) = Some (Status s)"
        using tag_first_behind [OF tag, of buf "off + 4"] \<open>\<not> off + 4 \<le> length buf\<close> mem by simp
      then show ?thesis using mem by (auto simp: encode_sized_def split: prod.splits)
    qed
  qed
qed

lemma writes_map:
  "(\<And>x. x \<in> set xs \<Longrightarrow> writes (f x) (w x)) \<Longrightarrow> writes (e_block (map f xs)) (concat (map w xs))"
  by (induction xs) (simp_all add: wire_intros del: e_block.simps)

lemma tag_first_field_values: "tag_first (map amqp_encode_field_value vs)"
  by (cases vs) (auto simp: tag_first_def amqp_encode_field_value.simps)

lemma tag_first_entries:
  "tag_first (map (\<lambda>(key, value). e_block (e_try s (amqp_encode_8 (l key)) # es key value)) t)"
  by (cases t) (auto simp: tag_first_def)

lemma writes_tagged: "writes g w \<Longrightarrow> writes (e_seq (e_try s (amqp_encode_8 k)) g) (k # w)"
  using writes_seq [OF writes_8] by fastforce

lemma writes_counted_bytes:
  assumes "length bs < 2 ^ 32"
  shows "writes (e_seq (e_try s (amqp_encode_32 (of_nat (length bs)))) (e_try s (amqp_encode_bytes bs)))
    (wire_sized bs)"
  unfolding wire_sized_def using assms by (intro wire_intros) simp

lemma writes_entry:
  assumes "length key \<le> 255" "writes (amqp_encode_field_value value) (wire_field_value value)"
  shows "writes (e_block [e_try s (amqp_encode_8 (of_nat (length key))), e_try s (amqp_encode_bytes key),
      amqp_encode_field_value value]) (wire_entry (key, value))"
proof -
  have "wire_entry (key, value) = [of_nat (length key)] @ key @ wire_field_value value @ []"
    by (simp add: wire_entry_def)
  moreover have "writes (e_block [e_try s (amqp_encode_8 (of_nat (length key))), e_try s (amqp_encode_bytes key),
      amqp_encode_field_value value]) ([of_nat (length key)] @ key @ wire_field_value value @ [])"
    by (intro writes_block writes_8 writes_bytes writes_nothing assms(2)) (use assms(1) in simp)
  ultimately show ?thesis by simp
qed

lemma encode_table_writes:
  assumes t: "\<And>k v. (k, v) \<in> set t \<Longrightarrow> length k \<le> 255 \<and> writes (amqp_encode_field_value v) (wire_field_value v)"
    and len: "length (concat (map wire_entry t)) < 2 ^ 32"
  shows "writes (amqp_encode_table t) (wire_table t)"
  unfolding amqp_encode_table_def wire_table_def
proof (rule writes_sized [OF writes_map len tag_first_entries])
  fix e :: amqp_table_entry
  assume "e \<in> set t"
  with t [of "fst e" "snd e"] writes_entry [of "fst e" "snd e"]
  show "writes (case e of (key, value) \<Rightarrow>
         e_block [e_try AMQP_STATUS_TABLE_TOO_BIG (amqp_encode_8 (of_nat (length key))),
                  e_try AMQP_STATUS_TABLE_TOO_BIG (amqp_encode_bytes key),
                  amqp_encode_field_value value]) (wire_entry e)"
    by (simp add: case_prod_beta del: e_block.simps e_block_Cons)
qed

lemma wire_field_value_table:
  "wire_field_value (FV_Table t) = AMQP_FIELD_KIND_TABLE # wire_table t"
  by (simp add: wire_field_value.simps [of "FV_Table t"] wire_table_def wire_entry_def)

lemma encode_field_value_writes:
  "valid_field_value v \<Longrightarrow> writes (amqp_encode_field_value v) (wire_field_value v)"
proof (induction v)
  case (FV_Array vs)
  then have vs: "\<And>v. v \<in> set vs \<Longrightarrow> writes (amqp_encode_field_value v) (wire_field_value v)"
    and len: "length (concat (map wire_field_value vs)) < 2 ^ 32"
    by (auto simp: valid_field_value.simps [of "FV_Array vs"] list_all_iff)
  have "writes (encode_sized (map amqp_encode_field_value vs)) (wire_sized (concat (map wire_field_value vs)))"
    by (intro writes_sized writes_map vs len tag_first_field_values)
  from writes_seq [OF writes_8 this] show ?case
    by (simp add: amqp_encode_field_value.simps [of "FV_Array vs"] wire_field_value.simps [of "FV_Array vs"])
next
  case (FV_Table t)
  have "writes (amqp_encode_table t) (wire_table t)"
    by (rule encode_table_writes)
      (use FV_Table in \<open>auto simp: valid_field_value.simps [of "FV_Table t"] list_all_iff snds.simps\<close>)
  from writes_seq [OF writes_8 this] show ?case
    by (simp add: amqp_encode_field_value.simps [of "FV_Table t"] wire_field_value_table amqp_encode_table_def)
qed (auto simp: amqp_encode_field_value.simps wire_field_value.simps valid_field_value.simps
    intro!: writes_tagged writes_counted_bytes writes_8 writes_16 writes_32 writes_64 writes_nothing
    simp del: e_block.simps)

end
