(* ===== verification/Amqp_Table_Codec.thy ===== *)
theory Amqp_Table_Codec
  imports Amqp_Table
begin

text \<open>
  The table encoder and decoder meet their contract: what the encoder writes the decoder reads
  back, for every value the format can carry, and on arbitrary bytes the decoder stops within its
  fuel, stays inside the buffer and fails with a status only.
\<close>

section \<open>What the decoder reads\<close>

lemma wire_field_value_Cons: "\<exists>w. wire_field_value v = field_kind v # w"
  by (simp add: wire_field_value.simps)

lemma wire_entry_nonempty: "wire_entry e \<noteq> []"
  by (cases e) (simp add: wire_entry_def)

lemma reads_tagged:
  "reads (g k) w x \<Longrightarrow> reads (d_bind (d_try s amqp_decode_8) g) (k # w) x"
  using reads_bind [OF reads_8] by fastforce

lemma reads_then_return: "reads f w v \<Longrightarrow> reads (d_bind f (\<lambda>a. d_return (g a))) w (g v)"
  using reads_bind [OF _ reads_return, of f w v g] by (simp add: o_def)

lemma reads_counted_bytes:
  assumes "length bs < 2 ^ 32"
  shows "reads (d_bind (d_try s amqp_decode_32) (\<lambda>len.
      d_bind (d_try s (amqp_decode_bytes (unat len))) (\<lambda>b. d_return (g b)))) (wire_sized bs) (g bs)"
  unfolding wire_sized_def using assms
  by (intro reads_bind [OF reads_32] reads_then_return reads_bytes) (simp add: unat_of_nat)

text \<open>The values whose decoding does not recurse.\<close>

fun scalar_field :: "amqp_field_value \<Rightarrow> bool" where
  "scalar_field (FV_Array _) = False"
| "scalar_field (FV_Table _) = False"
| "scalar_field (FV_Other _) = False"
| "scalar_field _ = True"

lemma reads_scalar_field:
  assumes "valid_field_value v" "scalar_field v"
  shows "reads (decode_scalar_field (field_kind v)) (tl (wire_field_value v)) v"
  using assms
  by (cases v) (auto simp: decode_scalar_field_def wire_field_value.simps valid_field_value.simps Let_def
      intro!: reads_then_return reads_8 reads_16 reads_32 reads_64 reads_return reads_tagged
        reads_counted_bytes
      intro: reads_then_return [OF reads_8, where g = "\<lambda>val. FV_Boolean (val \<noteq> 0)" and v = 0, simplified]
        reads_then_return [OF reads_8, where g = "\<lambda>val. FV_Boolean (val \<noteq> 0)" and v = 1, simplified])

lemma alloc_entries_ok:
  assumes "heap_ok (d_heap d)" "0 < sz" "sz < 2 ^ 32"
  shows "\<exists>b d'. alloc_entries sz encoded d = (Inr b, d') \<and> d_off d' = d_off d \<and> heap_ok (d_heap d')"
proof -
  have "sz_mul 16 sz = 16 * sz" using assms(3) by simp
  with malloc_ok [OF assms(1), of "16 * sz"] assms show ?thesis
    by (auto simp: alloc_entries_def heap_ok_def)
qed

lemma grow_entries_ok:
  assumes "heap_ok (d_heap d)" "0 < sz" "sz \<le> 40" "0 < allocated" "allocated \<le> 2 * N + 16" "num \<le> N" "N < 2 ^ 56"
  shows "\<exists>b a d'. grow_entries sz entries allocated num d = (Some (b, a), d')
    \<and> d_off d' = d_off d \<and> heap_ok (d_heap d') \<and> 0 < a \<and> a \<le> 2 * N + 16"
proof (cases "allocated \<le> num")
  case True
  have "allocated * 2 * sz \<le> num * 2 * 40" using True assms(3) by (intro mult_mono) auto
  then have "allocated * 2 * sz < 2 ^ 64" using assms(6,7) by simp
  then have "0 < sz_mul (allocated * 2) sz" using assms(2,4) by simp
  from realloc_ok [OF assms(1) this, of entries] True assms show ?thesis
    by (auto simp: grow_entries_def)
next
  case False
  with assms show ?thesis by (simp add: grow_entries_def)
qed

lemma finish_entries_ok:
  assumes "heap_ok (d_heap d)" "0 < sz" "sz \<le> 40" "length acc < 2 ^ 56"
  shows "\<exists>d'. finish_entries sz entries acc d = (Inr acc, d') \<and> d_off d' = d_off d \<and> heap_ok (d_heap d')"
proof (cases "acc = []")
  case True
  then show ?thesis using assms(1)
    by (simp add: finish_entries_def amqp_pool_alloc_def d_free_def sz_mul_def)
next
  case False
  have "length acc * sz \<le> length acc * 40" using assms(3) by simp
  also have "\<dots> < 2 ^ 63" using assms(4) by simp
  finally have "length acc * sz < 2 ^ 63" .
  then have "0 < sz_mul (length acc) sz" "sz_mul (length acc) sz \<le> 2 ^ 63" using False assms(2) by simp_all
  from amqp_pool_alloc_ok [OF assms(1) this, of "d_pool d"] show ?thesis
    by (auto simp: finish_entries_def d_free_def)
qed

lemma fuel_left: "3 * (a + b) + 2 \<le> Suc f \<Longrightarrow> 0 < a \<Longrightarrow> 3 * b + 2 \<le> (f :: nat)"
  by arith

lemmas sizeof_bounds = sizeof_field_value_def sizeof_table_entry_def

lemma decode_array_loop_reads:
  assumes vs: "\<And>v g. v \<in> set vs \<Longrightarrow> 3 * length (wire_field_value v) + 1 \<le> g \<Longrightarrow>
      reads (decode_field_value g) (wire_field_value v) v"
    and mem: "in_memory encoded" "heap_ok (d_heap d)"
    and at: "at_off encoded (d_off d) (concat (map wire_field_value vs))"
    and limit: "limit = d_off d + length (concat (map wire_field_value vs))"
    and fuel: "3 * length (concat (map wire_field_value vs)) + 2 \<le> fuel"
    and cap: "length acc \<le> d_off d" "0 < allocated" "allocated \<le> 2 * length encoded + 16"
  shows "\<exists>d'. decode_array_loop fuel limit entries allocated acc encoded d = (Inr (acc @ vs), d')
    \<and> d_off d' = limit \<and> heap_ok (d_heap d')"
  using assms
proof (induction vs arbitrary: fuel d acc entries allocated)
  case Nil
  obtain f where "fuel = Suc f" using Nil.prems(6) by (cases fuel) auto
  moreover have "length acc < 2 ^ 56" using Nil.prems(2,4,7) by simp
  moreover have "limit = d_off d" using Nil.prems(5) by simp
  ultimately show ?case
    using finish_entries_ok [of d sizeof_field_value acc entries] Nil.prems(3) by (simp add: sizeof_bounds)
next
  case (Cons v vs)
  let ?w = "wire_field_value v" and ?ws = "concat (map wire_field_value vs)"
  obtain f where f: "fuel = Suc f" using Cons.prems(6) by (cases fuel) auto
  have w: "0 < length ?w" using wire_field_value_Cons [of v] by auto
  have at: "at_off encoded (d_off d) ?w" "at_off encoded (d_off d + length ?w) ?ws"
    using Cons.prems(4) by (simp_all add: at_off_append)
  have off: "d_off d \<le> length encoded" using at(1) by (simp add: at_off_def)
  obtain b a d1 where g: "grow_entries sizeof_field_value entries allocated (length acc) d = (Some (b, a), d1)"
    "d_off d1 = d_off d" "heap_ok (d_heap d1)" "0 < a" "a \<le> 2 * length encoded + 16"
    using grow_entries_ok [of d sizeof_field_value allocated "length encoded" "length acc" entries]
      Cons.prems(2,3,7-9) off by (auto simp: sizeof_bounds)
  have "reads (decode_field_value f) ?w v"
    using Cons.prems(1) [of v f] Cons.prems(6) f by simp
  then obtain d2 where d2: "decode_field_value f encoded d1 = (Inr v, d2)"
    "d_off d2 = d_off d1 + length ?w" "heap_ok (d_heap d2)"
    using readsE [of "decode_field_value f" ?w v encoded d1] Cons.prems(2) g(2,3) at(1) by metis
  have "\<exists>d'. decode_array_loop f limit b a (acc @ [v]) encoded d2 = (Inr ((acc @ [v]) @ vs), d')
      \<and> d_off d' = limit \<and> heap_ok (d_heap d')"
  proof (rule Cons.IH)
    have "3 * (length ?w + length ?ws) + 2 \<le> Suc f" using Cons.prems(6) f by simp
    then show "3 * length ?ws + 2 \<le> f" by (rule fuel_left [OF _ w])
    have "length (acc @ [v]) = length acc + 1" by simp
    with Cons.prems(7) d2(2) g(2) w show "length (acc @ [v]) \<le> d_off d2" by linarith
  qed (use Cons.prems g d2 at in \<open>auto simp: add.assoc\<close>)
  then show ?case using f g d2 Cons.prems(5) w by simp
qed


lemma decode_table_loop_reads:
  assumes vs: "\<And>k v g. (k, v) \<in> set t \<Longrightarrow> 3 * length (wire_field_value v) + 1 \<le> g \<Longrightarrow>
      reads (decode_field_value g) (wire_field_value v) v"
    and keys: "\<And>k v. (k, v) \<in> set t \<Longrightarrow> length k \<le> 255"
    and mem: "in_memory encoded" "heap_ok (d_heap d)"
    and at: "at_off encoded (d_off d) (concat (map wire_entry t))"
    and limit: "limit = d_off d + length (concat (map wire_entry t))"
    and fuel: "3 * length (concat (map wire_entry t)) + 2 \<le> fuel"
    and cap: "length acc \<le> d_off d" "0 < allocated" "allocated \<le> 2 * length encoded + 16"
  shows "\<exists>d'. decode_table_loop fuel limit entries allocated acc encoded d = (Inr (acc @ t), d')
    \<and> d_off d' = limit \<and> heap_ok (d_heap d')"
  using assms
proof (induction t arbitrary: fuel d acc entries allocated)
  case Nil
  obtain f where "fuel = Suc f" using Nil.prems(7) by (cases fuel) auto
  moreover have "length acc < 2 ^ 56" using Nil.prems(3,5,8) by simp
  moreover have "limit = d_off d" using Nil.prems(6) by simp
  ultimately show ?case
    using finish_entries_ok [of d sizeof_table_entry acc entries] Nil.prems(4) by (simp add: sizeof_bounds)
next
  case (Cons e t)
  obtain k v where e: "e = (k, v)" by (cases e)
  let ?w = "wire_field_value v" and ?ws = "concat (map wire_entry t)"
  obtain f where f: "fuel = Suc f" using Cons.prems(7) by (cases fuel) auto
  have we: "wire_entry e = [of_nat (length k)] @ k @ ?w" by (simp add: wire_entry_def e)
  have at: "at_off encoded (d_off d) [of_nat (length k)]" "at_off encoded (d_off d + 1) k"
      "at_off encoded (d_off d + 1 + length k) ?w" "at_off encoded (d_off d + length (wire_entry e)) ?ws"
    using Cons.prems(5) unfolding list.map concat.simps
    by (simp_all add: at_off_append at_off_Cons [of _ _ _ "_ @ _"] we add.assoc)
  have off: "d_off d \<le> length encoded" using at(1) by (simp add: at_off_def)
  have key: "length k \<le> 255" using Cons.prems(2) [of k v] e by simp
  obtain d1 where d1: "d_try AMQP_STATUS_BAD_AMQP_DATA amqp_decode_8 encoded d = (Inr (of_nat (length k)), d1)"
    "d_off d1 = d_off d + 1" "heap_ok (d_heap d1)"
    using readsE [OF reads_8 Cons.prems(3,4) at(1)] by (metis length_Cons list.size(3) One_nat_def)
  obtain b a d2 where g: "grow_entries sizeof_table_entry entries allocated (length acc) d1 = (Some (b, a), d2)"
    "d_off d2 = d_off d1" "heap_ok (d_heap d2)" "0 < a" "a \<le> 2 * length encoded + 16"
    using grow_entries_ok [of d1 sizeof_table_entry allocated "length encoded" "length acc" entries]
      Cons.prems(3,8-10) off d1 by (auto simp: sizeof_bounds)
  obtain d3 where d3: "d_try AMQP_STATUS_BAD_AMQP_DATA (amqp_decode_bytes (length k)) encoded d2 = (Inr k, d3)"
    "d_off d3 = d_off d + 1 + length k" "heap_ok (d_heap d3)"
    using readsE [OF reads_bytes [OF refl] Cons.prems(3) g(3), of k] at(2) d1(2) g(2) by metis
  have "reads (decode_field_value f) ?w v"
    using Cons.prems(1) [of k v f] Cons.prems(7) f e we by simp
  then obtain d4 where d4: "decode_field_value f encoded d3 = (Inr v, d4)"
    "d_off d4 = d_off d + length (wire_entry e)" "heap_ok (d_heap d4)"
    using readsE [of "decode_field_value f" ?w v encoded d3] Cons.prems(3) d3(2,3) at(3) we
    by (metis add.assoc length_append length_Cons list.size(3) One_nat_def)
  have "\<exists>d'. decode_table_loop f limit b a (acc @ [(k, v)]) encoded d4 = (Inr ((acc @ [(k, v)]) @ t), d')
      \<and> d_off d' = limit \<and> heap_ok (d_heap d')"
  proof (rule Cons.IH)
    show "3 * length ?ws + 2 \<le> f" using Cons.prems(7) f we by simp
    show "length (acc @ [(k, v)]) \<le> d_off d4" using Cons.prems(8) d4(2) we by simp
    show "length k' \<le> 255" if "(k', v') \<in> set t" for k' v' using Cons.prems(2) [of k' v'] that by simp
  qed (use Cons.prems g d4 at e in \<open>auto simp: add.assoc\<close>)
  moreover have "unat (of_nat (length k) :: u8) = length k" using key by (simp add: unat_of_nat)
  moreover have "d_off d < limit" using Cons.prems(6) we by simp
  ultimately show ?case using f d1 g d3 d4 e by simp
qed

lemma decode_array_reads:
  assumes vs: "\<And>v g. v \<in> set vs \<Longrightarrow> 3 * length (wire_field_value v) + 1 \<le> g \<Longrightarrow>
      reads (decode_field_value g) (wire_field_value v) v"
    and len: "length (concat (map wire_field_value vs)) < 2 ^ 32"
    and fuel: "3 * length (concat (map wire_field_value vs)) + 3 \<le> fuel"
  shows "reads (decode_array fuel) (wire_sized (concat (map wire_field_value vs))) vs"
proof -
  let ?ws = "concat (map wire_field_value vs)"
  obtain f where f: "fuel = Suc f" using fuel by (cases fuel) auto
  have "reads (d_bind (alloc_entries sizeof_field_value) (\<lambda>entries encoded d.
        decode_array_loop f (sz_add (d_off d) (unat (of_nat (length ?ws) :: u32))) entries 16 [] encoded d)) ?ws vs"
  proof (rule readsI)
    fix encoded :: amqp_bytes and d :: dec_state
    assume mem: "in_memory encoded" "heap_ok (d_heap d)" and at: "at_off encoded (d_off d) ?ws"
    obtain b d1 where a: "alloc_entries sizeof_field_value encoded d = (Inr b, d1)" "d_off d1 = d_off d" "heap_ok (d_heap d1)"
      using alloc_entries_ok [OF mem(2), of sizeof_field_value encoded] by (auto simp: sizeof_bounds)
    have "sz_add (d_off d1) (unat (of_nat (length ?ws) :: u32)) = d_off d1 + length ?ws"
      using len mem(1) at a(2) by (simp add: unat_of_nat at_off_def)
    with decode_array_loop_reads [where vs = vs and encoded = encoded and d = d1 and limit = "d_off d1 + length ?ws"
          and fuel = f and acc = "[]" and allocated = 16 and entries = b, OF vs mem(1) a(3)] at a fuel f
    show "\<exists>d'. d_bind (alloc_entries sizeof_field_value) (\<lambda>entries encoded d.
        decode_array_loop f (sz_add (d_off d) (unat (of_nat (length ?ws) :: u32))) entries 16 [] encoded d) encoded d
        = (Inr vs, d') \<and> d_off d' = d_off d + length ?ws \<and> heap_ok (d_heap d')"
      by (simp add: d_bind_def)
  qed
  then show ?thesis unfolding f decode_array.simps wire_sized_def by (rule reads_bind [OF reads_32])
qed

lemma decode_table_reads:
  assumes vs: "\<And>k v g. (k, v) \<in> set t \<Longrightarrow> 3 * length (wire_field_value v) + 1 \<le> g \<Longrightarrow>
      reads (decode_field_value g) (wire_field_value v) v"
    and keys: "\<And>k v. (k, v) \<in> set t \<Longrightarrow> length k \<le> 255"
    and len: "length (concat (map wire_entry t)) < 2 ^ 32"
    and fuel: "3 * length (concat (map wire_entry t)) + 3 \<le> fuel"
  shows "reads (decode_table fuel) (wire_table t) t"
proof -
  let ?ws = "concat (map wire_entry t)"
  obtain f where f: "fuel = Suc f" using fuel by (cases fuel) auto
  have "reads (d_bind (alloc_entries sizeof_table_entry) (\<lambda>entries encoded d.
        decode_table_loop f (sz_add (d_off d) (unat (of_nat (length ?ws) :: u32))) entries 16 [] encoded d)) ?ws t"
  proof (rule readsI)
    fix encoded :: amqp_bytes and d :: dec_state
    assume mem: "in_memory encoded" "heap_ok (d_heap d)" and at: "at_off encoded (d_off d) ?ws"
    obtain b d1 where a: "alloc_entries sizeof_table_entry encoded d = (Inr b, d1)" "d_off d1 = d_off d" "heap_ok (d_heap d1)"
      using alloc_entries_ok [OF mem(2), of sizeof_table_entry encoded] by (auto simp: sizeof_bounds)
    have "sz_add (d_off d1) (unat (of_nat (length ?ws) :: u32)) = d_off d1 + length ?ws"
      using len mem(1) at a(2) by (simp add: unat_of_nat at_off_def)
    with decode_table_loop_reads [where t = t and encoded = encoded and d = d1 and limit = "d_off d1 + length ?ws"
          and fuel = f and acc = "[]" and allocated = 16 and entries = b, OF vs keys mem(1) a(3)] at a fuel f
    show "\<exists>d'. d_bind (alloc_entries sizeof_table_entry) (\<lambda>entries encoded d.
        decode_table_loop f (sz_add (d_off d) (unat (of_nat (length ?ws) :: u32))) entries 16 [] encoded d) encoded d
        = (Inr t, d') \<and> d_off d' = d_off d + length ?ws \<and> heap_ok (d_heap d')"
      by (simp add: d_bind_def)
  qed
  then show ?thesis unfolding f decode_table.simps wire_table_def wire_sized_def by (rule reads_bind [OF reads_32])
qed

lemma decode_scalar_field_value_reads:
  assumes "valid_field_value v" "scalar_field v" "0 < fuel"
  shows "reads (decode_field_value fuel) (wire_field_value v) v"
proof -
  obtain f where f: "fuel = Suc f" using assms(3) by (cases fuel) auto
  have w: "wire_field_value v = field_kind v # tl (wire_field_value v)"
    using wire_field_value_Cons [of v] by auto
  have k: "field_kind v \<noteq> AMQP_FIELD_KIND_ARRAY" "field_kind v \<noteq> AMQP_FIELD_KIND_TABLE"
    using assms(2) by (cases v; simp)+
  from reads_scalar_field [OF assms(1,2)] k
  have "reads (decode_field_value fuel) (field_kind v # tl (wire_field_value v)) v"
    unfolding f decode_field_value.simps by (intro reads_tagged) simp
  with w show ?thesis by simp
qed

lemma decode_field_value_reads:
  "valid_field_value v \<Longrightarrow> 3 * length (wire_field_value v) + 1 \<le> fuel \<Longrightarrow>
   reads (decode_field_value fuel) (wire_field_value v) v"
proof (induction v arbitrary: fuel)
  case (FV_Array vs)
  then obtain f where f: "fuel = Suc f" by (cases fuel) auto
  have "reads (decode_array f) (wire_sized (concat (map wire_field_value vs))) vs"
    by (rule decode_array_reads)
      (use FV_Array f in \<open>auto simp: valid_field_value.simps [of "FV_Array vs"] list_all_iff
        wire_field_value.simps [of "FV_Array vs"] wire_sized_def\<close>)
  then show ?case unfolding f decode_field_value.simps wire_field_value.simps [of "FV_Array vs"]
    by (simp add: reads_tagged reads_then_return)
next
  case (FV_Table t)
  then obtain f where f: "fuel = Suc f" by (cases fuel) auto
  have "reads (decode_table f) (wire_table t) t"
    by (rule decode_table_reads)
      (use FV_Table f in \<open>fastforce simp: valid_field_value.simps [of "FV_Table t"] list_all_iff
        wire_field_value_table wire_table_def wire_sized_def\<close>)+
  then show ?case unfolding f decode_field_value.simps wire_field_value_table
    by (simp add: reads_tagged reads_then_return)
next
  case (FV_Other k)
  then show ?case by (simp add: valid_field_value.simps)
qed (rule decode_scalar_field_value_reads; simp)+

text \<open>The fuel of the public entry points is enough for whatever stands in the buffer.\<close>

lemma reads_with_fuel:
  assumes "\<And>fuel. 3 * length w + c \<le> fuel \<Longrightarrow> reads (f fuel) w v"
  shows "reads (\<lambda>encoded d. f (3 * length encoded + c) encoded d) w v"
proof (rule readsI)
  fix encoded :: amqp_bytes and d :: dec_state
  assume mem: "in_memory encoded" "heap_ok (d_heap d)" and at: "at_off encoded (d_off d) w"
  have "reads (f (3 * length encoded + c)) w v"
    by (rule assms) (use at_off_length [OF at] in simp)
  from readsE [OF this mem at]
  show "\<exists>d'. f (3 * length encoded + c) encoded d = (Inr v, d') \<and> d_off d' = d_off d + length w \<and> heap_ok (d_heap d')"
    by metis
qed

lemma amqp_decode_table_reads:
  assumes "valid_table t" shows "reads amqp_decode_table (wire_table t) t"
proof -
  have "reads (decode_table fuel) (wire_table t) t" if "3 * length (wire_table t) + 3 \<le> fuel" for fuel
    by (rule decode_table_reads)
      (use assms that in \<open>fastforce simp: valid_table_def list_all_iff wire_table_def wire_sized_def
        intro: decode_field_value_reads\<close>)+
  then show ?thesis unfolding amqp_decode_table_def [abs_def] by (rule reads_with_fuel)
qed

lemma amqp_decode_field_value_reads:
  assumes "valid_field_value v" shows "reads amqp_decode_field_value (wire_field_value v) v"
  unfolding amqp_decode_field_value_def [abs_def]
  by (rule reads_with_fuel) (rule decode_field_value_reads [OF assms])

section \<open>The decoder on arbitrary bytes\<close>

text \<open>\<open>progress encoded n d r\<close>: the result \<open>r\<close> of a decoder started in \<open>d\<close> is a status, or a value with at
  least \<open>n\<close> bytes consumed and the offset still inside the buffer.\<close>

definition progress :: "amqp_bytes \<Rightarrow> nat \<Rightarrow> dec_state \<Rightarrow> 'a outcome \<times> dec_state \<Rightarrow> bool" where
  "progress encoded n d r \<longleftrightarrow>
    (case r of
       (Inr v, d') \<Rightarrow> d_off d + n \<le> d_off d' \<and> d_off d' \<le> length encoded
     | (Inl e, d') \<Rightarrow> (\<exists>s. e = Status s))"

lemma guarded_progress:
  "guarded f \<longleftrightarrow> (\<forall>encoded d. in_memory encoded \<and> d_off d \<le> length encoded \<longrightarrow> progress encoded 0 d (f encoded d))"
  unfolding guarded_def progress_def add_0_right by (rule refl)

lemma progress_base:
  assumes get: "\<And>buf off. off + n \<le> length buf \<Longrightarrow> get buf off \<noteq> None" and n: "n < 2 ^ 63"
    and "in_memory encoded" "d_off d \<le> length encoded"
  shows "progress encoded n d (d_try s (decode_base n get) encoded d)"
  using assms(2-) get [of "d_off d" encoded]
  by (auto simp: progress_def d_try_def decode_base_def Let_def split: option.split)

lemma progress_8:
  "in_memory encoded \<Longrightarrow> d_off d \<le> length encoded \<Longrightarrow> progress encoded 1 d (d_try s amqp_decode_8 encoded d)"
  unfolding amqp_decode_8_def by (rule progress_base) (simp_all add: amqp_d8_def mem_read_def)

lemma progress_32:
  "in_memory encoded \<Longrightarrow> d_off d \<le> length encoded \<Longrightarrow> progress encoded 4 d (d_try s amqp_decode_32 encoded d)"
  unfolding amqp_decode_32_def by (rule progress_base) (simp_all add: amqp_d32_def mem_read_def)

lemma progress_bind:
  assumes "progress encoded n d (f encoded d)"
    and "\<And>v d'. f encoded d = (Inr v, d') \<Longrightarrow> d_off d + n \<le> d_off d' \<Longrightarrow> d_off d' \<le> length encoded \<Longrightarrow>
      progress encoded 0 d' (g v encoded d')"
  shows "progress encoded n d (d_bind f g encoded d)"
proof (cases "f encoded d")
  case (Pair r d')
  show ?thesis
  proof (cases r)
    case (Inl e)
    with Pair assms(1) show ?thesis by (simp add: d_bind_def progress_def)
  next
    case (Inr v)
    with Pair assms(1) have b: "d_off d + n \<le> d_off d'" "d_off d' \<le> length encoded" by (simp_all add: progress_def)
    from assms(2) [OF _ b] Pair Inr b show ?thesis
      by (auto simp: d_bind_def progress_def split: prod.splits sum.splits)
  qed
qed

lemma progress_then_return:
  "progress encoded n d (f encoded d) \<Longrightarrow> progress encoded n d (d_bind f (\<lambda>a. d_return (g a)) encoded d)"
  by (erule progress_bind) (simp add: d_return_def progress_def)

lemma guarded_scalar_field: "guarded (decode_scalar_field kind)"
  unfolding decode_scalar_field_def Let_def
  by (auto intro!: guarded_bind guarded_8 guarded_16 guarded_32 guarded_64 guarded_return guarded_fail guarded_bytes
      order_less_trans [OF unsigned_less])

lemma d_free_off [simp]: "d_off (d_free b d) = d_off d"
  by (simp add: d_free_def)

lemma alloc_entries_off: "alloc_entries sz encoded d = (r, d') \<Longrightarrow> d_off d' = d_off d"
  by (auto simp: alloc_entries_def split: prod.splits option.splits)

lemma progress_alloc_entries: "d_off d \<le> length encoded \<Longrightarrow> progress encoded 0 d (alloc_entries sz encoded d)"
  by (auto simp: alloc_entries_def progress_def split: prod.splits option.splits)

lemma grow_entries_off: "grow_entries sz entries allocated n d = (r, d') \<Longrightarrow> d_off d' = d_off d"
  by (auto simp: grow_entries_def split: if_splits prod.splits option.splits)

lemma progress_finish: "d_off d \<le> length encoded \<Longrightarrow> progress encoded 0 d (finish_entries sz entries acc d)"
  by (auto simp: finish_entries_def progress_def split: prod.splits option.splits)

lemma progress_array_loop:
  assumes fv: "\<And>d. d_off d \<le> length encoded \<Longrightarrow> 3 * (length encoded - d_off d) + 1 \<le> fuel \<Longrightarrow>
        progress encoded 1 d (decode_field_value fuel encoded d)"
    and loop: "\<And>d entries allocated acc. d_off d \<le> length encoded \<Longrightarrow> 3 * (length encoded - d_off d) + 2 \<le> fuel \<Longrightarrow>
        progress encoded 0 d (decode_array_loop fuel limit entries allocated acc encoded d)"
    and d: "d_off d \<le> length encoded" "3 * (length encoded - d_off d) + 2 \<le> Suc fuel"
  shows "progress encoded 0 d (decode_array_loop (Suc fuel) limit entries allocated acc encoded d)"
proof (cases "d_off d < limit")
  case True
  obtain g d1 where g: "grow_entries sizeof_field_value entries allocated (length acc) d = (g, d1)" "d_off d1 = d_off d"
    using grow_entries_off by (metis surj_pair)
  show ?thesis
  proof (cases g)
    case None
    with True g show ?thesis by (simp add: progress_def)
  next
    case (Some ea)
    obtain r d2 where r: "decode_field_value fuel encoded d1 = (r, d2)" by (metis surj_pair)
    have fv1: "progress encoded 1 d1 (r, d2)" using fv [of d1] d g(2) r by simp
    show ?thesis
    proof (cases r)
      case (Inl e)
      with True g Some r fv1 show ?thesis by (cases ea) (simp add: progress_def)
    next
      case (Inr v)
      with fv1 g(2) have off: "d_off d + 1 \<le> d_off d2" "d_off d2 \<le> length encoded" by (simp_all add: progress_def)
      then have "3 * (length encoded - d_off d2) + 2 \<le> fuel" using d(2) by linarith
      from loop [OF off(2) this, of "fst ea" "snd ea" "acc @ [v]"] True g Some r Inr off show ?thesis
        by (cases ea) (auto simp: progress_def split: prod.splits sum.splits)
    qed
  qed
next
  case False
  with progress_finish [OF d(1)] show ?thesis by simp
qed

lemma progress_table_loop:
  assumes mem: "in_memory encoded"
    and fv: "\<And>d. d_off d \<le> length encoded \<Longrightarrow> 3 * (length encoded - d_off d) + 1 \<le> fuel \<Longrightarrow>
        progress encoded 1 d (decode_field_value fuel encoded d)"
    and loop: "\<And>d entries allocated acc. d_off d \<le> length encoded \<Longrightarrow> 3 * (length encoded - d_off d) + 2 \<le> fuel \<Longrightarrow>
        progress encoded 0 d (decode_table_loop fuel limit entries allocated acc encoded d)"
    and d: "d_off d \<le> length encoded" "3 * (length encoded - d_off d) + 2 \<le> Suc fuel"
  shows "progress encoded 0 d (decode_table_loop (Suc fuel) limit entries allocated acc encoded d)"
proof (cases "d_off d < limit")
  case True
  let ?bad = AMQP_STATUS_BAD_AMQP_DATA
  obtain k d1 where k: "d_try ?bad amqp_decode_8 encoded d = (k, d1)" by (metis surj_pair)
  have p1: "progress encoded 1 d (k, d1)" using progress_8 [OF mem d(1), of ?bad] k by simp
  show ?thesis
  proof (cases k)
    case (Inl e)
    with True k p1 show ?thesis by (simp add: progress_def)
  next
    case (Inr keylen)
    with p1 have off1: "d_off d + 1 \<le> d_off d1" "d_off d1 \<le> length encoded" by (simp_all add: progress_def)
    obtain g d2 where g: "grow_entries sizeof_table_entry entries allocated (length acc) d1 = (g, d2)" "d_off d2 = d_off d1"
      using grow_entries_off by (metis surj_pair)
    show ?thesis
    proof (cases g)
      case None
      with True k Inr g show ?thesis by (simp add: progress_def)
    next
      case (Some ea)
      obtain b d3 where b: "d_try ?bad (amqp_decode_bytes (unat keylen)) encoded d2 = (b, d3)" by (metis surj_pair)
      have "guarded (d_try ?bad (amqp_decode_bytes (unat keylen)))"
        by (rule guarded_bytes) (rule order_less_trans [OF unsigned_less], simp)
      then have p3: "progress encoded 0 d2 (b, d3)"
        using guarded_progress [THEN iffD1, rule_format, of _ encoded d2] b mem off1 g(2) by metis
      show ?thesis
      proof (cases b)
        case (Inl e)
        with True k Inr g Some b p3 show ?thesis by (cases ea) (simp add: progress_def)
      next
        case key: (Inr key)
        with p3 off1 g(2) have off3: "d_off d + 1 \<le> d_off d3" "d_off d3 \<le> length encoded" by (simp_all add: progress_def)
        obtain r d4 where r: "decode_field_value fuel encoded d3 = (r, d4)" by (metis surj_pair)
        have p4: "progress encoded 1 d3 (r, d4)" using fv [of d3] off3 d(2) r by simp
        show ?thesis
        proof (cases r)
          case (Inl e)
          with True k Inr g Some b key r p4 show ?thesis by (cases ea) (simp add: progress_def)
        next
          case v: (Inr v)
          with p4 off3 have off4: "d_off d + 1 \<le> d_off d4" "d_off d4 \<le> length encoded" by (simp_all add: progress_def)
          then have "3 * (length encoded - d_off d4) + 2 \<le> fuel" using d(2) by linarith
          from loop [OF off4(2) this, of "fst ea" "snd ea" "acc @ [(key, v)]"] True k Inr g Some b key r v off4
          show ?thesis by (cases ea) (auto simp: progress_def split: prod.splits sum.splits)
        qed
      qed
    qed
  qed
next
  case False
  with progress_finish [OF d(1)] show ?thesis by simp
qed

lemma progress_decode:
  assumes mem: "in_memory encoded"
  shows "(\<forall>d. d_off d \<le> length encoded \<longrightarrow> 3 * (length encoded - d_off d) + 1 \<le> fuel \<longrightarrow>
        progress encoded 1 d (decode_field_value fuel encoded d))
    \<and> (\<forall>d. d_off d \<le> length encoded \<longrightarrow> 3 * (length encoded - d_off d) + 3 \<le> fuel \<longrightarrow>
        progress encoded 0 d (decode_array fuel encoded d) \<and> progress encoded 0 d (decode_table fuel encoded d))
    \<and> (\<forall>d limit entries allocated acc acc'. d_off d \<le> length encoded \<longrightarrow> 3 * (length encoded - d_off d) + 2 \<le> fuel \<longrightarrow>
        progress encoded 0 d (decode_array_loop fuel limit entries allocated acc encoded d)
        \<and> progress encoded 0 d (decode_table_loop fuel limit entries allocated acc' encoded d))"
  (is "?fv fuel \<and> ?arr fuel \<and> ?loop fuel")
proof (induction fuel)
  case 0
  show ?case by simp
next
  case (Suc fuel)
  then have fv: "?fv fuel" and arr: "?arr fuel" and loop: "?loop fuel" by blast+
  have "?fv (Suc fuel)"
  proof (intro allI impI)
    fix d :: dec_state
    assume d: "d_off d \<le> length encoded" "3 * (length encoded - d_off d) + 1 \<le> Suc fuel"
    show "progress encoded 1 d (decode_field_value (Suc fuel) encoded d)"
      unfolding decode_field_value.simps
    proof (rule progress_bind)
      show "progress encoded 1 d (d_try AMQP_STATUS_BAD_AMQP_DATA amqp_decode_8 encoded d)"
        by (rule progress_8 [OF mem d(1)])
    next
      fix kind :: u8 and d' :: dec_state
      assume d': "d_off d + 1 \<le> d_off d'" "d_off d' \<le> length encoded"
      then have "3 * (length encoded - d_off d') + 3 \<le> fuel" using d(2) by linarith
      with arr d'(2) have a: "progress encoded 0 d' (decode_array fuel encoded d')" "progress encoded 0 d' (decode_table fuel encoded d')"
        by blast+
      have "progress encoded 0 d' (decode_scalar_field kind encoded d')"
        using guarded_scalar_field mem d'(2) by (auto simp: guarded_progress)
      with a show "progress encoded 0 d' ((if kind = AMQP_FIELD_KIND_ARRAY then d_bind (decode_array fuel) (\<lambda>a. d_return (FV_Array a))
          else if kind = AMQP_FIELD_KIND_TABLE then d_bind (decode_table fuel) (\<lambda>t. d_return (FV_Table t))
          else decode_scalar_field kind) encoded d')"
        by (simp add: progress_then_return)
    qed
  qed
  moreover have "?arr (Suc fuel)"
  proof (intro allI impI conjI)
    fix d :: dec_state
    assume d: "d_off d \<le> length encoded" "3 * (length encoded - d_off d) + 3 \<le> Suc fuel"
    have start: "progress encoded 0 d (d_bind (d_try AMQP_STATUS_BAD_AMQP_DATA amqp_decode_32)
        (\<lambda>size. d_bind (alloc_entries sz) (\<lambda>entries. rest size entries)) encoded d)"
      if rest: "\<And>size entries d2. d_off d2 \<le> length encoded \<Longrightarrow> 3 * (length encoded - d_off d2) + 2 \<le> fuel \<Longrightarrow>
        progress encoded 0 d2 (rest size entries encoded d2)" for sz and rest :: "u32 \<Rightarrow> nat \<Rightarrow> 'x list dec"
    proof -
      have "progress encoded 4 d (d_bind (d_try AMQP_STATUS_BAD_AMQP_DATA amqp_decode_32)
        (\<lambda>size. d_bind (alloc_entries sz) (\<lambda>entries. rest size entries)) encoded d)"
      proof (rule progress_bind)
        show "progress encoded 4 d (d_try AMQP_STATUS_BAD_AMQP_DATA amqp_decode_32 encoded d)"
          by (rule progress_32 [OF mem d(1)])
      next
        fix size :: u32 and d1 :: dec_state
        assume d1: "d_off d + 4 \<le> d_off d1" "d_off d1 \<le> length encoded"
        show "progress encoded 0 d1 (d_bind (alloc_entries sz) (\<lambda>entries. rest size entries) encoded d1)"
        proof (rule progress_bind)
          show "progress encoded 0 d1 (alloc_entries sz encoded d1)" by (rule progress_alloc_entries [OF d1(2)])
        next
          fix entries :: nat and d2 :: dec_state
          assume "alloc_entries sz encoded d1 = (Inr entries, d2)"
          from alloc_entries_off [OF this] d1 d(2)
          have "d_off d2 \<le> length encoded" "3 * (length encoded - d_off d2) + 2 \<le> fuel" by linarith+
          then show "progress encoded 0 d2 (rest size entries encoded d2)" by (rule rest)
        qed
      qed
      then show ?thesis by (auto simp: progress_def split: prod.splits sum.splits)
    qed
    show "progress encoded 0 d (decode_array (Suc fuel) encoded d)"
      unfolding decode_array.simps using loop by (intro start) blast
    show "progress encoded 0 d (decode_table (Suc fuel) encoded d)"
      unfolding decode_table.simps using loop by (intro start) blast
  qed
  moreover have "?loop (Suc fuel)"
    using progress_array_loop progress_table_loop [OF mem] fv loop by blast
  ultimately show ?case by blast
qed

lemma amqp_decode_table_guarded: "guarded amqp_decode_table"
  unfolding guarded_progress amqp_decode_table_def
proof (intro allI impI)
  fix encoded :: amqp_bytes and d :: dec_state
  assume a: "in_memory encoded \<and> d_off d \<le> length encoded"
  then have "3 * (length encoded - d_off d) + 3 \<le> 3 * length encoded + 3" by simp
  with progress_decode [of encoded "3 * length encoded + 3"] a
  show "progress encoded 0 d (decode_table (3 * length encoded + 3) encoded d)" by blast
qed

lemma amqp_decode_field_value_guarded: "guarded amqp_decode_field_value"
  unfolding guarded_progress amqp_decode_field_value_def
proof (intro allI impI)
  fix encoded :: amqp_bytes and d :: dec_state
  assume a: "in_memory encoded \<and> d_off d \<le> length encoded"
  then have "3 * (length encoded - d_off d) + 1 \<le> 3 * length encoded + 1" by simp
  with progress_decode [of encoded "3 * length encoded + 1"] a
  have "progress encoded 1 d (decode_field_value (3 * length encoded + 1) encoded d)" by blast
  then show "progress encoded 0 d (decode_field_value (3 * length encoded + 1) encoded d)"
    by (auto simp: progress_def split: prod.splits sum.splits)
qed

lemma amqp_encode_table_writes:
  assumes "valid_table t" shows "writes (amqp_encode_table t) (wire_table t)"
  by (rule encode_table_writes)
    (use assms in \<open>auto simp: valid_table_def list_all_iff intro!: encode_field_value_writes\<close>)

interpretation table: wire_codec amqp_encode_table amqp_decode_table wire_table valid_table
  by unfold_locales (rule amqp_encode_table_writes amqp_decode_table_reads amqp_decode_table_guarded; assumption?)+

interpretation field_value: wire_codec amqp_encode_field_value amqp_decode_field_value wire_field_value valid_field_value
  by unfold_locales
    (rule encode_field_value_writes amqp_decode_field_value_reads amqp_decode_field_value_guarded; assumption?)+

end
