(* ===== verification/Framing_Base.thy ===== *)
theory Framing_Base
  imports Amqp_Table_Codec
begin

text \<open>
  What the method and property codecs of \<^verbatim>\<open>amqp_framing.c\<close> have in common: the statements the
  generated code is made of (strings with one- and four-byte lengths, packed bits), the sizes of
  the method structs on LP64, and the contract of the methods of one AMQP class, the locale
  \<open>method_class\<close>.
\<close>

section \<open>Statements of the generated code\<close>

abbreviation e_8 :: "u8 \<Rightarrow> enc" where "e_8 v \<equiv> e_try AMQP_STATUS_BAD_AMQP_DATA (amqp_encode_8 v)"
abbreviation e_16 :: "u16 \<Rightarrow> enc" where "e_16 v \<equiv> e_try AMQP_STATUS_BAD_AMQP_DATA (amqp_encode_16 v)"
abbreviation e_32 :: "u32 \<Rightarrow> enc" where "e_32 v \<equiv> e_try AMQP_STATUS_BAD_AMQP_DATA (amqp_encode_32 v)"
abbreviation e_64 :: "u64 \<Rightarrow> enc" where "e_64 v \<equiv> e_try AMQP_STATUS_BAD_AMQP_DATA (amqp_encode_64 v)"
abbreviation d_8 :: "u8 dec" where "d_8 \<equiv> d_try AMQP_STATUS_BAD_AMQP_DATA amqp_decode_8"
abbreviation d_16 :: "u16 dec" where "d_16 \<equiv> d_try AMQP_STATUS_BAD_AMQP_DATA amqp_decode_16"
abbreviation d_32 :: "u32 dec" where "d_32 \<equiv> d_try AMQP_STATUS_BAD_AMQP_DATA amqp_decode_32"
abbreviation d_64 :: "u64 dec" where "d_64 \<equiv> d_try AMQP_STATUS_BAD_AMQP_DATA amqp_decode_64"

text \<open>
  \<^verbatim>\<open>if (UINT8_MAX < s.len || !amqp_encode_8(.., (uint8_t)s.len) || !amqp_encode_bytes(.., s))\<close>
  and the same with 32 bits; an error is \<^verbatim>\<open>AMQP_STATUS_BAD_AMQP_DATA\<close> in each of the three tests.
\<close>

definition e_shortstr :: "amqp_bytes \<Rightarrow> enc" where
  "e_shortstr s =
    (if UINT8_MAX < length s then e_fail AMQP_STATUS_BAD_AMQP_DATA
     else e_seq (e_8 (of_nat (length s))) (e_try AMQP_STATUS_BAD_AMQP_DATA (amqp_encode_bytes s)))"

definition e_longstr :: "amqp_bytes \<Rightarrow> enc" where
  "e_longstr s =
    (if UINT32_MAX < length s then e_fail AMQP_STATUS_BAD_AMQP_DATA
     else e_seq (e_32 (of_nat (length s))) (e_try AMQP_STATUS_BAD_AMQP_DATA (amqp_encode_bytes s)))"

definition d_shortstr :: "amqp_bytes dec" where
  "d_shortstr = d_bind d_8 (\<lambda>len. d_try AMQP_STATUS_BAD_AMQP_DATA (amqp_decode_bytes (unat len)))"

definition d_longstr :: "amqp_bytes dec" where
  "d_longstr = d_bind d_32 (\<lambda>len. d_try AMQP_STATUS_BAD_AMQP_DATA (amqp_decode_bytes (unat len)))"

text \<open>\<^verbatim>\<open>if (b) bit_buffer |= (1 << k)\<close> and \<^verbatim>\<open>(bit_buffer & (1 << k)) ? 1 : 0\<close>.\<close>

definition put_bit :: "bool \<Rightarrow> nat \<Rightarrow> u8 \<Rightarrow> u8" where
  "put_bit b k bit_buffer = (if b then bit_buffer OR push_bit k 1 else bit_buffer)"

definition get_bit :: "u8 \<Rightarrow> nat \<Rightarrow> bool" where
  "get_bit bit_buffer k \<longleftrightarrow> bit_buffer AND push_bit k 1 \<noteq> 0"

text \<open>Access to a struct through a pointer of another struct's type.\<close>

definition e_undefined :: enc where
  "e_undefined st = (Some Undefined_behaviour, st)"

section \<open>Sizes of structs\<close>

datatype c_type = C_uint8 | C_uint16 | C_uint32 | C_uint64 | C_boolean | C_bytes | C_table

fun c_sizeof :: "c_type \<Rightarrow> nat" where
  "c_sizeof C_uint8 = 1"
| "c_sizeof C_uint16 = 2"
| "c_sizeof C_uint32 = 4"
| "c_sizeof C_uint64 = 8"
| "c_sizeof C_boolean = 4"
| "c_sizeof C_bytes = 16"
| "c_sizeof C_table = 16"

fun c_align :: "c_type \<Rightarrow> nat" where
  "c_align C_uint8 = 1"
| "c_align C_uint16 = 2"
| "c_align C_uint32 = 4"
| "c_align C_uint64 = 8"
| "c_align C_boolean = 4"
| "c_align C_bytes = 8"
| "c_align C_table = 8"

definition align_up :: "nat \<Rightarrow> nat \<Rightarrow> nat" where
  "align_up a n = (n + (a - 1)) div a * a"

definition sizeof_struct :: "c_type list \<Rightarrow> nat" where
  "sizeof_struct ts =
    align_up (fold (max \<circ> c_align) ts 1) (fold (\<lambda>t n. align_up (c_align t) n + c_sizeof t) ts 0)"

section \<open>Wire format of strings\<close>

definition wire_shortstr :: "amqp_bytes \<Rightarrow> amqp_bytes" where
  "wire_shortstr s = of_nat (length s) # s"

definition wire_longstr :: "amqp_bytes \<Rightarrow> amqp_bytes" where
  "wire_longstr s = be32 (of_nat (length s)) @ s"

abbreviation short_str :: "amqp_bytes \<Rightarrow> bool" where "short_str s \<equiv> length s \<le> UINT8_MAX"
abbreviation long_str :: "amqp_bytes \<Rightarrow> bool" where "long_str s \<equiv> length s \<le> UINT32_MAX"

named_theorems framing_writes \<open>what the statements of an encoder write\<close>
named_theorems framing_reads \<open>what the statements of a decoder read\<close>

lemma writes_shortstr [framing_writes]: "short_str s \<Longrightarrow> writes (e_shortstr s) (wire_shortstr s)"
  using writes_seq [OF writes_8 writes_bytes, of s]
  by (simp add: e_shortstr_def wire_shortstr_def UINT8_MAX_def)

lemma writes_longstr [framing_writes]: "long_str s \<Longrightarrow> writes (e_longstr s) (wire_longstr s)"
  using writes_seq [OF writes_32 writes_bytes, of s]
  by (simp add: e_longstr_def wire_longstr_def UINT32_MAX_def)

lemmas [framing_writes] = writes_8 writes_16 writes_32 writes_64 amqp_encode_table_writes

lemma reads_shortstr [framing_reads]:
  assumes "short_str s" shows "reads d_shortstr (wire_shortstr s) s"
proof -
  have "unat (of_nat (length s) :: u8) = length s"
    using assms by (simp add: unat_of_nat UINT8_MAX_def)
  then have "reads d_shortstr ([of_nat (length s)] @ s) s"
    unfolding d_shortstr_def by (intro reads_bind [OF reads_8] reads_bytes)
  then show ?thesis by (simp add: wire_shortstr_def)
qed

lemma reads_longstr [framing_reads]:
  assumes "long_str s" shows "reads d_longstr (wire_longstr s) s"
proof -
  have "unat (of_nat (length s) :: u32) = length s"
    using assms by (simp add: unat_of_nat UINT32_MAX_def)
  then show ?thesis
    unfolding d_longstr_def wire_longstr_def by (intro reads_bind [OF reads_32] reads_bytes)
qed

lemmas [framing_reads] = reads_8 reads_16 reads_32 reads_64 amqp_decode_table_reads

lemma unat_less_2_63 [simp]: "unat (x :: u8) < 2 ^ 63" "unat (y :: u32) < 2 ^ 63"
  by (rule less_trans [OF unsigned_less], simp)+

lemma guarded_shortstr [wire_intros]: "guarded d_shortstr"
  unfolding d_shortstr_def by (intro wire_intros unat_less_2_63)

lemma guarded_longstr [wire_intros]: "guarded d_longstr"
  unfolding d_longstr_def by (intro wire_intros unat_less_2_63)

lemmas [wire_intros] = amqp_decode_table_guarded

lemma get_bit_bit: "get_bit w k = bit w k"
  unfolding get_bit_def by (rule bit_iff_and_push_bit_not_eq_0 [symmetric])

lemma get_put_bit [simp]:
  "k < 8 \<Longrightarrow> get_bit (put_bit b k w) k = (b \<or> get_bit w k)"
  "k < 8 \<Longrightarrow> j < 8 \<Longrightarrow> j \<noteq> k \<Longrightarrow> get_bit (put_bit b j w) k = get_bit w k"
  "get_bit 0 k = False"
  by (auto simp: get_bit_bit put_bit_def bit_simps)

section \<open>Struct sizes are positive and small\<close>

lemma align_up_bounds: "0 < a \<Longrightarrow> n \<le> align_up a n \<and> align_up a n < n + a"
proof -
  assume a: "0 < a"
  have "(n + (a - 1)) div a * a + (n + (a - 1)) mod a = n + (a - 1)" by simp
  moreover have "(n + (a - 1)) mod a < a" using a by simp
  ultimately show ?thesis using a unfolding align_up_def by linarith
qed

lemma c_align_bounds: "0 < c_align t" "c_align t \<le> 8"
  and c_sizeof_bounds: "0 < c_sizeof t" "c_sizeof t \<le> 16"
  by (cases t; simp)+

lemma fold_align_bounds: "0 < a \<Longrightarrow> a \<le> 8 \<Longrightarrow>
  0 < fold (max \<circ> c_align) ts a \<and> fold (max \<circ> c_align) ts a \<le> 8"
  by (induction ts arbitrary: a) (auto simp: c_align_bounds max_def)

lemma fold_size_bounds:
  "n + length ts \<le> fold (\<lambda>t n. align_up (c_align t) n + c_sizeof t) ts n
   \<and> fold (\<lambda>t n. align_up (c_align t) n + c_sizeof t) ts n \<le> n + 24 * length ts"
proof (induction ts arbitrary: n)
  case (Cons t ts)
  have "Suc n \<le> align_up (c_align t) n + c_sizeof t \<and> align_up (c_align t) n + c_sizeof t \<le> n + 24"
    using align_up_bounds [OF c_align_bounds(1), of n t] c_align_bounds(2) [of t] c_sizeof_bounds [of t]
    by linarith
  with Cons.IH [of "align_up (c_align t) n + c_sizeof t"] show ?case by auto
qed simp

lemma sizeof_struct_bounds:
  assumes "ts \<noteq> []" "length ts < 1000"
  shows "0 < sizeof_struct ts" "sizeof_struct ts \<le> 2 ^ 63"
proof -
  let ?a = "fold (max \<circ> c_align) ts 1"
  let ?n = "fold (\<lambda>t n. align_up (c_align t) n + c_sizeof t) ts 0"
  have "0 < ?a" "?a \<le> 8" using fold_align_bounds [of 1 ts] by auto
  moreover have "length ts \<le> ?n" "?n \<le> 24 * length ts" using fold_size_bounds [of 0 ts] by auto
  moreover have "0 < length ts" using assms(1) by simp
  ultimately have "0 < sizeof_struct ts" "sizeof_struct ts < 24 * 1000 + 8"
    using align_up_bounds [of ?a ?n] assms(2) unfolding sizeof_struct_def by linarith+
  then show "0 < sizeof_struct ts" "sizeof_struct ts \<le> 2 ^ 63" by simp_all
qed

section \<open>Sequences of statements\<close>

lemma writes_concat: "list_all2 writes es ws \<Longrightarrow> writes (e_block es) (concat ws)"
  by (induction rule: list_all2_induct)
    (simp_all add: writes_nothing writes_seq del: e_block.simps)

lemma reads_alloc:
  assumes "ts \<noteq> []" "length ts < 1000" "reads (g ()) w x"
  shows "reads (d_bind (d_pool_alloc (sizeof_struct ts)) g) w x"
  using reads_pool_alloc [OF sizeof_struct_bounds [OF assms(1,2)]] assms(3) by (rule reads_bind_Nil)

lemma reads_field:
  "reads f w v \<Longrightarrow> reads (g v) (concat ws) x \<Longrightarrow> reads (d_bind f g) (concat (w # ws)) x"
  by (simp add: reads_bind)

lemma reads_done: "v = x \<Longrightarrow> reads (d_return v) (concat []) x"
  by (simp add: reads_return)

lemmas reads_struct = reads_alloc reads_field reads_done

section \<open>What a decoder can return\<close>

definition returns :: "'a dec \<Rightarrow> ('a \<Rightarrow> bool) \<Rightarrow> bool" where
  "returns f P \<longleftrightarrow> (\<forall>encoded d v d'. f encoded d = (Inr v, d') \<longrightarrow> P v)"

lemma returnsD: "returns f P \<Longrightarrow> f encoded d = (Inr v, d') \<Longrightarrow> P v"
  by (auto simp: returns_def)

lemma returns_return: "P v \<Longrightarrow> returns (d_return v) P"
  by (simp add: returns_def d_return_def)

lemma returns_fail: "returns (d_fail e) P"
  by (simp add: returns_def d_fail_def)

lemma returns_bind: "(\<And>v. returns (g v) P) \<Longrightarrow> returns (d_bind f g) P"
  unfolding returns_def d_bind_def by (fastforce split: prod.splits sum.splits)

lemma returns_bind': "returns f P \<Longrightarrow> (\<And>v. P v \<Longrightarrow> returns (g v) Q) \<Longrightarrow> returns (d_bind f g) Q"
  unfolding returns_def d_bind_def by (fastforce split: prod.splits sum.splits)

lemmas returns_intros = returns_return returns_fail returns_bind

text \<open>A state in which every allocation fails, which every method decoder reports first of all.\<close>

definition no_memory_state :: dec_state where
  "no_memory_state =
    \<lparr>d_off = 0, d_pool = init_amqp_pool 0,
     d_heap = \<lparr>h_grants = \<lambda>_ _. False, h_count = 0, h_live = [], h_size = \<lambda>_. 0, h_stray = []\<rparr>\<rparr>"

definition allocates :: "'a dec \<Rightarrow> bool" where
  "allocates f \<longleftrightarrow> (\<forall>encoded. fst (f encoded no_memory_state) = Inl (Status AMQP_STATUS_NO_MEMORY))"

lemma allocates_bind: "allocates f \<Longrightarrow> allocates (d_bind f g)"
  unfolding allocates_def
proof
  fix encoded
  assume "\<forall>encoded. fst (f encoded no_memory_state) = Inl (Status AMQP_STATUS_NO_MEMORY)"
  then obtain d' where "f encoded no_memory_state = (Inl (Status AMQP_STATUS_NO_MEMORY), d')"
    by (metis prod.collapse)
  then show "fst (d_bind f g encoded no_memory_state) = Inl (Status AMQP_STATUS_NO_MEMORY)"
    by (simp add: d_bind_def)
qed

lemma allocates_struct:
  assumes "ts \<noteq> []" "length ts < 1000"
  shows "allocates (d_bind (d_pool_alloc (sizeof_struct ts)) g)"
  using sizeof_struct_bounds(1) [OF assms]
  by (intro allocates_bind)
    (auto simp: allocates_def d_pool_alloc_def no_memory_state_def amqp_pool_alloc_def init_amqp_pool_def
      amqp_pool_alloc_large_def amqp_pool_alloc_page_def malloc_def Let_def split: if_splits)

section \<open>The methods of one class\<close>

text \<open>The first case of a switch that applies, in the order of the source.\<close>

primrec switch :: "'a option list \<Rightarrow> 'a \<Rightarrow> 'a" where
  "switch [] dflt = dflt"
| "switch (c # cs) dflt = (case c of Some f \<Rightarrow> f | None \<Rightarrow> switch cs dflt)"

definition as_struct :: "('m \<Rightarrow> 's) \<Rightarrow> 'm dec option \<Rightarrow> 's dec option" where
  "as_struct f c = map_option (\<lambda>d. d_bind d (\<lambda>m. d_return (f m))) c"

lemma guarded_switch:
  "(\<And>f. Some f \<in> set cs \<Longrightarrow> guarded f) \<Longrightarrow> guarded dflt \<Longrightarrow> guarded (switch cs dflt)"
  by (induction cs) (auto split: option.split)

lemma guarded_as_struct:
  "Some g = as_struct f c \<Longrightarrow> (\<And>d. c = Some d \<Longrightarrow> guarded d) \<Longrightarrow> guarded g"
  by (cases c) (auto simp: as_struct_def intro!: wire_intros)

lemma returns_as_struct:
  "Some g = as_struct f c \<Longrightarrow> (\<And>d. c = Some d \<Longrightarrow> returns d P) \<Longrightarrow> (\<And>m. P m \<Longrightarrow> Q (f m)) \<Longrightarrow> returns g Q"
  by (cases c) (auto simp: as_struct_def intro!: returns_bind' returns_return)

lemma returns_switch:
  "(\<And>f. Some f \<in> set cs \<Longrightarrow> returns f P) \<Longrightarrow> returns dflt P \<Longrightarrow> returns (switch cs dflt) P"
  by (induction cs) (auto split: option.split)

lemma allocates_as_struct:
  "Some g = as_struct f c \<Longrightarrow> (\<And>d. c = Some d \<Longrightarrow> allocates d) \<Longrightarrow> allocates g"
  by (cases c) (auto simp: as_struct_def intro!: allocates_bind)

lemma allocates_switch:
  "(\<And>f. Some f \<in> set cs \<Longrightarrow> allocates f) \<Longrightarrow> (\<exists>c \<in> set cs. c \<noteq> None) \<Longrightarrow> allocates (switch cs dflt)"
  by (induction cs) (auto split: option.split)

lemma switch_default: "\<forall>c \<in> set cs. c = None \<Longrightarrow> switch cs dflt = dflt"
  by (induction cs) simp_all

lemma as_struct_eq_None [simp]: "as_struct f c = None \<longleftrightarrow> c = None"
  by (simp add: as_struct_def)

lemma as_struct_None [simp]: "as_struct f None = None"
  by (simp add: as_struct_def)

lemma reads_as_struct:
  "reads d w m \<Longrightarrow> reads (case as_struct f (Some d) of None \<Rightarrow> g | Some h \<Rightarrow> h) w (f m)"
  using reads_bind [of d w m "\<lambda>m. d_return (f m)" "[]" "f m"]
  by (auto simp: as_struct_def reads_return)

text \<open>
  \<open>enc n\<close> and \<open>dec n\<close> are the case of method number \<open>n\<close> in the switch, \<open>None\<close> when the class
  has no such case. The encoder takes the struct it finds behind the pointer, \<open>None\<close> when that is
  a struct of another class.
\<close>

locale method_class =
  fixes enc :: "u32 \<Rightarrow> 'm option \<Rightarrow> enc option" and dec :: "u32 \<Rightarrow> 'm dec option"
    and number :: "'m \<Rightarrow> u32" and wire :: "'m \<Rightarrow> amqp_bytes" and valid :: "'m \<Rightarrow> bool"
    and class_id :: u16
  assumes enc_case: "\<exists>e. enc (number m) (Some m) = Some e \<and> (valid m \<longrightarrow> writes e (wire m))"
    and dec_case: "\<exists>d. dec (number m) = Some d \<and> (valid m \<longrightarrow> reads d (wire m) m)"
    and dec_guarded: "dec n = Some d \<Longrightarrow> guarded d"
    and dec_number: "dec n = Some d \<Longrightarrow> returns d (\<lambda>m. number m = n)"
    and dec_allocates: "dec n = Some d \<Longrightarrow> allocates d"
    and enc_dec: "enc n mo = None \<longleftrightarrow> dec n = None"
    and enc_class: "enc n mo = Some e \<Longrightarrow> drop_bit 16 n = ucast class_id"
    and dec_class: "dec n = Some d \<Longrightarrow> drop_bit 16 n = ucast class_id"
begin

lemma number_class: "drop_bit 16 (number m) = ucast class_id"
  using dec_case dec_class by blast

lemma enc_case_writes:
  "valid m \<Longrightarrow> writes (case enc (number m) (Some m) of None \<Rightarrow> f | Some e \<Rightarrow> e) (wire m)"
  using enc_case [of m] by auto

lemma dec_case_reads:
  "valid m \<Longrightarrow> reads (case as_struct h (dec (number m)) of None \<Rightarrow> f | Some d \<Rightarrow> d) (wire m) (h m)"
  using dec_case [of m] by (auto simp: reads_as_struct)

lemma other_class: "drop_bit 16 n \<noteq> ucast class_id \<Longrightarrow> enc n mo = None \<and> dec n = None"
  using enc_class dec_class by (metis not_None_eq)

end

end
