(* ===== verification/Framing_Connection.thy ===== *)
theory Framing_Connection
  imports Framing_Base
begin

text \<open>
  The methods of the connection class (\<^verbatim>\<open>amqp_framing.h\<close>, \<^verbatim>\<open>amqp_framing.c\<close>): one
  constructor per method struct with its fields in the order of the struct, one decoder and one
  encoder per case of the two switches, the wire format the pair shares, and the interpretation of
  \<open>method_class\<close> on them. A method without fields has an encoder that writes nothing whatever
  struct it is given.
\<close>

section \<open>The connection class\<close>

abbreviation AMQP_CONNECTION_START_METHOD :: u32 where "AMQP_CONNECTION_START_METHOD \<equiv> 0x000A000A"
abbreviation AMQP_CONNECTION_START_OK_METHOD :: u32 where "AMQP_CONNECTION_START_OK_METHOD \<equiv> 0x000A000B"
abbreviation AMQP_CONNECTION_SECURE_METHOD :: u32 where "AMQP_CONNECTION_SECURE_METHOD \<equiv> 0x000A0014"
abbreviation AMQP_CONNECTION_SECURE_OK_METHOD :: u32 where "AMQP_CONNECTION_SECURE_OK_METHOD \<equiv> 0x000A0015"
abbreviation AMQP_CONNECTION_TUNE_METHOD :: u32 where "AMQP_CONNECTION_TUNE_METHOD \<equiv> 0x000A001E"
abbreviation AMQP_CONNECTION_TUNE_OK_METHOD :: u32 where "AMQP_CONNECTION_TUNE_OK_METHOD \<equiv> 0x000A001F"
abbreviation AMQP_CONNECTION_OPEN_METHOD :: u32 where "AMQP_CONNECTION_OPEN_METHOD \<equiv> 0x000A0028"
abbreviation AMQP_CONNECTION_OPEN_OK_METHOD :: u32 where "AMQP_CONNECTION_OPEN_OK_METHOD \<equiv> 0x000A0029"
abbreviation AMQP_CONNECTION_CLOSE_METHOD :: u32 where "AMQP_CONNECTION_CLOSE_METHOD \<equiv> 0x000A0032"
abbreviation AMQP_CONNECTION_CLOSE_OK_METHOD :: u32 where "AMQP_CONNECTION_CLOSE_OK_METHOD \<equiv> 0x000A0033"
abbreviation AMQP_CONNECTION_BLOCKED_METHOD :: u32 where "AMQP_CONNECTION_BLOCKED_METHOD \<equiv> 0x000A003C"
abbreviation AMQP_CONNECTION_UNBLOCKED_METHOD :: u32 where "AMQP_CONNECTION_UNBLOCKED_METHOD \<equiv> 0x000A003D"

datatype connection_method =
    Connection_start (connection_start_version_major: u8) (connection_start_version_minor: u8)
      (connection_start_server_properties: amqp_table) (connection_start_mechanisms: amqp_bytes)
      (connection_start_locales: amqp_bytes)
  | Connection_start_ok (connection_start_ok_client_properties: amqp_table)
      (connection_start_ok_mechanism: amqp_bytes) (connection_start_ok_response: amqp_bytes)
      (connection_start_ok_locale: amqp_bytes)
  | Connection_secure (connection_secure_challenge: amqp_bytes)
  | Connection_secure_ok (connection_secure_ok_response: amqp_bytes)
  | Connection_tune (connection_tune_channel_max: u16) (connection_tune_frame_max: u32)
      (connection_tune_heartbeat: u16)
  | Connection_tune_ok (connection_tune_ok_channel_max: u16) (connection_tune_ok_frame_max: u32)
      (connection_tune_ok_heartbeat: u16)
  | Connection_open (connection_open_virtual_host: amqp_bytes)
      (connection_open_capabilities: amqp_bytes) (connection_open_insist: bool)
  | Connection_open_ok (connection_open_ok_known_hosts: amqp_bytes)
  | Connection_close (connection_close_reply_code: u16) (connection_close_reply_text: amqp_bytes)
      (connection_close_class_id: u16) (connection_close_method_id: u16)
  | Connection_close_ok
  | Connection_blocked (connection_blocked_reason: amqp_bytes)
  | Connection_unblocked

fun connection_number :: "connection_method \<Rightarrow> u32" where
  "connection_number (Connection_start _ _ _ _ _) = AMQP_CONNECTION_START_METHOD"
| "connection_number (Connection_start_ok _ _ _ _) = AMQP_CONNECTION_START_OK_METHOD"
| "connection_number (Connection_secure _) = AMQP_CONNECTION_SECURE_METHOD"
| "connection_number (Connection_secure_ok _) = AMQP_CONNECTION_SECURE_OK_METHOD"
| "connection_number (Connection_tune _ _ _) = AMQP_CONNECTION_TUNE_METHOD"
| "connection_number (Connection_tune_ok _ _ _) = AMQP_CONNECTION_TUNE_OK_METHOD"
| "connection_number (Connection_open _ _ _) = AMQP_CONNECTION_OPEN_METHOD"
| "connection_number (Connection_open_ok _) = AMQP_CONNECTION_OPEN_OK_METHOD"
| "connection_number (Connection_close _ _ _ _) = AMQP_CONNECTION_CLOSE_METHOD"
| "connection_number Connection_close_ok = AMQP_CONNECTION_CLOSE_OK_METHOD"
| "connection_number (Connection_blocked _) = AMQP_CONNECTION_BLOCKED_METHOD"
| "connection_number Connection_unblocked = AMQP_CONNECTION_UNBLOCKED_METHOD"

section \<open>Decoding\<close>

definition decode_connection_start :: "connection_method dec" where
  "decode_connection_start =
    d_bind (d_pool_alloc (sizeof_struct [C_uint8, C_uint8, C_table, C_bytes, C_bytes])) (\<lambda>_.
    d_bind d_8 (\<lambda>version_major.
    d_bind d_8 (\<lambda>version_minor.
    d_bind amqp_decode_table (\<lambda>server_properties.
    d_bind d_longstr (\<lambda>mechanisms.
    d_bind d_longstr (\<lambda>locales.
    d_return (Connection_start version_major version_minor server_properties mechanisms locales)))))))"

definition decode_connection_start_ok :: "connection_method dec" where
  "decode_connection_start_ok =
    d_bind (d_pool_alloc (sizeof_struct [C_table, C_bytes, C_bytes, C_bytes])) (\<lambda>_.
    d_bind amqp_decode_table (\<lambda>client_properties.
    d_bind d_shortstr (\<lambda>mechanism.
    d_bind d_longstr (\<lambda>response.
    d_bind d_shortstr (\<lambda>locale.
    d_return (Connection_start_ok client_properties mechanism response locale))))))"

definition decode_connection_secure :: "connection_method dec" where
  "decode_connection_secure =
    d_bind (d_pool_alloc (sizeof_struct [C_bytes])) (\<lambda>_.
    d_bind d_longstr (\<lambda>challenge.
    d_return (Connection_secure challenge)))"

definition decode_connection_secure_ok :: "connection_method dec" where
  "decode_connection_secure_ok =
    d_bind (d_pool_alloc (sizeof_struct [C_bytes])) (\<lambda>_.
    d_bind d_longstr (\<lambda>response.
    d_return (Connection_secure_ok response)))"

definition decode_connection_tune :: "connection_method dec" where
  "decode_connection_tune =
    d_bind (d_pool_alloc (sizeof_struct [C_uint16, C_uint32, C_uint16])) (\<lambda>_.
    d_bind d_16 (\<lambda>channel_max.
    d_bind d_32 (\<lambda>frame_max.
    d_bind d_16 (\<lambda>heartbeat.
    d_return (Connection_tune channel_max frame_max heartbeat)))))"

definition decode_connection_tune_ok :: "connection_method dec" where
  "decode_connection_tune_ok =
    d_bind (d_pool_alloc (sizeof_struct [C_uint16, C_uint32, C_uint16])) (\<lambda>_.
    d_bind d_16 (\<lambda>channel_max.
    d_bind d_32 (\<lambda>frame_max.
    d_bind d_16 (\<lambda>heartbeat.
    d_return (Connection_tune_ok channel_max frame_max heartbeat)))))"

definition decode_connection_open :: "connection_method dec" where
  "decode_connection_open =
    d_bind (d_pool_alloc (sizeof_struct [C_bytes, C_bytes, C_boolean])) (\<lambda>_.
    d_bind d_shortstr (\<lambda>virtual_host.
    d_bind d_shortstr (\<lambda>capabilities.
    d_bind d_8 (\<lambda>bit_buffer.
    d_return (Connection_open virtual_host capabilities (get_bit bit_buffer 0))))))"

definition decode_connection_open_ok :: "connection_method dec" where
  "decode_connection_open_ok =
    d_bind (d_pool_alloc (sizeof_struct [C_bytes])) (\<lambda>_.
    d_bind d_shortstr (\<lambda>known_hosts.
    d_return (Connection_open_ok known_hosts)))"

definition decode_connection_close :: "connection_method dec" where
  "decode_connection_close =
    d_bind (d_pool_alloc (sizeof_struct [C_uint16, C_bytes, C_uint16, C_uint16])) (\<lambda>_.
    d_bind d_16 (\<lambda>reply_code.
    d_bind d_shortstr (\<lambda>reply_text.
    d_bind d_16 (\<lambda>class_id.
    d_bind d_16 (\<lambda>method_id.
    d_return (Connection_close reply_code reply_text class_id method_id))))))"

definition decode_connection_close_ok :: "connection_method dec" where
  "decode_connection_close_ok =
    d_bind (d_pool_alloc (sizeof_struct [C_uint8])) (\<lambda>_.
    d_return Connection_close_ok)"

definition decode_connection_blocked :: "connection_method dec" where
  "decode_connection_blocked =
    d_bind (d_pool_alloc (sizeof_struct [C_bytes])) (\<lambda>_.
    d_bind d_shortstr (\<lambda>reason.
    d_return (Connection_blocked reason)))"

definition decode_connection_unblocked :: "connection_method dec" where
  "decode_connection_unblocked =
    d_bind (d_pool_alloc (sizeof_struct [C_uint8])) (\<lambda>_.
    d_return Connection_unblocked)"

definition decode_connection :: "u32 \<Rightarrow> connection_method dec option" where
  "decode_connection methodNumber =
    (if methodNumber = AMQP_CONNECTION_START_METHOD then Some decode_connection_start
     else if methodNumber = AMQP_CONNECTION_START_OK_METHOD then Some decode_connection_start_ok
     else if methodNumber = AMQP_CONNECTION_SECURE_METHOD then Some decode_connection_secure
     else if methodNumber = AMQP_CONNECTION_SECURE_OK_METHOD then Some decode_connection_secure_ok
     else if methodNumber = AMQP_CONNECTION_TUNE_METHOD then Some decode_connection_tune
     else if methodNumber = AMQP_CONNECTION_TUNE_OK_METHOD then Some decode_connection_tune_ok
     else if methodNumber = AMQP_CONNECTION_OPEN_METHOD then Some decode_connection_open
     else if methodNumber = AMQP_CONNECTION_OPEN_OK_METHOD then Some decode_connection_open_ok
     else if methodNumber = AMQP_CONNECTION_CLOSE_METHOD then Some decode_connection_close
     else if methodNumber = AMQP_CONNECTION_CLOSE_OK_METHOD then Some decode_connection_close_ok
     else if methodNumber = AMQP_CONNECTION_BLOCKED_METHOD then Some decode_connection_blocked
     else if methodNumber = AMQP_CONNECTION_UNBLOCKED_METHOD then Some decode_connection_unblocked
     else None)"

section \<open>Encoding\<close>

definition encode_connection_start :: "u8 \<Rightarrow> u8 \<Rightarrow> amqp_table \<Rightarrow> amqp_bytes \<Rightarrow> amqp_bytes \<Rightarrow> enc" where
  "encode_connection_start version_major version_minor server_properties mechanisms locales =
    e_block
      [e_8 version_major,
       e_8 version_minor,
       amqp_encode_table server_properties,
       e_longstr mechanisms,
       e_longstr locales]"

definition encode_connection_start_ok :: "amqp_table \<Rightarrow> amqp_bytes \<Rightarrow> amqp_bytes \<Rightarrow> amqp_bytes \<Rightarrow> enc" where
  "encode_connection_start_ok client_properties mechanism response locale =
    e_block
      [amqp_encode_table client_properties,
       e_shortstr mechanism,
       e_longstr response,
       e_shortstr locale]"

definition encode_connection_secure :: "amqp_bytes \<Rightarrow> enc" where
  "encode_connection_secure challenge =
    e_block
      [e_longstr challenge]"

definition encode_connection_secure_ok :: "amqp_bytes \<Rightarrow> enc" where
  "encode_connection_secure_ok response =
    e_block
      [e_longstr response]"

definition encode_connection_tune :: "u16 \<Rightarrow> u32 \<Rightarrow> u16 \<Rightarrow> enc" where
  "encode_connection_tune channel_max frame_max heartbeat =
    e_block
      [e_16 channel_max,
       e_32 frame_max,
       e_16 heartbeat]"

definition encode_connection_tune_ok :: "u16 \<Rightarrow> u32 \<Rightarrow> u16 \<Rightarrow> enc" where
  "encode_connection_tune_ok channel_max frame_max heartbeat =
    e_block
      [e_16 channel_max,
       e_32 frame_max,
       e_16 heartbeat]"

definition encode_connection_open :: "amqp_bytes \<Rightarrow> amqp_bytes \<Rightarrow> bool \<Rightarrow> enc" where
  "encode_connection_open virtual_host capabilities insist =
    e_block
      [e_shortstr virtual_host,
       e_shortstr capabilities,
       e_8 (put_bit insist 0 0)]"

definition encode_connection_open_ok :: "amqp_bytes \<Rightarrow> enc" where
  "encode_connection_open_ok known_hosts =
    e_block
      [e_shortstr known_hosts]"

definition encode_connection_close :: "u16 \<Rightarrow> amqp_bytes \<Rightarrow> u16 \<Rightarrow> u16 \<Rightarrow> enc" where
  "encode_connection_close reply_code reply_text class_id method_id =
    e_block
      [e_16 reply_code,
       e_shortstr reply_text,
       e_16 class_id,
       e_16 method_id]"

definition encode_connection_blocked :: "amqp_bytes \<Rightarrow> enc" where
  "encode_connection_blocked reason =
    e_block
      [e_shortstr reason]"

definition encode_connection :: "u32 \<Rightarrow> connection_method option \<Rightarrow> enc option" where
  "encode_connection methodNumber decoded =
    (if methodNumber = AMQP_CONNECTION_START_METHOD then
       Some (case decoded of
           Some (Connection_start version_major version_minor server_properties mechanisms locales) \<Rightarrow> encode_connection_start version_major version_minor server_properties mechanisms locales
         | _ \<Rightarrow> e_undefined)
     else if methodNumber = AMQP_CONNECTION_START_OK_METHOD then
       Some (case decoded of
           Some (Connection_start_ok client_properties mechanism response locale) \<Rightarrow> encode_connection_start_ok client_properties mechanism response locale
         | _ \<Rightarrow> e_undefined)
     else if methodNumber = AMQP_CONNECTION_SECURE_METHOD then
       Some (case decoded of
           Some (Connection_secure challenge) \<Rightarrow> encode_connection_secure challenge
         | _ \<Rightarrow> e_undefined)
     else if methodNumber = AMQP_CONNECTION_SECURE_OK_METHOD then
       Some (case decoded of
           Some (Connection_secure_ok response) \<Rightarrow> encode_connection_secure_ok response
         | _ \<Rightarrow> e_undefined)
     else if methodNumber = AMQP_CONNECTION_TUNE_METHOD then
       Some (case decoded of
           Some (Connection_tune channel_max frame_max heartbeat) \<Rightarrow> encode_connection_tune channel_max frame_max heartbeat
         | _ \<Rightarrow> e_undefined)
     else if methodNumber = AMQP_CONNECTION_TUNE_OK_METHOD then
       Some (case decoded of
           Some (Connection_tune_ok channel_max frame_max heartbeat) \<Rightarrow> encode_connection_tune_ok channel_max frame_max heartbeat
         | _ \<Rightarrow> e_undefined)
     else if methodNumber = AMQP_CONNECTION_OPEN_METHOD then
       Some (case decoded of
           Some (Connection_open virtual_host capabilities insist) \<Rightarrow> encode_connection_open virtual_host capabilities insist
         | _ \<Rightarrow> e_undefined)
     else if methodNumber = AMQP_CONNECTION_OPEN_OK_METHOD then
       Some (case decoded of
           Some (Connection_open_ok known_hosts) \<Rightarrow> encode_connection_open_ok known_hosts
         | _ \<Rightarrow> e_undefined)
     else if methodNumber = AMQP_CONNECTION_CLOSE_METHOD then
       Some (case decoded of
           Some (Connection_close reply_code reply_text class_id method_id) \<Rightarrow> encode_connection_close reply_code reply_text class_id method_id
         | _ \<Rightarrow> e_undefined)
     else if methodNumber = AMQP_CONNECTION_CLOSE_OK_METHOD then Some (e_block [])
     else if methodNumber = AMQP_CONNECTION_BLOCKED_METHOD then
       Some (case decoded of
           Some (Connection_blocked reason) \<Rightarrow> encode_connection_blocked reason
         | _ \<Rightarrow> e_undefined)
     else if methodNumber = AMQP_CONNECTION_UNBLOCKED_METHOD then Some (e_block [])
     else None)"

section \<open>Wire format\<close>

fun wire_connection :: "connection_method \<Rightarrow> amqp_bytes" where
  "wire_connection (Connection_start version_major version_minor server_properties mechanisms locales) =
     concat [[version_major], [version_minor], wire_table server_properties, wire_longstr mechanisms, wire_longstr locales]"
| "wire_connection (Connection_start_ok client_properties mechanism response locale) =
     concat [wire_table client_properties, wire_shortstr mechanism, wire_longstr response, wire_shortstr locale]"
| "wire_connection (Connection_secure challenge) =
     concat [wire_longstr challenge]"
| "wire_connection (Connection_secure_ok response) =
     concat [wire_longstr response]"
| "wire_connection (Connection_tune channel_max frame_max heartbeat) =
     concat [be16 channel_max, be32 frame_max, be16 heartbeat]"
| "wire_connection (Connection_tune_ok channel_max frame_max heartbeat) =
     concat [be16 channel_max, be32 frame_max, be16 heartbeat]"
| "wire_connection (Connection_open virtual_host capabilities insist) =
     concat [wire_shortstr virtual_host, wire_shortstr capabilities, [put_bit insist 0 0]]"
| "wire_connection (Connection_open_ok known_hosts) =
     concat [wire_shortstr known_hosts]"
| "wire_connection (Connection_close reply_code reply_text class_id method_id) =
     concat [be16 reply_code, wire_shortstr reply_text, be16 class_id, be16 method_id]"
| "wire_connection Connection_close_ok =
     concat []"
| "wire_connection (Connection_blocked reason) =
     concat [wire_shortstr reason]"
| "wire_connection Connection_unblocked =
     concat []"

fun valid_connection :: "connection_method \<Rightarrow> bool" where
  "valid_connection (Connection_start _ _ server_properties mechanisms locales) \<longleftrightarrow> valid_table server_properties \<and> long_str mechanisms \<and> long_str locales"
| "valid_connection (Connection_start_ok client_properties mechanism response locale) \<longleftrightarrow> valid_table client_properties \<and> short_str mechanism \<and> long_str response \<and> short_str locale"
| "valid_connection (Connection_secure challenge) \<longleftrightarrow> long_str challenge"
| "valid_connection (Connection_secure_ok response) \<longleftrightarrow> long_str response"
| "valid_connection (Connection_tune _ _ _) \<longleftrightarrow> True"
| "valid_connection (Connection_tune_ok _ _ _) \<longleftrightarrow> True"
| "valid_connection (Connection_open virtual_host capabilities _) \<longleftrightarrow> short_str virtual_host \<and> short_str capabilities"
| "valid_connection (Connection_open_ok known_hosts) \<longleftrightarrow> short_str known_hosts"
| "valid_connection (Connection_close _ reply_text _ _) \<longleftrightarrow> short_str reply_text"
| "valid_connection Connection_close_ok \<longleftrightarrow> True"
| "valid_connection (Connection_blocked reason) \<longleftrightarrow> short_str reason"
| "valid_connection Connection_unblocked \<longleftrightarrow> True"

declare wire_connection.simps [simp del]

section \<open>The contract\<close>

lemmas connection_decoders = decode_connection_start_def decode_connection_start_ok_def
  decode_connection_secure_def decode_connection_secure_ok_def decode_connection_tune_def
  decode_connection_tune_ok_def decode_connection_open_def decode_connection_open_ok_def
  decode_connection_close_def decode_connection_close_ok_def decode_connection_blocked_def
  decode_connection_unblocked_def

lemmas connection_encoders = encode_connection_start_def encode_connection_start_ok_def
  encode_connection_secure_def encode_connection_secure_ok_def encode_connection_tune_def
  encode_connection_tune_ok_def encode_connection_open_def encode_connection_open_ok_def
  encode_connection_close_def encode_connection_blocked_def

lemma encode_connection_writes:
  "valid_connection m \<Longrightarrow> \<exists>e. encode_connection (connection_number m) (Some m) = Some e \<and> writes e (wire_connection m)"
  by (cases m; simp add: encode_connection_def wire_connection.simps connection_encoders del: e_block.simps e_block_Cons concat.simps)
    (intro writes_concat; simp add: framing_writes)+

lemma encode_connection_case: "\<exists>e. encode_connection (connection_number m) (Some m) = Some e"
  by (cases m) (simp_all add: encode_connection_def)

lemma decode_connection_case: "\<exists>d. decode_connection (connection_number m) = Some d"
  by (cases m) (simp_all add: decode_connection_def)

lemma decode_connection_reads:
  "valid_connection m \<Longrightarrow> decode_connection (connection_number m) = Some d \<Longrightarrow> reads d (wire_connection m) m"
  by (cases m; simp add: decode_connection_def wire_connection.simps connection_decoders del: concat.simps; hypsubst)
    (rule reads_struct framing_reads | assumption | simp)+

lemma decode_connection_guarded: "decode_connection n = Some d \<Longrightarrow> guarded d"
  by (auto simp: decode_connection_def connection_decoders split: if_splits intro!: wire_intros)

lemma decode_connection_number: "decode_connection n = Some d \<Longrightarrow> returns d (\<lambda>m. connection_number m = n)"
  by (auto simp: decode_connection_def connection_decoders split: if_splits intro!: returns_intros)

lemma decode_connection_allocates: "decode_connection n = Some d \<Longrightarrow> allocates d"
  by (auto simp: decode_connection_def connection_decoders allocates_struct split: if_splits)

interpretation connection_class: method_class encode_connection decode_connection connection_number wire_connection valid_connection 10
proof
  fix m
  show "\<exists>e. encode_connection (connection_number m) (Some m) = Some e \<and> (valid_connection m \<longrightarrow> writes e (wire_connection m))"
    using encode_connection_writes encode_connection_case by blast
  show "\<exists>d. decode_connection (connection_number m) = Some d \<and> (valid_connection m \<longrightarrow> reads d (wire_connection m) m)"
    using decode_connection_reads decode_connection_case by blast
  fix n mo
  show "encode_connection n mo = None \<longleftrightarrow> decode_connection n = None"
    unfolding encode_connection_def decode_connection_def by simp
qed (auto simp: decode_connection_guarded decode_connection_number decode_connection_allocates encode_connection_def decode_connection_def
    split: if_splits)

end
