(* ===== verification/Framing_Channel.thy ===== *)
theory Framing_Channel
  imports Framing_Base
begin

text \<open>
  The methods of the channel and access classes (\<^verbatim>\<open>amqp_framing.h\<close>, \<^verbatim>\<open>amqp_framing.c\<close>): one
  constructor per method struct with its fields in the order of the struct, one decoder and one
  encoder per case of the two switches, the wire format the pair shares, and the interpretation of
  \<open>method_class\<close> on them. A method without fields has an encoder that writes nothing whatever
  struct it is given.
\<close>

section \<open>The channel class\<close>

abbreviation AMQP_CHANNEL_OPEN_METHOD :: u32 where "AMQP_CHANNEL_OPEN_METHOD \<equiv> 0x0014000A"
abbreviation AMQP_CHANNEL_OPEN_OK_METHOD :: u32 where "AMQP_CHANNEL_OPEN_OK_METHOD \<equiv> 0x0014000B"
abbreviation AMQP_CHANNEL_FLOW_METHOD :: u32 where "AMQP_CHANNEL_FLOW_METHOD \<equiv> 0x00140014"
abbreviation AMQP_CHANNEL_FLOW_OK_METHOD :: u32 where "AMQP_CHANNEL_FLOW_OK_METHOD \<equiv> 0x00140015"
abbreviation AMQP_CHANNEL_CLOSE_METHOD :: u32 where "AMQP_CHANNEL_CLOSE_METHOD \<equiv> 0x00140028"
abbreviation AMQP_CHANNEL_CLOSE_OK_METHOD :: u32 where "AMQP_CHANNEL_CLOSE_OK_METHOD \<equiv> 0x00140029"

datatype channel_method =
    Channel_open (channel_open_out_of_band: amqp_bytes)
  | Channel_open_ok (channel_open_ok_channel_id: amqp_bytes)
  | Channel_flow (channel_flow_active: bool)
  | Channel_flow_ok (channel_flow_ok_active: bool)
  | Channel_close (channel_close_reply_code: u16) (channel_close_reply_text: amqp_bytes)
      (channel_close_class_id: u16) (channel_close_method_id: u16)
  | Channel_close_ok

fun channel_number :: "channel_method \<Rightarrow> u32" where
  "channel_number (Channel_open _) = AMQP_CHANNEL_OPEN_METHOD"
| "channel_number (Channel_open_ok _) = AMQP_CHANNEL_OPEN_OK_METHOD"
| "channel_number (Channel_flow _) = AMQP_CHANNEL_FLOW_METHOD"
| "channel_number (Channel_flow_ok _) = AMQP_CHANNEL_FLOW_OK_METHOD"
| "channel_number (Channel_close _ _ _ _) = AMQP_CHANNEL_CLOSE_METHOD"
| "channel_number Channel_close_ok = AMQP_CHANNEL_CLOSE_OK_METHOD"

section \<open>Decoding\<close>

definition decode_channel_open :: "channel_method dec" where
  "decode_channel_open =
    d_bind (d_pool_alloc (sizeof_struct [C_bytes])) (\<lambda>_.
    d_bind d_shortstr (\<lambda>out_of_band.
    d_return (Channel_open out_of_band)))"

definition decode_channel_open_ok :: "channel_method dec" where
  "decode_channel_open_ok =
    d_bind (d_pool_alloc (sizeof_struct [C_bytes])) (\<lambda>_.
    d_bind d_longstr (\<lambda>channel_id.
    d_return (Channel_open_ok channel_id)))"

definition decode_channel_flow :: "channel_method dec" where
  "decode_channel_flow =
    d_bind (d_pool_alloc (sizeof_struct [C_boolean])) (\<lambda>_.
    d_bind d_8 (\<lambda>bit_buffer.
    d_return (Channel_flow (get_bit bit_buffer 0))))"

definition decode_channel_flow_ok :: "channel_method dec" where
  "decode_channel_flow_ok =
    d_bind (d_pool_alloc (sizeof_struct [C_boolean])) (\<lambda>_.
    d_bind d_8 (\<lambda>bit_buffer.
    d_return (Channel_flow_ok (get_bit bit_buffer 0))))"

definition decode_channel_close :: "channel_method dec" where
  "decode_channel_close =
    d_bind (d_pool_alloc (sizeof_struct [C_uint16, C_bytes, C_uint16, C_uint16])) (\<lambda>_.
    d_bind d_16 (\<lambda>reply_code.
    d_bind d_shortstr (\<lambda>reply_text.
    d_bind d_16 (\<lambda>class_id.
    d_bind d_16 (\<lambda>method_id.
    d_return (Channel_close reply_code reply_text class_id method_id))))))"

definition decode_channel_close_ok :: "channel_method dec" where
  "decode_channel_close_ok =
    d_bind (d_pool_alloc (sizeof_struct [C_uint8])) (\<lambda>_.
    d_return Channel_close_ok)"

definition decode_channel :: "u32 \<Rightarrow> channel_method dec option" where
  "decode_channel methodNumber =
    (if methodNumber = AMQP_CHANNEL_OPEN_METHOD then Some decode_channel_open
     else if methodNumber = AMQP_CHANNEL_OPEN_OK_METHOD then Some decode_channel_open_ok
     else if methodNumber = AMQP_CHANNEL_FLOW_METHOD then Some decode_channel_flow
     else if methodNumber = AMQP_CHANNEL_FLOW_OK_METHOD then Some decode_channel_flow_ok
     else if methodNumber = AMQP_CHANNEL_CLOSE_METHOD then Some decode_channel_close
     else if methodNumber = AMQP_CHANNEL_CLOSE_OK_METHOD then Some decode_channel_close_ok
     else None)"

section \<open>Encoding\<close>

definition encode_channel_open :: "amqp_bytes \<Rightarrow> enc" where
  "encode_channel_open out_of_band =
    e_block
      [e_shortstr out_of_band]"

definition encode_channel_open_ok :: "amqp_bytes \<Rightarrow> enc" where
  "encode_channel_open_ok channel_id =
    e_block
      [e_longstr channel_id]"

definition encode_channel_flow :: "bool \<Rightarrow> enc" where
  "encode_channel_flow active =
    e_block
      [e_8 (put_bit active 0 0)]"

definition encode_channel_flow_ok :: "bool \<Rightarrow> enc" where
  "encode_channel_flow_ok active =
    e_block
      [e_8 (put_bit active 0 0)]"

definition encode_channel_close :: "u16 \<Rightarrow> amqp_bytes \<Rightarrow> u16 \<Rightarrow> u16 \<Rightarrow> enc" where
  "encode_channel_close reply_code reply_text class_id method_id =
    e_block
      [e_16 reply_code,
       e_shortstr reply_text,
       e_16 class_id,
       e_16 method_id]"

definition encode_channel :: "u32 \<Rightarrow> channel_method option \<Rightarrow> enc option" where
  "encode_channel methodNumber decoded =
    (if methodNumber = AMQP_CHANNEL_OPEN_METHOD then
       Some (case decoded of
           Some (Channel_open out_of_band) \<Rightarrow> encode_channel_open out_of_band
         | _ \<Rightarrow> e_undefined)
     else if methodNumber = AMQP_CHANNEL_OPEN_OK_METHOD then
       Some (case decoded of
           Some (Channel_open_ok channel_id) \<Rightarrow> encode_channel_open_ok channel_id
         | _ \<Rightarrow> e_undefined)
     else if methodNumber = AMQP_CHANNEL_FLOW_METHOD then
       Some (case decoded of
           Some (Channel_flow active) \<Rightarrow> encode_channel_flow active
         | _ \<Rightarrow> e_undefined)
     else if methodNumber = AMQP_CHANNEL_FLOW_OK_METHOD then
       Some (case decoded of
           Some (Channel_flow_ok active) \<Rightarrow> encode_channel_flow_ok active
         | _ \<Rightarrow> e_undefined)
     else if methodNumber = AMQP_CHANNEL_CLOSE_METHOD then
       Some (case decoded of
           Some (Channel_close reply_code reply_text class_id method_id) \<Rightarrow> encode_channel_close reply_code reply_text class_id method_id
         | _ \<Rightarrow> e_undefined)
     else if methodNumber = AMQP_CHANNEL_CLOSE_OK_METHOD then Some (e_block [])
     else None)"

section \<open>Wire format\<close>

fun wire_channel :: "channel_method \<Rightarrow> amqp_bytes" where
  "wire_channel (Channel_open out_of_band) =
     concat [wire_shortstr out_of_band]"
| "wire_channel (Channel_open_ok channel_id) =
     concat [wire_longstr channel_id]"
| "wire_channel (Channel_flow active) =
     concat [[put_bit active 0 0]]"
| "wire_channel (Channel_flow_ok active) =
     concat [[put_bit active 0 0]]"
| "wire_channel (Channel_close reply_code reply_text class_id method_id) =
     concat [be16 reply_code, wire_shortstr reply_text, be16 class_id, be16 method_id]"
| "wire_channel Channel_close_ok =
     concat []"

fun valid_channel :: "channel_method \<Rightarrow> bool" where
  "valid_channel (Channel_open out_of_band) \<longleftrightarrow> short_str out_of_band"
| "valid_channel (Channel_open_ok channel_id) \<longleftrightarrow> long_str channel_id"
| "valid_channel (Channel_flow _) \<longleftrightarrow> True"
| "valid_channel (Channel_flow_ok _) \<longleftrightarrow> True"
| "valid_channel (Channel_close _ reply_text _ _) \<longleftrightarrow> short_str reply_text"
| "valid_channel Channel_close_ok \<longleftrightarrow> True"

declare wire_channel.simps [simp del]

section \<open>The contract\<close>

lemmas channel_decoders = decode_channel_open_def decode_channel_open_ok_def
  decode_channel_flow_def decode_channel_flow_ok_def decode_channel_close_def
  decode_channel_close_ok_def

lemmas channel_encoders = encode_channel_open_def encode_channel_open_ok_def
  encode_channel_flow_def encode_channel_flow_ok_def encode_channel_close_def

lemma encode_channel_writes:
  "valid_channel m \<Longrightarrow> \<exists>e. encode_channel (channel_number m) (Some m) = Some e \<and> writes e (wire_channel m)"
  by (cases m; simp add: encode_channel_def wire_channel.simps channel_encoders del: e_block.simps e_block_Cons concat.simps)
    (intro writes_concat; simp add: framing_writes)+

lemma encode_channel_case: "\<exists>e. encode_channel (channel_number m) (Some m) = Some e"
  by (cases m) (simp_all add: encode_channel_def)

lemma decode_channel_case: "\<exists>d. decode_channel (channel_number m) = Some d"
  by (cases m) (simp_all add: decode_channel_def)

lemma decode_channel_reads:
  "valid_channel m \<Longrightarrow> decode_channel (channel_number m) = Some d \<Longrightarrow> reads d (wire_channel m) m"
  by (cases m; simp add: decode_channel_def wire_channel.simps channel_decoders del: concat.simps; hypsubst)
    (rule reads_struct framing_reads | assumption | simp)+

lemma decode_channel_guarded: "decode_channel n = Some d \<Longrightarrow> guarded d"
  by (auto simp: decode_channel_def channel_decoders split: if_splits intro!: wire_intros)

lemma decode_channel_number: "decode_channel n = Some d \<Longrightarrow> returns d (\<lambda>m. channel_number m = n)"
  by (auto simp: decode_channel_def channel_decoders split: if_splits intro!: returns_intros)

lemma decode_channel_allocates: "decode_channel n = Some d \<Longrightarrow> allocates d"
  by (auto simp: decode_channel_def channel_decoders allocates_struct split: if_splits)

interpretation channel_class: method_class encode_channel decode_channel channel_number wire_channel valid_channel 20
proof
  fix m
  show "\<exists>e. encode_channel (channel_number m) (Some m) = Some e \<and> (valid_channel m \<longrightarrow> writes e (wire_channel m))"
    using encode_channel_writes encode_channel_case by blast
  show "\<exists>d. decode_channel (channel_number m) = Some d \<and> (valid_channel m \<longrightarrow> reads d (wire_channel m) m)"
    using decode_channel_reads decode_channel_case by blast
  fix n mo
  show "encode_channel n mo = None \<longleftrightarrow> decode_channel n = None"
    unfolding encode_channel_def decode_channel_def by simp
qed (auto simp: decode_channel_guarded decode_channel_number decode_channel_allocates encode_channel_def decode_channel_def
    split: if_splits)

section \<open>The access class\<close>

abbreviation AMQP_ACCESS_REQUEST_METHOD :: u32 where "AMQP_ACCESS_REQUEST_METHOD \<equiv> 0x001E000A"
abbreviation AMQP_ACCESS_REQUEST_OK_METHOD :: u32 where "AMQP_ACCESS_REQUEST_OK_METHOD \<equiv> 0x001E000B"

datatype access_method =
    Access_request (access_request_realm: amqp_bytes) (access_request_exclusive: bool)
      (access_request_passive: bool) (access_request_active: bool) (access_request_write: bool)
      (access_request_read: bool)
  | Access_request_ok (access_request_ok_ticket: u16)

fun access_number :: "access_method \<Rightarrow> u32" where
  "access_number (Access_request _ _ _ _ _ _) = AMQP_ACCESS_REQUEST_METHOD"
| "access_number (Access_request_ok _) = AMQP_ACCESS_REQUEST_OK_METHOD"

section \<open>Decoding\<close>

definition decode_access_request :: "access_method dec" where
  "decode_access_request =
    d_bind (d_pool_alloc (sizeof_struct [C_bytes, C_boolean, C_boolean, C_boolean, C_boolean, C_boolean])) (\<lambda>_.
    d_bind d_shortstr (\<lambda>realm.
    d_bind d_8 (\<lambda>bit_buffer.
    d_return (Access_request realm (get_bit bit_buffer 0) (get_bit bit_buffer 1) (get_bit bit_buffer 2) (get_bit bit_buffer 3) (get_bit bit_buffer 4)))))"

definition decode_access_request_ok :: "access_method dec" where
  "decode_access_request_ok =
    d_bind (d_pool_alloc (sizeof_struct [C_uint16])) (\<lambda>_.
    d_bind d_16 (\<lambda>ticket.
    d_return (Access_request_ok ticket)))"

definition decode_access :: "u32 \<Rightarrow> access_method dec option" where
  "decode_access methodNumber =
    (if methodNumber = AMQP_ACCESS_REQUEST_METHOD then Some decode_access_request
     else if methodNumber = AMQP_ACCESS_REQUEST_OK_METHOD then Some decode_access_request_ok
     else None)"

section \<open>Encoding\<close>

definition encode_access_request :: "amqp_bytes \<Rightarrow> bool \<Rightarrow> bool \<Rightarrow> bool \<Rightarrow> bool \<Rightarrow> bool \<Rightarrow> enc" where
  "encode_access_request realm exclusive passive active write read =
    e_block
      [e_shortstr realm,
       e_8 (put_bit read 4 (put_bit write 3 (put_bit active 2 (put_bit passive 1 (put_bit exclusive 0 0)))))]"

definition encode_access_request_ok :: "u16 \<Rightarrow> enc" where
  "encode_access_request_ok ticket =
    e_block
      [e_16 ticket]"

definition encode_access :: "u32 \<Rightarrow> access_method option \<Rightarrow> enc option" where
  "encode_access methodNumber decoded =
    (if methodNumber = AMQP_ACCESS_REQUEST_METHOD then
       Some (case decoded of
           Some (Access_request realm exclusive passive active write read) \<Rightarrow> encode_access_request realm exclusive passive active write read
         | _ \<Rightarrow> e_undefined)
     else if methodNumber = AMQP_ACCESS_REQUEST_OK_METHOD then
       Some (case decoded of
           Some (Access_request_ok ticket) \<Rightarrow> encode_access_request_ok ticket
         | _ \<Rightarrow> e_undefined)
     else None)"

section \<open>Wire format\<close>

fun wire_access :: "access_method \<Rightarrow> amqp_bytes" where
  "wire_access (Access_request realm exclusive passive active write read) =
     concat [wire_shortstr realm, [put_bit read 4 (put_bit write 3 (put_bit active 2 (put_bit passive 1 (put_bit exclusive 0 0))))]]"
| "wire_access (Access_request_ok ticket) =
     concat [be16 ticket]"

fun valid_access :: "access_method \<Rightarrow> bool" where
  "valid_access (Access_request realm _ _ _ _ _) \<longleftrightarrow> short_str realm"
| "valid_access (Access_request_ok _) \<longleftrightarrow> True"

declare wire_access.simps [simp del]

section \<open>The contract\<close>

lemmas access_decoders = decode_access_request_def decode_access_request_ok_def

lemmas access_encoders = encode_access_request_def encode_access_request_ok_def

lemma encode_access_writes:
  "valid_access m \<Longrightarrow> \<exists>e. encode_access (access_number m) (Some m) = Some e \<and> writes e (wire_access m)"
  by (cases m; simp add: encode_access_def wire_access.simps access_encoders del: e_block.simps e_block_Cons concat.simps)
    (intro writes_concat; simp add: framing_writes)+

lemma encode_access_case: "\<exists>e. encode_access (access_number m) (Some m) = Some e"
  by (cases m) (simp_all add: encode_access_def)

lemma decode_access_case: "\<exists>d. decode_access (access_number m) = Some d"
  by (cases m) (simp_all add: decode_access_def)

lemma decode_access_reads:
  "valid_access m \<Longrightarrow> decode_access (access_number m) = Some d \<Longrightarrow> reads d (wire_access m) m"
  by (cases m; simp add: decode_access_def wire_access.simps access_decoders del: concat.simps; hypsubst)
    (rule reads_struct framing_reads | assumption | simp)+

lemma decode_access_guarded: "decode_access n = Some d \<Longrightarrow> guarded d"
  by (auto simp: decode_access_def access_decoders split: if_splits intro!: wire_intros)

lemma decode_access_number: "decode_access n = Some d \<Longrightarrow> returns d (\<lambda>m. access_number m = n)"
  by (auto simp: decode_access_def access_decoders split: if_splits intro!: returns_intros)

lemma decode_access_allocates: "decode_access n = Some d \<Longrightarrow> allocates d"
  by (auto simp: decode_access_def access_decoders allocates_struct split: if_splits)

interpretation access_class: method_class encode_access decode_access access_number wire_access valid_access 30
proof
  fix m
  show "\<exists>e. encode_access (access_number m) (Some m) = Some e \<and> (valid_access m \<longrightarrow> writes e (wire_access m))"
    using encode_access_writes encode_access_case by blast
  show "\<exists>d. decode_access (access_number m) = Some d \<and> (valid_access m \<longrightarrow> reads d (wire_access m) m)"
    using decode_access_reads decode_access_case by blast
  fix n mo
  show "encode_access n mo = None \<longleftrightarrow> decode_access n = None"
    unfolding encode_access_def decode_access_def by simp
qed (auto simp: decode_access_guarded decode_access_number decode_access_allocates encode_access_def decode_access_def
    split: if_splits)

end
