(* ===== verification/Framing_Exchange.thy ===== *)
theory Framing_Exchange
  imports Framing_Base
begin

text \<open>
  The methods of the exchange class (\<^verbatim>\<open>amqp_framing.h\<close>, \<^verbatim>\<open>amqp_framing.c\<close>): one
  constructor per method struct with its fields in the order of the struct, one decoder and one
  encoder per case of the two switches, the wire format the pair shares, and the interpretation of
  \<open>method_class\<close> on them. A method without fields has an encoder that writes nothing whatever
  struct it is given.
\<close>

section \<open>The exchange class\<close>

abbreviation AMQP_EXCHANGE_DECLARE_METHOD :: u32 where "AMQP_EXCHANGE_DECLARE_METHOD \<equiv> 0x0028000A"
abbreviation AMQP_EXCHANGE_DECLARE_OK_METHOD :: u32 where "AMQP_EXCHANGE_DECLARE_OK_METHOD \<equiv> 0x0028000B"
abbreviation AMQP_EXCHANGE_DELETE_METHOD :: u32 where "AMQP_EXCHANGE_DELETE_METHOD \<equiv> 0x00280014"
abbreviation AMQP_EXCHANGE_DELETE_OK_METHOD :: u32 where "AMQP_EXCHANGE_DELETE_OK_METHOD \<equiv> 0x00280015"
abbreviation AMQP_EXCHANGE_BIND_METHOD :: u32 where "AMQP_EXCHANGE_BIND_METHOD \<equiv> 0x0028001E"
abbreviation AMQP_EXCHANGE_BIND_OK_METHOD :: u32 where "AMQP_EXCHANGE_BIND_OK_METHOD \<equiv> 0x0028001F"
abbreviation AMQP_EXCHANGE_UNBIND_METHOD :: u32 where "AMQP_EXCHANGE_UNBIND_METHOD \<equiv> 0x00280028"
abbreviation AMQP_EXCHANGE_UNBIND_OK_METHOD :: u32 where "AMQP_EXCHANGE_UNBIND_OK_METHOD \<equiv> 0x00280033"

datatype exchange_method =
    Exchange_declare (exchange_declare_ticket: u16) (exchange_declare_exchange: amqp_bytes)
      (exchange_declare_type: amqp_bytes) (exchange_declare_passive: bool)
      (exchange_declare_durable: bool) (exchange_declare_auto_delete: bool)
      (exchange_declare_internal: bool) (exchange_declare_nowait: bool)
      (exchange_declare_arguments: amqp_table)
  | Exchange_declare_ok
  | Exchange_delete (exchange_delete_ticket: u16) (exchange_delete_exchange: amqp_bytes)
      (exchange_delete_if_unused: bool) (exchange_delete_nowait: bool)
  | Exchange_delete_ok
  | Exchange_bind (exchange_bind_ticket: u16) (exchange_bind_destination: amqp_bytes)
      (exchange_bind_source: amqp_bytes) (exchange_bind_routing_key: amqp_bytes)
      (exchange_bind_nowait: bool) (exchange_bind_arguments: amqp_table)
  | Exchange_bind_ok
  | Exchange_unbind (exchange_unbind_ticket: u16) (exchange_unbind_destination: amqp_bytes)
      (exchange_unbind_source: amqp_bytes) (exchange_unbind_routing_key: amqp_bytes)
      (exchange_unbind_nowait: bool) (exchange_unbind_arguments: amqp_table)
  | Exchange_unbind_ok

fun exchange_number :: "exchange_method \<Rightarrow> u32" where
  "exchange_number (Exchange_declare _ _ _ _ _ _ _ _ _) = AMQP_EXCHANGE_DECLARE_METHOD"
| "exchange_number Exchange_declare_ok = AMQP_EXCHANGE_DECLARE_OK_METHOD"
| "exchange_number (Exchange_delete _ _ _ _) = AMQP_EXCHANGE_DELETE_METHOD"
| "exchange_number Exchange_delete_ok = AMQP_EXCHANGE_DELETE_OK_METHOD"
| "exchange_number (Exchange_bind _ _ _ _ _ _) = AMQP_EXCHANGE_BIND_METHOD"
| "exchange_number Exchange_bind_ok = AMQP_EXCHANGE_BIND_OK_METHOD"
| "exchange_number (Exchange_unbind _ _ _ _ _ _) = AMQP_EXCHANGE_UNBIND_METHOD"
| "exchange_number Exchange_unbind_ok = AMQP_EXCHANGE_UNBIND_OK_METHOD"

section \<open>Decoding\<close>

definition decode_exchange_declare :: "exchange_method dec" where
  "decode_exchange_declare =
    d_bind (d_pool_alloc (sizeof_struct [C_uint16, C_bytes, C_bytes, C_boolean, C_boolean, C_boolean, C_boolean, C_boolean, C_table])) (\<lambda>_.
    d_bind d_16 (\<lambda>ticket.
    d_bind d_shortstr (\<lambda>exchange.
    d_bind d_shortstr (\<lambda>type.
    d_bind d_8 (\<lambda>bit_buffer.
    d_bind amqp_decode_table (\<lambda>arguments.
    d_return (Exchange_declare ticket exchange type (get_bit bit_buffer 0) (get_bit bit_buffer 1) (get_bit bit_buffer 2) (get_bit bit_buffer 3) (get_bit bit_buffer 4) arguments)))))))"

definition decode_exchange_declare_ok :: "exchange_method dec" where
  "decode_exchange_declare_ok =
    d_bind (d_pool_alloc (sizeof_struct [C_uint8])) (\<lambda>_.
    d_return Exchange_declare_ok)"

definition decode_exchange_delete :: "exchange_method dec" where
  "decode_exchange_delete =
    d_bind (d_pool_alloc (sizeof_struct [C_uint16, C_bytes, C_boolean, C_boolean])) (\<lambda>_.
    d_bind d_16 (\<lambda>ticket.
    d_bind d_shortstr (\<lambda>exchange.
    d_bind d_8 (\<lambda>bit_buffer.
    d_return (Exchange_delete ticket exchange (get_bit bit_buffer 0) (get_bit bit_buffer 1))))))"

definition decode_exchange_delete_ok :: "exchange_method dec" where
  "decode_exchange_delete_ok =
    d_bind (d_pool_alloc (sizeof_struct [C_uint8])) (\<lambda>_.
    d_return Exchange_delete_ok)"

definition decode_exchange_bind :: "exchange_method dec" where
  "decode_exchange_bind =
    d_bind (d_pool_alloc (sizeof_struct [C_uint16, C_bytes, C_bytes, C_bytes, C_boolean, C_table])) (\<lambda>_.
    d_bind d_16 (\<lambda>ticket.
    d_bind d_shortstr (\<lambda>destination.
    d_bind d_shortstr (\<lambda>source.
    d_bind d_shortstr (\<lambda>routing_key.
    d_bind d_8 (\<lambda>bit_buffer.
    d_bind amqp_decode_table (\<lambda>arguments.
    d_return (Exchange_bind ticket destination source routing_key (get_bit bit_buffer 0) arguments))))))))"

definition decode_exchange_bind_ok :: "exchange_method dec" where
  "decode_exchange_bind_ok =
    d_bind (d_pool_alloc (sizeof_struct [C_uint8])) (\<lambda>_.
    d_return Exchange_bind_ok)"

definition decode_exchange_unbind :: "exchange_method dec" where
  "decode_exchange_unbind =
    d_bind (d_pool_alloc (sizeof_struct [C_uint16, C_bytes, C_bytes, C_bytes, C_boolean, C_table])) (\<lambda>_.
    d_bind d_16 (\<lambda>ticket.
    d_bind d_shortstr (\<lambda>destination.
    d_bind d_shortstr (\<lambda>source.
    d_bind d_shortstr (\<lambda>routing_key.
    d_bind d_8 (\<lambda>bit_buffer.
    d_bind amqp_decode_table (\<lambda>arguments.
    d_return (Exchange_unbind ticket destination source routing_key (get_bit bit_buffer 0) arguments))))))))"

definition decode_exchange_unbind_ok :: "exchange_method dec" where
  "decode_exchange_unbind_ok =
    d_bind (d_pool_alloc (sizeof_struct [C_uint8])) (\<lambda>_.
    d_return Exchange_unbind_ok)"

definition decode_exchange :: "u32 \<Rightarrow> exchange_method dec option" where
  "decode_exchange methodNumber =
    (if methodNumber = AMQP_EXCHANGE_DECLARE_METHOD then Some decode_exchange_declare
     else if methodNumber = AMQP_EXCHANGE_DECLARE_OK_METHOD then Some decode_exchange_declare_ok
     else if methodNumber = AMQP_EXCHANGE_DELETE_METHOD then Some decode_exchange_delete
     else if methodNumber = AMQP_EXCHANGE_DELETE_OK_METHOD then Some decode_exchange_delete_ok
     else if methodNumber = AMQP_EXCHANGE_BIND_METHOD then Some decode_exchange_bind
     else if methodNumber = AMQP_EXCHANGE_BIND_OK_METHOD then Some decode_exchange_bind_ok
     else if methodNumber = AMQP_EXCHANGE_UNBIND_METHOD then Some decode_exchange_unbind
     else if methodNumber = AMQP_EXCHANGE_UNBIND_OK_METHOD then Some decode_exchange_unbind_ok
     else None)"

section \<open>Encoding\<close>

definition encode_exchange_declare :: "u16 \<Rightarrow> amqp_bytes \<Rightarrow> amqp_bytes \<Rightarrow> bool \<Rightarrow> bool \<Rightarrow> bool \<Rightarrow> bool \<Rightarrow> bool \<Rightarrow> amqp_table \<Rightarrow> enc" where
  "encode_exchange_declare ticket exchange type passive durable auto_delete internal nowait arguments =
    e_block
      [e_16 ticket,
       e_shortstr exchange,
       e_shortstr type,
       e_8 (put_bit nowait 4 (put_bit internal 3 (put_bit auto_delete 2 (put_bit durable 1 (put_bit passive 0 0))))),
       amqp_encode_table arguments]"

definition encode_exchange_delete :: "u16 \<Rightarrow> amqp_bytes \<Rightarrow> bool \<Rightarrow> bool \<Rightarrow> enc" where
  "encode_exchange_delete ticket exchange if_unused nowait =
    e_block
      [e_16 ticket,
       e_shortstr exchange,
       e_8 (put_bit nowait 1 (put_bit if_unused 0 0))]"

definition encode_exchange_bind :: "u16 \<Rightarrow> amqp_bytes \<Rightarrow> amqp_bytes \<Rightarrow> amqp_bytes \<Rightarrow> bool \<Rightarrow> amqp_table \<Rightarrow> enc" where
  "encode_exchange_bind ticket destination source routing_key nowait arguments =
    e_block
      [e_16 ticket,
       e_shortstr destination,
       e_shortstr source,
       e_shortstr routing_key,
       e_8 (put_bit nowait 0 0),
       amqp_encode_table arguments]"

definition encode_exchange_unbind :: "u16 \<Rightarrow> amqp_bytes \<Rightarrow> amqp_bytes \<Rightarrow> amqp_bytes \<Rightarrow> bool \<Rightarrow> amqp_table \<Rightarrow> enc" where
  "encode_exchange_unbind ticket destination source routing_key nowait arguments =
    e_block
      [e_16 ticket,
       e_shortstr destination,
       e_shortstr source,
       e_shortstr routing_key,
       e_8 (put_bit nowait 0 0),
       amqp_encode_table arguments]"

definition encode_exchange :: "u32 \<Rightarrow> exchange_method option \<Rightarrow> enc option" where
  "encode_exchange methodNumber decoded =
    (if methodNumber = AMQP_EXCHANGE_DECLARE_METHOD then
       Some (case decoded of
           Some (Exchange_declare ticket exchange type passive durable auto_delete internal nowait arguments) \<Rightarrow> encode_exchange_declare ticket exchange type passive durable auto_delete internal nowait arguments
         | _ \<Rightarrow> e_undefined)
     else if methodNumber = AMQP_EXCHANGE_DECLARE_OK_METHOD then Some (e_block [])
     else if methodNumber = AMQP_EXCHANGE_DELETE_METHOD then
       Some (case decoded of
           Some (Exchange_delete ticket exchange if_unused nowait) \<Rightarrow> encode_exchange_delete ticket exchange if_unused nowait
         | _ \<Rightarrow> e_undefined)
     else if methodNumber = AMQP_EXCHANGE_DELETE_OK_METHOD then Some (e_block [])
     else if methodNumber = AMQP_EXCHANGE_BIND_METHOD then
       Some (case decoded of
           Some (Exchange_bind ticket destination source routing_key nowait arguments) \<Rightarrow> encode_exchange_bind ticket destination source routing_key nowait arguments
         | _ \<Rightarrow> e_undefined)
     else if methodNumber = AMQP_EXCHANGE_BIND_OK_METHOD then Some (e_block [])
     else if methodNumber = AMQP_EXCHANGE_UNBIND_METHOD then
       Some (case decoded of
           Some (Exchange_unbind ticket destination source routing_key nowait arguments) \<Rightarrow> encode_exchange_unbind ticket destination source routing_key nowait arguments
         | _ \<Rightarrow> e_undefined)
     else if methodNumber = AMQP_EXCHANGE_UNBIND_OK_METHOD then Some (e_block [])
     else None)"

section \<open>Wire format\<close>

fun wire_exchange :: "exchange_method \<Rightarrow> amqp_bytes" where
  "wire_exchange (Exchange_declare ticket exchange type passive durable auto_delete internal nowait arguments) =
     concat [be16 ticket, wire_shortstr exchange, wire_shortstr type, [put_bit nowait 4 (put_bit internal 3 (put_bit auto_delete 2 (put_bit durable 1 (put_bit passive 0 0))))], wire_table arguments]"
| "wire_exchange Exchange_declare_ok =
     concat []"
| "wire_exchange (Exchange_delete ticket exchange if_unused nowait) =
     concat [be16 ticket, wire_shortstr exchange, [put_bit nowait 1 (put_bit if_unused 0 0)]]"
| "wire_exchange Exchange_delete_ok =
     concat []"
| "wire_exchange (Exchange_bind ticket destination source routing_key nowait arguments) =
     concat [be16 ticket, wire_shortstr destination, wire_shortstr source, wire_shortstr routing_key, [put_bit nowait 0 0], wire_table arguments]"
| "wire_exchange Exchange_bind_ok =
     concat []"
| "wire_exchange (Exchange_unbind ticket destination source routing_key nowait arguments) =
     concat [be16 ticket, wire_shortstr destination, wire_shortstr source, wire_shortstr routing_key, [put_bit nowait 0 0], wire_table arguments]"
| "wire_exchange Exchange_unbind_ok =
     concat []"

fun valid_exchange :: "exchange_method \<Rightarrow> bool" where
  "valid_exchange (Exchange_declare _ exchange type _ _ _ _ _ arguments) \<longleftrightarrow> short_str exchange \<and> short_str type \<and> valid_table arguments"
| "valid_exchange Exchange_declare_ok \<longleftrightarrow> True"
| "valid_exchange (Exchange_delete _ exchange _ _) \<longleftrightarrow> short_str exchange"
| "valid_exchange Exchange_delete_ok \<longleftrightarrow> True"
| "valid_exchange (Exchange_bind _ destination source routing_key _ arguments) \<longleftrightarrow> short_str destination \<and> short_str source \<and> short_str routing_key \<and> valid_table arguments"
| "valid_exchange Exchange_bind_ok \<longleftrightarrow> True"
| "valid_exchange (Exchange_unbind _ destination source routing_key _ arguments) \<longleftrightarrow> short_str destination \<and> short_str source \<and> short_str routing_key \<and> valid_table arguments"
| "valid_exchange Exchange_unbind_ok \<longleftrightarrow> True"

declare wire_exchange.simps [simp del]

section \<open>The contract\<close>

lemmas exchange_decoders = decode_exchange_declare_def decode_exchange_declare_ok_def
  decode_exchange_delete_def decode_exchange_delete_ok_def decode_exchange_bind_def
  decode_exchange_bind_ok_def decode_exchange_unbind_def decode_exchange_unbind_ok_def

lemmas exchange_encoders = encode_exchange_declare_def encode_exchange_delete_def
  encode_exchange_bind_def encode_exchange_unbind_def

lemma encode_exchange_writes:
  "valid_exchange m \<Longrightarrow> \<exists>e. encode_exchange (exchange_number m) (Some m) = Some e \<and> writes e (wire_exchange m)"
  by (cases m; simp add: encode_exchange_def wire_exchange.simps exchange_encoders del: e_block.simps e_block_Cons concat.simps)
    (intro writes_concat; simp add: framing_writes)+

lemma encode_exchange_case: "\<exists>e. encode_exchange (exchange_number m) (Some m) = Some e"
  by (cases m) (simp_all add: encode_exchange_def)

lemma decode_exchange_case: "\<exists>d. decode_exchange (exchange_number m) = Some d"
  by (cases m) (simp_all add: decode_exchange_def)

lemma decode_exchange_reads:
  "valid_exchange m \<Longrightarrow> decode_exchange (exchange_number m) = Some d \<Longrightarrow> reads d (wire_exchange m) m"
  by (cases m; simp add: decode_exchange_def wire_exchange.simps exchange_decoders del: concat.simps; hypsubst)
    (rule reads_struct framing_reads | assumption | simp)+

lemma decode_exchange_guarded: "decode_exchange n = Some d \<Longrightarrow> guarded d"
  by (auto simp: decode_exchange_def exchange_decoders split: if_splits intro!: wire_intros)

lemma decode_exchange_number: "decode_exchange n = Some d \<Longrightarrow> returns d (\<lambda>m. exchange_number m = n)"
  by (auto simp: decode_exchange_def exchange_decoders split: if_splits intro!: returns_intros)

lemma decode_exchange_allocates: "decode_exchange n = Some d \<Longrightarrow> allocates d"
  by (auto simp: decode_exchange_def exchange_decoders allocates_struct split: if_splits)

interpretation exchange_class: method_class encode_exchange decode_exchange exchange_number wire_exchange valid_exchange 40
proof
  fix m
  show "\<exists>e. encode_exchange (exchange_number m) (Some m) = Some e \<and> (valid_exchange m \<longrightarrow> writes e (wire_exchange m))"
    using encode_exchange_writes encode_exchange_case by blast
  show "\<exists>d. decode_exchange (exchange_number m) = Some d \<and> (valid_exchange m \<longrightarrow> reads d (wire_exchange m) m)"
    using decode_exchange_reads decode_exchange_case by blast
  fix n mo
  show "encode_exchange n mo = None \<longleftrightarrow> decode_exchange n = None"
    unfolding encode_exchange_def decode_exchange_def by simp
qed (auto simp: decode_exchange_guarded decode_exchange_number decode_exchange_allocates encode_exchange_def decode_exchange_def
    split: if_splits)

end
