(* ===== verification/Framing_Queue.thy ===== *)
theory Framing_Queue
  imports Framing_Base
begin

text \<open>
  The methods of the queue class (\<^verbatim>\<open>amqp_framing.h\<close>, \<^verbatim>\<open>amqp_framing.c\<close>): one
  constructor per method struct with its fields in the order of the struct, one decoder and one
  encoder per case of the two switches, the wire format the pair shares, and the interpretation of
  \<open>method_class\<close> on them. A method without fields has an encoder that writes nothing whatever
  struct it is given.
\<close>

section \<open>The queue class\<close>

abbreviation AMQP_QUEUE_DECLARE_METHOD :: u32 where "AMQP_QUEUE_DECLARE_METHOD \<equiv> 0x0032000A"
abbreviation AMQP_QUEUE_DECLARE_OK_METHOD :: u32 where "AMQP_QUEUE_DECLARE_OK_METHOD \<equiv> 0x0032000B"
abbreviation AMQP_QUEUE_BIND_METHOD :: u32 where "AMQP_QUEUE_BIND_METHOD \<equiv> 0x00320014"
abbreviation AMQP_QUEUE_BIND_OK_METHOD :: u32 where "AMQP_QUEUE_BIND_OK_METHOD \<equiv> 0x00320015"
abbreviation AMQP_QUEUE_PURGE_METHOD :: u32 where "AMQP_QUEUE_PURGE_METHOD \<equiv> 0x0032001E"
abbreviation AMQP_QUEUE_PURGE_OK_METHOD :: u32 where "AMQP_QUEUE_PURGE_OK_METHOD \<equiv> 0x0032001F"
abbreviation AMQP_QUEUE_DELETE_METHOD :: u32 where "AMQP_QUEUE_DELETE_METHOD \<equiv> 0x00320028"
abbreviation AMQP_QUEUE_DELETE_OK_METHOD :: u32 where "AMQP_QUEUE_DELETE_OK_METHOD \<equiv> 0x00320029"
abbreviation AMQP_QUEUE_UNBIND_METHOD :: u32 where "AMQP_QUEUE_UNBIND_METHOD \<equiv> 0x00320032"
abbreviation AMQP_QUEUE_UNBIND_OK_METHOD :: u32 where "AMQP_QUEUE_UNBIND_OK_METHOD \<equiv> 0x00320033"

datatype queue_method =
    Queue_declare (queue_declare_ticket: u16) (queue_declare_queue: amqp_bytes)
      (queue_declare_passive: bool) (queue_declare_durable: bool) (queue_declare_exclusive: bool)
      (queue_declare_auto_delete: bool) (queue_declare_nowait: bool)
      (queue_declare_arguments: amqp_table)
  | Queue_declare_ok (queue_declare_ok_queue: amqp_bytes) (queue_declare_ok_message_count: u32)
      (queue_declare_ok_consumer_count: u32)
  | Queue_bind (queue_bind_ticket: u16) (queue_bind_queue: amqp_bytes)
      (queue_bind_exchange: amqp_bytes) (queue_bind_routing_key: amqp_bytes)
      (queue_bind_nowait: bool) (queue_bind_arguments: amqp_table)
  | Queue_bind_ok
  | Queue_purge (queue_purge_ticket: u16) (queue_purge_queue: amqp_bytes) (queue_purge_nowait: bool)
  | Queue_purge_ok (queue_purge_ok_message_count: u32)
  | Queue_delete (queue_delete_ticket: u16) (queue_delete_queue: amqp_bytes)
      (queue_delete_if_unused: bool) (queue_delete_if_empty: bool) (queue_delete_nowait: bool)
  | Queue_delete_ok (queue_delete_ok_message_count: u32)
  | Queue_unbind (queue_unbind_ticket: u16) (queue_unbind_queue: amqp_bytes)
      (queue_unbind_exchange: amqp_bytes) (queue_unbind_routing_key: amqp_bytes)
      (queue_unbind_arguments: amqp_table)
  | Queue_unbind_ok

fun queue_number :: "queue_method \<Rightarrow> u32" where
  "queue_number (Queue_declare _ _ _ _ _ _ _ _) = AMQP_QUEUE_DECLARE_METHOD"
| "queue_number (Queue_declare_ok _ _ _) = AMQP_QUEUE_DECLARE_OK_METHOD"
| "queue_number (Queue_bind _ _ _ _ _ _) = AMQP_QUEUE_BIND_METHOD"
| "queue_number Queue_bind_ok = AMQP_QUEUE_BIND_OK_METHOD"
| "queue_number (Queue_purge _ _ _) = AMQP_QUEUE_PURGE_METHOD"
| "queue_number (Queue_purge_ok _) = AMQP_QUEUE_PURGE_OK_METHOD"
| "queue_number (Queue_delete _ _ _ _ _) = AMQP_QUEUE_DELETE_METHOD"
| "queue_number (Queue_delete_ok _) = AMQP_QUEUE_DELETE_OK_METHOD"
| "queue_number (Queue_unbind _ _ _ _ _) = AMQP_QUEUE_UNBIND_METHOD"
| "queue_number Queue_unbind_ok = AMQP_QUEUE_UNBIND_OK_METHOD"

section \<open>Decoding\<close>

definition decode_queue_declare :: "queue_method dec" where
  "decode_queue_declare =
    d_bind (d_pool_alloc (sizeof_struct [C_uint16, C_bytes, C_boolean, C_boolean, C_boolean, C_boolean, C_boolean, C_table])) (\<lambda>_.
    d_bind d_16 (\<lambda>ticket.
    d_bind d_shortstr (\<lambda>queue.
    d_bind d_8 (\<lambda>bit_buffer.
    d_bind amqp_decode_table (\<lambda>arguments.
    d_return (Queue_declare ticket queue (get_bit bit_buffer 0) (get_bit bit_buffer 1) (get_bit bit_buffer 2) (get_bit bit_buffer 3) (get_bit bit_buffer 4) arguments))))))"

definition decode_queue_declare_ok :: "queue_method dec" where
  "decode_queue_declare_ok =
    d_bind (d_pool_alloc (sizeof_struct [C_bytes, C_uint32, C_uint32])) (\<lambda>_.
    d_bind d_shortstr (\<lambda>queue.
    d_bind d_32 (\<lambda>message_count.
    d_bind d_32 (\<lambda>consumer_count.
    d_return (Queue_declare_ok queue message_count consumer_count)))))"

definition decode_queue_bind :: "queue_method dec" where
  "decode_queue_bind =
    d_bind (d_pool_alloc (sizeof_struct [C_uint16, C_bytes, C_bytes, C_bytes, C_boolean, C_table])) (\<lambda>_.
    d_bind d_16 (\<lambda>ticket.
    d_bind d_shortstr (\<lambda>queue.
    d_bind d_shortstr (\<lambda>exchange.
    d_bind d_shortstr (\<lambda>routing_key.
    d_bind d_8 (\<lambda>bit_buffer.
    d_bind amqp_decode_table (\<lambda>arguments.
    d_return (Queue_bind ticket queue exchange routing_key (get_bit bit_buffer 0) arguments))))))))"

definition decode_queue_bind_ok :: "queue_method dec" where
  "decode_queue_bind_ok =
    d_bind (d_pool_alloc (sizeof_struct [C_uint8])) (\<lambda>_.
    d_return Queue_bind_ok)"

definition decode_queue_purge :: "queue_method dec" where
  "decode_queue_purge =
    d_bind (d_pool_alloc (sizeof_struct [C_uint16, C_bytes, C_boolean])) (\<lambda>_.
    d_bind d_16 (\<lambda>ticket.
    d_bind d_shortstr (\<lambda>queue.
    d_bind d_8 (\<lambda>bit_buffer.
    d_return (Queue_purge ticket queue (get_bit bit_buffer 0))))))"

definition decode_queue_purge_ok :: "queue_method dec" where
  "decode_queue_purge_ok =
    d_bind (d_pool_alloc (sizeof_struct [C_uint32])) (\<lambda>_.
    d_bind d_32 (\<lambda>message_count.
    d_return (Queue_purge_ok message_count)))"

definition decode_queue_delete :: "queue_method dec" where
  "decode_queue_delete =
    d_bind (d_pool_alloc (sizeof_struct [C_uint16, C_bytes, C_boolean, C_boolean, C_boolean])) (\<lambda>_.
    d_bind d_16 (\<lambda>ticket.
    d_bind d_shortstr (\<lambda>queue.
    d_bind d_8 (\<lambda>bit_buffer.
    d_return (Queue_delete ticket queue (get_bit bit_buffer 0) (get_bit bit_buffer 1) (get_bit bit_buffer 2))))))"

definition decode_queue_delete_ok :: "queue_method dec" where
  "decode_queue_delete_ok =
    d_bind (d_pool_alloc (sizeof_struct [C_uint32])) (\<lambda>_.
    d_bind d_32 (\<lambda>message_count.
    d_return (Queue_delete_ok message_count)))"

definition decode_queue_unbind :: "queue_method dec" where
  "decode_queue_unbind =
    d_bind (d_pool_alloc (sizeof_struct [C_uint16, C_bytes, C_bytes, C_bytes, C_table])) (\<lambda>_.
    d_bind d_16 (\<lambda>ticket.
    d_bind d_shortstr (\<lambda>queue.
    d_bind d_shortstr (\<lambda>exchange.
    d_bind d_shortstr (\<lambda>routing_key.
    d_bind amqp_decode_table (\<lambda>arguments.
    d_return (Queue_unbind ticket queue exchange routing_key arguments)))))))"

definition decode_queue_unbind_ok :: "queue_method dec" where
  "decode_queue_unbind_ok =
    d_bind (d_pool_alloc (sizeof_struct [C_uint8])) (\<lambda>_.
    d_return Queue_unbind_ok)"

definition decode_queue :: "u32 \<Rightarrow> queue_method dec option" where
  "decode_queue methodNumber =
    (if methodNumber = AMQP_QUEUE_DECLARE_METHOD then Some decode_queue_declare
     else if methodNumber = AMQP_QUEUE_DECLARE_OK_METHOD then Some decode_queue_declare_ok
     else if methodNumber = AMQP_QUEUE_BIND_METHOD then Some decode_queue_bind
     else if methodNumber = AMQP_QUEUE_BIND_OK_METHOD then Some decode_queue_bind_ok
     else if methodNumber = AMQP_QUEUE_PURGE_METHOD then Some decode_queue_purge
     else if methodNumber = AMQP_QUEUE_PURGE_OK_METHOD then Some decode_queue_purge_ok
     else if methodNumber = AMQP_QUEUE_DELETE_METHOD then Some decode_queue_delete
     else if methodNumber = AMQP_QUEUE_DELETE_OK_METHOD then Some decode_queue_delete_ok
     else if methodNumber = AMQP_QUEUE_UNBIND_METHOD then Some decode_queue_unbind
     else if methodNumber = AMQP_QUEUE_UNBIND_OK_METHOD then Some decode_queue_unbind_ok
     else None)"

section \<open>Encoding\<close>

definition encode_queue_declare :: "u16 \<Rightarrow> amqp_bytes \<Rightarrow> bool \<Rightarrow> bool \<Rightarrow> bool \<Rightarrow> bool \<Rightarrow> bool \<Rightarrow> amqp_table \<Rightarrow> enc" where
  "encode_queue_declare ticket queue passive durable exclusive auto_delete nowait arguments =
    e_block
      [e_16 ticket,
       e_shortstr queue,
       e_8 (put_bit nowait 4 (put_bit auto_delete 3 (put_bit exclusive 2 (put_bit durable 1 (put_bit passive 0 0))))),
       amqp_encode_table arguments]"

definition encode_queue_declare_ok :: "amqp_bytes \<Rightarrow> u32 \<Rightarrow> u32 \<Rightarrow> enc" where
  "encode_queue_declare_ok queue message_count consumer_count =
    e_block
      [e_shortstr queue,
       e_32 message_count,
       e_32 consumer_count]"

definition encode_queue_bind :: "u16 \<Rightarrow> amqp_bytes \<Rightarrow> amqp_bytes \<Rightarrow> amqp_bytes \<Rightarrow> bool \<Rightarrow> amqp_table \<Rightarrow> enc" where
  "encode_queue_bind ticket queue exchange routing_key nowait arguments =
    e_block
      [e_16 ticket,
       e_shortstr queue,
       e_shortstr exchange,
       e_shortstr routing_key,
       e_8 (put_bit nowait 0 0),
       amqp_encode_table arguments]"

definition encode_queue_purge :: "u16 \<Rightarrow> amqp_bytes \<Rightarrow> bool \<Rightarrow> enc" where
  "encode_queue_purge ticket queue nowait =
    e_block
      [e_16 ticket,
       e_shortstr queue,
       e_8 (put_bit nowait 0 0)]"

definition encode_queue_purge_ok :: "u32 \<Rightarrow> enc" where
  "encode_queue_purge_ok message_count =
    e_block
      [e_32 message_count]"

definition encode_queue_delete :: "u16 \<Rightarrow> amqp_bytes \<Rightarrow> bool \<Rightarrow> bool \<Rightarrow> bool \<Rightarrow> enc" where
  "encode_queue_delete ticket queue if_unused if_empty nowait =
    e_block
      [e_16 ticket,
       e_shortstr queue,
       e_8 (put_bit nowait 2 (put_bit if_empty 1 (put_bit if_unused 0 0)))]"

definition encode_queue_delete_ok :: "u32 \<Rightarrow> enc" where
  "encode_queue_delete_ok message_count =
    e_block
      [e_32 message_count]"

definition encode_queue_unbind :: "u16 \<Rightarrow> amqp_bytes \<Rightarrow> amqp_bytes \<Rightarrow> amqp_bytes \<Rightarrow> amqp_table \<Rightarrow> enc" where
  "encode_queue_unbind ticket queue exchange routing_key arguments =
    e_block
      [e_16 ticket,
       e_shortstr queue,
       e_shortstr exchange,
       e_shortstr routing_key,
       amqp_encode_table arguments]"

definition encode_queue :: "u32 \<Rightarrow> queue_method option \<Rightarrow> enc option" where
  "encode_queue methodNumber decoded =
    (if methodNumber = AMQP_QUEUE_DECLARE_METHOD then
       Some (case decoded of
           Some (Queue_declare ticket queue passive durable exclusive auto_delete nowait arguments) \<Rightarrow> encode_queue_declare ticket queue passive durable exclusive auto_delete nowait arguments
         | _ \<Rightarrow> e_undefined)
     else if methodNumber = AMQP_QUEUE_DECLARE_OK_METHOD then
       Some (case decoded of
           Some (Queue_declare_ok queue message_count consumer_count) \<Rightarrow> encode_queue_declare_ok queue message_count consumer_count
         | _ \<Rightarrow> e_undefined)
     else if methodNumber = AMQP_QUEUE_BIND_METHOD then
       Some (case decoded of
           Some (Queue_bind ticket queue exchange routing_key nowait arguments) \<Rightarrow> encode_queue_bind ticket queue exchange routing_key nowait arguments
         | _ \<Rightarrow> e_undefined)
     else if methodNumber = AMQP_QUEUE_BIND_OK_METHOD then Some (e_block [])
     else if methodNumber = AMQP_QUEUE_PURGE_METHOD then
       Some (case decoded of
           Some (Queue_purge ticket queue nowait) \<Rightarrow> encode_queue_purge ticket queue nowait
         | _ \<Rightarrow> e_undefined)
     else if methodNumber = AMQP_QUEUE_PURGE_OK_METHOD then
       Some (case decoded of
           Some (Queue_purge_ok message_count) \<Rightarrow> encode_queue_purge_ok message_count
         | _ \<Rightarrow> e_undefined)
     else if methodNumber = AMQP_QUEUE_DELETE_METHOD then
       Some (case decoded of
           Some (Queue_delete ticket queue if_unused if_empty nowait) \<Rightarrow> encode_queue_delete ticket queue if_unused if_empty nowait
         | _ \<Rightarrow> e_undefined)
     else if methodNumber = AMQP_QUEUE_DELETE_OK_METHOD then
       Some (case decoded of
           Some (Queue_delete_ok message_count) \<Rightarrow> encode_queue_delete_ok message_count
         | _ \<Rightarrow> e_undefined)
     else if methodNumber = AMQP_QUEUE_UNBIND_METHOD then
       Some (case decoded of
           Some (Queue_unbind ticket queue exchange routing_key arguments) \<Rightarrow> encode_queue_unbind ticket queue exchange routing_key arguments
         | _ \<Rightarrow> e_undefined)
     else if methodNumber = AMQP_QUEUE_UNBIND_OK_METHOD then Some (e_block [])
     else None)"

section \<open>Wire format\<close>

fun wire_queue :: "queue_method \<Rightarrow> amqp_bytes" where
  "wire_queue (Queue_declare ticket queue passive durable exclusive auto_delete nowait arguments) =
     concat [be16 ticket, wire_shortstr queue, [put_bit nowait 4 (put_bit auto_delete 3 (put_bit exclusive 2 (put_bit durable 1 (put_bit passive 0 0))))], wire_table arguments]"
| "wire_queue (Queue_declare_ok queue message_count consumer_count) =
     concat [wire_shortstr queue, be32 message_count, be32 consumer_count]"
| "wire_queue (Queue_bind ticket queue exchange routing_key nowait arguments) =
     concat [be16 ticket, wire_shortstr queue, wire_shortstr exchange, wire_shortstr routing_key, [put_bit nowait 0 0], wire_table arguments]"
| "wire_queue Queue_bind_ok =
     concat []"
| "wire_queue (Queue_purge ticket queue nowait) =
     concat [be16 ticket, wire_shortstr queue, [put_bit nowait 0 0]]"
| "wire_queue (Queue_purge_ok message_count) =
     concat [be32 message_count]"
| "wire_queue (Queue_delete ticket queue if_unused if_empty nowait) =
     concat [be16 ticket, wire_shortstr queue, [put_bit nowait 2 (put_bit if_empty 1 (put_bit if_unused 0 0))]]"
| "wire_queue (Queue_delete_ok message_count) =
     concat [be32 message_count]"
| "wire_queue (Queue_unbind ticket queue exchange routing_key arguments) =
     concat [be16 ticket, wire_shortstr queue, wire_shortstr exchange, wire_shortstr routing_key, wire_table arguments]"
| "wire_queue Queue_unbind_ok =
     concat []"

fun valid_queue :: "queue_method \<Rightarrow> bool" where
  "valid_queue (Queue_declare _ queue _ _ _ _ _ arguments) \<longleftrightarrow> short_str queue \<and> valid_table arguments"
| "valid_queue (Queue_declare_ok queue _ _) \<longleftrightarrow> short_str queue"
| "valid_queue (Queue_bind _ queue exchange routing_key _ arguments) \<longleftrightarrow> short_str queue \<and> short_str exchange \<and> short_str routing_key \<and> valid_table arguments"
| "valid_queue Queue_bind_ok \<longleftrightarrow> True"
| "valid_queue (Queue_purge _ queue _) \<longleftrightarrow> short_str queue"
| "valid_queue (Queue_purge_ok _) \<longleftrightarrow> True"
| "valid_queue (Queue_delete _ queue _ _ _) \<longleftrightarrow> short_str queue"
| "valid_queue (Queue_delete_ok _) \<longleftrightarrow> True"
| "valid_queue (Queue_unbind _ queue exchange routing_key arguments) \<longleftrightarrow> short_str queue \<and> short_str exchange \<and> short_str routing_key \<and> valid_table arguments"
| "valid_queue Queue_unbind_ok \<longleftrightarrow> True"

declare wire_queue.simps [simp del]

section \<open>The contract\<close>

lemmas queue_decoders = decode_queue_declare_def decode_queue_declare_ok_def decode_queue_bind_def
  decode_queue_bind_ok_def decode_queue_purge_def decode_queue_purge_ok_def
  decode_queue_delete_def decode_queue_delete_ok_def decode_queue_unbind_def
  decode_queue_unbind_ok_def

lemmas queue_encoders = encode_queue_declare_def encode_queue_declare_ok_def encode_queue_bind_def
  encode_queue_purge_def encode_queue_purge_ok_def encode_queue_delete_def
  encode_queue_delete_ok_def encode_queue_unbind_def

lemma encode_queue_writes:
  "valid_queue m \<Longrightarrow> \<exists>e. encode_queue (queue_number m) (Some m) = Some e \<and> writes e (wire_queue m)"
  by (cases m; simp add: encode_queue_def wire_queue.simps queue_encoders del: e_block.simps e_block_Cons concat.simps)
    (intro writes_concat; simp add: framing_writes)+

lemma encode_queue_case: "\<exists>e. encode_queue (queue_number m) (Some m) = Some e"
  by (cases m) (simp_all add: encode_queue_def)

lemma decode_queue_case: "\<exists>d. decode_queue (queue_number m) = Some d"
  by (cases m) (simp_all add: decode_queue_def)

lemma decode_queue_reads:
  "valid_queue m \<Longrightarrow> decode_queue (queue_number m) = Some d \<Longrightarrow> reads d (wire_queue m) m"
  by (cases m; simp add: decode_queue_def wire_queue.simps queue_decoders del: concat.simps; hypsubst)
    (rule reads_struct framing_reads | assumption | simp)+

lemma decode_queue_guarded: "decode_queue n = Some d \<Longrightarrow> guarded d"
  by (auto simp: decode_queue_def queue_decoders split: if_splits intro!: wire_intros)

lemma decode_queue_number: "decode_queue n = Some d \<Longrightarrow> returns d (\<lambda>m. queue_number m = n)"
  by (auto simp: decode_queue_def queue_decoders split: if_splits intro!: returns_intros)

lemma decode_queue_allocates: "decode_queue n = Some d \<Longrightarrow> allocates d"
  by (auto simp: decode_queue_def queue_decoders allocates_struct split: if_splits)

interpretation queue_class: method_class encode_queue decode_queue queue_number wire_queue valid_queue 50
proof
  fix m
  show "\<exists>e. encode_queue (queue_number m) (Some m) = Some e \<and> (valid_queue m \<longrightarrow> writes e (wire_queue m))"
    using encode_queue_writes encode_queue_case by blast
  show "\<exists>d. decode_queue (queue_number m) = Some d \<and> (valid_queue m \<longrightarrow> reads d (wire_queue m) m)"
    using decode_queue_reads decode_queue_case by blast
  fix n mo
  show "encode_queue n mo = None \<longleftrightarrow> decode_queue n = None"
    unfolding encode_queue_def decode_queue_def by simp
qed (auto simp: decode_queue_guarded decode_queue_number decode_queue_allocates encode_queue_def decode_queue_def
    split: if_splits)

end
