(* ===== verification/Framing_Basic.thy ===== *)
theory Framing_Basic
  imports Framing_Base
begin

text \<open>
  The methods of the basic class (\<^verbatim>\<open>amqp_framing.h\<close>, \<^verbatim>\<open>amqp_framing.c\<close>): one
  constructor per method struct with its fields in the order of the struct, one decoder and one
  encoder per case of the two switches, the wire format the pair shares, and the interpretation of
  \<open>method_class\<close> on them. A method without fields has an encoder that writes nothing whatever
  struct it is given.
\<close>

section \<open>The basic class\<close>

abbreviation AMQP_BASIC_QOS_METHOD :: u32 where "AMQP_BASIC_QOS_METHOD \<equiv> 0x003C000A"
abbreviation AMQP_BASIC_QOS_OK_METHOD :: u32 where "AMQP_BASIC_QOS_OK_METHOD \<equiv> 0x003C000B"
abbreviation AMQP_BASIC_CONSUME_METHOD :: u32 where "AMQP_BASIC_CONSUME_METHOD \<equiv> 0x003C0014"
abbreviation AMQP_BASIC_CONSUME_OK_METHOD :: u32 where "AMQP_BASIC_CONSUME_OK_METHOD \<equiv> 0x003C0015"
abbreviation AMQP_BASIC_CANCEL_METHOD :: u32 where "AMQP_BASIC_CANCEL_METHOD \<equiv> 0x003C001E"
abbreviation AMQP_BASIC_CANCEL_OK_METHOD :: u32 where "AMQP_BASIC_CANCEL_OK_METHOD \<equiv> 0x003C001F"
abbreviation AMQP_BASIC_PUBLISH_METHOD :: u32 where "AMQP_BASIC_PUBLISH_METHOD \<equiv> 0x003C0028"
abbreviation AMQP_BASIC_RETURN_METHOD :: u32 where "AMQP_BASIC_RETURN_METHOD \<equiv> 0x003C0032"
abbreviation AMQP_BASIC_DELIVER_METHOD :: u32 where "AMQP_BASIC_DELIVER_METHOD \<equiv> 0x003C003C"
abbreviation AMQP_BASIC_GET_METHOD :: u32 where "AMQP_BASIC_GET_METHOD \<equiv> 0x003C0046"
abbreviation AMQP_BASIC_GET_OK_METHOD :: u32 where "AMQP_BASIC_GET_OK_METHOD \<equiv> 0x003C0047"
abbreviation AMQP_BASIC_GET_EMPTY_METHOD :: u32 where "AMQP_BASIC_GET_EMPTY_METHOD \<equiv> 0x003C0048"
abbreviation AMQP_BASIC_ACK_METHOD :: u32 where "AMQP_BASIC_ACK_METHOD \<equiv> 0x003C0050"
abbreviation AMQP_BASIC_REJECT_METHOD :: u32 where "AMQP_BASIC_REJECT_METHOD \<equiv> 0x003C005A"
abbreviation AMQP_BASIC_RECOVER_ASYNC_METHOD :: u32 where "AMQP_BASIC_RECOVER_ASYNC_METHOD \<equiv> 0x003C0064"
abbreviation AMQP_BASIC_RECOVER_METHOD :: u32 where "AMQP_BASIC_RECOVER_METHOD \<equiv> 0x003C006E"
abbreviation AMQP_BASIC_RECOVER_OK_METHOD :: u32 where "AMQP_BASIC_RECOVER_OK_METHOD \<equiv> 0x003C006F"
abbreviation AMQP_BASIC_NACK_METHOD :: u32 where "AMQP_BASIC_NACK_METHOD \<equiv> 0x003C0078"

datatype basic_method =
    Basic_qos (basic_qos_prefetch_size: u32) (basic_qos_prefetch_count: u16)
      (basic_qos_global: bool)
  | Basic_qos_ok
  | Basic_consume (basic_consume_ticket: u16) (basic_consume_queue: amqp_bytes)
      (basic_consume_consumer_tag: amqp_bytes) (basic_consume_no_local: bool)
      (basic_consume_no_ack: bool) (basic_consume_exclusive: bool) (basic_consume_nowait: bool)
      (basic_consume_arguments: amqp_table)
  | Basic_consume_ok (basic_consume_ok_consumer_tag: amqp_bytes)
  | Basic_cancel (basic_cancel_consumer_tag: amqp_bytes) (basic_cancel_nowait: bool)
  | Basic_cancel_ok (basic_cancel_ok_consumer_tag: amqp_bytes)
  | Basic_publish (basic_publish_ticket: u16) (basic_publish_exchange: amqp_bytes)
      (basic_publish_routing_key: amqp_bytes) (basic_publish_mandatory: bool)
      (basic_publish_immediate: bool)
  | Basic_return (basic_return_reply_code: u16) (basic_return_reply_text: amqp_bytes)
      (basic_return_exchange: amqp_bytes) (basic_return_routing_key: amqp_bytes)
  | Basic_deliver (basic_deliver_consumer_tag: amqp_bytes) (basic_deliver_delivery_tag: u64)
      (basic_deliver_redelivered: bool) (basic_deliver_exchange: amqp_bytes)
      (basic_deliver_routing_key: amqp_bytes)
  | Basic_get (basic_get_ticket: u16) (basic_get_queue: amqp_bytes) (basic_get_no_ack: bool)
  | Basic_get_ok (basic_get_ok_delivery_tag: u64) (basic_get_ok_redelivered: bool)
      (basic_get_ok_exchange: amqp_bytes) (basic_get_ok_routing_key: amqp_bytes)
      (basic_get_ok_message_count: u32)
  | Basic_get_empty (basic_get_empty_cluster_id: amqp_bytes)
  | Basic_ack (basic_ack_delivery_tag: u64) (basic_ack_multiple: bool)
  | Basic_reject (basic_reject_delivery_tag: u64) (basic_reject_requeue: bool)
  | Basic_recover_async (basic_recover_async_requeue: bool)
  | Basic_recover (basic_recover_requeue: bool)
  | Basic_recover_ok
  | Basic_nack (basic_nack_delivery_tag: u64) (basic_nack_multiple: bool) (basic_nack_requeue: bool)

fun basic_number :: "basic_method \<Rightarrow> u32" where
  "basic_number (Basic_qos _ _ _) = AMQP_BASIC_QOS_METHOD"
| "basic_number Basic_qos_ok = AMQP_BASIC_QOS_OK_METHOD"
| "basic_number (Basic_consume _ _ _ _ _ _ _ _) = AMQP_BASIC_CONSUME_METHOD"
| "basic_number (Basic_consume_ok _) = AMQP_BASIC_CONSUME_OK_METHOD"
| "basic_number (Basic_cancel _ _) = AMQP_BASIC_CANCEL_METHOD"
| "basic_number (Basic_cancel_ok _) = AMQP_BASIC_CANCEL_OK_METHOD"
| "basic_number (Basic_publish _ _ _ _ _) = AMQP_BASIC_PUBLISH_METHOD"
| "basic_number (Basic_return _ _ _ _) = AMQP_BASIC_RETURN_METHOD"
| "basic_number (Basic_deliver _ _ _ _ _) = AMQP_BASIC_DELIVER_METHOD"
| "basic_number (Basic_get _ _ _) = AMQP_BASIC_GET_METHOD"
| "basic_number (Basic_get_ok _ _ _ _ _) = AMQP_BASIC_GET_OK_METHOD"
| "basic_number (Basic_get_empty _) = AMQP_BASIC_GET_EMPTY_METHOD"
| "basic_number (Basic_ack _ _) = AMQP_BASIC_ACK_METHOD"
| "basic_number (Basic_reject _ _) = AMQP_BASIC_REJECT_METHOD"
| "basic_number (Basic_recover_async _) = AMQP_BASIC_RECOVER_ASYNC_METHOD"
| "basic_number (Basic_recover _) = AMQP_BASIC_RECOVER_METHOD"
| "basic_number Basic_recover_ok = AMQP_BASIC_RECOVER_OK_METHOD"
| "basic_number (Basic_nack _ _ _) = AMQP_BASIC_NACK_METHOD"

section \<open>Decoding\<close>

definition decode_basic_qos :: "basic_method dec" where
  "decode_basic_qos =
    d_bind (d_pool_alloc (sizeof_struct [C_uint32, C_uint16, C_boolean])) (\<lambda>_.
    d_bind d_32 (\<lambda>prefetch_size.
    d_bind d_16 (\<lambda>prefetch_count.
    d_bind d_8 (\<lambda>bit_buffer.
    d_return (Basic_qos prefetch_size prefetch_count (get_bit bit_buffer 0))))))"

definition decode_basic_qos_ok :: "basic_method dec" where
  "decode_basic_qos_ok =
    d_bind (d_pool_alloc (sizeof_struct [C_uint8])) (\<lambda>_.
    d_return Basic_qos_ok)"

definition decode_basic_consume :: "basic_method dec" where
  "decode_basic_consume =
    d_bind (d_pool_alloc (sizeof_struct [C_uint16, C_bytes, C_bytes, C_boolean, C_boolean, C_boolean, C_boolean, C_table])) (\<lambda>_.
    d_bind d_16 (\<lambda>ticket.
    d_bind d_shortstr (\<lambda>queue.
    d_bind d_shortstr (\<lambda>consumer_tag.
    d_bind d_8 (\<lambda>bit_buffer.
    d_bind amqp_decode_table (\<lambda>arguments.
    d_return (Basic_consume ticket queue consumer_tag (get_bit bit_buffer 0) (get_bit bit_buffer 1) (get_bit bit_buffer 2) (get_bit bit_buffer 3) arguments)))))))"

definition decode_basic_consume_ok :: "basic_method dec" where
  "decode_basic_consume_ok =
    d_bind (d_pool_alloc (sizeof_struct [C_bytes])) (\<lambda>_.
    d_bind d_shortstr (\<lambda>consumer_tag.
    d_return (Basic_consume_ok consumer_tag)))"

definition decode_basic_cancel :: "basic_method dec" where
  "decode_basic_cancel =
    d_bind (d_pool_alloc (sizeof_struct [C_bytes, C_boolean])) (\<lambda>_.
    d_bind d_shortstr (\<lambda>consumer_tag.
    d_bind d_8 (\<lambda>bit_buffer.
    d_return (Basic_cancel consumer_tag (get_bit bit_buffer 0)))))"

definition decode_basic_cancel_ok :: "basic_method dec" where
  "decode_basic_cancel_ok =
    d_bind (d_pool_alloc (sizeof_struct [C_bytes])) (\<lambda>_.
    d_bind d_shortstr (\<lambda>consumer_tag.
    d_return (Basic_cancel_ok consumer_tag)))"

definition decode_basic_publish :: "basic_method dec" where
  "decode_basic_publish =
    d_bind (d_pool_alloc (sizeof_struct [C_uint16, C_bytes, C_bytes, C_boolean, C_boolean])) (\<lambda>_.
    d_bind d_16 (\<lambda>ticket.
    d_bind d_shortstr (\<lambda>exchange.
    d_bind d_shortstr (\<lambda>routing_key.
    d_bind d_8 (\<lambda>bit_buffer.
    d_return (Basic_publish ticket exchange routing_key (get_bit bit_buffer 0) (get_bit bit_buffer 1)))))))"

definition decode_basic_return :: "basic_method dec" where
  "decode_basic_return =
    d_bind (d_pool_alloc (sizeof_struct [C_uint16, C_bytes, C_bytes, C_bytes])) (\<lambda>_.
    d_bind d_16 (\<lambda>reply_code.
    d_bind d_shortstr (\<lambda>reply_text.
    d_bind d_shortstr (\<lambda>exchange.
    d_bind d_shortstr (\<lambda>routing_key.
    d_return (Basic_return reply_code reply_text exchange routing_key))))))"

definition decode_basic_deliver :: "basic_method dec" where
  "decode_basic_deliver =
    d_bind (d_pool_alloc (sizeof_struct [C_bytes, C_uint64, C_boolean, C_bytes, C_bytes])) (\<lambda>_.
    d_bind d_shortstr (\<lambda>consumer_tag.
    d_bind d_64 (\<lambda>delivery_tag.
    d_bind d_8 (\<lambda>bit_buffer.
    d_bind d_shortstr (\<lambda>exchange.
    d_bind d_shortstr (\<lambda>routing_key.
    d_return (Basic_deliver consumer_tag delivery_tag (get_bit bit_buffer 0) exchange routing_key)))))))"

definition decode_basic_get :: "basic_method dec" where
  "decode_basic_get =
    d_bind (d_pool_alloc (sizeof_struct [C_uint16, C_bytes, C_boolean])) (\<lambda>_.
    d_bind d_16 (\<lambda>ticket.
    d_bind d_shortstr (\<lambda>queue.
    d_bind d_8 (\<lambda>bit_buffer.
    d_return (Basic_get ticket queue (get_bit bit_buffer 0))))))"

definition decode_basic_get_ok :: "basic_method dec" where
  "decode_basic_get_ok =
    d_bind (d_pool_alloc (sizeof_struct [C_uint64, C_boolean, C_bytes, C_bytes, C_uint32])) (\<lambda>_.
    d_bind d_64 (\<lambda>delivery_tag.
    d_bind d_8 (\<lambda>bit_buffer.
    d_bind d_shortstr (\<lambda>exchange.
    d_bind d_shortstr (\<lambda>routing_key.
    d_bind d_32 (\<lambda>message_count.
    d_return (Basic_get_ok delivery_tag (get_bit bit_buffer 0) exchange routing_key message_count)))))))"

definition decode_basic_get_empty :: "basic_method dec" where
  "decode_basic_get_empty =
    d_bind (d_pool_alloc (sizeof_struct [C_bytes])) (\<lambda>_.
    d_bind d_shortstr (\<lambda>cluster_id.
    d_return (Basic_get_empty cluster_id)))"

definition decode_basic_ack :: "basic_method dec" where
  "decode_basic_ack =
    d_bind (d_pool_alloc (sizeof_struct [C_uint64, C_boolean])) (\<lambda>_.
    d_bind d_64 (\<lambda>delivery_tag.
    d_bind d_8 (\<lambda>bit_buffer.
    d_return (Basic_ack delivery_tag (get_bit bit_buffer 0)))))"

definition decode_basic_reject :: "basic_method dec" where
  "decode_basic_reject =
    d_bind (d_pool_alloc (sizeof_struct [C_uint64, C_boolean])) (\<lambda>_.
    d_bind d_64 (\<lambda>delivery_tag.
    d_bind d_8 (\<lambda>bit_buffer.
    d_return (Basic_reject delivery_tag (get_bit bit_buffer 0)))))"

definition decode_basic_recover_async :: "basic_method dec" where
  "decode_basic_recover_async =
    d_bind (d_pool_alloc (sizeof_struct [C_boolean])) (\<lambda>_.
    d_bind d_8 (\<lambda>bit_buffer.
    d_return (Basic_recover_async (get_bit bit_buffer 0))))"

definition decode_basic_recover :: "basic_method dec" where
  "decode_basic_recover =
    d_bind (d_pool_alloc (sizeof_struct [C_boolean])) (\<lambda>_.
    d_bind d_8 (\<lambda>bit_buffer.
    d_return (Basic_recover (get_bit bit_buffer 0))))"

definition decode_basic_recover_ok :: "basic_method dec" where
  "decode_basic_recover_ok =
    d_bind (d_pool_alloc (sizeof_struct [C_uint8])) (\<lambda>_.
    d_return Basic_recover_ok)"

definition decode_basic_nack :: "basic_method dec" where
  "decode_basic_nack =
    d_bind (d_pool_alloc (sizeof_struct [C_uint64, C_boolean, C_boolean])) (\<lambda>_.
    d_bind d_64 (\<lambda>delivery_tag.
    d_bind d_8 (\<lambda>bit_buffer.
    d_return (Basic_nack delivery_tag (get_bit bit_buffer 0) (get_bit bit_buffer 1)))))"

definition decode_basic :: "u32 \<Rightarrow> basic_method dec option" where
  "decode_basic methodNumber =
    (if methodNumber = AMQP_BASIC_QOS_METHOD then Some decode_basic_qos
     else if methodNumber = AMQP_BASIC_QOS_OK_METHOD then Some decode_basic_qos_ok
     else if methodNumber = AMQP_BASIC_CONSUME_METHOD then Some decode_basic_consume
     else if methodNumber = AMQP_BASIC_CONSUME_OK_METHOD then Some decode_basic_consume_ok
     else if methodNumber = AMQP_BASIC_CANCEL_METHOD then Some decode_basic_cancel
     else if methodNumber = AMQP_BASIC_CANCEL_OK_METHOD then Some decode_basic_cancel_ok
     else if methodNumber = AMQP_BASIC_PUBLISH_METHOD then Some decode_basic_publish
     else if methodNumber = AMQP_BASIC_RETURN_METHOD then Some decode_basic_return
     else if methodNumber = AMQP_BASIC_DELIVER_METHOD then Some decode_basic_deliver
     else if methodNumber = AMQP_BASIC_GET_METHOD then Some decode_basic_get
     else if methodNumber = AMQP_BASIC_GET_OK_METHOD then Some decode_basic_get_ok
     else if methodNumber = AMQP_BASIC_GET_EMPTY_METHOD then Some decode_basic_get_empty
     else if methodNumber = AMQP_BASIC_ACK_METHOD then Some decode_basic_ack
     else if methodNumber = AMQP_BASIC_REJECT_METHOD then Some decode_basic_reject
     else if methodNumber = AMQP_BASIC_RECOVER_ASYNC_METHOD then Some decode_basic_recover_async
     else if methodNumber = AMQP_BASIC_RECOVER_METHOD then Some decode_basic_recover
     else if methodNumber = AMQP_BASIC_RECOVER_OK_METHOD then Some decode_basic_recover_ok
     else if methodNumber = AMQP_BASIC_NACK_METHOD then Some decode_basic_nack
     else None)"

section \<open>Encoding\<close>

definition encode_basic_qos :: "u32 \<Rightarrow> u16 \<Rightarrow> bool \<Rightarrow> enc" where
  "encode_basic_qos prefetch_size prefetch_count global =
    e_block
      [e_32 prefetch_size,
       e_16 prefetch_count,
       e_8 (put_bit global 0 0)]"

definition encode_basic_consume :: "u16 \<Rightarrow> amqp_bytes \<Rightarrow> amqp_bytes \<Rightarrow> bool \<Rightarrow> bool \<Rightarrow> bool \<Rightarrow> bool \<Rightarrow> amqp_table \<Rightarrow> enc" where
  "encode_basic_consume ticket queue consumer_tag no_local no_ack exclusive nowait arguments =
    e_block
      [e_16 ticket,
       e_shortstr queue,
       e_shortstr consumer_tag,
       e_8 (put_bit nowait 3 (put_bit exclusive 2 (put_bit no_ack 1 (put_bit no_local 0 0)))),
       amqp_encode_table arguments]"

definition encode_basic_consume_ok :: "amqp_bytes \<Rightarrow> enc" where
  "encode_basic_consume_ok consumer_tag =
    e_block
      [e_shortstr consumer_tag]"

definition encode_basic_cancel :: "amqp_bytes \<Rightarrow> bool \<Rightarrow> enc" where
  "encode_basic_cancel consumer_tag nowait =
    e_block
      [e_shortstr consumer_tag,
       e_8 (put_bit nowait 0 0)]"

definition encode_basic_cancel_ok :: "amqp_bytes \<Rightarrow> enc" where
  "encode_basic_cancel_ok consumer_tag =
    e_block
      [e_shortstr consumer_tag]"

definition encode_basic_publish :: "u16 \<Rightarrow> amqp_bytes \<Rightarrow> amqp_bytes \<Rightarrow> bool \<Rightarrow> bool \<Rightarrow> enc" where
  "encode_basic_publish ticket exchange routing_key mandatory immediate =
    e_block
      [e_16 ticket,
       e_shortstr exchange,
       e_shortstr routing_key,
       e_8 (put_bit immediate 1 (put_bit mandatory 0 0))]"

definition encode_basic_return :: "u16 \<Rightarrow> amqp_bytes \<Rightarrow> amqp_bytes \<Rightarrow> amqp_bytes \<Rightarrow> enc" where
  "encode_basic_return reply_code reply_text exchange routing_key =
    e_block
      [e_16 reply_code,
       e_shortstr reply_text,
       e_shortstr exchange,
       e_shortstr routing_key]"

definition encode_basic_deliver :: "amqp_bytes \<Rightarrow> u64 \<Rightarrow> bool \<Rightarrow> amqp_bytes \<Rightarrow> amqp_bytes \<Rightarrow> enc" where
  "encode_basic_deliver consumer_tag delivery_tag redelivered exchange routing_key =
    e_block
      [e_shortstr consumer_tag,
       e_64 delivery_tag,
       e_8 (put_bit redelivered 0 0),
       e_shortstr exchange,
       e_shortstr routing_key]"

definition encode_basic_get :: "u16 \<Rightarrow> amqp_bytes \<Rightarrow> bool \<Rightarrow> enc" where
  "encode_basic_get ticket queue no_ack =
    e_block
      [e_16 ticket,
       e_shortstr queue,
       e_8 (put_bit no_ack 0 0)]"

definition encode_basic_get_ok :: "u64 \<Rightarrow> bool \<Rightarrow> amqp_bytes \<Rightarrow> amqp_bytes \<Rightarrow> u32 \<Rightarrow> enc" where
  "encode_basic_get_ok delivery_tag redelivered exchange routing_key message_count =
    e_block
      [e_64 delivery_tag,
       e_8 (put_bit redelivered 0 0),
       e_shortstr exchange,
       e_shortstr routing_key,
       e_32 message_count]"

definition encode_basic_get_empty :: "amqp_bytes \<Rightarrow> enc" where
  "encode_basic_get_empty cluster_id =
    e_block
      [e_shortstr cluster_id]"

definition encode_basic_ack :: "u64 \<Rightarrow> bool \<Rightarrow> enc" where
  "encode_basic_ack delivery_tag multiple =
    e_block
      [e_64 delivery_tag,
       e_8 (put_bit multiple 0 0)]"

definition encode_basic_reject :: "u64 \<Rightarrow> bool \<Rightarrow> enc" where
  "encode_basic_reject delivery_tag requeue =
    e_block
      [e_64 delivery_tag,
       e_8 (put_bit requeue 0 0)]"

definition encode_basic_recover_async :: "bool \<Rightarrow> enc" where
  "encode_basic_recover_async requeue =
    e_block
      [e_8 (put_bit requeue 0 0)]"

definition encode_basic_recover :: "bool \<Rightarrow> enc" where
  "encode_basic_recover requeue =
    e_block
      [e_8 (put_bit requeue 0 0)]"

definition encode_basic_nack :: "u64 \<Rightarrow> bool \<Rightarrow> bool \<Rightarrow> enc" where
  "encode_basic_nack delivery_tag multiple requeue =
    e_block
      [e_64 delivery_tag,
       e_8 (put_bit requeue 1 (put_bit multiple 0 0))]"

definition encode_basic :: "u32 \<Rightarrow> basic_method option \<Rightarrow> enc option" where
  "encode_basic methodNumber decoded =
    (if methodNumber = AMQP_BASIC_QOS_METHOD then
       Some (case decoded of
           Some (Basic_qos prefetch_size prefetch_count global) \<Rightarrow> encode_basic_qos prefetch_size prefetch_count global
         | _ \<Rightarrow> e_undefined)
     else if methodNumber = AMQP_BASIC_QOS_OK_METHOD then Some (e_block [])
     else if methodNumber = AMQP_BASIC_CONSUME_METHOD then
       Some (case decoded of
           Some (Basic_consume ticket queue consumer_tag no_local no_ack exclusive nowait arguments) \<Rightarrow> encode_basic_consume ticket queue consumer_tag no_local no_ack exclusive nowait arguments
         | _ \<Rightarrow> e_undefined)
     else if methodNumber = AMQP_BASIC_CONSUME_OK_METHOD then
       Some (case decoded of
           Some (Basic_consume_ok consumer_tag) \<Rightarrow> encode_basic_consume_ok consumer_tag
         | _ \<Rightarrow> e_undefined)
     else if methodNumber = AMQP_BASIC_CANCEL_METHOD then
       Some (case decoded of
           Some (Basic_cancel consumer_tag nowait) \<Rightarrow> encode_basic_cancel consumer_tag nowait
         | _ \<Rightarrow> e_undefined)
     else if methodNumber = AMQP_BASIC_CANCEL_OK_METHOD then
       Some (case decoded of
           Some (Basic_cancel_ok consumer_tag) \<Rightarrow> encode_basic_cancel_ok consumer_tag
         | _ \<Rightarrow> e_undefined)
     else if methodNumber = AMQP_BASIC_PUBLISH_METHOD then
       Some (case decoded of
           Some (Basic_publish ticket exchange routing_key mandatory immediate) \<Rightarrow> encode_basic_publish ticket exchange routing_key mandatory immediate
         | _ \<Rightarrow> e_undefined)
     else if methodNumber = AMQP_BASIC_RETURN_METHOD then
       Some (case decoded of
           Some (Basic_return reply_code reply_text exchange routing_key) \<Rightarrow> encode_basic_return reply_code reply_text exchange routing_key
         | _ \<Rightarrow> e_undefined)
     else if methodNumber = AMQP_BASIC_DELIVER_METHOD then
       Some (case decoded of
           Some (Basic_deliver consumer_tag delivery_tag redelivered exchange routing_key) \<Rightarrow> encode_basic_deliver consumer_tag delivery_tag redelivered exchange routing_key
         | _ \<Rightarrow> e_undefined)
     else if methodNumber = AMQP_BASIC_GET_METHOD then
       Some (case decoded of
           Some (Basic_get ticket queue no_ack) \<Rightarrow> encode_basic_get ticket queue no_ack
         | _ \<Rightarrow> e_undefined)
     else if methodNumber = AMQP_BASIC_GET_OK_METHOD then
       Some (case decoded of
           Some (Basic_get_ok delivery_tag redelivered exchange routing_key message_count) \<Rightarrow> encode_basic_get_ok delivery_tag redelivered exchange routing_key message_count
         | _ \<Rightarrow> e_undefined)
     else if methodNumber = AMQP_BASIC_GET_EMPTY_METHOD then
       Some (case decoded of
           Some (Basic_get_empty cluster_id) \<Rightarrow> encode_basic_get_empty cluster_id
         | _ \<Rightarrow> e_undefined)
     else if methodNumber = AMQP_BASIC_ACK_METHOD then
       Some (case decoded of
           Some (Basic_ack delivery_tag multiple) \<Rightarrow> encode_basic_ack delivery_tag multiple
         | _ \<Rightarrow> e_undefined)
     else if methodNumber = AMQP_BASIC_REJECT_METHOD then
       Some (case decoded of
           Some (Basic_reject delivery_tag requeue) \<Rightarrow> encode_basic_reject delivery_tag requeue
         | _ \<Rightarrow> e_undefined)
     else if methodNumber = AMQP_BASIC_RECOVER_ASYNC_METHOD then
       Some (case decoded of
           Some (Basic_recover_async requeue) \<Rightarrow> encode_basic_recover_async requeue
         | _ \<Rightarrow> e_undefined)
     else if methodNumber = AMQP_BASIC_RECOVER_METHOD then
       Some (case decoded of
           Some (Basic_recover requeue) \<Rightarrow> encode_basic_recover requeue
         | _ \<Rightarrow> e_undefined)
     else if methodNumber = AMQP_BASIC_RECOVER_OK_METHOD then Some (e_block [])
     else if methodNumber = AMQP_BASIC_NACK_METHOD then
       Some (case decoded of
           Some (Basic_nack delivery_tag multiple requeue) \<Rightarrow> encode_basic_nack delivery_tag multiple requeue
         | _ \<Rightarrow> e_undefined)
     else None)"

section \<open>Wire format\<close>

fun wire_basic :: "basic_method \<Rightarrow> amqp_bytes" where
  "wire_basic (Basic_qos prefetch_size prefetch_count global) =
     concat [be32 prefetch_size, be16 prefetch_count, [put_bit global 0 0]]"
| "wire_basic Basic_qos_ok =
     concat []"
| "wire_basic (Basic_consume ticket queue consumer_tag no_local no_ack exclusive nowait arguments) =
     concat [be16 ticket, wire_shortstr queue, wire_shortstr consumer_tag, [put_bit nowait 3 (put_bit exclusive 2 (put_bit no_ack 1 (put_bit no_local 0 0)))], wire_table arguments]"
| "wire_basic (Basic_consume_ok consumer_tag) =
     concat [wire_shortstr consumer_tag]"
| "wire_basic (Basic_cancel consumer_tag nowait) =
     concat [wire_shortstr consumer_tag, [put_bit nowait 0 0]]"
| "wire_basic (Basic_cancel_ok consumer_tag) =
     concat [wire_shortstr consumer_tag]"
| "wire_basic (Basic_publish ticket exchange routing_key mandatory immediate) =
     concat [be16 ticket, wire_shortstr exchange, wire_shortstr routing_key, [put_bit immediate 1 (put_bit mandatory 0 0)]]"
| "wire_basic (Basic_return reply_code reply_text exchange routing_key) =
     concat [be16 reply_code, wire_shortstr reply_text, wire_shortstr exchange, wire_shortstr routing_key]"
| "wire_basic (Basic_deliver consumer_tag delivery_tag redelivered exchange routing_key) =
     concat [wire_shortstr consumer_tag, be64 delivery_tag, [put_bit redelivered 0 0], wire_shortstr exchange, wire_shortstr routing_key]"
| "wire_basic (Basic_get ticket queue no_ack) =
     concat [be16 ticket, wire_shortstr queue, [put_bit no_ack 0 0]]"
| "wire_basic (Basic_get_ok delivery_tag redelivered exchange routing_key message_count) =
     concat [be64 delivery_tag, [put_bit redelivered 0 0], wire_shortstr exchange, wire_shortstr routing_key, be32 message_count]"
| "wire_basic (Basic_get_empty cluster_id) =
     concat [wire_shortstr cluster_id]"
| "wire_basic (Basic_ack delivery_tag multiple) =
     concat [be64 delivery_tag, [put_bit multiple 0 0]]"
| "wire_basic (Basic_reject delivery_tag requeue) =
     concat [be64 delivery_tag, [put_bit requeue 0 0]]"
| "wire_basic (Basic_recover_async requeue) =
     concat [[put_bit requeue 0 0]]"
| "wire_basic (Basic_recover requeue) =
     concat [[put_bit requeue 0 0]]"
| "wire_basic Basic_recover_ok =
     concat []"
| "wire_basic (Basic_nack delivery_tag multiple requeue) =
     concat [be64 delivery_tag, [put_bit requeue 1 (put_bit multiple 0 0)]]"

fun valid_basic :: "basic_method \<Rightarrow> bool" where
  "valid_basic (Basic_qos _ _ _) \<longleftrightarrow> True"
| "valid_basic Basic_qos_ok \<longleftrightarrow> True"
| "valid_basic (Basic_consume _ queue consumer_tag _ _ _ _ arguments) \<longleftrightarrow> short_str queue \<and> short_str consumer_tag \<and> valid_table arguments"
| "valid_basic (Basic_consume_ok consumer_tag) \<longleftrightarrow> short_str consumer_tag"
| "valid_basic (Basic_cancel consumer_tag _) \<longleftrightarrow> short_str consumer_tag"
| "valid_basic (Basic_cancel_ok consumer_tag) \<longleftrightarrow> short_str consumer_tag"
| "valid_basic (Basic_publish _ exchange routing_key _ _) \<longleftrightarrow> short_str exchange \<and> short_str routing_key"
| "valid_basic (Basic_return _ reply_text exchange routing_key) \<longleftrightarrow> short_str reply_text \<and> short_str exchange \<and> short_str routing_key"
| "valid_basic (Basic_deliver consumer_tag _ _ exchange routing_key) \<longleftrightarrow> short_str consumer_tag \<and> short_str exchange \<and> short_str routing_key"
| "valid_basic (Basic_get _ queue _) \<longleftrightarrow> short_str queue"
| "valid_basic (Basic_get_ok _ _ exchange routing_key _) \<longleftrightarrow> short_str exchange \<and> short_str routing_key"
| "valid_basic (Basic_get_empty cluster_id) \<longleftrightarrow> short_str cluster_id"
| "valid_basic (Basic_ack _ _) \<longleftrightarrow> True"
| "valid_basic (Basic_reject _ _) \<longleftrightarrow> True"
| "valid_basic (Basic_recover_async _) \<longleftrightarrow> True"
| "valid_basic (Basic_recover _) \<longleftrightarrow> True"
| "valid_basic Basic_recover_ok \<longleftrightarrow> True"
| "valid_basic (Basic_nack _ _ _) \<longleftrightarrow> True"

declare wire_basic.simps [simp del]

section \<open>The contract\<close>

lemmas basic_decoders = decode_basic_qos_def decode_basic_qos_ok_def decode_basic_consume_def
  decode_basic_consume_ok_def decode_basic_cancel_def decode_basic_cancel_ok_def
  decode_basic_publish_def decode_basic_return_def decode_basic_deliver_def decode_basic_get_def
  decode_basic_get_ok_def decode_basic_get_empty_def decode_basic_ack_def decode_basic_reject_def
  decode_basic_recover_async_def decode_basic_recover_def decode_basic_recover_ok_def
  decode_basic_nack_def

lemmas basic_encoders = encode_basic_qos_def encode_basic_consume_def encode_basic_consume_ok_def
  encode_basic_cancel_def encode_basic_cancel_ok_def encode_basic_publish_def
  encode_basic_return_def encode_basic_deliver_def encode_basic_get_def encode_basic_get_ok_def
  encode_basic_get_empty_def encode_basic_ack_def encode_basic_reject_def
  encode_basic_recover_async_def encode_basic_recover_def encode_basic_nack_def

lemma encode_basic_writes:
  "valid_basic m \<Longrightarrow> \<exists>e. encode_basic (basic_number m) (Some m) = Some e \<and> writes e (wire_basic m)"
  by (cases m; simp add: encode_basic_def wire_basic.simps basic_encoders del: e_block.simps e_block_Cons concat.simps)
    (intro writes_concat; simp add: framing_writes)+

lemma encode_basic_case: "\<exists>e. encode_basic (basic_number m) (Some m) = Some e"
  by (cases m) (simp_all add: encode_basic_def)

lemma decode_basic_case: "\<exists>d. decode_basic (basic_number m) = Some d"
  by (cases m) (simp_all add: decode_basic_def)

lemma decode_basic_reads:
  "valid_basic m \<Longrightarrow> decode_basic (basic_number m) = Some d \<Longrightarrow> reads d (wire_basic m) m"
  by (cases m; simp add: decode_basic_def wire_basic.simps basic_decoders del: concat.simps; hypsubst)
    (rule reads_struct framing_reads | assumption | simp)+

lemma decode_basic_guarded: "decode_basic n = Some d \<Longrightarrow> guarded d"
  by (auto simp: decode_basic_def basic_decoders split: if_splits intro!: wire_intros)

lemma decode_basic_number: "decode_basic n = Some d \<Longrightarrow> returns d (\<lambda>m. basic_number m = n)"
  by (auto simp: decode_basic_def basic_decoders split: if_splits intro!: returns_intros)

lemma decode_basic_allocates: "decode_basic n = Some d \<Longrightarrow> allocates d"
  by (auto simp: decode_basic_def basic_decoders allocates_struct split: if_splits)

interpretation basic_class: method_class encode_basic decode_basic basic_number wire_basic valid_basic 60
proof
  fix m
  show "\<exists>e. encode_basic (basic_number m) (Some m) = Some e \<and> (valid_basic m \<longrightarrow> writes e (wire_basic m))"
    using encode_basic_writes encode_basic_case by blast
  show "\<exists>d. decode_basic (basic_number m) = Some d \<and> (valid_basic m \<longrightarrow> reads d (wire_basic m) m)"
    using decode_basic_reads decode_basic_case by blast
  fix n mo
  show "encode_basic n mo = None \<longleftrightarrow> decode_basic n = None"
    unfolding encode_basic_def decode_basic_def by simp
qed (auto simp: decode_basic_guarded decode_basic_number decode_basic_allocates encode_basic_def decode_basic_def
    split: if_splits)

end
