(* ===== verification/Framing_Tx.thy ===== *)
theory Framing_Tx
  imports Framing_Base
begin

text \<open>
  The methods of the tx and confirm classes (\<^verbatim>\<open>amqp_framing.h\<close>, \<^verbatim>\<open>amqp_framing.c\<close>): one
  constructor per method struct with its fields in the order of the struct, one decoder and one
  encoder per case of the two switches, the wire format the pair shares, and the interpretation of
  \<open>method_class\<close> on them. A method without fields has an encoder that writes nothing whatever
  struct it is given.
\<close>

section \<open>The tx class\<close>

abbreviation AMQP_TX_SELECT_METHOD :: u32 where "AMQP_TX_SELECT_METHOD \<equiv> 0x005A000A"
abbreviation AMQP_TX_SELECT_OK_METHOD :: u32 where "AMQP_TX_SELECT_OK_METHOD \<equiv> 0x005A000B"
abbreviation AMQP_TX_COMMIT_METHOD :: u32 where "AMQP_TX_COMMIT_METHOD \<equiv> 0x005A0014"
abbreviation AMQP_TX_COMMIT_OK_METHOD :: u32 where "AMQP_TX_COMMIT_OK_METHOD \<equiv> 0x005A0015"
abbreviation AMQP_TX_ROLLBACK_METHOD :: u32 where "AMQP_TX_ROLLBACK_METHOD \<equiv> 0x005A001E"
abbreviation AMQP_TX_ROLLBACK_OK_METHOD :: u32 where "AMQP_TX_ROLLBACK_OK_METHOD \<equiv> 0x005A001F"

datatype tx_method =
    Tx_select
  | Tx_select_ok
  | Tx_commit
  | Tx_commit_ok
  | Tx_rollback
  | Tx_rollback_ok

fun tx_number :: "tx_method \<Rightarrow> u32" where
  "tx_number Tx_select = AMQP_TX_SELECT_METHOD"
| "tx_number Tx_select_ok = AMQP_TX_SELECT_OK_METHOD"
| "tx_number Tx_commit = AMQP_TX_COMMIT_METHOD"
| "tx_number Tx_commit_ok = AMQP_TX_COMMIT_OK_METHOD"
| "tx_number Tx_rollback = AMQP_TX_ROLLBACK_METHOD"
| "tx_number Tx_rollback_ok = AMQP_TX_ROLLBACK_OK_METHOD"

section \<open>Decoding\<close>

definition decode_tx_select :: "tx_method dec" where
  "decode_tx_select =
    d_bind (d_pool_alloc (sizeof_struct [C_uint8])) (\<lambda>_.
    d_return Tx_select)"

definition decode_tx_select_ok :: "tx_method dec" where
  "decode_tx_select_ok =
    d_bind (d_pool_alloc (sizeof_struct [C_uint8])) (\<lambda>_.
    d_return Tx_select_ok)"

definition decode_tx_commit :: "tx_method dec" where
  "decode_tx_commit =
    d_bind (d_pool_alloc (sizeof_struct [C_uint8])) (\<lambda>_.
    d_return Tx_commit)"

definition decode_tx_commit_ok :: "tx_method dec" where
  "decode_tx_commit_ok =
    d_bind (d_pool_alloc (sizeof_struct [C_uint8])) (\<lambda>_.
    d_return Tx_commit_ok)"

definition decode_tx_rollback :: "tx_method dec" where
  "decode_tx_rollback =
    d_bind (d_pool_alloc (sizeof_struct [C_uint8])) (\<lambda>_.
    d_return Tx_rollback)"

definition decode_tx_rollback_ok :: "tx_method dec" where
  "decode_tx_rollback_ok =
    d_bind (d_pool_alloc (sizeof_struct [C_uint8])) (\<lambda>_.
    d_return Tx_rollback_ok)"

definition decode_tx :: "u32 \<Rightarrow> tx_method dec option" where
  "decode_tx methodNumber =
    (if methodNumber = AMQP_TX_SELECT_METHOD then Some decode_tx_select
     else if methodNumber = AMQP_TX_SELECT_OK_METHOD then Some decode_tx_select_ok
     else if methodNumber = AMQP_TX_COMMIT_METHOD then Some decode_tx_commit
     else if methodNumber = AMQP_TX_COMMIT_OK_METHOD then Some decode_tx_commit_ok
     else if methodNumber = AMQP_TX_ROLLBACK_METHOD then Some decode_tx_rollback
     else if methodNumber = AMQP_TX_ROLLBACK_OK_METHOD then Some decode_tx_rollback_ok
     else None)"

section \<open>Encoding\<close>

definition encode_tx :: "u32 \<Rightarrow> tx_method option \<Rightarrow> enc option" where
  "encode_tx methodNumber decoded =
    (if methodNumber = AMQP_TX_SELECT_METHOD then Some (e_block [])
     else if methodNumber = AMQP_TX_SELECT_OK_METHOD then Some (e_block [])
     else if methodNumber = AMQP_TX_COMMIT_METHOD then Some (e_block [])
     else if methodNumber = AMQP_TX_COMMIT_OK_METHOD then Some (e_block [])
     else if methodNumber = AMQP_TX_ROLLBACK_METHOD then Some (e_block [])
     else if methodNumber = AMQP_TX_ROLLBACK_OK_METHOD then Some (e_block [])
     else None)"

section \<open>Wire format\<close>

fun wire_tx :: "tx_method \<Rightarrow> amqp_bytes" where
  "wire_tx Tx_select =
     concat []"
| "wire_tx Tx_select_ok =
     concat []"
| "wire_tx Tx_commit =
     concat []"
| "wire_tx Tx_commit_ok =
     concat []"
| "wire_tx Tx_rollback =
     concat []"
| "wire_tx Tx_rollback_ok =
     concat []"

fun valid_tx :: "tx_method \<Rightarrow> bool" where
  "valid_tx Tx_select \<longleftrightarrow> True"
| "valid_tx Tx_select_ok \<longleftrightarrow> True"
| "valid_tx Tx_commit \<longleftrightarrow> True"
| "valid_tx Tx_commit_ok \<longleftrightarrow> True"
| "valid_tx Tx_rollback \<longleftrightarrow> True"
| "valid_tx Tx_rollback_ok \<longleftrightarrow> True"

declare wire_tx.simps [simp del]

section \<open>The contract\<close>

lemmas tx_decoders = decode_tx_select_def decode_tx_select_ok_def decode_tx_commit_def
  decode_tx_commit_ok_def decode_tx_rollback_def decode_tx_rollback_ok_def

lemma encode_tx_writes:
  "valid_tx m \<Longrightarrow> \<exists>e. encode_tx (tx_number m) (Some m) = Some e \<and> writes e (wire_tx m)"
  by (cases m; simp add: encode_tx_def wire_tx.simps writes_nothing [simplified])

lemma encode_tx_case: "\<exists>e. encode_tx (tx_number m) (Some m) = Some e"
  by (cases m) (simp_all add: encode_tx_def)

lemma decode_tx_case: "\<exists>d. decode_tx (tx_number m) = Some d"
  by (cases m) (simp_all add: decode_tx_def)

lemma decode_tx_reads:
  "valid_tx m \<Longrightarrow> decode_tx (tx_number m) = Some d \<Longrightarrow> reads d (wire_tx m) m"
  by (cases m; simp add: decode_tx_def wire_tx.simps tx_decoders del: concat.simps; hypsubst)
    (rule reads_struct framing_reads | assumption | simp)+

lemma decode_tx_guarded: "decode_tx n = Some d \<Longrightarrow> guarded d"
  by (auto simp: decode_tx_def tx_decoders split: if_splits intro!: wire_intros)

lemma decode_tx_number: "decode_tx n = Some d \<Longrightarrow> returns d (\<lambda>m. tx_number m = n)"
  by (auto simp: decode_tx_def tx_decoders split: if_splits intro!: returns_intros)

lemma decode_tx_allocates: "decode_tx n = Some d \<Longrightarrow> allocates d"
  by (auto simp: decode_tx_def tx_decoders allocates_struct split: if_splits)

interpretation tx_class: method_class encode_tx decode_tx tx_number wire_tx valid_tx 90
proof
  fix m
  show "\<exists>e. encode_tx (tx_number m) (Some m) = Some e \<and> (valid_tx m \<longrightarrow> writes e (wire_tx m))"
    using encode_tx_writes encode_tx_case by blast
  show "\<exists>d. decode_tx (tx_number m) = Some d \<and> (valid_tx m \<longrightarrow> reads d (wire_tx m) m)"
    using decode_tx_reads decode_tx_case by blast
  fix n mo
  show "encode_tx n mo = None \<longleftrightarrow> decode_tx n = None"
    unfolding encode_tx_def decode_tx_def by simp
qed (auto simp: decode_tx_guarded decode_tx_number decode_tx_allocates encode_tx_def decode_tx_def
    split: if_splits)

section \<open>The confirm class\<close>

abbreviation AMQP_CONFIRM_SELECT_METHOD :: u32 where "AMQP_CONFIRM_SELECT_METHOD \<equiv> 0x0055000A"
abbreviation AMQP_CONFIRM_SELECT_OK_METHOD :: u32 where "AMQP_CONFIRM_SELECT_OK_METHOD \<equiv> 0x0055000B"

datatype confirm_method =
    Confirm_select (confirm_select_nowait: bool)
  | Confirm_select_ok

fun confirm_number :: "confirm_method \<Rightarrow> u32" where
  "confirm_number (Confirm_select _) = AMQP_CONFIRM_SELECT_METHOD"
| "confirm_number Confirm_select_ok = AMQP_CONFIRM_SELECT_OK_METHOD"

section \<open>Decoding\<close>

definition decode_confirm_select :: "confirm_method dec" where
  "decode_confirm_select =
    d_bind (d_pool_alloc (sizeof_struct [C_boolean])) (\<lambda>_.
    d_bind d_8 (\<lambda>bit_buffer.
    d_return (Confirm_select (get_bit bit_buffer 0))))"

definition decode_confirm_select_ok :: "confirm_method dec" where
  "decode_confirm_select_ok =
    d_bind (d_pool_alloc (sizeof_struct [C_uint8])) (\<lambda>_.
    d_return Confirm_select_ok)"

definition decode_confirm :: "u32 \<Rightarrow> confirm_method dec option" where
  "decode_confirm methodNumber =
    (if methodNumber = AMQP_CONFIRM_SELECT_METHOD then Some decode_confirm_select
     else if methodNumber = AMQP_CONFIRM_SELECT_OK_METHOD then Some decode_confirm_select_ok
     else None)"

section \<open>Encoding\<close>

definition encode_confirm_select :: "bool \<Rightarrow> enc" where
  "encode_confirm_select nowait =
    e_block
      [e_8 (put_bit nowait 0 0)]"

definition encode_confirm :: "u32 \<Rightarrow> confirm_method option \<Rightarrow> enc option" where
  "encode_confirm methodNumber decoded =
    (if methodNumber = AMQP_CONFIRM_SELECT_METHOD then
       Some (case decoded of
           Some (Confirm_select nowait) \<Rightarrow> encode_confirm_select nowait
         | _ \<Rightarrow> e_undefined)
     else if methodNumber = AMQP_CONFIRM_SELECT_OK_METHOD then Some (e_block [])
     else None)"

section \<open>Wire format\<close>

fun wire_confirm :: "confirm_method \<Rightarrow> amqp_bytes" where
  "wire_confirm (Confirm_select nowait) =
     concat [[put_bit nowait 0 0]]"
| "wire_confirm Confirm_select_ok =
     concat []"

fun valid_confirm :: "confirm_method \<Rightarrow> bool" where
  "valid_confirm (Confirm_select _) \<longleftrightarrow> True"
| "valid_confirm Confirm_select_ok \<longleftrightarrow> True"

declare wire_confirm.simps [simp del]

section \<open>The contract\<close>

lemmas confirm_decoders = decode_confirm_select_def decode_confirm_select_ok_def

lemmas confirm_encoders = encode_confirm_select_def

lemma encode_confirm_writes:
  "valid_confirm m \<Longrightarrow> \<exists>e. encode_confirm (confirm_number m) (Some m) = Some e \<and> writes e (wire_confirm m)"
  by (cases m; simp add: encode_confirm_def wire_confirm.simps confirm_encoders del: e_block.simps e_block_Cons concat.simps)
    (intro writes_concat; simp add: framing_writes)+

lemma encode_confirm_case: "\<exists>e. encode_confirm (confirm_number m) (Some m) = Some e"
  by (cases m) (simp_all add: encode_confirm_def)

lemma decode_confirm_case: "\<exists>d. decode_confirm (confirm_number m) = Some d"
  by (cases m) (simp_all add: decode_confirm_def)

lemma decode_confirm_reads:
  "valid_confirm m \<Longrightarrow> decode_confirm (confirm_number m) = Some d \<Longrightarrow> reads d (wire_confirm m) m"
  by (cases m; simp add: decode_confirm_def wire_confirm.simps confirm_decoders del: concat.simps; hypsubst)
    (rule reads_struct framing_reads | assumption | simp)+

lemma decode_confirm_guarded: "decode_confirm n = Some d \<Longrightarrow> guarded d"
  by (auto simp: decode_confirm_def confirm_decoders split: if_splits intro!: wire_intros)

lemma decode_confirm_number: "decode_confirm n = Some d \<Longrightarrow> returns d (\<lambda>m. confirm_number m = n)"
  by (auto simp: decode_confirm_def confirm_decoders split: if_splits intro!: returns_intros)

lemma decode_confirm_allocates: "decode_confirm n = Some d \<Longrightarrow> allocates d"
  by (auto simp: decode_confirm_def confirm_decoders allocates_struct split: if_splits)

interpretation confirm_class: method_class encode_confirm decode_confirm confirm_number wire_confirm valid_confirm 85
proof
  fix m
  show "\<exists>e. encode_confirm (confirm_number m) (Some m) = Some e \<and> (valid_confirm m \<longrightarrow> writes e (wire_confirm m))"
    using encode_confirm_writes encode_confirm_case by blast
  show "\<exists>d. decode_confirm (confirm_number m) = Some d \<and> (valid_confirm m \<longrightarrow> reads d (wire_confirm m) m)"
    using decode_confirm_reads decode_confirm_case by blast
  fix n mo
  show "encode_confirm n mo = None \<longleftrightarrow> decode_confirm n = None"
    unfolding encode_confirm_def decode_confirm_def by simp
qed (auto simp: decode_confirm_guarded decode_confirm_number decode_confirm_allocates encode_confirm_def decode_confirm_def
    split: if_splits)

end
