(* ===== verification/Amqp_Framing.thy ===== *)
theory Amqp_Framing
  imports Framing_Connection Framing_Channel Framing_Exchange Framing_Queue Framing_Basic Framing_Tx
begin

text \<open>
  \<^verbatim>\<open>amqp_framing.c\<close> as a whole: the names of constants and methods, and the two switches
  \<^verbatim>\<open>amqp_decode_method\<close> and \<^verbatim>\<open>amqp_encode_method\<close>, put together from the cases of the eight
  classes. The struct behind the \<^verbatim>\<open>void *\<close> is the type \<open>amqp_method_struct\<close>; passing a struct that
  is not the method number's is undefined behaviour.

  The lemmas lift the contracts of the classes (\<open>method_class\<close>) to the switches: they are a
  \<open>wire_codec\<close> for every method number, and the three switches know the same numbers.
\<close>

section \<open>Constants and names\<close>

abbreviation AMQP_FRAME_METHOD :: int where "AMQP_FRAME_METHOD \<equiv> 1"
abbreviation AMQP_FRAME_HEADER :: int where "AMQP_FRAME_HEADER \<equiv> 2"
abbreviation AMQP_FRAME_BODY :: int where "AMQP_FRAME_BODY \<equiv> 3"
abbreviation AMQP_FRAME_HEARTBEAT :: int where "AMQP_FRAME_HEARTBEAT \<equiv> 8"
abbreviation AMQP_FRAME_MIN_SIZE :: int where "AMQP_FRAME_MIN_SIZE \<equiv> 4096"
abbreviation AMQP_FRAME_END :: int where "AMQP_FRAME_END \<equiv> 206"
abbreviation AMQP_REPLY_SUCCESS :: int where "AMQP_REPLY_SUCCESS \<equiv> 200"
abbreviation AMQP_CONTENT_TOO_LARGE :: int where "AMQP_CONTENT_TOO_LARGE \<equiv> 311"
abbreviation AMQP_NO_ROUTE :: int where "AMQP_NO_ROUTE \<equiv> 312"
abbreviation AMQP_NO_CONSUMERS :: int where "AMQP_NO_CONSUMERS \<equiv> 313"
abbreviation AMQP_ACCESS_REFUSED :: int where "AMQP_ACCESS_REFUSED \<equiv> 403"
abbreviation AMQP_NOT_FOUND :: int where "AMQP_NOT_FOUND \<equiv> 404"
abbreviation AMQP_RESOURCE_LOCKED :: int where "AMQP_RESOURCE_LOCKED \<equiv> 405"
abbreviation AMQP_PRECONDITION_FAILED :: int where "AMQP_PRECONDITION_FAILED \<equiv> 406"
abbreviation AMQP_CONNECTION_FORCED :: int where "AMQP_CONNECTION_FORCED \<equiv> 320"
abbreviation AMQP_INVALID_PATH :: int where "AMQP_INVALID_PATH \<equiv> 402"
abbreviation AMQP_FRAME_ERROR :: int where "AMQP_FRAME_ERROR \<equiv> 501"
abbreviation AMQP_SYNTAX_ERROR :: int where "AMQP_SYNTAX_ERROR \<equiv> 502"
abbreviation AMQP_COMMAND_INVALID :: int where "AMQP_COMMAND_INVALID \<equiv> 503"
abbreviation AMQP_CHANNEL_ERROR :: int where "AMQP_CHANNEL_ERROR \<equiv> 504"
abbreviation AMQP_UNEXPECTED_FRAME :: int where "AMQP_UNEXPECTED_FRAME \<equiv> 505"
abbreviation AMQP_RESOURCE_ERROR :: int where "AMQP_RESOURCE_ERROR \<equiv> 506"
abbreviation AMQP_NOT_ALLOWED :: int where "AMQP_NOT_ALLOWED \<equiv> 530"
abbreviation AMQP_NOT_IMPLEMENTED :: int where "AMQP_NOT_IMPLEMENTED \<equiv> 540"
abbreviation AMQP_INTERNAL_ERROR :: int where "AMQP_INTERNAL_ERROR \<equiv> 541"

definition amqp_constant_name :: "int \<Rightarrow> string" where
  "amqp_constant_name constantNumber =
    (if constantNumber = AMQP_FRAME_METHOD then ''AMQP_FRAME_METHOD''
     else if constantNumber = AMQP_FRAME_HEADER then ''AMQP_FRAME_HEADER''
     else if constantNumber = AMQP_FRAME_BODY then ''AMQP_FRAME_BODY''
     else if constantNumber = AMQP_FRAME_HEARTBEAT then ''AMQP_FRAME_HEARTBEAT''
     else if constantNumber = AMQP_FRAME_MIN_SIZE then ''AMQP_FRAME_MIN_SIZE''
     else if constantNumber = AMQP_FRAME_END then ''AMQP_FRAME_END''
     else if constantNumber = AMQP_REPLY_SUCCESS then ''AMQP_REPLY_SUCCESS''
     else if constantNumber = AMQP_CONTENT_TOO_LARGE then ''AMQP_CONTENT_TOO_LARGE''
     else if constantNumber = AMQP_NO_ROUTE then ''AMQP_NO_ROUTE''
     else if constantNumber = AMQP_NO_CONSUMERS then ''AMQP_NO_CONSUMERS''
     else if constantNumber = AMQP_ACCESS_REFUSED then ''AMQP_ACCESS_REFUSED''
     else if constantNumber = AMQP_NOT_FOUND then ''AMQP_NOT_FOUND''
     else if constantNumber = AMQP_RESOURCE_LOCKED then ''AMQP_RESOURCE_LOCKED''
     else if constantNumber = AMQP_PRECONDITION_FAILED then ''AMQP_PRECONDITION_FAILED''
     else if constantNumber = AMQP_CONNECTION_FORCED then ''AMQP_CONNECTION_FORCED''
     else if constantNumber = AMQP_INVALID_PATH then ''AMQP_INVALID_PATH''
     else if constantNumber = AMQP_FRAME_ERROR then ''AMQP_FRAME_ERROR''
     else if constantNumber = AMQP_SYNTAX_ERROR then ''AMQP_SYNTAX_ERROR''
     else if constantNumber = AMQP_COMMAND_INVALID then ''AMQP_COMMAND_INVALID''
     else if constantNumber = AMQP_CHANNEL_ERROR then ''AMQP_CHANNEL_ERROR''
     else if constantNumber = AMQP_UNEXPECTED_FRAME then ''AMQP_UNEXPECTED_FRAME''
     else if constantNumber = AMQP_RESOURCE_ERROR then ''AMQP_RESOURCE_ERROR''
     else if constantNumber = AMQP_NOT_ALLOWED then ''AMQP_NOT_ALLOWED''
     else if constantNumber = AMQP_NOT_IMPLEMENTED then ''AMQP_NOT_IMPLEMENTED''
     else if constantNumber = AMQP_INTERNAL_ERROR then ''AMQP_INTERNAL_ERROR''
     else ''(unknown)'')"

definition amqp_constant_is_hard_error :: "int \<Rightarrow> bool" where
  "amqp_constant_is_hard_error constantNumber \<longleftrightarrow>
    constantNumber \<in> {AMQP_CONNECTION_FORCED,
      AMQP_INVALID_PATH,
      AMQP_FRAME_ERROR,
      AMQP_SYNTAX_ERROR,
      AMQP_COMMAND_INVALID,
      AMQP_CHANNEL_ERROR,
      AMQP_UNEXPECTED_FRAME,
      AMQP_RESOURCE_ERROR,
      AMQP_NOT_ALLOWED,
      AMQP_NOT_IMPLEMENTED,
      AMQP_INTERNAL_ERROR}"

definition amqp_method_name :: "u32 \<Rightarrow> string option" where
  "amqp_method_name methodNumber =
    (if methodNumber = AMQP_CONNECTION_START_METHOD then Some ''AMQP_CONNECTION_START_METHOD''
     else if methodNumber = AMQP_CONNECTION_START_OK_METHOD then Some ''AMQP_CONNECTION_START_OK_METHOD''
     else if methodNumber = AMQP_CONNECTION_SECURE_METHOD then Some ''AMQP_CONNECTION_SECURE_METHOD''
     else if methodNumber = AMQP_CONNECTION_SECURE_OK_METHOD then Some ''AMQP_CONNECTION_SECURE_OK_METHOD''
     else if methodNumber = AMQP_CONNECTION_TUNE_METHOD then Some ''AMQP_CONNECTION_TUNE_METHOD''
     else if methodNumber = AMQP_CONNECTION_TUNE_OK_METHOD then Some ''AMQP_CONNECTION_TUNE_OK_METHOD''
     else if methodNumber = AMQP_CONNECTION_OPEN_METHOD then Some ''AMQP_CONNECTION_OPEN_METHOD''
     else if methodNumber = AMQP_CONNECTION_OPEN_OK_METHOD then Some ''AMQP_CONNECTION_OPEN_OK_METHOD''
     else if methodNumber = AMQP_CONNECTION_CLOSE_METHOD then Some ''AMQP_CONNECTION_CLOSE_METHOD''
     else if methodNumber = AMQP_CONNECTION_CLOSE_OK_METHOD then Some ''AMQP_CONNECTION_CLOSE_OK_METHOD''
     else if methodNumber = AMQP_CONNECTION_BLOCKED_METHOD then Some ''AMQP_CONNECTION_BLOCKED_METHOD''
     else if methodNumber = AMQP_CONNECTION_UNBLOCKED_METHOD then Some ''AMQP_CONNECTION_UNBLOCKED_METHOD''
     else if methodNumber = AMQP_CHANNEL_OPEN_METHOD then Some ''AMQP_CHANNEL_OPEN_METHOD''
     else if methodNumber = AMQP_CHANNEL_OPEN_OK_METHOD then Some ''AMQP_CHANNEL_OPEN_OK_METHOD''
     else if methodNumber = AMQP_CHANNEL_FLOW_METHOD then Some ''AMQP_CHANNEL_FLOW_METHOD''
     else if methodNumber = AMQP_CHANNEL_FLOW_OK_METHOD then Some ''AMQP_CHANNEL_FLOW_OK_METHOD''
     else if methodNumber = AMQP_CHANNEL_CLOSE_METHOD then Some ''AMQP_CHANNEL_CLOSE_METHOD''
     else if methodNumber = AMQP_CHANNEL_CLOSE_OK_METHOD then Some ''AMQP_CHANNEL_CLOSE_OK_METHOD''
     else if methodNumber = AMQP_ACCESS_REQUEST_METHOD then Some ''AMQP_ACCESS_REQUEST_METHOD''
     else if methodNumber = AMQP_ACCESS_REQUEST_OK_METHOD then Some ''AMQP_ACCESS_REQUEST_OK_METHOD''
     else if methodNumber = AMQP_EXCHANGE_DECLARE_METHOD then Some ''AMQP_EXCHANGE_DECLARE_METHOD''
     else if methodNumber = AMQP_EXCHANGE_DECLARE_OK_METHOD then Some ''AMQP_EXCHANGE_DECLARE_OK_METHOD''
     else if methodNumber = AMQP_EXCHANGE_DELETE_METHOD then Some ''AMQP_EXCHANGE_DELETE_METHOD''
     else if methodNumber = AMQP_EXCHANGE_DELETE_OK_METHOD then Some ''AMQP_EXCHANGE_DELETE_OK_METHOD''
     else if methodNumber = AMQP_EXCHANGE_BIND_METHOD then Some ''AMQP_EXCHANGE_BIND_METHOD''
     else if methodNumber = AMQP_EXCHANGE_BIND_OK_METHOD then Some ''AMQP_EXCHANGE_BIND_OK_METHOD''
     else if methodNumber = AMQP_EXCHANGE_UNBIND_METHOD then Some ''AMQP_EXCHANGE_UNBIND_METHOD''
     else if methodNumber = AMQP_EXCHANGE_UNBIND_OK_METHOD then Some ''AMQP_EXCHANGE_UNBIND_OK_METHOD''
     else if methodNumber = AMQP_QUEUE_DECLARE_METHOD then Some ''AMQP_QUEUE_DECLARE_METHOD''
     else if methodNumber = AMQP_QUEUE_DECLARE_OK_METHOD then Some ''AMQP_QUEUE_DECLARE_OK_METHOD''
     else if methodNumber = AMQP_QUEUE_BIND_METHOD then Some ''AMQP_QUEUE_BIND_METHOD''
     else if methodNumber = AMQP_QUEUE_BIND_OK_METHOD then Some ''AMQP_QUEUE_BIND_OK_METHOD''
     else if methodNumber = AMQP_QUEUE_PURGE_METHOD then Some ''AMQP_QUEUE_PURGE_METHOD''
     else if methodNumber = AMQP_QUEUE_PURGE_OK_METHOD then Some ''AMQP_QUEUE_PURGE_OK_METHOD''
     else if methodNumber = AMQP_QUEUE_DELETE_METHOD then Some ''AMQP_QUEUE_DELETE_METHOD''
     else if methodNumber = AMQP_QUEUE_DELETE_OK_METHOD then Some ''AMQP_QUEUE_DELETE_OK_METHOD''
     else if methodNumber = AMQP_QUEUE_UNBIND_METHOD then Some ''AMQP_QUEUE_UNBIND_METHOD''
     else if methodNumber = AMQP_QUEUE_UNBIND_OK_METHOD then Some ''AMQP_QUEUE_UNBIND_OK_METHOD''
     else if methodNumber = AMQP_BASIC_QOS_METHOD then Some ''AMQP_BASIC_QOS_METHOD''
     else if methodNumber = AMQP_BASIC_QOS_OK_METHOD then Some ''AMQP_BASIC_QOS_OK_METHOD''
     else if methodNumber = AMQP_BASIC_CONSUME_METHOD then Some ''AMQP_BASIC_CONSUME_METHOD''
     else if methodNumber = AMQP_BASIC_CONSUME_OK_METHOD then Some ''AMQP_BASIC_CONSUME_OK_METHOD''
     else if methodNumber = AMQP_BASIC_CANCEL_METHOD then Some ''AMQP_BASIC_CANCEL_METHOD''
     else if methodNumber = AMQP_BASIC_CANCEL_OK_METHOD then Some ''AMQP_BASIC_CANCEL_OK_METHOD''
     else if methodNumber = AMQP_BASIC_PUBLISH_METHOD then Some ''AMQP_BASIC_PUBLISH_METHOD''
     else if methodNumber = AMQP_BASIC_RETURN_METHOD then Some ''AMQP_BASIC_RETURN_METHOD''
     else if methodNumber = AMQP_BASIC_DELIVER_METHOD then Some ''AMQP_BASIC_DELIVER_METHOD''
     else if methodNumber = AMQP_BASIC_GET_METHOD then Some ''AMQP_BASIC_GET_METHOD''
     else if methodNumber = AMQP_BASIC_GET_OK_METHOD then Some ''AMQP_BASIC_GET_OK_METHOD''
     else if methodNumber = AMQP_BASIC_GET_EMPTY_METHOD then Some ''AMQP_BASIC_GET_EMPTY_METHOD''
     else if methodNumber = AMQP_BASIC_ACK_METHOD then Some ''AMQP_BASIC_ACK_METHOD''
     else if methodNumber = AMQP_BASIC_REJECT_METHOD then Some ''AMQP_BASIC_REJECT_METHOD''
     else if methodNumber = AMQP_BASIC_RECOVER_ASYNC_METHOD then Some ''AMQP_BASIC_RECOVER_ASYNC_METHOD''
     else if methodNumber = AMQP_BASIC_RECOVER_METHOD then Some ''AMQP_BASIC_RECOVER_METHOD''
     else if methodNumber = AMQP_BASIC_RECOVER_OK_METHOD then Some ''AMQP_BASIC_RECOVER_OK_METHOD''
     else if methodNumber = AMQP_BASIC_NACK_METHOD then Some ''AMQP_BASIC_NACK_METHOD''
     else if methodNumber = AMQP_TX_SELECT_METHOD then Some ''AMQP_TX_SELECT_METHOD''
     else if methodNumber = AMQP_TX_SELECT_OK_METHOD then Some ''AMQP_TX_SELECT_OK_METHOD''
     else if methodNumber = AMQP_TX_COMMIT_METHOD then Some ''AMQP_TX_COMMIT_METHOD''
     else if methodNumber = AMQP_TX_COMMIT_OK_METHOD then Some ''AMQP_TX_COMMIT_OK_METHOD''
     else if methodNumber = AMQP_TX_ROLLBACK_METHOD then Some ''AMQP_TX_ROLLBACK_METHOD''
     else if methodNumber = AMQP_TX_ROLLBACK_OK_METHOD then Some ''AMQP_TX_ROLLBACK_OK_METHOD''
     else if methodNumber = AMQP_CONFIRM_SELECT_METHOD then Some ''AMQP_CONFIRM_SELECT_METHOD''
     else if methodNumber = AMQP_CONFIRM_SELECT_OK_METHOD then Some ''AMQP_CONFIRM_SELECT_OK_METHOD''
     else None)"

definition amqp_method_has_content :: "u32 \<Rightarrow> bool" where
  "amqp_method_has_content methodNumber \<longleftrightarrow>
    methodNumber \<in> {AMQP_BASIC_PUBLISH_METHOD, AMQP_BASIC_RETURN_METHOD,
      AMQP_BASIC_DELIVER_METHOD, AMQP_BASIC_GET_OK_METHOD}"

section \<open>The structs of all methods\<close>

datatype amqp_method_struct =
    M_Connection connection_method
  | M_Channel channel_method
  | M_Access access_method
  | M_Exchange exchange_method
  | M_Queue queue_method
  | M_Basic basic_method
  | M_Tx tx_method
  | M_Confirm confirm_method

fun method_number :: "amqp_method_struct \<Rightarrow> u32" where
  "method_number (M_Connection m) = connection_number m"
| "method_number (M_Channel m) = channel_number m"
| "method_number (M_Access m) = access_number m"
| "method_number (M_Exchange m) = exchange_number m"
| "method_number (M_Queue m) = queue_number m"
| "method_number (M_Basic m) = basic_number m"
| "method_number (M_Tx m) = tx_number m"
| "method_number (M_Confirm m) = confirm_number m"

fun wire_method :: "amqp_method_struct \<Rightarrow> amqp_bytes" where
  "wire_method (M_Connection m) = wire_connection m"
| "wire_method (M_Channel m) = wire_channel m"
| "wire_method (M_Access m) = wire_access m"
| "wire_method (M_Exchange m) = wire_exchange m"
| "wire_method (M_Queue m) = wire_queue m"
| "wire_method (M_Basic m) = wire_basic m"
| "wire_method (M_Tx m) = wire_tx m"
| "wire_method (M_Confirm m) = wire_confirm m"

fun valid_method :: "amqp_method_struct \<Rightarrow> bool" where
  "valid_method (M_Connection m) = valid_connection m"
| "valid_method (M_Channel m) = valid_channel m"
| "valid_method (M_Access m) = valid_access m"
| "valid_method (M_Exchange m) = valid_exchange m"
| "valid_method (M_Queue m) = valid_queue m"
| "valid_method (M_Basic m) = valid_basic m"
| "valid_method (M_Tx m) = valid_tx m"
| "valid_method (M_Confirm m) = valid_confirm m"

section \<open>The switches\<close>

definition decode_method_switch :: "u32 \<Rightarrow> amqp_method_struct dec" where
  "decode_method_switch methodNumber =
    switch
      [as_struct M_Connection (decode_connection methodNumber),
       as_struct M_Channel (decode_channel methodNumber),
       as_struct M_Access (decode_access methodNumber),
       as_struct M_Exchange (decode_exchange methodNumber),
       as_struct M_Queue (decode_queue methodNumber),
       as_struct M_Basic (decode_basic methodNumber),
       as_struct M_Tx (decode_tx methodNumber),
       as_struct M_Confirm (decode_confirm methodNumber)]
      (d_fail (Status AMQP_STATUS_UNKNOWN_METHOD))"

definition encode_method_switch :: "u32 \<Rightarrow> amqp_method_struct \<Rightarrow> enc" where
  "encode_method_switch methodNumber decoded =
    switch
      [encode_connection methodNumber (case decoded of M_Connection m \<Rightarrow> Some m | _ \<Rightarrow> None),
       encode_channel methodNumber (case decoded of M_Channel m \<Rightarrow> Some m | _ \<Rightarrow> None),
       encode_access methodNumber (case decoded of M_Access m \<Rightarrow> Some m | _ \<Rightarrow> None),
       encode_exchange methodNumber (case decoded of M_Exchange m \<Rightarrow> Some m | _ \<Rightarrow> None),
       encode_queue methodNumber (case decoded of M_Queue m \<Rightarrow> Some m | _ \<Rightarrow> None),
       encode_basic methodNumber (case decoded of M_Basic m \<Rightarrow> Some m | _ \<Rightarrow> None),
       encode_tx methodNumber (case decoded of M_Tx m \<Rightarrow> Some m | _ \<Rightarrow> None),
       encode_confirm methodNumber (case decoded of M_Confirm m \<Rightarrow> Some m | _ \<Rightarrow> None)]
      (e_fail AMQP_STATUS_UNKNOWN_METHOD)"

text \<open>
  The functions themselves start at offset 0. The encoder returns the offset it reached, converted
  to the C type \<^verbatim>\<open>int\<close>.
\<close>

definition amqp_decode_method :: "u32 \<Rightarrow> amqp_method_struct dec" where
  "amqp_decode_method methodNumber encoded d = decode_method_switch methodNumber encoded (d\<lparr>d_off := 0\<rparr>)"

definition amqp_encode_method :: "u32 \<Rightarrow> amqp_method_struct \<Rightarrow> amqp_bytes \<Rightarrow> int outcome \<times> amqp_bytes" where
  "amqp_encode_method methodNumber decoded encoded =
    (case encode_method_switch methodNumber decoded (encoded, 0) of
       (None, (encoded', offset)) \<Rightarrow> (Inr (as_int offset), encoded')
     | (Some e, (encoded', _)) \<Rightarrow> (Inl e, encoded'))"

section \<open>The contract of the switches\<close>

lemmas class_guarded = connection_class.dec_guarded
  channel_class.dec_guarded
  access_class.dec_guarded
  exchange_class.dec_guarded
  queue_class.dec_guarded
  basic_class.dec_guarded
  tx_class.dec_guarded
  confirm_class.dec_guarded

lemmas class_numbers = connection_class.dec_number
  channel_class.dec_number
  access_class.dec_number
  exchange_class.dec_number
  queue_class.dec_number
  basic_class.dec_number
  tx_class.dec_number
  confirm_class.dec_number

lemmas class_enc_case = connection_class.enc_case_writes
  channel_class.enc_case_writes
  access_class.enc_case_writes
  exchange_class.enc_case_writes
  queue_class.enc_case_writes
  basic_class.enc_case_writes
  tx_class.enc_case_writes
  confirm_class.enc_case_writes

lemmas class_dec_case = connection_class.dec_case_reads
  channel_class.dec_case_reads
  access_class.dec_case_reads
  exchange_class.dec_case_reads
  queue_class.dec_case_reads
  basic_class.dec_case_reads
  tx_class.dec_case_reads
  confirm_class.dec_case_reads

lemma decode_method_switch_guarded: "guarded (decode_method_switch n)"
  unfolding decode_method_switch_def
  by (rule guarded_switch) (auto intro: guarded_fail class_guarded elim!: guarded_as_struct)

text \<open>The struct a decoder returns is the one that belongs to the method number.\<close>

lemma decode_method_switch_number: "returns (decode_method_switch n) (\<lambda>m. method_number m = n)"
  unfolding decode_method_switch_def
  by (rule returns_switch) (auto intro: returns_fail class_numbers elim!: returns_as_struct)

section \<open>The switches know the methods that have a name\<close>

lemmas class_allocates = connection_class.dec_allocates
  channel_class.dec_allocates
  access_class.dec_allocates
  exchange_class.dec_allocates
  queue_class.dec_allocates
  basic_class.dec_allocates
  tx_class.dec_allocates
  confirm_class.dec_allocates

lemmas class_enc_dec = connection_class.enc_dec
  channel_class.enc_dec
  access_class.enc_dec
  exchange_class.enc_dec
  queue_class.enc_dec
  basic_class.enc_dec
  tx_class.enc_dec
  confirm_class.enc_dec

lemma if_Some_eq_None: "((if c then Some a else x) = None) = (\<not> c \<and> x = None)"
  by simp

lemma amqp_method_name_None:
  "amqp_method_name n = None \<longleftrightarrow>
    decode_connection n = None
    \<and> decode_channel n = None
    \<and> decode_access n = None
    \<and> decode_exchange n = None
    \<and> decode_queue n = None
    \<and> decode_basic n = None
    \<and> decode_tx n = None
    \<and> decode_confirm n = None"
  unfolding amqp_method_name_def decode_connection_def decode_channel_def decode_access_def decode_exchange_def decode_queue_def decode_basic_def decode_tx_def decode_confirm_def
  by (simp only: if_Some_eq_None conj_assoc simp_thms)

lemma unnamed_method:
  assumes "amqp_method_name n = None"
  shows "decode_method_switch n = d_fail (Status AMQP_STATUS_UNKNOWN_METHOD)"
    and "encode_method_switch n m = e_fail AMQP_STATUS_UNKNOWN_METHOD"
  unfolding decode_method_switch_def encode_method_switch_def
  by (rule switch_default; use assms in \<open>auto simp: amqp_method_name_None class_enc_dec\<close>)+

lemma named_method: "amqp_method_name n \<noteq> None \<Longrightarrow> allocates (decode_method_switch n)"
  unfolding decode_method_switch_def
  by (rule allocates_switch)
    (auto simp: amqp_method_name_None intro: class_allocates elim!: allocates_as_struct)

lemmas class_ids = connection_class.number_class [simplified]
  channel_class.number_class [simplified]
  access_class.number_class [simplified]
  exchange_class.number_class [simplified]
  queue_class.number_class [simplified]
  basic_class.number_class [simplified]
  tx_class.number_class [simplified]
  confirm_class.number_class [simplified]

lemmas other_classes = connection_class.other_class [simplified]
  channel_class.other_class [simplified]
  access_class.other_class [simplified]
  exchange_class.other_class [simplified]
  queue_class.other_class [simplified]
  basic_class.other_class [simplified]
  tx_class.other_class [simplified]
  confirm_class.other_class [simplified]

lemma encode_method_switch_writes:
  "valid_method m \<Longrightarrow> writes (encode_method_switch (method_number m) m) (wire_method m)"
  by (cases m) (simp_all add: encode_method_switch_def other_classes class_ids class_enc_case)

lemma decode_method_switch_reads:
  "valid_method m \<Longrightarrow> reads (decode_method_switch (method_number m)) (wire_method m) m"
  by (cases m) (simp_all add: decode_method_switch_def other_classes class_ids class_dec_case)

interpretation method_codec: wire_codec "encode_method_switch n" "decode_method_switch n" wire_method
  "\<lambda>m. method_number m = n \<and> valid_method m" for n :: u32
  by unfold_locales
    (auto simp: encode_method_switch_writes decode_method_switch_reads decode_method_switch_guarded)

lemma amqp_encode_method_fits:
  assumes "valid_method m" "length buf < 2 ^ 31" "length (wire_method m) \<le> length buf"
  shows "amqp_encode_method (method_number m) m buf = (Inr (int (length (wire_method m))), blit buf 0 (wire_method m))"
  using writes_fit [OF encode_method_switch_writes [OF assms(1)], of buf 0] assms(2,3)
  by (simp add: amqp_encode_method_def as_int_small)

lemma amqp_encode_method_too_big:
  assumes "valid_method m" "length buf < 2 ^ 31" "length buf < length (wire_method m)"
  shows "\<exists>s buf'. amqp_encode_method (method_number m) m buf = (Inl (Status s), buf')"
  using writes_overflow [OF encode_method_switch_writes [OF assms(1)], of buf 0] assms(2,3)
  by (auto simp: amqp_encode_method_def split: prod.splits)

end
