(* ===== verification/Amqp_Properties.thy ===== *)
theory Amqp_Properties
  imports Amqp_Framing
begin

text \<open>
  Content properties (\<^verbatim>\<open>amqp_decode_properties\<close> and \<^verbatim>\<open>amqp_encode_properties\<close> of
  \<^verbatim>\<open>amqp_framing.c\<close>): the loops over the words of property flags and the optional fields of the
  basic class. A field of \<^verbatim>\<open>amqp_basic_properties_t\<close> that the program has not written is \<open>None\<close>;
  the decoder writes the fields whose flag is set and no other, and reading an unwritten one is
  undefined behaviour.
\<close>

section \<open>amqp\_framing.h: flags and structs\<close>

type_synonym amqp_flags = u32

abbreviation AMQP_BASIC_CONTENT_TYPE_FLAG :: amqp_flags where "AMQP_BASIC_CONTENT_TYPE_FLAG \<equiv> 0x8000"
abbreviation AMQP_BASIC_CONTENT_ENCODING_FLAG :: amqp_flags where "AMQP_BASIC_CONTENT_ENCODING_FLAG \<equiv> 0x4000"
abbreviation AMQP_BASIC_HEADERS_FLAG :: amqp_flags where "AMQP_BASIC_HEADERS_FLAG \<equiv> 0x2000"
abbreviation AMQP_BASIC_DELIVERY_MODE_FLAG :: amqp_flags where "AMQP_BASIC_DELIVERY_MODE_FLAG \<equiv> 0x1000"
abbreviation AMQP_BASIC_PRIORITY_FLAG :: amqp_flags where "AMQP_BASIC_PRIORITY_FLAG \<equiv> 0x800"
abbreviation AMQP_BASIC_CORRELATION_ID_FLAG :: amqp_flags where "AMQP_BASIC_CORRELATION_ID_FLAG \<equiv> 0x400"
abbreviation AMQP_BASIC_REPLY_TO_FLAG :: amqp_flags where "AMQP_BASIC_REPLY_TO_FLAG \<equiv> 0x200"
abbreviation AMQP_BASIC_EXPIRATION_FLAG :: amqp_flags where "AMQP_BASIC_EXPIRATION_FLAG \<equiv> 0x100"
abbreviation AMQP_BASIC_MESSAGE_ID_FLAG :: amqp_flags where "AMQP_BASIC_MESSAGE_ID_FLAG \<equiv> 0x80"
abbreviation AMQP_BASIC_TIMESTAMP_FLAG :: amqp_flags where "AMQP_BASIC_TIMESTAMP_FLAG \<equiv> 0x40"
abbreviation AMQP_BASIC_TYPE_FLAG :: amqp_flags where "AMQP_BASIC_TYPE_FLAG \<equiv> 0x20"
abbreviation AMQP_BASIC_USER_ID_FLAG :: amqp_flags where "AMQP_BASIC_USER_ID_FLAG \<equiv> 0x10"
abbreviation AMQP_BASIC_APP_ID_FLAG :: amqp_flags where "AMQP_BASIC_APP_ID_FLAG \<equiv> 0x8"
abbreviation AMQP_BASIC_CLUSTER_ID_FLAG :: amqp_flags where "AMQP_BASIC_CLUSTER_ID_FLAG \<equiv> 0x4"

record amqp_basic_properties =
  bp_flags :: amqp_flags
  bp_content_type :: "amqp_bytes option"
  bp_content_encoding :: "amqp_bytes option"
  bp_headers :: "amqp_table option"
  bp_delivery_mode :: "u8 option"
  bp_priority :: "u8 option"
  bp_correlation_id :: "amqp_bytes option"
  bp_reply_to :: "amqp_bytes option"
  bp_expiration :: "amqp_bytes option"
  bp_message_id :: "amqp_bytes option"
  bp_timestamp :: "u64 option"
  bp_type :: "amqp_bytes option"
  bp_user_id :: "amqp_bytes option"
  bp_app_id :: "amqp_bytes option"
  bp_cluster_id :: "amqp_bytes option"

datatype amqp_properties =
    Connection_properties amqp_flags
  | Channel_properties amqp_flags
  | Access_properties amqp_flags
  | Exchange_properties amqp_flags
  | Queue_properties amqp_flags
  | Basic_properties amqp_basic_properties
  | Tx_properties amqp_flags
  | Confirm_properties amqp_flags

text \<open>\<^verbatim>\<open>* (amqp_flags_t *) decoded\<close>: the first member of each of the structs.\<close>

fun properties_flags :: "amqp_properties \<Rightarrow> amqp_flags" where
  "properties_flags (Connection_properties fl) = fl"
| "properties_flags (Channel_properties fl) = fl"
| "properties_flags (Access_properties fl) = fl"
| "properties_flags (Exchange_properties fl) = fl"
| "properties_flags (Queue_properties fl) = fl"
| "properties_flags (Basic_properties p) = bp_flags p"
| "properties_flags (Tx_properties fl) = fl"
| "properties_flags (Confirm_properties fl) = fl"

section \<open>The flag words\<close>

text \<open>
  The \<^verbatim>\<open>do\<close> loop of the decoder, with the number of the flag word and the flags collected so far.
  The 16-bit word is promoted to \<^verbatim>\<open>int\<close> before the shift; a shift by 32 or more is undefined.
\<close>

function decode_flag_words :: "nat \<Rightarrow> amqp_flags \<Rightarrow> amqp_flags dec" where
  "decode_flag_words flagword_index flags =
    d_bind d_16 (\<lambda>partial_flags.
      if 32 \<le> flagword_index * 16 then d_fail Undefined_behaviour
      else
        (let flags' = flags OR push_bit (flagword_index * 16) (ucast partial_flags)
         in if partial_flags AND 1 \<noteq> 0 then decode_flag_words (flagword_index + 1) flags'
            else d_return flags'))"
  by pat_completeness auto
termination by (relation "measure (\<lambda>(i, _). 2 - i)") auto

lemma drop_bit_16_less:
  fixes w :: amqp_flags
  assumes "drop_bit 16 w \<noteq> 0"
  shows "unat (drop_bit 16 w) < unat w"
proof -
  have "unat w div 2 ^ 16 \<noteq> 0"
    using assms by (metis drop_bit_eq_div unat_drop_bit_eq unat_eq_zero)
  then have "unat w div 2 ^ 16 < unat w"
    by (intro div_less_dividend) (auto intro: Nat.gr0I)
  then show ?thesis by (subst unat_drop_bit_eq) (simp only: drop_bit_eq_div)
qed

function encode_flag_words :: "amqp_flags \<Rightarrow> enc" where
  "encode_flag_words remaining_flags =
    (let remainder = drop_bit 16 remaining_flags;
         partial_flags = (ucast (remaining_flags AND 0xFFFE) :: u16);
         partial_flags' = (if remainder \<noteq> 0 then partial_flags OR 1 else partial_flags)
     in e_seq (e_16 partial_flags') (if remainder \<noteq> 0 then encode_flag_words remainder else e_block []))"
  by pat_completeness auto
termination by (relation "measure unat") (auto simp: drop_bit_16_less)

declare decode_flag_words.simps [simp del]
declare encode_flag_words.simps [simp del]

section \<open>Decoding\<close>

definition d_flagged :: "amqp_flags \<Rightarrow> amqp_flags \<Rightarrow> 'a dec \<Rightarrow> 'a option dec" where
  "d_flagged flags fmask d =
    (if flags AND fmask \<noteq> 0 then d_bind d (\<lambda>v. d_return (Some v)) else d_return None)"

definition sizeof_basic_properties :: nat where
  "sizeof_basic_properties = sizeof_struct
    [C_uint32, C_bytes, C_bytes, C_table, C_uint8, C_uint8, C_bytes, C_bytes, C_bytes, C_bytes,
     C_uint64, C_bytes, C_bytes, C_bytes, C_bytes]"

abbreviation flags_struct :: "c_type list" where "flags_struct \<equiv> [C_uint32, C_uint8]"

definition decode_basic_properties :: "amqp_flags \<Rightarrow> amqp_properties dec" where
  "decode_basic_properties flags =
    d_bind (d_pool_alloc sizeof_basic_properties) (\<lambda>_.
    d_bind (d_flagged flags AMQP_BASIC_CONTENT_TYPE_FLAG d_shortstr) (\<lambda>content_type.
    d_bind (d_flagged flags AMQP_BASIC_CONTENT_ENCODING_FLAG d_shortstr) (\<lambda>content_encoding.
    d_bind (d_flagged flags AMQP_BASIC_HEADERS_FLAG amqp_decode_table) (\<lambda>headers.
    d_bind (d_flagged flags AMQP_BASIC_DELIVERY_MODE_FLAG d_8) (\<lambda>delivery_mode.
    d_bind (d_flagged flags AMQP_BASIC_PRIORITY_FLAG d_8) (\<lambda>priority.
    d_bind (d_flagged flags AMQP_BASIC_CORRELATION_ID_FLAG d_shortstr) (\<lambda>correlation_id.
    d_bind (d_flagged flags AMQP_BASIC_REPLY_TO_FLAG d_shortstr) (\<lambda>reply_to.
    d_bind (d_flagged flags AMQP_BASIC_EXPIRATION_FLAG d_shortstr) (\<lambda>expiration.
    d_bind (d_flagged flags AMQP_BASIC_MESSAGE_ID_FLAG d_shortstr) (\<lambda>message_id.
    d_bind (d_flagged flags AMQP_BASIC_TIMESTAMP_FLAG d_64) (\<lambda>timestamp.
    d_bind (d_flagged flags AMQP_BASIC_TYPE_FLAG d_shortstr) (\<lambda>type.
    d_bind (d_flagged flags AMQP_BASIC_USER_ID_FLAG d_shortstr) (\<lambda>user_id.
    d_bind (d_flagged flags AMQP_BASIC_APP_ID_FLAG d_shortstr) (\<lambda>app_id.
    d_bind (d_flagged flags AMQP_BASIC_CLUSTER_ID_FLAG d_shortstr) (\<lambda>cluster_id.
    d_return (Basic_properties
      \<lparr>bp_flags = flags, bp_content_type = content_type,
       bp_content_encoding = content_encoding,
       bp_headers = headers,
       bp_delivery_mode = delivery_mode,
       bp_priority = priority,
       bp_correlation_id = correlation_id,
       bp_reply_to = reply_to,
       bp_expiration = expiration,
       bp_message_id = message_id,
       bp_timestamp = timestamp,
       bp_type = type,
       bp_user_id = user_id,
       bp_app_id = app_id,
       bp_cluster_id = cluster_id\<rparr>))))))))))))))))"

definition decode_properties_switch :: "u16 \<Rightarrow> amqp_flags \<Rightarrow> amqp_properties dec" where
  "decode_properties_switch class_id flags =
    (if class_id = 10 then d_bind (d_pool_alloc (sizeof_struct flags_struct)) (\<lambda>_. d_return (Connection_properties flags))
     else if class_id = 20 then d_bind (d_pool_alloc (sizeof_struct flags_struct)) (\<lambda>_. d_return (Channel_properties flags))
     else if class_id = 30 then d_bind (d_pool_alloc (sizeof_struct flags_struct)) (\<lambda>_. d_return (Access_properties flags))
     else if class_id = 40 then d_bind (d_pool_alloc (sizeof_struct flags_struct)) (\<lambda>_. d_return (Exchange_properties flags))
     else if class_id = 50 then d_bind (d_pool_alloc (sizeof_struct flags_struct)) (\<lambda>_. d_return (Queue_properties flags))
     else if class_id = 60 then decode_basic_properties flags
     else if class_id = 90 then d_bind (d_pool_alloc (sizeof_struct flags_struct)) (\<lambda>_. d_return (Tx_properties flags))
     else if class_id = 85 then d_bind (d_pool_alloc (sizeof_struct flags_struct)) (\<lambda>_. d_return (Confirm_properties flags))
     else d_fail (Status AMQP_STATUS_UNKNOWN_CLASS))"

definition decode_properties_body :: "u16 \<Rightarrow> amqp_properties dec" where
  "decode_properties_body class_id = d_bind (decode_flag_words 0 0) (decode_properties_switch class_id)"

definition amqp_decode_properties :: "u16 \<Rightarrow> amqp_properties dec" where
  "amqp_decode_properties class_id encoded d = decode_properties_body class_id encoded (d\<lparr>d_off := 0\<rparr>)"

section \<open>Encoding\<close>

definition e_flagged :: "amqp_flags \<Rightarrow> amqp_flags \<Rightarrow> ('a \<Rightarrow> enc) \<Rightarrow> 'a option \<Rightarrow> enc" where
  "e_flagged flags fmask e field =
    (if flags AND fmask \<noteq> 0 then (case field of Some v \<Rightarrow> e v | None \<Rightarrow> e_undefined) else e_block [])"

definition encode_basic_properties :: "amqp_flags \<Rightarrow> amqp_basic_properties \<Rightarrow> enc" where
  "encode_basic_properties flags p =
    e_block
      [e_flagged flags AMQP_BASIC_CONTENT_TYPE_FLAG e_shortstr (bp_content_type p),
       e_flagged flags AMQP_BASIC_CONTENT_ENCODING_FLAG e_shortstr (bp_content_encoding p),
       e_flagged flags AMQP_BASIC_HEADERS_FLAG amqp_encode_table (bp_headers p),
       e_flagged flags AMQP_BASIC_DELIVERY_MODE_FLAG (\<lambda>v. e_8 v) (bp_delivery_mode p),
       e_flagged flags AMQP_BASIC_PRIORITY_FLAG (\<lambda>v. e_8 v) (bp_priority p),
       e_flagged flags AMQP_BASIC_CORRELATION_ID_FLAG e_shortstr (bp_correlation_id p),
       e_flagged flags AMQP_BASIC_REPLY_TO_FLAG e_shortstr (bp_reply_to p),
       e_flagged flags AMQP_BASIC_EXPIRATION_FLAG e_shortstr (bp_expiration p),
       e_flagged flags AMQP_BASIC_MESSAGE_ID_FLAG e_shortstr (bp_message_id p),
       e_flagged flags AMQP_BASIC_TIMESTAMP_FLAG (\<lambda>v. e_64 v) (bp_timestamp p),
       e_flagged flags AMQP_BASIC_TYPE_FLAG e_shortstr (bp_type p),
       e_flagged flags AMQP_BASIC_USER_ID_FLAG e_shortstr (bp_user_id p),
       e_flagged flags AMQP_BASIC_APP_ID_FLAG e_shortstr (bp_app_id p),
       e_flagged flags AMQP_BASIC_CLUSTER_ID_FLAG e_shortstr (bp_cluster_id p)]"

definition encode_properties_switch :: "u16 \<Rightarrow> amqp_properties \<Rightarrow> enc" where
  "encode_properties_switch class_id decoded =
    (if class_id = 60 then
       (case decoded of
          Basic_properties p \<Rightarrow> encode_basic_properties (properties_flags decoded) p
        | _ \<Rightarrow> e_undefined)
     else if class_id \<in> {10, 20, 30, 40, 50, 90, 85} then e_block []
     else e_fail AMQP_STATUS_UNKNOWN_CLASS)"

definition encode_properties_body :: "u16 \<Rightarrow> amqp_properties \<Rightarrow> enc" where
  "encode_properties_body class_id decoded =
    e_seq (encode_flag_words (properties_flags decoded)) (encode_properties_switch class_id decoded)"

definition amqp_encode_properties :: "u16 \<Rightarrow> amqp_properties \<Rightarrow> amqp_bytes \<Rightarrow> int outcome \<times> amqp_bytes" where
  "amqp_encode_properties class_id decoded encoded =
    (case encode_properties_body class_id decoded (encoded, 0) of
       (None, (encoded', offset)) \<Rightarrow> (Inr (as_int offset), encoded')
     | (Some e, (encoded', _)) \<Rightarrow> (Inl e, encoded'))"

section \<open>Wire format\<close>

definition wire_flags :: "amqp_flags \<Rightarrow> amqp_bytes" where
  "wire_flags flags =
    (if drop_bit 16 flags = 0 then be16 (ucast (flags AND 0xFFFE))
     else be16 (ucast (flags AND 0xFFFE) OR 1) @ be16 (ucast (drop_bit 16 flags AND 0xFFFE)))"

text \<open>
  Bit 0 of a flag word says that another one follows: flags that come back unchanged have it set
  in the low word exactly when the high word is not zero, and clear in the high word.
\<close>

definition valid_flags :: "amqp_flags \<Rightarrow> bool" where
  "valid_flags flags \<longleftrightarrow> (bit flags 0 \<longleftrightarrow> drop_bit 16 flags \<noteq> 0) \<and> \<not> bit flags 16"

definition wire_flagged :: "('a \<Rightarrow> amqp_bytes) \<Rightarrow> 'a option \<Rightarrow> amqp_bytes" where
  "wire_flagged w field = (case field of None \<Rightarrow> [] | Some v \<Rightarrow> w v)"

definition valid_flagged :: "amqp_flags \<Rightarrow> amqp_flags \<Rightarrow> ('a \<Rightarrow> bool) \<Rightarrow> 'a option \<Rightarrow> bool" where
  "valid_flagged flags fmask P field \<longleftrightarrow>
    (case field of None \<Rightarrow> flags AND fmask = 0 | Some v \<Rightarrow> flags AND fmask \<noteq> 0 \<and> P v)"

definition wire_basic_properties :: "amqp_basic_properties \<Rightarrow> amqp_bytes" where
  "wire_basic_properties p =
    concat
      [wire_flagged wire_shortstr (bp_content_type p),
       wire_flagged wire_shortstr (bp_content_encoding p),
       wire_flagged wire_table (bp_headers p),
       wire_flagged (\<lambda>v. [v]) (bp_delivery_mode p),
       wire_flagged (\<lambda>v. [v]) (bp_priority p),
       wire_flagged wire_shortstr (bp_correlation_id p),
       wire_flagged wire_shortstr (bp_reply_to p),
       wire_flagged wire_shortstr (bp_expiration p),
       wire_flagged wire_shortstr (bp_message_id p),
       wire_flagged be64 (bp_timestamp p),
       wire_flagged wire_shortstr (bp_type p),
       wire_flagged wire_shortstr (bp_user_id p),
       wire_flagged wire_shortstr (bp_app_id p),
       wire_flagged wire_shortstr (bp_cluster_id p)]"

definition valid_basic_properties :: "amqp_basic_properties \<Rightarrow> bool" where
  "valid_basic_properties p \<longleftrightarrow>
    valid_flagged (bp_flags p) AMQP_BASIC_CONTENT_TYPE_FLAG (\<lambda>s. short_str s) (bp_content_type p)
    \<and> valid_flagged (bp_flags p) AMQP_BASIC_CONTENT_ENCODING_FLAG (\<lambda>s. short_str s) (bp_content_encoding p)
    \<and> valid_flagged (bp_flags p) AMQP_BASIC_HEADERS_FLAG valid_table (bp_headers p)
    \<and> valid_flagged (bp_flags p) AMQP_BASIC_DELIVERY_MODE_FLAG (\<lambda>_. True) (bp_delivery_mode p)
    \<and> valid_flagged (bp_flags p) AMQP_BASIC_PRIORITY_FLAG (\<lambda>_. True) (bp_priority p)
    \<and> valid_flagged (bp_flags p) AMQP_BASIC_CORRELATION_ID_FLAG (\<lambda>s. short_str s) (bp_correlation_id p)
    \<and> valid_flagged (bp_flags p) AMQP_BASIC_REPLY_TO_FLAG (\<lambda>s. short_str s) (bp_reply_to p)
    \<and> valid_flagged (bp_flags p) AMQP_BASIC_EXPIRATION_FLAG (\<lambda>s. short_str s) (bp_expiration p)
    \<and> valid_flagged (bp_flags p) AMQP_BASIC_MESSAGE_ID_FLAG (\<lambda>s. short_str s) (bp_message_id p)
    \<and> valid_flagged (bp_flags p) AMQP_BASIC_TIMESTAMP_FLAG (\<lambda>_. True) (bp_timestamp p)
    \<and> valid_flagged (bp_flags p) AMQP_BASIC_TYPE_FLAG (\<lambda>s. short_str s) (bp_type p)
    \<and> valid_flagged (bp_flags p) AMQP_BASIC_USER_ID_FLAG (\<lambda>s. short_str s) (bp_user_id p)
    \<and> valid_flagged (bp_flags p) AMQP_BASIC_APP_ID_FLAG (\<lambda>s. short_str s) (bp_app_id p)
    \<and> valid_flagged (bp_flags p) AMQP_BASIC_CLUSTER_ID_FLAG (\<lambda>s. short_str s) (bp_cluster_id p)"

fun properties_class :: "amqp_properties \<Rightarrow> u16" where
  "properties_class (Connection_properties _) = 10"
| "properties_class (Channel_properties _) = 20"
| "properties_class (Access_properties _) = 30"
| "properties_class (Exchange_properties _) = 40"
| "properties_class (Queue_properties _) = 50"
| "properties_class (Basic_properties _) = 60"
| "properties_class (Tx_properties _) = 90"
| "properties_class (Confirm_properties _) = 85"

definition wire_properties :: "amqp_properties \<Rightarrow> amqp_bytes" where
  "wire_properties p =
    wire_flags (properties_flags p)
    @ (case p of Basic_properties b \<Rightarrow> wire_basic_properties b | _ \<Rightarrow> [])"

definition valid_properties :: "amqp_properties \<Rightarrow> bool" where
  "valid_properties p \<longleftrightarrow>
    valid_flags (properties_flags p)
    \<and> (case p of Basic_properties b \<Rightarrow> valid_basic_properties b | _ \<Rightarrow> True)"

section \<open>The flag words come back\<close>

lemma drop_bit_16_16 [simp]: "drop_bit 16 (drop_bit 16 (w :: amqp_flags)) = 0"
  by (rule bit_word_eqI) (simp add: bit_simps)

lemma drop_bit_ucast_16 [simp]: "drop_bit 16 (ucast (w :: u16) :: amqp_flags) = 0"
  by (rule bit_word_eqI) (auto simp: bit_simps dest: bit_imp_le_length)

lemma encode_flag_words_writes: "writes (encode_flag_words flags) (wire_flags flags)"
proof (cases "drop_bit 16 flags = 0")
  case True
  then show ?thesis
    using writes_seq [OF writes_16 writes_nothing]
    by (simp add: encode_flag_words.simps [of flags] wire_flags_def)
next
  case False
  have "writes (encode_flag_words (drop_bit 16 flags)) (be16 (ucast (drop_bit 16 flags AND 0xFFFE)))"
    using writes_seq [OF writes_16 writes_nothing]
    by (simp add: encode_flag_words.simps [of "drop_bit 16 flags"])
  from writes_seq [OF writes_16 this] False show ?thesis
    by (simp add: encode_flag_words.simps [of flags] wire_flags_def Let_def)
qed

lemma bit_FFFE:
  "bit (0xFFFE :: amqp_flags) n \<longleftrightarrow> 0 < n \<and> n < 16" "bit (0xFFFE :: u16) n \<longleftrightarrow> 0 < n \<and> n < 16"
  "bit (0xFFFE :: int) n \<longleftrightarrow> 0 < n \<and> n < 16"
proof -
  have "(0xFFFE :: amqp_flags) = mask 16 AND NOT 1" "(0xFFFE :: u16) = mask 16 AND NOT 1"
    "(0xFFFE :: int) = mask 16 AND NOT 1"
    by (simp_all add: mask_eq_exp_minus_1)
  then show "bit (0xFFFE :: amqp_flags) n \<longleftrightarrow> 0 < n \<and> n < 16" "bit (0xFFFE :: u16) n \<longleftrightarrow> 0 < n \<and> n < 16"
    "bit (0xFFFE :: int) n \<longleftrightarrow> 0 < n \<and> n < 16"
    by (simp_all only: bit_simps) auto
qed

lemma and_1_bit: "(w :: u16) AND 1 \<noteq> 0 \<longleftrightarrow> bit w 0"
  by (simp add: and_one_eq bit_0 odd_iff_mod_2_eq_one)

lemma decode_last_flag_word:
  assumes "i < 2" "\<not> bit w 0"
  shows "reads (decode_flag_words i acc) (be16 w) (acc OR push_bit (i * 16) (ucast w))"
proof -
  have "reads (decode_flag_words i acc) (be16 w @ []) (acc OR push_bit (i * 16) (ucast w))"
    unfolding decode_flag_words.simps [of i acc]
    by (rule reads_bind [OF reads_16]) (use assms in \<open>simp add: and_1_bit reads_return Let_def\<close>)
  then show ?thesis by simp
qed

lemma decode_flag_words_reads:
  assumes "valid_flags flags"
  shows "reads (decode_flag_words 0 0) (wire_flags flags) flags"
proof (cases "drop_bit 16 flags = 0")
  case True
  have hi: "\<not> bit flags n" if "16 \<le> n" for n
    using arg_cong [OF True, of "\<lambda>w. bit w (n - 16)"] that by (simp add: bit_simps)
  have lo: "\<not> bit flags 0" using assms True by (simp add: valid_flags_def)
  have "ucast (ucast (flags AND 0xFFFE) :: u16) = flags"
    by (rule bit_word_eqI) (use hi lo in \<open>auto simp: bit_simps bit_FFFE not_le intro: ccontr\<close>)
  with decode_last_flag_word [of 0 "ucast (flags AND 0xFFFE)" 0] True show ?thesis
    by (simp add: wire_flags_def bit_simps)
next
  case False
  let ?lo = "ucast (flags AND 0xFFFE) OR 1 :: u16" and ?hi = "ucast (drop_bit 16 flags AND 0xFFFE) :: u16"
  have lo: "bit flags 0" "\<not> bit flags 16" using assms False by (simp_all add: valid_flags_def)
  have eq: "ucast ?lo OR push_bit 16 (ucast ?hi) = flags"
  proof (rule bit_word_eqI)
    fix n assume "n < LENGTH(32)"
    with lo show "bit (ucast ?lo OR push_bit 16 (ucast ?hi) :: amqp_flags) n = bit flags n"
      by (cases "n = 0"; cases "n = 16"; cases "n < 16") (auto simp: bit_simps bit_FFFE)
  qed
  have "reads (decode_flag_words 1 (ucast ?lo)) (be16 ?hi) flags"
    using decode_last_flag_word [of 1 ?hi "ucast ?lo"] by (simp add: bit_simps eq)
  then have "reads (decode_flag_words 0 0) (be16 ?lo @ be16 ?hi) flags"
    unfolding decode_flag_words.simps [of 0 0]
    by (intro reads_bind [OF reads_16]) (simp add: and_1_bit Let_def bit_simps)
  with False show ?thesis by (simp add: wire_flags_def)
qed

section \<open>The optional fields come back\<close>

lemma writes_flagged:
  assumes "valid_flagged flags fmask P field" "\<And>v. P v \<Longrightarrow> writes (e v) (w v)"
  shows "writes (e_flagged flags fmask e field) (wire_flagged w field)"
  using assms
  by (auto simp: valid_flagged_def e_flagged_def wire_flagged_def writes_nothing split: option.splits)

lemma reads_flagged:
  assumes "valid_flagged flags fmask P field" "\<And>v. P v \<Longrightarrow> reads d (w v) v"
  shows "reads (d_flagged flags fmask d) (wire_flagged w field) field"
proof (cases field)
  case None
  with assms(1) show ?thesis
    by (simp add: d_flagged_def wire_flagged_def valid_flagged_def reads_return)
next
  case (Some v)
  with assms have "flags AND fmask \<noteq> 0" "reads d (w v) v" by (auto simp: valid_flagged_def)
  with reads_bind [OF this(2) reads_return, of Some] Some show ?thesis
    by (simp add: d_flagged_def wire_flagged_def)
qed

lemma guarded_flagged: "guarded d \<Longrightarrow> guarded (d_flagged flags fmask d)"
  by (simp add: d_flagged_def wire_intros)

lemma encode_basic_properties_writes:
  assumes "valid_basic_properties p"
  shows "writes (encode_basic_properties (bp_flags p) p) (wire_basic_properties p)"
  using assms
  unfolding encode_basic_properties_def wire_basic_properties_def valid_basic_properties_def
  by (elim conjE, intro writes_concat list.rel_intros)
    (rule writes_flagged, assumption, simp add: framing_writes)+

lemma decode_basic_properties_reads:
  assumes "valid_basic_properties p"
  shows "reads (decode_basic_properties (bp_flags p)) (wire_basic_properties p) (Basic_properties p)"
  using assms
  unfolding decode_basic_properties_def wire_basic_properties_def valid_basic_properties_def sizeof_basic_properties_def
  by (elim conjE, intro reads_alloc)
    (simp, simp, (rule reads_field, rule reads_flagged, assumption, simp add: framing_reads)+, rule reads_done, simp)

lemma guarded_basic_properties: "guarded (decode_basic_properties flags)"
  unfolding decode_basic_properties_def by (intro wire_intros guarded_flagged)

lemma guarded_properties_switch: "guarded (decode_properties_switch class_id flags)"
  unfolding decode_properties_switch_def by (simp add: wire_intros guarded_basic_properties)

lemma decode_properties_switch_reads:
  assumes "valid_properties p"
  shows "reads (decode_properties_switch (properties_class p) (properties_flags p))
    (case p of Basic_properties b \<Rightarrow> wire_basic_properties b | _ \<Rightarrow> []) p"
  using assms decode_basic_properties_reads reads_alloc [OF _ _ reads_return, of flags_struct]
  by (cases p) (simp_all add: decode_properties_switch_def valid_properties_def)

lemma encode_properties_writes:
  assumes "valid_properties p"
  shows "writes (encode_properties_body (properties_class p) p) (wire_properties p)"
proof -
  have "writes (encode_properties_switch (properties_class p) p)
      (case p of Basic_properties b \<Rightarrow> wire_basic_properties b | _ \<Rightarrow> [])"
    using assms encode_basic_properties_writes
    by (cases p) (simp_all add: encode_properties_switch_def valid_properties_def writes_nothing)
  then show ?thesis
    unfolding encode_properties_body_def wire_properties_def
    by (intro writes_seq encode_flag_words_writes)
qed

lemma decode_properties_reads:
  assumes "valid_properties p"
  shows "reads (decode_properties_body (properties_class p)) (wire_properties p) p"
  unfolding decode_properties_body_def wire_properties_def
  by (rule reads_bind, rule decode_flag_words_reads)
    (use assms decode_properties_switch_reads in \<open>simp_all add: valid_properties_def\<close>)

interpretation properties: wire_format "encode_properties_body c" "decode_properties_body c"
  wire_properties "\<lambda>p. properties_class p = c \<and> valid_properties p" for c :: u16
  by unfold_locales (auto simp: encode_properties_writes decode_properties_reads)

section \<open>The decoder on arbitrary bytes\<close>

text \<open>
  Like \<open>guarded\<close>, but the decoder may run into undefined behaviour; it does so exactly when three
  flag words in a row are there and the first two announce a successor.
\<close>

definition flag_words_overrun :: "amqp_bytes \<Rightarrow> nat \<Rightarrow> bool" where
  "flag_words_overrun encoded off \<longleftrightarrow>
    off + 6 \<le> length encoded \<and> bit (encoded ! (off + 1)) 0 \<and> bit (encoded ! (off + 3)) 0"

lemma d_16_run:
  assumes "in_memory encoded" "d_off d \<le> length encoded"
  shows "d_16 encoded d =
    (if d_off d + 2 \<le> length encoded
     then (Inr (from_be16 [encoded ! d_off d, encoded ! (d_off d + 1)]), d\<lparr>d_off := d_off d + 2\<rparr>)
     else (Inl (Status AMQP_STATUS_BAD_AMQP_DATA), d\<lparr>d_off := d_off d + 2\<rparr>))"
proof (cases "d_off d + 2 \<le> length encoded")
  case True
  then have "take 2 (drop (d_off d) encoded) = [encoded ! d_off d, encoded ! (d_off d + 1)]"
    by (simp add: numeral_2_eq_2 Cons_nth_drop_Suc [symmetric])
  with True assms show ?thesis
    by (simp add: d_try_def amqp_decode_16_def decode_base_def amqp_d16_def mem_read_def Let_def)
next
  case False
  with assms show ?thesis
    by (simp add: d_try_def amqp_decode_16_def decode_base_def Let_def)
qed

lemma odd_from_be16: "from_be16 [a, b] AND 1 \<noteq> 0 \<longleftrightarrow> bit b 0"
  unfolding and_1_bit by (simp add: from_be16_def bit_simps)

lemma decode_flag_words_run:
  assumes "in_memory encoded" "d_off d \<le> length encoded" "decode_flag_words 0 0 encoded d = (r, d')"
  shows "case r of
      Inr v \<Rightarrow> \<not> flag_words_overrun encoded (d_off d) \<and> d_off d \<le> d_off d' \<and> d_off d' \<le> length encoded
    | Inl e \<Rightarrow> e = (if flag_words_overrun encoded (d_off d) then Undefined_behaviour
                   else Status AMQP_STATUS_BAD_AMQP_DATA)"
  using assms
  by (auto simp: decode_flag_words.simps [of 0] decode_flag_words.simps [of 1] decode_flag_words.simps [of "Suc 0"]
      decode_flag_words.simps [of 2] decode_flag_words.simps [of "Suc (Suc 0)"]
      d_bind_def d_16_run odd_from_be16 Let_def d_return_def d_fail_def flag_words_overrun_def numeral_3_eq_3
      split: if_splits sum.splits)

lemma decode_properties_run:
  assumes "in_memory encoded" "d_off d \<le> length encoded" "decode_properties_body c encoded d = (r, d')"
  shows "case r of
      Inr v \<Rightarrow> d_off d \<le> d_off d' \<and> d_off d' \<le> length encoded
    | Inl e \<Rightarrow> (if flag_words_overrun encoded (d_off d) then e = Undefined_behaviour else \<exists>s. e = Status s)"
proof (cases "decode_flag_words 0 0 encoded d")
  case (Pair r1 d1)
  note run = decode_flag_words_run [OF assms(1,2) Pair]
  show ?thesis
  proof (cases r1)
    case (Inl e)
    with run Pair assms(3) show ?thesis by (auto simp: decode_properties_body_def d_bind_def)
  next
    case (Inr flags)
    with run Pair assms(3) have d1: "d_off d \<le> d_off d1" "d_off d1 \<le> length encoded"
      "\<not> flag_words_overrun encoded (d_off d)"
      and sw: "decode_properties_switch c flags encoded d1 = (r, d')"
      by (auto simp: decode_properties_body_def d_bind_def)
    from guarded_value [OF guarded_properties_switch assms(1) d1(2)] 
      guarded_fault [OF guarded_properties_switch assms(1) d1(2)] sw d1
    show ?thesis by (cases r) fastforce+
  qed
qed

lemma decode_properties_overrun:
  assumes "in_memory encoded" "flag_words_overrun encoded (d_off d)"
  shows "fst (decode_properties_body c encoded d) = Inl Undefined_behaviour"
proof (cases "decode_flag_words 0 0 encoded d")
  case (Pair r1 d1)
  have "d_off d \<le> length encoded" using assms(2) by (simp add: flag_words_overrun_def)
  from decode_flag_words_run [OF assms(1) this Pair] assms(2) Pair show ?thesis
    by (auto simp: decode_properties_body_def d_bind_def split: sum.splits)
qed

end
