(* ===== verification/Amqp_Connection.thy ===== *)
theory Amqp_Connection
  imports Amqp_Properties Amqp_Pool
begin

text \<open>
  Frames on the wire (\<^verbatim>\<open>amqp_connection.c\<close>) and the pools of the channels (the end of
  \<^verbatim>\<open>amqp_mem.c\<close>): the state machine \<^verbatim>\<open>amqp_handle_input\<close> that collects the bytes of a frame and
  decodes it, and \<^verbatim>\<open>amqp_frame_to_bytes\<close>, which writes one.

  The buffer the machine collects into is either the eight bytes \<^verbatim>\<open>header_buffer\<close> inside the
  connection or a region of a channel's pool, whose real size is the requested one rounded up to
  eight. Memory fresh from a pool holds whatever was there before: the field \<open>stale_memory\<close>, and
  zeros behind it. An entry of \<open>pool_table\<close> is a \<^verbatim>\<open>amqp_pool_table_entry_t\<close>: the channel, the heap block
  of the entry and the pool. \<open>Memory_fault\<close> stands for every access that leaves the buffer, and for a slice
  of the frame that is passed to a decoder and reaches out of it.
\<close>

section \<open>State\<close>

datatype connection_state_enum =
    CONNECTION_STATE_IDLE
  | CONNECTION_STATE_INITIAL
  | CONNECTION_STATE_HEADER
  | CONNECTION_STATE_BODY

datatype inbound = In_header_buffer | In_pool amqp_bytes

record amqp_connection =
  pool_table :: "nat \<Rightarrow> (u16 \<times> nat \<times> amqp_pool) list"
  c_heap :: heap
  conn_state :: connection_state_enum
  channel_max :: int
  frame_max :: int
  header_buffer :: amqp_bytes
  inbound_buffer :: inbound
  inbound_offset :: nat
  target_size :: nat
  stale_memory :: amqp_bytes

datatype amqp_frame_payload =
    No_payload
  | Method_payload u32 amqp_method_struct
  | Properties_payload u16 u64 amqp_properties amqp_bytes
  | Body_payload amqp_bytes
  | Protocol_header_payload u8 u8 u8 u8

record amqp_frame =
  frame_type :: u8
  frame_channel :: u16
  frame_payload :: amqp_frame_payload

definition no_frame :: amqp_frame where
  "no_frame = \<lparr>frame_type = 0, frame_channel = 0, frame_payload = No_payload\<rparr>"

definition HEADER_SIZE :: nat where "HEADER_SIZE = 7"
definition FOOTER_SIZE :: nat where "FOOTER_SIZE = 1"
definition POOL_TABLE_SIZE :: nat where "POOL_TABLE_SIZE = 16"
definition sizeof_pool_table_entry :: nat where "sizeof_pool_table_entry = 80"

abbreviation FRAME_METHOD :: u8 where "FRAME_METHOD \<equiv> 1"
abbreviation FRAME_HEADER :: u8 where "FRAME_HEADER \<equiv> 2"
abbreviation FRAME_BODY :: u8 where "FRAME_BODY \<equiv> 3"
abbreviation FRAME_HEARTBEAT :: u8 where "FRAME_HEARTBEAT \<equiv> 8"
abbreviation FRAME_END :: u8 where "FRAME_END \<equiv> 206"
abbreviation AMQP_PSEUDOFRAME_PROTOCOL_HEADER :: u8 where "AMQP_PSEUDOFRAME_PROTOCOL_HEADER \<equiv> 0x41"

section \<open>amqp\_mem.c: the pools of the channels\<close>

definition pool_index :: "u16 \<Rightarrow> nat" where
  "pool_index ch = unat ch mod POOL_TABLE_SIZE"

definition amqp_get_channel_pool :: "('a amqp_connection_scheme) \<Rightarrow> u16 \<Rightarrow> amqp_pool option" where
  "amqp_get_channel_pool st ch = map_option snd (map_of (pool_table st (pool_index ch)) ch)"

definition amqp_get_or_create_channel_pool ::
    "('a amqp_connection_scheme) \<Rightarrow> u16 \<Rightarrow> amqp_pool option \<times> ('a amqp_connection_scheme)" where
  "amqp_get_or_create_channel_pool st ch =
    (case amqp_get_channel_pool st ch of
       Some p \<Rightarrow> (Some p, st)
     | None \<Rightarrow>
         (case malloc sizeof_pool_table_entry (c_heap st) of
            (None, h) \<Rightarrow> (None, st\<lparr>c_heap := h\<rparr>)
          | (Some b, h) \<Rightarrow>
              (let p = init_amqp_pool (size_of_int (frame_max st)); i = pool_index ch
               in (Some p, st\<lparr>pool_table := (pool_table st)(i := (ch, b, p) # pool_table st i),
                              c_heap := h\<rparr>))))"

text \<open>A change of the pool behind the pointer the two functions return.\<close>

definition put_channel_pool ::
    "('a amqp_connection_scheme) \<Rightarrow> u16 \<Rightarrow> amqp_pool \<Rightarrow> ('a amqp_connection_scheme)" where
  "put_channel_pool st ch p =
    st\<lparr>pool_table := (pool_table st)(pool_index ch :=
         map (\<lambda>(c, b, q). if c = ch then (c, b, p) else (c, b, q)) (pool_table st (pool_index ch)))\<rparr>"

section \<open>Collecting the bytes of a frame\<close>

definition return_to_idle :: "('a amqp_connection_scheme) \<Rightarrow> ('a amqp_connection_scheme)" where
  "return_to_idle st =
    st\<lparr>inbound_buffer := In_header_buffer, inbound_offset := 0, target_size := HEADER_SIZE,
       conn_state := CONNECTION_STATE_IDLE\<rparr>"

definition raw_frame :: "('a amqp_connection_scheme) \<Rightarrow> amqp_bytes" where
  "raw_frame st = (case inbound_buffer st of In_header_buffer \<Rightarrow> header_buffer st | In_pool bs \<Rightarrow> bs)"

definition set_raw_frame :: "amqp_bytes \<Rightarrow> ('a amqp_connection_scheme) \<Rightarrow> ('a amqp_connection_scheme)" where
  "set_raw_frame bs st =
    (case inbound_buffer st of
       In_header_buffer \<Rightarrow> st\<lparr>header_buffer := bs\<rparr>
     | In_pool _ \<Rightarrow> st\<lparr>inbound_buffer := In_pool bs\<rparr>)"

definition consume_data ::
    "('a amqp_connection_scheme) \<Rightarrow> amqp_bytes \<Rightarrow> (nat \<times> amqp_bytes \<times> ('a amqp_connection_scheme)) option" where
  "consume_data st received_data =
    (let room = sz_sub (target_size st) (inbound_offset st);
         bytes_consumed = (if length received_data < room then length received_data else room)
     in case mem_write (raw_frame st) (inbound_offset st) (take bytes_consumed received_data) of
          None \<Rightarrow> None
        | Some buf \<Rightarrow>
            Some (bytes_consumed, drop bytes_consumed received_data,
                  (set_raw_frame buf st)\<lparr>inbound_offset := sz_add (inbound_offset st) bytes_consumed\<rparr>))"

type_synonym 'a input_result = "int outcome \<times> amqp_frame \<times> 'a amqp_connection_scheme"

definition in_fail :: "fault \<Rightarrow> 'a amqp_connection_scheme \<Rightarrow> 'a input_result" where
  "in_fail e st = (Inl e, no_frame, st)"

section \<open>Decoding a complete frame\<close>

text \<open>Running a decoder on a slice of the frame, with the pool of the channel.\<close>

definition decode_slice ::
    "'v dec \<Rightarrow> u16 \<Rightarrow> amqp_pool \<Rightarrow> amqp_bytes \<Rightarrow> ('a amqp_connection_scheme) \<Rightarrow> 'v outcome \<times> ('a amqp_connection_scheme)" where
  "decode_slice f ch pool encoded st =
    (case f encoded \<lparr>d_off = 0, d_pool = pool, d_heap = c_heap st\<rparr> of
       (r, d) \<Rightarrow> (r, (put_channel_pool st ch (d_pool d))\<lparr>c_heap := d_heap d\<rparr>))"

definition decode_payload ::
    "u8 \<Rightarrow> u16 \<Rightarrow> amqp_pool \<Rightarrow> ('a amqp_connection_scheme) \<Rightarrow> amqp_frame_payload outcome \<times> u8 \<times> ('a amqp_connection_scheme)" where
  "decode_payload ft ch pool st =
    (let raw = raw_frame st; payload = sz_sub (target_size st) HEADER_SIZE
     in if ft = FRAME_METHOD then
          (case amqp_d32 raw HEADER_SIZE of
             None \<Rightarrow> (Inl Memory_fault, ft, st)
           | Some mid \<Rightarrow>
               (case mem_read raw (HEADER_SIZE + 4) (sz_sub (sz_sub payload 4) FOOTER_SIZE) of
                  None \<Rightarrow> (Inl Memory_fault, ft, st)
                | Some encoded \<Rightarrow>
                    (case decode_slice (amqp_decode_method mid) ch pool encoded st of
                       (Inl e, st') \<Rightarrow> (Inl e, ft, st')
                     | (Inr m, st') \<Rightarrow> (Inr (Method_payload mid m), ft, st'))))
        else if ft = FRAME_HEADER then
          (case (amqp_d16 raw HEADER_SIZE, amqp_d64 raw (HEADER_SIZE + 4)) of
             (Some class_id, Some body_size) \<Rightarrow>
               (case mem_read raw (HEADER_SIZE + 12) (sz_sub (sz_sub payload 12) FOOTER_SIZE) of
                  None \<Rightarrow> (Inl Memory_fault, ft, st)
                | Some encoded \<Rightarrow>
                    (case decode_slice (amqp_decode_properties class_id) ch pool encoded st of
                       (Inl e, st') \<Rightarrow> (Inl e, ft, st')
                     | (Inr p, st') \<Rightarrow> (Inr (Properties_payload class_id body_size p encoded), ft, st')))
           | _ \<Rightarrow> (Inl Memory_fault, ft, st))
        else if ft = FRAME_BODY then
          (case mem_read raw HEADER_SIZE (sz_sub payload FOOTER_SIZE) of
             None \<Rightarrow> (Inl Memory_fault, ft, st)
           | Some body \<Rightarrow> (Inr (Body_payload body), ft, st))
        else if ft = FRAME_HEARTBEAT then (Inr No_payload, ft, st)
        else (Inr No_payload, 0, st))"

definition handle_body :: "nat \<Rightarrow> ('a amqp_connection_scheme) \<Rightarrow> 'a input_result" where
  "handle_body bytes_consumed st =
    (let raw = raw_frame st
     in case amqp_d8 raw (sz_sub (target_size st) 1) of
          None \<Rightarrow> in_fail Memory_fault st
        | Some footer \<Rightarrow>
            if footer \<noteq> FRAME_END then in_fail (Status AMQP_STATUS_BAD_AMQP_DATA) st
            else
              (case (amqp_d8 raw 0, amqp_d16 raw 1) of
                 (Some ft, Some ch) \<Rightarrow>
                   (case amqp_get_or_create_channel_pool st ch of
                      (None, st1) \<Rightarrow> in_fail (Status AMQP_STATUS_NO_MEMORY) st1
                    | (Some pool, st1) \<Rightarrow>
                        (case decode_payload ft ch pool st1 of
                           (Inl e, _, st2) \<Rightarrow> in_fail e st2
                         | (Inr pl, ft', st2) \<Rightarrow>
                             (Inr (as_int bytes_consumed),
                              \<lparr>frame_type = ft', frame_channel = ch, frame_payload = pl\<rparr>,
                              return_to_idle st2)))
               | _ \<Rightarrow> in_fail Memory_fault st))"

section \<open>amqp\_handle\_input\<close>

definition pool_bytes :: "('a amqp_connection_scheme) \<Rightarrow> nat \<Rightarrow> amqp_bytes" where
  "pool_bytes st n = take (round8 n) (stale_memory st @ replicate (round8 n) 0)"

text \<open>
  The case \<^verbatim>\<open>CONNECTION_STATE_HEADER\<close>, last part first: collecting the body, allocating the buffer
  for the whole frame, and reading the header. The size of the frame is computed in \<^verbatim>\<open>uint32_t\<close>.
\<close>

definition collect_body :: "nat \<Rightarrow> amqp_bytes \<Rightarrow> ('a amqp_connection_scheme) \<Rightarrow> 'a input_result" where
  "collect_body bytes_consumed received_data st =
    (case consume_data st received_data of
       None \<Rightarrow> in_fail Memory_fault st
     | Some (n, _, st') \<Rightarrow>
         if inbound_offset st' < target_size st'
         then (Inr (as_int (sz_add bytes_consumed n)), no_frame, st')
         else handle_body (sz_add bytes_consumed n) st')"

definition alloc_frame ::
    "nat \<Rightarrow> amqp_bytes \<Rightarrow> u16 \<Rightarrow> amqp_pool \<Rightarrow> ('a amqp_connection_scheme) \<Rightarrow> 'a input_result" where
  "alloc_frame bytes_consumed received_data ch pool st =
    (case amqp_pool_alloc pool (target_size st) (c_heap st) of
       (None, pool', h) \<Rightarrow>
         in_fail (Status AMQP_STATUS_NO_MEMORY)
           ((put_channel_pool st ch pool')\<lparr>c_heap := h, inbound_buffer := In_pool []\<rparr>)
     | (Some _, pool', h) \<Rightarrow>
         (case mem_write (pool_bytes st (target_size st)) 0 (take HEADER_SIZE (header_buffer st)) of
            None \<Rightarrow> in_fail Memory_fault st
          | Some buf \<Rightarrow>
              collect_body bytes_consumed received_data
                ((put_channel_pool st ch pool')\<lparr>c_heap := h, inbound_buffer := In_pool buf,
                   conn_state := CONNECTION_STATE_BODY\<rparr>)))"

definition handle_header :: "nat \<Rightarrow> amqp_bytes \<Rightarrow> ('a amqp_connection_scheme) \<Rightarrow> 'a input_result" where
  "handle_header bytes_consumed received_data st =
    (case (amqp_d16 (raw_frame st) 1, amqp_d32 (raw_frame st) 3) of
       (Some ch, Some len) \<Rightarrow>
         (let st1 = st\<lparr>target_size := unat (len + 7 + 1 :: u32)\<rparr>
          in if size_of_int (frame_max st1) < target_size st1 then in_fail (Status AMQP_STATUS_BAD_AMQP_DATA) st1
             else
               (case amqp_get_or_create_channel_pool st1 ch of
                  (None, st2) \<Rightarrow> in_fail (Status AMQP_STATUS_NO_MEMORY) st2
                | (Some pool, st2) \<Rightarrow> alloc_frame bytes_consumed received_data ch pool st2))
     | _ \<Rightarrow> in_fail Memory_fault st)"

text \<open>The switch on the state of the connection, once the bytes it waits for are there.\<close>

definition dispatch_input :: "nat \<Rightarrow> amqp_bytes \<Rightarrow> ('a amqp_connection_scheme) \<Rightarrow> 'a input_result" where
  "dispatch_input bytes_consumed received_data st =
    (case conn_state st of
       CONNECTION_STATE_INITIAL \<Rightarrow>
         (case mem_read (raw_frame st) 0 8 of
            None \<Rightarrow> in_fail Memory_fault st
          | Some raw \<Rightarrow>
              if take 4 raw = [0x41, 0x4D, 0x51, 0x50] then
                (Inr (as_int bytes_consumed),
                 \<lparr>frame_type = AMQP_PSEUDOFRAME_PROTOCOL_HEADER, frame_channel = 0,
                  frame_payload = Protocol_header_payload (raw ! 4) (raw ! 5) (raw ! 6) (raw ! 7)\<rparr>,
                 return_to_idle st)
              else handle_header bytes_consumed received_data st)
     | CONNECTION_STATE_HEADER \<Rightarrow> handle_header bytes_consumed received_data st
     | CONNECTION_STATE_BODY \<Rightarrow> handle_body bytes_consumed st
     | CONNECTION_STATE_IDLE \<Rightarrow> in_fail Aborted st)"

definition leave_idle :: "('a amqp_connection_scheme) \<Rightarrow> ('a amqp_connection_scheme)" where
  "leave_idle st =
    (if conn_state st = CONNECTION_STATE_IDLE then st\<lparr>conn_state := CONNECTION_STATE_HEADER\<rparr> else st)"

definition amqp_handle_input :: "('a amqp_connection_scheme) \<Rightarrow> amqp_bytes \<Rightarrow> 'a input_result" where
  "amqp_handle_input st received_data =
    (if length received_data = 0 then (Inr 0, no_frame, st)
     else
       (case consume_data (leave_idle st) received_data of
          None \<Rightarrow> in_fail Memory_fault (leave_idle st)
        | Some (n, rest, st1) \<Rightarrow>
            if inbound_offset st1 < target_size st1 then (Inr (as_int n), no_frame, st1)
            else dispatch_input n rest st1))"

section \<open>amqp\_frame\_to\_bytes\<close>

text \<open>Unchecked writes, one after the other; \<open>None\<close> is a write out of the buffer.\<close>

fun write_all :: "(nat \<times> amqp_bytes) list \<Rightarrow> amqp_bytes \<Rightarrow> amqp_bytes option" where
  "write_all [] buf = Some buf"
| "write_all ((off, bs) # ws) buf = (case mem_write buf off bs of None \<Rightarrow> None | Some buf' \<Rightarrow> write_all ws buf')"

text \<open>
  An encoder of \<^verbatim>\<open>amqp_framing.c\<close> run on the slice of the buffer behind the fixed part. A negative
  return value that is no status cannot come from a buffer of \<^verbatim>\<open>frame_max\<close>, an \<^verbatim>\<open>int\<close>, bytes.
\<close>

definition encode_slice ::
    "(amqp_bytes \<Rightarrow> int outcome \<times> amqp_bytes) \<Rightarrow> nat \<Rightarrow> nat \<Rightarrow> amqp_bytes \<Rightarrow> (nat \<times> amqp_bytes) outcome" where
  "encode_slice enc off len buf =
    (case mem_read buf off len of
       None \<Rightarrow> Inl Memory_fault
     | Some part \<Rightarrow>
         (case enc part of
            (Inl e, _) \<Rightarrow> Inl e
          | (Inr res, part') \<Rightarrow>
              if res < 0 then Inl Undefined_behaviour else Inr (size_of_int res, blit buf off part')))"

definition frame_body_to_bytes :: "amqp_frame \<Rightarrow> amqp_bytes \<Rightarrow> (nat \<times> amqp_bytes) outcome" where
  "frame_body_to_bytes frame buf =
    (if frame_type frame = FRAME_BODY then
       (case frame_payload frame of
          Body_payload body \<Rightarrow>
            (case mem_write buf HEADER_SIZE body of
               None \<Rightarrow> Inl Memory_fault
             | Some buf' \<Rightarrow> Inr (length body, buf'))
        | _ \<Rightarrow> Inl Undefined_behaviour)
     else if frame_type frame = FRAME_METHOD then
       (case frame_payload frame of
          Method_payload mid decoded \<Rightarrow>
            (case amqp_e32 buf HEADER_SIZE mid of
               None \<Rightarrow> Inl Memory_fault
             | Some buf1 \<Rightarrow>
                 (case encode_slice (amqp_encode_method mid decoded) (HEADER_SIZE + 4)
                         (sz_sub (sz_sub (sz_sub (length buf) HEADER_SIZE) 4) FOOTER_SIZE) buf1 of
                    Inl e \<Rightarrow> Inl e
                  | Inr (n, buf2) \<Rightarrow> Inr (sz_add n 4, buf2)))
        | _ \<Rightarrow> Inl Undefined_behaviour)
     else if frame_type frame = FRAME_HEADER then
       (case frame_payload frame of
          Properties_payload class_id body_size decoded _ \<Rightarrow>
            (case write_all [(HEADER_SIZE, be16 class_id), (HEADER_SIZE + 2, be16 0), (HEADER_SIZE + 4, be64 body_size)] buf of
               None \<Rightarrow> Inl Memory_fault
             | Some buf1 \<Rightarrow>
                 (case encode_slice (amqp_encode_properties class_id decoded) (HEADER_SIZE + 12)
                         (sz_sub (sz_sub (sz_sub (length buf) HEADER_SIZE) 12) FOOTER_SIZE) buf1 of
                    Inl e \<Rightarrow> Inl e
                  | Inr (n, buf2) \<Rightarrow> Inr (sz_add n 12, buf2)))
        | _ \<Rightarrow> Inl Undefined_behaviour)
     else if frame_type frame = FRAME_HEARTBEAT then Inr (0, buf)
     else Inl (Status AMQP_STATUS_INVALID_PARAMETER))"

text \<open>The result is the buffer and the number of its bytes that make the frame.\<close>

definition amqp_frame_to_bytes :: "amqp_frame \<Rightarrow> amqp_bytes \<Rightarrow> (amqp_bytes \<times> nat) outcome" where
  "amqp_frame_to_bytes frame buffer =
    (case write_all [(0, [frame_type frame]), (1, be16 (frame_channel frame))] buffer of
       None \<Rightarrow> Inl Memory_fault
     | Some buf1 \<Rightarrow>
         (case frame_body_to_bytes frame buf1 of
            Inl e \<Rightarrow> Inl e
          | Inr (out_frame_len, buf2) \<Rightarrow>
              (case write_all [(3, be32 (of_nat out_frame_len)), (HEADER_SIZE + out_frame_len, [FRAME_END])] buf2 of
                 None \<Rightarrow> Inl Memory_fault
               | Some buf3 \<Rightarrow> Inr (buf3, sz_add (sz_add out_frame_len HEADER_SIZE) FOOTER_SIZE))))"

end
