(* ===== verification/Amqp_Frames.thy ===== *)
theory Amqp_Frames
  imports Amqp_Connection
begin

text \<open>
  The wire format of frames, and that \<^verbatim>\<open>amqp_frame_to_bytes\<close> writes it and
  \<^verbatim>\<open>amqp_handle_input\<close> reads it back.
\<close>

section \<open>The wire format\<close>

fun wire_payload :: "amqp_frame_payload \<Rightarrow> amqp_bytes" where
  "wire_payload No_payload = []"
| "wire_payload (Method_payload mid m) = be32 mid @ wire_method m"
| "wire_payload (Properties_payload class_id body_size p raw) =
     be16 class_id @ be16 0 @ be64 body_size @ wire_properties p"
| "wire_payload (Body_payload body) = body"
| "wire_payload (Protocol_header_payload a b c d) = [a, b, c, d]"

definition wire_frame :: "amqp_frame \<Rightarrow> amqp_bytes" where
  "wire_frame f =
    [frame_type f] @ be16 (frame_channel f) @ be32 (of_nat (length (wire_payload (frame_payload f))))
    @ wire_payload (frame_payload f) @ [FRAME_END]"

definition frame_size :: "amqp_frame \<Rightarrow> nat" where
  "frame_size f = length (wire_payload (frame_payload f)) + 8"

text \<open>
  The frames a program can send: the payload is the one the frame type announces, the method number
  that of the struct, the class that of the properties, whose raw form is what the peer will see.
\<close>

definition valid_frame :: "amqp_frame \<Rightarrow> bool" where
  "valid_frame f \<longleftrightarrow>
    (case frame_payload f of
       Method_payload mid m \<Rightarrow> frame_type f = FRAME_METHOD \<and> mid = method_number m \<and> valid_method m
     | Properties_payload class_id body_size p raw \<Rightarrow>
         frame_type f = FRAME_HEADER \<and> class_id = properties_class p \<and> valid_properties p \<and> raw = wire_properties p
     | Body_payload body \<Rightarrow> frame_type f = FRAME_BODY
     | No_payload \<Rightarrow> frame_type f = FRAME_HEARTBEAT
     | Protocol_header_payload _ _ _ _ \<Rightarrow> False)"

lemma length_wire_frame: "length (wire_frame f) = frame_size f"
  by (simp add: wire_frame_def frame_size_def)

section \<open>Writing\<close>

lemma blit_part:
  assumes "mem_read buf off n = Some part" "length w \<le> n"
  shows "blit buf off (blit part 0 w) = blit buf off w"
proof -
  have part: "part = take n (drop off buf)" "off + n \<le> length buf"
    using assms(1) by (auto simp: mem_read_def split: if_splits)
  obtain k where k: "n = length w + k" using assms(2) le_Suc_ex by blast
  have "drop (length w) part @ drop (off + n) buf = drop (off + length w) buf"
    using append_take_drop_id [of k "drop (length w + off) buf"] part(1) k
    by (simp add: drop_take ac_simps)
  then show ?thesis using assms(2) part by (simp add: blit_def)
qed

lemma size_of_int_small [simp]: "n < 2 ^ 64 \<Longrightarrow> size_of_int (int n) = n"
  by (simp add: size_of_int_def)

lemma encode_slice_fits:
  assumes "off + n \<le> length buf" "length buf < 2 ^ 31" "length w \<le> n"
    and enc: "\<And>part. length part = n \<Longrightarrow> enc part = (Inr (int (length w)), blit part 0 w)"
  shows "encode_slice enc off n buf = Inr (length w, blit buf off w)"
proof -
  obtain part where part: "mem_read buf off n = Some part" "length part = n"
    using assms(1) by (simp add: mem_read_def)
  with enc [OF part(2)] blit_part [OF part(1) assms(3)] assms show ?thesis
    by (simp add: encode_slice_def)
qed

lemma encode_slice_too_big:
  assumes "off + n \<le> length buf"
    and enc: "\<And>part. length part = n \<Longrightarrow> \<exists>s p'. enc part = (Inl (Status s), p')"
  shows "\<exists>s. encode_slice enc off n buf = Inl (Status s)"
proof -
  obtain part where part: "mem_read buf off n = Some part" "length part = n"
    using assms(1) by (simp add: mem_read_def)
  with enc [OF part(2)] show ?thesis by (auto simp: encode_slice_def)
qed

lemma amqp_encode_properties_fits:
  assumes "valid_properties p" "length buf < 2 ^ 31" "length (wire_properties p) \<le> length buf"
  shows "amqp_encode_properties (properties_class p) p buf
    = (Inr (int (length (wire_properties p))), blit buf 0 (wire_properties p))"
  using writes_fit [OF encode_properties_writes [OF assms(1)], of buf 0] assms(2,3)
  by (simp add: amqp_encode_properties_def as_int_small)

lemma amqp_encode_properties_too_big:
  assumes "valid_properties p" "length buf < 2 ^ 31" "length buf < length (wire_properties p)"
  shows "\<exists>s buf'. amqp_encode_properties (properties_class p) p buf = (Inl (Status s), buf')"
  using writes_overflow [OF encode_properties_writes [OF assms(1)], of buf 0] assms(2,3)
  by (auto simp: amqp_encode_properties_def split: prod.splits)

lemma write_all_fits:
  "off + length bs \<le> length buf \<Longrightarrow> write_all ((off, bs) # ws) buf = write_all ws (blit buf off bs)"
  by (simp add: mem_write_def)

lemma frame_body_to_bytes_fits:
  assumes "valid_frame f" "length buf < 2 ^ 31" "frame_size f \<le> length buf"
  shows "frame_body_to_bytes f buf
    = Inr (length (wire_payload (frame_payload f)), blit buf 7 (wire_payload (frame_payload f)))"
proof (cases "frame_payload f")
  case (Method_payload mid m)
  let ?buf1 = "blit buf 7 (be32 mid)"
  have "encode_slice (amqp_encode_method mid m) 11 (length buf - 12) ?buf1
      = Inr (length (wire_method m), blit ?buf1 11 (wire_method m))"
    by (rule encode_slice_fits)
      (use assms Method_payload amqp_encode_method_fits [of m] in
        \<open>auto simp: valid_frame_def frame_size_def\<close>)
  moreover have "blit ?buf1 11 (wire_method m) = blit buf 7 (be32 mid @ wire_method m)"
    using blit_append [of 7 "be32 mid" buf] assms(3) Method_payload by (simp add: frame_size_def)
  ultimately show ?thesis
    using assms Method_payload
    by (simp add: frame_body_to_bytes_def valid_frame_def frame_size_def amqp_e32_def mem_write_def
        HEADER_SIZE_def FOOTER_SIZE_def)
next
  case (Properties_payload class_id body_size p raw)
  let ?fixed = "be16 class_id @ be16 0 @ be64 body_size"
  have "write_all [(7, be16 class_id), (9, be16 0), (11, be64 body_size)] buf = Some (blit buf 7 ?fixed)"
    using blit_append [of 7 "be16 class_id" buf "be16 0"]
      blit_append [of 7 "be16 class_id @ be16 0" buf "be64 body_size"] assms(3) Properties_payload
    by (simp add: mem_write_def frame_size_def)
  moreover have "encode_slice (amqp_encode_properties class_id p) 19 (length buf - 20) (blit buf 7 ?fixed)
      = Inr (length (wire_properties p), blit (blit buf 7 ?fixed) 19 (wire_properties p))"
    by (rule encode_slice_fits)
      (use assms Properties_payload amqp_encode_properties_fits [of p] in
        \<open>auto simp: valid_frame_def frame_size_def\<close>)
  moreover have "blit (blit buf 7 ?fixed) 19 (wire_properties p) = blit buf 7 (?fixed @ wire_properties p)"
    using blit_append [of 7 ?fixed buf] assms(3) Properties_payload by (simp add: frame_size_def)
  ultimately show ?thesis
    using assms Properties_payload
    by (simp add: frame_body_to_bytes_def valid_frame_def frame_size_def HEADER_SIZE_def FOOTER_SIZE_def
        del: write_all.simps)
next
  case (Body_payload body)
  with assms show ?thesis
    by (simp add: frame_body_to_bytes_def valid_frame_def frame_size_def mem_write_def HEADER_SIZE_def)
qed (use assms in \<open>simp_all add: frame_body_to_bytes_def valid_frame_def\<close>)

lemma amqp_frame_to_bytes_fits:
  assumes "valid_frame f" "length buf < 2 ^ 31" "frame_size f \<le> length buf"
  shows "amqp_frame_to_bytes f buf = Inr (blit buf 0 (wire_frame f), frame_size f)"
proof -
  let ?P = "wire_payload (frame_payload f)"
  let ?h = "[frame_type f] @ be16 (frame_channel f)" and ?S = "be32 (of_nat (length ?P))"
  have n: "length ?P + 8 \<le> length buf" using assms(3) by (simp add: frame_size_def)
  have 1: "write_all [(0, [frame_type f]), (1, be16 (frame_channel f))] buf = Some (blit buf 0 ?h)"
    using blit_append [of 0 "[frame_type f]" buf "be16 (frame_channel f)"] n by (simp add: mem_write_def)
  have 2: "frame_body_to_bytes f (blit buf 0 ?h) = Inr (length ?P, blit (blit buf 0 ?h) 7 ?P)"
    by (rule frame_body_to_bytes_fits) (use assms n in simp_all)
  have "blit (blit (blit buf 0 ?h) 7 ?P) 3 ?S = blit (blit buf 0 ?h) 3 (?S @ ?P)"
    using blit_prepend [of 3 ?S ?P "blit buf 0 ?h"] n by simp
  then have "write_all [(3, ?S), (HEADER_SIZE + length ?P, [FRAME_END])] (blit (blit buf 0 ?h) 7 ?P)
      = Some (blit (blit (blit buf 0 ?h) 3 (?S @ ?P)) (7 + length ?P) [FRAME_END])"
    using n by (simp add: mem_write_def HEADER_SIZE_def)
  moreover have "blit (blit (blit buf 0 ?h) 3 (?S @ ?P)) (7 + length ?P) [FRAME_END]
      = blit (blit buf 0 ?h) 3 ((?S @ ?P) @ [FRAME_END])"
    using blit_append [of 3 "?S @ ?P" "blit buf 0 ?h" "[FRAME_END]"] n by simp
  moreover have "\<dots> = blit buf 0 (wire_frame f)"
    using blit_append [of 0 ?h buf "(?S @ ?P) @ [FRAME_END]"] n by (simp add: wire_frame_def)
  ultimately show ?thesis
    using 1 2 n assms(2) by (simp add: amqp_frame_to_bytes_def frame_size_def HEADER_SIZE_def FOOTER_SIZE_def
        del: write_all.simps)
qed

text \<open>A frame that was written did fit.\<close>

lemma encode_slice_success:
  assumes "encode_slice enc off n buf = Inr (k, buf')" "length buf < 2 ^ 31"
    and fits: "\<And>part. length part < 2 ^ 31 \<Longrightarrow> length w \<le> length part \<Longrightarrow> enc part = (Inr (int (length w)), blit part 0 w)"
    and big: "\<And>part. length part < 2 ^ 31 \<Longrightarrow> length part < length w \<Longrightarrow> \<exists>s p'. enc part = (Inl (Status s), p')"
  shows "k = length w \<and> length w < 2 ^ 31 \<and> length buf' = length buf"
proof -
  obtain part where part: "mem_read buf off n = Some part" "length part < 2 ^ 31" "length part = n" "off + n \<le> length buf"
    using assms(1,2) by (auto simp: encode_slice_def mem_read_def split: option.splits if_splits)
  show ?thesis
  proof (cases "length w \<le> length part")
    case True
    with fits [OF part(2) True] part assms(1) show ?thesis by (auto simp: encode_slice_def)
  next
    case False
    with big [OF part(2)] part(1) assms(1) show ?thesis by (auto simp: encode_slice_def)
  qed
qed

lemma write_all_length: "write_all ws buf = Some buf' \<Longrightarrow> length buf' = length buf"
  by (induction ws arbitrary: buf) (auto simp: mem_simps split: option.splits dest!: mem_write_length)

lemma frame_body_to_bytes_success:
  assumes "valid_frame f" "length buf < 2 ^ 31" "frame_body_to_bytes f buf = Inr (k, buf')"
  shows "k = length (wire_payload (frame_payload f)) \<and> length buf' = length buf"
proof (cases "frame_payload f")
  case (Method_payload mid m)
  with assms obtain buf1 n where b: "amqp_e32 buf 7 mid = Some buf1" "k = sz_add n 4"
    "encode_slice (amqp_encode_method mid m) 11 (sz_sub (sz_sub (sz_sub (length buf) 7) 4) 1) buf1 = Inr (n, buf')"
    by (auto simp: frame_body_to_bytes_def valid_frame_def HEADER_SIZE_def FOOTER_SIZE_def
        split: option.splits sum.splits)
  have l: "length buf1 = length buf" using b(1) by (auto simp: amqp_e32_def dest: mem_write_length)
  have "n = length (wire_method m) \<and> length (wire_method m) < 2 ^ 31 \<and> length buf' = length buf1"
    by (rule encode_slice_success [OF b(3)])
      (use l assms(1,2) Method_payload amqp_encode_method_fits amqp_encode_method_too_big in
        \<open>auto simp: valid_frame_def\<close>)
  then show ?thesis using b(2) l Method_payload by simp
next
  case (Properties_payload class_id body_size p raw)
  with assms obtain buf1 n where b: "k = sz_add n 12" "length buf1 = length buf"
    "encode_slice (amqp_encode_properties class_id p) 19 (sz_sub (sz_sub (sz_sub (length buf) 7) 12) 1) buf1 = Inr (n, buf')"
    by (auto simp: frame_body_to_bytes_def valid_frame_def HEADER_SIZE_def FOOTER_SIZE_def
        simp del: write_all.simps dest: write_all_length split: option.splits sum.splits)
  have "n = length (wire_properties p) \<and> length (wire_properties p) < 2 ^ 31 \<and> length buf' = length buf1"
    by (rule encode_slice_success [OF b(3)])
      (use b(2) assms(1,2) Properties_payload amqp_encode_properties_fits amqp_encode_properties_too_big in
        \<open>auto simp: valid_frame_def\<close>)
  then show ?thesis using b Properties_payload by simp
next
  case (Body_payload body)
  with assms show ?thesis
    by (auto simp: frame_body_to_bytes_def valid_frame_def split: option.splits dest: mem_write_length)
qed (use assms in \<open>auto simp: frame_body_to_bytes_def valid_frame_def\<close>)

lemma amqp_frame_to_bytes_success:
  assumes "valid_frame f" "length buf < 2 ^ 31" "amqp_frame_to_bytes f buf = Inr (buf', n)"
  shows "frame_size f \<le> length buf"
proof -
  obtain buf1 k buf2 where b: "write_all [(0, [frame_type f]), (1, be16 (frame_channel f))] buf = Some buf1"
    "frame_body_to_bytes f buf1 = Inr (k, buf2)"
    "write_all [(3, be32 (of_nat k)), (7 + k, [FRAME_END])] buf2 = Some buf'"
    using assms(3) by (auto simp: amqp_frame_to_bytes_def HEADER_SIZE_def simp del: write_all.simps
        split: option.splits sum.splits)
  have "length buf1 = length buf" by (rule write_all_length [OF b(1)])
  with frame_body_to_bytes_success [OF assms(1) _ b(2)] assms(2)
  have "k = length (wire_payload (frame_payload f))" "length buf2 = length buf" by simp_all
  with b(3) show ?thesis
    by (auto simp: frame_size_def mem_write_def split: option.splits if_splits)
qed

section \<open>Reading\<close>

lemma get_or_create_ok:
  assumes "heap_ok (c_heap st)"
  shows "\<exists>pool t h. amqp_get_or_create_channel_pool st ch = (Some pool, st\<lparr>pool_table := t, c_heap := h\<rparr>) \<and> heap_ok h"
proof (cases "amqp_get_channel_pool st ch")
  case None
  obtain k h where m: "malloc sizeof_pool_table_entry (c_heap st) = (Some k, h)" "heap_ok h"
    using malloc_ok [OF assms, of sizeof_pool_table_entry] assms malloc_heap_ok
    by (metis sizeof_pool_table_entry_def zero_less_numeral)
  let ?p = "init_amqp_pool (size_of_int (frame_max st))"
  have "amqp_get_or_create_channel_pool st ch = (Some ?p, st\<lparr>pool_table :=
      (pool_table st)(pool_index ch := (ch, k, ?p) # pool_table st (pool_index ch)), c_heap := h\<rparr>)"
    using None m(1) by (simp add: amqp_get_or_create_channel_pool_def Let_def)
  with m(2) show ?thesis by blast
next
  case (Some pool)
  then have "amqp_get_or_create_channel_pool st ch = (Some pool, st\<lparr>pool_table := pool_table st, c_heap := c_heap st\<rparr>)"
    by (simp add: amqp_get_or_create_channel_pool_def)
  with assms show ?thesis by blast
qed

lemma decode_slice_ok:
  assumes "reads f w v" "in_memory w" "heap_ok (c_heap st)"
  shows "\<exists>t h. decode_slice f ch pool w st = (Inr v, st\<lparr>pool_table := t, c_heap := h\<rparr>) \<and> heap_ok h"
proof -
  have at: "at_off w (d_off \<lparr>d_off = 0, d_pool = pool, d_heap = c_heap st\<rparr>) w" by (simp add: at_off_def)
  obtain d' where "f w \<lparr>d_off = 0, d_pool = pool, d_heap = c_heap st\<rparr> = (Inr v, d')" "heap_ok (d_heap d')"
    using readsE [OF assms(1,2) _ at] assms(3) by (metis dec_state.select_convs(3))
  then show ?thesis unfolding decode_slice_def put_channel_pool_def by simp blast
qed

lemma raw_frame_pools [simp]: "raw_frame (st\<lparr>pool_table := t, c_heap := h\<rparr>) = raw_frame st"
  by (simp add: raw_frame_def split: inbound.split)

lemma decode_slice_method: "decode_slice (amqp_decode_method mid) = decode_slice (decode_method_switch mid)"
  by (intro ext) (simp add: decode_slice_def amqp_decode_method_def)

lemma decode_slice_properties: "decode_slice (amqp_decode_properties c) = decode_slice (decode_properties_body c)"
  by (intro ext) (simp add: decode_slice_def amqp_decode_properties_def)

lemma amqp_d_at_off [mem_simps]:
  "at_off buf off [v] \<Longrightarrow> amqp_d8 buf off = Some v"
  "at_off buf off (be16 x) \<Longrightarrow> amqp_d16 buf off = Some x"
  "at_off buf off (be32 y) \<Longrightarrow> amqp_d32 buf off = Some y"
  "at_off buf off (be64 z) \<Longrightarrow> amqp_d64 buf off = Some z"
  by (simp_all add: amqp_d8_def amqp_d16_def amqp_d32_def amqp_d64_def mem_simps)

lemma wire_frame_parts:
  assumes "at_off buf 0 (wire_frame f)"
  shows "at_off buf 0 [frame_type f]" "at_off buf 1 (be16 (frame_channel f))"
    "at_off buf 3 (be32 (of_nat (length (wire_payload (frame_payload f)))))"
    "at_off buf 7 (wire_payload (frame_payload f))" "at_off buf (frame_size f - 1) [FRAME_END]"
  using assms unfolding wire_frame_def
  by (simp_all only: at_off_append) (simp_all add: frame_size_def add.commute numeral_3_eq_3)

lemma decode_payload_ok:
  assumes f: "valid_frame f" and at: "at_off (raw_frame st) 0 (wire_frame f)"
    and tg: "target_size st = frame_size f" and mem: "in_memory (raw_frame st)" and h: "heap_ok (c_heap st)"
  shows "\<exists>t h. decode_payload (frame_type f) ch pool st
    = (Inr (frame_payload f), frame_type f, st\<lparr>pool_table := t, c_heap := h\<rparr>) \<and> heap_ok h"
proof -
  note p = wire_frame_parts(4) [OF at]
  have small: "frame_size f \<le> length (raw_frame st)" using at_off_length [OF at] by (simp add: length_wire_frame)
  have st: "st = st\<lparr>pool_table := pool_table st, c_heap := c_heap st\<rparr>" by simp
  show ?thesis
  proof (cases "frame_payload f")
    case (Method_payload mid m)
    then have at': "at_off (raw_frame st) 7 (be32 mid)" "at_off (raw_frame st) 11 (wire_method m)"
      using p by (simp_all add: at_off_append)
    obtain t h' where "decode_slice (decode_method_switch mid) ch pool (wire_method m) st
        = (Inr m, st\<lparr>pool_table := t, c_heap := h'\<rparr>)" "heap_ok h'"
      using decode_slice_ok [OF decode_method_switch_reads, of m st ch pool] f Method_payload mem h small
      by (auto simp: valid_frame_def frame_size_def)
    with Method_payload at' f tg small mem show ?thesis
      by (auto simp: decode_payload_def valid_frame_def frame_size_def HEADER_SIZE_def FOOTER_SIZE_def
          mem_simps decode_slice_method)
  next
    case (Properties_payload class_id body_size q raw)
    then have at': "at_off (raw_frame st) 7 (be16 class_id)" "at_off (raw_frame st) 11 (be64 body_size)"
      "at_off (raw_frame st) 19 (wire_properties q)"
      using p by (simp_all add: at_off_append)
    obtain t h' where "decode_slice (decode_properties_body class_id) ch pool (wire_properties q) st
        = (Inr q, st\<lparr>pool_table := t, c_heap := h'\<rparr>)" "heap_ok h'"
      using decode_slice_ok [OF decode_properties_reads, of q st ch pool] f Properties_payload mem h small
      by (auto simp: valid_frame_def frame_size_def)
    with Properties_payload at' f tg small mem show ?thesis
      by (auto simp: decode_payload_def valid_frame_def frame_size_def HEADER_SIZE_def FOOTER_SIZE_def
          mem_simps decode_slice_properties)
  next
    case (Body_payload body)
    with p have "at_off (raw_frame st) 7 body" by simp
    with Body_payload f tg small mem have "decode_payload (frame_type f) ch pool st
        = (Inr (frame_payload f), frame_type f, st)"
      by (auto simp: decode_payload_def valid_frame_def frame_size_def HEADER_SIZE_def FOOTER_SIZE_def mem_simps)
    with st h show ?thesis by metis
  next
    case No_payload
    with f have "decode_payload (frame_type f) ch pool st = (Inr (frame_payload f), frame_type f, st)"
      by (simp add: decode_payload_def valid_frame_def Let_def)
    with st h show ?thesis by metis
  qed (use f in \<open>simp add: valid_frame_def\<close>)
qed

lemma handle_body_ok:
  assumes f: "valid_frame f" and at: "at_off (raw_frame st) 0 (wire_frame f)"
    and tg: "target_size st = frame_size f" and mem: "in_memory (raw_frame st)" and h: "heap_ok (c_heap st)"
  shows "\<exists>t h. handle_body n st = (Inr (as_int n), f, return_to_idle (st\<lparr>pool_table := t, c_heap := h\<rparr>)) \<and> heap_ok h"
proof -
  note p = wire_frame_parts [OF at]
  obtain pool t h1 where gc: "amqp_get_or_create_channel_pool st (frame_channel f)
      = (Some pool, st\<lparr>pool_table := t, c_heap := h1\<rparr>)" "heap_ok h1"
    using get_or_create_ok [OF h] by blast
  let ?st1 = "st\<lparr>pool_table := t, c_heap := h1\<rparr>"
  obtain t' h2 where "decode_payload (frame_type f) (frame_channel f) pool ?st1
      = (Inr (frame_payload f), frame_type f, ?st1\<lparr>pool_table := t', c_heap := h2\<rparr>)" "heap_ok h2"
    using decode_payload_ok [OF f, of ?st1 "frame_channel f" pool] at tg mem gc(2) by auto
  moreover have "sz_sub (frame_size f) 1 = frame_size f - 1"
    using at_off_length [OF at] mem by (intro sz_sub_exact) (simp_all add: length_wire_frame frame_size_def)
  ultimately show ?thesis
    using p gc(1) tg by (auto simp: handle_body_def mem_simps)
qed

section \<open>A frame that arrives at once\<close>

definition idle :: "('a amqp_connection_scheme) \<Rightarrow> bool" where
  "idle st \<longleftrightarrow>
    conn_state st = CONNECTION_STATE_IDLE \<and> inbound_buffer st = In_header_buffer \<and> inbound_offset st = 0
    \<and> target_size st = 7 \<and> length (header_buffer st) = 8"

lemma round8_ge: "0 < n \<Longrightarrow> n \<le> 2 ^ 63 \<Longrightarrow> n \<le> round8 n \<and> 8 \<le> round8 n \<and> round8 n < n + 8"
  using round8_props by blast

lemma length_pool_bytes [simp]: "length (pool_bytes st n) = round8 n"
  by (simp add: pool_bytes_def)

lemma consume_data_enough:
  assumes "inbound_offset st \<le> target_size st" "target_size st \<le> length (raw_frame st)" "target_size st < 2 ^ 63"
    and "target_size st - inbound_offset st \<le> length data"
  shows "consume_data st data = Some (target_size st - inbound_offset st, drop (target_size st - inbound_offset st) data,
    (set_raw_frame (blit (raw_frame st) (inbound_offset st) (take (target_size st - inbound_offset st) data)) st)
      \<lparr>inbound_offset := target_size st\<rparr>)"
  using assms by (simp add: consume_data_def mem_write_def Let_def)

lemma consume_data_short:
  assumes "inbound_offset st \<le> target_size st" "target_size st \<le> length (raw_frame st)" "target_size st < 2 ^ 63"
    and "length data < target_size st - inbound_offset st"
  shows "consume_data st data = Some (length data, [],
    (set_raw_frame (blit (raw_frame st) (inbound_offset st) data) st)\<lparr>inbound_offset := inbound_offset st + length data\<rparr>)"
  using assms by (simp add: consume_data_def mem_write_def Let_def)

lemma take_7_wire_frame:
  "take 7 (wire_frame f) = [frame_type f] @ be16 (frame_channel f)
     @ be32 (of_nat (length (wire_payload (frame_payload f))))"
  by (simp add: wire_frame_def)

lemma frame_length_field:
  assumes "frame_size f < 2 ^ 31"
  shows "unat (of_nat (length (wire_payload (frame_payload f))) + 7 + 1 :: u32) = frame_size f"
proof -
  have "(of_nat (length (wire_payload (frame_payload f))) + 7 + 1 :: u32) = of_nat (frame_size f)"
    by (simp add: frame_size_def)
  with assms show ?thesis by (simp add: unat_of_nat)
qed

text \<open>The machine is ready for the next frame.\<close>

definition ready_after :: "('a amqp_connection_scheme) \<Rightarrow> ('a amqp_connection_scheme) \<Rightarrow> bool" where
  "ready_after st st' \<longleftrightarrow> idle st' \<and> heap_ok (c_heap st') \<and> frame_max st' = frame_max st"

lemma collect_body_frame:
  assumes f: "valid_frame f" and sz: "frame_size f < 2 ^ 31" and h: "heap_ok (c_heap st)"
    and st: "inbound_buffer st = In_pool (blit pb 0 (take 7 (wire_frame f)))" "length pb = round8 (frame_size f)"
      "inbound_offset st = 7" "target_size st = frame_size f" "length (header_buffer st) = 8"
  shows "\<exists>st'. collect_body 7 (drop 7 (wire_frame f) @ rest) st = (Inr (int (frame_size f)), f, st') \<and> ready_after st st'"
proof -
  let ?T = "frame_size f"
  have T: "8 \<le> ?T" by (simp add: frame_size_def)
  have r8: "?T \<le> length pb" "length pb < ?T + 8" using round8_ge [of ?T] T sz st(2) by auto
  let ?st' = "(set_raw_frame (blit pb 0 (wire_frame f)) st)\<lparr>inbound_offset := ?T\<rparr>"
  have raw: "raw_frame st = blit pb 0 (take 7 (wire_frame f))" using st(1) by (simp add: raw_frame_def)
  have "blit (blit pb 0 (take 7 (wire_frame f))) 7 (drop 7 (wire_frame f)) = blit pb 0 (wire_frame f)"
    using blit_append [of 0 "take 7 (wire_frame f)" pb "drop 7 (wire_frame f)"] r8 T
    by (simp add: length_wire_frame)
  then have cd: "consume_data st (drop 7 (wire_frame f) @ rest) = Some (?T - 7, rest, ?st')"
    using consume_data_enough [of st "drop 7 (wire_frame f) @ rest"] st(3,4) raw r8 T sz
    by (simp add: length_wire_frame)
  have st': "raw_frame ?st' = blit pb 0 (wire_frame f)" "target_size ?st' = ?T" "c_heap ?st' = c_heap st"
    "frame_max ?st' = frame_max st" "length (header_buffer ?st') = 8"
    using st by (simp_all add: set_raw_frame_def raw_frame_def)
  obtain t h' where hb: "handle_body ?T ?st'
      = (Inr (as_int ?T), f, return_to_idle (?st'\<lparr>pool_table := t, c_heap := h'\<rparr>))" "heap_ok h'"
    using handle_body_ok [OF f, of ?st' ?T] st' r8 sz h by (auto simp: length_wire_frame)
  have "collect_body 7 (drop 7 (wire_frame f) @ rest) st = handle_body ?T ?st'"
    using cd st'(2) T sz by (simp add: collect_body_def)
  with hb st' sz show ?thesis
    by (auto simp: as_int_small return_to_idle_def idle_def ready_after_def HEADER_SIZE_def)
qed

lemma alloc_frame_frame:
  assumes f: "valid_frame f" and sz: "frame_size f < 2 ^ 31" and h: "heap_ok (c_heap st)"
    and st: "length (header_buffer st) = 8" "inbound_offset st = 7" "target_size st = frame_size f"
      "take 7 (header_buffer st) = take 7 (wire_frame f)"
  shows "\<exists>st'. alloc_frame 7 (drop 7 (wire_frame f) @ rest) ch pool st = (Inr (int (frame_size f)), f, st') \<and> ready_after st st'"
proof -
  let ?T = "frame_size f"
  have T: "8 \<le> ?T" by (simp add: frame_size_def)
  obtain a pool' h' where pa: "amqp_pool_alloc pool ?T (c_heap st) = (Some a, pool', h')" "heap_ok h'"
    using amqp_pool_alloc_ok [OF h, of ?T pool] T sz by auto
  let ?st' = "(put_channel_pool st ch pool')\<lparr>c_heap := h',
    inbound_buffer := In_pool (blit (pool_bytes st ?T) 0 (take 7 (wire_frame f))), conn_state := CONNECTION_STATE_BODY\<rparr>"
  have "\<exists>st''. collect_body 7 (drop 7 (wire_frame f) @ rest) ?st' = (Inr (int ?T), f, st'') \<and> ready_after ?st' st''"
    by (rule collect_body_frame [OF f sz, where pb = "pool_bytes st ?T"])
      (use st pa(2) in \<open>simp_all add: put_channel_pool_def\<close>)
  moreover have "7 \<le> round8 ?T" using round8_ge [of ?T] T sz by auto
  then have "alloc_frame 7 (drop 7 (wire_frame f) @ rest) ch pool st
      = collect_body 7 (drop 7 (wire_frame f) @ rest) ?st'"
    using pa(1) st T by (simp add: alloc_frame_def mem_write_def HEADER_SIZE_def length_wire_frame)
  moreover have "ready_after ?st' = ready_after st"
    by (intro ext) (simp add: ready_after_def put_channel_pool_def)
  ultimately show ?thesis by simp
qed

lemma handle_header_frame:
  assumes f: "valid_frame f" and sz: "frame_size f < 2 ^ 31" "frame_size f \<le> size_of_int (frame_max st)"
    and st: "inbound_buffer st = In_header_buffer" "length (header_buffer st) = 8" "inbound_offset st = 7"
      "take 7 (header_buffer st) = take 7 (wire_frame f)" and h: "heap_ok (c_heap st)"
  shows "\<exists>st'. handle_header 7 (drop 7 (wire_frame f) @ rest) st = (Inr (int (frame_size f)), f, st') \<and> ready_after st st'"
proof -
  have raw: "raw_frame st = header_buffer st" using st(1) by (simp add: raw_frame_def)
  have "at_off (header_buffer st) 0 (take 7 (wire_frame f))"
    using st(2,4) by (simp add: at_off_def length_wire_frame frame_size_def)
  then have "at_off (header_buffer st) 1 (be16 (frame_channel f))"
    "at_off (header_buffer st) 3 (be32 (of_nat (length (wire_payload (frame_payload f)))))"
    unfolding take_7_wire_frame by (simp_all only: at_off_append) (simp_all add: numeral_3_eq_3)
  then have fields: "amqp_d16 (raw_frame st) 1 = Some (frame_channel f)"
    "amqp_d32 (raw_frame st) 3 = Some (of_nat (length (wire_payload (frame_payload f))))"
    by (simp_all add: mem_simps raw)
  let ?st1 = "st\<lparr>target_size := frame_size f\<rparr>"
  obtain pool t h1 where gc: "amqp_get_or_create_channel_pool ?st1 (frame_channel f)
      = (Some pool, ?st1\<lparr>pool_table := t, c_heap := h1\<rparr>)" "heap_ok h1"
    using get_or_create_ok [of ?st1 "frame_channel f"] h by auto
  let ?st2 = "?st1\<lparr>pool_table := t, c_heap := h1\<rparr>"
  have "\<exists>st'. alloc_frame 7 (drop 7 (wire_frame f) @ rest) (frame_channel f) pool ?st2
      = (Inr (int (frame_size f)), f, st') \<and> ready_after ?st2 st'"
    by (rule alloc_frame_frame [OF f sz(1)]) (use gc(2) st in simp_all)
  moreover have "handle_header 7 (drop 7 (wire_frame f) @ rest) st
      = alloc_frame 7 (drop 7 (wire_frame f) @ rest) (frame_channel f) pool ?st2"
    using fields gc(1) frame_length_field [OF sz(1)] sz(2) by (simp add: handle_header_def Let_def)
  ultimately show ?thesis by (simp add: ready_after_def)
qed

lemma handle_input_frame:
  assumes f: "valid_frame f" and sz: "frame_size f < 2 ^ 31" "frame_size f \<le> size_of_int (frame_max st)"
    and st: "idle st" and h: "heap_ok (c_heap st)"
  shows "\<exists>st'. amqp_handle_input st (wire_frame f @ rest) = (Inr (int (frame_size f)), f, st') \<and> ready_after st st'"
proof -
  have st': "conn_state st = CONNECTION_STATE_IDLE" "inbound_buffer st = In_header_buffer" "inbound_offset st = 0"
    "target_size st = 7" "length (header_buffer st) = 8" using st by (auto simp: idle_def)
  have T: "8 \<le> frame_size f" by (simp add: frame_size_def)
  let ?st0 = "st\<lparr>conn_state := CONNECTION_STATE_HEADER\<rparr>"
  let ?st1 = "?st0\<lparr>header_buffer := blit (header_buffer st) 0 (take 7 (wire_frame f)), inbound_offset := 7\<rparr>"
  have cd: "consume_data ?st0 (wire_frame f @ rest) = Some (7, drop 7 (wire_frame f) @ rest, ?st1)"
    using consume_data_enough [of ?st0 "wire_frame f @ rest"] st' T
    by (simp add: raw_frame_def set_raw_frame_def length_wire_frame)
  have "\<exists>st'. handle_header 7 (drop 7 (wire_frame f) @ rest) ?st1 = (Inr (int (frame_size f)), f, st') \<and> ready_after ?st1 st'"
    by (rule handle_header_frame [OF f sz(1)])
      (use sz(2) st' h T in \<open>simp_all add: length_wire_frame blit_def\<close>)
  moreover have "wire_frame f \<noteq> []" by (simp add: wire_frame_def)
  ultimately show ?thesis
    using cd st' by (simp add: amqp_handle_input_def dispatch_input_def leave_idle_def ready_after_def)
qed

end
