(* ===== verification/Amqp_Input.thy ===== *)
theory Amqp_Input
  imports Amqp_Frames
begin

text \<open>
  \<^verbatim>\<open>amqp_handle_input\<close> on arbitrary bytes: its invariant, that it stays inside its buffers unless the
  length field of a frame is out of range, and that it does not matter how the bytes of the stream
  are cut into pieces.
\<close>

section \<open>The invariant\<close>

text \<open>The length field of the header at the start of a buffer.\<close>

definition length_field :: "amqp_bytes \<Rightarrow> nat" where
  "length_field raw = unat (from_be32 (take 4 (drop 3 raw)))"

definition conn_inv :: "('a amqp_connection_scheme) \<Rightarrow> bool" where
  "conn_inv st \<longleftrightarrow>
    length (header_buffer st) = 8
    \<and> (case conn_state st of
         CONNECTION_STATE_IDLE \<Rightarrow> inbound_buffer st = In_header_buffer \<and> target_size st = 7 \<and> inbound_offset st = 0
       | CONNECTION_STATE_HEADER \<Rightarrow> inbound_buffer st = In_header_buffer \<and> target_size st = 7 \<and> inbound_offset st < 7
       | CONNECTION_STATE_INITIAL \<Rightarrow> inbound_buffer st = In_header_buffer \<and> target_size st = 8 \<and> inbound_offset st < 8
       | CONNECTION_STATE_BODY \<Rightarrow>
           (\<exists>bs. inbound_buffer st = In_pool bs \<and> length bs = round8 (target_size st)
              \<and> target_size st = length_field bs + 8)
           \<and> 8 \<le> target_size st \<and> target_size st < 2 ^ 32 \<and> 7 \<le> inbound_offset st
           \<and> inbound_offset st < target_size st)"

text \<open>There is room for the rest of what the machine waits for.\<close>

definition has_room :: "('a amqp_connection_scheme) \<Rightarrow> bool" where
  "has_room st \<longleftrightarrow>
    inbound_offset st \<le> target_size st \<and> target_size st \<le> length (raw_frame st) \<and> target_size st < 2 ^ 63"

lemma conn_inv_room: "conn_inv st \<Longrightarrow> has_room st \<and> inbound_offset st < target_size st"
  using round8_ge [of "target_size st"]
  by (auto simp: conn_inv_def has_room_def raw_frame_def split: connection_state_enum.splits)

lemma idle_conn_inv: "idle st \<Longrightarrow> conn_inv st"
  by (simp add: idle_def conn_inv_def)

section \<open>Consuming in pieces\<close>

lemma set_raw_frame_simps [simp]:
  "target_size (set_raw_frame b st) = target_size st" "conn_state (set_raw_frame b st) = conn_state st"
  "frame_max (set_raw_frame b st) = frame_max st" "c_heap (set_raw_frame b st) = c_heap st"
  "raw_frame (set_raw_frame b st) = b" "raw_frame (st\<lparr>inbound_offset := i\<rparr>) = raw_frame st"
  "set_raw_frame b (st\<lparr>inbound_offset := i\<rparr>) = (set_raw_frame b st)\<lparr>inbound_offset := i\<rparr>"
  "set_raw_frame c (set_raw_frame b st) = set_raw_frame c st"
  by (auto simp: set_raw_frame_def raw_frame_def split: inbound.split)

lemma consume_data_split_short:
  assumes "has_room st" "length d1 < target_size st - inbound_offset st"
  defines "st1 \<equiv> (set_raw_frame (blit (raw_frame st) (inbound_offset st) d1) st)
    \<lparr>inbound_offset := inbound_offset st + length d1\<rparr>"
  shows "consume_data st d1 = Some (length d1, [], st1)"
    and "inbound_offset st1 < target_size st1" and "has_room st1"
    and "in_memory d2 \<Longrightarrow> consume_data st (d1 @ d2)
      = map_option (\<lambda>(n, rest, st'). (length d1 + n, rest, st')) (consume_data st1 d2)"
proof -
  let ?off = "inbound_offset st" and ?T = "target_size st"
  show 1: "consume_data st d1 = Some (length d1, [], st1)"
    using consume_data_short [of st d1] assms by (simp add: has_room_def)
  show "inbound_offset st1 < target_size st1" "has_room st1"
    using assms by (auto simp: has_room_def)
  assume mem: "in_memory d2"
  have b: "blit (blit (raw_frame st) ?off d1) (?off + length d1) ys = blit (raw_frame st) ?off (d1 @ ys)" for ys
    by (rule blit_append) (use assms(1,2) in \<open>auto simp: has_room_def\<close>)
  show "consume_data st (d1 @ d2) = map_option (\<lambda>(n, rest, st'). (length d1 + n, rest, st')) (consume_data st1 d2)"
  proof (cases "length d2 < ?T - ?off - length d1")
    case True
    then show ?thesis
      using consume_data_short [of st "d1 @ d2"] consume_data_short [of st1 d2] assms b
      by (simp add: has_room_def add.assoc)
  next
    case False
    then show ?thesis
      using consume_data_enough [of st "d1 @ d2"] consume_data_enough [of st1 d2] assms b
      by (simp add: has_room_def diff_diff_add)
  qed
qed

lemma consume_data_split_enough:
  assumes "has_room st" "target_size st - inbound_offset st \<le> length d1"
  shows "\<exists>n rest st1. consume_data st d1 = Some (n, rest, st1) \<and> n + length rest = length d1 \<and> has_room st1
    \<and> inbound_offset st1 = target_size st1 \<and> target_size st1 = target_size st \<and> conn_state st1 = conn_state st
    \<and> consume_data st (d1 @ d2) = Some (n, rest @ d2, st1)"
  using consume_data_enough [of st d1] consume_data_enough [of st "d1 @ d2"] assms
  by (simp add: has_room_def)

section \<open>The stream can be cut anywhere\<close>

text \<open>The same result after \<open>k\<close> more bytes.\<close>

definition after :: "nat \<Rightarrow> 'a input_result \<Rightarrow> 'a input_result" where
  "after k = (\<lambda>(r, f, st). (map_sum id (\<lambda>n. int k + n) r, f, st))"

lemma after_in_fail [simp]: "after k (in_fail e st) = in_fail e st"
  by (simp add: after_def in_fail_def)

lemma handle_body_after: "k + n < 2 ^ 31 \<Longrightarrow> handle_body (k + n) st = after k (handle_body n st)"
  by (simp add: handle_body_def Let_def as_int_small split: option.split prod.split sum.split)
    (simp add: after_def)

text \<open>The machine goes on with \<open>d\<close> after a call that consumed \<open>k\<close> bytes and did not complete a frame.\<close>

definition continue_with :: "nat \<Rightarrow> amqp_bytes \<Rightarrow> 'a input_result \<Rightarrow> 'a input_result" where
  "continue_with k d res =
    (case res of
       (Inr n, f, st) \<Rightarrow>
         if conn_state st = CONNECTION_STATE_IDLE then (Inr n, f, st) else after k (amqp_handle_input st d)
     | (Inl e, f, st) \<Rightarrow> (Inl e, f, st))"

lemma continue_with_in_fail [simp]: "continue_with k d (in_fail e st) = in_fail e st"
  by (simp add: continue_with_def in_fail_def)

lemma continue_with_handle_body: "continue_with k d (handle_body n st) = handle_body n st"
  by (auto simp: handle_body_def continue_with_def Let_def return_to_idle_def in_fail_def
      split: option.splits prod.splits sum.splits)

lemma collect_body_split:
  assumes room: "has_room st" and body: "conn_state st = CONNECTION_STATE_BODY"
    and len: "k + length d1 + length d2 < 2 ^ 31" and d2: "d2 \<noteq> []"
  shows "collect_body k (d1 @ d2) st = continue_with (k + length d1) d2 (collect_body k d1 st)"
proof (cases "length d1 < target_size st - inbound_offset st")
  case True
  let ?st1 = "(set_raw_frame (blit (raw_frame st) (inbound_offset st) d1) st)
    \<lparr>inbound_offset := inbound_offset st + length d1\<rparr>"
  note split = consume_data_split_short [OF room True]
  obtain n rest st2 where c2: "consume_data ?st1 d2 = Some (n, rest, st2)" "n \<le> length d2"
    using consume_data_short [of ?st1 d2] consume_data_enough [of ?st1 d2] split(3)
    by (fastforce simp: has_room_def not_less)
  have "consume_data st (d1 @ d2) = Some (length d1 + n, rest, st2)"
    using split(4) [of d2] c2(1) len by simp
  moreover have "collect_body k d1 st = (Inr (as_int (k + length d1)), no_frame, ?st1)"
    using split(1,2) len by (simp add: collect_body_def)
  moreover have "conn_state st2 = CONNECTION_STATE_BODY"
    using c2(1) body by (auto simp: consume_data_def Let_def split: option.splits)
  ultimately show ?thesis
    using True c2 body len d2 handle_body_after [of "k + length d1" n st2]
    by (simp add: collect_body_def amqp_handle_input_def dispatch_input_def leave_idle_def as_int_small
        add.assoc continue_with_def)
      (auto simp: after_def)
next
  case False
  then obtain n rest st1 where c: "consume_data st d1 = Some (n, rest, st1)"
    "consume_data st (d1 @ d2) = Some (n, rest @ d2, st1)" "inbound_offset st1 = target_size st1"
    using consume_data_split_enough [OF room, of d1 d2] by auto
  then show ?thesis by (simp add: collect_body_def continue_with_handle_body)
qed

lemma alloc_frame_split:
  assumes st: "8 \<le> target_size st" "target_size st < 2 ^ 32" "inbound_offset st \<le> 8"
    and len: "k + length d1 + length d2 < 2 ^ 31" and d2: "d2 \<noteq> []"
  shows "alloc_frame k (d1 @ d2) ch pool st = continue_with (k + length d1) d2 (alloc_frame k d1 ch pool st)"
proof -
  have "target_size st \<le> round8 (target_size st)" using round8_ge [of "target_size st"] st by auto
  then have "has_room ((put_channel_pool st ch pool')\<lparr>c_heap := h, inbound_buffer := In_pool buf,
      conn_state := CONNECTION_STATE_BODY\<rparr>)" if "length buf = round8 (target_size st)" for pool' h buf
    using st that by (simp add: has_room_def raw_frame_def put_channel_pool_def)
  then show ?thesis
    by (auto simp: alloc_frame_def mem_write_def split: prod.splits option.splits
        intro!: collect_body_split [OF _ _ len d2])
qed

lemma get_or_create_keeps:
  assumes "amqp_get_or_create_channel_pool st ch = (r, st')"
  shows "inbound_offset st' = inbound_offset st" "target_size st' = target_size st"
    "header_buffer st' = header_buffer st" "conn_state st' = conn_state st" "inbound_buffer st' = inbound_buffer st"
    "raw_frame st' = raw_frame st" "frame_max st' = frame_max st"
  using assms
  by (auto simp: amqp_get_or_create_channel_pool_def Let_def raw_frame_def
      split: option.splits prod.splits inbound.splits)

text \<open>The length field of the header in the buffer leaves room for the frame size in 32 bits.\<close>

definition length_ok :: "amqp_bytes \<Rightarrow> bool" where
  "length_ok raw \<longleftrightarrow> length_field raw + 8 < 2 ^ 32"

lemma length_ok_target:
  assumes "length_ok raw" "amqp_d32 raw 3 = Some len"
  shows "unat (len + 7 + 1 :: u32) = unat len + 8" "unat len + 8 < 2 ^ 32"
proof -
  have len: "len = from_be32 (take 4 (drop 3 raw))"
    using assms(2) by (auto simp: amqp_d32_def mem_read_def split: if_splits)
  with assms(1) show l: "unat len + 8 < 2 ^ 32" by (simp add: length_ok_def length_field_def)
  have "len + 7 + 1 = (of_nat (unat len + 8) :: u32)" by simp
  with l show "unat (len + 7 + 1 :: u32) = unat len + 8"
    by (simp only: unat_of_nat) simp
qed

lemma handle_header_split:
  assumes ok: "length_ok (raw_frame st)" and st: "inbound_offset st \<le> 8"
    and len: "k + length d1 + length d2 < 2 ^ 31" and d2: "d2 \<noteq> []"
  shows "handle_header k (d1 @ d2) st = continue_with (k + length d1) d2 (handle_header k d1 st)"
proof (cases "(amqp_d16 (raw_frame st) 1, amqp_d32 (raw_frame st) 3)")
  case (Pair c l)
  show ?thesis
  proof (cases "c = None \<or> l = None")
    case True
    with Pair show ?thesis by (auto simp: handle_header_def split: option.split)
  next
    case False
    then obtain ch n where cl: "c = Some ch" "l = Some n" by auto
    note t = length_ok_target [OF ok, of n]
    let ?st1 = "st\<lparr>target_size := unat n + 8\<rparr>"
    have "alloc_frame k (d1 @ d2) ch pool st2 = continue_with (k + length d1) d2 (alloc_frame k d1 ch pool st2)"
      if "amqp_get_or_create_channel_pool ?st1 ch = (Some pool, st2)" for pool st2
      using get_or_create_keeps [OF that] t Pair cl st len d2 by (intro alloc_frame_split) auto
    with Pair cl t show ?thesis
      by (auto simp: handle_header_def Let_def split: option.split prod.split)
  qed
qed

text \<open>The bytes of the current frame that have been collected.\<close>

definition pending :: "('a amqp_connection_scheme) \<Rightarrow> amqp_bytes" where
  "pending st = take (inbound_offset st) (raw_frame st)"

lemma length_field_take: "length_field (take 7 xs) = length_field xs"
  by (simp add: length_field_def drop_take)

lemma length_ok_take: "length_ok (take 7 xs) = length_ok xs"
  by (simp add: length_ok_def length_field_take)

lemma header_collected:
  assumes "has_room st" "7 \<le> target_size st" "target_size st - inbound_offset st \<le> length d" "consume_data st d = Some (n, rest, st1)"
  shows "take 7 (raw_frame st1) = take 7 (pending st @ d)"
proof -
  let ?off = "inbound_offset st" and ?T = "target_size st"
  have "raw_frame st1 = blit (raw_frame st) ?off (take (?T - ?off) d)"
    using consume_data_enough [of st d] assms by (auto simp: has_room_def)
  also have "take ?T \<dots> = take ?off (raw_frame st) @ take (?T - ?off) d"
    using assms(1,3) by (simp add: blit_def has_room_def)
  finally have "take 7 (take ?T (raw_frame st1)) = take 7 (take ?off (raw_frame st) @ take (?T - ?off) d)" by simp
  with assms(1,2) show ?thesis by (simp add: min_def pending_def has_room_def)
qed

lemma dispatch_input_split:
  assumes st: "conn_state st \<noteq> CONNECTION_STATE_BODY \<Longrightarrow> inbound_offset st \<le> 8 \<and> length_ok (raw_frame st)"
    and len: "k + length d1 + length d2 < 2 ^ 31" and d2: "d2 \<noteq> []"
  shows "dispatch_input k (d1 @ d2) st = continue_with (k + length d1) d2 (dispatch_input k d1 st)"
proof (cases "conn_state st")
  case CONNECTION_STATE_INITIAL
  then show ?thesis
    using handle_header_split [OF _ _ len d2, of st] st
    by (auto simp: dispatch_input_def continue_with_def [of _ _ "(Inr _, _)"] return_to_idle_def
        split: option.split)
next
  case CONNECTION_STATE_HEADER
  then show ?thesis using handle_header_split [OF _ _ len d2, of st] st by (simp add: dispatch_input_def)
qed (simp_all add: dispatch_input_def continue_with_handle_body)

lemma consume_data_le: "consume_data st d = Some (n, rest, st') \<Longrightarrow> n + length rest = length d"
  by (auto simp: consume_data_def Let_def split: option.splits if_splits)

lemma collect_body_after:
  assumes "k + n + length d < 2 ^ 31"
  shows "collect_body (k + n) d st = after k (collect_body n d st)"
proof (cases "consume_data st d")
  case (Some x)
  obtain m rest st' where x: "x = (m, rest, st')" by (metis prod_cases3)
  with consume_data_le [of st d m rest st'] Some assms have "k + (n + m) < 2 ^ 31" by simp
  with handle_body_after [of k "n + m" st'] Some x show ?thesis
    by (auto simp: collect_body_def as_int_small after_def add.assoc)
qed (simp add: collect_body_def)

lemma alloc_frame_after:
  "k + n + length d < 2 ^ 31 \<Longrightarrow> alloc_frame (k + n) d ch pool st = after k (alloc_frame n d ch pool st)"
  by (auto simp: alloc_frame_def collect_body_after split: prod.split option.split)

lemma handle_header_after:
  "k + n + length d < 2 ^ 31 \<Longrightarrow> handle_header (k + n) d st = after k (handle_header n d st)"
  by (auto simp: handle_header_def alloc_frame_after Let_def split: prod.split option.split)

lemma dispatch_input_after:
  assumes "k + n + length d < 2 ^ 31"
  shows "dispatch_input (k + n) d st = after k (dispatch_input n d st)"
  using assms handle_header_after [OF assms, of st] handle_body_after [of k n st]
  by (auto simp: dispatch_input_def as_int_small after_def in_fail_def
      split: connection_state_enum.split option.split)

lemma leave_idle_simps [simp]:
  "raw_frame (leave_idle st) = raw_frame st" "inbound_offset (leave_idle st) = inbound_offset st"
  "target_size (leave_idle st) = target_size st" "conn_state (leave_idle st) \<noteq> CONNECTION_STATE_IDLE"
  "has_room (leave_idle st) = has_room st"
  by (auto simp: leave_idle_def raw_frame_def has_room_def split: inbound.split)

lemma leave_idle_id: "conn_state st \<noteq> CONNECTION_STATE_IDLE \<Longrightarrow> leave_idle st = st"
  by (simp add: leave_idle_def)

lemma handle_input_split:
  assumes inv: "conn_inv st" and ok: "7 \<le> length (pending st @ d1 @ d2) \<Longrightarrow> length_ok (pending st @ d1 @ d2)" and d: "d1 \<noteq> []" "d2 \<noteq> []"
    and len: "length d1 + length d2 < 2 ^ 31"
  shows "amqp_handle_input st (d1 @ d2) = continue_with (length d1) d2 (amqp_handle_input st d1)"
proof -
  let ?st0 = "leave_idle st"
  have room: "has_room ?st0" and "inbound_offset ?st0 < target_size ?st0"
    using conn_inv_room [OF inv] by auto
  show ?thesis
  proof (cases "length d1 < target_size ?st0 - inbound_offset ?st0")
    case True
    note split = consume_data_split_short [OF room True]
    let ?st1 = "(set_raw_frame (blit (raw_frame ?st0) (inbound_offset ?st0) d1) ?st0)
      \<lparr>inbound_offset := inbound_offset ?st0 + length d1\<rparr>"
    have st1: "leave_idle ?st1 = ?st1" by (rule leave_idle_id) simp
    have c1: "amqp_handle_input st d1 = (Inr (as_int (length d1)), no_frame, ?st1)"
      using split(1,2) d by (simp add: amqp_handle_input_def)
    obtain n rest st2 where c2: "consume_data ?st1 d2 = Some (n, rest, st2)"
      using consume_data_short [of ?st1 d2] consume_data_enough [of ?st1 d2] split(3)
      by (fastforce simp: has_room_def not_less)
    have n: "n + length rest = length d2" by (rule consume_data_le [OF c2])
    have "consume_data ?st0 (d1 @ d2) = Some (length d1 + n, rest, st2)"
      using split(4) [of d2] c2 len by simp
    then have "amqp_handle_input st (d1 @ d2) = after (length d1) (amqp_handle_input ?st1 d2)"
      using c2 d n len dispatch_input_after [of "length d1" n rest st2] st1
      by (simp add: amqp_handle_input_def as_int_small after_def)
    moreover have "conn_state ?st1 \<noteq> CONNECTION_STATE_IDLE" by simp
    ultimately show ?thesis using c1 by (simp add: continue_with_def)
  next
    case False
    then obtain n rest st1 where c: "consume_data ?st0 d1 = Some (n, rest, st1)"
      "consume_data ?st0 (d1 @ d2) = Some (n, rest @ d2, st1)" "inbound_offset st1 = target_size st1"
      "target_size st1 = target_size ?st0" "conn_state st1 = conn_state ?st0" "n + length rest = length d1"
      using consume_data_split_enough [OF room, of d1 d2] by auto
    have "inbound_offset st1 \<le> 8 \<and> length_ok (raw_frame st1)" if nb: "conn_state st1 \<noteq> CONNECTION_STATE_BODY"
    proof -
      have t: "target_size ?st0 = 7 \<or> target_size ?st0 = 8"
        using inv nb c(5) by (auto simp: conn_inv_def leave_idle_def split: connection_state_enum.splits if_splits)
      then have "take 7 (raw_frame st1) = take 7 (pending ?st0 @ (d1 @ d2))"
        using header_collected [OF room _ _ c(2)] False by auto
      moreover have "7 \<le> length (pending st @ d1 @ d2)"
        using t False room by (auto simp: pending_def has_room_def)
      ultimately have "length_ok (raw_frame st1)"
        using ok length_ok_take [of "raw_frame st1"] length_ok_take [of "pending st @ d1 @ d2"]
        by (simp add: pending_def)
      with t c(3,4) show ?thesis by auto
    qed
    then have "dispatch_input n (rest @ d2) st1 = continue_with (n + length rest) d2 (dispatch_input n rest st1)"
      by (rule dispatch_input_split) (use c(6) len d in auto)
    with c d show ?thesis by (simp add: amqp_handle_input_def)
  qed
qed

section \<open>The machine stays inside its buffers\<close>

text \<open>A payload that is long enough for the fixed part of its frame type.\<close>

definition payload_ok :: "amqp_bytes \<Rightarrow> bool" where
  "payload_ok raw \<longleftrightarrow>
    (raw ! 0 = FRAME_METHOD \<longrightarrow> 4 \<le> length_field raw) \<and> (raw ! 0 = FRAME_HEADER \<longrightarrow> 12 \<le> length_field raw)"

text \<open>
  A complete header frame whose flag words go on to a third one: the low bits of the first two, at offsets 20 and 22
  behind the frame header, the class and the body size, are set.
\<close>

definition third_flag_word :: "amqp_bytes \<Rightarrow> bool" where
  "third_flag_word bs \<longleftrightarrow> bs ! 0 = FRAME_HEADER \<and> 18 \<le> length_field bs \<and> length_field bs + 8 \<le> length bs
     \<and> bit (bs ! 20) 0 \<and> bit (bs ! 22) 0"

lemma third_flag_word_take:
  assumes "take n xs = take n ys" "n = length_field xs + 8" "n \<le> length xs" "n \<le> length ys"
  shows "third_flag_word xs = third_flag_word ys"
proof -
  have "take 7 xs = take 7 ys" using arg_cong [OF assms(1), of "take 7"] assms(2) by (simp add: min_def)
  then have "length_field xs = length_field ys" by (metis length_field_take)
  moreover have "xs ! i = ys ! i" if "i < n" for i using assms(1,3,4) that by (metis nth_take)
  ultimately show ?thesis using assms(2-4) by (auto simp: third_flag_word_def)
qed

text \<open>The first byte behind the frame header is not looked at.\<close>

lemma third_flag_word_skips:
  "length a = 7 \<Longrightarrow> third_flag_word (a @ x # d) = third_flag_word (a @ y # d)"
  using length_field_take [of "a @ x # d"] length_field_take [of "a @ y # d"]
  by (auto simp: third_flag_word_def nth_append)

text \<open>
  What a call may do: consume and keep the invariant, report a status, or meet the undefined shift
  in the flag words of a header frame, where there is one among the bytes \<open>bs\<close>.
\<close>

definition input_safe :: "amqp_bytes \<Rightarrow> 'a input_result \<Rightarrow> bool" where
  "input_safe bs = (\<lambda>(r, f, st). case r of
     Inr n \<Rightarrow> conn_inv st
   | Inl e \<Rightarrow> (\<exists>s. e = Status s) \<or> e = Undefined_behaviour \<and> third_flag_word bs)"

lemma input_safe_status [simp]: "input_safe bs (in_fail (Status s) st)"
  by (simp add: input_safe_def in_fail_def)

lemma input_safe_cong: "third_flag_word bs = third_flag_word bs' \<Longrightarrow> input_safe bs x = input_safe bs' x"
  by (auto simp: input_safe_def split: sum.splits)

lemma conn_inv_idle: "length (header_buffer st) = 8 \<Longrightarrow> conn_inv (return_to_idle st)"
  by (simp add: conn_inv_def return_to_idle_def HEADER_SIZE_def)

lemma decode_slice_keeps:
  "decode_slice f ch pool w st = (r, st') \<Longrightarrow> header_buffer st' = header_buffer st"
  by (auto simp: decode_slice_def put_channel_pool_def split: prod.splits)

lemma decode_slice_method_fault:
  assumes "decode_slice (amqp_decode_method mid) ch pool w st = (Inl e, st')" "in_memory w"
  shows "\<exists>s. e = Status s"
proof -
  let ?d = "\<lparr>d_off = 0, d_pool = pool, d_heap = c_heap st\<rparr>"
  obtain d' where "decode_method_switch mid w ?d = (Inl e, d')"
    using assms(1) by (auto simp: decode_slice_method decode_slice_def split: prod.splits)
  from guarded_fault [OF decode_method_switch_guarded assms(2) _ this] show ?thesis by simp
qed

lemma decode_slice_properties_fault:
  assumes "decode_slice (amqp_decode_properties c) ch pool w st = (Inl e, st')" "in_memory w"
  shows "(\<exists>s. e = Status s) \<or> e = Undefined_behaviour \<and> 6 \<le> length w \<and> bit (w ! 1) 0 \<and> bit (w ! 3) 0"
proof -
  let ?d = "\<lparr>d_off = 0, d_pool = pool, d_heap = c_heap st\<rparr>"
  obtain d' where "decode_properties_body c w ?d = (Inl e, d')"
    using assms(1) by (auto simp: decode_slice_properties decode_slice_def split: prod.splits)
  from decode_properties_run [OF assms(2) _ this] show ?thesis by (auto simp: flag_words_overrun_def split: if_splits)
qed

lemma decode_payload_safe:
  assumes raw: "length (raw_frame st) < 2 ^ 33" "target_size st = length_field (raw_frame st) + 8"
      "target_size st \<le> length (raw_frame st)"
    and ok: "payload_ok (raw_frame st)" and ft: "ft = raw_frame st ! 0"
    and run: "decode_payload ft ch pool st = (r, ft', st')"
  shows "header_buffer st' = header_buffer st \<and> (\<forall>e. r = Inl e \<longrightarrow> (\<exists>s. e = Status s)
    \<or> e = Undefined_behaviour \<and> third_flag_word (raw_frame st))"
proof -
  let ?raw = "raw_frame st" and ?T = "target_size st"
  have T: "8 \<le> ?T" "?T \<le> length ?raw" using raw by simp_all
  have w: "mem_read ?raw off n = Some (take n (drop off ?raw)) \<and> in_memory (take n (drop off ?raw))"
    if "off + n \<le> ?T" for off n using that T raw(1) by (simp add: mem_read_def)
  consider "ft = FRAME_METHOD" "12 \<le> ?T" | "ft = FRAME_HEADER" "20 \<le> ?T" | "ft = FRAME_BODY"
    | "ft \<notin> {FRAME_METHOD, FRAME_HEADER, FRAME_BODY}"
    using ok ft raw(2) by (fastforce simp: payload_ok_def)
  then show ?thesis
  proof cases
    case 1
    then obtain mid where "amqp_d32 ?raw 7 = Some mid" using w [of 7 4] by (auto simp: amqp_d32_def)
    with 1 run w [of 11 "?T - 12"] raw(1) T(2) show ?thesis
      by (auto simp: decode_payload_def Let_def HEADER_SIZE_def FOOTER_SIZE_def
          dest: decode_slice_keeps decode_slice_method_fault split: prod.splits sum.splits)
  next
    case 2
    then obtain c b where "amqp_d16 ?raw 7 = Some c" "amqp_d64 ?raw 11 = Some b"
      using w [of 7 2] w [of 11 8] by (auto simp: amqp_d16_def amqp_d64_def)
    moreover let ?w = "take (?T - 20) (drop 19 ?raw)"
    have "third_flag_word ?raw" if "6 \<le> length ?w" "bit (?w ! 1) 0" "bit (?w ! 3) 0"
      using that 2(1) ft raw(2) T by (auto simp: third_flag_word_def)
    then have props: "header_buffer s' = header_buffer st \<and> ((\<exists>x. e = Status x) \<or> e = Undefined_behaviour \<and> third_flag_word ?raw)"
      if "decode_slice (amqp_decode_properties c) ch pool ?w st = (Inl e, s')" for c e s'
      using decode_slice_keeps [OF that] decode_slice_properties_fault [OF that] w [of 19 "?T - 20"] 2(2) by auto
    have read: "mem_read ?raw 19 (?T - 20) = Some ?w" using w [of 19 "?T - 20"] 2(2) by simp
    show ?thesis using 2 calculation read run raw(1) T(2)
      by (auto simp: decode_payload_def Let_def HEADER_SIZE_def FOOTER_SIZE_def
          dest: decode_slice_keeps props split: prod.splits sum.splits)
  next
    case 3
    with run w [of 7 "?T - 8"] raw(1) T show ?thesis
      by (auto simp: decode_payload_def Let_def HEADER_SIZE_def FOOTER_SIZE_def)
  next
    case 4
    with run show ?thesis by (auto simp: decode_payload_def Let_def split: if_splits)
  qed
qed

text \<open>The frame buffer in the pool with its header, and the header buffer in its place.\<close>

definition body_buffer :: "'a amqp_connection_scheme \<Rightarrow> bool" where
  "body_buffer st \<longleftrightarrow>
    length (header_buffer st) = 8 \<and> 8 \<le> target_size st \<and> target_size st < 2 ^ 32
    \<and> (\<exists>bs. inbound_buffer st = In_pool bs \<and> length bs = round8 (target_size st) \<and> target_size st = length_field bs + 8)"

lemma body_buffer_raw:
  assumes "body_buffer st"
  shows "length (raw_frame st) < 2 ^ 33" "target_size st \<le> length (raw_frame st)"
    "target_size st = length_field (raw_frame st) + 8"
  using assms round8_ge [of "target_size st"] by (auto simp: body_buffer_def raw_frame_def)

lemma handle_body_safe:
  assumes b: "body_buffer st" and ok: "payload_ok (raw_frame st)"
  shows "input_safe (raw_frame st) (handle_body n st)"
proof -
  note r = body_buffer_raw [OF b]
  have T: "8 \<le> target_size st" "length (header_buffer st) = 8" using b by (auto simp: body_buffer_def)
  obtain e where e: "amqp_d8 (raw_frame st) (sz_sub (target_size st) 1) = Some e"
    using r T by (auto simp: amqp_d8_def mem_read_def)
  have ft: "amqp_d8 (raw_frame st) 0 = Some (raw_frame st ! 0)"
    using r T by (auto simp: amqp_d8_def mem_read_def hd_conv_nth take_Suc)
  obtain ch where ch: "amqp_d16 (raw_frame st) 1 = Some ch"
    using r T by (auto simp: amqp_d16_def mem_read_def)
  show ?thesis
  proof (cases "amqp_get_or_create_channel_pool st ch")
    case (Pair p st1)
    note k = get_or_create_keeps [OF Pair]
    show ?thesis
    proof (cases p)
      case (Some pool)
      obtain q ft' st2 where q: "decode_payload (raw_frame st ! 0) ch pool st1 = (q, ft', st2)"
        by (metis prod_cases3)
      have "header_buffer st2 = header_buffer st1 
          \<and> (\<forall>e. q = Inl e \<longrightarrow> (\<exists>s. e = Status s) \<or> e = Undefined_behaviour \<and> third_flag_word (raw_frame st1))"
        by (rule decode_payload_safe [OF _ _ _ _ _ q]) (use r ok k in auto)
      with e ft ch Pair Some q k T(2) show ?thesis
        by (cases q) (auto simp: handle_body_def Let_def input_safe_def in_fail_def conn_inv_idle)
    qed (use e ft ch Pair in \<open>auto simp: handle_body_def Let_def input_safe_def in_fail_def\<close>)
  qed
qed

lemma payload_ok_take: "payload_ok (take 7 xs) = payload_ok xs"
  by (simp add: payload_ok_def length_field_take)

lemma take_blit_behind: "n \<le> off \<Longrightarrow> off \<le> length buf \<Longrightarrow> take n (blit buf off bs) = take n buf"
  by (simp add: blit_def min_def)

text \<open>Consuming bytes of the body does not touch the header.\<close>

lemma body_buffer_blit:
  assumes b: "body_buffer st" and off: "7 \<le> off" "off + length d \<le> length (raw_frame st)"
  shows "body_buffer ((set_raw_frame (blit (raw_frame st) off d) st)\<lparr>inbound_offset := i\<rparr>)"
    and "payload_ok (blit (raw_frame st) off d) = payload_ok (raw_frame st)"
proof -
  let ?raw = "blit (raw_frame st) off d"
  have t: "take 7 ?raw = take 7 (raw_frame st)" using off by (intro take_blit_behind) auto
  then have "length_field ?raw = length_field (raw_frame st)"
    by (metis length_field_take)
  with b off show "body_buffer ((set_raw_frame ?raw st)\<lparr>inbound_offset := i\<rparr>)"
    by (auto simp: body_buffer_def set_raw_frame_def raw_frame_def)
  from t show "payload_ok ?raw = payload_ok (raw_frame st)" by (metis payload_ok_take)
qed

lemma body_buffer_conn_inv:
  "body_buffer st \<Longrightarrow> conn_state st = CONNECTION_STATE_BODY \<Longrightarrow> 7 \<le> inbound_offset st \<Longrightarrow>
    inbound_offset st < target_size st \<Longrightarrow> conn_inv st"
  by (auto simp: conn_inv_def body_buffer_def)

lemma collect_body_safe:
  assumes b: "body_buffer st" and body: "conn_state st = CONNECTION_STATE_BODY"
    and off: "7 \<le> inbound_offset st" "inbound_offset st \<le> target_size st"
    and ok: "payload_ok (raw_frame st)"
  shows "input_safe (pending st @ d) (collect_body n d st)"
proof -
  note r = body_buffer_raw [OF b]
  have T: "target_size st < 2 ^ 63" using b by (simp add: body_buffer_def)
  show ?thesis
  proof (cases "length d < target_size st - inbound_offset st")
    case True
    let ?st' = "(set_raw_frame (blit (raw_frame st) (inbound_offset st) d) st)
      \<lparr>inbound_offset := inbound_offset st + length d\<rparr>"
    have "conn_inv ?st'"
      using body_buffer_blit(1) [OF b off(1), of d "inbound_offset st + length d"] True r(2) body off
      by (intro body_buffer_conn_inv) auto
    moreover have "inbound_offset st + length d < target_size st" using True off(2) by simp
    ultimately show ?thesis
      using consume_data_short [OF off(2) r(2) T True] by (simp add: collect_body_def input_safe_def)
  next
    case False
    let ?d = "take (target_size st - inbound_offset st) d"
    have "inbound_offset st + length ?d \<le> length (raw_frame st)" using False off(2) r(2) by simp
    note bb = body_buffer_blit [OF b off(1) this]
    let ?raw = "blit (raw_frame st) (inbound_offset st) ?d"
    have "take (target_size st) ?raw = take (target_size st) (pending st @ d)"
      using False off(2) r(2) by (simp add: blit_def pending_def)
    moreover have "target_size st = length_field ?raw + 8"
      using bb(1) off(1) r body_buffer_raw(3) [OF bb(1) [of 0]] by simp
    moreover have "target_size st \<le> length (pending st @ d)" using False off(2) r(2) by (simp add: pending_def)
    ultimately have "third_flag_word ?raw = third_flag_word (pending st @ d)"
      using off(2) r(2) False by (intro third_flag_word_take) (auto simp: blit_def)
    moreover have "input_safe ?raw (handle_body (sz_add n (target_size st - inbound_offset st))
        ((set_raw_frame ?raw st)\<lparr>inbound_offset := target_size st\<rparr>))"
      using handle_body_safe [OF bb(1) [of "target_size st"]] bb(2) ok by simp
    ultimately have "input_safe (pending st @ d) (handle_body (sz_add n (target_size st - inbound_offset st))
        ((set_raw_frame ?raw st)\<lparr>inbound_offset := target_size st\<rparr>))"
      using input_safe_cong by blast
    with consume_data_enough [OF off(2) r(2) T, of d] False show ?thesis
      by (simp add: collect_body_def)
  qed
qed

lemma alloc_frame_safe:
  assumes st: "length (header_buffer st) = 8" "target_size st = length_field (header_buffer st) + 8"
      "target_size st < 2 ^ 32" "7 \<le> inbound_offset st" "inbound_offset st \<le> 8"
    and ok: "payload_ok (header_buffer st)"
  shows "input_safe (take (inbound_offset st) (header_buffer st) @ d) (alloc_frame n d ch pool st)"
proof -
  let ?T = "target_size st" and ?buf = "blit (pool_bytes st (target_size st)) 0 (take 7 (header_buffer st))"
  have r8: "?T \<le> round8 ?T" "8 \<le> round8 ?T" using round8_ge [of ?T] st by auto
  have t: "take 7 ?buf = take 7 (header_buffer st)" using st(1) r8 by (simp add: blit_def)
  then have bf: "length_field ?buf = length_field (header_buffer st)" "payload_ok ?buf = payload_ok (header_buffer st)"
    by (metis length_field_take, metis payload_ok_take)
  let ?s = "\<lambda>p h. (put_channel_pool st ch p)\<lparr>c_heap := h, inbound_buffer := In_pool ?buf, conn_state := CONNECTION_STATE_BODY\<rparr>"
  have "third_flag_word (take (inbound_offset st) ?buf @ d) = third_flag_word (take (inbound_offset st) (header_buffer st) @ d)"
  proof (cases "inbound_offset st = 7")
    case True
    with t show ?thesis by simp
  next
    case False
    then have 8: "inbound_offset st = 8" using st(4,5) by simp
    have "length (take 7 (header_buffer st)) = 7" "7 < length ?buf" "7 < length (header_buffer st)"
      using st(1) r8 by (simp_all add: blit_def)
    then show ?thesis using third_flag_word_skips [of "take 7 (header_buffer st)" "?buf ! 7" d "header_buffer st ! 7"]
        take_Suc_conv_app_nth [of 7 ?buf] take_Suc_conv_app_nth [of 7 "header_buffer st"]
      unfolding 8 by (simp add: t)
  qed
  moreover have "input_safe (pending (?s p h) @ d) (collect_body n d (?s p h))" for p h
    by (rule collect_body_safe)
      (use st ok bf r8 in \<open>simp_all add: body_buffer_def put_channel_pool_def raw_frame_def\<close>)
  moreover have "pending (?s p h) = take (inbound_offset st) ?buf" for p h
    by (simp add: pending_def put_channel_pool_def raw_frame_def)
  ultimately have "input_safe (take (inbound_offset st) (header_buffer st) @ d) (collect_body n d (?s p h))" for p h
    using input_safe_cong by metis
  then show ?thesis
    using r8 st(1)
    by (auto simp: alloc_frame_def mem_write_def HEADER_SIZE_def split: prod.split option.split)
qed

lemma handle_header_safe:
  assumes st: "inbound_buffer st = In_header_buffer" "length (header_buffer st) = 8"
      "7 \<le> inbound_offset st" "inbound_offset st \<le> 8"
    and ok: "length_ok (header_buffer st)" "payload_ok (header_buffer st)"
  shows "input_safe (pending st @ d) (handle_header n d st)"
proof -
  have raw: "raw_frame st = header_buffer st" using st(1) by (simp add: raw_frame_def)
  obtain ch len where f: "amqp_d16 (raw_frame st) 1 = Some ch" "amqp_d32 (raw_frame st) 3 = Some len"
    using st(2) by (auto simp: raw amqp_d16_def amqp_d32_def mem_read_def)
  note t = length_ok_target [OF ok(1) f(2) [unfolded raw]]
  have len: "unat len = length_field (header_buffer st)"
    using f(2) st(2) by (auto simp: raw amqp_d32_def mem_read_def length_field_def)
  let ?st1 = "st\<lparr>target_size := unat len + 8\<rparr>"
  have "input_safe (pending st @ d) (alloc_frame n d ch pool st2)"
    if "amqp_get_or_create_channel_pool ?st1 ch = (Some pool, st2)" for pool st2
  proof -
    note k = get_or_create_keeps [OF that]
    have "input_safe (take (inbound_offset st2) (header_buffer st2) @ d) (alloc_frame n d ch pool st2)"
      by (rule alloc_frame_safe) (use k st ok t len in auto)
    moreover have "take (inbound_offset st2) (header_buffer st2) = pending st" using k raw by (simp add: pending_def)
    ultimately show ?thesis by simp
  qed
  with f t(1) show ?thesis
    by (auto simp: handle_header_def Let_def split: prod.split option.split)
qed

lemma conn_inv_cases:
  assumes "conn_inv st"
  obtains (header) "inbound_buffer (leave_idle st) = In_header_buffer" "length (header_buffer (leave_idle st)) = 8"
      "conn_state (leave_idle st) \<in> {CONNECTION_STATE_HEADER, CONNECTION_STATE_INITIAL}"
      "target_size st = (if conn_state (leave_idle st) = CONNECTION_STATE_HEADER then 7 else 8)"
    | (body) "leave_idle st = st" "body_buffer st" "conn_state st = CONNECTION_STATE_BODY"
      "7 \<le> inbound_offset st" "inbound_offset st < target_size st"
  using assms
  by (cases "conn_state st") (auto simp: conn_inv_def leave_idle_def body_buffer_def)

lemma payload_ok_pending:
  assumes "7 \<le> inbound_offset st" "inbound_offset st \<le> length (raw_frame st)"
  shows "payload_ok (pending st @ d) = payload_ok (raw_frame st)"
  using assms payload_ok_take [of "pending st @ d"] payload_ok_take [of "raw_frame st"]
  by (simp add: pending_def min_def)

lemma handle_input_body:
  assumes "conn_state st = CONNECTION_STATE_BODY" "d \<noteq> []"
  shows "amqp_handle_input st d = collect_body 0 d st"
proof (cases "consume_data st d")
  case (Some x)
  obtain n rest st1 where x: "x = (n, rest, st1)" by (metis prod_cases3)
  have "conn_state st1 = CONNECTION_STATE_BODY"
    using Some x assms(1) by (auto simp: consume_data_def Let_def split: option.splits)
  moreover have "sz_sub (target_size st) (inbound_offset st) < 2 ^ 64" by (simp add: sz_sub_def)
  then have "n < 2 ^ 64"
    using Some x by (auto simp: consume_data_def Let_def split: option.splits if_splits)
  ultimately show ?thesis using Some x assms
    by (simp add: amqp_handle_input_def collect_body_def dispatch_input_def leave_idle_def)
qed (use assms in \<open>simp add: amqp_handle_input_def collect_body_def leave_idle_def\<close>)

lemma handle_input_safe:
  assumes inv: "conn_inv st"
    and ok: "7 \<le> length (pending st @ d) \<Longrightarrow> length_ok (pending st @ d) \<and> payload_ok (pending st @ d)"
  shows "input_safe (pending st @ d) (amqp_handle_input st d)"
proof (cases "d = []")
  case True
  with inv show ?thesis by (simp add: amqp_handle_input_def input_safe_def)
next
  case d: False
  let ?st0 = "leave_idle st"
  have room: "has_room ?st0" using conn_inv_room [OF inv] by auto
  from inv show ?thesis
  proof (cases rule: conn_inv_cases)
    case body
    have "payload_ok (raw_frame st)"
      using ok payload_ok_pending [OF body(4), of d] body(4) room by (simp add: pending_def has_room_def)
    then have "input_safe (pending st @ d) (collect_body 0 d st)" by (intro collect_body_safe) (use body in auto)
    then show ?thesis using handle_input_body [OF body(3) d] by simp
  next
    case header
    show ?thesis
    proof (cases "length d < target_size ?st0 - inbound_offset ?st0")
      case True
      note split = consume_data_split_short [OF room True]
      from True split(1,2) header d show ?thesis
        by (auto simp: amqp_handle_input_def input_safe_def conn_inv_def set_raw_frame_def raw_frame_def)
    next
      case False
      then obtain n rest st1 where c: "consume_data ?st0 d = Some (n, rest, st1)" "inbound_offset st1 = target_size st1"
        "target_size st1 = target_size ?st0" "conn_state st1 = conn_state ?st0"
        using consume_data_split_enough [OF room, of d "[]"] by auto
      have st1: "inbound_buffer st1 = In_header_buffer" "length (header_buffer st1) = 8" "raw_frame st1 = header_buffer st1"
        using c(1) header(1,2) consume_data_enough [of ?st0 d] room False
        by (auto simp: has_room_def set_raw_frame_def raw_frame_def)
      have p: "pending st1 @ rest = pending st @ d"
        using c(1) consume_data_enough [of ?st0 d] room False
        by (auto simp: has_room_def pending_def set_raw_frame_def raw_frame_def blit_def leave_idle_def
            split: inbound.splits if_splits)
      have "take 7 (raw_frame st1) = take 7 (pending st @ d)"
        using header_collected [OF room _ _ c(1)] header(4) False by (auto simp: pending_def split: if_splits)
      moreover have "7 \<le> length (pending st @ d)"
        using False room header(4) by (auto simp: pending_def has_room_def split: if_splits)
      ultimately have "length_ok (header_buffer st1)" "payload_ok (header_buffer st1)"
        using ok st1(3) by (metis length_ok_take, metis payload_ok_take)
      with st1 c header(4) have "input_safe (pending st1 @ rest) (handle_header n rest st1)"
        by (intro handle_header_safe) (auto split: if_splits)
      then have "input_safe (pending st @ d) (handle_header n rest st1)" unfolding p .
      with c header st1 d show ?thesis
        by (auto simp: amqp_handle_input_def dispatch_input_def input_safe_def conn_inv_idle mem_read_def
            split: if_splits)
    qed
  qed
qed

section \<open>Any bytes at all\<close>

text \<open>
  Whatever the bytes, malformed lengths included: a call that returns a count keeps the invariant and
  consumes at least one byte, and no call runs out of the model's fuel.
\<close>

text \<open>A call that was entered with \<open>n\<close> bytes consumed and \<open>d\<close> to go.\<close>

definition input_kept :: "nat \<Rightarrow> amqp_bytes \<Rightarrow> 'a input_result \<Rightarrow> bool" where
  "input_kept n d = (\<lambda>(r, f, st). case r of
     Inr v \<Rightarrow> conn_inv st \<and> int n \<le> v \<and> v \<le> int (n + length d)
   | Inl e \<Rightarrow> e \<noteq> Out_of_fuel \<and> e \<noteq> Blocked)"

lemma input_kept_fail [simp]: "input_kept n d (in_fail e st) \<longleftrightarrow> e \<noteq> Out_of_fuel \<and> e \<noteq> Blocked"
  by (simp add: input_kept_def in_fail_def)

lemma input_kept_mono: "input_kept m d' x \<Longrightarrow> n \<le> m \<Longrightarrow> m + length d' \<le> n + length d \<Longrightarrow> input_kept n d x"
  by (auto simp: input_kept_def split: sum.splits)

lemma mem_read_in_memory: "mem_read raw off n = Some w \<Longrightarrow> in_memory raw \<Longrightarrow> in_memory w"
  by (auto simp: mem_read_def split: if_splits)

lemma decode_payload_kept:
  assumes "decode_payload ft ch pool st = (r, ft', st')" "in_memory (raw_frame st)"
  shows "header_buffer st' = header_buffer st \<and> r \<noteq> Inl Out_of_fuel \<and> r \<noteq> Inl Blocked"
proof -
  have m: "e \<noteq> Out_of_fuel \<and> e \<noteq> Blocked"
    if "decode_slice (amqp_decode_method mid) ch pool w st = (Inl e, s)" "mem_read (raw_frame st) off n = Some w" for mid w e s off n
    using decode_slice_method_fault [OF that(1) mem_read_in_memory [OF that(2) assms(2)]] by auto
  have p: "e \<noteq> Out_of_fuel \<and> e \<noteq> Blocked"
    if "decode_slice (amqp_decode_properties c) ch pool w st = (Inl e, s)" "mem_read (raw_frame st) off n = Some w" for c w e s off n
    using decode_slice_properties_fault [OF that(1) mem_read_in_memory [OF that(2) assms(2)]] by auto
  show ?thesis
    using assms(1)
    by (auto simp: decode_payload_def Let_def dest: decode_slice_keeps m p split: if_splits option.splits prod.splits sum.splits)
qed

lemma handle_body_kept:
  assumes "in_memory (raw_frame st)" "length (header_buffer st) = 8" "n < 2 ^ 31"
  shows "input_kept n [] (handle_body n st)"
proof -
  have "header_buffer st2 = header_buffer st \<and> q \<noteq> Inl Out_of_fuel \<and> q \<noteq> Inl Blocked"
    if "amqp_get_or_create_channel_pool st ch = (Some pool, st1)" "decode_payload ft ch pool st1 = (q, ft', st2)" for ch pool st1 ft q ft' st2
    using decode_payload_kept [OF that(2)] get_or_create_keeps [OF that(1)] assms(1) by simp
  then show ?thesis
    using assms(2,3)
    by (auto simp: handle_body_def Let_def input_kept_def in_fail_def as_int_small conn_inv_idle
        split: option.split prod.split sum.split) blast+
qed

lemma collect_body_kept:
  assumes "length (header_buffer st) = 8" "conn_state st = CONNECTION_STATE_BODY" "7 \<le> inbound_offset st"
    and "body_buffer st \<and> inbound_offset st \<le> target_size st \<or> in_memory (raw_frame st) \<and> inbound_offset st < 2 ^ 63 \<and> target_size st \<le> 7"
    and "n + length d < 2 ^ 31"
  shows "input_kept n d (collect_body n d st)"
proof (cases "consume_data st d")
  case (Some x)
  obtain m rest st' where x: "x = (m, rest, st')" by (metis prod_cases3)
  note c = Some [unfolded x]
  have m: "m \<le> length d" using consume_data_le [OF c] by simp
  have st': "length (header_buffer st') = 8" "inbound_offset st' = sz_add (inbound_offset st) m" "target_size st' = target_size st"
    "length (raw_frame st') = length (raw_frame st)"
    using c assms(1) by (auto simp: consume_data_def Let_def set_raw_frame_def mem_write_def blit_def raw_frame_def
        split: option.splits if_splits inbound.splits)
  show ?thesis
  proof (cases "inbound_offset st' < target_size st'")
    case False
    have "in_memory (raw_frame st')"
      using assms(4) st'(4) body_buffer_raw(1) [of st] by auto
    then have "input_kept (n + m) [] (handle_body (n + m) st')"
      by (rule handle_body_kept) (use st' assms(5) m in auto)
    then have "input_kept n d (handle_body (n + m) st')" by (rule input_kept_mono) (use m in auto)
    with False c assms(5) m show ?thesis by (simp add: collect_body_def)
  next
    case True
    then have b: "body_buffer st" "inbound_offset st \<le> target_size st"
      using assms(3,4,5) st'(2,3) m by (auto simp: sz_add_def)
    note r = body_buffer_raw [OF b(1)]
    have T: "target_size st < 2 ^ 63" using b(1) by (simp add: body_buffer_def)
    have short: "length d < target_size st - inbound_offset st"
      using consume_data_enough [OF b(2) r(2) T, of d] True c by fastforce
    have "conn_inv st'"
      using body_buffer_blit(1) [OF b(1) assms(3), of d "inbound_offset st + length d"] short r(2) assms(2,3) b(2) c
        consume_data_short [OF b(2) r(2) T short]
      by (intro body_buffer_conn_inv) auto
    with True c assms(5) m show ?thesis by (simp add: collect_body_def input_kept_def as_int_small)
  qed
qed (simp add: collect_body_def)

lemma alloc_frame_kept:
  assumes st: "length (header_buffer st) = 8" "7 \<le> inbound_offset st" "inbound_offset st \<le> 8" "target_size st < 2 ^ 32"
    and T: "8 \<le> target_size st \<longrightarrow> target_size st = length_field (header_buffer st) + 8"
    and n: "n + length d < 2 ^ 31"
  shows "input_kept n d (alloc_frame n d ch pool st)"
proof -
  let ?T = "target_size st" and ?buf = "blit (pool_bytes st (target_size st)) 0 (take 7 (header_buffer st))"
  have len: "length (pool_bytes st ?T) = round8 ?T" by (simp add: pool_bytes_def)
  have r8: "0 < ?T \<Longrightarrow> ?T \<le> round8 ?T \<and> 8 \<le> round8 ?T \<and> round8 ?T < 2 ^ 33"
    using round8_ge [of ?T] st(4) by (auto simp: round8_def)
  have "input_kept n d (collect_body n d ((put_channel_pool st ch p)\<lparr>c_heap := h, inbound_buffer := In_pool ?buf,
      conn_state := CONNECTION_STATE_BODY\<rparr>))" (is "input_kept n d (collect_body n d ?s)") if "0 < ?T" for p h
  proof (rule collect_body_kept)
    have t: "take 7 ?buf = take 7 (header_buffer st)" using st(1) r8 [OF that] by (simp add: blit_def len)
    then have bf: "length_field ?buf = length_field (header_buffer st)" by (metis length_field_take)
    have l: "length ?buf = round8 ?T" using st(1) r8 [OF that] by (simp add: blit_def len)
    show "body_buffer ?s \<and> inbound_offset ?s \<le> target_size ?s \<or>
      in_memory (raw_frame ?s) \<and> inbound_offset ?s < 2 ^ 63 \<and> target_size ?s \<le> 7"
      using T st bf l r8 [OF that]
      by (cases "8 \<le> ?T") (auto simp: body_buffer_def put_channel_pool_def raw_frame_def)
  qed (use st n in \<open>auto simp: put_channel_pool_def\<close>)
  then show ?thesis
    using r8 len st(1)
    by (cases "?T = 0") (auto simp: alloc_frame_def amqp_pool_alloc_def mem_write_def HEADER_SIZE_def split: prod.split option.split)
qed

lemma handle_header_kept:
  assumes st: "inbound_buffer st = In_header_buffer" "length (header_buffer st) = 8"
      "7 \<le> inbound_offset st" "inbound_offset st \<le> 8"
    and n: "n + length d < 2 ^ 31"
  shows "input_kept n d (handle_header n d st)"
proof -
  have raw: "raw_frame st = header_buffer st" using st(1) by (simp add: raw_frame_def)
  obtain ch len where f: "amqp_d16 (raw_frame st) 1 = Some ch" "amqp_d32 (raw_frame st) 3 = Some len"
    using st(2) by (auto simp: raw amqp_d16_def amqp_d32_def mem_read_def)
  have len: "unat len = length_field (header_buffer st)"
    using f(2) st(2) by (auto simp: raw amqp_d32_def mem_read_def length_field_def)
  let ?T = "unat (len + 7 + 1 :: u32)"
  have lt: "?T < 2 ^ 32" using unsigned_less [where w = "len + 7 + 1 :: u32"] by simp
  have T: "8 \<le> ?T \<Longrightarrow> ?T = length_field (header_buffer st) + 8"
  proof -
    assume "8 \<le> ?T"
    moreover have "?T = (unat len + 8) mod 2 ^ 32" by (simp add: unat_word_ariths add.assoc)
    moreover have "unat len < 2 ^ 32" using unsigned_less [where w = len] by simp
    moreover have "(x + 8) mod 2 ^ 32 < 8" if "x < 2 ^ 32" "\<not> x + 8 < 2 ^ 32" for x :: nat
      using that by (simp add: le_mod_geq)
    ultimately show ?thesis using len by (metis mod_less not_less)
  qed
  have "input_kept n d (alloc_frame n d ch pool st2)"
    if "amqp_get_or_create_channel_pool (st\<lparr>target_size := ?T\<rparr>) ch = (Some pool, st2)" for pool st2
    by (rule alloc_frame_kept) (use get_or_create_keeps [OF that] st T lt n in auto)
  with f show ?thesis
    by (auto simp: handle_header_def Let_def split: prod.split option.split)
qed

lemma handle_body_consumed: "handle_body n st = (Inr v, f, st') \<Longrightarrow> v = as_int n"
  by (auto simp: handle_body_def Let_def in_fail_def split: option.splits prod.splits sum.splits if_splits)

lemma collect_body_consumes:
  assumes "collect_body 0 d st = (Inr v, f, st')" "d \<noteq> []" "length d < 2 ^ 31"
    and "inbound_offset st < target_size st" "target_size st < 2 ^ 63"
  shows "0 < v"
proof -
  obtain m rest st1 where c: "consume_data st d = Some (m, rest, st1)"
    using assms(1) by (auto simp: collect_body_def in_fail_def split: option.splits)
  have "v = as_int (sz_add 0 m)"
    using assms(1) c by (auto simp: collect_body_def dest: handle_body_consumed split: if_splits)
  moreover have "0 < m" "m \<le> length d"
    using c assms(2,4,5) by (auto simp: consume_data_def Let_def split: option.splits if_splits)
  ultimately show ?thesis using assms(3) by (simp add: as_int_small)
qed

lemma handle_input_kept:
  assumes inv: "conn_inv st" and d: "d \<noteq> []" "length d < 2 ^ 31"
  shows "input_kept 1 (tl d) (amqp_handle_input st d)"
  using inv
proof (cases rule: conn_inv_cases)
  case body
  have "input_kept 0 d (collect_body 0 d st)"
    by (rule collect_body_kept) (use body d(2) in \<open>auto simp: body_buffer_def\<close>)
  then have k: "input_kept 0 d (amqp_handle_input st d)" using handle_input_body [OF body(3) d(1)] by simp
  have "0 < v" if "amqp_handle_input st d = (Inr v, f, st')" for v f st'
    by (rule collect_body_consumes [of d st _ f st']) (use that handle_input_body [OF body(3) d(1)] d body in \<open>auto simp: body_buffer_def\<close>)
  with k d(1) show ?thesis by (cases "amqp_handle_input st d") (auto simp: input_kept_def split: sum.splits)
next
  case header
  let ?st0 = "leave_idle st"
  have room: "has_room ?st0" "inbound_offset ?st0 < target_size ?st0" using conn_inv_room [OF inv] by auto
  show ?thesis
  proof (cases "length d < target_size ?st0 - inbound_offset ?st0")
    case True
    note split = consume_data_split_short [OF room(1) True]
    have "1 \<le> length d" using d by (cases d) auto
    with True split(1,2) header d show ?thesis
      by (auto simp: amqp_handle_input_def input_kept_def conn_inv_def set_raw_frame_def raw_frame_def as_int_small)
  next
    case False
    have e: "consume_data ?st0 d = Some (target_size ?st0 - inbound_offset ?st0, drop (target_size ?st0 - inbound_offset ?st0) d,
    (set_raw_frame (blit (raw_frame ?st0) (inbound_offset ?st0) (take (target_size ?st0 - inbound_offset ?st0) d)) ?st0)
      \<lparr>inbound_offset := target_size ?st0\<rparr>)" (is "_ = Some (?n, ?rest, ?st1)")
      by (rule consume_data_enough) (use room False in \<open>auto simp: has_room_def\<close>)
    have st1: "inbound_buffer ?st1 = In_header_buffer" "length (header_buffer ?st1) = 8" "raw_frame ?st1 = header_buffer ?st1"
      "conn_state ?st1 = conn_state ?st0" "inbound_offset ?st1 = target_size st" "target_size ?st1 = target_size st"
      using header(1,2) room False by (auto simp: has_room_def set_raw_frame_def raw_frame_def)
    have n: "1 \<le> ?n" "?n + length ?rest = length d" using room False by auto
    have "input_kept ?n ?rest (handle_header ?n ?rest ?st1)"
      by (rule handle_header_kept) (use st1 header(4) n d in \<open>auto split: if_splits\<close>)
    then have "input_kept ?n ?rest (dispatch_input ?n ?rest ?st1)"
      using st1 header(3) n d by (auto simp: dispatch_input_def conn_inv_idle mem_read_def input_kept_def as_int_small split: if_splits)
    then have "input_kept 1 (tl d) (dispatch_input ?n ?rest ?st1)" by (rule input_kept_mono) (use n d in auto)
    with e d show ?thesis by (simp add: amqp_handle_input_def)
  qed
qed

section \<open>A length field that wraps around\<close>

text \<open>
  A length field just below \<open>2 ^ 32\<close> makes the frame size wrap around to less than the header. The
  buffer is then eight bytes, the room left in it wraps around to almost \<open>2 ^ 64\<close>, and all the
  remaining input is copied behind the header.
\<close>

lemma alloc_frame_overflow:
  assumes st: "0 < target_size st" "target_size st < 7" "inbound_offset st = 7" "length (header_buffer st) = 8"
    and h: "heap_ok (c_heap st)" and rest: "2 \<le> length rest" "in_memory rest"
  shows "fst (alloc_frame n rest ch pool st) = Inl Memory_fault"
proof -
  let ?T = "target_size st"
  obtain a pool' h' where pa: "amqp_pool_alloc pool ?T (c_heap st) = (Some a, pool', h')"
    using amqp_pool_alloc_ok [OF h, of ?T pool] st by auto
  have r8: "round8 ?T = 8" using st(1,2) by (auto simp: round8_def)
  have room: "sz_sub ?T 7 = 2 ^ 64 - (7 - ?T)" using st(2) by (intro sz_sub_wraps) auto
  have "\<not> 7 + length rest \<le> 8" using rest by simp
  with pa r8 st rest room show ?thesis
    by (simp add: alloc_frame_def mem_write_def HEADER_SIZE_def collect_body_def consume_data_def Let_def
        raw_frame_def put_channel_pool_def in_fail_def)
qed

lemma handle_input_overflow:
  assumes st: "idle st" "heap_ok (c_heap st)" "7 \<le> size_of_int (frame_max st)"
    and len: "2 ^ 32 - 7 \<le> unat len" "unat len \<le> 2 ^ 32 - 2"
    and rest: "2 \<le> length rest" "in_memory rest"
  shows "fst (amqp_handle_input st ([ft] @ be16 ch @ be32 len @ rest)) = Inl Memory_fault"
proof -
  let ?hdr = "[ft] @ be16 ch @ be32 len"
  have st': "conn_state st = CONNECTION_STATE_IDLE" "inbound_buffer st = In_header_buffer" "inbound_offset st = 0"
    "target_size st = 7" "length (header_buffer st) = 8" using st(1) by (auto simp: idle_def)
  let ?hb = "blit (header_buffer st) 0 ?hdr"
  let ?st1 = "st\<lparr>conn_state := CONNECTION_STATE_HEADER, header_buffer := ?hb, inbound_offset := 7\<rparr>"
  have cd: "consume_data (leave_idle st) (?hdr @ rest) = Some (7, rest, ?st1)"
    using consume_data_enough [of "leave_idle st" "?hdr @ rest"] st'
    by (simp add: leave_idle_def raw_frame_def set_raw_frame_def)
  have "at_off ?hb 0 ?hdr" using st'(5) by simp
  then have "at_off ?hb 1 (be16 ch)" "at_off ?hb 3 (be32 len)"
    by (simp_all only: at_off_append) (simp_all add: numeral_3_eq_3)
  then have f: "amqp_d16 (raw_frame ?st1) 1 = Some ch" "amqp_d32 (raw_frame ?st1) 3 = Some len"
    using st'(2) by (simp_all add: mem_simps raw_frame_def)
  define T where "T = unat (len + 7 + 1 :: u32)"
  have "(len + 7 + 1 :: u32) = of_nat (unat len + 8)" by simp
  then have "T = (unat len + 8) mod 2 ^ 32" unfolding T_def by (simp only: unat_of_nat) simp
  also have "\<dots> = unat len + 8 - 2 ^ 32" using len by (subst mod_if) (auto simp: le_mod_geq)
  finally have T: "0 < T" "T < 7" using len by auto
  have T': "unat (8 + len :: u32) = T" unfolding T_def by (simp add: ac_simps)
  let ?st2 = "?st1\<lparr>target_size := T\<rparr>"
  obtain pool t h where gc: "amqp_get_or_create_channel_pool ?st2 ch = (Some pool, ?st2\<lparr>pool_table := t, c_heap := h\<rparr>)"
    "heap_ok h" using get_or_create_ok [of ?st2 ch] st(2) by auto
  have "fst (alloc_frame 7 rest ch pool (?st2\<lparr>pool_table := t, c_heap := h\<rparr>)) = Inl Memory_fault"
    by (rule alloc_frame_overflow) (use T gc(2) rest st'(5) in simp_all)
  moreover have "handle_header 7 rest ?st1 = alloc_frame 7 rest ch pool (?st2\<lparr>pool_table := t, c_heap := h\<rparr>)"
    using f gc(1) T(2) st(3) T' by (simp add: handle_header_def Let_def)
  ultimately show ?thesis
    using cd st'(4) by (simp add: amqp_handle_input_def dispatch_input_def)
qed

end
