(* ===== verification/Amqp_Pieces.thy ===== *)
theory Amqp_Pieces
  imports Amqp_Input
begin

text \<open>
  The input machine of \<^verbatim>\<open>amqp_connection.c\<close> on a frame that arrives in pieces: every piece is consumed whole,
  no frame is returned before the last byte of the frame is there, and the frame is returned with it.
\<close>

section \<open>A frame that arrives in pieces\<close>

text \<open>A call that does not complete a frame consumes everything it was given.\<close>

definition consumes_all :: "nat \<Rightarrow> amqp_bytes \<Rightarrow> 'a input_result \<Rightarrow> bool" where
  "consumes_all n d = (\<lambda>(r, g, st). \<forall>v. r = Inr v \<and> conn_state st \<noteq> CONNECTION_STATE_IDLE \<longrightarrow>
     g = no_frame \<and> v = int (n + length d))"

lemma consumes_all_fail [simp]: "consumes_all n d (in_fail e st)"
  by (simp add: consumes_all_def in_fail_def)

lemma handle_body_consumes_all [simp]: "consumes_all n d (handle_body m st)"
  by (auto simp: consumes_all_def handle_body_def Let_def in_fail_def return_to_idle_def
      split: option.splits prod.splits sum.splits)

lemma consume_data_short_all:
  assumes "consume_data st d = Some (m, rest, st')" "inbound_offset st' < target_size st'"
    and "target_size st < 2 ^ 64" "inbound_offset st < 2 ^ 64"
  shows "m = length d"
proof -
  have st': "inbound_offset st' = sz_add (inbound_offset st) m" "target_size st' = target_size st"
      "m = (if length d < sz_sub (target_size st) (inbound_offset st) then length d else sz_sub (target_size st) (inbound_offset st))"
    using assms(1) by (auto simp: consume_data_def Let_def split: option.splits)
  moreover have "sz_add (inbound_offset st) (sz_sub (target_size st) (inbound_offset st)) = target_size st"
    using assms(3,4) by (auto simp: sz_add_def sz_sub_def mod_if)
  ultimately show ?thesis using assms(2) by (auto split: if_splits)
qed

lemma collect_body_consumes_all:
  assumes "target_size st < 2 ^ 64" "inbound_offset st < 2 ^ 64" "n + length d < 2 ^ 31"
  shows "consumes_all n d (collect_body n d st)"
proof (cases "consume_data st d")
  case (Some x)
  obtain m rest st' where x: "x = (m, rest, st')" by (metis prod_cases3)
  show ?thesis
  proof (cases "inbound_offset st' < target_size st'")
    case True
    with consume_data_short_all [OF Some [unfolded x] _ assms(1,2)] Some x assms(3) show ?thesis
      by (simp add: collect_body_def consumes_all_def as_int_small)
  qed (use Some x in \<open>simp add: collect_body_def\<close>)
qed (simp add: collect_body_def)

lemma alloc_frame_consumes_all:
  assumes "target_size st < 2 ^ 32" "inbound_offset st \<le> 8" "n + length d < 2 ^ 31"
  shows "consumes_all n d (alloc_frame n d ch pool st)"
proof -
  have "consumes_all n d (collect_body n d ((put_channel_pool st ch p)\<lparr>c_heap := h, inbound_buffer := In_pool buf,
      conn_state := CONNECTION_STATE_BODY\<rparr>))" for p h buf
    by (rule collect_body_consumes_all) (use assms in \<open>simp_all add: put_channel_pool_def\<close>)
  then show ?thesis by (auto simp: alloc_frame_def split: prod.split option.split)
qed

lemma handle_header_consumes_all:
  assumes "inbound_offset st \<le> 8" "n + length d < 2 ^ 31"
  shows "consumes_all n d (handle_header n d st)"
proof -
  have "consumes_all n d (alloc_frame n d ch pool st2)"
    if "amqp_get_or_create_channel_pool (st\<lparr>target_size := unat (len + 7 + 1 :: u32)\<rparr>) ch = (Some pool, st2)" for ch pool st2 len
    by (rule alloc_frame_consumes_all)
      (use get_or_create_keeps [OF that] assms unsigned_less [where w = "len + 7 + 1 :: u32"] in auto)
  then show ?thesis by (auto simp: handle_header_def Let_def split: prod.split option.split)
qed

lemma handle_input_unfinished:
  assumes inv: "conn_inv st" and d: "d \<noteq> []" "length d < 2 ^ 31"
    and run: "amqp_handle_input st d = (Inr n, g, st')" "conn_state st' \<noteq> CONNECTION_STATE_IDLE"
  shows "g = no_frame \<and> n = int (length d)"
  using inv
proof (cases rule: conn_inv_cases)
  case body
  have "consumes_all 0 d (collect_body 0 d st)"
    by (rule collect_body_consumes_all) (use body d in \<open>auto simp: body_buffer_def\<close>)
  with run handle_input_body [OF body(3) d(1)] show ?thesis by (auto simp: consumes_all_def)
next
  case header
  let ?st0 = "leave_idle st"
  obtain m rest st1 where c: "consume_data ?st0 d = Some (m, rest, st1)"
    using run(1) d(1) by (auto simp: amqp_handle_input_def in_fail_def split: option.splits)
  have st1: "conn_state st1 = conn_state ?st0" "target_size st1 = target_size ?st0" "target_size st \<le> 8"
    using c header(4) by (auto simp: consume_data_def Let_def split: option.splits if_splits)
  have room: "has_room ?st0" "inbound_offset ?st0 < target_size ?st0" using conn_inv_room [OF inv] by auto
  show ?thesis
  proof (cases "inbound_offset st1 < target_size st1")
    case True
    with consume_data_short_all [OF c True] run c d room st1(3) header(4) show ?thesis
      by (auto simp: amqp_handle_input_def as_int_small has_room_def split: if_splits)
  next
    case False
    have m: "m + length rest = length d" by (rule consume_data_le [OF c])
    have off: "inbound_offset st1 \<le> 8"
      using c room st1(3) header(4) False consume_data_split_enough [OF room(1), of d "[]"] consume_data_split_short(1,2) [OF room(1), of d]
      by (cases "length d < target_size ?st0 - inbound_offset ?st0") auto
    have "consumes_all m rest (dispatch_input m rest st1)"
      using handle_header_consumes_all [OF off, of m rest] m d(2) header(3) st1(1)
      by (auto simp: dispatch_input_def split: option.split) (auto simp: consumes_all_def return_to_idle_def)
    with run c False d m show ?thesis
      by (auto simp: amqp_handle_input_def consumes_all_def)
  qed
qed

lemma take_7_wire: "take 7 (wire_frame f) = [frame_type f] @ be16 (frame_channel f)
    @ be32 (of_nat (length (wire_payload (frame_payload f))))"
  by (rule take_7_wire_frame)

lemma wire_frame_length_ok:
  assumes "frame_size f < 2 ^ 31" "take 7 xs = take 7 (wire_frame f)"
  shows "length_ok xs"
proof -
  have "length_ok (take 7 (wire_frame f))"
    using assms(1) by (simp add: take_7_wire_frame length_ok_def length_field_def frame_size_def be16_def unat_of_nat)
  with assms(2) show ?thesis by (metis length_ok_take)
qed

text \<open>The machine has read the proper prefix \<open>p\<close> of the frame \<open>f\<close>, since it was last idle.\<close>

definition part_way :: "int \<Rightarrow> amqp_frame \<Rightarrow> 'a amqp_connection_scheme \<Rightarrow> amqp_bytes \<Rightarrow> bool" where
  "part_way M f c p \<longleftrightarrow>
    (\<exists>c0. idle c0 \<and> heap_ok (c_heap c0) \<and> frame_max c0 = M \<and> frame_size f \<le> size_of_int M
       \<and> length p < frame_size f \<and> take (length p) (wire_frame f) = p
       \<and> (p = [] \<and> c = c0 \<or> p \<noteq> [] \<and> amqp_handle_input c0 p = (Inr (int (length p)), no_frame, c)
            \<and> conn_state c \<noteq> CONNECTION_STATE_IDLE))"

definition is_ready :: "int \<Rightarrow> 'a amqp_connection_scheme \<Rightarrow> bool" where
  "is_ready M c \<longleftrightarrow> idle c \<and> heap_ok (c_heap c) \<and> frame_max c = M"

text \<open>What the machine does with more bytes, seen from its last idle state.\<close>

lemma part_way_start:
  assumes f: "valid_frame f" "frame_size f < 2 ^ 31" and c: "part_way M f c p"
  obtains c0 where "idle c0" "heap_ok (c_heap c0)" "frame_max c0 = M" "frame_size f \<le> size_of_int M"
    "length p < frame_size f" "take (length p) (wire_frame f) = p"
    "\<forall>d. d \<noteq> [] \<longrightarrow> length p + length d < 2 ^ 31 \<longrightarrow> take 7 (p @ d) = take (length (p @ d)) (take 7 (wire_frame f)) \<longrightarrow>
       amqp_handle_input c0 (p @ d) = after (length p) (amqp_handle_input c d)"
proof -
  obtain c0 where c0: "idle c0" "heap_ok (c_heap c0)" "frame_max c0 = M" "frame_size f \<le> size_of_int M"
      "length p < frame_size f" "take (length p) (wire_frame f) = p"
      "p = [] \<and> c = c0 \<or> p \<noteq> [] \<and> amqp_handle_input c0 p = (Inr (int (length p)), no_frame, c) \<and> conn_state c \<noteq> CONNECTION_STATE_IDLE"
    using c unfolding part_way_def by blast
  have "amqp_handle_input c0 (p @ d) = after (length p) (amqp_handle_input c d)"
    if d: "d \<noteq> []" "length p + length d < 2 ^ 31"
      "take 7 (p @ d) = take (length (p @ d)) (take 7 (wire_frame f))" for d
  proof (cases "p = []")
    case True
    with c0(7) have "c = c0" by simp
    moreover have "after 0 x = x" for x :: "'a input_result"
      by (cases x; cases "fst x") (auto simp: after_def)
    ultimately show ?thesis using True by simp
  next
    case False
    have ok: "length_ok (pending c0 @ p @ d)" if "7 \<le> length (pending c0 @ p @ d)"
    proof (rule wire_frame_length_ok [OF f(2)])
      have "pending c0 = []" using c0(1) by (simp add: pending_def idle_def)
      moreover have "7 \<le> frame_size f" by (simp add: frame_size_def)
      ultimately show "take 7 (pending c0 @ p @ d) = take 7 (wire_frame f)"
        using that d(3) by (simp add: length_wire_frame min_def)
    qed
    have "amqp_handle_input c0 (p @ d) = continue_with (length p) d (amqp_handle_input c0 p)"
      by (rule handle_input_split [OF idle_conn_inv [OF c0(1)] ok False d(1,2)])
    with c0(7) False show ?thesis by (simp add: continue_with_def)
  qed
  with c0 that show thesis by blast
qed

lemma after_Inr: "after k x = (Inr v, f, c) \<Longrightarrow> x = (Inr (v - int k), f, c)"
  by (cases x; cases "fst x") (auto simp: after_def)

lemma handle_input_from:
  assumes f: "valid_frame f" "frame_size f < 2 ^ 31" and c: "part_way M f c p"
    and d: "d \<noteq> []" "length p + length d < 2 ^ 31" "p @ d = wire_frame f @ rest"
  shows "\<exists>c'. amqp_handle_input c d = (Inr (int (frame_size f) - int (length p)), f, c') \<and> is_ready M c'"
proof -
  have "7 \<le> length (wire_frame f)" by (simp add: length_wire_frame frame_size_def)
  then have pd: "take 7 (p @ d) = take (length (p @ d)) (take 7 (wire_frame f))" unfolding d(3) by simp
  obtain c0 where c0: "idle c0" "heap_ok (c_heap c0)" "frame_max c0 = M" "frame_size f \<le> size_of_int M"
      "amqp_handle_input c0 (p @ d) = after (length p) (amqp_handle_input c d)"
    by (rule part_way_start [OF f c]) (use d(1,2) pd in blast)
  obtain c' where c': "amqp_handle_input c0 (wire_frame f @ rest) = (Inr (int (frame_size f)), f, c')" "is_ready M c'"
    using handle_input_frame [OF f c0(4) [folded c0(3)] c0(1,2)] c0(3) by (auto simp: ready_after_def is_ready_def)
  show ?thesis
    using after_Inr [OF c0(5) [symmetric, unfolded d(3) c'(1)]] c'(2) by blast
qed

lemma part_way_inv:
  assumes "part_way M f c p" "frame_size f < 2 ^ 31"
  shows "conn_inv c"
proof -
  obtain c0 where "idle c0" "p = [] \<and> c = c0 \<or> p \<noteq> [] \<and> amqp_handle_input c0 p = (Inr (int (length p)), no_frame, c)"
      "length p < frame_size f"
    using assms(1) by (auto simp: part_way_def)
  with handle_input_kept [OF idle_conn_inv, of c0 p] idle_conn_inv [of c0] assms(2) show ?thesis
    by (auto simp: input_kept_def)
qed

lemma handle_input_partly:
  assumes f: "valid_frame f" "frame_size f < 2 ^ 31" and c: "part_way M f c p"
    and d: "d \<noteq> []" "length (p @ d) < frame_size f" "take (length (p @ d)) (wire_frame f) = p @ d"
  shows "\<exists>c'. amqp_handle_input c d = (Inr (int (length d)), no_frame, c') \<and> part_way M f c' (p @ d)"
proof -
  let ?r = "drop (length (p @ d)) (wire_frame f)"
  have w: "wire_frame f = (p @ d) @ ?r" using d(3) by (metis append_take_drop_id)
  have r: "?r \<noteq> []" "length (p @ d) + length ?r = frame_size f" using d(2) by (auto simp: length_wire_frame)
  have pd: "take 7 (p @ d) = take (length (p @ d)) (take 7 (wire_frame f))"
    by (metis d(3) take_take min.commute)
  have len: "length p + length d < 2 ^ 31" using d(2) f(2) by simp
  obtain c0 where c0: "idle c0" "heap_ok (c_heap c0)" "frame_max c0 = M" "frame_size f \<le> size_of_int M"
      "amqp_handle_input c0 (p @ d) = after (length p) (amqp_handle_input c d)"
    by (rule part_way_start [OF f c]) (use d(1) len pd in blast)
  obtain c'' where full: "amqp_handle_input c0 (wire_frame f @ []) = (Inr (int (frame_size f)), f, c'')"
    using handle_input_frame [OF f c0(4) [folded c0(3)] c0(1,2)] by blast
  have p: "pending c0 = []" using c0(1) by (simp add: pending_def idle_def)
  have inv: "conn_inv c0" using c0(1) by (rule idle_conn_inv)
  obtain n g c' where i: "amqp_handle_input c0 (p @ d) = (n, g, c')" by (metis prod_cases3)
  have "amqp_handle_input c0 ((p @ d) @ ?r) = continue_with (length (p @ d)) ?r (amqp_handle_input c0 (p @ d))"
  proof (rule handle_input_split [OF inv])
    show "length_ok (pending c0 @ (p @ d) @ ?r)" unfolding p append_Nil w [symmetric]
      by (rule wire_frame_length_ok [OF f(2) refl])
  qed (use d(1) r f(2) in auto)
  then have split: "(Inr (int (frame_size f)), f, c'') = continue_with (length (p @ d)) ?r (n, g, c')"
    using full unfolding w [symmetric] i by simp
  have kept: "input_kept 1 (tl (p @ d)) (n, g, c')"
    using handle_input_kept [OF inv, of "p @ d"] d(1,2) f(2) unfolding i by simp
  obtain v where v: "n = Inr v" using split by (cases n) (auto simp: continue_with_def)
  have busy: "conn_state c' \<noteq> CONNECTION_STATE_IDLE"
  proof
    assume "conn_state c' = CONNECTION_STATE_IDLE"
    with split v have "v = int (frame_size f)" by (auto simp: continue_with_def)
    moreover have "v \<le> int (length (p @ d))" using kept v d(1) by (auto simp: input_kept_def)
    ultimately show False using d(2) by simp
  qed
  with handle_input_unfinished [OF inv, of "p @ d" v g c'] i v d(1,2) f(2)
  have all: "amqp_handle_input c0 (p @ d) = (Inr (int (length (p @ d))), no_frame, c')" by auto
  have "amqp_handle_input c d = (Inr (int (length d)), no_frame, c')"
    using after_Inr [OF c0(5) [symmetric, unfolded all]] by simp
  moreover have "part_way M f c' (p @ d)"
    unfolding part_way_def using c0 d all busy by (intro exI [of _ c0]) auto
  ultimately show ?thesis by blast
qed

end
