(* ===== verification/Amqp_Time.thy ===== *)
theory Amqp_Time
  imports Amqp_Status
begin

text \<open>
  Deadlines (\<^verbatim>\<open>amqp_time.c\<close>): points of a monotonic clock in nanoseconds, with two special values,
  0 for "now" and \<open>2 ^ 64 - 1\<close> for "never". The clock is a system call; the value
  \<^verbatim>\<open>amqp_get_monotonic_timestamp\<close> returns is the argument \<open>now_ns\<close> of the functions that read it,
  with 0 when the call fails.

  The lemmas say when the 64-bit sums are exact, what the time left is, and that a caller who waits
  for it wakes up at the deadline and not a millisecond earlier.
\<close>

section \<open>amqp\_time.h\<close>

record amqp_time =
  time_point_ns :: u64

text \<open>\<^verbatim>\<open>struct timeval\<close>, two signed 64-bit integers.\<close>

record timeval =
  tv_sec :: int
  tv_usec :: int

definition AMQP_NS_PER_S :: u64 where "AMQP_NS_PER_S = 1000000000"
definition AMQP_NS_PER_MS :: u64 where "AMQP_NS_PER_MS = 1000000"
definition AMQP_NS_PER_US :: u64 where "AMQP_NS_PER_US = 1000"

abbreviation UINT64_MAX :: u64 where "UINT64_MAX \<equiv> 0xFFFFFFFFFFFFFFFF"

section \<open>amqp\_time.c\<close>

text \<open>
  \<^verbatim>\<open>clock_gettime\<close> and the conversion of its result; \<open>None\<close> is a failure of the system call.
\<close>

definition amqp_get_monotonic_timestamp :: "(int \<times> int) option \<Rightarrow> u64" where
  "amqp_get_monotonic_timestamp tp =
    (case tp of
       None \<Rightarrow> 0
     | Some (sec, nsec) \<Rightarrow> word_of_int sec * AMQP_NS_PER_S + word_of_int nsec)"

definition amqp_time_immediate :: amqp_time where
  "amqp_time_immediate = \<lparr>time_point_ns = 0\<rparr>"

definition amqp_time_infinite :: amqp_time where
  "amqp_time_infinite = \<lparr>time_point_ns = UINT64_MAX\<rparr>"

text \<open>
  The end of \<^verbatim>\<open>amqp_time_from_now\<close> and of \<^verbatim>\<open>amqp_time_s_from_now\<close>. When the sum wraps around, the code has stored it
  in \<^verbatim>\<open>*time\<close> before it reports the error, which is not part of the result here: the callers of \<^verbatim>\<open>amqp_time_from_now\<close>
  do not use a deadline that was refused, and for those of a connection see \<open>Amqp_Socket\<close>.
\<close>

definition time_after :: "u64 \<Rightarrow> u64 \<Rightarrow> amqp_time outcome" where
  "time_after now_ns delta_ns =
    (if now_ns = 0 then Inl (Status AMQP_STATUS_TIMER_FAILURE)
     else
       (let point = now_ns + delta_ns
        in if point < now_ns \<or> point < delta_ns then Inl (Status AMQP_STATUS_INVALID_PARAMETER)
           else Inr \<lparr>time_point_ns = point\<rparr>))"

definition amqp_time_from_now :: "u64 \<Rightarrow> timeval option \<Rightarrow> amqp_time outcome" where
  "amqp_time_from_now now_ns timeout =
    (case timeout of
       None \<Rightarrow> Inr amqp_time_infinite
     | Some tv \<Rightarrow>
         if tv_sec tv = 0 \<and> tv_usec tv = 0 then Inr amqp_time_immediate
         else if tv_sec tv < 0 \<or> tv_usec tv < 0 then Inl (Status AMQP_STATUS_INVALID_PARAMETER)
         else time_after now_ns (word_of_int (tv_sec tv) * AMQP_NS_PER_S + word_of_int (tv_usec tv) * AMQP_NS_PER_US))"

definition amqp_time_s_from_now :: "u64 \<Rightarrow> int \<Rightarrow> amqp_time outcome" where
  "amqp_time_s_from_now now_ns seconds =
    (if seconds \<le> 0 then Inr amqp_time_infinite
     else time_after now_ns (word_of_int seconds * AMQP_NS_PER_S))"

definition amqp_time_ms_until :: "u64 \<Rightarrow> amqp_time \<Rightarrow> int" where
  "amqp_time_ms_until now_ns t =
    (if time_point_ns t = UINT64_MAX then -1
     else if time_point_ns t = 0 then 0
     else if now_ns = 0 then status_code AMQP_STATUS_TIMER_FAILURE
     else if time_point_ns t \<le> now_ns then 0
     else as_int (unat ((time_point_ns t - now_ns) div AMQP_NS_PER_MS)))"

definition amqp_time_tv_until :: "u64 \<Rightarrow> amqp_time \<Rightarrow> timeval option outcome" where
  "amqp_time_tv_until now_ns t =
    (if time_point_ns t = UINT64_MAX then Inr None
     else if time_point_ns t = 0 then Inr (Some \<lparr>tv_sec = 0, tv_usec = 0\<rparr>)
     else if now_ns = 0 then Inl (Status AMQP_STATUS_TIMER_FAILURE)
     else if time_point_ns t \<le> now_ns then Inr (Some \<lparr>tv_sec = 0, tv_usec = 0\<rparr>)
     else
       (let delta_ns = time_point_ns t - now_ns
        in Inr (Some \<lparr>tv_sec = as_int (unat (delta_ns div AMQP_NS_PER_S)),
                      tv_usec = as_int (unat ((delta_ns mod AMQP_NS_PER_S) div AMQP_NS_PER_US))\<rparr>)))"

definition amqp_time_has_past :: "u64 \<Rightarrow> amqp_time \<Rightarrow> amqp_status_enum" where
  "amqp_time_has_past now_ns t =
    (if time_point_ns t = UINT64_MAX then AMQP_STATUS_OK
     else if now_ns = 0 then AMQP_STATUS_TIMER_FAILURE
     else if time_point_ns t < now_ns then AMQP_STATUS_TIMEOUT
     else AMQP_STATUS_OK)"

definition amqp_time_first :: "amqp_time \<Rightarrow> amqp_time \<Rightarrow> amqp_time" where
  "amqp_time_first l r = (if time_point_ns l < time_point_ns r then l else r)"

definition amqp_time_equal :: "amqp_time \<Rightarrow> amqp_time \<Rightarrow> bool" where
  "amqp_time_equal l r \<longleftrightarrow> time_point_ns l = time_point_ns r"

section \<open>Exact sums\<close>

lemma unat_add_small: "unat a + unat b < 2 ^ 64 \<Longrightarrow> unat (a + b :: u64) = unat a + unat b"
  by (simp add: unat_word_ariths)

lemma unat_mult_small: "unat a * unat b < 2 ^ 64 \<Longrightarrow> unat (a * b :: u64) = unat a * unat b"
  by (simp add: unat_word_ariths)

lemma unat_sub_le: "b \<le> a \<Longrightarrow> unat (a - b :: u64) = unat a - unat b"
  by (simp add: unat_sub)

lemma unat_u64: "unat (a :: u64) < 2 ^ 64"
  using unsigned_less [of a] by simp

lemma add_wraps: "2 ^ 64 \<le> unat a + unat b \<Longrightarrow> a + b < (a :: u64)"
proof -
  assume "2 ^ 64 \<le> unat a + unat b"
  then have "unat (a + b) = unat a + unat b - 2 ^ 64"
    using unat_u64 [of a] unat_u64 [of b] by (simp add: unat_word_ariths mod_if)
  with unat_u64 [of b] \<open>2 ^ 64 \<le> unat a + unat b\<close> show ?thesis
    unfolding word_less_nat_alt by linarith
qed

text \<open>The overflow check of \<open>time_after\<close> is exact.\<close>

lemma time_after_eq:
  assumes "now \<noteq> 0"
  shows "time_after now delta =
    (if unat now + unat delta < 2 ^ 64 then Inr \<lparr>time_point_ns = now + delta\<rparr>
     else Inl (Status AMQP_STATUS_INVALID_PARAMETER))"
proof (cases "unat now + unat delta < 2 ^ 64")
  case True
  then have "unat (now + delta) = unat now + unat delta" by (rule unat_add_small)
  with True assms show ?thesis by (simp add: time_after_def word_less_nat_alt)
next
  case False
  with add_wraps [of now delta] assms show ?thesis by (simp add: time_after_def)
qed

section \<open>Time left\<close>

lemma unat_ns [simp]: "unat AMQP_NS_PER_S = 1000000000" "unat AMQP_NS_PER_MS = 1000000" "unat AMQP_NS_PER_US = 1000"
  by (simp_all add: AMQP_NS_PER_S_def AMQP_NS_PER_MS_def AMQP_NS_PER_US_def)

lemma unat_word_of_int_small: "0 \<le> i \<Longrightarrow> i < 2 ^ 64 \<Longrightarrow> unat (word_of_int i :: u64) = nat i"
  by (simp add: unsigned_of_int take_bit_int_eq_self)

text \<open>The number of nanoseconds of a timeout, when it fits.\<close>

definition timeval_ns :: "timeval \<Rightarrow> int" where
  "timeval_ns tv = tv_sec tv * 1000000000 + tv_usec tv * 1000"

lemma timeval_ns_exact:
  assumes "0 \<le> tv_sec tv" "0 \<le> tv_usec tv" "timeval_ns tv < 2 ^ 64"
  shows "unat (word_of_int (tv_sec tv) * AMQP_NS_PER_S + word_of_int (tv_usec tv) * AMQP_NS_PER_US) = nat (timeval_ns tv)"
proof -
  have s: "unat (word_of_int (tv_sec tv) * AMQP_NS_PER_S) = nat (tv_sec tv) * 1000000000"
    and u: "unat (word_of_int (tv_usec tv) * AMQP_NS_PER_US) = nat (tv_usec tv) * 1000"
    using assms by (subst unat_mult_small; simp add: timeval_ns_def unat_word_of_int_small)+
  from assms have "nat (tv_sec tv) * 1000000000 + nat (tv_usec tv) * 1000 = nat (timeval_ns tv)"
    by (simp add: timeval_ns_def)
  with s u assms(3) show ?thesis by (subst unat_add_small) (simp_all add: timeval_ns_def)
qed

lemma time_from_now_eq:
  assumes "now \<noteq> 0" "0 \<le> tv_sec tv" "0 \<le> tv_usec tv" "0 < timeval_ns tv" "timeval_ns tv < 2 ^ 64"
  shows "amqp_time_from_now now (Some tv) =
    (if unat now + nat (timeval_ns tv) < 2 ^ 64
     then Inr \<lparr>time_point_ns = now + of_nat (nat (timeval_ns tv))\<rparr>
     else Inl (Status AMQP_STATUS_INVALID_PARAMETER))"
proof -
  let ?d = "word_of_int (tv_sec tv) * AMQP_NS_PER_S + word_of_int (tv_usec tv) * AMQP_NS_PER_US"
  have "unat ?d = nat (timeval_ns tv)" by (rule timeval_ns_exact [OF assms(2,3,5)])
  moreover from this have "?d = of_nat (nat (timeval_ns tv))" by (metis of_nat_unat ucast_id)
  moreover have "\<not> (tv_sec tv = 0 \<and> tv_usec tv = 0)" using assms(4) by (auto simp: timeval_ns_def)
  ultimately show ?thesis
    using assms(1-3) by (auto simp: amqp_time_from_now_def time_after_eq)
qed

lemma as_int_wraps: "2 ^ 31 \<le> k \<Longrightarrow> k < 2 ^ 32 \<Longrightarrow> as_int k = int k - 2 ^ 32"
proof -
  assume k: "2 ^ 31 \<le> k" "k < 2 ^ 32"
  then have "int k div 2147483648 = 1" by simp
  with k show ?thesis
    by (simp add: as_int_def signed_of_nat signed_take_bit_eq_take_bit_minus bit_iff_odd take_bit_int_eq_self)
qed

lemma unat_time_left: "now \<le> p \<Longrightarrow> unat ((p - now) div d :: u64) = (unat p - unat now) div unat d"
  by (simp add: unat_sub_le unat_div_distrib)

section \<open>Properties\<close>

text \<open>
  A deadline is exact: for a timeout of \<open>n > 0\<close> nanoseconds, \<open>n\<close> below \<open>2 ^ 64\<close>, the deadline is \<open>n\<close>
  nanoseconds from now, and \<^verbatim>\<open>AMQP_STATUS_INVALID_PARAMETER\<close> is returned exactly when that point does
  not fit into 64 bits. Asked at once for the time left, the library gives the timeout back.
\<close>

theorem deadline_exact:
  assumes "now \<noteq> 0" "0 \<le> tv_sec tv" "tv_sec tv < 2 ^ 31" "0 \<le> tv_usec tv" "tv_usec tv < 1000000"
    and "0 < timeval_ns tv"
  shows "if unat now + nat (timeval_ns tv) < 2 ^ 64
    then \<exists>t. amqp_time_from_now now (Some tv) = Inr t
           \<and> unat (time_point_ns t) = unat now + nat (timeval_ns tv)
           \<and> (t \<noteq> amqp_time_infinite \<longrightarrow> amqp_time_tv_until now t = Inr (Some tv))
    else amqp_time_from_now now (Some tv) = Inl (Status AMQP_STATUS_INVALID_PARAMETER)"
proof (cases "unat now + nat (timeval_ns tv) < 2 ^ 64")
  case True
  let ?n = "of_nat (nat (timeval_ns tv)) :: u64"
  let ?t = "\<lparr>time_point_ns = now + ?n\<rparr>"
  have ns: "timeval_ns tv < 2 ^ 64" using assms(3,5) by (simp add: timeval_ns_def)
  then have n: "unat ?n = nat (timeval_ns tv)" using assms(6) by (simp add: unat_word_of_int_small)
  with True have p: "unat (now + ?n) = unat now + nat (timeval_ns tv)" by (simp add: unat_add_small)
  have "nat (timeval_ns tv) = nat (tv_usec tv) * 1000 + 1000000000 * nat (tv_sec tv)" "nat (tv_usec tv) * 1000 < 1000000000"
    using assms(2,4,5) by (simp_all add: timeval_ns_def)
  then have split: "nat (timeval_ns tv) div 1000000000 = nat (tv_sec tv)"
    "nat (timeval_ns tv) mod 1000000000 div 1000 = nat (tv_usec tv)" by simp_all
  have "amqp_time_tv_until now ?t = Inr (Some tv)" if "?t \<noteq> amqp_time_infinite"
  proof -
    have "now < now + ?n" using p assms(6) by (simp add: word_less_nat_alt)
    moreover have "now + ?n \<noteq> 0" using p assms(6) by (metis add_gr_0 less_numeral_extra(3) unsigned_0 zero_less_nat_eq)
    ultimately have "amqp_time_tv_until now ?t = Inr (Some
        \<lparr>tv_sec = as_int (unat (?n div AMQP_NS_PER_S)), tv_usec = as_int (unat (?n mod AMQP_NS_PER_S div AMQP_NS_PER_US))\<rparr>)"
      using that assms(1) by (auto simp: amqp_time_tv_until_def amqp_time_infinite_def Let_def)
    moreover have "as_int (nat (tv_sec tv)) = tv_sec tv" "as_int (nat (tv_usec tv)) = tv_usec tv"
      using assms(2-5) by (simp_all add: as_int_small)
    ultimately show ?thesis by (simp add: unat_div_distrib unat_mod_distrib n split)
  qed
  moreover have "amqp_time_from_now now (Some tv) = Inr ?t"
    using time_from_now_eq [OF assms(1,2,4,6) ns] True by simp
  ultimately show ?thesis using True p by simp
next
  case False
  have "timeval_ns tv < 2 ^ 64" using assms(3,5) by (simp add: timeval_ns_def)
  with time_from_now_eq [OF assms(1,2,4,6)] False show ?thesis by simp
qed

theorem deadline_exact_witness:
  "\<exists>t. amqp_time_from_now 5 (Some \<lparr>tv_sec = 2, tv_usec = 500000\<rparr>) = Inr t
     \<and> amqp_time_tv_until 5 t = Inr (Some \<lparr>tv_sec = 2, tv_usec = 500000\<rparr>)"
  using deadline_exact [of 5 "\<lparr>tv_sec = 2, tv_usec = 500000\<rparr>"]
  by (auto simp: timeval_ns_def amqp_time_infinite_def)

text \<open>
  The heartbeat deadlines work: \<open>s\<close> seconds after \<open>now\<close>, for any interval up to twice the largest
  heartbeat, the deadline has passed at a later time \<open>now'\<close> exactly if more than \<open>s\<close> seconds are over,
  and the milliseconds \<^verbatim>\<open>amqp_poll\<close> waits for are the time left, rounded down and never negative.
\<close>

theorem heartbeat_deadline:
  assumes "now \<noteq> 0" "now \<le> now'" "0 < s" "s \<le> 2 * 65535" "unat now + nat s * 1000000000 < 2 ^ 64 - 1"
  shows "\<exists>t. amqp_time_s_from_now now s = Inr t
    \<and> (amqp_time_has_past now' t = AMQP_STATUS_TIMEOUT \<longleftrightarrow> unat now + nat s * 1000000000 < unat now')
    \<and> amqp_time_ms_until now' t = int ((unat now + nat s * 1000000000 - unat now') div 1000000)"
proof -
  let ?d = "word_of_int s * AMQP_NS_PER_S"
  have "unat ?d = nat s * 1000000000"
    using assms(3,4) by (subst unat_mult_small) (simp_all add: unat_word_of_int_small)
  then have p: "unat (now + ?d) = unat now + nat s * 1000000000" using assms(5) by (simp add: unat_add_small)
  let ?t = "\<lparr>time_point_ns = now + ?d\<rparr>"
  have r: "amqp_time_s_from_now now s = Inr ?t"
    using assms(1,3,5) \<open>unat ?d = _\<close> by (simp add: amqp_time_s_from_now_def time_after_eq)
  have inf: "now + ?d \<noteq> UINT64_MAX"
  proof
    assume "now + ?d = UINT64_MAX"
    then have "unat (now + ?d) = unat UINT64_MAX" by simp
    with p assms(5) show False by simp
  qed
  have nz: "now' \<noteq> 0" "now + ?d \<noteq> 0"
    using assms(1,2) p by (auto simp: unat_eq_0 [symmetric] word_le_nat_alt)
  have "unat now \<le> unat now'" using assms(2) by (simp add: word_le_nat_alt)
  then have small: "(unat now + nat s * 1000000000 - unat now') div 1000000 < 2 ^ 31"
    using assms(3,4) by simp
  have "amqp_time_ms_until now' ?t = int ((unat now + nat s * 1000000000 - unat now') div 1000000)"
  proof (cases "now + ?d \<le> now'")
    case True
    with inf nz p show ?thesis by (simp add: amqp_time_ms_until_def word_le_nat_alt)
  next
    case False
    then have "now' \<le> now + ?d" by simp
    from unat_time_left [OF this, of AMQP_NS_PER_MS] False inf nz p small show ?thesis
      by (simp add: amqp_time_ms_until_def as_int_small)
  qed
  with r inf nz(1) p show ?thesis by (auto simp: amqp_time_has_past_def word_less_nat_alt)
qed

theorem heartbeat_deadline_witness:
  "\<exists>t. amqp_time_s_from_now 1000 120 = Inr t
    \<and> (amqp_time_has_past 60000000000 t = AMQP_STATUS_TIMEOUT \<longleftrightarrow> False)
    \<and> amqp_time_ms_until 60000000000 t = 60000"
  using heartbeat_deadline [of 1000 60000000000 120] by simp

text \<open>
  The limit of that: for a deadline between \<open>2 ^ 31\<close> and \<open>2 ^ 32 - 2\<close> milliseconds ahead the count of
  milliseconds is below -1, so that \<^verbatim>\<open>amqp_poll\<close>, which takes such a value for a status, returns it
  instead of waiting.
\<close>

theorem ms_until_wraps:
  assumes "now \<noteq> 0" "now \<le> time_point_ns t" "t \<noteq> amqp_time_infinite"
    and "2 ^ 31 \<le> (unat (time_point_ns t) - unat now) div 1000000"
    and "(unat (time_point_ns t) - unat now) div 1000000 \<le> 2 ^ 32 - 2"
  shows "amqp_time_ms_until now t < -1"
proof -
  let ?k = "(unat (time_point_ns t) - unat now) div 1000000"
  have "as_int ?k = int ?k - 2 ^ 32"
    using assms(4,5) by (simp add: as_int_wraps)
  moreover have "time_point_ns t \<noteq> UINT64_MAX" using assms(3) by (cases t) (simp add: amqp_time_infinite_def)
  moreover have "time_point_ns t \<noteq> 0" "now < time_point_ns t"
    using assms(1,2,4) by (auto simp: order_le_less)
  ultimately show ?thesis
    using assms(1,5) unat_time_left [OF assms(2), of AMQP_NS_PER_MS]
    by (auto simp: amqp_time_ms_until_def)
qed

theorem ms_until_wraps_witness:
  "amqp_time_ms_until 1 \<lparr>time_point_ns = 3000000000000001\<rparr> < -1"
  by (rule ms_until_wraps) (simp_all add: amqp_time_infinite_def)

end
