(* ===== verification/Amqp_World.thy ===== *)
theory Amqp_World
  imports Amqp_Time
begin

text \<open>
  The operating system as the library sees it, and the part of the library that talks to it: the TCP
  transport (\<^verbatim>\<open>amqp_tcp_socket.c\<close>) and \<^verbatim>\<open>amqp_poll\<close> (\<^verbatim>\<open>amqp_socket.c\<close>).

  What the system calls of a run return is an input of the model: \<open>w_recv\<close>, \<open>w_send\<close> and \<open>w_poll\<close> are the
  results of the successive calls of \<^verbatim>\<open>recv\<close>, \<^verbatim>\<open>send\<close> and \<^verbatim>\<open>poll\<close>, \<open>w_clock\<close> the readings of the
  clock. A call for which no result is left has not returned when the run ends: \<open>Blocked\<close>. The bytes the
  system accepted for sending are \<open>w_sent\<close>. Nothing is assumed about the results, so that short reads
  and writes, interruptions and errors may come at any point.
\<close>

section \<open>System calls\<close>

datatype errno = EINTR | EWOULDBLOCK | E_other

datatype sys_recv = Received amqp_bytes | Recv_errno errno
datatype sys_send = Accepted nat | Send_errno errno
datatype sys_poll = Poll_ready | Poll_timeout | Poll_errno errno

record world =
  w_recv :: "sys_recv list"
  w_send :: "sys_send list"
  w_poll :: "sys_poll list"
  w_close :: "bool list"
  w_clock :: "nat \<Rightarrow> u64"
  w_ticks :: nat
  w_sent :: amqp_bytes

type_synonym 'a sys = "world \<Rightarrow> 'a outcome \<times> world"

definition read_clock :: "world \<Rightarrow> u64 \<times> world" where
  "read_clock w = (w_clock w (w_ticks w), w\<lparr>w_ticks := Suc (w_ticks w)\<rparr>)"

text \<open>Results of system calls that are still to come.\<close>

definition calls_left :: "world \<Rightarrow> nat" where
  "calls_left w = length (w_recv w) + length (w_send w) + length (w_poll w)"

section \<open>amqp\_private.h: codes between the transport and its user\<close>

definition AMQP_PRIVATE_STATUS_SOCKET_NEEDREAD :: int where "AMQP_PRIVATE_STATUS_SOCKET_NEEDREAD = -0x1301"
definition AMQP_PRIVATE_STATUS_SOCKET_NEEDWRITE :: int where "AMQP_PRIVATE_STATUS_SOCKET_NEEDWRITE = -0x1302"

section \<open>amqp\_tcp\_socket.c\<close>

record tcp_socket =
  sock_block :: nat
  sockfd :: int
  internal_error :: "errno option"

text \<open>
  \<^verbatim>\<open>send\<close> and \<^verbatim>\<open>recv\<close> with the loops around them: the calls are repeated when a signal interrupts
  them. The result is what the C functions return; \<^verbatim>\<open>recv\<close> also yields the bytes. The flags are
  passed on to the system and have no other effect.
\<close>

fun send_loop :: "amqp_bytes \<Rightarrow> sys_send list \<Rightarrow> (int \<times> errno option) outcome \<times> sys_send list" where
  "send_loop buf [] = (Inl Blocked, [])"
| "send_loop buf (Accepted n # rs) = (Inr (int (min n (length buf)), None), rs)"
| "send_loop buf (Send_errno EINTR # rs) = send_loop buf rs"
| "send_loop buf (Send_errno EWOULDBLOCK # rs) = (Inr (AMQP_PRIVATE_STATUS_SOCKET_NEEDWRITE, Some EWOULDBLOCK), rs)"
| "send_loop buf (Send_errno E_other # rs) = (Inr (status_code AMQP_STATUS_SOCKET_ERROR, Some E_other), rs)"

definition amqp_tcp_socket_send :: "tcp_socket \<Rightarrow> amqp_bytes \<Rightarrow> (int \<times> tcp_socket) sys" where
  "amqp_tcp_socket_send self buf w =
    (if sockfd self = -1 then (Inr (status_code AMQP_STATUS_SOCKET_CLOSED, self), w)
     else
       (case send_loop buf (w_send w) of
          (Inl e, rs) \<Rightarrow> (Inl e, w\<lparr>w_send := rs\<rparr>)
        | (Inr (res, err), rs) \<Rightarrow>
            (Inr (res, self\<lparr>internal_error := err\<rparr>),
             w\<lparr>w_send := rs, w_sent := w_sent w @ (if 0 \<le> res then take (nat res) buf else [])\<rparr>)))"

fun recv_loop :: "nat \<Rightarrow> sys_recv list \<Rightarrow> (int \<times> amqp_bytes \<times> errno option) outcome \<times> sys_recv list" where
  "recv_loop len [] = (Inl Blocked, [])"
| "recv_loop len (Received bs # rs) =
    (if take len bs = [] then (Inr (status_code AMQP_STATUS_CONNECTION_CLOSED, [], None), rs)
     else (Inr (int (length (take len bs)), take len bs, None), rs))"
| "recv_loop len (Recv_errno EINTR # rs) = recv_loop len rs"
| "recv_loop len (Recv_errno EWOULDBLOCK # rs) = (Inr (AMQP_PRIVATE_STATUS_SOCKET_NEEDREAD, [], Some EWOULDBLOCK), rs)"
| "recv_loop len (Recv_errno E_other # rs) = (Inr (status_code AMQP_STATUS_SOCKET_ERROR, [], Some E_other), rs)"

definition amqp_tcp_socket_recv :: "tcp_socket \<Rightarrow> nat \<Rightarrow> (int \<times> amqp_bytes \<times> tcp_socket) sys" where
  "amqp_tcp_socket_recv self len w =
    (if sockfd self = -1 then (Inr (status_code AMQP_STATUS_SOCKET_CLOSED, [], self), w)
     else
       (case recv_loop len (w_recv w) of
          (Inl e, rs) \<Rightarrow> (Inl e, w\<lparr>w_recv := rs\<rparr>)
        | (Inr (ret, bs, err), rs) \<Rightarrow>
            (Inr (ret, bs, case err of None \<Rightarrow> self | Some _ \<Rightarrow> self\<lparr>internal_error := err\<rparr>), w\<lparr>w_recv := rs\<rparr>)))"

text \<open>\<^verbatim>\<open>close\<close> fails when the next entry of \<open>w_close\<close> says so.\<close>

definition amqp_tcp_socket_close :: "tcp_socket \<Rightarrow> (int \<times> tcp_socket) sys" where
  "amqp_tcp_socket_close self w =
    (if sockfd self = -1 then (Inr (status_code AMQP_STATUS_SOCKET_CLOSED, self), w)
     else
       (case w_close w of
          True # cs \<Rightarrow> (Inr (status_code AMQP_STATUS_SOCKET_ERROR, self), w\<lparr>w_close := cs\<rparr>)
        | False # cs \<Rightarrow> (Inr (status_code AMQP_STATUS_OK, self\<lparr>sockfd := -1\<rparr>), w\<lparr>w_close := cs\<rparr>)
        | [] \<Rightarrow> (Inr (status_code AMQP_STATUS_OK, self\<lparr>sockfd := -1\<rparr>), w)))"

text \<open>The descriptor \<^verbatim>\<open>amqp_open_socket_noblock\<close> returns, or a negative status, is the argument.\<close>

definition amqp_tcp_socket_open :: "tcp_socket \<Rightarrow> int \<Rightarrow> int \<times> tcp_socket" where
  "amqp_tcp_socket_open self opened =
    (if sockfd self \<noteq> -1 then (status_code AMQP_STATUS_SOCKET_INUSE, self)
     else if opened < 0 then (opened, self\<lparr>sockfd := -1\<rparr>)
     else (status_code AMQP_STATUS_OK, self\<lparr>sockfd := opened\<rparr>))"

text \<open>A new socket in the block \<open>b\<close>.\<close>

definition fresh_tcp_socket :: "nat \<Rightarrow> tcp_socket" where
  "fresh_tcp_socket b = \<lparr>sock_block = b, sockfd = -1, internal_error = None\<rparr>"

definition sizeof_tcp_socket :: nat where "sizeof_tcp_socket = 24"

section \<open>amqp\_socket.c: amqp\_poll\<close>

text \<open>The version on top of \<^verbatim>\<open>poll\<close>; the clock is read again after an interruption.\<close>

fun poll_loop :: "amqp_time \<Rightarrow> (nat \<Rightarrow> u64) \<Rightarrow> nat \<Rightarrow> sys_poll list \<Rightarrow> int outcome \<times> nat \<times> sys_poll list" where
  "poll_loop deadline clock k [] =
    (let timeout_ms = amqp_time_ms_until (clock k) deadline
     in if timeout_ms < -1 then (Inr timeout_ms, Suc k, []) else (Inl Blocked, Suc k, []))"
| "poll_loop deadline clock k (r # rs) =
    (let timeout_ms = amqp_time_ms_until (clock k) deadline
     in if timeout_ms < -1 then (Inr timeout_ms, Suc k, r # rs)
        else
          (case r of
             Poll_ready \<Rightarrow> (Inr (status_code AMQP_STATUS_OK), Suc k, rs)
           | Poll_timeout \<Rightarrow> (Inr (status_code AMQP_STATUS_TIMEOUT), Suc k, rs)
           | Poll_errno EINTR \<Rightarrow> poll_loop deadline clock (Suc k) rs
           | Poll_errno _ \<Rightarrow> (Inr (status_code AMQP_STATUS_SOCKET_ERROR), Suc k, rs)))"

definition amqp_poll :: "amqp_time \<Rightarrow> int sys" where
  "amqp_poll deadline w =
    (case poll_loop deadline (w_clock w) (w_ticks w) (w_poll w) of
       (r, k, rs) \<Rightarrow> (r, w\<lparr>w_ticks := k, w_poll := rs\<rparr>))"

section \<open>Lemmas\<close>

lemmas status_values = status_code.simps AMQP_PRIVATE_STATUS_SOCKET_NEEDREAD_def AMQP_PRIVATE_STATUS_SOCKET_NEEDWRITE_def

lemma send_loop_shorter: "send_loop buf rs = (r, rs') \<Longrightarrow> length rs' \<le> length rs \<and> (rs \<noteq> [] \<longrightarrow> length rs' < length rs)"
  by (induction buf rs rule: send_loop.induct) fastforce+

lemma recv_loop_shorter: "recv_loop len rs = (r, rs') \<Longrightarrow> length rs' \<le> length rs \<and> (rs \<noteq> [] \<longrightarrow> length rs' < length rs)"
  by (induction len rs rule: recv_loop.induct) (fastforce split: if_splits)+

lemma poll_loop_shorter:
  "poll_loop deadline clock k rs = (r, k', rs') \<Longrightarrow>
   length rs' \<le> length rs \<and> (\<forall>v. r = Inr v \<and> -1 \<le> amqp_time_ms_until (clock k) deadline \<longrightarrow> length rs' < length rs)"
proof (induction rs arbitrary: k)
  case Nil
  then show ?case by (auto simp: Let_def split: if_splits)
next
  case (Cons x rs)
  show ?case
  proof (cases "\<exists>v. x = Poll_errno EINTR \<and> -1 \<le> amqp_time_ms_until (clock k) deadline")
    case True
    with Cons.prems have "poll_loop deadline clock (Suc k) rs = (r, k', rs')" by (auto simp: Let_def split: if_splits)
    from Cons.IH [OF this] show ?thesis by auto
  next
    case False
    with Cons.prems show ?thesis by (auto simp: Let_def split: if_splits sys_poll.splits errno.splits)
  qed
qed

end
