(* ===== verification/Amqp_Table_Ops.thy ===== *)
theory Amqp_Table_Ops
  imports Amqp_Table Amqp_Alloc
begin

text \<open>
  The rest of \<^verbatim>\<open>amqp_table.c\<close>: the order of the entries, deep copies into a pool, constructors and
  lookup of entries; and \<^verbatim>\<open>amqp_merge_capabilities\<close> of \<^verbatim>\<open>amqp_socket.c\<close>, which is built on them.

  A table whose \<^verbatim>\<open>entries\<close> pointer is \<^verbatim>\<open>NULL\<close> is the empty list; the empty array with a
  pointer that is not \<^verbatim>\<open>NULL\<close>, for which a copy would ask the pool for no bytes, does not occur
  in a decoded table and is not modelled.
\<close>

section \<open>Order of the entries\<close>

definition amqp_table_entry_cmp :: "amqp_table_entry \<Rightarrow> amqp_table_entry \<Rightarrow> int" where
  "amqp_table_entry_cmp entry1 entry2 =
    (let minlen = (if length (fst entry2) < length (fst entry1) then length (fst entry2) else length (fst entry1));
         d = memcmp (take minlen (fst entry1)) (take minlen (fst entry2))
     in if d \<noteq> 0 then d else as_int (length (fst entry1)) - as_int (length (fst entry2)))"

section \<open>Copies\<close>

text \<open>A byte string: nothing to allocate when it is empty.\<close>

definition clone_bytes :: "amqp_bytes \<Rightarrow> amqp_bytes palloc" where
  "clone_bytes original =
    (if length original = 0 then p_return [] else p_bind (p_alloc (length original)) (\<lambda>_. p_return original))"

fun amqp_field_value_clone :: "amqp_field_value \<Rightarrow> amqp_field_value palloc" where
  "amqp_field_value_clone original =
    (case original of
       FV_Utf8 bs \<Rightarrow> p_bind (clone_bytes bs) (\<lambda>bs'. p_return (FV_Utf8 bs'))
     | FV_Bytes bs \<Rightarrow> p_bind (clone_bytes bs) (\<lambda>bs'. p_return (FV_Bytes bs'))
     | FV_Array vs \<Rightarrow>
         if vs = [] then p_return (FV_Array [])
         else p_bind (p_alloc (sz_mul (length vs) sizeof_field_value)) (\<lambda>_.
              p_bind (p_map amqp_field_value_clone vs) (\<lambda>vs'. p_return (FV_Array vs')))
     | FV_Table t \<Rightarrow>
         if length t = 0 then p_return (FV_Table [])
         else p_bind (p_alloc (sz_mul (length t) sizeof_table_entry)) (\<lambda>_.
              p_bind (p_map (\<lambda>(key, value).
                  if length key = 0 then p_fail (Status AMQP_STATUS_INVALID_PARAMETER)
                  else p_bind (p_alloc (length key)) (\<lambda>_.
                       p_bind (amqp_field_value_clone value) (\<lambda>value'. p_return (key, value')))) t)
                (\<lambda>t'. p_return (FV_Table t')))
     | FV_Other _ \<Rightarrow> p_fail (Status AMQP_STATUS_INVALID_PARAMETER)
     | _ \<Rightarrow> p_return original)"

definition amqp_table_entry_clone :: "amqp_table_entry \<Rightarrow> amqp_table_entry palloc" where
  "amqp_table_entry_clone = (\<lambda>(key, value).
     if length key = 0 then p_fail (Status AMQP_STATUS_INVALID_PARAMETER)
     else p_bind (p_alloc (length key)) (\<lambda>_.
          p_bind (amqp_field_value_clone value) (\<lambda>value'. p_return (key, value'))))"

definition amqp_table_clone :: "amqp_table \<Rightarrow> amqp_table palloc" where
  "amqp_table_clone original =
    (if length original = 0 then p_return []
     else p_bind (p_alloc (sz_mul (length original) sizeof_table_entry)) (\<lambda>_.
          p_map amqp_table_entry_clone original))"

section \<open>Constructors and lookup\<close>

definition amqp_table_construct_utf8_entry :: "amqp_bytes \<Rightarrow> amqp_bytes \<Rightarrow> amqp_table_entry" where
  "amqp_table_construct_utf8_entry key value = (amqp_cstring_bytes key, FV_Utf8 (amqp_cstring_bytes value))"

definition amqp_table_construct_table_entry :: "amqp_bytes \<Rightarrow> amqp_table \<Rightarrow> amqp_table_entry" where
  "amqp_table_construct_table_entry key value = (amqp_cstring_bytes key, FV_Table value)"

definition amqp_table_construct_bool_entry :: "amqp_bytes \<Rightarrow> bool \<Rightarrow> amqp_table_entry" where
  "amqp_table_construct_bool_entry key value = (amqp_cstring_bytes key, FV_Boolean value)"

text \<open>The pointer \<^verbatim>\<open>amqp_table_get_entry_by_key\<close> returns is the index of the entry.\<close>

fun amqp_table_get_entry_by_key :: "amqp_table \<Rightarrow> amqp_bytes \<Rightarrow> nat option" where
  "amqp_table_get_entry_by_key [] key = None"
| "amqp_table_get_entry_by_key (e # t) key =
    (if amqp_bytes_equal (fst e) key then Some 0 else map_option Suc (amqp_table_get_entry_by_key t key))"

section \<open>amqp\_socket.c: amqp\_merge\_capabilities\<close>

text \<open>The recursions on nested tables below end because the tables get smaller.\<close>

abbreviation table_size :: "amqp_table \<Rightarrow> nat" where
  "table_size \<equiv> size_list (size_prod (\<lambda>_. 0) size)"

lemma nested_table_smaller: "(key, FV_Table t) \<in> set u \<Longrightarrow> table_size t < table_size u"
  using size_list_estimation' [of "(key, FV_Table t)" u, OF _ order_refl, of "size_prod (\<lambda>_. 0) size"]
  by (simp add: size_prod_def)

text \<open>
  One round of the loop over the entries to add, given the function that merges nested tables.
  The entry of \<^verbatim>\<open>base\<close> is dereferenced without a test for \<^verbatim>\<open>NULL\<close>, and its union is read
  as a table whatever its kind.
\<close>

definition merge_entry ::
    "(amqp_table \<Rightarrow> amqp_table \<Rightarrow> amqp_table palloc) \<Rightarrow> amqp_table \<Rightarrow> amqp_table_entry \<Rightarrow> amqp_table \<Rightarrow> amqp_table palloc" where
  "merge_entry merge base add_entry temp_result =
    (case amqp_table_get_entry_by_key temp_result (fst add_entry) of
       None \<Rightarrow> p_return (temp_result @ [add_entry])
     | Some i \<Rightarrow>
         (case (snd add_entry, snd (temp_result ! i)) of
            (FV_Table add_table, FV_Table _) \<Rightarrow>
              (case amqp_table_get_entry_by_key base (fst add_entry) of
                 None \<Rightarrow> p_fail Memory_fault
               | Some j \<Rightarrow>
                   (case snd (base ! j) of
                      FV_Table base_table \<Rightarrow>
                        p_bind (merge base_table add_table) (\<lambda>t.
                          p_return (temp_result[i := (fst (temp_result ! i), FV_Table t)]))
                    | _ \<Rightarrow> p_fail Undefined_behaviour))
          | _ \<Rightarrow> p_return (temp_result[i := (fst (temp_result ! i), snd add_entry)])))"

lemma merge_entry_cong [fundef_cong]:
  assumes "base = base'" "e = e'"
    and "\<And>b a s. snd e' = FV_Table a \<Longrightarrow> merge b a s = merge' b a s"
  shows "merge_entry merge base e = merge_entry merge' base' e'"
proof -
  have "merge b a = merge' b a" if "snd e' = FV_Table a" for a b
    using assms(3) [OF that] by (intro ext)
  with assms(1,2) show ?thesis
    by (intro ext) (auto simp: merge_entry_def split: option.splits amqp_field_value.splits)
qed

function merge_tables :: "amqp_table \<Rightarrow> amqp_table \<Rightarrow> amqp_table palloc" where
  "merge_tables base add (pool, h) =
    (case p_bind (p_alloc (sz_mul sizeof_table_entry (length base + length add)))
            (\<lambda>_. p_fold (merge_entry merge_tables base) add base) (init_amqp_pool 4096, h) of
       (Inl e, temp_pool, h1) \<Rightarrow> (Inl e, pool, snd (empty_amqp_pool temp_pool h1))
     | (Inr temp_result, temp_pool, h1) \<Rightarrow>
         (case amqp_table_clone temp_result (pool, h1) of
            (r, pool', h2) \<Rightarrow> (r, pool', snd (empty_amqp_pool temp_pool h2))))"
  by pat_completeness auto
termination
proof (relation "measure (\<lambda>(b, a, s). table_size a)")
  fix base add :: amqp_table and pool h e b and t :: amqp_table and s
  assume "e \<in> set add" "snd e = FV_Table t"
  then have "(fst e, FV_Table t) \<in> set add" by (metis prod.collapse)
  then show "((b, t, s), base, add, pool, h) \<in> measure (\<lambda>(b, a, s). table_size a)"
    using nested_table_smaller by simp
qed simp

definition amqp_merge_capabilities :: "amqp_table \<Rightarrow> amqp_table option \<Rightarrow> amqp_table palloc" where
  "amqp_merge_capabilities base add =
    (case add of None \<Rightarrow> amqp_table_clone base | Some t \<Rightarrow> merge_tables base t)"

declare merge_tables.simps [simp del]
declare amqp_field_value_clone.simps [simp del]

section \<open>What is copied\<close>

text \<open>Values that fit into memory (\<^verbatim>\<open>num_entries\<close> is an \<^verbatim>\<open>int\<close>), and values a copy accepts: no empty key, no unknown kind.\<close>

fun value_in_memory :: "amqp_field_value \<Rightarrow> bool" where
  "value_in_memory v =
    (case v of
       FV_Utf8 bs \<Rightarrow> in_memory bs
     | FV_Bytes bs \<Rightarrow> in_memory bs
     | FV_Array vs \<Rightarrow> length vs < 2 ^ 31 \<and> list_all value_in_memory vs
     | FV_Table t \<Rightarrow> length t < 2 ^ 31 \<and> list_all (\<lambda>(key, value). in_memory key \<and> value_in_memory value) t
     | _ \<Rightarrow> True)"

fun clonable :: "amqp_field_value \<Rightarrow> bool" where
  "clonable v =
    (case v of
       FV_Array vs \<Rightarrow> list_all clonable vs
     | FV_Table t \<Rightarrow> list_all (\<lambda>(key, value). key \<noteq> [] \<and> clonable value) t
     | FV_Other _ \<Rightarrow> False
     | _ \<Rightarrow> True)"

declare value_in_memory.simps [simp del]
declare clonable.simps [simp del]

lemma table_clone_value: "amqp_field_value_clone (FV_Table t) = p_bind (amqp_table_clone t) (\<lambda>t'. p_return (FV_Table t'))"
  by (rule ext) (simp add: amqp_field_value_clone.simps [of "FV_Table t"] amqp_table_clone_def
      amqp_table_entry_clone_def [abs_def] p_bind_def p_return_def split: prod.split sum.split)

lemma clone_bytes_yields: "in_memory bs \<Longrightarrow> yields (clone_bytes bs) (Inr bs)"
  by (auto simp: clone_bytes_def intro!: yields_alloc)

lemma sizes_small:
  "length vs < 2 ^ 31 \<Longrightarrow> vs \<noteq> [] \<Longrightarrow> 0 < sz_mul (length vs) sizeof_field_value \<and> sz_mul (length vs) sizeof_field_value \<le> 2 ^ 63"
  "length t < 2 ^ 31 \<Longrightarrow> t \<noteq> [] \<Longrightarrow> 0 < sz_mul (length t) sizeof_table_entry \<and> sz_mul (length t) sizeof_table_entry \<le> 2 ^ 63"
  by (simp_all add: sizeof_field_value_def sizeof_table_entry_def)

lemma entry_clone_yields:
  assumes "in_memory key" "yields (amqp_field_value_clone v) (if clonable v then Inr v else Inl (Status AMQP_STATUS_INVALID_PARAMETER))"
  shows "yields (amqp_table_entry_clone (key, v))
    (if key \<noteq> [] \<and> clonable v then Inr (key, v) else Inl (Status AMQP_STATUS_INVALID_PARAMETER))"
  using assms by (auto simp: amqp_table_entry_clone_def intro!: yields_alloc intro: yields_bind yields_bind_fail split: if_splits)

lemma table_clone_yields':
  assumes "length t < 2 ^ 31" "\<And>key v. (key, v) \<in> set t \<Longrightarrow> in_memory key
      \<and> yields (amqp_field_value_clone v) (if clonable v then Inr v else Inl (Status AMQP_STATUS_INVALID_PARAMETER))"
  shows "yields (amqp_table_clone t)
    (if list_all (\<lambda>(key, v). key \<noteq> [] \<and> clonable v) t then Inr t else Inl (Status AMQP_STATUS_INVALID_PARAMETER))"
proof (cases "t = []")
  case False
  have "yields (p_map amqp_table_entry_clone t)
      (if list_all (\<lambda>(key, v). key \<noteq> [] \<and> clonable v) t then Inr (map (\<lambda>e. e) t) else Inl (Status AMQP_STATUS_INVALID_PARAMETER))"
  proof (rule yields_map)
    fix e
    assume "e \<in> set t"
    moreover obtain key v where "e = (key, v)" by fastforce
    ultimately show "yields (amqp_table_entry_clone e)
        (if (case e of (key, v) \<Rightarrow> key \<noteq> [] \<and> clonable v) then Inr e else Inl (Status AMQP_STATUS_INVALID_PARAMETER))"
      using assms(2) [of key v] entry_clone_yields [of key v] by (auto split: if_splits)
  qed
  with False sizes_small(2) [OF assms(1) False] show ?thesis
    by (auto simp: amqp_table_clone_def intro!: yields_alloc split: if_splits)
qed (simp add: amqp_table_clone_def)

lemma value_clone_yields:
  "value_in_memory v \<Longrightarrow>
   yields (amqp_field_value_clone v) (if clonable v then Inr v else Inl (Status AMQP_STATUS_INVALID_PARAMETER))"
proof (induction v)
  case (FV_Array vs)
  have "yields (p_map amqp_field_value_clone vs)
      (if list_all clonable vs then Inr (map (\<lambda>v. v) vs) else Inl (Status AMQP_STATUS_INVALID_PARAMETER))"
    by (rule yields_map) (use FV_Array in \<open>simp add: value_in_memory.simps [of "FV_Array vs"] list_all_iff\<close>)
  with sizes_small(1) [of vs] FV_Array.prems show ?case
    by (auto simp: amqp_field_value_clone.simps [of "FV_Array vs"] clonable.simps [of "FV_Array vs"]
        value_in_memory.simps [of "FV_Array vs"] intro!: yields_alloc intro: yields_bind yields_bind_fail split: if_splits)
next
  case (FV_Table t)
  have "yields (amqp_table_clone t)
      (if list_all (\<lambda>(key, v). key \<noteq> [] \<and> clonable v) t then Inr t else Inl (Status AMQP_STATUS_INVALID_PARAMETER))"
  proof (rule table_clone_yields')
    fix key v
    assume e: "(key, v) \<in> set t"
    with FV_Table.prems have "in_memory key" "value_in_memory v"
      by (auto simp: value_in_memory.simps [of "FV_Table t"] list_all_iff)
    with FV_Table.IH [OF e, of v]
    show "in_memory key
        \<and> yields (amqp_field_value_clone v) (if clonable v then Inr v else Inl (Status AMQP_STATUS_INVALID_PARAMETER))"
      by simp
  qed (use FV_Table.prems in \<open>simp add: value_in_memory.simps [of "FV_Table t"]\<close>)
  then show ?case
    by (auto simp: table_clone_value clonable.simps [of "FV_Table t"] intro: yields_bind yields_bind_fail split: if_splits)
qed (auto simp: amqp_field_value_clone.simps clonable.simps value_in_memory.simps
    intro: yields_bind [OF clone_bytes_yields])

abbreviation table_in_memory :: "amqp_table \<Rightarrow> bool" where
  "table_in_memory t \<equiv> value_in_memory (FV_Table t)"

abbreviation clonable_table :: "amqp_table \<Rightarrow> bool" where
  "clonable_table t \<equiv> clonable (FV_Table t)"

lemma table_in_memory_iff:
  "table_in_memory t \<longleftrightarrow> length t < 2 ^ 31 \<and> (\<forall>(key, v) \<in> set t. in_memory key \<and> value_in_memory v)"
  by (simp add: value_in_memory.simps [of "FV_Table t"] list_all_iff)

lemma clonable_table_iff: "clonable_table t \<longleftrightarrow> (\<forall>(key, v) \<in> set t. key \<noteq> [] \<and> clonable v)"
  by (simp add: clonable.simps [of "FV_Table t"] list_all_iff)

lemma table_clone_yields:
  assumes "table_in_memory t"
  shows "yields (amqp_table_clone t) (if clonable_table t then Inr t else Inl (Status AMQP_STATUS_INVALID_PARAMETER))"
  using table_clone_yields' [of t] assms value_clone_yields
  by (auto simp: table_in_memory_iff clonable.simps [of "FV_Table t"] split: prod.splits)

lemma clone_bytes_safe [pool_safe_intros]: "in_memory bs \<Longrightarrow> pool_safe (clone_bytes bs)"
  by (auto simp: clone_bytes_def intro!: pool_safe_intros)

lemma table_clone_safe':
  assumes "length t < 2 ^ 31" "\<And>key v. (key, v) \<in> set t \<Longrightarrow> in_memory key \<and> pool_safe (amqp_field_value_clone v)"
  shows "pool_safe (amqp_table_clone t)"
proof -
  have "pool_safe (amqp_table_entry_clone e)" if "e \<in> set t" for e
    using assms(2) [of "fst e" "snd e"] that
    by (cases e) (auto simp: amqp_table_entry_clone_def intro!: pool_safe_intros)
  with assms(1) show ?thesis
    by (auto simp: amqp_table_clone_def sizeof_table_entry_def intro!: pool_safe_intros)
qed

lemma value_clone_safe: "value_in_memory v \<Longrightarrow> pool_safe (amqp_field_value_clone v)"
proof (induction v)
  case (FV_Array vs)
  then have "pool_safe (amqp_field_value_clone v)" if "v \<in> set vs" for v
    using that by (simp add: value_in_memory.simps [of "FV_Array vs"] list_all_iff)
  with FV_Array.prems show ?case
    by (auto simp: amqp_field_value_clone.simps [of "FV_Array vs"] value_in_memory.simps [of "FV_Array vs"]
        sizeof_field_value_def intro!: pool_safe_intros)
next
  case (FV_Table t)
  have "pool_safe (amqp_table_clone t)"
  proof (rule table_clone_safe')
    fix key v
    assume e: "(key, v) \<in> set t"
    with FV_Table.prems have "in_memory key" "value_in_memory v" by (auto simp: table_in_memory_iff)
    with FV_Table.IH [OF e, of v] show "in_memory key \<and> pool_safe (amqp_field_value_clone v)" by simp
  qed (use FV_Table.prems in \<open>simp add: table_in_memory_iff\<close>)
  then show ?case by (auto simp: table_clone_value intro!: pool_safe_intros)
qed (auto simp: amqp_field_value_clone.simps value_in_memory.simps intro!: pool_safe_intros)

lemma table_clone_safe: "table_in_memory t \<Longrightarrow> pool_safe (amqp_table_clone t)"
  by (rule table_clone_safe') (auto simp: table_in_memory_iff intro: value_clone_safe)

section \<open>Order and lookup\<close>

lemma memcmp_prefix:
  defines "m \<equiv> \<lambda>xs ys :: amqp_bytes. min (length xs) (length ys)"
  shows "memcmp (take (m xs ys) xs) (take (m xs ys) ys) < 0
      \<or> memcmp (take (m xs ys) xs) (take (m xs ys) ys) = 0 \<and> length xs < length ys \<longleftrightarrow> ord_class.lexordp xs ys"
    and "memcmp (take (m xs ys) xs) (take (m xs ys) ys) = 0 \<and> length xs = length ys \<longleftrightarrow> xs = ys"
  unfolding m_def by (induction xs ys rule: memcmp.induct) (auto simp: neq_Nil_conv)

text \<open>
  \<^verbatim>\<open>amqp_table_entry_cmp\<close> is the comparison function of a total order, as \<^verbatim>\<open>qsort\<close> needs it: it is
  zero for equal keys only, and negative exactly when the first key is lexicographically smaller.
\<close>

theorem entry_cmp_lexicographic:
  assumes "length (fst e1) < 2 ^ 31" "length (fst e2) < 2 ^ 31"
  shows "(amqp_table_entry_cmp e1 e2 < 0 \<longleftrightarrow> ord_class.lexordp (fst e1) (fst e2))
    \<and> (amqp_table_entry_cmp e1 e2 = 0 \<longleftrightarrow> fst e1 = fst e2)"
proof -
  have "amqp_table_entry_cmp e1 e2 =
      (let d = memcmp (take (min (length (fst e1)) (length (fst e2))) (fst e1))
                 (take (min (length (fst e1)) (length (fst e2))) (fst e2))
       in if d \<noteq> 0 then d else int (length (fst e1)) - int (length (fst e2)))"
    using assms by (auto simp: amqp_table_entry_cmp_def as_int_small min_def Let_def)
  with memcmp_prefix [of "fst e1" "fst e2"] show ?thesis
    by (auto simp: Let_def simp del: memcmp_eq_0 split: if_splits)
qed

theorem entry_cmp_lexicographic_witness:
  "amqp_table_entry_cmp ([1, 2], FV_Void) ([1, 2, 0], FV_Void) < 0"
  using entry_cmp_lexicographic [of "([1, 2], FV_Void)" "([1, 2, 0], FV_Void)"] by simp

lemma get_entry_index:
  "amqp_table_get_entry_by_key t key = Some i \<Longrightarrow> i < length t \<and> fst (t ! i) = key"
  by (induction t arbitrary: i) (auto split: if_splits)

lemma get_entry_None: "amqp_table_get_entry_by_key t key = None \<longleftrightarrow> key \<notin> fst ` set t"
  by (induction t) auto

lemma get_entry_map_of: "map_of t key = map_option (\<lambda>i. snd (t ! i)) (amqp_table_get_entry_by_key t key)"
  by (induction t) (auto simp: option.map_comp comp_def)

lemma get_entry_keys: "map fst t = map fst u \<Longrightarrow> amqp_table_get_entry_by_key t key = amqp_table_get_entry_by_key u key"
proof (induction t arbitrary: u)
  case (Cons e t)
  then show ?case by (cases u) simp_all
qed simp

lemma get_entry_append:
  "key \<in> fst ` set t \<Longrightarrow> amqp_table_get_entry_by_key (t @ u) key = amqp_table_get_entry_by_key t key"
proof (induction t)
  case (Cons e t)
  then show ?case by (cases "fst e = key") auto
qed simp

text \<open>
  A copy of a table into a pool that grants memory is the table itself when no key, at any depth,
  is empty and no value has an unknown kind, and \<^verbatim>\<open>AMQP_STATUS_INVALID_PARAMETER\<close> otherwise.
\<close>

theorem table_clone_result:
  assumes "heap_ok h" "table_in_memory t"
  shows "fst (amqp_table_clone t (p, h)) =
    (if clonable_table t then Inr t else Inl (Status AMQP_STATUS_INVALID_PARAMETER))"
  using yieldsD [OF table_clone_yields [OF assms(2)] assms(1), of p] by auto

theorem table_clone_result_witness:
  "fst (amqp_table_clone [([7], FV_Table [([], FV_Void)])]
     (init_amqp_pool 0, \<lparr>h_grants = \<lambda>_ _. True, h_count = 0, h_live = [], h_size = \<lambda>_. 0, h_stray = []\<rparr>))
   = Inl (Status AMQP_STATUS_INVALID_PARAMETER)"
  using table_clone_result [of "\<lparr>h_grants = \<lambda>_ _. True, h_count = 0, h_live = [], h_size = \<lambda>_. 0, h_stray = []\<rparr>"
      "[([7], FV_Table [([], FV_Void)])]"]
  by (simp add: heap_ok_def value_in_memory.simps clonable.simps)

text \<open>
  A copy is safe whatever the heap refuses: it ends with the copy or with a status, the pool keeps its
  invariant, and the regions that were in use before are still there and apart from the new ones.
\<close>

theorem table_clone_keeps_pool:
  assumes "pool_inv p h" "regions_inv p h R" "table_in_memory t"
    and "amqp_table_clone t (p, h) = (r, p', h')"
  shows "pool_inv p' h' \<and> (\<exists>R'. set R \<subseteq> set R' \<and> regions_inv p' h' R')
    \<and> (case r of Inr _ \<Rightarrow> True | Inl e \<Rightarrow> \<exists>s. e = Status s)"
  using pool_safeD [OF table_clone_safe [OF assms(3)] assms(1,2,4)] by (auto split: sum.split)

theorem table_clone_keeps_pool_witness:
  "case amqp_table_clone [([7], FV_Void)]
     (init_amqp_pool 64, \<lparr>h_grants = \<lambda>k _. k = 0, h_count = 0, h_live = [], h_size = \<lambda>_. 0, h_stray = []\<rparr>) of
   (r, p', h') \<Rightarrow> pool_inv p' h'"
proof -
  let ?h = "\<lparr>h_grants = \<lambda>k _. k = 0, h_count = 0, h_live = [], h_size = \<lambda>_. 0, h_stray = []\<rparr>"
  obtain r p' h' where r: "amqp_table_clone [([7], FV_Void)] (init_amqp_pool 64, ?h) = (r, p', h')"
    by (metis prod_cases3)
  have "pool_inv p' h'"
    using table_clone_keeps_pool [OF init_pool_inv regions_inv_Nil _ r]
    by (simp add: heap_wf_def value_in_memory.simps)
  with r show ?thesis by simp
qed

section \<open>Merging\<close>

text \<open>
  What the comment on \<^verbatim>\<open>amqp_merge_capabilities\<close> promises: an entry to add replaces the entry
  with its key, unless both are tables, which are merged; the entries with new keys follow.
\<close>

function merged :: "amqp_table \<Rightarrow> amqp_table \<Rightarrow> amqp_table" where
  "merged base add =
    map (\<lambda>(key, v). (key,
       case map_of add key of
         None \<Rightarrow> v
       | Some w \<Rightarrow> (case v of
           FV_Table b \<Rightarrow> (case w of FV_Table a \<Rightarrow> FV_Table (merged b a) | _ \<Rightarrow> w)
         | _ \<Rightarrow> w))) base
    @ filter (\<lambda>(key, _). key \<notin> fst ` set base) add"
  by pat_completeness auto
termination
  by (relation "measure (\<lambda>(b, a). table_size b)") (auto intro: nested_table_smaller)

declare merged.simps [simp del]

text \<open>Tables fit for merging: not empty, distinct keys, and so on for the nested tables.\<close>

function capabilities_ok :: "amqp_table \<Rightarrow> bool" where
  "capabilities_ok t \<longleftrightarrow>
     t \<noteq> [] \<and> length t < 2 ^ 30 \<and> distinct (map fst t)
     \<and> list_all (\<lambda>(key, v). key \<noteq> [] \<and> in_memory key
         \<and> (case v of FV_Table u \<Rightarrow> capabilities_ok u | _ \<Rightarrow> clonable v \<and> value_in_memory v)) t"
  by pat_completeness auto
termination
  by (relation "measure table_size") (auto intro: nested_table_smaller)

declare capabilities_ok.simps [simp del]

lemma ok_entry:
  assumes "capabilities_ok t" "(key, v) \<in> set t"
  shows "key \<noteq> []" "in_memory key" "\<And>u. v = FV_Table u \<Longrightarrow> capabilities_ok u"
    "(\<And>u. v \<noteq> FV_Table u) \<Longrightarrow> clonable v \<and> value_in_memory v"
proof -
  have e: "case (key, v) of (key, v) \<Rightarrow> key \<noteq> [] \<and> in_memory key
      \<and> (case v of FV_Table u \<Rightarrow> capabilities_ok u | _ \<Rightarrow> clonable v \<and> value_in_memory v)"
    using assms unfolding capabilities_ok.simps [of t] list_all_iff by blast
  then show "key \<noteq> []" "in_memory key" by simp_all
  from e show "\<And>u. v = FV_Table u \<Longrightarrow> capabilities_ok u" by simp
  from e show "(\<And>u. v \<noteq> FV_Table u) \<Longrightarrow> clonable v \<and> value_in_memory v" by (cases v) auto
qed

lemma ok_table: "capabilities_ok t \<Longrightarrow> t \<noteq> [] \<and> length t < 2 ^ 30 \<and> distinct (map fst t)"
  by (simp add: capabilities_ok.simps [of t])

lemma ok_clonable: "capabilities_ok t \<Longrightarrow> clonable_table t \<and> table_in_memory t"
proof (induction t rule: measure_induct_rule [of table_size])
  case (less t)
  have "key \<noteq> [] \<and> in_memory key \<and> clonable v \<and> value_in_memory v" if e: "(key, v) \<in> set t" for key v
  proof (cases "\<exists>u. v = FV_Table u")
    case True
    then obtain u where "v = FV_Table u" ..
    with less.IH [of u] nested_table_smaller [of key u t] e ok_entry [OF less.prems e] show ?thesis by simp
  qed (use ok_entry [OF less.prems e] in auto)
  moreover have "length t < 2 ^ 31" using ok_table [OF less.prems] by simp
  ultimately show ?case by (auto simp: clonable_table_iff table_in_memory_iff)
qed

text \<open>The value of an entry after merging.\<close>

definition merged_value :: "amqp_table \<Rightarrow> amqp_bytes \<Rightarrow> amqp_field_value \<Rightarrow> amqp_field_value" where
  "merged_value add key v =
    (case map_of add key of
       None \<Rightarrow> v
     | Some w \<Rightarrow> (case v of
         FV_Table b \<Rightarrow> (case w of FV_Table a \<Rightarrow> FV_Table (merged b a) | _ \<Rightarrow> w)
       | _ \<Rightarrow> w))"

lemma merged_eq:
  "merged base add =
    map (\<lambda>(key, v). (key, merged_value add key v)) base @ filter (\<lambda>(key, _). key \<notin> fst ` set base) add"
  by (subst merged.simps) (simp add: merged_value_def)

lemma merged_Nil [simp]: "merged base [] = base"
  by (simp add: merged_eq merged_value_def)

lemma merged_ok:
  assumes "capabilities_ok base" "add = [] \<or> capabilities_ok add"
  shows "clonable_table (merged base add) \<and> table_in_memory (merged base add)"
  using assms
proof (induction base arbitrary: add rule: measure_induct_rule [of table_size])
  case (less base)
  have old: "key \<noteq> [] \<and> in_memory key \<and> clonable v \<and> value_in_memory v"
    if "(key, v) \<in> set base \<union> set add" for key v
    using that ok_clonable [OF less.prems(1)] less.prems(2) ok_clonable [of add]
    by (auto simp: clonable_table_iff table_in_memory_iff)
  have new: "clonable (merged_value add key v) \<and> value_in_memory (merged_value add key v)"
    if e: "(key, v) \<in> set base" for key v
  proof (cases "map_of add key")
    case None
    with old [of key v] e show ?thesis by (simp add: merged_value_def)
  next
    case (Some w)
    then have w: "(key, w) \<in> set add" by (rule map_of_SomeD)
    show ?thesis
    proof (cases "\<exists>b a. v = FV_Table b \<and> w = FV_Table a")
      case True
      then obtain b a where ba: "v = FV_Table b" "w = FV_Table a" by blast
      have "capabilities_ok b" "capabilities_ok a"
        using ba ok_entry(3) [OF less.prems(1) e] less.prems(2) w ok_entry(3) [of add key w] by auto
      with less.IH [of b a] nested_table_smaller [of key b base] e ba Some show ?thesis
        by (simp add: merged_value_def)
    next
      case False
      with old [of key w] w Some show ?thesis
        by (auto simp: merged_value_def split: amqp_field_value.splits)
    qed
  qed
  have "length add < 2 ^ 30" using less.prems(2) ok_table [of add] by auto
  then have "length (filter (\<lambda>(key, _). key \<notin> fst ` set base) add) < 2 ^ 30"
    by (rule le_less_trans [OF length_filter_le])
  then have "length (merged base add) < 2 ^ 31"
    using ok_table [OF less.prems(1)] by (simp add: merged_eq)
  with old new show ?case
    by (fastforce simp: clonable_table_iff table_in_memory_iff merged_eq)
qed

lemma merged_lookup:
  assumes "key \<notin> fst ` set add"
  shows "amqp_table_get_entry_by_key (merged base add) key = amqp_table_get_entry_by_key base key"
proof (cases "key \<in> fst ` set base")
  case True
  let ?m = "map (\<lambda>(key, v). (key, merged_value add key v)) base"
  have "map fst ?m = map fst base" by (simp add: case_prod_beta comp_def)
  then have keys: "fst ` set ?m = fst ` set base" by (metis list.set_map)
  have "amqp_table_get_entry_by_key (merged base add) key = amqp_table_get_entry_by_key ?m key"
    unfolding merged_eq by (rule get_entry_append) (use True keys in simp)
  also have "\<dots> = amqp_table_get_entry_by_key base key"
    by (rule get_entry_keys) fact
  finally show ?thesis .
next
  case False
  with assms have "key \<notin> fst ` set (merged base add)" by (force simp: merged_eq)
  with False show ?thesis by (metis get_entry_None)
qed

lemma merged_value_snoc:
  "key \<notin> fst ` set add \<Longrightarrow> merged_value (add @ [(key, w)]) k v =
    (if k = key then merged_value [(key, w)] key v else merged_value add k v)"
  by (simp add: merged_value_def map_add_def map_of_eq_None_iff [symmetric] split: option.split)

lemma merged_snoc:
  assumes "key \<notin> fst ` set add" "distinct (map fst base)"
  shows "merged base (add @ [(key, w)]) =
    (case amqp_table_get_entry_by_key base key of
       None \<Rightarrow> merged base add @ [(key, w)]
     | Some i \<Rightarrow> (merged base add)[i := (key, merged_value [(key, w)] key (snd (base ! i)))])"
proof (cases "amqp_table_get_entry_by_key base key")
  case None
  then have "key \<notin> fst ` set base" by (simp add: get_entry_None)
  then have "map (\<lambda>(k, v). (k, merged_value (add @ [(key, w)]) k v)) base
      = map (\<lambda>(k, v). (k, merged_value add k v)) base"
    using assms(1) by (auto simp: merged_value_snoc image_iff)
  with None \<open>key \<notin> fst ` set base\<close> show ?thesis by (simp add: merged_eq)
next
  case (Some i)
  then have i: "i < length base" "fst (base ! i) = key" using get_entry_index by blast+
  have "map (\<lambda>(k, v). (k, merged_value (add @ [(key, w)]) k v)) base
      = (map (\<lambda>(k, v). (k, merged_value add k v)) base)[i := (key, merged_value [(key, w)] key (snd (base ! i)))]"
  proof (rule nth_equalityI)
    fix j
    assume "j < length (map (\<lambda>(k, v). (k, merged_value (add @ [(key, w)]) k v)) base)"
    moreover have "fst (base ! j) \<noteq> key" if "j \<noteq> i" "j < length base"
      using nth_eq_iff_index_eq [OF assms(2), of i j] i that by auto
    ultimately show "map (\<lambda>(k, v). (k, merged_value (add @ [(key, w)]) k v)) base ! j
        = (map (\<lambda>(k, v). (k, merged_value add k v)) base)[i := (key, merged_value [(key, w)] key (snd (base ! i)))] ! j"
      using i assms(1) by (cases "j = i") (auto simp: case_prod_beta merged_value_snoc)
  qed simp
  moreover have "key \<in> fst ` set base" using i by (metis image_eqI nth_mem)
  ultimately show ?thesis using Some i(1) by (simp add: merged_eq list_update_append)
qed

lemma merge_entry_yields:
  assumes "key \<notin> fst ` set add" "distinct (map fst base)"
    and "\<And>b a. w = FV_Table a \<Longrightarrow> (key, FV_Table b) \<in> set base \<Longrightarrow> yields (merge b a) (Inr (merged b a))"
  shows "yields (merge_entry merge base (key, w) (merged base add)) (Inr (merged base (add @ [(key, w)])))"
proof (cases "amqp_table_get_entry_by_key base key")
  case None
  with merged_snoc [OF assms(1,2), of w] merged_lookup [OF assms(1), of base] show ?thesis
    by (simp add: merge_entry_def)
next
  case (Some i)
  then have i: "i < length base" "fst (base ! i) = key" using get_entry_index by blast+
  have "map_of add key = None" using assms(1) by (simp add: map_of_eq_None_iff)
  then have e: "merged base add ! i = base ! i"
    using i by (simp add: merged_eq nth_append case_prod_beta merged_value_def prod_eq_iff)
  note step = merged_snoc [OF assms(1,2), of w] merged_lookup [OF assms(1), of base]
  have b: "(key, snd (base ! i)) \<in> set base" using i by (metis nth_mem prod.collapse)
  show ?thesis
  proof (cases "\<exists>b a. snd (base ! i) = FV_Table b \<and> w = FV_Table a")
    case True
    then obtain b a where ba: "snd (base ! i) = FV_Table b" "w = FV_Table a" by blast
    with assms(3) b have "yields (merge b a) (Inr (merged b a))" by simp
    with Some step e i ba show ?thesis
      by (simp add: merge_entry_def merged_value_def) (rule yields_bind, assumption, simp)
  next
    case False
    with Some step e i show ?thesis
      by (auto simp: merge_entry_def merged_value_def split: amqp_field_value.splits)
  qed
qed

lemma merge_loop_yields:
  assumes "distinct (map fst (xs @ ys))" "distinct (map fst base)"
    and "\<And>key b a. (key, FV_Table a) \<in> set ys \<Longrightarrow> (key, FV_Table b) \<in> set base \<Longrightarrow> yields (merge b a) (Inr (merged b a))"
  shows "yields (p_fold (merge_entry merge base) ys (merged base xs)) (Inr (merged base (xs @ ys)))"
  using assms(1,3)
proof (induction ys arbitrary: xs)
  case (Cons e ys)
  obtain key w where e: "e = (key, w)" by fastforce
  have "yields (merge_entry merge base (key, w) (merged base xs)) (Inr (merged base (xs @ [(key, w)])))"
    by (rule merge_entry_yields) (use Cons.prems assms(2) e in auto)
  moreover have "yields (p_fold (merge_entry merge base) ys (merged base (xs @ [(key, w)])))
      (Inr (merged base ((xs @ [(key, w)]) @ ys)))"
    by (rule Cons.IH) (use Cons.prems e in auto)
  ultimately show ?case using e by (simp add: yields_bind)
qed simp

lemma empty_pool_heap_ok [simp]: "heap_ok (snd (empty_amqp_pool p h)) = heap_ok h"
proof -
  have "heap_ok (fold free bs h') = heap_ok h'" for bs h' by (induction bs arbitrary: h') auto
  then have "heap_ok (snd (empty_blocklist x h')) = heap_ok h'" for x h'
    by (simp add: empty_blocklist_def split: option.split)
  then show ?thesis
    by (simp add: empty_amqp_pool_def recycle_amqp_pool_def case_prod_beta Let_def)
qed

lemma merge_tables_yields:
  assumes "capabilities_ok base" "add = [] \<or> capabilities_ok add"
  shows "yields (merge_tables base add) (Inr (merged base add))"
  using assms
proof (induction add arbitrary: base rule: measure_induct_rule [of table_size])
  case (less add)
  have small: "length base < 2 ^ 30" "base \<noteq> []" "length add < 2 ^ 30"
    using ok_table [OF less.prems(1)] less.prems(2) ok_table [of add] by auto
  have "yields (p_fold (merge_entry merge_tables base) add (merged base [])) (Inr (merged base ([] @ add)))"
  proof (rule merge_loop_yields)
    show "distinct (map fst ([] @ add))" "distinct (map fst base)"
      using ok_table [OF less.prems(1)] less.prems(2) ok_table [of add] by auto
    fix key b a
    assume e: "(key, FV_Table a) \<in> set add" "(key, FV_Table b) \<in> set base"
    then have "capabilities_ok b" "capabilities_ok a"
      using ok_entry(3) [OF less.prems(1) e(2)] less.prems(2) ok_entry(3) [of add key "FV_Table a" a] by auto
    with less.IH [OF nested_table_smaller [OF e(1)]] show "yields (merge_tables b a) (Inr (merged b a))" by simp
  qed
  then have loop: "yields (p_bind (p_alloc (sz_mul sizeof_table_entry (length base + length add)))
      (\<lambda>_. p_fold (merge_entry merge_tables base) add base)) (Inr (merged base add))"
    using small by (intro yields_alloc) (simp_all add: sizeof_table_entry_def)
  have clone: "yields (amqp_table_clone (merged base add)) (Inr (merged base add))"
    using table_clone_yields [of "merged base add"] merged_ok [OF less.prems] by simp
  show ?case unfolding yields_def
  proof (intro allI impI)
    fix p h
    assume "heap_ok h"
    from yieldsD [OF loop this, of "init_amqp_pool 4096"] obtain tp h1
      where 1: "p_bind (p_alloc (sz_mul sizeof_table_entry (length base + length add)))
          (\<lambda>_. p_fold (merge_entry merge_tables base) add base) (init_amqp_pool 4096, h)
        = (Inr (merged base add), tp, h1)" "heap_ok h1" by blast
    from yieldsD [OF clone 1(2), of p] obtain p' h2
      where "amqp_table_clone (merged base add) (p, h1) = (Inr (merged base add), p', h2)" "heap_ok h2" by blast
    with 1 show "\<exists>p' h'. merge_tables base add (p, h) = (Inr (merged base add), p', h') \<and> heap_ok h'"
      by (simp add: merge_tables.simps)
  qed
qed

text \<open>
  C29. \<^verbatim>\<open>amqp_merge_capabilities\<close> implements what its comment promises, \<open>merged base add\<close>: first the entries of the base
  table in their order, each with the value the table to add has for its key, if it has one, or with the merge of the two values
  if both are tables; then the entries of the table to add whose keys the base does not have, in their order.
  This holds when the memory is granted, the base is not empty, and in both tables at every level the keys are distinct and not empty,
  no nested table is empty and there are fewer than \<open>2 ^ 30\<close> entries; the table to add may be empty itself. The next theorem
  shows what goes wrong otherwise.
\<close>

theorem merge_capabilities_refines:
  assumes "heap_ok h" "capabilities_ok base" "add = [] \<or> capabilities_ok add"
  shows "fst (amqp_merge_capabilities base (Some add) (p, h)) = Inr (merged base add)"
  using yieldsD [OF merge_tables_yields [OF assms(2,3)] assms(1), of p]
  by (auto simp: amqp_merge_capabilities_def)

theorem merge_capabilities_refines_witness:
  "fst (amqp_merge_capabilities [([1], FV_Boolean True), ([2], FV_Table [([3], FV_Void)])]
      (Some [([2], FV_Table [([4], FV_Void)]), ([1], FV_U8 7)])
      (init_amqp_pool 0, \<lparr>h_grants = \<lambda>_ _. True, h_count = 0, h_live = [], h_size = \<lambda>_. 0, h_stray = []\<rparr>))
   = Inr [([1], FV_U8 7), ([2], FV_Table [([3], FV_Void), ([4], FV_Void)])]"
  by (subst merge_capabilities_refines)
    (simp_all add: heap_ok_def capabilities_ok.simps clonable.simps value_in_memory.simps merged.simps)

text \<open>
  Where the code breaks: when the table to add has two nested tables under a key that the base
  table does not have, the second one makes the code dereference \<^verbatim>\<open>NULL\<close>; and merging two empty
  tables reports that there is no memory, although nothing was refused.
\<close>

theorem merge_capabilities_faults:
  assumes "heap_ok h" "length base < 2 ^ 30"
  shows "(key \<notin> fst ` set base \<longrightarrow>
      fst (amqp_merge_capabilities base (Some [(key, FV_Table a), (key, FV_Table b)]) (p, h)) = Inl Memory_fault)
    \<and> fst (amqp_merge_capabilities [] (Some []) (p, h)) = Inl (Status AMQP_STATUS_NO_MEMORY)"
proof -
  let ?loop = "\<lambda>_ :: addr. p_fold (merge_entry merge_tables base) [(key, FV_Table a), (key, FV_Table b)] base"
  have "yields (p_bind (p_alloc (sz_mul sizeof_table_entry (length base + 2))) ?loop) (Inl Memory_fault)"
    if "key \<notin> fst ` set base"
  proof (rule yields_alloc)
    fix x
    have "amqp_table_get_entry_by_key base key = None" using that by (simp add: get_entry_None)
    moreover have "amqp_table_get_entry_by_key (base @ [(key, FV_Table a)]) key = Some (length base)"
      using that by (induction base) auto
    ultimately show "yields (?loop x) (Inl Memory_fault)"
      by (simp add: merge_entry_def p_bind_def [abs_def] p_return_def p_fail_def yields_def)
  qed (use assms(2) in \<open>simp_all add: sizeof_table_entry_def\<close>)
  from yieldsD [OF this assms(1), of "init_amqp_pool 4096"]
  have "key \<notin> fst ` set base \<Longrightarrow>
      fst (amqp_merge_capabilities base (Some [(key, FV_Table a), (key, FV_Table b)]) (p, h)) = Inl Memory_fault"
    by (auto simp: amqp_merge_capabilities_def merge_tables.simps)
  moreover have "fst (amqp_merge_capabilities [] (Some []) (p, h)) = Inl (Status AMQP_STATUS_NO_MEMORY)"
    by (simp add: amqp_merge_capabilities_def merge_tables.simps p_bind_def p_alloc_def amqp_pool_alloc_def sz_mul_def)
  ultimately show ?thesis by simp
qed

theorem merge_capabilities_faults_witness:
  "fst (amqp_merge_capabilities [] (Some [([1], FV_Table []), ([1], FV_Table [])])
      (init_amqp_pool 0, \<lparr>h_grants = \<lambda>_ _. True, h_count = 0, h_live = [], h_size = \<lambda>_. 0, h_stray = []\<rparr>)) = Inl Memory_fault"
  using merge_capabilities_faults [of "\<lparr>h_grants = \<lambda>_ _. True, h_count = 0, h_live = [], h_size = \<lambda>_. 0, h_stray = []\<rparr>" "[]" "[1]"]
  by (simp add: heap_ok_def)

end
