(* ===== verification/Amqp_Socket.thy ===== *)
theory Amqp_Socket
  imports Amqp_Input Amqp_World Amqp_Table_Ops
begin

text \<open>
  Sending and receiving frames on a connection: the second half of \<^verbatim>\<open>amqp_connection.c\<close> and the
  first of \<^verbatim>\<open>amqp_socket.c\<close>. The whole connection is a record around the input machine of
  \<open>Amqp_Connection\<close>; the operating system of \<open>Amqp_World\<close> is its last field.

  A C return value is the \<^verbatim>\<open>int\<close> it is, status codes included; \<open>Inl\<close> is left for runs that crash,
  abort or are still waiting. The bytes in \<^verbatim>\<open>sock_inbound_buffer\<close> up to \<^verbatim>\<open>sock_inbound_limit\<close> are the
  list of that name. A linked list of frames is the list of the frames, in order. The bytes behind
  \<^verbatim>\<open>outbound_buffer.bytes\<close> are the list \<open>outbound_buffer\<close>, and \<open>outbound_len\<close> is the field \<^verbatim>\<open>len\<close>: the two
  part when \<^verbatim>\<open>amqp_tune_connection\<close> fails half-way, and a frame written then has undefined behaviour.

  The loops of the code have no bound of their own. Here each round is checked for progress, and
  lemmas show that the check never fails: on the results of system calls that are left, or on the
  bytes in the buffer.
\<close>

section \<open>The connection\<close>

datatype amqp_response_type_enum =
    AMQP_RESPONSE_NONE
  | AMQP_RESPONSE_NORMAL
  | AMQP_RESPONSE_LIBRARY_EXCEPTION
  | AMQP_RESPONSE_SERVER_EXCEPTION

record amqp_rpc_reply =
  reply_type :: amqp_response_type_enum
  reply :: "(u32 \<times> amqp_method_struct) option"
  library_error :: int

record amqp_state =
  state_block :: nat
  inp :: amqp_connection
  heartbeat :: int
  next_recv_heartbeat :: amqp_time
  next_send_heartbeat :: amqp_time
  outbound_buffer :: amqp_bytes
  outbound_block :: "nat option"
  outbound_len :: nat
  socket :: "tcp_socket option"
  sock_inbound_buffer :: amqp_bytes
  sock_inbound_block :: "nat option"
  sock_inbound_offset :: nat
  queued_frames :: "amqp_frame list"
  most_recent_api_result :: amqp_rpc_reply
  server_properties :: amqp_table
  client_properties :: amqp_table
  properties_pool :: amqp_pool
  handshake_timeout :: "timeval option"
  os :: world

type_synonym 'a io = "amqp_state \<Rightarrow> 'a outcome \<times> amqp_state"

definition AMQP_INITIAL_INBOUND_SOCK_BUFFER_SIZE :: nat where "AMQP_INITIAL_INBOUND_SOCK_BUFFER_SIZE = 131072"
definition sizeof_link :: nat where "sizeof_link = 16"
definition sizeof_frame :: nat where "sizeof_frame = 48"

text \<open>\<^verbatim>\<open>AMQP_STATUS_OK\<close> as a return value.\<close>

abbreviation (input) OK :: int where "OK \<equiv> 0"
abbreviation code :: "amqp_status_enum \<Rightarrow> int" where "code \<equiv> status_code"

text \<open>
  The negative return value of a function whose model returns a fault. \<^verbatim>\<open>AMQP_STATUS_OK\<close> is no failure and
  no function fails with it; the case is closed off.
\<close>

definition return_code :: "int outcome \<Rightarrow> int outcome" where
  "return_code r =
    (case r of
       Inl (Status s) \<Rightarrow> if s = AMQP_STATUS_OK then Inl Aborted else Inr (code s)
     | _ \<Rightarrow> r)"

text \<open>Progress of a loop: a system call returned, or bytes left the buffer.\<close>

definition bytes_left :: "amqp_state \<Rightarrow> nat" where
  "bytes_left st = length (sock_inbound_buffer st) - sock_inbound_offset st"

definition advances :: "amqp_state \<Rightarrow> amqp_state \<Rightarrow> bool" where
  "advances st st' \<longleftrightarrow> calls_left (os st') < calls_left (os st)
     \<or> calls_left (os st') = calls_left (os st) \<and> bytes_left st' < bytes_left st"

section \<open>amqp\_socket.c: the socket\<close>

definition amqp_get_sockfd :: "amqp_state \<Rightarrow> int" where
  "amqp_get_sockfd st = (case socket st of None \<Rightarrow> -1 | Some s \<Rightarrow> sockfd s)"

definition amqp_socket_send :: "amqp_bytes \<Rightarrow> int io" where
  "amqp_socket_send buf st =
    (case socket st of
       None \<Rightarrow> (Inl Aborted, st)
     | Some s \<Rightarrow>
         (case amqp_tcp_socket_send s buf (os st) of
            (Inl e, w) \<Rightarrow> (Inl e, st\<lparr>os := w\<rparr>)
          | (Inr (res, s'), w) \<Rightarrow> (Inr res, st\<lparr>socket := Some s', os := w\<rparr>)))"

definition amqp_socket_recv :: "nat \<Rightarrow> (int \<times> amqp_bytes) io" where
  "amqp_socket_recv len st =
    (case socket st of
       None \<Rightarrow> (Inl Aborted, st)
     | Some s \<Rightarrow>
         (case amqp_tcp_socket_recv s len (os st) of
            (Inl e, w) \<Rightarrow> (Inl e, st\<lparr>os := w\<rparr>)
          | (Inr (res, bs, s'), w) \<Rightarrow> (Inr (res, bs), st\<lparr>socket := Some s', os := w\<rparr>)))"

definition amqp_socket_close :: "int io" where
  "amqp_socket_close st =
    (case socket st of
       None \<Rightarrow> (Inl Aborted, st)
     | Some s \<Rightarrow>
         (case amqp_tcp_socket_close s (os st) of
            (Inl e, w) \<Rightarrow> (Inl e, st\<lparr>os := w\<rparr>)
          | (Inr (res, s'), w) \<Rightarrow> (Inr res, st\<lparr>socket := Some s', os := w\<rparr>)))"

definition poll_fd :: "amqp_time \<Rightarrow> int io" where
  "poll_fd deadline st = (case amqp_poll deadline (os st) of (r, w) \<Rightarrow> (r, st\<lparr>os := w\<rparr>))"

definition do_poll :: "int \<Rightarrow> amqp_time \<Rightarrow> int io" where
  "do_poll res deadline st =
    (if amqp_get_sockfd st = -1 then (Inr (code AMQP_STATUS_SOCKET_CLOSED), st)
     else if res = AMQP_PRIVATE_STATUS_SOCKET_NEEDREAD \<or> res = AMQP_PRIVATE_STATUS_SOCKET_NEEDWRITE
     then poll_fd deadline st
     else (Inr res, st))"

section \<open>amqp\_socket.c: amqp\_try\_send\<close>

text \<open>The loop; \<open>len\<close> is the length of the whole buffer, \<open>buf_left\<close> what is left of it.\<close>

function try_send_loop :: "nat \<Rightarrow> amqp_time \<Rightarrow> amqp_bytes \<Rightarrow> int io" where
  "try_send_loop len deadline buf_left st =
    (case amqp_socket_send buf_left st of
       (Inl e, st1) \<Rightarrow> (Inl e, st1)
     | (Inr res, st1) \<Rightarrow>
         if 0 < res then
           (if drop (nat res) buf_left = [] then (Inr (int len), st1)
            else if advances st st1 then try_send_loop len deadline (drop (nat res) buf_left) st1
            else (Inl Out_of_fuel, st1))
         else
           (case do_poll res deadline st1 of
              (Inl e, st2) \<Rightarrow> (Inl e, st2)
            | (Inr r, st2) \<Rightarrow>
                if r = OK then
                  (if advances st st2 then try_send_loop len deadline buf_left st2 else (Inl Out_of_fuel, st2))
                else if r = code AMQP_STATUS_TIMEOUT then (Inr (int len - int (length buf_left)), st2)
                else (Inr r, st2)))"
  by pat_completeness auto
termination
  by (relation "inv_image (less_than <*lex*> less_than) (\<lambda>(n, d, b, st). (calls_left (os st), bytes_left st))")
    (auto simp: advances_def)

definition amqp_try_send :: "amqp_bytes \<Rightarrow> amqp_time \<Rightarrow> int io" where
  "amqp_try_send buf deadline = try_send_loop (length buf) deadline buf"

section \<open>amqp\_socket.c: receiving\<close>

definition amqp_heartbeat_send :: "amqp_state \<Rightarrow> int" where
  "amqp_heartbeat_send st = heartbeat st"

definition amqp_heartbeat_recv :: "amqp_state \<Rightarrow> int" where
  "amqp_heartbeat_recv st = 2 * heartbeat st"

text \<open>
  \<^verbatim>\<open>amqp_time_s_from_now\<close> on one of the two deadlines of the connection. On an overflow the code has overwritten the deadline
  with the sum that wrapped around before it reports the error; here the deadline keeps its value.
\<close>

definition arm_recv_heartbeat :: "int io" where
  "arm_recv_heartbeat st =
    (case read_clock (os st) of
       (now, w) \<Rightarrow>
         (case amqp_time_s_from_now now (amqp_heartbeat_recv st) of
            Inl e \<Rightarrow> (return_code (Inl e), st\<lparr>os := w\<rparr>)
          | Inr t \<Rightarrow> (Inr OK, st\<lparr>os := w, next_recv_heartbeat := t\<rparr>)))"

definition arm_send_heartbeat :: "int io" where
  "arm_send_heartbeat st =
    (case read_clock (os st) of
       (now, w) \<Rightarrow>
         (case amqp_time_s_from_now now (amqp_heartbeat_send st) of
            Inl e \<Rightarrow> (return_code (Inl e), st\<lparr>os := w\<rparr>)
          | Inr t \<Rightarrow> (Inr OK, st\<lparr>os := w, next_send_heartbeat := t\<rparr>)))"

function recv_with_timeout :: "amqp_time \<Rightarrow> int io" where
  "recv_with_timeout timeout st =
    (case amqp_socket_recv AMQP_INITIAL_INBOUND_SOCK_BUFFER_SIZE st of
       (Inl e, st1) \<Rightarrow> (Inl e, st1)
     | (Inr (res, bs), st1) \<Rightarrow>
         if res < 0 then
           (if amqp_get_sockfd st1 = -1 then (Inr (code AMQP_STATUS_CONNECTION_CLOSED), st1)
            else if res = AMQP_PRIVATE_STATUS_SOCKET_NEEDREAD \<or> res = AMQP_PRIVATE_STATUS_SOCKET_NEEDWRITE then
              (case poll_fd timeout st1 of
                 (Inl e, st2) \<Rightarrow> (Inl e, st2)
               | (Inr r, st2) \<Rightarrow>
                   if r = OK then (if advances st st2 then recv_with_timeout timeout st2 else (Inl Out_of_fuel, st2))
                   else (Inr r, st2))
            else (Inr res, st1))
         else arm_recv_heartbeat (st1\<lparr>sock_inbound_buffer := bs, sock_inbound_offset := 0\<rparr>))"
  by pat_completeness auto
termination
  by (relation "inv_image (less_than <*lex*> less_than) (\<lambda>(d, st). (calls_left (os st), bytes_left st))")
    (auto simp: advances_def)

definition amqp_data_in_buffer :: "amqp_state \<Rightarrow> bool" where
  "amqp_data_in_buffer st \<longleftrightarrow> sock_inbound_offset st < length (sock_inbound_buffer st)"

definition consume_one_frame :: "(int \<times> amqp_frame) io" where
  "consume_one_frame st =
    (case amqp_handle_input (inp st) (drop (sock_inbound_offset st) (sock_inbound_buffer st)) of
       (r, f, c) \<Rightarrow>
         (case return_code r of
            Inl e \<Rightarrow> (Inl e, st\<lparr>inp := c\<rparr>)
          | Inr res \<Rightarrow>
              if res < 0 then (Inr (res, f), st\<lparr>inp := c\<rparr>)
              else (Inr (OK, f), st\<lparr>inp := c, sock_inbound_offset := sock_inbound_offset st + nat res\<rparr>)))"

declare try_send_loop.simps [simp del] recv_with_timeout.simps [simp del]

section \<open>The queue of frames\<close>

text \<open>Two allocations in the pool of the frame's channel; both are tried.\<close>

definition alloc_link :: "nat \<Rightarrow> nat \<Rightarrow> amqp_frame \<Rightarrow> amqp_state \<Rightarrow> bool \<times> amqp_state" where
  "alloc_link n m frame st =
    (case amqp_get_or_create_channel_pool (inp st) (frame_channel frame) of
       (None, c) \<Rightarrow> (False, st\<lparr>inp := c\<rparr>)
     | (Some pool, c) \<Rightarrow>
         (case amqp_pool_alloc pool n (c_heap c) of
            (a, p1, h1) \<Rightarrow>
              (case amqp_pool_alloc p1 m h1 of
                 (b, p2, h2) \<Rightarrow>
                   (a \<noteq> None \<and> b \<noteq> None,
                    st\<lparr>inp := (put_channel_pool c (frame_channel frame) p2)\<lparr>c_heap := h2\<rparr>\<rparr>))))"

definition amqp_create_link_for_frame :: "amqp_frame \<Rightarrow> amqp_state \<Rightarrow> bool \<times> amqp_state" where
  "amqp_create_link_for_frame frame = alloc_link sizeof_link sizeof_frame frame"

definition amqp_queue_frame :: "amqp_frame \<Rightarrow> int io" where
  "amqp_queue_frame frame st =
    (case amqp_create_link_for_frame frame st of
       (False, st1) \<Rightarrow> (Inr (code AMQP_STATUS_NO_MEMORY), st1)
     | (True, st1) \<Rightarrow> (Inr OK, st1\<lparr>queued_frames := queued_frames st1 @ [frame]\<rparr>))"

definition amqp_put_back_frame :: "amqp_frame \<Rightarrow> int io" where
  "amqp_put_back_frame frame st =
    (case amqp_create_link_for_frame frame st of
       (False, st1) \<Rightarrow> (Inr (code AMQP_STATUS_NO_MEMORY), st1)
     | (True, st1) \<Rightarrow> (Inr OK, st1\<lparr>queued_frames := frame # queued_frames st1\<rparr>))"

text \<open>Keeping a frame for later, in \<^verbatim>\<open>amqp_try_recv\<close> and \<^verbatim>\<open>simple_rpc_inner\<close>.\<close>

definition store_frame :: "amqp_frame \<Rightarrow> int io" where
  "store_frame frame st =
    (case alloc_link sizeof_frame sizeof_link frame st of
       (False, st1) \<Rightarrow> (Inr (code AMQP_STATUS_NO_MEMORY), st1)
     | (True, st1) \<Rightarrow> (Inr OK, st1\<lparr>queued_frames := queued_frames st1 @ [frame]\<rparr>))"

definition amqp_frames_enqueued :: "amqp_state \<Rightarrow> bool" where
  "amqp_frames_enqueued st \<longleftrightarrow> queued_frames st \<noteq> []"

section \<open>amqp\_connection.c: releasing buffers\<close>

definition amqp_maybe_release_buffers_on_channel :: "u16 \<Rightarrow> amqp_state \<Rightarrow> amqp_state" where
  "amqp_maybe_release_buffers_on_channel channel st =
    (if conn_state (inp st) \<noteq> CONNECTION_STATE_IDLE then st
     else if list_ex (\<lambda>f. frame_channel f = channel) (queued_frames st) then st
     else
       (case amqp_get_channel_pool (inp st) channel of
          None \<Rightarrow> st
        | Some pool \<Rightarrow>
            (case recycle_amqp_pool pool (c_heap (inp st)) of
               (pool', h) \<Rightarrow> st\<lparr>inp := (put_channel_pool (inp st) channel pool')\<lparr>c_heap := h\<rparr>\<rparr>)))"

definition channels_with_pool :: "amqp_connection \<Rightarrow> u16 list" where
  "channels_with_pool c = concat (map (\<lambda>i. map fst (pool_table c i)) [0..<POOL_TABLE_SIZE])"

definition amqp_release_buffers :: "unit io" where
  "amqp_release_buffers st =
    (if conn_state (inp st) \<noteq> CONNECTION_STATE_IDLE then (Inl Aborted, st)
     else (Inr (), fold amqp_maybe_release_buffers_on_channel (channels_with_pool (inp st)) st))"

definition amqp_release_buffers_ok :: "amqp_state \<Rightarrow> bool" where
  "amqp_release_buffers_ok st \<longleftrightarrow> conn_state (inp st) = CONNECTION_STATE_IDLE"

definition amqp_maybe_release_buffers :: "unit io" where
  "amqp_maybe_release_buffers st =
    (if amqp_release_buffers_ok st then amqp_release_buffers st else (Inr (), st))"

end
