(* ===== verification/Amqp_Transfer.thy ===== *)
theory Amqp_Transfer
  imports Amqp_Socket
begin

text \<open>
  What the transfer of bytes does to a connection: \<^verbatim>\<open>amqp_try_send\<close> hands a prefix of its buffer to the
  system and says how long it is, \<^verbatim>\<open>recv_with_timeout\<close> changes nothing but the receive buffer and the
  deadline of the next heartbeat. Each round of their loops uses up a result of a system call, so that
  the checks for progress never fail.
\<close>

section \<open>Sending\<close>

lemma send_loop_result:
  "send_loop buf rs = (r, rs') \<Longrightarrow>
   (r = Inl Blocked) \<or>
   (length rs' < length rs \<and> (\<exists>err.
      (\<exists>n. n \<le> length buf \<and> r = Inr (int n, err))
      \<or> r = Inr (AMQP_PRIVATE_STATUS_SOCKET_NEEDWRITE, err) \<or> r = Inr (code AMQP_STATUS_SOCKET_ERROR, err)))"
  by (induction buf rs rule: send_loop.induct) (auto intro: less_SucI)

text \<open>The connection without the socket and the system.\<close>

definition others :: "amqp_state \<Rightarrow> amqp_state" where
  "others st = st\<lparr>socket := None, os := \<lparr>w_recv = [], w_send = [], w_poll = [], w_close = [],
     w_clock = (\<lambda>_. 0), w_ticks = 0, w_sent = []\<rparr>\<rparr>"

definition same_input :: "amqp_state \<Rightarrow> amqp_state \<Rightarrow> bool" where
  "same_input st st' \<longleftrightarrow> others st' = others st \<and> w_recv (os st') = w_recv (os st)
     \<and> amqp_get_sockfd st' = amqp_get_sockfd st"

lemma others_updates [simp]: "others (st\<lparr>socket := s\<rparr>) = others st" "others (st\<lparr>os := w\<rparr>) = others st"
  by (simp_all add: others_def)

lemma others_get:
  "inp (others st) = inp st" "heartbeat (others st) = heartbeat st" "next_recv_heartbeat (others st) = next_recv_heartbeat st"
  "next_send_heartbeat (others st) = next_send_heartbeat st" "outbound_buffer (others st) = outbound_buffer st"
  "sock_inbound_buffer (others st) = sock_inbound_buffer st" "sock_inbound_offset (others st) = sock_inbound_offset st"
  "queued_frames (others st) = queued_frames st" "outbound_len (others st) = outbound_len st" "bytes_left (others st) = bytes_left st"
  by (simp_all add: others_def bytes_left_def)

lemma others_fields:
  assumes "others st' = others st"
  shows "inp st' = inp st" "heartbeat st' = heartbeat st" "next_recv_heartbeat st' = next_recv_heartbeat st"
    "next_send_heartbeat st' = next_send_heartbeat st" "outbound_buffer st' = outbound_buffer st"
    "sock_inbound_buffer st' = sock_inbound_buffer st" "sock_inbound_offset st' = sock_inbound_offset st"
    "queued_frames st' = queued_frames st" "outbound_len st' = outbound_len st" "bytes_left st' = bytes_left st"
  using others_get [of st] others_get [of st'] assms by simp_all

lemma same_input_refl [simp]: "same_input st st" by (simp add: same_input_def)

lemma same_input_trans: "same_input st1 st2 \<Longrightarrow> same_input st2 st3 \<Longrightarrow> same_input st1 st3"
  by (simp add: same_input_def)

lemma socket_send_result:
  assumes "amqp_socket_send buf st = (r, st')"
  shows "calls_left (os st') \<le> calls_left (os st) \<and> same_input st st' \<and>
    (case r of Inl e \<Rightarrow> e \<in> {Aborted, Blocked} \<and> w_sent (os st') = w_sent (os st)
     | Inr res \<Rightarrow>
         (0 \<le> res \<longrightarrow> res \<le> int (length buf)) \<and> (res \<noteq> code AMQP_STATUS_SOCKET_CLOSED \<longrightarrow> calls_left (os st') < calls_left (os st))
         \<and> w_sent (os st') = w_sent (os st) @ take (nat res) buf)"
proof (cases "socket st")
  case None
  with assms show ?thesis by (auto simp: amqp_socket_send_def)
next
  case (Some s)
  show ?thesis
  proof (cases "sockfd s = -1")
    case True
    with Some assms show ?thesis by (auto simp: amqp_socket_send_def amqp_tcp_socket_send_def status_values amqp_get_sockfd_def same_input_def)
  next
    case False
    obtain x rs where l: "send_loop buf (w_send (os st)) = (x, rs)" by fastforce
    note f = send_loop_result [OF l] send_loop_shorter [OF l]
    show ?thesis
      using f assms Some False
      by (auto simp: amqp_socket_send_def amqp_tcp_socket_send_def l same_input_def calls_left_def amqp_get_sockfd_def status_values split: sum.splits prod.splits)
  qed
qed

lemma poll_loop_result:
  "poll_loop deadline clock k rs = (r, k', rs') \<Longrightarrow>
   length rs' \<le> length rs \<and> (\<forall>v. r = Inr v \<longrightarrow> v \<le> 0) \<and> (r = Inl Blocked \<or> (\<exists>v. r = Inr v))"
proof (induction deadline clock k rs rule: poll_loop.induct)
  case (2 deadline clock k x rs)
  then show ?case by (auto simp: status_values Let_def split: if_splits sys_poll.splits errno.splits intro: le_SucI)
qed (auto simp: Let_def split: if_splits)

lemma poll_fd_result:
  assumes "poll_fd deadline st = (r, st')"
  shows "calls_left (os st') \<le> calls_left (os st) \<and> same_input st st' \<and> w_sent (os st') = w_sent (os st)
    \<and> w_send (os st') = w_send (os st) \<and> (r = Inl Blocked \<or> (\<exists>v \<le> 0. r = Inr v))"
  using assms poll_loop_result [of deadline "w_clock (os st)" "w_ticks (os st)" "w_poll (os st)"]
  by (auto simp: poll_fd_def amqp_poll_def calls_left_def same_input_def amqp_get_sockfd_def split: prod.splits)

lemma do_poll_result:
  assumes "do_poll res deadline st = (r, st')" "res \<le> 0"
  shows "calls_left (os st') \<le> calls_left (os st) \<and> same_input st st' \<and> w_sent (os st') = w_sent (os st)
    \<and> (r = Inl Blocked \<or> (\<exists>v \<le> 0. r = Inr v \<and> (res = code AMQP_STATUS_SOCKET_CLOSED \<longrightarrow> v = res)))"
  using assms poll_fd_result [of deadline st r st']
  by (auto simp: do_poll_def status_values split: if_splits)

lemma try_send_step:
  assumes "try_send_loop len deadline b st = (r, st')" "length b \<le> len"
  obtains (stop) e where "r = Inl e" "e \<in> {Aborted, Blocked}"
  | (all) "amqp_socket_send b st = (Inr (int (length b)), st')" "r = Inr (int len)"
  | (more) st1 n where "amqp_socket_send b st = (Inr (int n), st1)" "0 < n" "n < length b" 
      "try_send_loop len deadline (drop n b) st1 = (r, st')" 
  | (again) st1 v st2 where "amqp_socket_send b st = (Inr v, st1)" "v \<le> 0" "do_poll v deadline st1 = (Inr OK, st2)"
      "try_send_loop len deadline b st2 = (r, st')"
  | (timeout) st1 v where "amqp_socket_send b st = (Inr v, st1)" "v \<le> 0" "r = Inr (int len - int (length b))"
      "do_poll v deadline st1 = (Inr (code AMQP_STATUS_TIMEOUT), st')"
  | (error) st1 v w where "amqp_socket_send b st = (Inr v, st1)" "v \<le> 0" "r = Inr w" "w < 0"
      "do_poll v deadline st1 = (Inr w, st')"
proof -
  note d = assms(1) [unfolded try_send_loop.simps [of len deadline b st]]
  obtain x st1 where s: "amqp_socket_send b st = (x, st1)" by fastforce
  note f = socket_send_result [OF s]
  show thesis
  proof (cases x)
    case (Inl e)
    with s d f stop show ?thesis by auto
  next
    case (Inr v)
    show ?thesis
    proof (cases "0 < v")
      case True
      with f Inr have v: "v = int (nat v)" "nat v \<le> length b" "calls_left (os st1) < calls_left (os st)"
        by (auto simp: status_values)
      then have "advances st st1" by (simp add: advances_def)
      with d s Inr True v show ?thesis
        by (cases "nat v = length b") (auto intro: more [of "nat v" st1] all)
    next
      case False
      obtain y st2 where p: "do_poll v deadline st1 = (y, st2)" by fastforce
      note g = do_poll_result [OF p] 
      have "advances st st2" if "y = Inr OK"
        using f g that Inr False by (auto simp: advances_def status_values)
      then show ?thesis
        using d s Inr False p g stop again [of v st1 st2] timeout [of v st1] error [of v st1]
        by (cases y) (auto split: if_splits)
    qed
  qed
qed

definition sent_prefix :: "amqp_bytes \<Rightarrow> nat \<Rightarrow> amqp_state \<Rightarrow> amqp_state \<Rightarrow> bool" where
  "sent_prefix b k st st' \<longleftrightarrow> k \<le> length b \<and> w_sent (os st') = w_sent (os st) @ take k b
     \<and> calls_left (os st') \<le> calls_left (os st) \<and> same_input st st'"

lemma sent_prefix_more:
  assumes "amqp_socket_send b st = (Inr (int n), st1)" "n < length b" "sent_prefix (drop n b) k st1 st'"
  shows "sent_prefix b (n + k) st st'"
  using assms socket_send_result [OF assms(1)]
  by (auto simp: sent_prefix_def take_add intro: same_input_trans)

lemma sent_prefix_poll:
  assumes "amqp_socket_send b st = (Inr v, st1)" "v \<le> 0" "do_poll v deadline st1 = (y, st2)"
  shows "sent_prefix b 0 st st2"
  using socket_send_result [OF assms(1)] do_poll_result [OF assms(3,2)] assms(2)
  by (auto simp: sent_prefix_def intro: same_input_trans)

lemma sent_prefix_trans: "sent_prefix b 0 st st1 \<Longrightarrow> sent_prefix b k st1 st2 \<Longrightarrow> sent_prefix b k st st2"
  by (auto simp: sent_prefix_def intro: same_input_trans)

lemma sent_again_calls:
  assumes "amqp_socket_send b st = (Inr v, st1)" "v \<le> 0" "do_poll v deadline st1 = (Inr OK, st2)"
  shows "calls_left (os st2) < calls_left (os st)"
  using socket_send_result [OF assms(1)] do_poll_result [OF assms(3,2)] assms(2)
  by (auto simp: status_values)

lemma try_send_loop_result:
  assumes "try_send_loop len deadline b st = (r, st')" "length b \<le> len"
  shows "(\<exists>e. r = Inl e \<and> e \<in> {Aborted, Blocked})
    \<or> (\<exists>k v. sent_prefix b k st st' \<and> r = Inr v \<and> (0 \<le> v \<longrightarrow> v = int len - int (length b) + int k))"
  using assms
proof (induction "calls_left (os st)" arbitrary: b st rule: less_induct)
  case less
  show ?case
    using less.prems
  proof (cases rule: try_send_step)
    case all
    then have "sent_prefix b (length b) st st'"
      using socket_send_result [OF all(1)] by (simp add: sent_prefix_def)
    with all show ?thesis by auto
  next
    case (more st1 n)
    have "calls_left (os st1) < calls_left (os st)" "length (drop n b) \<le> len"
      using socket_send_result [OF more(1)] less.prems(2) by (auto simp: status_values)
    from less.hyps [OF this(1) more(4) this(2)] show ?thesis
    proof (elim disjE exE conjE)
      fix k v
      assume k: "sent_prefix (drop n b) k st1 st'" "r = Inr v" "0 \<le> v \<longrightarrow> v = int len - int (length (drop n b)) + int k"
      from sent_prefix_more [OF more(1,3) k(1)] k(2,3) more(3) show ?thesis
        by (intro disjI2 exI [of _ "n + k"]) auto
    qed auto
  next
    case (again st1 v st2)
    from less.hyps [OF sent_again_calls [OF again(1-3)] again(4) less.prems(2)] show ?thesis
      using sent_prefix_trans [OF sent_prefix_poll [OF again(1-3)], of _ st'] by blast
  next
    case (timeout st1 v)
    with sent_prefix_poll [OF timeout(1,2,4)] show ?thesis by auto
  next
    case (error st1 v w)
    with sent_prefix_poll [OF error(1,2,5)] show ?thesis by auto
  qed simp
qed

lemma amqp_try_send_result:
  assumes "amqp_try_send b deadline st = (r, st')"
  shows "(\<exists>e. r = Inl e \<and> e \<in> {Aborted, Blocked})
    \<or> (\<exists>k v. sent_prefix b k st st' \<and> r = Inr v \<and> (0 \<le> v \<longrightarrow> v = int k))"
  using try_send_loop_result [OF assms [unfolded amqp_try_send_def]] by simp

section \<open>Receiving\<close>

lemma recv_loop_result:
  "recv_loop len rs = (r, rs') \<Longrightarrow>
   (r = Inl Blocked) \<or>
   (length rs' < length rs \<and> (\<exists>v bs err. r = Inr (v, bs, err)
      \<and> (v < 0 \<longrightarrow> v \<in> {AMQP_PRIVATE_STATUS_SOCKET_NEEDREAD, code AMQP_STATUS_SOCKET_ERROR, code AMQP_STATUS_CONNECTION_CLOSED})
      \<and> (0 \<le> v \<longrightarrow> v = int (length bs) \<and> bs \<noteq> [] \<and> length bs \<le> len)))"
  by (induction len rs rule: recv_loop.induct) (auto simp: status_values intro: less_SucI split: if_splits)

lemma socket_recv_result:
  assumes "amqp_socket_recv len st = (r, st')"
  shows "calls_left (os st') \<le> calls_left (os st) \<and> others st' = others st \<and> amqp_get_sockfd st' = amqp_get_sockfd st
    \<and> w_sent (os st') = w_sent (os st) \<and>
    (case r of Inl e \<Rightarrow> e \<in> {Aborted, Blocked}
     | Inr (v, bs) \<Rightarrow>
         (amqp_get_sockfd st \<noteq> -1 \<longrightarrow> calls_left (os st') < calls_left (os st))
         \<and> (amqp_get_sockfd st = -1 \<longrightarrow> v < 0)
         \<and> v \<noteq> code AMQP_STATUS_TIMEOUT \<and> v \<noteq> 0 \<and> (0 \<le> v \<longrightarrow> v = int (length bs) \<and> bs \<noteq> [] \<and> length bs \<le> len))"
proof (cases "socket st")
  case None
  with assms show ?thesis by (auto simp: amqp_socket_recv_def)
next
  case (Some s)
  show ?thesis
  proof (cases "sockfd s = -1")
    case True
    with Some assms show ?thesis
      by (auto simp: amqp_socket_recv_def amqp_tcp_socket_recv_def status_values amqp_get_sockfd_def)
  next
    case False
    obtain x rs where l: "recv_loop len (w_recv (os st)) = (x, rs)" by fastforce
    note f = recv_loop_result [OF l] recv_loop_shorter [OF l]
    show ?thesis
    proof (cases x)
      case (Inl e)
      with f assms Some False show ?thesis
        by (auto simp: amqp_socket_recv_def amqp_tcp_socket_recv_def l calls_left_def amqp_get_sockfd_def)
    next
      case (Inr y)
      obtain v bs err where y: "y = (v, bs, err)" by (metis prod_cases3)
      let ?s = "case err of None \<Rightarrow> s | Some _ \<Rightarrow> s\<lparr>internal_error := err\<rparr>"
      have "r = Inr (v, bs)" and st': "st' = st\<lparr>socket := Some ?s, os := (os st)\<lparr>w_recv := rs\<rparr>\<rparr>"
        using assms Some False by (simp_all add: amqp_socket_recv_def amqp_tcp_socket_recv_def l Inr y)
      moreover have "sockfd ?s = sockfd s" by (simp split: option.split)
      then have "amqp_get_sockfd st' = amqp_get_sockfd st" "amqp_get_sockfd st \<noteq> -1"
        using Some False by (simp_all add: st' amqp_get_sockfd_def)
      moreover have "length rs < length (w_recv (os st))"
        "v < 0 \<longrightarrow> v \<in> {AMQP_PRIVATE_STATUS_SOCKET_NEEDREAD, code AMQP_STATUS_SOCKET_ERROR, code AMQP_STATUS_CONNECTION_CLOSED}"
        "0 \<le> v \<longrightarrow> v = int (length bs) \<and> bs \<noteq> [] \<and> length bs \<le> len"
        using f(1) by (auto simp: Inr y)
      ultimately show ?thesis by (cases "v < 0") (auto simp: calls_left_def status_values)
    qed
  qed
qed

text \<open>What receiving changes: the buffer, the deadline and the system, but not the bytes sent.\<close>

definition received :: "amqp_state \<Rightarrow> amqp_state \<Rightarrow> bool" where
  "received st st' \<longleftrightarrow> inp st' = inp st \<and> heartbeat st' = heartbeat st \<and> outbound_buffer st' = outbound_buffer st
     \<and> outbound_len st' = outbound_len st \<and> queued_frames st' = queued_frames st
     \<and> next_send_heartbeat st' = next_send_heartbeat st \<and> w_sent (os st') = w_sent (os st)
     \<and> amqp_get_sockfd st' = amqp_get_sockfd st"

definition buffer_ok :: "amqp_state \<Rightarrow> bool" where
  "buffer_ok st \<longleftrightarrow> length (sock_inbound_buffer st) \<le> AMQP_INITIAL_INBOUND_SOCK_BUFFER_SIZE"

lemma received_refl [simp]: "received st st" by (simp add: received_def)

lemma received_trans: "received a b \<Longrightarrow> received b c \<Longrightarrow> received a c"
  by (simp add: received_def)

lemma others_received:
  assumes "others st' = others st" "w_sent (os st') = w_sent (os st)" "amqp_get_sockfd st' = amqp_get_sockfd st"
  shows "received st st'"
  using others_fields [OF assms(1)] assms(2,3) by (simp add: received_def)

lemma others_buffer_ok: "others st' = others st \<Longrightarrow> buffer_ok st' = buffer_ok st"
  using others_fields(6) [of st' st] by (simp add: buffer_ok_def)

lemma s_from_now_status: "amqp_time_s_from_now now n = Inl e \<Longrightarrow> e = Status AMQP_STATUS_TIMER_FAILURE \<or> e = Status AMQP_STATUS_INVALID_PARAMETER"
  by (auto simp: amqp_time_s_from_now_def time_after_def Let_def split: if_splits)

lemma arm_recv_result:
  assumes "arm_recv_heartbeat st = (r, st')"
  shows "(\<exists>v. r = Inr v \<and> v \<noteq> code AMQP_STATUS_TIMEOUT) \<and> received st st' \<and> sock_inbound_buffer st' = sock_inbound_buffer st
    \<and> sock_inbound_offset st' = sock_inbound_offset st \<and> calls_left (os st') = calls_left (os st)"
proof (cases "amqp_time_s_from_now (fst (read_clock (os st))) (amqp_heartbeat_recv st)")
  case (Inl e)
  then obtain s where e: "e = Status s" "s \<in> {AMQP_STATUS_TIMER_FAILURE, AMQP_STATUS_INVALID_PARAMETER}"
    using s_from_now_status by blast
  then have "r = Inr (code s)" "st' = st\<lparr>os := snd (read_clock (os st))\<rparr>"
    using assms Inl by (auto simp: arm_recv_heartbeat_def read_clock_def return_code_def)
  with e(2) show ?thesis
    by (auto simp: received_def read_clock_def calls_left_def amqp_get_sockfd_def)
next
  case (Inr t)
  then have "r = Inr OK" "st' = st\<lparr>os := snd (read_clock (os st)), next_recv_heartbeat := t\<rparr>"
    using assms by (auto simp: arm_recv_heartbeat_def read_clock_def)
  then show ?thesis by (simp add: received_def read_clock_def calls_left_def amqp_get_sockfd_def)
qed

lemma recv_with_timeout_result:
  assumes "recv_with_timeout timeout st = (r, st')"
  shows "(\<exists>e. r = Inl e \<and> e \<in> {Aborted, Blocked})
    \<or> (\<exists>v. r = Inr v \<and> received st st' \<and> calls_left (os st') \<le> calls_left (os st) \<and> (buffer_ok st \<longrightarrow> buffer_ok st')
        \<and> (v \<in> {OK, code AMQP_STATUS_TIMEOUT} \<longrightarrow> calls_left (os st') < calls_left (os st)))"
  using assms
proof (induction "calls_left (os st)" arbitrary: st rule: less_induct)
  case less
  obtain x st1 where s: "amqp_socket_recv AMQP_INITIAL_INBOUND_SOCK_BUFFER_SIZE st = (x, st1)" by fastforce
  note f = socket_recv_result [OF s]
  note d = less.prems [unfolded recv_with_timeout.simps [of timeout st] s]
  show ?case
  proof (cases x)
    case (Inl e)
    with d f show ?thesis by auto
  next
    case (Inr y)
    obtain v bs where y: "y = (v, bs)" by fastforce
    note f = f [unfolded Inr y, simplified]
    have r1: "received st st1" "buffer_ok st1 = buffer_ok st"
      using f others_received [of st1 st] others_buffer_ok [of st1 st] by simp_all
    consider (data) "0 \<le> v" | (poll) "v < 0" "amqp_get_sockfd st1 \<noteq> -1"
        "v = AMQP_PRIVATE_STATUS_SOCKET_NEEDREAD \<or> v = AMQP_PRIVATE_STATUS_SOCKET_NEEDWRITE"
      | (error) "v < 0" "r = Inr (code AMQP_STATUS_CONNECTION_CLOSED) \<or> r = Inr v" "st' = st1"
      using d Inr y by (fastforce split: if_splits)
    then show ?thesis
    proof cases
      case data
      with d Inr y have "arm_recv_heartbeat (st1\<lparr>sock_inbound_buffer := bs, sock_inbound_offset := 0\<rparr>) = (r, st')" by simp
      from arm_recv_result [OF this] show ?thesis
        using f r1 data by (auto simp: received_def buffer_ok_def amqp_get_sockfd_def)
    next
      case poll
      obtain z st2 where p: "poll_fd timeout st1 = (z, st2)" by fastforce
      note g = poll_fd_result [OF p]
      have r2: "received st st2" "buffer_ok st2 = buffer_ok st"
        using r1 g others_received [of st2 st1] others_buffer_ok [of st2 st1] received_trans [of st st1 st2]
        by (simp_all add: same_input_def)
      have less2: "calls_left (os st2) < calls_left (os st)" using f g poll(2) by auto
      then have "advances st st2" by (simp add: advances_def)
      have d: "(case z of Inl e \<Rightarrow> (Inl e, st2)
          | Inr r \<Rightarrow> if r = OK then if advances st st2 then recv_with_timeout timeout st2 else (Inl Out_of_fuel, st2)
             else (Inr r, st2)) = (r, st')"
        using d poll by (simp add: Inr y p)
      show ?thesis
      proof (cases "z = Inr OK")
        case True
        with d \<open>advances st st2\<close> have "recv_with_timeout timeout st2 = (r, st')" by simp
        from less.hyps [OF less2 this] show ?thesis
          using r2 less2 received_trans [OF r2(1)] by fastforce
      next
        case False
        with d g r2 less2 show ?thesis by auto
      qed
    next
      case error
      with f r1 show ?thesis by (auto simp: status_values)
    qed
  qed
qed

end
