(* ===== verification/Amqp_Wait.thy ===== *)
theory Amqp_Wait
  imports Amqp_Transfer
begin

text \<open>
  Exchanging frames with the broker: \<^verbatim>\<open>amqp_send_frame\<close> of \<^verbatim>\<open>amqp_connection.c\<close>, and
  \<^verbatim>\<open>amqp_try_recv\<close>, \<^verbatim>\<open>wait_frame_inner\<close> and the functions around it of \<^verbatim>\<open>amqp_socket.c\<close>.
\<close>

section \<open>amqp\_socket.c: amqp\_try\_recv\<close>

text \<open>The loop that moves the frames in the buffer to the queue; it returns \<open>OK\<close> when the buffer is empty.\<close>

function drain_buffer :: "int io" where
  "drain_buffer st =
    (if amqp_data_in_buffer st then
       (case consume_one_frame st of
          (Inl e, st1) \<Rightarrow> (Inl e, st1)
        | (Inr (res, frame), st1) \<Rightarrow>
            if res \<noteq> OK then (Inr res, st1)
            else if frame_type frame \<noteq> 0 then
              (case store_frame frame st1 of
                 (Inl e, st2) \<Rightarrow> (Inl e, st2)
               | (Inr res2, st2) \<Rightarrow>
                   if res2 \<noteq> OK then (Inr res2, st2)
                   else if advances st st2 then drain_buffer st2 else (Inl Out_of_fuel, st2))
            else if advances st st1 then drain_buffer st1 else (Inl Out_of_fuel, st1))
     else (Inr OK, st))"
  by pat_completeness auto
termination
  by (relation "inv_image (less_than <*lex*> less_than) (\<lambda>st. (calls_left (os st), bytes_left st))")
    (auto simp: advances_def)

definition amqp_try_recv :: "int io" where
  "amqp_try_recv st =
    (case drain_buffer st of
       (Inl e, st1) \<Rightarrow> (Inl e, st1)
     | (Inr res, st1) \<Rightarrow> if res \<noteq> OK then (Inr res, st1) else recv_with_timeout amqp_time_immediate st1)"

declare drain_buffer.simps [simp del]

section \<open>amqp\_connection.c: amqp\_send\_frame\<close>

text \<open>
  \<^verbatim>\<open>encoded\<close> points into \<^verbatim>\<open>outbound_buffer\<close>, which nothing else writes while the frame is being sent.
  What an encoder that fails leaves in the buffer is not kept: the next frame overwrites it.
\<close>

function send_encoded :: "amqp_time \<Rightarrow> amqp_bytes \<Rightarrow> int io" where
  "send_encoded deadline encoded st =
    (let next_timeout = amqp_time_first deadline (next_recv_heartbeat st)
     in case amqp_try_send encoded next_timeout st of
          (Inl e, st1) \<Rightarrow> (Inl e, st1)
        | (Inr sent, st1) \<Rightarrow>
            if sent < 0 then (Inr sent, st1)
            else if int (length encoded) \<noteq> sent then
              (if amqp_time_equal next_timeout deadline then (Inr (code AMQP_STATUS_TIMEOUT), st1)
               else
                 (case amqp_try_recv st1 of
                    (Inl e, st2) \<Rightarrow> (Inl e, st2)
                  | (Inr res, st2) \<Rightarrow>
                      if res = code AMQP_STATUS_TIMEOUT then (Inr (code AMQP_STATUS_HEARTBEAT_TIMEOUT), st2)
                      else if res \<noteq> OK then (Inr res, st2)
                      else if advances st st2 then send_encoded deadline (drop (nat sent) encoded) st2
                      else (Inl Out_of_fuel, st2)))
            else arm_send_heartbeat st1)"
  by pat_completeness auto
termination
  by (relation "inv_image (less_than <*lex*> less_than) (\<lambda>(d, b, st). (calls_left (os st), bytes_left st))")
    (auto simp: advances_def)

declare send_encoded.simps [simp del]

definition amqp_send_frame_inner :: "amqp_frame \<Rightarrow> amqp_time \<Rightarrow> int io" where
  "amqp_send_frame_inner frame deadline st =
    (if length (outbound_buffer st) \<noteq> outbound_len st then (Inl Undefined_behaviour, st)
     else
       (case amqp_frame_to_bytes frame (outbound_buffer st) of
          Inl e \<Rightarrow> (return_code (Inl e), st)
        | Inr (buf, n) \<Rightarrow> send_encoded deadline (take n buf) (st\<lparr>outbound_buffer := buf\<rparr>)))"

definition amqp_send_frame :: "amqp_frame \<Rightarrow> int io" where
  "amqp_send_frame frame = amqp_send_frame_inner frame amqp_time_infinite"

section \<open>amqp\_socket.c: wait\_frame\_inner\<close>

text \<open>A heartbeat is sent when it is due.\<close>

definition heartbeat_frame :: amqp_frame where
  "heartbeat_frame = \<lparr>frame_type = FRAME_HEARTBEAT, frame_channel = 0, frame_payload = No_payload\<rparr>"

definition send_due_heartbeat :: "int io" where
  "send_due_heartbeat st =
    (case read_clock (os st) of
       (now, w) \<Rightarrow>
         (case amqp_time_has_past now (next_send_heartbeat st) of
            AMQP_STATUS_TIMER_FAILURE \<Rightarrow> (Inr (code AMQP_STATUS_TIMER_FAILURE), st\<lparr>os := w\<rparr>)
          | AMQP_STATUS_TIMEOUT \<Rightarrow> amqp_send_frame heartbeat_frame (st\<lparr>os := w\<rparr>)
          | _ \<Rightarrow> (Inr OK, st\<lparr>os := w\<rparr>)))"

text \<open>
  The part of the loop from the label \<^verbatim>\<open>beginrecv\<close> on: it returns from the function, goes back to the
  start of the loop, or to the label.
\<close>

datatype wait_next = Wait_return int | Wait_again | Wait_beginrecv

definition wait_deadline :: "amqp_time \<Rightarrow> amqp_state \<Rightarrow> amqp_time" where
  "wait_deadline timeout_deadline st =
    amqp_time_first timeout_deadline (amqp_time_first (next_recv_heartbeat st) (next_send_heartbeat st))"

definition wait_timed_out :: "amqp_time \<Rightarrow> amqp_time \<Rightarrow> wait_next io" where
  "wait_timed_out deadline timeout_deadline st =
    (if amqp_time_equal deadline (next_recv_heartbeat st) then
       (case amqp_socket_close st of
          (Inl e, st1) \<Rightarrow> (Inl e, st1)
        | (Inr _, st1) \<Rightarrow> (Inr (Wait_return (code AMQP_STATUS_HEARTBEAT_TIMEOUT)), st1))
     else if amqp_time_equal deadline timeout_deadline then (Inr (Wait_return (code AMQP_STATUS_TIMEOUT)), st)
     else if amqp_time_equal deadline (next_send_heartbeat st) then (Inr Wait_beginrecv, st)
     else (Inl Aborted, st))"

definition wait_recv :: "amqp_time \<Rightarrow> wait_next io" where
  "wait_recv timeout_deadline st =
    (case send_due_heartbeat st of
       (Inl e, st1) \<Rightarrow> (Inl e, st1)
     | (Inr res, st1) \<Rightarrow>
         if res \<noteq> OK then (Inr (Wait_return res), st1)
         else
           (let deadline = wait_deadline timeout_deadline st1
            in case recv_with_timeout deadline st1 of
                 (Inl e, st2) \<Rightarrow> (Inl e, st2)
               | (Inr res2, st2) \<Rightarrow>
                   if res2 = code AMQP_STATUS_TIMEOUT then wait_timed_out deadline timeout_deadline st2
                   else if res2 \<noteq> OK then (Inr (Wait_return res2), st2)
                   else (Inr Wait_again, st2)))"

function wait_frame_loop :: "bool \<Rightarrow> amqp_time \<Rightarrow> (int \<times> amqp_frame) io" where
  "wait_frame_loop beginrecv timeout_deadline st =
    (if \<not> beginrecv \<and> amqp_data_in_buffer st then
       (case consume_one_frame st of
          (Inl e, st1) \<Rightarrow> (Inl e, st1)
        | (Inr (res, frame), st1) \<Rightarrow>
            if res \<noteq> OK then (Inr (res, frame), st1)
            else if frame_type frame = FRAME_HEARTBEAT then
              (let st2 = amqp_maybe_release_buffers_on_channel 0 st1
               in if advances st st2 then wait_frame_loop False timeout_deadline st2 else (Inl Out_of_fuel, st2))
            else if frame_type frame \<noteq> 0 then (Inr (OK, frame), st1)
            else if advances st st1 then wait_frame_loop False timeout_deadline st1
            else (Inl Out_of_fuel, st1))
     else
       (case wait_recv timeout_deadline st of
          (Inl e, st1) \<Rightarrow> (Inl e, st1)
        | (Inr (Wait_return res), st1) \<Rightarrow> (Inr (res, no_frame), st1)
        | (Inr Wait_again, st1) \<Rightarrow>
            if advances st st1 then wait_frame_loop False timeout_deadline st1 else (Inl Out_of_fuel, st1)
        | (Inr Wait_beginrecv, st1) \<Rightarrow>
            if advances st st1 then wait_frame_loop True timeout_deadline st1 else (Inl Out_of_fuel, st1)))"
  by pat_completeness auto
termination
  by (relation "inv_image (less_than <*lex*> less_than) (\<lambda>(b, d, st). (calls_left (os st), bytes_left st))")
    (auto simp: advances_def)

declare wait_frame_loop.simps [simp del]

definition wait_frame_inner :: "amqp_time \<Rightarrow> (int \<times> amqp_frame) io" where
  "wait_frame_inner timeout_deadline = wait_frame_loop False timeout_deadline"

section \<open>amqp\_socket.c: waiting for a frame\<close>

function wait_on_channel :: "u16 \<Rightarrow> (int \<times> amqp_frame) io" where
  "wait_on_channel channel st =
    (case wait_frame_inner amqp_time_infinite st of
       (Inl e, st1) \<Rightarrow> (Inl e, st1)
     | (Inr (res, frame), st1) \<Rightarrow>
         if res \<noteq> OK then (Inr (res, frame), st1)
         else if channel = frame_channel frame then (Inr (OK, frame), st1)
         else
           (case amqp_queue_frame frame st1 of
              (Inl e, st2) \<Rightarrow> (Inl e, st2)
            | (Inr res2, st2) \<Rightarrow>
                if res2 \<noteq> OK then (Inr (res2, frame), st2)
                else if advances st st2 then wait_on_channel channel st2
                else (Inl Out_of_fuel, st2)))"
  by pat_completeness auto
termination
  by (relation "inv_image (less_than <*lex*> less_than) (\<lambda>(c, st). (calls_left (os st), bytes_left st))")
    (auto simp: advances_def)

declare wait_on_channel.simps [simp del]

text \<open>The list from the first queued frame of the channel on; the frames before it are unlinked.\<close>

definition amqp_simple_wait_frame_on_channel :: "u16 \<Rightarrow> (int \<times> amqp_frame) io" where
  "amqp_simple_wait_frame_on_channel channel st =
    (case dropWhile (\<lambda>f. frame_channel f \<noteq> channel) (queued_frames st) of
       frame # rest \<Rightarrow> (Inr (OK, frame), st\<lparr>queued_frames := rest\<rparr>)
     | [] \<Rightarrow> wait_on_channel channel st)"

definition amqp_simple_wait_frame_noblock :: "timeval option \<Rightarrow> (int \<times> amqp_frame) io" where
  "amqp_simple_wait_frame_noblock timeout st =
    (case read_clock (os st) of
       (now, w) \<Rightarrow>
         (case amqp_time_from_now now timeout of
            Inl (Status s) \<Rightarrow> (Inr (code s, no_frame), st\<lparr>os := w\<rparr>)
          | Inl e \<Rightarrow> (Inl e, st\<lparr>os := w\<rparr>)
          | Inr deadline \<Rightarrow>
              (case queued_frames st of
                 f # rest \<Rightarrow> (Inr (OK, f), st\<lparr>os := w, queued_frames := rest\<rparr>)
               | [] \<Rightarrow> wait_frame_inner deadline (st\<lparr>os := w\<rparr>))))"

definition amqp_simple_wait_frame :: "(int \<times> amqp_frame) io" where
  "amqp_simple_wait_frame = amqp_simple_wait_frame_noblock None"

end
