(* ===== verification/Amqp_Ends.thy ===== *)
theory Amqp_Ends
  imports Amqp_Wait
begin

text \<open>
  The loops of \<open>Amqp_Wait\<close> end: on a connection whose input machine satisfies its invariant no operation
  fails a check for progress, whatever the system calls return and whatever bytes arrive, and the
  connection is in order again when an operation reports success.
\<close>

section \<open>Operations that end\<close>

text \<open>
  A connection in order, and what each operation does to it: it never fails a check for progress, it
  uses up results of system calls, and when it returns a good value the connection is in order again.
\<close>

definition conn_ok :: "amqp_state \<Rightarrow> bool" where
  "conn_ok st \<longleftrightarrow> conn_inv (inp st) \<and> buffer_ok st"

definition ends :: "('a \<Rightarrow> bool) \<Rightarrow> amqp_state \<Rightarrow> 'a outcome \<times> amqp_state \<Rightarrow> bool" where
  "ends good st = (\<lambda>(r, st').
     case r of Inl e \<Rightarrow> e \<noteq> Out_of_fuel
     | Inr v \<Rightarrow> calls_left (os st') \<le> calls_left (os st) \<and> (good v \<longrightarrow> conn_ok st'))"

lemma ends_Inl [simp]: "ends good st (Inl e, st') \<longleftrightarrow> e \<noteq> Out_of_fuel"
  and ends_Inr [simp]: "ends good st (Inr v, st') \<longleftrightarrow> calls_left (os st') \<le> calls_left (os st) \<and> (good v \<longrightarrow> conn_ok st')"
  by (simp_all add: ends_def)

lemma ends_trans: "calls_left (os st1) \<le> calls_left (os st) \<Longrightarrow> ends good st1 x \<Longrightarrow> ends good st x"
  by (auto simp: ends_def split: sum.splits)

lemma conn_inv_pool [simp]: "conn_inv (put_channel_pool c ch p) = conn_inv c" "conn_inv (c\<lparr>c_heap := h\<rparr>) = conn_inv c"
  "conn_inv (c\<lparr>pool_table := t\<rparr>) = conn_inv c"
  by (simp_all add: conn_inv_def put_channel_pool_def split: connection_state_enum.split)

lemma conn_inv_get_pool: "amqp_get_or_create_channel_pool c ch = (p, c') \<Longrightarrow> conn_inv c' = conn_inv c"
  by (auto simp: amqp_get_or_create_channel_pool_def Let_def split: option.splits prod.splits)

lemma others_conn_ok: "others st' = others st \<Longrightarrow> conn_ok st' = conn_ok st"
  using others_fields(1) [of st' st] others_buffer_ok [of st' st] by (simp add: conn_ok_def)

lemma received_conn_ok: "received st st' \<Longrightarrow> buffer_ok st' \<Longrightarrow> conn_ok st \<Longrightarrow> conn_ok st'"
  by (simp add: received_def conn_ok_def)

lemma code_negative: "s \<noteq> AMQP_STATUS_OK \<Longrightarrow> code s < 0"
  using status_code_nonpos [of s] status_code_inj [of s AMQP_STATUS_OK] by fastforce

lemma return_code_Inr: "return_code x = Inr v \<Longrightarrow> x = Inr v \<or> v < 0 \<and> (\<exists>s. x = Inl (Status s) \<and> s \<noteq> AMQP_STATUS_OK)"
  by (auto simp: return_code_def code_negative split: sum.splits fault.splits if_splits)

lemma consume_one_frame_ends:
  assumes "conn_ok st" "amqp_data_in_buffer st" "consume_one_frame st = (r, st')"
  shows "r \<noteq> Inl Out_of_fuel" "os st' = os st" "queued_frames st' = queued_frames st"
    "r = Inr (OK, f) \<Longrightarrow> conn_ok st' \<and> bytes_left st' < bytes_left st"
proof -
  let ?d = "drop (sock_inbound_offset st) (sock_inbound_buffer st)"
  obtain x g c where i: "amqp_handle_input (inp st) ?d = (x, g, c)" by (metis prod_cases3)
  have "length ?d < 2 ^ 31" "?d \<noteq> []" and len: "sock_inbound_offset st < length (sock_inbound_buffer st)"
    using assms(1,2) by (auto simp: conn_ok_def buffer_ok_def amqp_data_in_buffer_def AMQP_INITIAL_INBOUND_SOCK_BUFFER_SIZE_def)
  with handle_input_kept [of "inp st" ?d] assms(1) i have k: "input_kept 1 (tl ?d) (x, g, c)" by (simp add: conn_ok_def)
  note d = assms(3) [unfolded consume_one_frame_def i prod.case]
  show "os st' = os st" "queued_frames st' = queued_frames st" using d by (auto split: sum.splits if_splits)
  show "r \<noteq> Inl Out_of_fuel"
    using d k by (auto simp: return_code_def input_kept_def split: sum.splits fault.splits if_splits)
  assume "r = Inr (OK, f)"
  then obtain v where v: "return_code x = Inr v" "0 \<le> v"
      "st' = st\<lparr>inp := c, sock_inbound_offset := sock_inbound_offset st + nat v\<rparr>"
    using d by (auto simp: not_less split: sum.splits if_splits)
  with return_code_Inr [OF v(1)] k len
  have "conn_inv c \<and> 1 \<le> v \<and> v \<le> int (length ?d)
      \<and> st' = st\<lparr>inp := c, sock_inbound_offset := sock_inbound_offset st + nat v\<rparr>"
    by (auto simp: input_kept_def)
  then show "conn_ok st' \<and> bytes_left st' < bytes_left st"
    using len assms(1) by (auto simp: conn_ok_def buffer_ok_def bytes_left_def)
qed

lemma alloc_link_ends:
  assumes "alloc_link n m frame st = (b, st')"
  shows "conn_ok st' = conn_ok st" "os st' = os st" "bytes_left st' = bytes_left st" "queued_frames st' = queued_frames st"
proof -
  obtain p c where g: "amqp_get_or_create_channel_pool (inp st) (frame_channel frame) = (p, c)" by fastforce
  have "\<exists>c'. st' = st\<lparr>inp := c'\<rparr> \<and> conn_inv c' = conn_inv (inp st)"
  proof (cases p)
    case None
    with assms g conn_inv_get_pool [OF g] show ?thesis by (auto simp: alloc_link_def)
  next
    case (Some pool)
    then show ?thesis
      using assms g conn_inv_get_pool [OF g] by (auto simp: alloc_link_def split: prod.splits)
  qed
  then show "conn_ok st' = conn_ok st" "os st' = os st" "bytes_left st' = bytes_left st" "queued_frames st' = queued_frames st"
    by (auto simp: conn_ok_def buffer_ok_def bytes_left_def)
qed

lemma conn_ok_queue [simp]: "conn_ok (st\<lparr>queued_frames := q\<rparr>) = conn_ok st" "bytes_left (st\<lparr>queued_frames := q\<rparr>) = bytes_left st"
  by (simp_all add: conn_ok_def buffer_ok_def bytes_left_def)

lemma queue_ops_end:
  assumes "(r, st') \<in> {store_frame frame st, amqp_queue_frame frame st, amqp_put_back_frame frame st}"
  shows "(\<exists>v. r = Inr v) \<and> conn_ok st' = conn_ok st \<and> os st' = os st \<and> bytes_left st' = bytes_left st"
proof -
  obtain n m b st1 q where "alloc_link n m frame st = (b, st1)" "r = Inr (if b then OK else code AMQP_STATUS_NO_MEMORY)"
      "st' = (if b then st1\<lparr>queued_frames := q\<rparr> else st1)"
    using assms
    by (auto simp: store_frame_def amqp_queue_frame_def amqp_put_back_frame_def amqp_create_link_for_frame_def
        split: prod.splits bool.splits)
  with alloc_link_ends [OF this(1)] show ?thesis by auto
qed

lemma drain_buffer_ends:
  assumes "conn_ok st" "drain_buffer st = (r, st')"
  shows "ends (\<lambda>v. v = OK) st (r, st')"
  using assms
proof (induction "bytes_left st" arbitrary: st rule: less_induct)
  case less
  note d = less.prems(2) [unfolded drain_buffer.simps [of st]]
  show ?case
  proof (cases "amqp_data_in_buffer st")
    case True
    obtain x st1 where c: "consume_one_frame st = (x, st1)" by fastforce
    note f = consume_one_frame_ends [OF less.prems(1) True c]
    show ?thesis
    proof (cases "\<exists>frame. x = Inr (OK, frame)")
      case False
      with d c True f show ?thesis by (cases x) auto
    next
      case True
      then obtain frame where x: "x = Inr (OK, frame)" by auto
      note g = f(4) [OF x]
      have rec: "ends (\<lambda>v. v = OK) st (r, st')"
        if "conn_ok st2" "os st2 = os st" "bytes_left st2 < bytes_left st" "drain_buffer st2 = (r, st')" for st2
        using ends_trans [OF _ less.hyps [OF that(3,1,4)], of st] that(2) by simp
      obtain y st2 where q: "store_frame frame st1 = (y, st2)" by fastforce
      have h: "(\<exists>v. y = Inr v) \<and> conn_ok st2 = conn_ok st1 \<and> os st2 = os st1 \<and> bytes_left st2 = bytes_left st1"
        by (rule queue_ops_end [of _ _ frame]) (simp add: q)
      show ?thesis
        using d \<open>amqp_data_in_buffer st\<close> rec [of st1] rec [of st2] g f(2) h
        by (auto simp: c x q advances_def split: if_splits)
    qed
  qed (use d less.prems(1) in auto)
qed

lemma amqp_try_recv_ends:
  assumes "conn_ok st" "amqp_try_recv st = (r, st')"
  shows "ends (\<lambda>v. v = OK) st (r, st')" "r = Inr OK \<Longrightarrow> calls_left (os st') < calls_left (os st)"
proof -
  obtain x st1 where c: "drain_buffer st = (x, st1)" by fastforce
  note f = drain_buffer_ends [OF assms(1) c]
  have "ends (\<lambda>v. v = OK) st (r, st') \<and> (r = Inr OK \<longrightarrow> calls_left (os st') < calls_left (os st))"
  proof (cases "x = Inr OK")
    case True
    then have "recv_with_timeout amqp_time_immediate st1 = (r, st')" using assms(2) c by (simp add: amqp_try_recv_def)
    from recv_with_timeout_result [OF this] show ?thesis
      using f True received_conn_ok [of st1 st'] by (auto simp: conn_ok_def)
  next
    case False
    with assms(2) c f show ?thesis by (cases x) (auto simp: amqp_try_recv_def split: if_splits)
  qed
  then show "ends (\<lambda>v. v = OK) st (r, st')" "r = Inr OK \<Longrightarrow> calls_left (os st') < calls_left (os st)" by auto
qed

lemma arm_send_ends:
  assumes "arm_send_heartbeat st = (r, st')"
  shows "(\<exists>v. r = Inr v) \<and> conn_ok st' = conn_ok st \<and> calls_left (os st') = calls_left (os st)"
proof (cases "amqp_time_s_from_now (fst (read_clock (os st))) (amqp_heartbeat_send st)")
  case (Inl e)
  with s_from_now_status [OF this] assms show ?thesis
    by (auto simp: arm_send_heartbeat_def read_clock_def return_code_def calls_left_def conn_ok_def buffer_ok_def)
next
  case (Inr t)
  with assms show ?thesis
    by (auto simp: arm_send_heartbeat_def read_clock_def calls_left_def conn_ok_def buffer_ok_def)
qed

lemma amqp_try_send_ends:
  assumes "amqp_try_send b deadline st = (Inr v, st')"
  shows "conn_ok st' = conn_ok st" "calls_left (os st') \<le> calls_left (os st)"
  using amqp_try_send_result [OF assms] others_conn_ok [of st' st]
  by (auto simp: sent_prefix_def same_input_def)

lemma send_encoded_ends:
  assumes "conn_ok st" "send_encoded deadline b st = (r, st')"
  shows "ends (\<lambda>v. v = OK) st (r, st')"
  using assms
proof (induction "calls_left (os st)" arbitrary: b st rule: less_induct)
  case less
  let ?t = "amqp_time_first deadline (next_recv_heartbeat st)"
  obtain x st1 where t: "amqp_try_send b ?t st = (x, st1)" by fastforce
  note d = less.prems(2) [unfolded send_encoded.simps [of deadline b st] Let_def t prod.case]
  show ?case
  proof (cases x)
    case (Inl e)
    with d amqp_try_send_result [OF t] show ?thesis by auto
  next
    case (Inr v)
    note f = amqp_try_send_ends [OF t [unfolded Inr]]
    obtain y st2 where rc: "amqp_try_recv st1 = (y, st2)" by fastforce
    obtain z st3 where a: "arm_send_heartbeat st1 = (z, st3)" by fastforce
    have c1: "conn_ok st1" using f less.prems(1) by simp
    note g = amqp_try_recv_ends [OF c1 rc]
    have rec: "ends (\<lambda>v. v = OK) st (r, st')" if "y = Inr OK" "send_encoded deadline (drop (nat v) b) st2 = (r, st')"
    proof -
      have "conn_ok st2" "calls_left (os st2) < calls_left (os st)" using that(1) f g by auto
      from ends_trans [OF _ less.hyps [OF this(2,1) that(2)], of st] this show ?thesis by simp
    qed
    have "advances st st2" if "y = Inr OK" using that f g by (auto simp: advances_def)
    with d Inr f g rec arm_send_ends [OF a] c1 show ?thesis
      by (cases y) (auto simp: rc a status_values split: if_splits)
  qed
qed

lemma amqp_send_frame_inner_ends:
  assumes "conn_ok st" "amqp_send_frame_inner frame deadline st = (r, st')"
    and "amqp_frame_to_bytes frame (outbound_buffer st) \<noteq> Inl Out_of_fuel"
  shows "ends (\<lambda>v. v = OK) st (r, st')"
proof (cases "length (outbound_buffer st) \<noteq> outbound_len st")
  case True
  with assms(2) show ?thesis by (auto simp: amqp_send_frame_inner_def)
next
  case False
  show ?thesis
  proof (cases "amqp_frame_to_bytes frame (outbound_buffer st)")
    case (Inl e)
    have "return_code (Inl e) = Inr v \<Longrightarrow> v < 0" for v using return_code_Inr [of "Inl e" v] by auto
    with Inl False assms show ?thesis
      by (cases "return_code (Inl e :: int outcome)") (auto simp: amqp_send_frame_inner_def return_code_def split: fault.splits if_splits)
  next
    case (Inr y)
    obtain buf n where y: "y = (buf, n)" by fastforce
    let ?st = "st\<lparr>outbound_buffer := buf\<rparr>"
    have "conn_ok ?st" using assms(1) by (simp add: conn_ok_def buffer_ok_def)
    moreover have "send_encoded deadline (take n buf) ?st = (r, st')"
      using assms(2) False Inr y by (simp add: amqp_send_frame_inner_def)
    ultimately have "ends (\<lambda>v. v = OK) ?st (r, st')" by (rule send_encoded_ends)
    then show ?thesis by (cases r) auto
  qed
qed

lemma heartbeat_to_bytes: "amqp_frame_to_bytes heartbeat_frame buf \<noteq> Inl Out_of_fuel"
  by (auto simp: amqp_frame_to_bytes_def heartbeat_frame_def frame_body_to_bytes_def split: option.splits)

lemma send_due_heartbeat_ends:
  assumes "conn_ok st" "send_due_heartbeat st = (r, st')"
  shows "ends (\<lambda>v. v = OK) st (r, st')"
proof -
  let ?st = "st\<lparr>os := snd (read_clock (os st))\<rparr>"
  have st: "conn_ok ?st" "calls_left (os ?st) = calls_left (os st)"
    using assms(1) by (simp_all add: conn_ok_def buffer_ok_def read_clock_def calls_left_def)
  have "ends (\<lambda>v. v = OK) st (amqp_send_frame heartbeat_frame ?st)"
    using amqp_send_frame_inner_ends [OF st(1), of heartbeat_frame amqp_time_infinite] heartbeat_to_bytes [of "outbound_buffer ?st"] st(2)
    by (cases "amqp_send_frame heartbeat_frame ?st") (auto simp: amqp_send_frame_def intro: ends_trans [of ?st])
  moreover have "amqp_time_has_past now t \<in> {AMQP_STATUS_TIMER_FAILURE, AMQP_STATUS_TIMEOUT, AMQP_STATUS_OK}" for now t
    by (simp add: amqp_time_has_past_def)
  ultimately show ?thesis
    using assms(2) st
    by (cases "read_clock (os st)")
      (auto simp: send_due_heartbeat_def status_values amqp_time_has_past_def split: if_splits)
qed

lemma socket_close_ends:
  assumes "amqp_socket_close st = (r, st')"
  shows "r = Inl Aborted \<or> (\<exists>v. r = Inr v) \<and> conn_ok st' = conn_ok st \<and> calls_left (os st') = calls_left (os st)"
  using assms
  by (auto simp: amqp_socket_close_def amqp_tcp_socket_close_def conn_ok_def buffer_ok_def calls_left_def
      split: option.splits if_splits list.splits bool.splits)

text \<open>A return value of \<open>wait_recv\<close> is never \<open>OK\<close>.\<close>

definition goes_on :: "wait_next \<Rightarrow> bool" where
  "goes_on n \<longleftrightarrow> (case n of Wait_return v \<Rightarrow> v = OK | _ \<Rightarrow> True)"

lemma goes_on_simps [simp]: "goes_on (Wait_return v) \<longleftrightarrow> v = OK" "goes_on Wait_again" "goes_on Wait_beginrecv"
  by (simp_all add: goes_on_def)

lemma wait_recv_ends:
  assumes "conn_ok st" "wait_recv timeout_deadline st = (r, st')"
  shows "ends goes_on st (r, st')" "r = Inr n \<Longrightarrow> goes_on n \<Longrightarrow> n \<noteq> Wait_return OK \<and> calls_left (os st') < calls_left (os st)"
proof -
  obtain x st1 where h: "send_due_heartbeat st = (x, st1)" by fastforce
  note f = send_due_heartbeat_ends [OF assms(1) h]
  let ?d = "wait_deadline timeout_deadline st1"
  obtain y st2 where rc: "recv_with_timeout ?d st1 = (y, st2)" by fastforce
  note g = recv_with_timeout_result [OF rc]
  obtain z st3 where c: "amqp_socket_close st2 = (z, st3)" by fastforce
  note k = socket_close_ends [OF c]
  have "ends goes_on st (r, st') \<and> (\<forall>n. r = Inr n \<and> goes_on n \<longrightarrow> n \<noteq> Wait_return OK \<and> calls_left (os st') < calls_left (os st))"
  proof (cases "x = Inr OK")
    case True
    have c2: "conn_ok st2" if "y = Inr v" for v
      using g f True that received_conn_ok [of st1 st2] by (auto simp: conn_ok_def)
    from True assms(2) h rc have d: "(case y of Inl e \<Rightarrow> (Inl e, st2) | Inr res2 \<Rightarrow>
        if res2 = code AMQP_STATUS_TIMEOUT then wait_timed_out ?d timeout_deadline st2
        else if res2 \<noteq> OK then (Inr (Wait_return res2), st2) else (Inr Wait_again, st2)) = (r, st')"
      by (simp add: wait_recv_def Let_def)
    show ?thesis
    proof (cases "y = Inr (code AMQP_STATUS_TIMEOUT)")
      case True
      with d g f k c2 \<open>x = Inr OK\<close> c show ?thesis
        by (cases z) (auto simp: wait_timed_out_def status_values split: if_splits)
    next
      case False
      with d g f c2 \<open>x = Inr OK\<close> show ?thesis by (cases y) (auto simp: status_values split: if_splits)
    qed
  next
    case False
    with assms(2) h f show ?thesis by (cases x) (auto simp: wait_recv_def split: if_splits)
  qed
  then show "ends goes_on st (r, st')" "r = Inr n \<Longrightarrow> goes_on n \<Longrightarrow> n \<noteq> Wait_return OK \<and> calls_left (os st') < calls_left (os st)"
    by auto
qed

lemma maybe_release_ends:
  "conn_ok (amqp_maybe_release_buffers_on_channel ch st) = conn_ok st"
  "os (amqp_maybe_release_buffers_on_channel ch st) = os st"
  "bytes_left (amqp_maybe_release_buffers_on_channel ch st) = bytes_left st"
  "queued_frames (amqp_maybe_release_buffers_on_channel ch st) = queued_frames st"
proof -
  have "\<exists>c. amqp_maybe_release_buffers_on_channel ch st = st\<lparr>inp := c\<rparr> \<and> conn_inv c = conn_inv (inp st)"
  proof (cases "amqp_get_channel_pool (inp st) ch")
    case (Some pool)
    then show ?thesis
      by (cases "recycle_amqp_pool pool (c_heap (inp st))") (auto simp: amqp_maybe_release_buffers_on_channel_def intro: exI [of _ "inp st"])
  qed (auto simp: amqp_maybe_release_buffers_on_channel_def intro: exI [of _ "inp st"])
  then obtain c where "amqp_maybe_release_buffers_on_channel ch st = st\<lparr>inp := c\<rparr>" "conn_inv c = conn_inv (inp st)" by auto
  then show "conn_ok (amqp_maybe_release_buffers_on_channel ch st) = conn_ok st"
    "os (amqp_maybe_release_buffers_on_channel ch st) = os st"
    "bytes_left (amqp_maybe_release_buffers_on_channel ch st) = bytes_left st"
    "queued_frames (amqp_maybe_release_buffers_on_channel ch st) = queued_frames st"
    by (simp_all add: conn_ok_def buffer_ok_def bytes_left_def)
qed

lemma advances_induct [case_names step]:
  assumes "\<And>st. (\<And>st'. advances st st' \<Longrightarrow> P st') \<Longrightarrow> P st"
  shows "P st"
proof (rule wf_induct [of "inv_image (less_than <*lex*> less_than) (\<lambda>st. (calls_left (os st), bytes_left st))"])
  fix st
  assume "\<forall>y. (y, st) \<in> inv_image (less_than <*lex*> less_than) (\<lambda>st. (calls_left (os st), bytes_left st)) \<longrightarrow> P y"
  then have "P st'" if "advances st st'" for st' using that by (auto simp: advances_def)
  then show "P st" by (rule assms)
qed auto

lemma advances_trans: "advances a b \<Longrightarrow> advances b c \<Longrightarrow> advances a c"
  by (auto simp: advances_def)

lemma advances_calls: "advances a b \<Longrightarrow> calls_left (os b) \<le> calls_left (os a)"
  by (auto simp: advances_def)

text \<open>A frame that is returned is a whole frame and no heartbeat, and something was used up for it.\<close>

definition delivers :: "amqp_state \<Rightarrow> (int \<times> amqp_frame) outcome \<times> amqp_state \<Rightarrow> bool" where
  "delivers st x \<longleftrightarrow> ends (\<lambda>(v, f). v = OK) st x
     \<and> (\<forall>f st'. x = (Inr (OK, f), st') \<longrightarrow> advances st st' \<and> frame_type f \<notin> {0, FRAME_HEARTBEAT})"

lemma delivers_Inl [simp]: "delivers st (Inl e, st') \<longleftrightarrow> e \<noteq> Out_of_fuel"
  and delivers_error: "v \<noteq> OK \<Longrightarrow> delivers st (Inr (v, f), st') \<longleftrightarrow> calls_left (os st') \<le> calls_left (os st)"
  and delivers_frame: "delivers st (Inr (OK, f), st') \<longleftrightarrow> conn_ok st' \<and> advances st st' \<and> frame_type f \<notin> {0, FRAME_HEARTBEAT}"
  by (auto simp: delivers_def dest: advances_calls)

lemmas delivers_result = delivers_error delivers_frame delivers_frame [simplified status_code.simps]

lemma delivers_trans:
  assumes "advances st st1" "delivers st1 x"
  shows "delivers st x"
proof -
  obtain r st' where x: "x = (r, st')" by fastforce
  show ?thesis
  proof (cases r)
    case (Inr y)
    obtain v f where y: "y = (v, f)" by fastforce
    with assms x Inr show ?thesis
      by (cases "v = OK") (auto simp: delivers_result dest: advances_calls intro: advances_trans)
  qed (use assms x in simp)
qed

lemma wait_frame_loop_delivers: "conn_ok st \<Longrightarrow> delivers st (wait_frame_loop b timeout_deadline st)"
proof (induction st arbitrary: b rule: advances_induct)
  case (step st)
  have rec: "delivers st (wait_frame_loop b timeout_deadline s)" if "advances st s" "conn_ok s" for s b
    by (rule delivers_trans [OF that(1)]) (rule step.IH [OF that])
  show ?case
  proof (cases "\<not> b \<and> amqp_data_in_buffer st")
    case True
    obtain x st1 where c: "consume_one_frame st = (x, st1)" by fastforce
    note f = consume_one_frame_ends [OF step.prems _ c]
    show ?thesis
    proof (cases "\<exists>frame. x = Inr (OK, frame)")
      case False
      with c True f show ?thesis
        by (cases x) (auto simp: wait_frame_loop.simps [of _ _ st] delivers_result)
    next
      case ok: True
      then obtain frame where x: "x = Inr (OK, frame)" by auto
      let ?s = "amqp_maybe_release_buffers_on_channel 0 st1"
      have s: "advances st st1" "conn_ok st1" "advances st ?s" "conn_ok ?s"
        using f(4) [of frame] f(2) True x by (simp_all add: maybe_release_ends advances_def)
      then show ?thesis
        using rec [of st1] rec [of ?s] True c x
        by (simp add: wait_frame_loop.simps [of _ _ st] delivers_result Let_def)
    qed
  next
    case False
    obtain x st1 where c: "wait_recv timeout_deadline st = (x, st1)" by fastforce
    note w = wait_recv_ends [OF step.prems c]
    show ?thesis
    proof (cases x)
      case (Inl e)
      with w c False show ?thesis by (auto simp: wait_frame_loop.simps [of _ _ st])
    next
      case (Inr n)
      show ?thesis
      proof (cases n)
        case (Wait_return v)
        then have "v \<noteq> OK" using w(2) [OF Inr] by auto
        with Wait_return w(1) Inr c False show ?thesis
          by (auto simp: wait_frame_loop.simps [of _ _ st] delivers_result)
      qed (use w(1) w(2) [OF Inr] Inr c False rec [of st1] in
          \<open>auto simp: wait_frame_loop.simps [of _ _ st] advances_def\<close>)
    qed
  qed
qed

lemma wait_frame_inner_delivers: "conn_ok st \<Longrightarrow> delivers st (wait_frame_inner timeout_deadline st)"
  by (simp add: wait_frame_inner_def wait_frame_loop_delivers)

lemma wait_on_channel_delivers: "conn_ok st \<Longrightarrow> delivers st (wait_on_channel channel st)"
proof (induction st rule: advances_induct)
  case (step st)
  obtain x st1 where c: "wait_frame_inner amqp_time_infinite st = (x, st1)" by fastforce
  note w = wait_frame_inner_delivers [OF step.prems, of amqp_time_infinite, unfolded c]
  show ?case
  proof (cases "\<exists>frame. x = Inr (OK, frame)")
    case False
    with w c show ?thesis by (cases x) (auto simp: wait_on_channel.simps [of _ st])
  next
    case True
    then obtain frame where x: "x = Inr (OK, frame)" by auto
    with w have s: "conn_ok st1" "advances st st1" "frame_type frame \<notin> {0, FRAME_HEARTBEAT}" by (simp_all add: delivers_result)
    obtain y st2 where q: "amqp_queue_frame frame st1 = (y, st2)" by fastforce
    have h: "(\<exists>v. y = Inr v) \<and> conn_ok st2 = conn_ok st1 \<and> os st2 = os st1 \<and> bytes_left st2 = bytes_left st1"
      by (rule queue_ops_end [of _ _ frame]) (simp add: q)
    with s have s2: "conn_ok st2" "advances st st2" by (auto simp: advances_def)
    have "delivers st (wait_on_channel channel st2)" by (rule delivers_trans [OF s2(2) step.IH [OF s2(2,1)]])
    with h s s2 w c x show ?thesis
      by (auto simp: wait_on_channel.simps [of _ st] q delivers_result advances_calls)
  qed
qed

end
