(* ===== verification/Amqp_Send.thy ===== *)
theory Amqp_Send
  imports Amqp_Ends
begin

text \<open>
  What reaches the broker: when \<^verbatim>\<open>amqp_send_frame_inner\<close> reports success, the bytes of the frame and nothing
  else have been handed to the system, however the calls of \<^verbatim>\<open>send\<close> cut them and whatever arrived in
  between; otherwise a prefix of them has.
\<close>

section \<open>Reading leaves the outbound side alone\<close>

lemma consume_one_frame_keeps:
  assumes "consume_one_frame st = (r, st')"
  shows "os st' = os st" "outbound_buffer st' = outbound_buffer st" "outbound_len st' = outbound_len st" "heartbeat st' = heartbeat st"
  using assms by (auto simp: consume_one_frame_def split: prod.splits sum.splits if_splits)

lemma queue_ops_keep:
  assumes "(r, st') \<in> {store_frame frame st, amqp_queue_frame frame st, amqp_put_back_frame frame st}"
  shows "os st' = os st" "outbound_buffer st' = outbound_buffer st" "outbound_len st' = outbound_len st" "heartbeat st' = heartbeat st"
proof -
  obtain n m b st1 q where a: "alloc_link n m frame st = (b, st1)" "st' = (if b then st1\<lparr>queued_frames := q\<rparr> else st1)"
    using assms
    by (auto simp: store_frame_def amqp_queue_frame_def amqp_put_back_frame_def amqp_create_link_for_frame_def
        split: prod.splits bool.splits)
  from a(1) obtain c where "st1 = st\<lparr>inp := c\<rparr>" by (auto simp: alloc_link_def split: prod.splits option.splits)
  with a(2) show "os st' = os st" "outbound_buffer st' = outbound_buffer st" "outbound_len st' = outbound_len st"
    "heartbeat st' = heartbeat st" by auto
qed

text \<open>Reading leaves the outbound side alone.\<close>

definition outbound_same :: "amqp_state \<Rightarrow> amqp_state \<Rightarrow> bool" where
  "outbound_same st st' \<longleftrightarrow> w_sent (os st') = w_sent (os st) \<and> outbound_buffer st' = outbound_buffer st
     \<and> outbound_len st' = outbound_len st \<and> heartbeat st' = heartbeat st"

lemma outbound_same_trans: "outbound_same a b \<Longrightarrow> outbound_same b c \<Longrightarrow> outbound_same a c"
  by (simp add: outbound_same_def)

lemma outbound_same_refl [simp]: "outbound_same a a"
  by (simp add: outbound_same_def)

lemma drain_buffer_keeps: "drain_buffer st = (r, st') \<Longrightarrow> outbound_same st st'"
proof (induction st rule: advances_induct)
  case (step st)
  note d = step.prems [unfolded drain_buffer.simps [of st]]
  show ?case
  proof (cases "amqp_data_in_buffer st")
    case True
    obtain x st1 where c: "consume_one_frame st = (x, st1)" by fastforce
    have s1: "outbound_same st st1" using consume_one_frame_keeps [OF c] by (simp add: outbound_same_def)
    show ?thesis
    proof (cases "\<exists>frame. x = Inr (OK, frame)")
      case False
      with d c True s1 show ?thesis by (cases x) (auto split: if_splits)
    next
      case ok: True
      then obtain frame where x: "x = Inr (OK, frame)" by auto
      obtain y st2 where q: "store_frame frame st1 = (y, st2)" by fastforce
      have "outbound_same st1 st2" using queue_ops_keep [of y st2 frame st1] q by (simp add: outbound_same_def)
      then have s2: "outbound_same st st2" using s1 outbound_same_trans by blast
      show ?thesis
        using d True step.IH [of st1] step.IH [of st2] outbound_same_trans [OF s1] outbound_same_trans [OF s2] s1 s2
        by (cases y) (auto simp: c x q split: if_splits)
    qed
  qed (use d in auto)
qed

lemma amqp_try_recv_keeps:
  assumes "amqp_try_recv st = (Inr v, st')"
  shows "outbound_same st st'"
proof -
  obtain x st1 where d: "drain_buffer st = (x, st1)" by fastforce
  note k = drain_buffer_keeps [OF d]
  show ?thesis
  proof (cases "x = Inr OK")
    case True
    with assms d have "recv_with_timeout amqp_time_immediate st1 = (Inr v, st')" by (simp add: amqp_try_recv_def)
    from recv_with_timeout_result [OF this] have "outbound_same st1 st'" by (auto simp: received_def outbound_same_def)
    with k show ?thesis by (rule outbound_same_trans)
  next
    case False
    with assms d k show ?thesis by (cases x) (auto simp: amqp_try_recv_def split: if_splits)
  qed
qed

lemma arm_send_keeps: "arm_send_heartbeat st = (r, st') \<Longrightarrow> outbound_same st st'"
  by (auto simp: arm_send_heartbeat_def outbound_same_def read_clock_def split: sum.splits)

text \<open>A prefix of \<open>b\<close> of length \<open>k\<close> went out, all of it if the result is \<open>OK\<close>.\<close>

definition puts :: "amqp_bytes \<Rightarrow> int \<Rightarrow> amqp_state \<Rightarrow> amqp_state \<Rightarrow> bool" where
  "puts b v st st' \<longleftrightarrow> (\<exists>k \<le> length b. w_sent (os st') = w_sent (os st) @ take k b \<and> (v = OK \<longrightarrow> k = length b))
     \<and> outbound_len st' = outbound_len st \<and> length (outbound_buffer st') = length (outbound_buffer st)"

lemma send_encoded_puts: "send_encoded deadline b st = (Inr v, st') \<Longrightarrow> puts b v st st' \<and> outbound_buffer st' = outbound_buffer st"
proof (induction st arbitrary: b rule: advances_induct)
  case (step st)
  let ?t = "amqp_time_first deadline (next_recv_heartbeat st)"
  obtain x st1 where t: "amqp_try_send b ?t st = (x, st1)" by fastforce
  note d = step.prems [unfolded send_encoded.simps [of deadline b st] Let_def t prod.case]
  obtain n where x: "x = Inr n" using d by (cases x) auto
  obtain k where k: "sent_prefix b k st st1" "0 \<le> n \<longrightarrow> n = int k"
    using amqp_try_send_result [OF t] x by auto
  have out1: "outbound_buffer st1 = outbound_buffer st" "outbound_len st1 = outbound_len st"
    using k(1) others_fields [of st1 st] by (auto simp: sent_prefix_def same_input_def)
  have base: "puts b w st s \<and> outbound_buffer s = outbound_buffer st" if "outbound_same st1 s" "w = OK \<longrightarrow> k = length b" for w s
    using k(1) out1 that by (auto simp: puts_def sent_prefix_def outbound_same_def)
  show ?case
  proof (cases "0 \<le> n \<and> int (length b) \<noteq> n")
    case False
    show ?thesis
    proof (cases "n < 0")
      case True
      with d x have "v = n" "st' = st1" by auto
      with True base [of st1 v] show ?thesis by (simp add: status_values)
    next
      case False
      with \<open>\<not> (0 \<le> n \<and> int (length b) \<noteq> n)\<close> k(2) have "k = length b" by simp
      moreover have "arm_send_heartbeat st1 = (Inr v, st')" using d x \<open>\<not> (0 \<le> n \<and> int (length b) \<noteq> n)\<close> False by simp
      ultimately show ?thesis using base [OF arm_send_keeps] by simp
    qed
  next
    case True
    obtain y st2 where rc: "amqp_try_recv st1 = (y, st2)" by fastforce
    show ?thesis
    proof (cases "amqp_time_equal ?t deadline")
      case True
      with \<open>0 \<le> n \<and> int (length b) \<noteq> n\<close> d x base [of st1 v] show ?thesis by (auto simp: status_values)
    next
      case False
      then obtain m where y: "y = Inr m" using True d x rc by (cases y) auto
      have s2: "outbound_same st1 st2" using amqp_try_recv_keeps rc y by blast
      show ?thesis
      proof (cases "m = OK")
        case False
        with True d x rc y \<open>\<not> amqp_time_equal ?t deadline\<close> have "v \<noteq> OK" "st' = st2"
          by (auto simp: status_values split: if_splits)
        with base [OF s2] show ?thesis by blast
      next
        case ok: True
        with True d x rc y \<open>\<not> amqp_time_equal ?t deadline\<close>
        have a: "advances st st2" and r: "send_encoded deadline (drop (nat n) b) st2 = (Inr v, st')"
          by (auto simp: status_values split: if_splits)
        have n: "nat n = k" using True k(2) by simp
        note ih = step.IH [OF a r]
        have kb: "k \<le> length b" using k(1) by (simp add: sent_prefix_def)
        from ih obtain j where j: "j \<le> length (drop k b)" "w_sent (os st') = w_sent (os st2) @ take j (drop k b)"
            "v = OK \<longrightarrow> j = length (drop k b)" "outbound_len st' = outbound_len st2" "outbound_buffer st' = outbound_buffer st2"
          by (auto simp: puts_def n)
        have "w_sent (os st') = w_sent (os st) @ take (k + j) b"
          using j(2) k(1) s2 by (simp add: sent_prefix_def outbound_same_def take_add)
        with j kb s2 out1 show ?thesis
          by (auto simp: puts_def outbound_same_def intro!: exI [of _ "k + j"])
      qed
    qed
  qed
qed

text \<open>The outbound buffer is whole.\<close>

definition can_send :: "amqp_state \<Rightarrow> bool" where
  "can_send st \<longleftrightarrow> length (outbound_buffer st) = outbound_len st \<and> outbound_len st < 2 ^ 31"

lemma puts_can_send: "puts b v st st' \<Longrightarrow> can_send st' = can_send st"
  by (simp add: puts_def can_send_def)

lemma send_frame_puts:
  assumes "valid_frame f" "can_send st" "amqp_send_frame_inner f deadline st = (Inr v, st')"
  shows "puts (wire_frame f) v st st'" "v = OK \<Longrightarrow> frame_size f \<le> outbound_len st"
proof -
  have buf: "length (outbound_buffer st) < 2 ^ 31" "length (outbound_buffer st) = outbound_len st"
    using assms(2) by (auto simp: can_send_def)
  have "puts (wire_frame f) v st st' \<and> (v = OK \<longrightarrow> frame_size f \<le> outbound_len st)"
  proof (cases "amqp_frame_to_bytes f (outbound_buffer st)")
    case (Inl e)
    with assms(3) buf have "return_code (Inl e) = Inr v" "st' = st" by (auto simp: amqp_send_frame_inner_def)
    with return_code_Inr [OF this(1)] show ?thesis by (auto simp: puts_def status_values intro: exI [of _ 0])
  next
    case (Inr y)
    obtain buf' n where y: "y = (buf', n)" by fastforce
    note ok = Inr [unfolded y]
    have fits: "frame_size f \<le> length (outbound_buffer st)"
      by (rule amqp_frame_to_bytes_success [OF assms(1) buf(1) ok])
    with amqp_frame_to_bytes_fits [OF assms(1) buf(1)] ok
    have w: "take n buf' = wire_frame f" "length buf' = length (outbound_buffer st)"
      by (auto simp: blit_def length_wire_frame)
    have "send_encoded deadline (wire_frame f) (st\<lparr>outbound_buffer := buf'\<rparr>) = (Inr v, st')"
      using assms(3) buf(2) ok w(1) by (simp add: amqp_send_frame_inner_def)
    from send_encoded_puts [OF this] w(2) fits buf(2) show ?thesis by (auto simp: puts_def)
  qed
  then show "puts (wire_frame f) v st st'" "v = OK \<Longrightarrow> frame_size f \<le> outbound_len st" by auto
qed

section \<open>Return values\<close>

text \<open>No function on the way returns a positive number, so that not negative means \<open>OK\<close>.\<close>

lemma return_code_nonpos: "return_code x = Inr v \<Longrightarrow> (\<And>n. x = Inr n \<Longrightarrow> n \<le> 0) \<Longrightarrow> v \<le> 0"
  using return_code_Inr [of x v] by fastforce

lemma consume_one_frame_nonpos: "consume_one_frame st = (Inr (v, f), st') \<Longrightarrow> v \<le> 0"
  by (auto simp: consume_one_frame_def split: prod.splits sum.splits if_splits)

lemma arm_nonpos: "arm_send_heartbeat st = (Inr v, st') \<Longrightarrow> v \<le> 0" "arm_recv_heartbeat st = (Inr v, st') \<Longrightarrow> v \<le> 0"
  by (auto simp: arm_send_heartbeat_def arm_recv_heartbeat_def split: prod.splits sum.splits intro: return_code_nonpos)

lemma queue_ops_nonpos:
  "(Inr v, st') \<in> {store_frame frame st, amqp_queue_frame frame st, amqp_put_back_frame frame st} \<Longrightarrow> v \<le> 0"
  by (auto simp: store_frame_def amqp_queue_frame_def amqp_put_back_frame_def split: prod.splits bool.splits)

lemma recv_with_timeout_nonpos: "recv_with_timeout t st = (Inr v, st') \<Longrightarrow> v \<le> 0"
proof (induction "calls_left (os st)" arbitrary: st rule: less_induct)
  case less
  obtain x st1 where s: "amqp_socket_recv AMQP_INITIAL_INBOUND_SOCK_BUFFER_SIZE st = (x, st1)" by fastforce
  note d = less.prems [unfolded recv_with_timeout.simps [of t st] s prod.case]
  obtain n bs where x: "x = Inr (n, bs)" using d by (cases x) auto
  obtain z st2 where p: "poll_fd t st1 = (z, st2)" by fastforce
  note f = socket_recv_result [OF s] poll_fd_result [OF p]
  have r: "v \<le> 0" if "recv_with_timeout t st2 = (Inr v, st')" "n < 0" "amqp_get_sockfd st1 \<noteq> -1"
    using less.hyps [OF _ that(1)] f that by (simp add: x)
  show ?case
    using d x r f by (auto simp: p status_values dest: arm_nonpos split: if_splits sum.splits)
qed

lemma drain_buffer_nonpos: "drain_buffer st = (Inr v, st') \<Longrightarrow> v \<le> 0"
proof (induction st rule: advances_induct)
  case (step st)
  obtain x st1 where c: "consume_one_frame st = (x, st1)" by fastforce
  note d = step.prems [unfolded drain_buffer.simps [of st] c prod.case]
  show ?case
  proof (cases x)
    case (Inr z)
    obtain n frame where z: "z = (n, frame)" by fastforce
    obtain y st2 where q: "store_frame frame st1 = (y, st2)" by fastforce
    show ?thesis
      using d Inr z step.IH [of st1] step.IH [of st2] consume_one_frame_nonpos [of st v frame st1] c
        queue_ops_nonpos [of v st2 frame st1]
      by (auto simp: q split: if_splits sum.splits)
  qed (use d in \<open>auto split: if_splits\<close>)
qed

lemma try_recv_nonpos: "amqp_try_recv st = (Inr v, st') \<Longrightarrow> v \<le> 0"
  by (auto simp: amqp_try_recv_def dest: drain_buffer_nonpos recv_with_timeout_nonpos split: prod.splits sum.splits if_splits)

lemma send_encoded_nonpos: "send_encoded deadline b st = (Inr v, st') \<Longrightarrow> v \<le> 0"
proof (induction st arbitrary: b rule: advances_induct)
  case (step st)
  obtain x st1 where t: "amqp_try_send b (amqp_time_first deadline (next_recv_heartbeat st)) st = (x, st1)" by fastforce
  obtain y st2 where rc: "amqp_try_recv st1 = (y, st2)" by fastforce
  show ?case
    using step.prems step.IH [of st2] try_recv_nonpos [of st1 v st2]
    by (auto simp: send_encoded.simps [of deadline b st] Let_def t rc status_values dest: arm_nonpos split: if_splits sum.splits)
qed

lemma send_frame_nonpos: "amqp_send_frame_inner f deadline st = (Inr v, st') \<Longrightarrow> v \<le> 0"
  by (auto simp: amqp_send_frame_inner_def dest: send_encoded_nonpos return_code_nonpos split: if_splits sum.splits)

end
