(* ===== verification/Amqp_Stream.thy ===== *)
theory Amqp_Stream
  imports Amqp_Pieces Amqp_Send
begin

text \<open>
  Waiting on a connection on which bytes keep arriving: \<^verbatim>\<open>wait_frame_inner\<close> returns the next frame on the
  wire, however the calls of \<^verbatim>\<open>recv\<close> cut it and however often they are interrupted or have to wait, and
  skips the heartbeats. The connection has no heartbeats of its own.
\<close>

section \<open>The bytes that arrive\<close>

text \<open>
  What the calls of \<^verbatim>\<open>recv\<close> and \<^verbatim>\<open>poll\<close> bring before the connection is closed, fails or blocks. A call may
  be interrupted, or find nothing and wait, any number of times.
\<close>

abbreviation interrupted :: "sys_poll \<Rightarrow> bool" where "interrupted p \<equiv> p = Poll_errno EINTR"

fun arriving :: "sys_recv list \<Rightarrow> sys_poll list \<Rightarrow> amqp_bytes" where
  "arriving [] ps = []"
| "arriving (Received b # rs) ps =
    (let b' = take AMQP_INITIAL_INBOUND_SOCK_BUFFER_SIZE b in if b' = [] then [] else b' @ arriving rs ps)"
| "arriving (Recv_errno EINTR # rs) ps = arriving rs ps"
| "arriving (Recv_errno EWOULDBLOCK # rs) ps =
    (case dropWhile interrupted ps of Poll_ready # ps' \<Rightarrow> arriving rs ps' | _ \<Rightarrow> [])"
| "arriving (Recv_errno E_other # rs) ps = []"

definition incoming :: "amqp_state \<Rightarrow> amqp_bytes" where
  "incoming st = drop (sock_inbound_offset st) (sock_inbound_buffer st) @ arriving (w_recv (os st)) (w_poll (os st))"

text \<open>An open connection without heartbeats.\<close>

definition steady :: "amqp_state \<Rightarrow> bool" where
  "steady st \<longleftrightarrow> amqp_get_sockfd st \<noteq> -1 \<and> heartbeat st = 0 \<and> next_recv_heartbeat st = amqp_time_infinite
     \<and> next_send_heartbeat st = amqp_time_infinite \<and> buffer_ok st"

text \<open>What receiving leaves as it was.\<close>

definition aside :: "amqp_state \<Rightarrow> amqp_state \<Rightarrow> bool" where
  "aside st st' \<longleftrightarrow> queued_frames st' = queued_frames st \<and> outbound_same st st' \<and> w_send (os st') = w_send (os st)"

definition rest_same :: "amqp_state \<Rightarrow> amqp_state \<Rightarrow> bool" where
  "rest_same st st' \<longleftrightarrow> inp st' = inp st \<and> aside st st'"

lemma aside_trans: "aside a b \<Longrightarrow> aside b c \<Longrightarrow> aside a c"
  using outbound_same_trans [of a b c] by (simp add: aside_def)

lemma poll_ready:
  assumes "dropWhile interrupted ps = Poll_ready # ps'"
  shows "\<exists>k'. poll_loop amqp_time_infinite clock k ps = (Inr 0, k', ps') \<and> length ps' < length ps"
  using assms
proof (induction ps arbitrary: k)
  case (Cons x ps)
  then show ?case
    by (cases "interrupted x") (fastforce simp: Let_def amqp_time_ms_until_def amqp_time_infinite_def)+
qed simp

lemma poll_fd_ready:
  assumes "dropWhile interrupted (w_poll (os st)) = Poll_ready # ps'"
  shows "\<exists>k. poll_fd amqp_time_infinite st = (Inr 0, st\<lparr>os := (os st)\<lparr>w_ticks := k, w_poll := ps'\<rparr>\<rparr>)
    \<and> length ps' < length (w_poll (os st))"
  using poll_ready [OF assms, of "w_clock (os st)" "w_ticks (os st)"] by (auto simp: poll_fd_def amqp_poll_def)

lemma arm_steady:
  "heartbeat st = 0 \<Longrightarrow> arm_recv_heartbeat st = (Inr 0, st\<lparr>os := snd (read_clock (os st)), next_recv_heartbeat := amqp_time_infinite\<rparr>)"
  "heartbeat st = 0 \<Longrightarrow> arm_send_heartbeat st = (Inr 0, st\<lparr>os := snd (read_clock (os st)), next_send_heartbeat := amqp_time_infinite\<rparr>)"
  by (simp_all add: arm_recv_heartbeat_def arm_send_heartbeat_def read_clock_def amqp_heartbeat_recv_def
      amqp_heartbeat_send_def amqp_time_s_from_now_def)

text \<open>\<^verbatim>\<open>recv\<close> with its own loop.\<close>

lemma recv_loop_arriving:
  assumes "arriving rs ps \<noteq> []"
  shows "(\<exists>b rs'. recv_loop AMQP_INITIAL_INBOUND_SOCK_BUFFER_SIZE rs = (Inr (int (length b), b, None), rs')
      \<and> b \<noteq> [] \<and> length b \<le> AMQP_INITIAL_INBOUND_SOCK_BUFFER_SIZE \<and> arriving rs ps = b @ arriving rs' ps)
    \<or> (\<exists>rs' ps'. recv_loop AMQP_INITIAL_INBOUND_SOCK_BUFFER_SIZE rs
         = (Inr (AMQP_PRIVATE_STATUS_SOCKET_NEEDREAD, [], Some EWOULDBLOCK), rs')
      \<and> dropWhile interrupted ps = Poll_ready # ps' \<and> arriving rs ps = arriving rs' ps')"
  using assms
proof (induction rs ps rule: arriving.induct)
  case (2 b rs ps)
  then show ?case by (auto simp: Let_def simp del: take_eq_Nil split: if_splits)
next
  case (4 rs ps)
  from 4(2) obtain ps' where "dropWhile interrupted ps = Poll_ready # ps'"
    by (cases "dropWhile interrupted ps") (auto split: sys_poll.splits)
  then show ?case by simp
qed auto

lemma recv_arriving:
  assumes "steady st" "arriving (w_recv (os st)) (w_poll (os st)) \<noteq> []"
  shows "\<exists>st'. recv_with_timeout amqp_time_infinite st = (Inr 0, st') \<and> steady st' \<and> rest_same st st'
    \<and> incoming st' = arriving (w_recv (os st)) (w_poll (os st)) \<and> calls_left (os st') < calls_left (os st)"
  using assms
proof (induction "calls_left (os st)" arbitrary: st rule: less_induct)
  case less
  obtain s where s: "socket st = Some s" "sockfd s \<noteq> -1"
    using less.prems(1) by (auto simp: steady_def amqp_get_sockfd_def split: option.splits)
  from recv_loop_arriving [OF less.prems(2)] show ?case
  proof (elim disjE exE conjE)
    fix b rs'
    assume b: "recv_loop AMQP_INITIAL_INBOUND_SOCK_BUFFER_SIZE (w_recv (os st)) = (Inr (int (length b), b, None), rs')"
      "b \<noteq> []" "length b \<le> AMQP_INITIAL_INBOUND_SOCK_BUFFER_SIZE"
      "arriving (w_recv (os st)) (w_poll (os st)) = b @ arriving rs' (w_poll (os st))"
    let ?st1 = "st\<lparr>socket := Some s, os := (os st)\<lparr>w_recv := rs'\<rparr>\<rparr>"
    have "amqp_socket_recv AMQP_INITIAL_INBOUND_SOCK_BUFFER_SIZE st = (Inr (int (length b), b), ?st1)"
      using s b(1) by (simp add: amqp_socket_recv_def amqp_tcp_socket_recv_def)
    then have run: "recv_with_timeout amqp_time_infinite st
        = arm_recv_heartbeat (?st1\<lparr>sock_inbound_buffer := b, sock_inbound_offset := 0\<rparr>)"
      by (simp add: recv_with_timeout.simps [of _ st])
    have "length rs' < length (w_recv (os st))" using recv_loop_result [OF b(1)] by auto
    with run less.prems(1) s b show ?thesis
      by (simp add: arm_steady steady_def incoming_def rest_same_def aside_def outbound_same_def buffer_ok_def
          amqp_get_sockfd_def calls_left_def read_clock_def)
  next
    fix rs' ps'
    assume b: "recv_loop AMQP_INITIAL_INBOUND_SOCK_BUFFER_SIZE (w_recv (os st))
        = (Inr (AMQP_PRIVATE_STATUS_SOCKET_NEEDREAD, [], Some EWOULDBLOCK), rs')"
      "dropWhile interrupted (w_poll (os st)) = Poll_ready # ps'"
      "arriving (w_recv (os st)) (w_poll (os st)) = arriving rs' ps'"
    let ?st1 = "st\<lparr>socket := Some (s\<lparr>internal_error := Some EWOULDBLOCK\<rparr>), os := (os st)\<lparr>w_recv := rs'\<rparr>\<rparr>"
    have sr: "amqp_socket_recv AMQP_INITIAL_INBOUND_SOCK_BUFFER_SIZE st = (Inr (AMQP_PRIVATE_STATUS_SOCKET_NEEDREAD, []), ?st1)"
      using s b(1) by (simp add: amqp_socket_recv_def amqp_tcp_socket_recv_def)
    obtain k where p: "poll_fd amqp_time_infinite ?st1 = (Inr 0, ?st1\<lparr>os := (os ?st1)\<lparr>w_ticks := k, w_poll := ps'\<rparr>\<rparr>)"
        "length ps' < length (w_poll (os st))"
      using poll_fd_ready [of ?st1 ps'] b(2) by auto
    let ?st2 = "?st1\<lparr>os := (os ?st1)\<lparr>w_ticks := k, w_poll := ps'\<rparr>\<rparr>"
    have rs': "length rs' < length (w_recv (os st))" using recv_loop_result [OF b(1)] by auto
    have c: "calls_left (os ?st2) < calls_left (os st)" using rs' p(2) by (simp add: calls_left_def)
    then have run: "recv_with_timeout amqp_time_infinite st = recv_with_timeout amqp_time_infinite ?st2"
      using s p(1) by (simp add: recv_with_timeout.simps [of _ st] sr amqp_get_sockfd_def advances_def
          AMQP_PRIVATE_STATUS_SOCKET_NEEDREAD_def)
    have st2: "steady ?st2" "rest_same st ?st2" "arriving (w_recv (os ?st2)) (w_poll (os ?st2)) = arriving rs' ps'"
      using less.prems(1) s by (simp_all add: steady_def amqp_get_sockfd_def buffer_ok_def rest_same_def aside_def outbound_same_def)
    from less.hyps [OF c st2(1)] st2(3) b(3) less.prems(2) obtain st' where st':
      "recv_with_timeout amqp_time_infinite ?st2 = (Inr 0, st')" "steady st'" "rest_same ?st2 st'"
      "incoming st' = arriving rs' ps'" "calls_left (os st') < calls_left (os ?st2)" by auto
    moreover have "rest_same st st'" using st2(2) st'(3) by (simp add: rest_same_def aside_def outbound_same_def)
    ultimately show ?thesis using run c b(3) by auto
  qed
qed

lemma wait_recv_arriving:
  assumes "steady st" "arriving (w_recv (os st)) (w_poll (os st)) \<noteq> []"
  shows "\<exists>st'. wait_recv amqp_time_infinite st = (Inr Wait_again, st') \<and> steady st' \<and> rest_same st st'
    \<and> incoming st' = arriving (w_recv (os st)) (w_poll (os st)) \<and> advances st st'"
proof -
  let ?st1 = "st\<lparr>os := snd (read_clock (os st))\<rparr>"
  have h: "send_due_heartbeat st = (Inr 0, ?st1)"
    using assms(1) by (simp add: send_due_heartbeat_def steady_def amqp_time_has_past_def amqp_time_infinite_def read_clock_def)
  have s1: "steady ?st1" "rest_same st ?st1" "arriving (w_recv (os ?st1)) (w_poll (os ?st1)) = arriving (w_recv (os st)) (w_poll (os st))"
      "calls_left (os ?st1) = calls_left (os st)"
    using assms(1) by (simp_all add: steady_def amqp_get_sockfd_def buffer_ok_def rest_same_def aside_def outbound_same_def
        read_clock_def calls_left_def)
  have d: "wait_deadline amqp_time_infinite ?st1 = amqp_time_infinite"
    using assms(1) by (simp add: wait_deadline_def steady_def amqp_time_first_def)
  obtain st' where st': "recv_with_timeout amqp_time_infinite ?st1 = (Inr 0, st')" "steady st'" "rest_same ?st1 st'"
      "incoming st' = arriving (w_recv (os st)) (w_poll (os st))" "calls_left (os st') < calls_left (os ?st1)"
    using recv_arriving [OF s1(1)] assms(2) s1(3) by auto
  moreover have "rest_same st st'" using s1(2) st'(3) by (simp add: rest_same_def aside_def outbound_same_def)
  ultimately show ?thesis
    using h d s1(4) by (simp add: wait_recv_def Let_def advances_def status_values)
qed

section \<open>Waiting for a frame that arrives\<close>

lemma consume_one_frame_returns:
  assumes "amqp_handle_input (inp st) (drop (sock_inbound_offset st) (sock_inbound_buffer st)) = (Inr v, f, c)" "0 \<le> v"
  shows "consume_one_frame st = (Inr (0, f), st\<lparr>inp := c, sock_inbound_offset := sock_inbound_offset st + nat v\<rparr>)"
  using assms by (simp add: consume_one_frame_def return_code_def)

definition fits :: "int \<Rightarrow> amqp_frame \<Rightarrow> bool" where
  "fits M f \<longleftrightarrow> valid_frame f \<and> frame_size f < 2 ^ 30 \<and> frame_size f \<le> size_of_int M"

lemma take_append_whole: "n \<le> length xs \<Longrightarrow> take n (xs @ ys) = take n xs"
  by simp

lemma valid_frame_type_nonzero: "valid_frame f \<Longrightarrow> frame_type f \<noteq> 0"
  by (auto simp: valid_frame_def split: amqp_frame_payload.splits)

lemma released_fields:
  "os (amqp_maybe_release_buffers_on_channel ch st) = os st"
  "sock_inbound_buffer (amqp_maybe_release_buffers_on_channel ch st) = sock_inbound_buffer st"
  "sock_inbound_offset (amqp_maybe_release_buffers_on_channel ch st) = sock_inbound_offset st"
  by (simp_all add: amqp_maybe_release_buffers_on_channel_def split: option.split prod.split)

lemma advances_released: "advances st st1 \<Longrightarrow> advances st (amqp_maybe_release_buffers_on_channel ch st1)"
  by (simp add: advances_def bytes_left_def released_fields)

lemma wait_frame_arrives:
  assumes f: "valid_frame f" "frame_size f < 2 ^ 30"
    and st: "steady st" "part_way M f (inp st) p" "p @ incoming st = wire_frame f @ rest"
  shows "\<exists>st1. wait_frame_loop False amqp_time_infinite st =
      (if frame_type f = FRAME_HEARTBEAT
       then wait_frame_loop False amqp_time_infinite (amqp_maybe_release_buffers_on_channel 0 st1) else (Inr (0, f), st1))
    \<and> steady st1 \<and> is_ready M (inp st1) \<and> incoming st1 = rest \<and> aside st st1 \<and> advances st st1"
  using st
proof (induction st arbitrary: p rule: advances_induct)
  case (step st)
  let ?d = "drop (sock_inbound_offset st) (sock_inbound_buffer st)"
  let ?arr = "arriving (w_recv (os st)) (w_poll (os st))"
  have p: "length p < frame_size f" "take (length p) (wire_frame f) = p"
    using step.prems(2) by (auto simp: part_way_def)
  have small: "frame_size f < 2 ^ 31" "length p + length ?d < 2 ^ 31"
    using f(2) p(1) step.prems(1) by (auto simp: steady_def buffer_ok_def AMQP_INITIAL_INBOUND_SOCK_BUFFER_SIZE_def)
  show ?case
  proof (cases "amqp_data_in_buffer st")
    case False
    then have "incoming st = ?arr" by (simp add: incoming_def amqp_data_in_buffer_def)
    moreover have "incoming st \<noteq> []"
      using step.prems(3) p(1) by (metis append_Nil2 length_append length_wire_frame linorder_not_less le_add1)
    ultimately obtain st1 where st1: "wait_recv amqp_time_infinite st = (Inr Wait_again, st1)" "steady st1" "rest_same st st1"
        "incoming st1 = incoming st" "advances st st1"
      using wait_recv_arriving [OF step.prems(1)] by auto
    from st1(1,5) False have "wait_frame_loop False amqp_time_infinite st = wait_frame_loop False amqp_time_infinite st1"
      by (simp add: wait_frame_loop.simps [of _ _ st])
    with step.IH [OF st1(5,2), of p] step.prems(2,3) st1(3-5) show ?thesis
      using advances_trans [OF st1(5)] aside_trans [of st st1] by (auto simp: rest_same_def)
  next
    case True
    then have d: "?d \<noteq> []" by (simp add: amqp_data_in_buffer_def)
    have all: "(p @ ?d) @ ?arr = wire_frame f @ rest" using step.prems(3) by (simp add: incoming_def)
    show ?thesis
    proof (cases "frame_size f \<le> length (p @ ?d)")
      case True
      let ?rest = "drop (frame_size f) (p @ ?d)"
      have "take (frame_size f) ((p @ ?d) @ ?arr) = wire_frame f" unfolding all by (simp add: length_wire_frame)
      with True have r: "p @ ?d = wire_frame f @ ?rest" by (metis append_take_drop_id take_append_whole)
      then have rest: "rest = ?rest @ ?arr" using all by (metis append.assoc same_append_eq)
      obtain c' where c': "amqp_handle_input (inp st) ?d = (Inr (int (frame_size f) - int (length p)), f, c')" "is_ready M c'"
        using handle_input_from [OF f(1) small(1) step.prems(2) d small(2) r] by blast
      let ?n = "frame_size f - length p"
      let ?st1 = "st\<lparr>inp := c', sock_inbound_offset := sock_inbound_offset st + ?n\<rparr>"
      have run: "consume_one_frame st = (Inr (0, f), ?st1)"
        using consume_one_frame_returns [OF c'(1)] p(1) by (simp add: nat_diff_distrib)
      have adv: "advances st ?st1"
        using \<open>amqp_data_in_buffer st\<close> p(1) by (simp add: advances_def bytes_left_def amqp_data_in_buffer_def)
      have "?rest = drop ?n ?d" using p(1) by simp
      then have "incoming ?st1 = rest" using rest by (simp add: incoming_def add.commute)
      moreover have "steady ?st1" "aside st ?st1"
        using step.prems(1) by (simp_all add: steady_def amqp_get_sockfd_def buffer_ok_def aside_def outbound_same_def)
      moreover have "wait_frame_loop False amqp_time_infinite st =
          (if frame_type f = FRAME_HEARTBEAT
           then wait_frame_loop False amqp_time_infinite (amqp_maybe_release_buffers_on_channel 0 ?st1) else (Inr (0, f), ?st1))"
        using \<open>amqp_data_in_buffer st\<close> run adv f(1) valid_frame_type_nonzero [OF f(1)]
        by (simp add: wait_frame_loop.simps [of _ _ st] Let_def advances_released)
      ultimately show ?thesis using adv c'(2) by (intro exI [of _ ?st1]) simp
    next
      case False
      then have short: "length (p @ ?d) < frame_size f" by simp
      have pre: "take (length (p @ ?d)) (wire_frame f) = p @ ?d"
        using arg_cong [OF all, of "take (length (p @ ?d))"] short by (simp add: length_wire_frame)
      obtain c' where c': "amqp_handle_input (inp st) ?d = (Inr (int (length ?d)), no_frame, c')" "part_way M f c' (p @ ?d)"
        using handle_input_partly [OF f(1) small(1) step.prems(2) d short pre] by blast
      let ?st1 = "st\<lparr>inp := c', sock_inbound_offset := sock_inbound_offset st + length ?d\<rparr>"
      have run: "consume_one_frame st = (Inr (0, no_frame), ?st1)"
        using consume_one_frame_returns [OF c'(1)] by simp
      have adv: "advances st ?st1"
        using True by (simp add: advances_def bytes_left_def amqp_data_in_buffer_def)
      have inc: "(p @ ?d) @ incoming ?st1 = wire_frame f @ rest" using all by (simp add: incoming_def)
      have st1: "steady ?st1" "aside st ?st1" "part_way M f (inp ?st1) (p @ ?d)"
        using step.prems(1) c'(2) by (simp_all add: steady_def amqp_get_sockfd_def buffer_ok_def aside_def outbound_same_def)
      have "wait_frame_loop False amqp_time_infinite st = wait_frame_loop False amqp_time_infinite ?st1"
        using True run adv by (simp add: wait_frame_loop.simps [of _ _ st] no_frame_def)
      with step.IH [OF adv st1(1,3) inc] show ?thesis
        using advances_trans [OF adv] aside_trans [OF st1(2)] by auto
    qed
  qed
qed

end
