(* ===== verification/Amqp_Rpc.thy ===== *)
theory Amqp_Rpc
  imports Amqp_Send
begin

text \<open>
  Methods and replies (\<^verbatim>\<open>amqp_socket.c\<close>): sending a method, waiting for one, and the RPC engine, which
  sends a request and keeps every frame that is not the answer in the queue.

  A list of method numbers ends with a zero, as in C. The variable arguments and the unused flags of the
  C functions are ordinary arguments here or left out.
\<close>

section \<open>Sequencing\<close>

definition io_return :: "'a \<Rightarrow> 'a io" where
  "io_return v st = (Inr v, st)"

definition io_bind :: "'a io \<Rightarrow> ('a \<Rightarrow> 'b io) \<Rightarrow> 'b io" where
  "io_bind m f st = (case m st of (Inl e, st') \<Rightarrow> (Inl e, st') | (Inr v, st') \<Rightarrow> f v st')"

section \<open>Methods in frames\<close>

definition method_frame :: "u16 \<Rightarrow> u32 \<Rightarrow> amqp_method_struct \<Rightarrow> amqp_frame" where
  "method_frame channel mid decoded =
    \<lparr>frame_type = FRAME_METHOD, frame_channel = channel, frame_payload = Method_payload mid decoded\<rparr>"

text \<open>The method of a method frame.\<close>

definition frame_method :: "amqp_frame \<Rightarrow> (u32 \<times> amqp_method_struct) option" where
  "frame_method frame =
    (if frame_type frame = FRAME_METHOD then
       (case frame_payload frame of Method_payload mid decoded \<Rightarrow> Some (mid, decoded) | _ \<Rightarrow> None)
     else None)"

definition amqp_send_method_inner :: "u16 \<Rightarrow> u32 \<Rightarrow> amqp_method_struct \<Rightarrow> amqp_time \<Rightarrow> int io" where
  "amqp_send_method_inner channel mid decoded deadline = amqp_send_frame_inner (method_frame channel mid decoded) deadline"

definition amqp_send_method :: "u16 \<Rightarrow> u32 \<Rightarrow> amqp_method_struct \<Rightarrow> int io" where
  "amqp_send_method channel mid decoded = amqp_send_method_inner channel mid decoded amqp_time_infinite"

fun amqp_id_in_reply_list :: "u32 \<Rightarrow> u32 list \<Rightarrow> bool" where
  "amqp_id_in_reply_list expected [] = False"
| "amqp_id_in_reply_list expected (l # ls) =
    (if l = 0 then False else if l = expected then True else amqp_id_in_reply_list expected ls)"

section \<open>Waiting for a method\<close>

definition amqp_simple_wait_method_list ::
    "u16 \<Rightarrow> u32 list \<Rightarrow> amqp_time \<Rightarrow> (int \<times> (u32 \<times> amqp_method_struct) option) io" where
  "amqp_simple_wait_method_list expected_channel expected_methods deadline st =
    (case read_clock (os st) of
       (now, w) \<Rightarrow>
         (case amqp_time_tv_until now deadline of
            Inl (Status s) \<Rightarrow> (Inr (code s, None), st\<lparr>os := w\<rparr>)
          | Inl e \<Rightarrow> (Inl e, st\<lparr>os := w\<rparr>)
          | Inr tvp \<Rightarrow>
              io_bind (amqp_simple_wait_frame_noblock tvp)
                (\<lambda>(res, frame).
                   if res \<noteq> OK then io_return (res, None)
                   else
                     (case frame_method frame of
                        None \<Rightarrow> io_return (code AMQP_STATUS_WRONG_METHOD, None)
                      | Some (mid, decoded) \<Rightarrow>
                          if expected_channel \<noteq> frame_channel frame \<or> \<not> amqp_id_in_reply_list mid expected_methods
                          then io_return (code AMQP_STATUS_WRONG_METHOD, None)
                          else io_return (OK, Some (mid, decoded))))
                (st\<lparr>os := w\<rparr>)))"

definition simple_wait_method_inner :: "u16 \<Rightarrow> u32 \<Rightarrow> amqp_time \<Rightarrow> (int \<times> (u32 \<times> amqp_method_struct) option) io" where
  "simple_wait_method_inner expected_channel expected_method deadline =
    amqp_simple_wait_method_list expected_channel [expected_method, 0] deadline"

definition amqp_simple_wait_method :: "u16 \<Rightarrow> u32 \<Rightarrow> (int \<times> (u32 \<times> amqp_method_struct) option) io" where
  "amqp_simple_wait_method expected_channel expected_method =
    simple_wait_method_inner expected_channel expected_method amqp_time_infinite"

section \<open>The RPC engine\<close>

definition library_exception :: "int \<Rightarrow> amqp_rpc_reply" where
  "library_exception res =
    \<lparr>reply_type = AMQP_RESPONSE_LIBRARY_EXCEPTION, reply = None, library_error = res\<rparr>"

definition amqp_rpc_reply_error :: "amqp_status_enum \<Rightarrow> amqp_rpc_reply" where
  "amqp_rpc_reply_error s = library_exception (code s)"

definition rpc_reply :: "amqp_response_type_enum \<Rightarrow> (u32 \<times> amqp_method_struct) option \<Rightarrow> amqp_rpc_reply" where
  "rpc_reply t m = \<lparr>reply_type = t, reply = m, library_error = 0\<rparr>"

text \<open>Whether a frame directly affects the call: the reply, or the end of the channel or of the connection.\<close>

definition affects_rpc :: "u16 \<Rightarrow> u32 list \<Rightarrow> amqp_frame \<Rightarrow> bool" where
  "affects_rpc channel expected_reply_ids frame \<longleftrightarrow>
    (case frame_method frame of
       None \<Rightarrow> False
     | Some (mid, _) \<Rightarrow>
         frame_channel frame = channel \<and> (amqp_id_in_reply_list mid expected_reply_ids \<or> mid = AMQP_CHANNEL_CLOSE_METHOD)
         \<or> frame_channel frame = 0 \<and> mid = AMQP_CONNECTION_CLOSE_METHOD)"

definition rpc_result :: "u32 list \<Rightarrow> amqp_frame \<Rightarrow> amqp_rpc_reply" where
  "rpc_result expected_reply_ids frame =
    (case frame_method frame of
       None \<Rightarrow> rpc_reply AMQP_RESPONSE_NONE None
     | Some (mid, decoded) \<Rightarrow>
         rpc_reply (if amqp_id_in_reply_list mid expected_reply_ids then AMQP_RESPONSE_NORMAL
                    else AMQP_RESPONSE_SERVER_EXCEPTION) (Some (mid, decoded)))"

function rpc_wait :: "u16 \<Rightarrow> u32 list \<Rightarrow> amqp_time \<Rightarrow> amqp_rpc_reply io" where
  "rpc_wait channel expected_reply_ids deadline st =
    (case wait_frame_inner deadline st of
       (Inl e, st1) \<Rightarrow> (Inl e, st1)
     | (Inr (status, frame), st1) \<Rightarrow>
         if status < 0 then (Inr (library_exception status), st1)
         else if affects_rpc channel expected_reply_ids frame then (Inr (rpc_result expected_reply_ids frame), st1)
         else
           (case store_frame frame st1 of
              (Inl e, st2) \<Rightarrow> (Inl e, st2)
            | (Inr res, st2) \<Rightarrow>
                if res \<noteq> OK then (Inr (library_exception res), st2)
                else if advances st st2 then rpc_wait channel expected_reply_ids deadline st2
                else (Inl Out_of_fuel, st2)))"
  by pat_completeness auto
termination
  by (relation "inv_image (less_than <*lex*> less_than) (\<lambda>(c, r, d, st). (calls_left (os st), bytes_left st))")
    (auto simp: advances_def)

declare rpc_wait.simps [simp del]

definition simple_rpc_inner ::
    "u16 \<Rightarrow> u32 \<Rightarrow> u32 list \<Rightarrow> amqp_method_struct \<Rightarrow> amqp_time \<Rightarrow> amqp_rpc_reply io" where
  "simple_rpc_inner channel request_id expected_reply_ids decoded_request_method deadline =
    io_bind (amqp_send_method channel request_id decoded_request_method)
      (\<lambda>status. if status < 0 then io_return (library_exception status)
                else rpc_wait channel expected_reply_ids deadline)"

definition amqp_simple_rpc :: "u16 \<Rightarrow> u32 \<Rightarrow> u32 list \<Rightarrow> amqp_method_struct \<Rightarrow> amqp_rpc_reply io" where
  "amqp_simple_rpc channel request_id expected_reply_ids decoded_request_method =
    simple_rpc_inner channel request_id expected_reply_ids decoded_request_method amqp_time_infinite"

definition simple_rpc_decoded_inner ::
    "u16 \<Rightarrow> u32 \<Rightarrow> u32 \<Rightarrow> amqp_method_struct \<Rightarrow> amqp_time \<Rightarrow> amqp_method_struct option io" where
  "simple_rpc_decoded_inner channel request_id reply_id decoded_request_method deadline =
    io_bind (simple_rpc_inner channel request_id [reply_id, 0] decoded_request_method deadline)
      (\<lambda>result st. (Inr (if reply_type result = AMQP_RESPONSE_NORMAL then map_option snd (reply result) else None),
                    st\<lparr>most_recent_api_result := result\<rparr>))"

definition amqp_simple_rpc_decoded :: "u16 \<Rightarrow> u32 \<Rightarrow> u32 \<Rightarrow> amqp_method_struct \<Rightarrow> amqp_method_struct option io" where
  "amqp_simple_rpc_decoded channel request_id reply_id decoded_request_method =
    simple_rpc_decoded_inner channel request_id reply_id decoded_request_method amqp_time_infinite"

definition amqp_get_rpc_reply :: "amqp_state \<Rightarrow> amqp_rpc_reply" where
  "amqp_get_rpc_reply st = most_recent_api_result st"

end
