(* ===== verification/Amqp_Setup.thy ===== *)
theory Amqp_Setup
  imports Amqp_Transfer
begin

text \<open>
  Creating and configuring a connection (\<^verbatim>\<open>amqp_connection.c\<close>, \<^verbatim>\<open>amqp_tcp_socket.c\<close> and the handshake
  timeout of \<^verbatim>\<open>amqp_api.c\<close>).

  The pointer \<^verbatim>\<open>handshake_timeout\<close> is \<^verbatim>\<open>NULL\<close> or points to \<^verbatim>\<open>internal_handshake_timeout\<close>, so the two are one
  optional value.
\<close>

section \<open>amqp\_tcp\_socket.c, amqp\_connection.c: the socket\<close>

definition set_heap :: "heap \<Rightarrow> amqp_state \<Rightarrow> amqp_state" where
  "set_heap h st = st\<lparr>inp := (inp st)\<lparr>c_heap := h\<rparr>\<rparr>"

text \<open>\<^verbatim>\<open>amqp_tcp_socket_delete\<close>: what closing the socket reports is ignored.\<close>

definition amqp_tcp_socket_delete :: "tcp_socket \<Rightarrow> amqp_state \<Rightarrow> amqp_state" where
  "amqp_tcp_socket_delete self st =
    set_heap (free (sock_block self) (c_heap (inp st))) (st\<lparr>os := snd (amqp_tcp_socket_close self (os st))\<rparr>)"

definition amqp_socket_delete :: "amqp_state \<Rightarrow> amqp_state" where
  "amqp_socket_delete st = (case socket st of None \<Rightarrow> st | Some s \<Rightarrow> amqp_tcp_socket_delete s st)"

definition amqp_set_socket :: "tcp_socket \<Rightarrow> amqp_state \<Rightarrow> amqp_state" where
  "amqp_set_socket s st = (amqp_socket_delete st)\<lparr>socket := Some s\<rparr>"

definition amqp_tcp_socket_new :: "amqp_state \<Rightarrow> tcp_socket option \<times> amqp_state" where
  "amqp_tcp_socket_new st =
    (case malloc sizeof_tcp_socket (c_heap (inp st)) of
       (None, h) \<Rightarrow> (None, set_heap h st)
     | (Some b, h) \<Rightarrow> (Some (fresh_tcp_socket b), amqp_set_socket (fresh_tcp_socket b) (set_heap h st)))"

definition amqp_tcp_socket_set_sockfd :: "int \<Rightarrow> amqp_state \<Rightarrow> amqp_state" where
  "amqp_tcp_socket_set_sockfd fd st = st\<lparr>socket := map_option (\<lambda>s. s\<lparr>sockfd := fd\<rparr>) (socket st)\<rparr>"

definition amqp_set_sockfd :: "int \<Rightarrow> unit io" where
  "amqp_set_sockfd fd st =
    (case amqp_tcp_socket_new st of
       (None, st1) \<Rightarrow> (Inl Aborted, st1)
     | (Some _, st1) \<Rightarrow> (Inr (), amqp_tcp_socket_set_sockfd fd st1))"

definition amqp_get_socket :: "amqp_state \<Rightarrow> tcp_socket option" where
  "amqp_get_socket st = socket st"

section \<open>amqp\_connection.c: amqp\_tune\_connection\<close>

text \<open>
  \<^verbatim>\<open>realloc\<close> of the outbound buffer; to zero bytes it frees the block and returns \<^verbatim>\<open>NULL\<close>, as in the GNU C
  library. The bytes behind the old ones have no defined value, and nothing reads them before a frame is
  written over them.
\<close>

definition realloc_buffer :: "nat option \<Rightarrow> nat \<Rightarrow> heap \<Rightarrow> nat option \<times> heap" where
  "realloc_buffer old n h =
    (case old of
       None \<Rightarrow> malloc n h
     | Some b \<Rightarrow> if n = 0 then (None, free b h) else realloc b n h)"

definition resize_outbound :: "nat \<Rightarrow> int io" where
  "resize_outbound n st =
    (case realloc_buffer (outbound_block st) n (c_heap (inp st)) of
       (None, h) \<Rightarrow> (Inr (code AMQP_STATUS_NO_MEMORY), set_heap h (st\<lparr>outbound_len := n\<rparr>))
     | (Some b, h) \<Rightarrow>
         (Inr OK, set_heap h (st\<lparr>outbound_len := n, outbound_block := Some b,
            outbound_buffer := take n (outbound_buffer st @ replicate n 0)\<rparr>)))"

definition amqp_tune_connection :: "int \<Rightarrow> int \<Rightarrow> int \<Rightarrow> int io" where
  "amqp_tune_connection chan_max fr_max hb st =
    (if conn_state (inp st) \<noteq> CONNECTION_STATE_IDLE then (Inl Aborted, st)
     else
       (case arm_send_heartbeat
               (st\<lparr>inp := (inp st)\<lparr>channel_max := chan_max, frame_max := fr_max\<rparr>,
                   heartbeat := (if 0 > hb then 0 else hb)\<rparr>) of
          (Inl e, st1) \<Rightarrow> (Inl e, st1)
        | (Inr res, st1) \<Rightarrow>
            if res \<noteq> OK then (Inr res, st1)
            else
              (case arm_recv_heartbeat st1 of
                 (Inl e, st2) \<Rightarrow> (Inl e, st2)
               | (Inr res2, st2) \<Rightarrow>
                   if res2 \<noteq> OK then (Inr res2, st2) else resize_outbound (size_of_int fr_max) st2)))"

definition amqp_get_channel_max :: "amqp_state \<Rightarrow> int" where
  "amqp_get_channel_max st = channel_max (inp st)"

definition amqp_get_frame_max :: "amqp_state \<Rightarrow> int" where
  "amqp_get_frame_max st = frame_max (inp st)"

definition amqp_get_heartbeat :: "amqp_state \<Rightarrow> int" where
  "amqp_get_heartbeat st = heartbeat st"

definition amqp_get_server_properties :: "amqp_state \<Rightarrow> amqp_table" where
  "amqp_get_server_properties st = server_properties st"

definition amqp_get_client_properties :: "amqp_state \<Rightarrow> amqp_table" where
  "amqp_get_client_properties st = client_properties st"

section \<open>amqp\_connection.c: amqp\_new\_connection\<close>

definition AMQP_INITIAL_FRAME_POOL_PAGE_SIZE :: int where "AMQP_INITIAL_FRAME_POOL_PAGE_SIZE = 65536"
definition AMQP_DEFAULT_LOGIN_TIMEOUT_SEC :: int where "AMQP_DEFAULT_LOGIN_TIMEOUT_SEC = 12"
definition sizeof_connection_state :: nat where "sizeof_connection_state = 424"

text \<open>The state as \<^verbatim>\<open>calloc\<close> leaves it, in the block \<open>b\<close>.\<close>

definition zeroed_state :: "nat \<Rightarrow> heap \<Rightarrow> amqp_bytes \<Rightarrow> world \<Rightarrow> amqp_state" where
  "zeroed_state b h stale w =
    \<lparr>state_block = b,
     inp = \<lparr>pool_table = \<lambda>_. [], c_heap = h, conn_state = CONNECTION_STATE_IDLE, channel_max = 0, frame_max = 0,
       header_buffer = replicate 8 0, inbound_buffer = In_pool [], inbound_offset = 0, target_size = 0,
       stale_memory = stale\<rparr>,
     heartbeat = 0, next_recv_heartbeat = \<lparr>time_point_ns = 0\<rparr>, next_send_heartbeat = \<lparr>time_point_ns = 0\<rparr>,
     outbound_buffer = [], outbound_block = None, outbound_len = 0, socket = None, sock_inbound_buffer = [],
     sock_inbound_block = None, sock_inbound_offset = 0, queued_frames = [],
     most_recent_api_result = \<lparr>reply_type = AMQP_RESPONSE_NONE, reply = None, library_error = 0\<rparr>,
     server_properties = [], client_properties = [],
     properties_pool = \<lparr>pagesize = 0, pages = empty_blocks, large_blocks = empty_blocks, next_page = 0,
       alloc_block = None, alloc_used = 0\<rparr>,
     handshake_timeout = None, os = w\<rparr>"

text \<open>The fields that are set once the buffers are there.\<close>

definition initial_state :: "nat \<Rightarrow> amqp_state \<Rightarrow> amqp_state" where
  "initial_state b st =
    st\<lparr>inp := (inp st)\<lparr>inbound_buffer := In_header_buffer, conn_state := CONNECTION_STATE_INITIAL, target_size := 8\<rparr>,
       sock_inbound_block := Some b, properties_pool := init_amqp_pool 512,
       handshake_timeout := Some \<lparr>tv_sec = AMQP_DEFAULT_LOGIN_TIMEOUT_SEC, tv_usec = 0\<rparr>\<rparr>"

definition amqp_new_connection :: "amqp_bytes \<Rightarrow> world \<Rightarrow> heap \<Rightarrow> amqp_state option \<times> heap" where
  "amqp_new_connection stale w h =
    (case malloc sizeof_connection_state h of
       (None, h1) \<Rightarrow> (None, h1)
     | (Some b, h1) \<Rightarrow>
         (case amqp_tune_connection 0 AMQP_INITIAL_FRAME_POOL_PAGE_SIZE 0 (zeroed_state b h1 stale w) of
            (Inl e, st) \<Rightarrow> (None, c_heap (inp st))
          | (Inr res, st) \<Rightarrow>
              if res \<noteq> 0 then (None, free b (c_heap (inp st)))
              else
                (case malloc AMQP_INITIAL_INBOUND_SOCK_BUFFER_SIZE (c_heap (inp st)) of
                   (None, h2) \<Rightarrow> (None, free b h2)
                 | (Some b2, h2) \<Rightarrow> (Some (initial_state b2 (set_heap h2 st)), h2))))"

section \<open>amqp\_api.c: the handshake timeout\<close>

definition amqp_get_handshake_timeout :: "amqp_state \<Rightarrow> timeval option" where
  "amqp_get_handshake_timeout st = handshake_timeout st"

definition amqp_set_handshake_timeout :: "timeval option \<Rightarrow> int io" where
  "amqp_set_handshake_timeout timeout st =
    (case timeout of
       Some t \<Rightarrow>
         if tv_sec t < 0 \<or> tv_usec t < 0 then (Inr (code AMQP_STATUS_INVALID_PARAMETER), st)
         else (Inr OK, st\<lparr>handshake_timeout := Some t\<rparr>)
     | None \<Rightarrow> (Inr OK, st\<lparr>handshake_timeout := None\<rparr>))"

end
