(* ===== verification/Amqp_Login.thy ===== *)
theory Amqp_Login
  imports Amqp_Rpc Amqp_Setup
begin

text \<open>
  The handshake of a connection (\<^verbatim>\<open>amqp_socket.c\<close>): the protocol header, the choice of a SASL mechanism, the
  client properties, the negotiation of the limits, and the opening of the virtual host.

  A C string is the list of its bytes. The name of the platform comes from the build and is an argument;
  the arguments behind the SASL method are a list of C strings.
\<close>

definition ascii :: "string \<Rightarrow> amqp_bytes" where
  "ascii s = map of_char s"

section \<open>The protocol header\<close>

definition AMQP_PROTOCOL_VERSION_MAJOR :: u8 where "AMQP_PROTOCOL_VERSION_MAJOR = 0"
definition AMQP_PROTOCOL_VERSION_MINOR :: u8 where "AMQP_PROTOCOL_VERSION_MINOR = 9"
definition AMQP_PROTOCOL_VERSION_REVISION :: u8 where "AMQP_PROTOCOL_VERSION_REVISION = 1"

definition protocol_header :: amqp_bytes where
  "protocol_header = ascii ''AMQP'' @
    [0, AMQP_PROTOCOL_VERSION_MAJOR, AMQP_PROTOCOL_VERSION_MINOR, AMQP_PROTOCOL_VERSION_REVISION]"

definition send_header_inner :: "amqp_time \<Rightarrow> int io" where
  "send_header_inner deadline =
    io_bind (amqp_try_send protocol_header deadline)
      (\<lambda>res. io_return (if res = int (length protocol_header) then OK else res))"

definition amqp_send_header :: "int io" where
  "amqp_send_header = send_header_inner amqp_time_infinite"

section \<open>SASL\<close>

datatype amqp_sasl_method_enum = AMQP_SASL_METHOD_UNDEFINED | AMQP_SASL_METHOD_PLAIN | AMQP_SASL_METHOD_EXTERNAL

definition sasl_method_name :: "amqp_sasl_method_enum \<Rightarrow> amqp_bytes outcome" where
  "sasl_method_name method =
    (case method of
       AMQP_SASL_METHOD_PLAIN \<Rightarrow> Inr (amqp_cstring_bytes (ascii ''PLAIN''))
     | AMQP_SASL_METHOD_EXTERNAL \<Rightarrow> Inr (amqp_cstring_bytes (ascii ''EXTERNAL''))
     | AMQP_SASL_METHOD_UNDEFINED \<Rightarrow> Inl Aborted)"

definition bytes_equal :: "amqp_bytes \<Rightarrow> amqp_bytes \<Rightarrow> bool" where
  "bytes_equal l r \<longleftrightarrow> length l = length r \<and> memcmp l r = 0"

text \<open>The loop, from \<^verbatim>\<open>start\<close> on; the words are separated by single blanks.\<close>

function mechanism_loop :: "amqp_bytes \<Rightarrow> amqp_bytes \<Rightarrow> bool" where
  "mechanism_loop mechanism start =
    (if bytes_equal mechanism (takeWhile (\<lambda>c. c \<noteq> 0x20) start) then True
     else
       (case dropWhile (\<lambda>c. c \<noteq> 0x20) start of
          [] \<Rightarrow> False
        | _ # rest \<Rightarrow> mechanism_loop mechanism rest))"
  by pat_completeness auto
termination
proof (relation "measure (\<lambda>(m, s). length s)", goal_cases)
  case (2 mechanism start x rest)
  have "length (dropWhile (\<lambda>c. c \<noteq> 0x20) start) \<le> length start" by (rule length_dropWhile_le)
  with 2 show ?case by simp
qed simp

declare mechanism_loop.simps [simp del]

definition sasl_mechanism_in_list :: "amqp_bytes \<Rightarrow> amqp_sasl_method_enum \<Rightarrow> bool outcome" where
  "sasl_mechanism_in_list mechanisms method =
    (case sasl_method_name method of
       Inl e \<Rightarrow> Inl e
     | Inr mechanism \<Rightarrow> Inr (mechanisms \<noteq> [] \<and> mechanism_loop mechanism mechanisms))"

definition sasl_response :: "amqp_sasl_method_enum \<Rightarrow> amqp_bytes list \<Rightarrow> amqp_bytes palloc" where
  "sasl_response method args =
    (case (method, args) of
       (AMQP_SASL_METHOD_PLAIN, username # password # _) \<Rightarrow>
         (let u = amqp_cstring_bytes username; p = amqp_cstring_bytes password
          in p_bind (p_alloc (length u + length p + 2)) (\<lambda>_. p_return ([0] @ u @ [0] @ p)))
     | (AMQP_SASL_METHOD_EXTERNAL, identity # _) \<Rightarrow>
         (let i = amqp_cstring_bytes identity in p_bind (p_alloc (length i)) (\<lambda>_. p_return i))
     | (AMQP_SASL_METHOD_UNDEFINED, _) \<Rightarrow> p_fail Aborted
     | _ \<Rightarrow> p_fail Undefined_behaviour)"

section \<open>The client properties\<close>

definition AMQP_VERSION_STRING :: string where "AMQP_VERSION_STRING = ''0.8.1-pre''"
definition AMQ_COPYRIGHT :: string where
  "AMQ_COPYRIGHT = ''Copyright (c) 2007-2014 VMWare Inc, Tony Garnock-Jones, and Alan Antonuk.''"

definition client_capabilities :: amqp_table where
  "client_capabilities = [amqp_table_construct_bool_entry (ascii ''authentication_failure_close'') True]"

definition default_properties :: "amqp_bytes \<Rightarrow> amqp_table" where
  "default_properties platform =
    [amqp_table_construct_utf8_entry (ascii ''product'') (ascii ''rabbitmq-c''),
     amqp_table_construct_utf8_entry (ascii ''version'') (ascii AMQP_VERSION_STRING),
     amqp_table_construct_utf8_entry (ascii ''platform'') platform,
     amqp_table_construct_utf8_entry (ascii ''copyright'') (ascii AMQ_COPYRIGHT),
     amqp_table_construct_utf8_entry (ascii ''information'') (ascii ''See https://github.com/alanxz/rabbitmq-c''),
     amqp_table_construct_table_entry (ascii ''capabilities'') client_capabilities]"

text \<open>Running code that allocates in the pool of channel zero, and in the pool of the properties.\<close>

definition in_channel_pool :: "u16 \<Rightarrow> 'a palloc \<Rightarrow> 'a io" where
  "in_channel_pool ch f st =
    (case amqp_get_or_create_channel_pool (inp st) ch of
       (None, c) \<Rightarrow> (Inl (Status AMQP_STATUS_NO_MEMORY), st\<lparr>inp := c\<rparr>)
     | (Some pool, c) \<Rightarrow>
         (case f (pool, c_heap c) of
            (r, p, h) \<Rightarrow> (r, st\<lparr>inp := (put_channel_pool c ch p)\<lparr>c_heap := h\<rparr>\<rparr>)))"

definition in_properties_pool :: "'a palloc \<Rightarrow> 'a io" where
  "in_properties_pool f st =
    (case f (properties_pool st, c_heap (inp st)) of
       (r, p, h) \<Rightarrow> (r, st\<lparr>properties_pool := p, inp := (inp st)\<lparr>c_heap := h\<rparr>\<rparr>))"

text \<open>A step of the handshake: a status ends it with a library exception.\<close>

definition or_exception :: "'a io \<Rightarrow> ('a \<Rightarrow> amqp_rpc_reply io) \<Rightarrow> amqp_rpc_reply io" where
  "or_exception m f st =
    (case m st of
       (Inl (Status s), st') \<Rightarrow> (Inr (library_exception (code s)), st')
     | (Inl e, st') \<Rightarrow> (Inl e, st')
     | (Inr v, st') \<Rightarrow> f v st')"

definition ok_or_exception :: "int io \<Rightarrow> amqp_rpc_reply io \<Rightarrow> amqp_rpc_reply io" where
  "ok_or_exception m f = io_bind m (\<lambda>res. if res \<noteq> OK then io_return (library_exception res) else f)"

section \<open>The limits\<close>

definition negotiate_channel_max :: "u16 \<Rightarrow> u16 \<Rightarrow> u16" where
  "negotiate_channel_max server client =
    (if server \<noteq> 0 \<and> (server < client \<or> client = 0) then server
     else if server = 0 \<and> client = 0 then 65535
     else client)"

definition negotiate_frame_max :: "u32 \<Rightarrow> u32 \<Rightarrow> u32" where
  "negotiate_frame_max server client = (if server \<noteq> 0 \<and> server < client then server else client)"

definition negotiate_heartbeat :: "u16 \<Rightarrow> u16 \<Rightarrow> u16" where
  "negotiate_heartbeat server client = (if server \<noteq> 0 \<and> server < client then server else client)"

section \<open>amqp\_login\<close>

text \<open>The parts of \<^verbatim>\<open>amqp_login_inner\<close>, last part first.\<close>

definition login_open :: "amqp_bytes \<Rightarrow> amqp_time \<Rightarrow> amqp_rpc_reply io" where
  "login_open vhost deadline =
    io_bind (simple_rpc_inner 0 AMQP_CONNECTION_OPEN_METHOD [AMQP_CONNECTION_OPEN_OK_METHOD, 0]
               (M_Connection (Connection_open (amqp_cstring_bytes vhost) [] True)) deadline)
      (\<lambda>result.
         if reply_type result \<noteq> AMQP_RESPONSE_NORMAL then io_return result
         else io_bind amqp_maybe_release_buffers (\<lambda>_. io_return (rpc_reply AMQP_RESPONSE_NORMAL None)))"

definition login_tune :: "amqp_bytes \<Rightarrow> u16 \<Rightarrow> u32 \<Rightarrow> u16 \<Rightarrow> amqp_time \<Rightarrow> amqp_rpc_reply io" where
  "login_tune vhost client_channel_max client_frame_max client_heartbeat deadline =
    io_bind (amqp_tune_connection (uint client_channel_max) (uint client_frame_max) (uint client_heartbeat))
      (\<lambda>res.
         if res < 0 then io_return (library_exception res)
         else
           io_bind (amqp_send_method_inner 0 AMQP_CONNECTION_TUNE_OK_METHOD
                      (M_Connection (Connection_tune_ok client_channel_max client_frame_max client_heartbeat)) deadline)
             (\<lambda>res2.
                if res2 < 0 then io_return (library_exception res2)
                else io_bind amqp_release_buffers (\<lambda>_. login_open vhost deadline)))"

definition login_wait_tune :: "amqp_bytes \<Rightarrow> u16 \<Rightarrow> u32 \<Rightarrow> u16 \<Rightarrow> amqp_time \<Rightarrow> amqp_rpc_reply io" where
  "login_wait_tune vhost client_channel_max client_frame_max client_heartbeat deadline =
    io_bind (amqp_simple_wait_method_list 0 [AMQP_CONNECTION_TUNE_METHOD, AMQP_CONNECTION_CLOSE_METHOD, 0] deadline)
      (\<lambda>(res, method).
         if res \<noteq> OK then io_return (library_exception res)
         else
           (case method of
              Some (_, M_Connection (Connection_tune server_channel_max server_frame_max server_heartbeat)) \<Rightarrow>
                login_tune vhost (negotiate_channel_max server_channel_max client_channel_max)
                  (negotiate_frame_max server_frame_max client_frame_max)
                  (negotiate_heartbeat server_heartbeat client_heartbeat) deadline
            | _ \<Rightarrow> io_return (rpc_reply AMQP_RESPONSE_SERVER_EXCEPTION method)))"

definition login_start_ok ::
    "amqp_bytes \<Rightarrow> amqp_table option \<Rightarrow> amqp_sasl_method_enum \<Rightarrow> amqp_bytes list \<Rightarrow> amqp_time
     \<Rightarrow> amqp_rpc_reply io \<Rightarrow> amqp_rpc_reply io" where
  "login_start_ok platform client_props sasl_method args deadline next =
    or_exception (in_channel_pool 0 (sasl_response sasl_method args))
      (\<lambda>response_bytes.
         or_exception (in_channel_pool 0 (amqp_merge_capabilities (default_properties platform) client_props))
           (\<lambda>props st.
              (case sasl_method_name sasl_method of
                 Inl e \<Rightarrow> (Inl e, st)
               | Inr mechanism \<Rightarrow>
                   io_bind (amqp_send_method_inner 0 AMQP_CONNECTION_START_OK_METHOD
                              (M_Connection (Connection_start_ok props mechanism response_bytes
                                 (amqp_cstring_bytes (ascii ''en_US'')))) deadline)
                     (\<lambda>res. if res < 0 then io_return (library_exception res)
                            else io_bind amqp_release_buffers (\<lambda>_. next))
                     (st\<lparr>client_properties := props\<rparr>))))"

definition check_mechanism :: "amqp_bytes \<Rightarrow> amqp_sasl_method_enum \<Rightarrow> unit io" where
  "check_mechanism mechanisms sasl_method st =
    (case sasl_mechanism_in_list mechanisms sasl_method of
       Inl e \<Rightarrow> (Inl e, st)
     | Inr False \<Rightarrow> (Inl (Status AMQP_STATUS_BROKER_UNSUPPORTED_SASL_METHOD), st)
     | Inr True \<Rightarrow> (Inr (), st))"

definition login_start :: "amqp_sasl_method_enum \<Rightarrow> amqp_time \<Rightarrow> amqp_rpc_reply io \<Rightarrow> amqp_rpc_reply io" where
  "login_start sasl_method deadline next =
    io_bind (simple_wait_method_inner 0 AMQP_CONNECTION_START_METHOD deadline)
      (\<lambda>(res, method).
         if res \<noteq> OK then io_return (library_exception res)
         else
           (case method of
              Some (_, M_Connection (Connection_start version_major version_minor server_props mechanisms locales)) \<Rightarrow>
                if version_major \<noteq> AMQP_PROTOCOL_VERSION_MAJOR \<or> version_minor \<noteq> AMQP_PROTOCOL_VERSION_MINOR
                then io_return (amqp_rpc_reply_error AMQP_STATUS_INCOMPATIBLE_AMQP_VERSION)
                else
                  or_exception (in_properties_pool (amqp_table_clone server_props))
                    (\<lambda>props st. or_exception (check_mechanism mechanisms sasl_method) (\<lambda>_. next)
                                  (st\<lparr>server_properties := props\<rparr>))
            | _ \<Rightarrow> (\<lambda>st. (Inl Undefined_behaviour, st))))"

definition amqp_login_inner ::
    "amqp_bytes \<Rightarrow> amqp_bytes \<Rightarrow> int \<Rightarrow> int \<Rightarrow> int \<Rightarrow> amqp_table option \<Rightarrow> timeval option
     \<Rightarrow> amqp_sasl_method_enum \<Rightarrow> amqp_bytes list \<Rightarrow> amqp_rpc_reply io" where
  "amqp_login_inner platform vhost chan_max fr_max hb client_props timeout sasl_method args st =
    (if chan_max < 0 \<or> chan_max > 65535 then (Inr (amqp_rpc_reply_error AMQP_STATUS_INVALID_PARAMETER), st)
     else if fr_max < 0 then (Inr (amqp_rpc_reply_error AMQP_STATUS_INVALID_PARAMETER), st)
     else if hb < 0 \<or> hb > 65535 then (Inr (amqp_rpc_reply_error AMQP_STATUS_INVALID_PARAMETER), st)
     else
       (case read_clock (os st) of
          (now, w) \<Rightarrow>
            (case amqp_time_from_now now timeout of
               Inl (Status s) \<Rightarrow> (Inr (library_exception (code s)), st\<lparr>os := w\<rparr>)
             | Inl e \<Rightarrow> (Inl e, st\<lparr>os := w\<rparr>)
             | Inr deadline \<Rightarrow>
                 ok_or_exception (send_header_inner deadline)
                   (login_start sasl_method deadline
                      (login_start_ok platform client_props sasl_method args deadline
                         (login_wait_tune vhost (word_of_int chan_max) (word_of_int fr_max)
                            (word_of_int hb) deadline)))
                   (st\<lparr>os := w\<rparr>))))"

definition amqp_login ::
    "amqp_bytes \<Rightarrow> amqp_bytes \<Rightarrow> int \<Rightarrow> int \<Rightarrow> int \<Rightarrow> amqp_sasl_method_enum \<Rightarrow> amqp_bytes list \<Rightarrow> amqp_rpc_reply io" where
  "amqp_login platform vhost chan_max fr_max hb sasl_method args st =
    amqp_login_inner platform vhost chan_max fr_max hb (Some []) (handshake_timeout st) sasl_method args st"

definition amqp_login_with_properties ::
    "amqp_bytes \<Rightarrow> amqp_bytes \<Rightarrow> int \<Rightarrow> int \<Rightarrow> int \<Rightarrow> amqp_table option \<Rightarrow> amqp_sasl_method_enum \<Rightarrow> amqp_bytes list
     \<Rightarrow> amqp_rpc_reply io" where
  "amqp_login_with_properties platform vhost chan_max fr_max hb client_props sasl_method args st =
    amqp_login_inner platform vhost chan_max fr_max hb client_props (handshake_timeout st) sasl_method args st"

end
