(* ===== verification/Amqp_Api.thy ===== *)
theory Amqp_Api
  imports Amqp_Login Amqp_Url
begin

text \<open>
  The functions an application calls: publishing, acknowledging and closing (\<^verbatim>\<open>amqp_api.c\<close>), and the
  wrappers around the RPC engine at the end of \<^verbatim>\<open>amqp_framing.c\<close>, which fill in a request and wait for
  the reply that belongs to it.
\<close>

section \<open>amqp\_api.c: amqp\_basic\_publish\<close>

definition usable_body_payload_size :: "amqp_state \<Rightarrow> nat" where
  "usable_body_payload_size st = size_of_int (frame_max (inp st) - int (HEADER_SIZE + FOOTER_SIZE))"

definition body_frame :: "u16 \<Rightarrow> amqp_bytes \<Rightarrow> amqp_frame" where
  "body_frame channel fragment =
    \<lparr>frame_type = FRAME_BODY, frame_channel = channel, frame_payload = Body_payload fragment\<rparr>"

text \<open>The field \<^verbatim>\<open>raw\<close> of the header frame is not set.\<close>

definition header_frame :: "u16 \<Rightarrow> u64 \<Rightarrow> amqp_basic_properties \<Rightarrow> amqp_frame" where
  "header_frame channel body_size properties =
    \<lparr>frame_type = FRAME_HEADER, frame_channel = channel,
     frame_payload = Properties_payload 60 body_size (Basic_properties properties) []\<rparr>"

definition empty_properties :: amqp_basic_properties where
  "empty_properties =
    \<lparr>bp_flags = 0, bp_content_type = None, bp_content_encoding = None, bp_headers = None, bp_delivery_mode = None,
     bp_priority = None, bp_correlation_id = None, bp_reply_to = None, bp_expiration = None, bp_message_id = None,
     bp_timestamp = None, bp_type = None, bp_user_id = None, bp_app_id = None, bp_cluster_id = None\<rparr>"

text \<open>The loop over the body; \<open>rest\<close> is what lies behind \<^verbatim>\<open>body_offset\<close>.\<close>

function publish_body :: "u16 \<Rightarrow> nat \<Rightarrow> amqp_bytes \<Rightarrow> int io" where
  "publish_body channel usable rest st =
    (if rest = [] then (Inr OK, st)
     else
       (let n = (if usable \<le> length rest then usable else length rest)
        in case amqp_send_frame_inner (body_frame channel (take n rest)) amqp_time_infinite st of
             (Inl e, st1) \<Rightarrow> (Inl e, st1)
           | (Inr res, st1) \<Rightarrow>
               if res < 0 then (Inr res, st1)
               else if advances st st1 then publish_body channel usable (drop n rest) st1
               else (Inl Out_of_fuel, st1)))"
  by pat_completeness auto
termination
  by (relation "inv_image (less_than <*lex*> less_than) (\<lambda>(c, n, b, st). (calls_left (os st), bytes_left st))")
    (auto simp: advances_def)

declare publish_body.simps [simp del]

text \<open>A late heartbeat of the broker is looked for before anything is sent.\<close>

definition check_recv_heartbeat :: "int io" where
  "check_recv_heartbeat st =
    (case read_clock (os st) of
       (now, w) \<Rightarrow>
         (case amqp_time_has_past now (next_recv_heartbeat st) of
            AMQP_STATUS_TIMER_FAILURE \<Rightarrow> (Inr (code AMQP_STATUS_TIMER_FAILURE), st\<lparr>os := w\<rparr>)
          | AMQP_STATUS_TIMEOUT \<Rightarrow>
              io_bind amqp_try_recv
                (\<lambda>res. io_return (if res = code AMQP_STATUS_TIMEOUT then code AMQP_STATUS_HEARTBEAT_TIMEOUT else res))
                (st\<lparr>os := w\<rparr>)
          | _ \<Rightarrow> (Inr OK, st\<lparr>os := w\<rparr>)))"

definition amqp_basic_publish ::
    "u16 \<Rightarrow> amqp_bytes \<Rightarrow> amqp_bytes \<Rightarrow> bool \<Rightarrow> bool \<Rightarrow> amqp_basic_properties option \<Rightarrow> amqp_bytes \<Rightarrow> int io" where
  "amqp_basic_publish channel exchange routing_key mandatory immediate properties body st =
    (let usable = usable_body_payload_size st
     in io_bind check_recv_heartbeat
          (\<lambda>res.
             if res \<noteq> OK then io_return res
             else
               io_bind (amqp_send_method_inner channel AMQP_BASIC_PUBLISH_METHOD
                          (M_Basic (Basic_publish 0 exchange routing_key mandatory immediate)) amqp_time_infinite)
                 (\<lambda>res2.
                    if res2 < 0 then io_return res2
                    else
                      io_bind (amqp_send_frame_inner
                                 (header_frame channel (of_nat (length body))
                                    (case properties of None \<Rightarrow> empty_properties | Some p \<Rightarrow> p)) amqp_time_infinite)
                        (\<lambda>res3. if res3 < 0 then io_return res3 else publish_body channel usable body))) st)"

section \<open>amqp\_api.c: closing and acknowledging\<close>

definition amqp_channel_close :: "u16 \<Rightarrow> int \<Rightarrow> amqp_rpc_reply io" where
  "amqp_channel_close channel reply_code =
    (if reply_code < 0 \<or> reply_code > 65535 then io_return (amqp_rpc_reply_error AMQP_STATUS_INVALID_PARAMETER)
     else
       amqp_simple_rpc channel AMQP_CHANNEL_CLOSE_METHOD [AMQP_CHANNEL_CLOSE_OK_METHOD, 0]
         (M_Channel (Channel_close (word_of_int reply_code) (dec_text (nat reply_code)) 0 0)))"

definition amqp_connection_close :: "int \<Rightarrow> amqp_rpc_reply io" where
  "amqp_connection_close reply_code =
    (if reply_code < 0 \<or> reply_code > 65535 then io_return (amqp_rpc_reply_error AMQP_STATUS_INVALID_PARAMETER)
     else
       amqp_simple_rpc 0 AMQP_CONNECTION_CLOSE_METHOD [AMQP_CONNECTION_CLOSE_OK_METHOD, 0]
         (M_Connection (Connection_close (word_of_int reply_code) (dec_text (nat reply_code)) 0 0)))"

definition amqp_basic_ack :: "u16 \<Rightarrow> u64 \<Rightarrow> bool \<Rightarrow> int io" where
  "amqp_basic_ack channel delivery_tag multiple =
    amqp_send_method channel AMQP_BASIC_ACK_METHOD (M_Basic (Basic_ack delivery_tag multiple))"

definition amqp_basic_get :: "u16 \<Rightarrow> amqp_bytes \<Rightarrow> bool \<Rightarrow> amqp_rpc_reply io" where
  "amqp_basic_get channel queue no_ack =
    io_bind (amqp_simple_rpc channel AMQP_BASIC_GET_METHOD
               [AMQP_BASIC_GET_OK_METHOD, AMQP_BASIC_GET_EMPTY_METHOD, 0] (M_Basic (Basic_get 0 queue no_ack)))
      (\<lambda>result st. (Inr result, st\<lparr>most_recent_api_result := result\<rparr>))"

definition amqp_basic_reject :: "u16 \<Rightarrow> u64 \<Rightarrow> bool \<Rightarrow> int io" where
  "amqp_basic_reject channel delivery_tag requeue =
    amqp_send_method channel AMQP_BASIC_REJECT_METHOD (M_Basic (Basic_reject delivery_tag requeue))"

definition amqp_basic_nack :: "u16 \<Rightarrow> u64 \<Rightarrow> bool \<Rightarrow> bool \<Rightarrow> int io" where
  "amqp_basic_nack channel delivery_tag multiple requeue =
    amqp_send_method channel AMQP_BASIC_NACK_METHOD (M_Basic (Basic_nack delivery_tag multiple requeue))"

section \<open>amqp\_framing.c: the RPC wrappers\<close>

definition amqp_channel_open :: "u16 \<Rightarrow> amqp_method_struct option io" where
  "amqp_channel_open channel =
    amqp_simple_rpc_decoded channel AMQP_CHANNEL_OPEN_METHOD AMQP_CHANNEL_OPEN_OK_METHOD
      (M_Channel (Channel_open []))"

definition amqp_channel_flow :: "u16 \<Rightarrow> bool \<Rightarrow> amqp_method_struct option io" where
  "amqp_channel_flow channel active =
    amqp_simple_rpc_decoded channel AMQP_CHANNEL_FLOW_METHOD AMQP_CHANNEL_FLOW_OK_METHOD
      (M_Channel (Channel_flow active))"

definition amqp_exchange_declare :: "u16 \<Rightarrow> amqp_bytes \<Rightarrow> amqp_bytes \<Rightarrow> bool \<Rightarrow> bool \<Rightarrow> bool \<Rightarrow> bool \<Rightarrow> amqp_table \<Rightarrow> amqp_method_struct option io" where
  "amqp_exchange_declare channel exchange typ passive durable auto_delete internal arguments =
    amqp_simple_rpc_decoded channel AMQP_EXCHANGE_DECLARE_METHOD AMQP_EXCHANGE_DECLARE_OK_METHOD
      (M_Exchange (Exchange_declare 0 exchange typ passive durable auto_delete internal False arguments))"

definition amqp_exchange_delete :: "u16 \<Rightarrow> amqp_bytes \<Rightarrow> bool \<Rightarrow> amqp_method_struct option io" where
  "amqp_exchange_delete channel exchange if_unused =
    amqp_simple_rpc_decoded channel AMQP_EXCHANGE_DELETE_METHOD AMQP_EXCHANGE_DELETE_OK_METHOD
      (M_Exchange (Exchange_delete 0 exchange if_unused False))"

definition amqp_exchange_bind :: "u16 \<Rightarrow> amqp_bytes \<Rightarrow> amqp_bytes \<Rightarrow> amqp_bytes \<Rightarrow> amqp_table \<Rightarrow> amqp_method_struct option io" where
  "amqp_exchange_bind channel destination src routing_key arguments =
    amqp_simple_rpc_decoded channel AMQP_EXCHANGE_BIND_METHOD AMQP_EXCHANGE_BIND_OK_METHOD
      (M_Exchange (Exchange_bind 0 destination src routing_key False arguments))"

definition amqp_exchange_unbind :: "u16 \<Rightarrow> amqp_bytes \<Rightarrow> amqp_bytes \<Rightarrow> amqp_bytes \<Rightarrow> amqp_table \<Rightarrow> amqp_method_struct option io" where
  "amqp_exchange_unbind channel destination src routing_key arguments =
    amqp_simple_rpc_decoded channel AMQP_EXCHANGE_UNBIND_METHOD AMQP_EXCHANGE_UNBIND_OK_METHOD
      (M_Exchange (Exchange_unbind 0 destination src routing_key False arguments))"

definition amqp_queue_declare :: "u16 \<Rightarrow> amqp_bytes \<Rightarrow> bool \<Rightarrow> bool \<Rightarrow> bool \<Rightarrow> bool \<Rightarrow> amqp_table \<Rightarrow> amqp_method_struct option io" where
  "amqp_queue_declare channel queue passive durable exclusive auto_delete arguments =
    amqp_simple_rpc_decoded channel AMQP_QUEUE_DECLARE_METHOD AMQP_QUEUE_DECLARE_OK_METHOD
      (M_Queue (Queue_declare 0 queue passive durable exclusive auto_delete False arguments))"

definition amqp_queue_bind :: "u16 \<Rightarrow> amqp_bytes \<Rightarrow> amqp_bytes \<Rightarrow> amqp_bytes \<Rightarrow> amqp_table \<Rightarrow> amqp_method_struct option io" where
  "amqp_queue_bind channel queue exchange routing_key arguments =
    amqp_simple_rpc_decoded channel AMQP_QUEUE_BIND_METHOD AMQP_QUEUE_BIND_OK_METHOD
      (M_Queue (Queue_bind 0 queue exchange routing_key False arguments))"

definition amqp_queue_purge :: "u16 \<Rightarrow> amqp_bytes \<Rightarrow> amqp_method_struct option io" where
  "amqp_queue_purge channel queue =
    amqp_simple_rpc_decoded channel AMQP_QUEUE_PURGE_METHOD AMQP_QUEUE_PURGE_OK_METHOD
      (M_Queue (Queue_purge 0 queue False))"

definition amqp_queue_delete :: "u16 \<Rightarrow> amqp_bytes \<Rightarrow> bool \<Rightarrow> bool \<Rightarrow> amqp_method_struct option io" where
  "amqp_queue_delete channel queue if_unused if_empty =
    amqp_simple_rpc_decoded channel AMQP_QUEUE_DELETE_METHOD AMQP_QUEUE_DELETE_OK_METHOD
      (M_Queue (Queue_delete 0 queue if_unused if_empty False))"

definition amqp_queue_unbind :: "u16 \<Rightarrow> amqp_bytes \<Rightarrow> amqp_bytes \<Rightarrow> amqp_bytes \<Rightarrow> amqp_table \<Rightarrow> amqp_method_struct option io" where
  "amqp_queue_unbind channel queue exchange routing_key arguments =
    amqp_simple_rpc_decoded channel AMQP_QUEUE_UNBIND_METHOD AMQP_QUEUE_UNBIND_OK_METHOD
      (M_Queue (Queue_unbind 0 queue exchange routing_key arguments))"

definition amqp_basic_qos :: "u16 \<Rightarrow> u32 \<Rightarrow> u16 \<Rightarrow> bool \<Rightarrow> amqp_method_struct option io" where
  "amqp_basic_qos channel prefetch_size prefetch_count global =
    amqp_simple_rpc_decoded channel AMQP_BASIC_QOS_METHOD AMQP_BASIC_QOS_OK_METHOD
      (M_Basic (Basic_qos prefetch_size prefetch_count global))"

definition amqp_basic_consume :: "u16 \<Rightarrow> amqp_bytes \<Rightarrow> amqp_bytes \<Rightarrow> bool \<Rightarrow> bool \<Rightarrow> bool \<Rightarrow> amqp_table \<Rightarrow> amqp_method_struct option io" where
  "amqp_basic_consume channel queue consumer_tag no_local no_ack exclusive arguments =
    amqp_simple_rpc_decoded channel AMQP_BASIC_CONSUME_METHOD AMQP_BASIC_CONSUME_OK_METHOD
      (M_Basic (Basic_consume 0 queue consumer_tag no_local no_ack exclusive False arguments))"

definition amqp_basic_cancel :: "u16 \<Rightarrow> amqp_bytes \<Rightarrow> amqp_method_struct option io" where
  "amqp_basic_cancel channel consumer_tag =
    amqp_simple_rpc_decoded channel AMQP_BASIC_CANCEL_METHOD AMQP_BASIC_CANCEL_OK_METHOD
      (M_Basic (Basic_cancel consumer_tag False))"

definition amqp_basic_recover :: "u16 \<Rightarrow> bool \<Rightarrow> amqp_method_struct option io" where
  "amqp_basic_recover channel requeue =
    amqp_simple_rpc_decoded channel AMQP_BASIC_RECOVER_METHOD AMQP_BASIC_RECOVER_OK_METHOD
      (M_Basic (Basic_recover requeue))"

definition amqp_tx_select :: "u16 \<Rightarrow> amqp_method_struct option io" where
  "amqp_tx_select channel =
    amqp_simple_rpc_decoded channel AMQP_TX_SELECT_METHOD AMQP_TX_SELECT_OK_METHOD
      (M_Tx Tx_select)"

definition amqp_tx_commit :: "u16 \<Rightarrow> amqp_method_struct option io" where
  "amqp_tx_commit channel =
    amqp_simple_rpc_decoded channel AMQP_TX_COMMIT_METHOD AMQP_TX_COMMIT_OK_METHOD
      (M_Tx Tx_commit)"

definition amqp_tx_rollback :: "u16 \<Rightarrow> amqp_method_struct option io" where
  "amqp_tx_rollback channel =
    amqp_simple_rpc_decoded channel AMQP_TX_ROLLBACK_METHOD AMQP_TX_ROLLBACK_OK_METHOD
      (M_Tx Tx_rollback)"

definition amqp_confirm_select :: "u16 \<Rightarrow> amqp_method_struct option io" where
  "amqp_confirm_select channel =
    amqp_simple_rpc_decoded channel AMQP_CONFIRM_SELECT_METHOD AMQP_CONFIRM_SELECT_OK_METHOD
      (M_Confirm (Confirm_select False))"

end
