(* ===== verification/Amqp_Consumer.thy ===== *)
theory Amqp_Consumer
  imports Amqp_Api
begin

text \<open>
  Reading messages (\<^verbatim>\<open>amqp_consumer.c\<close>): a message is a header frame and body frames on one channel, put
  together in memory of its own. The properties are copied into the pool of the message, the body into a
  block of the heap of the connection.
\<close>

record amqp_message =
  msg_properties :: amqp_basic_properties
  msg_body :: heap_bytes
  msg_pool :: amqp_pool

record amqp_envelope =
  env_channel :: u16
  env_consumer_tag :: heap_bytes
  env_delivery_tag :: u64
  env_redelivered :: bool
  env_exchange :: heap_bytes
  env_routing_key :: heap_bytes
  env_message :: amqp_message

abbreviation no_bytes :: heap_bytes where
  "no_bytes \<equiv> \<lparr>hb_bytes = [], hb_block = None\<rparr>"

text \<open>The structs after \<^verbatim>\<open>memset\<close>.\<close>

definition zeroed_message :: amqp_message where
  "zeroed_message =
    \<lparr>msg_properties = empty_properties, msg_body = no_bytes,
     msg_pool = \<lparr>pagesize = 0, pages = empty_blocks, large_blocks = empty_blocks, next_page = 0,
       alloc_block = None, alloc_used = 0\<rparr>\<rparr>"

definition zeroed_envelope :: amqp_envelope where
  "zeroed_envelope =
    \<lparr>env_channel = 0, env_consumer_tag = no_bytes, env_delivery_tag = 0, env_redelivered = False,
     env_exchange = no_bytes, env_routing_key = no_bytes, env_message = zeroed_message\<rparr>"

section \<open>amqp\_basic\_properties\_clone\<close>

text \<open>A field whose flag is set is copied; in properties that were decoded it has a value.\<close>

definition clone_flagged :: "amqp_flags \<Rightarrow> amqp_flags \<Rightarrow> ('a \<Rightarrow> 'a palloc) \<Rightarrow> 'a option \<Rightarrow> 'a option palloc" where
  "clone_flagged flags fmask clone original =
    (if flags AND fmask \<noteq> 0 then
       (case original of
          None \<Rightarrow> p_fail Undefined_behaviour
        | Some v \<Rightarrow> p_bind (clone v) (\<lambda>v'. p_return (Some v')))
     else p_return None)"

definition amqp_basic_properties_clone :: "amqp_basic_properties \<Rightarrow> amqp_basic_properties palloc" where
  "amqp_basic_properties_clone original =
    (let flags = bp_flags original
     in p_bind (clone_flagged flags AMQP_BASIC_CONTENT_TYPE_FLAG clone_bytes (bp_content_type original)) (\<lambda>content_type.
        p_bind (clone_flagged flags AMQP_BASIC_CONTENT_ENCODING_FLAG clone_bytes (bp_content_encoding original)) (\<lambda>content_encoding.
        p_bind (clone_flagged flags AMQP_BASIC_HEADERS_FLAG amqp_table_clone (bp_headers original)) (\<lambda>headers.
        p_bind (clone_flagged flags AMQP_BASIC_DELIVERY_MODE_FLAG p_return (bp_delivery_mode original)) (\<lambda>delivery_mode.
        p_bind (clone_flagged flags AMQP_BASIC_PRIORITY_FLAG p_return (bp_priority original)) (\<lambda>priority.
        p_bind (clone_flagged flags AMQP_BASIC_CORRELATION_ID_FLAG clone_bytes (bp_correlation_id original)) (\<lambda>correlation_id.
        p_bind (clone_flagged flags AMQP_BASIC_REPLY_TO_FLAG clone_bytes (bp_reply_to original)) (\<lambda>reply_to.
        p_bind (clone_flagged flags AMQP_BASIC_EXPIRATION_FLAG clone_bytes (bp_expiration original)) (\<lambda>expiration.
        p_bind (clone_flagged flags AMQP_BASIC_MESSAGE_ID_FLAG clone_bytes (bp_message_id original)) (\<lambda>message_id.
        p_bind (clone_flagged flags AMQP_BASIC_TIMESTAMP_FLAG p_return (bp_timestamp original)) (\<lambda>timestamp.
        p_bind (clone_flagged flags AMQP_BASIC_TYPE_FLAG clone_bytes (bp_type original)) (\<lambda>typ.
        p_bind (clone_flagged flags AMQP_BASIC_USER_ID_FLAG clone_bytes (bp_user_id original)) (\<lambda>user_id.
        p_bind (clone_flagged flags AMQP_BASIC_APP_ID_FLAG clone_bytes (bp_app_id original)) (\<lambda>app_id.
        p_bind (clone_flagged flags AMQP_BASIC_CLUSTER_ID_FLAG clone_bytes (bp_cluster_id original)) (\<lambda>cluster_id.
        p_return \<lparr>bp_flags = flags, bp_content_type = content_type, bp_content_encoding = content_encoding,
          bp_headers = headers, bp_delivery_mode = delivery_mode, bp_priority = priority,
          bp_correlation_id = correlation_id, bp_reply_to = reply_to, bp_expiration = expiration,
          bp_message_id = message_id, bp_timestamp = timestamp, bp_type = typ, bp_user_id = user_id,
          bp_app_id = app_id, bp_cluster_id = cluster_id\<rparr>)))))))))))))))"

section \<open>Freeing messages\<close>

definition amqp_destroy_message :: "amqp_message \<Rightarrow> heap \<Rightarrow> heap" where
  "amqp_destroy_message message h =
    amqp_bytes_free (msg_body message) (snd (empty_amqp_pool (msg_pool message) h))"

definition amqp_destroy_envelope :: "amqp_envelope \<Rightarrow> heap \<Rightarrow> heap" where
  "amqp_destroy_envelope envelope h =
    amqp_bytes_free (env_consumer_tag envelope) (amqp_bytes_free (env_exchange envelope)
      (amqp_bytes_free (env_routing_key envelope) (amqp_destroy_message (env_message envelope) h)))"

definition amqp_bytes_malloc_dup_failed :: "heap_bytes \<Rightarrow> bool" where
  "amqp_bytes_malloc_dup_failed bytes \<longleftrightarrow> length (hb_bytes bytes) \<noteq> 0 \<and> hb_block bytes = None"

section \<open>amqp\_read\_message\<close>

text \<open>The heap of the connection is the heap of the process.\<close>

definition with_heap :: "(heap \<Rightarrow> 'a \<times> heap) \<Rightarrow> 'a io" where
  "with_heap f st = (case f (c_heap (inp st)) of (v, h) \<Rightarrow> (Inr v, set_heap h st))"

definition closes :: "amqp_frame \<Rightarrow> bool" where
  "closes frame \<longleftrightarrow>
    (case frame_method frame of
       None \<Rightarrow> False
     | Some (mid, _) \<Rightarrow> mid = AMQP_CHANNEL_CLOSE_METHOD \<or> mid = AMQP_CONNECTION_CLOSE_METHOD)"

text \<open>
  The loop over the body frames: \<open>len\<close> is the length of the body, \<open>acc\<close> what has been read. The result is
  \<open>Inr\<close> the body, or \<open>Inl\<close> the reply that ends the reading early.
\<close>

function read_body :: "u16 \<Rightarrow> nat \<Rightarrow> amqp_bytes \<Rightarrow> (amqp_rpc_reply + amqp_bytes) io" where
  "read_body channel len acc st =
    (if length acc < len then
       (case amqp_simple_wait_frame_on_channel channel st of
          (Inl e, st1) \<Rightarrow> (Inl e, st1)
        | (Inr (res, frame), st1) \<Rightarrow>
            if res \<noteq> OK then (Inr (Inl (library_exception res)), st1)
            else if frame_type frame \<noteq> FRAME_BODY then
              (if closes frame then (Inr (Inl (rpc_reply AMQP_RESPONSE_SERVER_EXCEPTION (frame_method frame))), st1)
               else (Inr (Inl (amqp_rpc_reply_error AMQP_STATUS_BAD_AMQP_DATA)), st1))
            else
              (case frame_payload frame of
                 Body_payload fragment \<Rightarrow>
                   if len < sz_add (length acc) (length fragment)
                   then (Inr (Inl (amqp_rpc_reply_error AMQP_STATUS_BAD_AMQP_DATA)), st1)
                   else if advances st st1 \<or> length (queued_frames st1) < length (queued_frames st)
                           \<and> calls_left (os st1) = calls_left (os st) \<and> bytes_left st1 = bytes_left st
                   then read_body channel len (acc @ fragment) st1
                   else (Inl Out_of_fuel, st1)
               | _ \<Rightarrow> (Inl Undefined_behaviour, st1)))
     else (Inr (Inr acc), st))"
  by pat_completeness auto
termination
  by (relation "inv_image (less_than <*lex*> less_than <*lex*> less_than)
      (\<lambda>(c, n, a, st). (calls_left (os st), bytes_left st, length (queued_frames st)))")
    (auto simp: advances_def)

declare read_body.simps [simp del]

text \<open>
  Behind the header: a body of length zero needs no memory; when the memory for a longer one is refused
  the pool of the message is not emptied.
\<close>

definition read_content :: "u16 \<Rightarrow> nat \<Rightarrow> amqp_message \<Rightarrow> (amqp_rpc_reply \<times> amqp_message) io" where
  "read_content channel body_size message =
    io_bind (if body_size = 0 then io_return None else with_heap (malloc body_size))
      (\<lambda>block.
         if body_size \<noteq> 0 \<and> block = None
         then io_return (amqp_rpc_reply_error AMQP_STATUS_NO_MEMORY, message)
         else
           io_bind (read_body channel body_size [])
             (\<lambda>r.
                case r of
                  Inr body \<Rightarrow>
                    io_return (rpc_reply AMQP_RESPONSE_NORMAL None,
                      message\<lparr>msg_body := \<lparr>hb_bytes = body, hb_block = block\<rparr>\<rparr>)
                | Inl ret \<Rightarrow>
                    io_bind (with_heap (\<lambda>h. ((), free_opt block h)))
                      (\<lambda>_. io_bind (with_heap (empty_amqp_pool (msg_pool message)))
                         (\<lambda>pool. io_return (ret, message\<lparr>msg_body := \<lparr>hb_bytes = [], hb_block = block\<rparr>, msg_pool := pool\<rparr>)))))"

definition read_header :: "u16 \<Rightarrow> amqp_basic_properties \<Rightarrow> u64 \<Rightarrow> (amqp_rpc_reply \<times> amqp_message) io" where
  "read_header channel properties body_size st =
    (case amqp_basic_properties_clone properties (init_amqp_pool 4096, c_heap (inp st)) of
       (Inl (Status s), pool, h) \<Rightarrow>
         io_bind (with_heap (empty_amqp_pool pool))
           (\<lambda>pool'. io_return (library_exception (code s), zeroed_message\<lparr>msg_pool := pool'\<rparr>)) (set_heap h st)
     | (Inl e, pool, h) \<Rightarrow> (Inl e, set_heap h st)
     | (Inr props, pool, h) \<Rightarrow>
         read_content channel (unat body_size) (zeroed_message\<lparr>msg_properties := props, msg_pool := pool\<rparr>)
           (set_heap h st))"

definition amqp_read_message :: "u16 \<Rightarrow> (amqp_rpc_reply \<times> amqp_message) io" where
  "amqp_read_message channel =
    io_bind (amqp_simple_wait_frame_on_channel channel)
      (\<lambda>(res, frame).
         if res \<noteq> OK then io_return (library_exception res, zeroed_message)
         else if frame_type frame \<noteq> FRAME_HEADER then
           (if closes frame
            then io_return (rpc_reply AMQP_RESPONSE_SERVER_EXCEPTION (frame_method frame), zeroed_message)
            else
              io_bind (amqp_put_back_frame frame)
                (\<lambda>_. io_return (amqp_rpc_reply_error AMQP_STATUS_UNEXPECTED_STATE, zeroed_message)))
         else
           (case frame_payload frame of
              Properties_payload _ body_size (Basic_properties properties) _ \<Rightarrow> read_header channel properties body_size
            | _ \<Rightarrow> (\<lambda>st. (Inl Undefined_behaviour, st))))"

section \<open>amqp\_consume\_message\<close>

text \<open>What happens to a delivery: the strings are copied, then the message is read.\<close>

definition free_strings :: "amqp_envelope \<Rightarrow> heap \<Rightarrow> heap" where
  "free_strings env h =
    amqp_bytes_free (env_consumer_tag env) (amqp_bytes_free (env_exchange env) (amqp_bytes_free (env_routing_key env) h))"

definition consume_delivery ::
    "u16 \<Rightarrow> amqp_bytes \<Rightarrow> u64 \<Rightarrow> bool \<Rightarrow> amqp_bytes \<Rightarrow> amqp_bytes \<Rightarrow> (amqp_rpc_reply \<times> amqp_envelope) io" where
  "consume_delivery channel consumer_tag delivery_tag redelivered exchange routing_key =
    io_bind (with_heap (amqp_bytes_malloc_dup consumer_tag)) (\<lambda>tag.
    io_bind (with_heap (amqp_bytes_malloc_dup exchange)) (\<lambda>ex.
    io_bind (with_heap (amqp_bytes_malloc_dup routing_key)) (\<lambda>key.
      let env = zeroed_envelope\<lparr>env_channel := channel, env_consumer_tag := tag, env_delivery_tag := delivery_tag,
            env_redelivered := redelivered, env_exchange := ex, env_routing_key := key\<rparr>
      in if amqp_bytes_malloc_dup_failed tag \<or> amqp_bytes_malloc_dup_failed ex \<or> amqp_bytes_malloc_dup_failed key
         then io_bind (with_heap (\<lambda>h. ((), free_strings env h)))
                (\<lambda>_. io_return (amqp_rpc_reply_error AMQP_STATUS_NO_MEMORY, env))
         else
           io_bind (amqp_read_message channel) (\<lambda>(ret, message).
             let env' = env\<lparr>env_message := message\<rparr>
             in if reply_type ret \<noteq> AMQP_RESPONSE_NORMAL
                then io_bind (with_heap (\<lambda>h. ((), free_strings env' h))) (\<lambda>_. io_return (ret, env'))
                else io_return (ret, env')))))"

definition amqp_consume_message :: "timeval option \<Rightarrow> (amqp_rpc_reply \<times> amqp_envelope) io" where
  "amqp_consume_message timeout =
    io_bind (amqp_simple_wait_frame_noblock timeout)
      (\<lambda>(res, frame).
         if res \<noteq> OK then io_return (library_exception res, zeroed_envelope)
         else
           (case frame_method frame of
              Some (_, M_Basic (Basic_deliver consumer_tag delivery_tag redelivered exchange routing_key)) \<Rightarrow>
                consume_delivery (frame_channel frame) consumer_tag delivery_tag redelivered exchange routing_key
            | _ \<Rightarrow>
                io_bind (amqp_put_back_frame frame)
                  (\<lambda>_. io_return (amqp_rpc_reply_error AMQP_STATUS_UNEXPECTED_STATE, zeroed_envelope))))"

end
