(* ===== verification/Amqp_Delivery.thy ===== *)
theory Amqp_Delivery
  imports Amqp_Stream Amqp_Consumer
begin

text \<open>
  The clients of the frames that arrive: waiting on a channel, remote procedure calls and reading a message,
  proved from a contract that the connection of \<open>Amqp_Stream\<close> fulfils.
\<close>

section \<open>The contract of a connection that delivers frames\<close>

text \<open>
  What the clients of \<^verbatim>\<open>wait_frame_inner\<close> rely on: the next frame of the source is returned, putting a frame
  into the queue succeeds, and neither the queue nor the heap belongs to the source.
\<close>

locale frame_source =
  fixes source :: "amqp_frame list \<Rightarrow> amqp_state \<Rightarrow> bool"
  assumes next_frame: "source (f # fs) st \<Longrightarrow>
      \<exists>st'. wait_frame_inner amqp_time_infinite st = (Inr (0, f), st') \<and> source fs st' \<and> aside st st' \<and> advances st st'"
    and link_frame: "source fs st \<Longrightarrow> 0 < n \<Longrightarrow> n \<le> 2 ^ 63 \<Longrightarrow> 0 < m \<Longrightarrow> m \<le> 2 ^ 63 \<Longrightarrow>
      \<exists>c. source fs (st\<lparr>inp := c\<rparr>) \<and> alloc_link n m f st = (True, st\<lparr>inp := c\<rparr>)"
    and any_queue: "source fs st \<Longrightarrow> source fs (st\<lparr>queued_frames := q\<rparr>)"
    and has_heap: "source fs st \<Longrightarrow> heap_ok (c_heap (inp st))"
    and any_heap: "source fs st \<Longrightarrow> heap_ok h \<Longrightarrow> source fs (st\<lparr>inp := (inp st)\<lparr>c_heap := h\<rparr>\<rparr>)"
begin

text \<open>A frame is queued at the end.\<close>

lemma queued:
  assumes "source fs st"
  shows "\<exists>c. store_frame f st = (Inr 0, st\<lparr>inp := c, queued_frames := queued_frames st @ [f]\<rparr>)
      \<and> source fs (st\<lparr>inp := c, queued_frames := queued_frames st @ [f]\<rparr>)"
    and "\<exists>c. amqp_queue_frame f st = (Inr 0, st\<lparr>inp := c, queued_frames := queued_frames st @ [f]\<rparr>)
      \<and> source fs (st\<lparr>inp := c, queued_frames := queued_frames st @ [f]\<rparr>)"
proof -
  have "\<exists>c. alloc_link n m f st = (True, st\<lparr>inp := c\<rparr>)
      \<and> source fs (st\<lparr>inp := c, queued_frames := queued_frames st @ [f]\<rparr>)" if "n \<in> {16, 48}" "m \<in> {16, 48}" for n m
    using link_frame [OF assms, of n m f] any_queue that by fastforce
  from this [of sizeof_frame sizeof_link] this [of sizeof_link sizeof_frame]
  show "\<exists>c. store_frame f st = (Inr 0, st\<lparr>inp := c, queued_frames := queued_frames st @ [f]\<rparr>)
      \<and> source fs (st\<lparr>inp := c, queued_frames := queued_frames st @ [f]\<rparr>)"
    "\<exists>c. amqp_queue_frame f st = (Inr 0, st\<lparr>inp := c, queued_frames := queued_frames st @ [f]\<rparr>)
      \<and> source fs (st\<lparr>inp := c, queued_frames := queued_frames st @ [f]\<rparr>)"
    by (auto simp: store_frame_def amqp_queue_frame_def amqp_create_link_for_frame_def sizeof_frame_def sizeof_link_def)
qed

text \<open>
  Waiting past frames that are put into the queue: \<open>W\<close> is \<^verbatim>\<open>wait_on_channel\<close> or the loop of an RPC, which
  returns with the first frame that is \<open>wanted\<close>.
\<close>

lemma finds:
  assumes loop: "\<And>st f st1. wait_frame_inner amqp_time_infinite st = (Inr (0, f), st1) \<Longrightarrow> wanted f \<Longrightarrow> W st = (Inr (result f), st1)"
    and skip: "\<And>st f st1 c fs. wait_frame_inner amqp_time_infinite st = (Inr (0, f), st1) \<Longrightarrow> \<not> wanted f \<Longrightarrow> source fs st1 \<Longrightarrow> advances st st1 \<Longrightarrow>
        \<exists>st2 c. st2 = st1\<lparr>inp := c, queued_frames := queued_frames st1 @ [f]\<rparr> \<and> source fs st2 \<and> W st = W st2"
    and src: "source (gs @ f # fs) st" and gs: "\<And>g. g \<in> set gs \<Longrightarrow> \<not> wanted g" and f: "wanted f"
  shows "\<exists>st'. W st = (Inr (result f), st') \<and> source fs st' \<and> queued_frames st' = queued_frames st @ gs
    \<and> outbound_same st st' \<and> w_send (os st') = w_send (os st) \<and> advances st st'"
  using src gs
proof (induction gs arbitrary: st)
  case Nil
  then obtain st' where "wait_frame_inner amqp_time_infinite st = (Inr (0, f), st')" "source fs st'" "aside st st'" "advances st st'"
    using next_frame [of f fs st] by auto
  with loop [OF _ f] show ?case by (auto simp: aside_def)
next
  case (Cons g gs)
  then obtain st1 where st1: "wait_frame_inner amqp_time_infinite st = (Inr (0, g), st1)" "source (gs @ f # fs) st1"
      "aside st st1" "advances st st1"
    using next_frame by (metis append_Cons)
  obtain st2 c where st2: "st2 = st1\<lparr>inp := c, queued_frames := queued_frames st1 @ [g]\<rparr>" "source (gs @ f # fs) st2" "W st = W st2"
    using skip [OF st1(1) _ st1(2,4)] Cons.prems(2) by auto
  from Cons.IH [OF st2(2)] Cons.prems(2) obtain st' where st': "W st2 = (Inr (result f), st')" "source fs st'"
      "queued_frames st' = queued_frames st2 @ gs" "outbound_same st2 st'" "w_send (os st') = w_send (os st2)" "advances st2 st'"
    by auto
  moreover have "advances st st2" using st1(4) st2(1) by (simp add: advances_def bytes_left_def)
  ultimately show ?case
    using st1(3) st2 advances_trans [of st st2 st'] by (auto simp: aside_def outbound_same_def)
qed

lemma wait_on_channel_finds:
  assumes "source (gs @ f # fs) st" "\<And>g. g \<in> set gs \<Longrightarrow> frame_channel g \<noteq> channel" "frame_channel f = channel"
  shows "\<exists>st'. wait_on_channel channel st = (Inr (0, f), st') \<and> source fs st' \<and> queued_frames st' = queued_frames st @ gs
    \<and> outbound_same st st' \<and> w_send (os st') = w_send (os st) \<and> advances st st'"
proof (rule finds [where W = "wait_on_channel channel" and wanted = "\<lambda>f. frame_channel f = channel" and result = "\<lambda>f. (0, f)"])
  fix st f st1 fs
  assume w: "wait_frame_inner amqp_time_infinite st = (Inr (0, f), st1)" "frame_channel f \<noteq> channel" "source fs st1" "advances st st1"
  from queued(2) [OF w(3), of f] obtain c where "amqp_queue_frame f st1 = (Inr 0, st1\<lparr>inp := c, queued_frames := queued_frames st1 @ [f]\<rparr>)"
    "source fs (st1\<lparr>inp := c, queued_frames := queued_frames st1 @ [f]\<rparr>)" by blast
  with w show "\<exists>st2 c. st2 = st1\<lparr>inp := c, queued_frames := queued_frames st1 @ [f]\<rparr> \<and> source fs st2
      \<and> wait_on_channel channel st = wait_on_channel channel st2"
    by (auto simp: wait_on_channel.simps [of _ st] advances_def bytes_left_def)
qed (use assms in \<open>auto simp: wait_on_channel.simps [of channel]\<close>)

lemma rpc_wait_answers:
  assumes "source (gs @ f # fs) st" "\<And>g. g \<in> set gs \<Longrightarrow> \<not> affects_rpc channel ids g" "affects_rpc channel ids f"
  shows "\<exists>st'. rpc_wait channel ids amqp_time_infinite st = (Inr (rpc_result ids f), st') \<and> source fs st'
    \<and> queued_frames st' = queued_frames st @ gs
    \<and> outbound_same st st' \<and> w_send (os st') = w_send (os st) \<and> advances st st'"
proof (rule finds [where W = "rpc_wait channel ids amqp_time_infinite" and wanted = "affects_rpc channel ids" and result = "rpc_result ids"])
  fix st f st1 fs
  assume w: "wait_frame_inner amqp_time_infinite st = (Inr (0, f), st1)" "\<not> affects_rpc channel ids f" "source fs st1" "advances st st1"
  from queued(1) [OF w(3), of f] obtain c where "store_frame f st1 = (Inr 0, st1\<lparr>inp := c, queued_frames := queued_frames st1 @ [f]\<rparr>)"
    "source fs (st1\<lparr>inp := c, queued_frames := queued_frames st1 @ [f]\<rparr>)" by blast
  with w show "\<exists>st2 c. st2 = st1\<lparr>inp := c, queued_frames := queued_frames st1 @ [f]\<rparr> \<and> source fs st2
      \<and> rpc_wait channel ids amqp_time_infinite st = rpc_wait channel ids amqp_time_infinite st2"
    by (auto simp: rpc_wait.simps [of _ _ _ st] advances_def bytes_left_def)
qed (use assms in \<open>auto simp: rpc_wait.simps [of channel ids]\<close>)

text \<open>A frame of the channel, when the queue holds none of it.\<close>

lemma on_channel_finds:
  assumes "source (gs @ f # fs) st" "\<And>g. g \<in> set (queued_frames st @ gs) \<Longrightarrow> frame_channel g \<noteq> channel" "frame_channel f = channel"
  shows "\<exists>st'. amqp_simple_wait_frame_on_channel channel st = (Inr (0, f), st') \<and> source fs st'
    \<and> queued_frames st' = queued_frames st @ gs \<and> outbound_same st st' \<and> advances st st'"
proof -
  have "dropWhile (\<lambda>f. frame_channel f \<noteq> channel) (queued_frames st) = []"
    using assms(2) by simp
  then have "amqp_simple_wait_frame_on_channel channel st = wait_on_channel channel st"
    by (simp only: amqp_simple_wait_frame_on_channel_def list.case)
  moreover obtain st' where "wait_on_channel channel st = (Inr (0, f), st')" "source fs st'"
      "queued_frames st' = queued_frames st @ gs" "outbound_same st st'" "advances st st'"
    using wait_on_channel_finds [OF assms(1) _ assms(3)] assms(2) by (metis Un_iff set_append)
  ultimately show ?thesis by auto
qed

lemma read_body_reassembles:
  assumes "source (concat (map (\<lambda>(gs, c). gs @ [body_frame channel c]) L) @ fs) st"
    and "\<And>gs c. (gs, c) \<in> set L \<Longrightarrow> c \<noteq> [] \<and> (\<forall>g \<in> set gs. frame_channel g \<noteq> channel)"
    and "\<And>g. g \<in> set (queued_frames st) \<Longrightarrow> frame_channel g \<noteq> channel"
    and "len = length acc + length (concat (map snd L))" "len < 2 ^ 64"
  shows "\<exists>st'. read_body channel len acc st = (Inr (Inr (acc @ concat (map snd L))), st') \<and> source fs st'
    \<and> queued_frames st' = queued_frames st @ concat (map fst L) \<and> outbound_same st st'"
  using assms
proof (induction L arbitrary: acc st)
  case Nil
  then show ?case by (simp add: read_body.simps [of _ _ _ st])
next
  case (Cons x L)
  obtain gs c where x: "x = (gs, c)" by fastforce
  let ?F = "concat (map (\<lambda>(gs, c). gs @ [body_frame channel c]) L) @ fs"
  have gs: "c \<noteq> []" "\<And>g. g \<in> set (queued_frames st @ gs) \<Longrightarrow> frame_channel g \<noteq> channel"
    using Cons.prems(2,3) x by auto
  obtain st1 where st1: "amqp_simple_wait_frame_on_channel channel st = (Inr (0, body_frame channel c), st1)" "source ?F st1"
      "queued_frames st1 = queued_frames st @ gs" "outbound_same st st1" "advances st st1"
    using on_channel_finds [of gs "body_frame channel c" ?F st channel] gs(2) Cons.prems(1) x
    by (auto simp: body_frame_def)
  have "read_body channel len acc st = read_body channel len (acc @ c) st1"
    using st1(1,5) gs(1) Cons.prems(4,5) x by (simp add: read_body.simps [of _ _ acc st] body_frame_def sz_add_def)
  moreover have L: "c' \<noteq> [] \<and> (\<forall>g \<in> set gs'. frame_channel g \<noteq> channel)" if "(gs', c') \<in> set L" for gs' c'
    using Cons.prems(2) [of gs' c'] that by simp
  moreover have q1: "frame_channel g \<noteq> channel" if "g \<in> set (queued_frames st1)" for g
    using gs(2) that st1(3) by simp
  moreover have len: "len = length (acc @ c) + length (concat (map snd L))" using Cons.prems(4) x by simp
  moreover obtain st' where "read_body channel len (acc @ c) st1 = (Inr (Inr ((acc @ c) @ concat (map snd L))), st')" "source fs st'"
      "queued_frames st' = queued_frames st1 @ concat (map fst L)" "outbound_same st1 st'"
    using Cons.IH [OF st1(2) L q1 len Cons.prems(5)] by auto
  ultimately show ?case using st1(3) outbound_same_trans [OF st1(4)] x by auto
qed

lemma read_header_keeps:
  assumes "source fs st" "yields (amqp_basic_properties_clone p) (Inr p)"
  shows "\<exists>h pool. read_header channel p sz st
      = read_content channel (unat sz) (zeroed_message\<lparr>msg_properties := p, msg_pool := pool\<rparr>) (set_heap h st)
    \<and> source fs (set_heap h st)"
proof -
  obtain pool h where "amqp_basic_properties_clone p (init_amqp_pool 4096, c_heap (inp st)) = (Inr p, pool, h)" "heap_ok h"
    using yieldsD [OF assms(2) has_heap [OF assms(1)]] by blast
  with any_heap [OF assms(1)] show ?thesis by (auto simp: read_header_def set_heap_def)
qed

lemma read_content_reassembles:
  assumes "source (concat (map (\<lambda>(gs, c). gs @ [body_frame channel c]) L) @ fs) st"
    and "\<And>gs c. (gs, c) \<in> set L \<Longrightarrow> c \<noteq> [] \<and> (\<forall>g \<in> set gs. frame_channel g \<noteq> channel)"
    and "\<And>g. g \<in> set (queued_frames st) \<Longrightarrow> frame_channel g \<noteq> channel"
    and "len = length (concat (map snd L))" "len < 2 ^ 64"
  shows "\<exists>b st'. read_content channel len m st
      = (Inr (rpc_reply AMQP_RESPONSE_NORMAL None, m\<lparr>msg_body := \<lparr>hb_bytes = concat (map snd L), hb_block = b\<rparr>\<rparr>), st')
    \<and> source fs st' \<and> queued_frames st' = queued_frames st @ concat (map fst L) \<and> outbound_same st st'"
proof -
  obtain b st1 where b: "(if len = 0 then io_return None else with_heap (malloc len)) st = (Inr b, st1)" "len \<noteq> 0 \<longrightarrow> b \<noteq> None"
    "source (concat (map (\<lambda>(gs, c). gs @ [body_frame channel c]) L) @ fs) st1"
    "queued_frames st1 = queued_frames st" "outbound_same st st1"
  proof (cases "len = 0")
    case True
    with that assms(1) show ?thesis by (simp add: io_return_def)
  next
    case False
    obtain k h where "malloc len (c_heap (inp st)) = (Some k, h)" "heap_ok h"
      using malloc_ok [OF has_heap [OF assms(1)], of len] malloc_heap_ok has_heap [OF assms(1)] False by (metis gr0I)
    with that [of "Some k" "set_heap h st"] any_heap [OF assms(1)] False show ?thesis
      by (simp add: with_heap_def set_heap_def outbound_same_def)
  qed
  obtain st' where "read_body channel len [] st1 = (Inr (Inr (concat (map snd L))), st')" "source fs st'"
      "queued_frames st' = queued_frames st1 @ concat (map fst L)" "outbound_same st1 st'"
    using read_body_reassembles [OF b(3) assms(2), of len "[]"] assms(3-5) b(4) by auto
  with b outbound_same_trans [OF b(5)] show ?thesis
    by (auto simp: read_content_def io_bind_def io_return_def)
qed

theorem read_message_reassembles:
  assumes "source (gs0 @ f # concat (map (\<lambda>(gs, c). gs @ [body_frame channel c]) L) @ fs) st"
    and "\<And>g. g \<in> set gs0 \<Longrightarrow> frame_channel g \<noteq> channel"
    and "\<And>gs c. (gs, c) \<in> set L \<Longrightarrow> c \<noteq> [] \<and> (\<forall>g \<in> set gs. frame_channel g \<noteq> channel)"
    and "\<And>g. g \<in> set (queued_frames st) \<Longrightarrow> frame_channel g \<noteq> channel"
    and "frame_type f = FRAME_HEADER" "frame_channel f = channel"
    and "frame_payload f = Properties_payload cls (of_nat (length body)) (Basic_properties p) raw"
    and "body = concat (map snd L)" "length body < 2 ^ 64" "yields (amqp_basic_properties_clone p) (Inr p)"
  shows "\<exists>m st'. amqp_read_message channel st = (Inr (rpc_reply AMQP_RESPONSE_NORMAL None, m), st')
    \<and> hb_bytes (msg_body m) = body \<and> msg_properties m = p \<and> source fs st'
    \<and> queued_frames st' = queued_frames st @ gs0 @ concat (map fst L) \<and> outbound_same st st'"
proof -
  let ?F = "concat (map (\<lambda>(gs, c). gs @ [body_frame channel c]) L) @ fs"
  obtain st1 where st1: "amqp_simple_wait_frame_on_channel channel st = (Inr (0, f), st1)" "source ?F st1"
      "queued_frames st1 = queued_frames st @ gs0" "outbound_same st st1"
    using on_channel_finds [OF assms(1) _ assms(6)] assms(2,4) by auto
  obtain h pool where h: "read_header channel p (of_nat (length body)) st1
      = read_content channel (length body) (zeroed_message\<lparr>msg_properties := p, msg_pool := pool\<rparr>) (set_heap h st1)"
      "source ?F (set_heap h st1)"
    using read_header_keeps [OF st1(2) assms(10), of channel "of_nat (length body)"] assms(9)
    by (auto simp: unat_of_nat)
  have q: "g \<in> set (queued_frames (set_heap h st1)) \<Longrightarrow> frame_channel g \<noteq> channel" for g
    using st1(3) assms(2,4) by (auto simp: set_heap_def)
  obtain b st' where "read_content channel (length body) (zeroed_message\<lparr>msg_properties := p, msg_pool := pool\<rparr>) (set_heap h st1)
      = (Inr (rpc_reply AMQP_RESPONSE_NORMAL None, zeroed_message\<lparr>msg_properties := p, msg_pool := pool,
           msg_body := \<lparr>hb_bytes = concat (map snd L), hb_block = b\<rparr>\<rparr>), st')"
      "source fs st'" "queued_frames st' = queued_frames (set_heap h st1) @ concat (map fst L)" "outbound_same (set_heap h st1) st'"
    using read_content_reassembles [OF h(2) assms(3) q, of "length body"] assms(8,9) by blast
  then show ?thesis
    using st1 h(1) assms(5,7,8) unfolding amqp_read_message_def
    by (auto simp: io_bind_def set_heap_def outbound_same_def)
qed

end

section \<open>The connection fulfils the contract\<close>

text \<open>The frames on the wire, heartbeats left out; what follows them may be anything.\<close>

definition frames_arrive :: "amqp_frame list \<Rightarrow> amqp_state \<Rightarrow> bool" where
  "frames_arrive fs st \<longleftrightarrow>
    (\<exists>M gs rest. steady st \<and> is_ready M (inp st) \<and> (\<forall>g \<in> set gs. fits M g)
       \<and> fs = filter (\<lambda>g. frame_type g \<noteq> FRAME_HEARTBEAT) gs \<and> incoming st = concat (map wire_frame gs) @ rest)"

lemma steady_update [simp]: "steady (st\<lparr>inp := c\<rparr>) = steady st" "steady (st\<lparr>queued_frames := q\<rparr>) = steady st"
  by (simp_all add: steady_def amqp_get_sockfd_def buffer_ok_def)

lemma incoming_update [simp]: "incoming (st\<lparr>inp := c\<rparr>) = incoming st" "incoming (st\<lparr>queued_frames := q\<rparr>) = incoming st"
  by (simp_all add: incoming_def)

lemma is_ready_pools: "is_ready M c \<Longrightarrow> heap_ok h \<Longrightarrow> is_ready M ((put_channel_pool c ch p)\<lparr>c_heap := h\<rparr>)"
  "is_ready M c \<Longrightarrow> heap_ok h \<Longrightarrow> is_ready M (c\<lparr>pool_table := t, c_heap := h\<rparr>)" "is_ready M c \<Longrightarrow> heap_ok h \<Longrightarrow> is_ready M (c\<lparr>c_heap := h\<rparr>)"
  by (simp_all add: is_ready_def idle_def put_channel_pool_def)

lemma recycle_pool_heap_ok [simp]: "heap_ok (snd (recycle_amqp_pool p h)) = heap_ok h"
proof -
  have "heap_ok (fold free bs h') = heap_ok h'" for bs h' by (induction bs arbitrary: h') auto
  then show ?thesis
    by (simp add: empty_blocklist_def recycle_amqp_pool_def case_prod_beta Let_def split: option.split)
qed

lemma released:
  assumes "steady st" "is_ready M (inp st)"
  shows "\<exists>c. amqp_maybe_release_buffers_on_channel ch st = st\<lparr>inp := c\<rparr> \<and> is_ready M c"
proof -
  have st: "st = st\<lparr>inp := inp st\<rparr>" by simp
  show ?thesis
  proof (cases "amqp_maybe_release_buffers_on_channel ch st = st")
    case True
    with assms(2) st show ?thesis by metis
  next
    case False
    obtain pool p' h where "recycle_amqp_pool pool (c_heap (inp st)) = (p', h)"
      "amqp_maybe_release_buffers_on_channel ch st = st\<lparr>inp := (put_channel_pool (inp st) ch p')\<lparr>c_heap := h\<rparr>\<rparr>"
      using False by (auto simp: amqp_maybe_release_buffers_on_channel_def split: if_splits option.splits prod.splits)
    moreover from this(1) have "heap_ok h"
      using recycle_pool_heap_ok [of pool "c_heap (inp st)"] assms(2) by (simp add: is_ready_def)
    ultimately show ?thesis using is_ready_pools(1) [OF assms(2)] by blast
  qed
qed

lemma next_arrives:
  assumes "steady st" "is_ready M (inp st)" "\<forall>h \<in> set hs. fits M h \<and> frame_type h = FRAME_HEARTBEAT"
    and "fits M f" "frame_type f \<noteq> FRAME_HEARTBEAT" "incoming st = concat (map wire_frame hs) @ wire_frame f @ rest"
  shows "\<exists>st'. wait_frame_inner amqp_time_infinite st = (Inr (0, f), st') \<and> aside st st' \<and> advances st st'
    \<and> steady st' \<and> is_ready M (inp st') \<and> incoming st' = rest"
  using assms
proof (induction hs arbitrary: st)
  case Nil
  have "part_way M f (inp st) []"
    using Nil.prems(2,4) by (auto simp: part_way_def is_ready_def fits_def frame_size_def)
  from wait_frame_arrives [OF _ _ Nil.prems(1) this] Nil.prems(4-6) show ?case
    by (auto simp: fits_def wait_frame_inner_def)
next
  case (Cons g hs)
  have g: "valid_frame g" "frame_size g < 2 ^ 30" "frame_size g \<le> size_of_int M" "frame_type g = FRAME_HEARTBEAT"
    using Cons.prems(3) by (auto simp: fits_def)
  have "part_way M g (inp st) []"
    using Cons.prems(2) g(3) by (auto simp: part_way_def is_ready_def frame_size_def)
  from wait_frame_arrives [OF g(1,2) Cons.prems(1) this] Cons.prems(6) g(4) obtain st1 where st1:
    "wait_frame_loop False amqp_time_infinite st = wait_frame_loop False amqp_time_infinite (amqp_maybe_release_buffers_on_channel 0 st1)"
    "steady st1" "is_ready M (inp st1)" "incoming st1 = concat (map wire_frame hs) @ wire_frame f @ rest" "aside st st1" "advances st st1"
    by auto
  obtain c where c: "amqp_maybe_release_buffers_on_channel 0 st1 = st1\<lparr>inp := c\<rparr>" "is_ready M c"
    using released [OF st1(2,3)] by blast
  have "aside st (st1\<lparr>inp := c\<rparr>)" "advances st (st1\<lparr>inp := c\<rparr>)"
    using st1(5,6) by (simp_all add: aside_def outbound_same_def advances_def bytes_left_def)
  with Cons.IH [of "st1\<lparr>inp := c\<rparr>"] st1 c Cons.prems(3-5) show ?case
    using aside_trans [of st "st1\<lparr>inp := c\<rparr>"] advances_trans [of st "st1\<lparr>inp := c\<rparr>"]
    by (auto simp: wait_frame_inner_def)
qed

text \<open>The first frame that is no heartbeat.\<close>

lemma filter_first:
  assumes "filter P gs = f # fs"
  obtains hs gs' where "gs = hs @ f # gs'" "\<forall>h \<in> set hs. \<not> P h" "P f" "fs = filter P gs'"
  using assms that by (auto simp: filter_eq_Cons_iff)

lemma link_succeeds:
  assumes "is_ready M (inp st)" "0 < n" "n \<le> 2 ^ 63" "0 < m" "m \<le> 2 ^ 63"
  shows "\<exists>c. alloc_link n m f st = (True, st\<lparr>inp := c\<rparr>) \<and> is_ready M c"
proof -
  have h: "heap_ok (c_heap (inp st))" using assms(1) by (simp add: is_ready_def)
  obtain pool t h1 where g: "amqp_get_or_create_channel_pool (inp st) (frame_channel f)
      = (Some pool, (inp st)\<lparr>pool_table := t, c_heap := h1\<rparr>)" "heap_ok h1"
    using get_or_create_ok [OF h] by blast
  obtain a p1 h2 where a: "amqp_pool_alloc pool n h1 = (Some a, p1, h2)" "heap_ok h2"
    using amqp_pool_alloc_ok [OF g(2) assms(2,3)] by blast
  obtain b p2 h3 where b: "amqp_pool_alloc p1 m h2 = (Some b, p2, h3)" "heap_ok h3"
    using amqp_pool_alloc_ok [OF a(2) assms(4,5)] by blast
  show ?thesis
    using is_ready_pools(1) [OF is_ready_pools(2) [OF assms(1) g(2)] b(2)] g(1) a(1) b(1)
    by (auto simp: alloc_link_def)
qed

interpretation wire: frame_source frames_arrive
proof
  fix f fs st
  assume "frames_arrive (f # fs) st"
  then obtain M gs rest where a: "steady st" "is_ready M (inp st)" "\<forall>g \<in> set gs. fits M g"
      "filter (\<lambda>g. frame_type g \<noteq> FRAME_HEARTBEAT) gs = f # fs" "incoming st = concat (map wire_frame gs) @ rest"
    by (auto simp: frames_arrive_def)
  obtain hs gs' where gs: "gs = hs @ f # gs'" "\<forall>h \<in> set hs. \<not> frame_type h \<noteq> FRAME_HEARTBEAT" "frame_type f \<noteq> FRAME_HEARTBEAT"
      "fs = filter (\<lambda>g. frame_type g \<noteq> FRAME_HEARTBEAT) gs'"
    by (rule filter_first [OF a(4)])
  obtain st' where st': "wait_frame_inner amqp_time_infinite st = (Inr (0, f), st')" "aside st st'" "advances st st'"
      "steady st'" "is_ready M (inp st')" "incoming st' = concat (map wire_frame gs') @ rest"
    using next_arrives [OF a(1,2), of hs f "concat (map wire_frame gs') @ rest"] a(3,5) gs by auto
  moreover from this have "frames_arrive fs st'"
    unfolding frames_arrive_def using a(3) gs(1,4) by (intro exI [of _ M] exI [of _ gs'] exI [of _ rest]) auto
  ultimately show "\<exists>st'. wait_frame_inner amqp_time_infinite st = (Inr (0, f), st') \<and> frames_arrive fs st' \<and> aside st st' \<and> advances st st'"
    by blast
next
  fix fs st f and n m :: nat
  assume a: "frames_arrive fs st" and n: "0 < n" "n \<le> 2 ^ 63" "0 < m" "m \<le> 2 ^ 63"
  from a obtain M gs rest where st: "steady st" "is_ready M (inp st)" "\<forall>g \<in> set gs. fits M g"
      "fs = filter (\<lambda>g. frame_type g \<noteq> FRAME_HEARTBEAT) gs" "incoming st = concat (map wire_frame gs) @ rest"
    by (auto simp: frames_arrive_def)
  obtain c where c: "alloc_link n m f st = (True, st\<lparr>inp := c\<rparr>)" "is_ready M c"
    using link_succeeds [OF st(2) n] by blast
  then have "frames_arrive fs (st\<lparr>inp := c\<rparr>)"
    unfolding frames_arrive_def using st(1,3-5) by (intro exI [of _ M] exI [of _ gs] exI [of _ rest]) simp
  with c(1) show "\<exists>c. frames_arrive fs (st\<lparr>inp := c\<rparr>) \<and> alloc_link n m f st = (True, st\<lparr>inp := c\<rparr>)" by blast
next
  fix fs st h
  assume "frames_arrive fs st" "heap_ok h"
  then show "frames_arrive fs (st\<lparr>inp := (inp st)\<lparr>c_heap := h\<rparr>\<rparr>)"
    unfolding frames_arrive_def using is_ready_pools(3) by force
qed (auto simp: frames_arrive_def is_ready_def)

section \<open>Cloning properties\<close>

text \<open>Headers with an empty key are refused.\<close>

definition headers_clonable :: "amqp_basic_properties \<Rightarrow> bool" where
  "headers_clonable p \<longleftrightarrow> (case bp_headers p of None \<Rightarrow> True | Some t \<Rightarrow> table_in_memory t \<and> clonable_table t)"

lemma clone_flagged_yields:
  assumes "valid_flagged flags m P v" "\<And>x. v = Some x \<Longrightarrow> P x \<Longrightarrow> yields (clone x) (Inr x)"
  shows "yields (clone_flagged flags m clone v) (Inr v)"
  using assms by (auto simp: valid_flagged_def clone_flagged_def intro!: yields_bind split: option.splits)

lemma clone_short_field: "valid_flagged flags m (\<lambda>s. short_str s) v \<Longrightarrow> yields (clone_flagged flags m clone_bytes v) (Inr v)"
  by (erule clone_flagged_yields) (rule clone_bytes_yields, simp add: UINT8_MAX_def)

lemma clone_plain_field: "valid_flagged flags m (\<lambda>_. True) v \<Longrightarrow> yields (clone_flagged flags m p_return v) (Inr v)"
  by (erule clone_flagged_yields) simp

lemma clone_properties_yields:
  assumes "valid_basic_properties p" "headers_clonable p"
  shows "yields (amqp_basic_properties_clone p) (Inr p)"
proof -
  note v = assms(1) [unfolded valid_basic_properties_def]
  have t: "yields (amqp_table_clone t) (Inr t)" if "bp_headers p = Some t" for t
    using table_clone_yields [of t] assms(2) that by (simp add: headers_clonable_def)
  have h: "yields (clone_flagged (bp_flags p) AMQP_BASIC_HEADERS_FLAG amqp_table_clone (bp_headers p)) (Inr (bp_headers p))"
    by (rule clone_flagged_yields [where P = valid_table]) (use v t in simp_all)
  show ?thesis
    unfolding amqp_basic_properties_clone_def Let_def
    using v by (elim conjE) ((rule yields_bind, ((rule clone_short_field, assumption) | (rule clone_plain_field, assumption) | rule h))+, simp add: yields_def p_return_def)
qed

end
