(* ===== verification/Amqp_Publish.thy ===== *)
theory Amqp_Publish
  imports Amqp_Api
begin

text \<open>
  What \<^verbatim>\<open>amqp_basic_publish\<close> sends: the method, the header, and the body cut into fragments that fit the
  negotiated size of a frame.
\<close>

section \<open>What publishing sends\<close>

function chunks :: "nat \<Rightarrow> 'a list \<Rightarrow> 'a list list" where
  "chunks n xs = (if n = 0 \<or> xs = [] then [] else take n xs # chunks n (drop n xs))"
  by pat_completeness auto
termination by (relation "measure (\<lambda>(n, xs). length xs)") auto

declare chunks.simps [simp del]

lemma chunks_Nil [simp]: "chunks n [] = []"
  by (simp add: chunks.simps [of n "[]"])

lemma concat_chunks: "0 < n \<Longrightarrow> concat (chunks n xs) = xs"
proof (induction n xs rule: chunks.induct)
  case (1 n xs)
  then show ?case by (cases "xs = []") (auto simp: chunks.simps [of n xs])
qed

lemma chunks_bound: "c \<in> set (chunks n xs) \<Longrightarrow> c \<noteq> [] \<and> length c \<le> n"
proof (induction n xs rule: chunks.induct)
  case (1 n xs)
  then show ?case by (cases "xs = []") (auto simp: chunks.simps [of n xs] split: if_splits)
qed

definition publish_frames :: "u16 \<Rightarrow> nat \<Rightarrow> amqp_method_struct \<Rightarrow> amqp_basic_properties \<Rightarrow> amqp_bytes \<Rightarrow> amqp_frame list" where
  "publish_frames channel usable m p body =
    [method_frame channel (method_number m) m, header_frame channel (of_nat (length body)) p]
    @ map (body_frame channel) (chunks usable body)"

text \<open>The raw form of the properties in a header frame does not matter for sending.\<close>

definition set_raw :: "amqp_frame \<Rightarrow> amqp_frame" where
  "set_raw f = (case frame_payload f of
     Properties_payload c s p _ \<Rightarrow> f\<lparr>frame_payload := Properties_payload c s p (wire_properties p)\<rparr> | _ \<Rightarrow> f)"

lemma set_raw_bytes: "amqp_frame_to_bytes (set_raw f) buf = amqp_frame_to_bytes f buf" "wire_frame (set_raw f) = wire_frame f"
proof -
  have "frame_body_to_bytes (set_raw f) b = frame_body_to_bytes f b" for b
    by (simp add: set_raw_def frame_body_to_bytes_def split: amqp_frame_payload.split)
  moreover have "frame_type (set_raw f) = frame_type f" "frame_channel (set_raw f) = frame_channel f"
    "wire_payload (frame_payload (set_raw f)) = wire_payload (frame_payload f)"
    by (simp_all add: set_raw_def split: amqp_frame_payload.split)
  ultimately show "amqp_frame_to_bytes (set_raw f) buf = amqp_frame_to_bytes f buf" "wire_frame (set_raw f) = wire_frame f"
    by (simp_all only: amqp_frame_to_bytes_def wire_frame_def)
qed

lemma send_set_raw: "amqp_send_frame_inner (set_raw f) deadline st = amqp_send_frame_inner f deadline st"
  by (simp add: amqp_send_frame_inner_def set_raw_bytes)

lemma send_raw_frame_puts:
  assumes "valid_frame (set_raw f)" "can_send st" "amqp_send_frame_inner f deadline st = (Inr v, st')"
  shows "puts (wire_frame f) v st st'"
  using send_frame_puts(1) [OF assms(1,2)] assms(3) by (simp add: send_set_raw set_raw_bytes)

lemma io_bind_Inr:
  assumes "io_bind m f st = (Inr v, st')"
  obtains x st1 where "m st = (Inr x, st1)" "f x st1 = (Inr v, st')"
  using assms by (auto simp: io_bind_def split: prod.splits sum.splits)

lemma puts_OK: "puts b OK st st' \<longleftrightarrow> w_sent (os st') = w_sent (os st) @ b \<and> outbound_len st' = outbound_len st
    \<and> length (outbound_buffer st') = length (outbound_buffer st)"
  by (auto simp: puts_def)

lemma puts_append: "puts b OK st st1 \<Longrightarrow> puts c OK st1 st2 \<Longrightarrow> puts (b @ c) OK st st2"
  by (simp add: puts_OK)

lemma publish_body_puts:
  assumes "can_send st" "0 < usable" "publish_body channel usable rest st = (Inr OK, st')"
  shows "puts (concat (map (wire_frame \<circ> body_frame channel) (chunks usable rest))) OK st st'"
  using assms(1,3)
proof (induction st arbitrary: rest rule: advances_induct)
  case (step st)
  show ?case
  proof (cases "rest = []")
    case True
    with step.prems(2) show ?thesis by (simp add: publish_body.simps [of _ _ _ st] chunks.simps [of _ "[]"] puts_OK)
  next
    case False
    let ?n = "if usable \<le> length rest then usable else length rest"
    let ?f = "body_frame channel (take ?n rest)"
    have n: "take ?n rest = take usable rest" "drop ?n rest = drop usable rest" by auto
    obtain x st1 where s: "amqp_send_frame_inner ?f amqp_time_infinite st = (x, st1)" by fastforce
    note d = step.prems(2) [unfolded publish_body.simps [of _ _ rest st] Let_def s]
    obtain v where x: "x = Inr v" "\<not> v < 0" "advances st st1" "publish_body channel usable (drop usable rest) st1 = (Inr OK, st')"
      using d False by (cases x) (auto simp: n status_values split: if_splits)
    have "valid_frame (set_raw ?f)" by (simp add: body_frame_def set_raw_def valid_frame_def)
    note p = send_raw_frame_puts [OF this step.prems(1) s [unfolded x(1)]]
    have "v = OK" using send_frame_nonpos [OF s [unfolded x(1)]] x(2) by simp
    with p have p: "puts (wire_frame (body_frame channel (take usable rest))) OK st st1" by (simp add: n)
    have "can_send st1" using puts_can_send [OF p] step.prems(1) by simp
    from puts_append [OF p step.IH [OF x(3) this x(4)]] False assms(2) show ?thesis
      by (simp add: chunks.simps [of usable rest])
  qed
qed

lemma check_recv_heartbeat_keeps:
  assumes "check_recv_heartbeat st = (Inr v, st')"
  shows "outbound_same st st'"
proof -
  let ?st = "st\<lparr>os := snd (read_clock (os st))\<rparr>"
  have st: "outbound_same st ?st" by (simp add: outbound_same_def read_clock_def)
  show ?thesis
    using assms outbound_same_trans [OF st amqp_try_recv_keeps] st
    by (cases "read_clock (os st)")
      (auto simp: check_recv_heartbeat_def io_return_def elim!: io_bind_Inr split: amqp_status_enum.splits)
qed

lemma outbound_same_puts: "outbound_same st st' \<Longrightarrow> puts [] OK st st'"
  by (simp add: outbound_same_def puts_def)

lemma basic_publish_puts:
  assumes "can_send st" "8 < frame_max (inp st)" "frame_max (inp st) < 2 ^ 31"
    and "valid_method (M_Basic (Basic_publish 0 exchange routing_key mandatory immediate))"
    and "valid_properties (Basic_properties (case properties of None \<Rightarrow> empty_properties | Some p \<Rightarrow> p))"
    and "amqp_basic_publish channel exchange routing_key mandatory immediate properties body st = (Inr OK, st')"
  shows "puts (concat (map wire_frame (publish_frames channel (nat (frame_max (inp st) - 8))
      (M_Basic (Basic_publish 0 exchange routing_key mandatory immediate))
      (case properties of None \<Rightarrow> empty_properties | Some p \<Rightarrow> p) body))) OK st st'"
proof -
  let ?m = "M_Basic (Basic_publish 0 exchange routing_key mandatory immediate)"
  let ?p = "case properties of None \<Rightarrow> empty_properties | Some p \<Rightarrow> p"
  let ?h = "header_frame channel (of_nat (length body)) ?p"
  have usable: "usable_body_payload_size st = nat (frame_max (inp st) - 8)"
    using assms(2,3) by (simp add: usable_body_payload_size_def size_of_int_def HEADER_SIZE_def FOOTER_SIZE_def)
  note d = assms(6) [unfolded amqp_basic_publish_def Let_def usable]
  obtain st1 where 1: "check_recv_heartbeat st = (Inr 0, st1)"
      "io_bind (amqp_send_method_inner channel AMQP_BASIC_PUBLISH_METHOD ?m amqp_time_infinite)
         (\<lambda>res2. if res2 < 0 then io_return res2
            else io_bind (amqp_send_frame_inner ?h amqp_time_infinite)
              (\<lambda>res3. if res3 < 0 then io_return res3 else publish_body channel (nat (frame_max (inp st) - 8)) body)) st1
       = (Inr 0, st')"
    using d by (auto simp: io_return_def elim!: io_bind_Inr split: if_splits)
  obtain v st2 where 2: "amqp_send_frame_inner (method_frame channel (method_number ?m) ?m) amqp_time_infinite st1 = (Inr v, st2)"
      "\<not> v < 0" "io_bind (amqp_send_frame_inner ?h amqp_time_infinite)
              (\<lambda>res3. if res3 < 0 then io_return res3 else publish_body channel (nat (frame_max (inp st) - 8)) body) st2
       = (Inr 0, st')"
    using 1(2) by (auto simp: amqp_send_method_inner_def io_return_def elim!: io_bind_Inr split: if_splits)
  obtain w st3 where 3: "amqp_send_frame_inner ?h amqp_time_infinite st2 = (Inr w, st3)" "\<not> w < 0"
      "publish_body channel (nat (frame_max (inp st) - 8)) body st3 = (Inr 0, st')"
    using 2(3) by (auto simp: io_return_def elim!: io_bind_Inr split: if_splits)
  have vw: "v = OK" "w = OK" using send_frame_nonpos [OF 2(1)] send_frame_nonpos [OF 3(1)] 2(2) 3(2) by auto
  have p1: "puts [] OK st st1" by (rule outbound_same_puts) (rule check_recv_heartbeat_keeps [OF 1(1)])
  then have c1: "can_send st1" using puts_can_send assms(1) by blast
  have p2: "puts (wire_frame (method_frame channel (method_number ?m) ?m)) OK st1 st2"
    using send_frame_puts(1) [OF _ c1 2(1)] assms(4) vw by (simp add: valid_frame_def method_frame_def)
  then have c2: "can_send st2" using puts_can_send c1 by blast
  have "valid_frame (set_raw ?h)"
    using assms(5) by (simp add: set_raw_def header_frame_def valid_frame_def)
  from send_raw_frame_puts [OF this c2 3(1)] have p3: "puts (wire_frame ?h) OK st2 st3" by (simp add: vw)
  then have c3: "can_send st3" using puts_can_send c2 by blast
  note p4 = publish_body_puts [OF c3 _ 3(3)]
  from puts_append [OF puts_append [OF puts_append [OF p1 p2] p3] p4] assms(2) show ?thesis
    by (simp add: publish_frames_def comp_def)
qed

end
