(* ===== verification/Amqp_Exchange.thy ===== *)
theory Amqp_Exchange
  imports Amqp_Delivery Amqp_Publish
begin

text \<open>
  Frames in both directions: on an open connection without heartbeats, what is published reaches a system
  that accepts it, and the answers of the broker reach the caller. The last section has the properties of
  the exchange as a whole.
\<close>

section \<open>A system that accepts what is sent\<close>

text \<open>
  The calls of \<^verbatim>\<open>send\<close> that take \<open>n\<close> bytes, possibly in parts and with interruptions; the calls
  behind them are the result.
\<close>

fun absorbs :: "nat \<Rightarrow> sys_send list \<Rightarrow> sys_send list option" where
  "absorbs n [] = None"
| "absorbs n (Accepted k # ss) = (if n \<le> k then Some ss else absorbs (n - k) ss)"
| "absorbs n (Send_errno EINTR # ss) = absorbs n ss"
| "absorbs n (Send_errno _ # ss) = None"

lemma send_loop_absorbs:
  assumes "absorbs (length b) ss = Some ss'"
  shows "\<exists>k rs. send_loop b ss = (Inr (int (min k (length b)), None), rs) \<and> length rs < length ss
    \<and> (if length b \<le> k then ss' = rs else absorbs (length b - k) rs = Some ss')"
  using assms by (induction b ss rule: send_loop.induct) (auto intro: less_SucI split: if_splits)

lemma absorbs_shorter: "absorbs n ss = Some ss' \<Longrightarrow> length ss' < length ss"
  by (induction n ss rule: absorbs.induct) (auto split: if_splits)

definition sent_all :: "amqp_bytes \<Rightarrow> sys_send list \<Rightarrow> amqp_state \<Rightarrow> amqp_state \<Rightarrow> bool" where
  "sent_all b ss st st' \<longleftrightarrow> w_sent (os st') = w_sent (os st) @ b \<and> w_send (os st') = ss \<and> w_poll (os st') = w_poll (os st)
     \<and> same_input st st'"

lemma try_send_absorbs:
  assumes "amqp_get_sockfd st \<noteq> -1" "b \<noteq> []" "absorbs (length b) (w_send (os st)) = Some ss"
  shows "\<exists>st'. try_send_loop len deadline b st = (Inr (int len), st') \<and> sent_all b ss st st'"
  using assms
proof (induction "length (w_send (os st))" arbitrary: st b rule: less_induct)
  case less
  obtain s where s: "socket st = Some s" "sockfd s \<noteq> -1"
    using less.prems(1) by (auto simp: amqp_get_sockfd_def split: option.splits)
  obtain k rs where k: "send_loop b (w_send (os st)) = (Inr (int (min k (length b)), None), rs)" "length rs < length (w_send (os st))"
      "if length b \<le> k then ss = rs else absorbs (length b - k) rs = Some ss"
    using send_loop_absorbs [OF less.prems(3)] by blast
  let ?s = "s\<lparr>internal_error := None\<rparr>"
  let ?st1 = "st\<lparr>socket := Some ?s, os := (os st)\<lparr>w_send := rs, w_sent := w_sent (os st) @ take k b\<rparr>\<rparr>"
  have send: "amqp_socket_send b st = (Inr (int (min k (length b))), ?st1)"
    using s k(1) by (simp add: amqp_socket_send_def amqp_tcp_socket_send_def min_def)
  have st1: "amqp_get_sockfd ?st1 \<noteq> -1" "same_input st ?st1" "advances st ?st1"
    using s k(2) by (auto simp: amqp_get_sockfd_def same_input_def advances_def calls_left_def)
  show ?case
  proof (cases "length b \<le> k")
    case True
    with send k(3) less.prems(2) st1(2) show ?thesis
      by (auto simp: try_send_loop.simps [of _ _ _ st] sent_all_def min_def)
  next
    case False
    have "drop k b \<noteq> []" "absorbs (length (drop k b)) (w_send (os ?st1)) = Some ss" using False k(3) by auto
    from less.hyps [OF _ st1(1) this] k(2) obtain st' where
      st': "try_send_loop len deadline (drop k b) ?st1 = (Inr (int len), st')" "sent_all (drop k b) ss ?st1 st'" by auto
    have "try_send_loop len deadline b st = try_send_loop len deadline (drop k b) ?st1"
    proof (cases "k = 0")
      case True
      with send st1 less.prems(1) show ?thesis
        by (simp add: try_send_loop.simps [of _ _ _ st] do_poll_def AMQP_PRIVATE_STATUS_SOCKET_NEEDREAD_def
            AMQP_PRIVATE_STATUS_SOCKET_NEEDWRITE_def)
    next
      case False
      with \<open>\<not> length b \<le> k\<close> send st1(3) show ?thesis by (simp add: try_send_loop.simps [of _ _ _ st] min_def)
    qed
    moreover have "sent_all b ss st st'"
      using st'(2) st1(2) same_input_trans [OF st1(2)] by (simp add: sent_all_def)
    ultimately show ?thesis using st'(1) by auto
  qed
qed


text \<open>What sending \<open>b\<close> does to a connection.\<close>

definition put_out :: "amqp_bytes \<Rightarrow> sys_send list \<Rightarrow> amqp_state \<Rightarrow> amqp_state \<Rightarrow> bool" where
  "put_out b ss st st' \<longleftrightarrow> w_sent (os st') = w_sent (os st) @ b \<and> w_send (os st') = ss \<and> inp st' = inp st
     \<and> w_recv (os st') = w_recv (os st) \<and> w_poll (os st') = w_poll (os st)
     \<and> steady st' \<and> incoming st' = incoming st \<and> queued_frames st' = queued_frames st
     \<and> outbound_len st' = outbound_len st \<and> length (outbound_buffer st') = length (outbound_buffer st)"

lemma put_out_trans: "put_out b ss1 st st1 \<Longrightarrow> put_out c ss2 st1 st2 \<Longrightarrow> put_out (b @ c) ss2 st st2"
  by (simp add: put_out_def)

lemma put_out_can_send: "put_out b ss st st' \<Longrightarrow> can_send st' = can_send st"
  by (simp add: put_out_def can_send_def)

lemma put_out_arrive: "put_out b ss st st' \<Longrightarrow> frames_arrive fs st' = frames_arrive fs st \<or> \<not> steady st"
  by (auto simp: put_out_def frames_arrive_def)

lemma sent_all_put_out:
  assumes "sent_all b ss st st'" "steady st"
  shows "put_out b ss st st'"
  using assms others_fields [of st' st]
  by (simp add: sent_all_def put_out_def same_input_def steady_def incoming_def buffer_ok_def)

lemma send_frame_absorbs:
  assumes f: "valid_frame f" "frame_size f \<le> outbound_len st" and st: "can_send st" "steady st"
    and ss: "absorbs (frame_size f) (w_send (os st)) = Some ss"
  shows "\<exists>st'. amqp_send_frame_inner f deadline st = (Inr 0, st') \<and> put_out (wire_frame f) ss st st'"
proof -
  have buf: "length (outbound_buffer st) < 2 ^ 31" "length (outbound_buffer st) = outbound_len st"
    using st(1) by (auto simp: can_send_def)
  obtain buf' where b: "amqp_frame_to_bytes f (outbound_buffer st) = Inr (buf', frame_size f)"
      "take (frame_size f) buf' = wire_frame f" "length buf' = length (outbound_buffer st)"
    using amqp_frame_to_bytes_fits [OF f(1) buf(1)] f(2) buf(2) by (auto simp: blit_def length_wire_frame)
  let ?st = "st\<lparr>outbound_buffer := buf'\<rparr>"
  have s: "steady ?st" "amqp_get_sockfd ?st \<noteq> -1" using st(2) by (simp_all add: steady_def amqp_get_sockfd_def buffer_ok_def)
  have w: "wire_frame f \<noteq> []" "absorbs (length (wire_frame f)) (w_send (os ?st)) = Some ss"
    using ss by (simp_all add: length_wire_frame flip: length_greater_0_conv) (simp add: frame_size_def)
  obtain st1 where st1: "amqp_try_send (wire_frame f) (amqp_time_first deadline (next_recv_heartbeat ?st)) ?st
        = (Inr (int (length (wire_frame f))), st1)" "sent_all (wire_frame f) ss ?st st1"
    using try_send_absorbs [OF s(2) w] unfolding amqp_try_send_def by blast
  have p: "put_out (wire_frame f) ss ?st st1" by (rule sent_all_put_out [OF st1(2) s(1)])
  then have hb: "heartbeat st1 = 0" by (simp add: put_out_def steady_def)
  let ?st' = "st1\<lparr>os := snd (read_clock (os st1)), next_send_heartbeat := amqp_time_infinite\<rparr>"
  have "amqp_send_frame_inner f deadline st = send_encoded deadline (wire_frame f) ?st"
    using buf b by (simp add: amqp_send_frame_inner_def)
  also have "\<dots> = (Inr 0, ?st')"
    using st1(1) arm_steady(2) [OF hb] by (simp add: send_encoded.simps [of _ _ ?st] Let_def)
  finally have run: "amqp_send_frame_inner f deadline st = (Inr 0, ?st')" .
  have "put_out (wire_frame f) ss st ?st'"
    using p b(3) by (auto simp: put_out_def steady_def amqp_get_sockfd_def buffer_ok_def incoming_def read_clock_def)
  with run show ?thesis by blast
qed

section \<open>Publishing succeeds\<close>

fun absorbs_frames :: "amqp_frame list \<Rightarrow> sys_send list \<Rightarrow> sys_send list option" where
  "absorbs_frames [] ss = Some ss"
| "absorbs_frames (f # fs) ss =
    (case absorbs (frame_size f) ss of None \<Rightarrow> None | Some ss' \<Rightarrow> absorbs_frames fs ss')"

definition sendable :: "amqp_frame \<Rightarrow> amqp_state \<Rightarrow> bool" where
  "sendable f st \<longleftrightarrow> valid_frame (set_raw f) \<and> frame_size f \<le> outbound_len st"

lemma frame_size_set_raw: "frame_size (set_raw f) = frame_size f"
  using set_raw_bytes(2) [of f] by (metis length_wire_frame)

lemma put_out_sendable: "put_out b ss st st' \<Longrightarrow> sendable f st' = sendable f st"
  by (simp add: put_out_def sendable_def)

lemma send_one:
  assumes "sendable f st" "can_send st" "steady st" "absorbs_frames (f # fs) (w_send (os st)) = Some ss"
  obtains st' where "amqp_send_frame_inner f deadline st = (Inr 0, st')" "put_out (wire_frame f) (w_send (os st')) st st'"
    "can_send st'" "steady st'" "absorbs_frames fs (w_send (os st')) = Some ss" "advances st st'"
proof -
  obtain ss' where ss': "absorbs (frame_size f) (w_send (os st)) = Some ss'" "absorbs_frames fs ss' = Some ss"
    using assms(4) by (auto split: option.splits)
  then obtain st' where st': "amqp_send_frame_inner f deadline st = (Inr 0, st')" "put_out (wire_frame f) ss' st st'"
    using send_frame_absorbs [of "set_raw f" st ss' deadline] assms(1-3)
    by (auto simp: sendable_def frame_size_set_raw send_set_raw set_raw_bytes)
  have "w_send (os st') = ss'" "steady st'" "can_send st'"
    using st'(2) put_out_can_send [OF st'(2)] assms(2) by (simp_all add: put_out_def)
  moreover from this have "advances st st'"
    using absorbs_shorter [OF ss'(1)] st'(2) by (simp add: advances_def calls_left_def put_out_def)
  ultimately show thesis using that st' ss'(2) by simp
qed

lemma publish_body_absorbs:
  assumes "can_send st" "steady st" "0 < usable" "usable + 8 \<le> outbound_len st"
    and "absorbs_frames (map (body_frame channel) (chunks usable rest)) (w_send (os st)) = Some ss"
  shows "\<exists>st'. publish_body channel usable rest st = (Inr 0, st')
    \<and> put_out (concat (map (wire_frame \<circ> body_frame channel) (chunks usable rest))) ss st st'"
  using assms
proof (induction rest arbitrary: st rule: length_induct)
  case (1 rest)
  show ?case
  proof (cases "rest = []")
    case True
    with 1(2-6) show ?thesis by (simp add: publish_body.simps [of _ _ _ st] put_out_def)
  next
    case False
    let ?n = "if usable \<le> length rest then usable else length rest"
    let ?f = "body_frame channel (take usable rest)"
    have n: "take ?n rest = take usable rest" "drop ?n rest = drop usable rest" by auto
    have cs: "chunks usable rest = take usable rest # chunks usable (drop usable rest)"
      using False 1(4) by (simp add: chunks.simps [of usable rest])
    have "sendable ?f st"
      using 1(5) by (simp add: sendable_def body_frame_def set_raw_def valid_frame_def frame_size_def)
    then obtain st1 where st1: "amqp_send_frame_inner ?f amqp_time_infinite st = (Inr 0, st1)"
        "put_out (wire_frame ?f) (w_send (os st1)) st st1" "can_send st1" "steady st1"
        "absorbs_frames (map (body_frame channel) (chunks usable (drop usable rest))) (w_send (os st1)) = Some ss"
        "advances st st1"
      by (rule send_one [OF _ 1(2,3)]) (use 1(6) cs in simp)
    obtain st' where st': "publish_body channel usable (drop usable rest) st1 = (Inr 0, st')"
        "put_out (concat (map (wire_frame \<circ> body_frame channel) (chunks usable (drop usable rest)))) ss st1 st'"
      using 1(1) [rule_format, of "drop usable rest" st1] False 1(4,5) st1 by (auto simp: put_out_def)
    have "publish_body channel usable rest st = publish_body channel usable (drop usable rest) st1"
      using False st1(1,6) by (simp add: publish_body.simps [of _ _ rest st] Let_def n)
    with st'(1) put_out_trans [OF st1(2) st'(2)] cs show ?thesis by (auto simp: comp_def)
  qed
qed

lemma steady_tick: "steady (st\<lparr>os := snd (read_clock (os st))\<rparr>) = steady st"
  by (simp add: steady_def amqp_get_sockfd_def buffer_ok_def)

lemma basic_publish_absorbs:
  assumes st: "can_send st" "steady st" "8 < frame_max (inp st)" "frame_max (inp st) \<le> int (outbound_len st)"
    and fs: "fs = publish_frames channel (nat (frame_max (inp st) - 8)) (M_Basic (Basic_publish 0 exchange routing_key mandatory immediate))
      (case properties of None \<Rightarrow> empty_properties | Some p \<Rightarrow> p) body"
    and ok: "sendable (fs ! 0) st" "sendable (fs ! 1) st" and ss: "absorbs_frames fs (w_send (os st)) = Some ss"
  shows "\<exists>st'. amqp_basic_publish channel exchange routing_key mandatory immediate properties body st = (Inr 0, st')
    \<and> put_out (concat (map wire_frame fs)) ss st st'"
proof -
  let ?m = "M_Basic (Basic_publish 0 exchange routing_key mandatory immediate)"
  let ?f = "method_frame channel (method_number ?m) ?m"
  let ?h = "header_frame channel (of_nat (length body)) (case properties of None \<Rightarrow> empty_properties | Some p \<Rightarrow> p)"
  let ?u = "nat (frame_max (inp st) - 8)"
  let ?st0 = "st\<lparr>os := snd (read_clock (os st))\<rparr>"
  have usable: "usable_body_payload_size st = ?u"
    using st(1,3,4) by (simp add: usable_body_payload_size_def size_of_int_def HEADER_SIZE_def FOOTER_SIZE_def can_send_def)
  have fs': "fs = ?f # ?h # map (body_frame channel) (chunks ?u body)" using fs by (simp add: publish_frames_def)
  have st0: "put_out [] (w_send (os st)) st ?st0" "check_recv_heartbeat st = (Inr 0, ?st0)" "can_send ?st0" "steady ?st0"
    using st(1,2) steady_tick [of st] by (simp_all add: put_out_def incoming_def read_clock_def can_send_def
        check_recv_heartbeat_def steady_def amqp_time_has_past_def amqp_time_infinite_def)
  have "sendable ?f ?st0" using ok(1) fs' put_out_sendable [OF st0(1)] by simp
  moreover have "absorbs_frames (?f # ?h # map (body_frame channel) (chunks ?u body)) (w_send (os ?st0)) = Some ss"
    using ss fs' by (simp add: read_clock_def)
  ultimately obtain st1 where st1: "amqp_send_frame_inner ?f amqp_time_infinite ?st0 = (Inr 0, st1)"
      "put_out (wire_frame ?f) (w_send (os st1)) ?st0 st1" "can_send st1" "steady st1"
      "absorbs_frames (?h # map (body_frame channel) (chunks ?u body)) (w_send (os st1)) = Some ss"
    by (rule send_one [OF _ st0(3,4)])
  have "sendable ?h st1" using ok(2) fs' put_out_sendable [OF st0(1)] put_out_sendable [OF st1(2)] by simp
  then obtain st2 where st2: "amqp_send_frame_inner ?h amqp_time_infinite st1 = (Inr 0, st2)"
      "put_out (wire_frame ?h) (w_send (os st2)) st1 st2" "can_send st2" "steady st2"
      "absorbs_frames (map (body_frame channel) (chunks ?u body)) (w_send (os st2)) = Some ss"
    using st1(3-5) by (rule send_one)
  have "?u + 8 \<le> outbound_len st2" "0 < ?u" using st(3,4) st0(1) st1(2) st2(2) by (auto simp: put_out_def)
  then obtain st' where st': "publish_body channel ?u body st2 = (Inr 0, st')"
      "put_out (concat (map (wire_frame \<circ> body_frame channel) (chunks ?u body))) ss st2 st'"
    using publish_body_absorbs [OF st2(3,4) _ _ st2(5)] by blast
  have "amqp_basic_publish channel exchange routing_key mandatory immediate properties body st = (Inr 0, st')"
    using st0(2) st1(1) st2(1) st'(1)
    by (simp add: amqp_basic_publish_def Let_def usable io_bind_def amqp_send_method_inner_def)
  with put_out_trans [OF st0(1) put_out_trans [OF st1(2) put_out_trans [OF st2(2) st'(2)]]] fs' show ?thesis
    by (auto simp: comp_def)
qed

end
