(* ===== verification/Amqp_Messages.thy ===== *)
theory Amqp_Messages
  imports Amqp_Exchange
begin

text \<open>
  The properties of the exchange of frames and messages over an open connection: waiting, remote
  procedure calls, publishing and reading, alone and together.
\<close>

section \<open>A sample connection\<close>

text \<open>A connection after the login, on a heap that grants every request.\<close>

definition open_connection :: "sys_recv list \<Rightarrow> sys_send list \<Rightarrow> sys_poll list \<Rightarrow> amqp_state" where
  "open_connection rs ss ps =
    \<lparr>state_block = 0,
     inp = \<lparr>pool_table = \<lambda>_. [], c_heap = \<lparr>h_grants = \<lambda>_ _. True, h_count = 4, h_live = [0, 1, 2, 3], h_size = \<lambda>_. 4096, h_stray = []\<rparr>,
       conn_state = CONNECTION_STATE_IDLE, channel_max = 100, frame_max = 4096,
       header_buffer = replicate 8 0, inbound_buffer = In_header_buffer, inbound_offset = 0, target_size = 7,
       stale_memory = []\<rparr>,
     heartbeat = 0, next_recv_heartbeat = amqp_time_infinite, next_send_heartbeat = amqp_time_infinite,
     outbound_buffer = replicate 4096 0, outbound_block = Some 1, outbound_len = 4096,
     socket = Some \<lparr>sock_block = 2, sockfd = 3, internal_error = None\<rparr>, sock_inbound_buffer = [],
     sock_inbound_block = Some 3, sock_inbound_offset = 0, queued_frames = [],
     most_recent_api_result = \<lparr>reply_type = AMQP_RESPONSE_NONE, reply = None, library_error = 0\<rparr>,
     server_properties = [], client_properties = [], properties_pool = init_amqp_pool 512, handshake_timeout = None,
     os = \<lparr>w_recv = rs, w_send = ss, w_poll = ps, w_close = [], w_clock = \<lambda>_. 1, w_ticks = 0, w_sent = []\<rparr>\<rparr>"

lemma open_connection [simp]:
  "steady (open_connection rs ss ps)" "can_send (open_connection rs ss ps)" "is_ready 4096 (inp (open_connection rs ss ps))"
  "incoming (open_connection rs ss ps) = arriving rs ps" "queued_frames (open_connection rs ss ps) = []"
  "outbound_len (open_connection rs ss ps) = 4096" "frame_max (inp (open_connection rs ss ps)) = 4096"
  "w_send (os (open_connection rs ss ps)) = ss" "w_sent (os (open_connection rs ss ps)) = []"
  by (simp_all add: open_connection_def steady_def can_send_def is_ready_def idle_def incoming_def heap_ok_def
      amqp_get_sockfd_def buffer_ok_def)

lemma fits_4096: "fits 4096 f \<longleftrightarrow> valid_frame f \<and> frame_size f \<le> 4096"
  by (auto simp: fits_def size_of_int_def)

text \<open>A frame that arrives in two pieces, after an interruption and with a wait in between.\<close>

definition in_pieces :: "amqp_bytes \<Rightarrow> sys_recv list" where
  "in_pieces b = [Recv_errno EINTR, Received (take 3 b), Recv_errno EWOULDBLOCK, Received (drop 3 b)]"

lemma arriving_in_pieces:
  assumes "3 < length b" "length b \<le> 4096"
  shows "arriving (in_pieces b) [Poll_errno EINTR, Poll_ready] = b"
  using assms by (cases b) (auto simp: in_pieces_def Let_def AMQP_INITIAL_INBOUND_SOCK_BUFFER_SIZE_def)

lemma frames_arrive_one:
  assumes "fits 4096 f" "frame_type f \<noteq> FRAME_HEARTBEAT"
  shows "frames_arrive [f] (open_connection (in_pieces (wire_frame f)) ss [Poll_errno EINTR, Poll_ready])"
proof -
  have "arriving (in_pieces (wire_frame f)) [Poll_errno EINTR, Poll_ready] = wire_frame f"
    by (rule arriving_in_pieces) (use assms(1) in \<open>auto simp: fits_4096 length_wire_frame frame_size_def\<close>)
  with assms show ?thesis
    unfolding frames_arrive_def by (intro exI [of _ 4096] exI [of _ "[f]"] exI [of _ "[]"]) simp
qed

text \<open>
  C10. Waiting delivers: when the bytes of a frame arrive, \<^verbatim>\<open>wait_frame_inner\<close> returns this frame, however the calls of
  \<^verbatim>\<open>recv\<close> cut its bytes, however often they are interrupted or have to wait, and past any number of
  heartbeats. The bytes behind the frame are left for the next call, and the connection is ready for it.
\<close>

theorem wait_delivers:
  assumes "steady st" "is_ready M (inp st)" "\<forall>h \<in> set hs. fits M h \<and> frame_type h = FRAME_HEARTBEAT"
    and "fits M f" "frame_type f \<noteq> FRAME_HEARTBEAT" "incoming st = concat (map wire_frame hs) @ wire_frame f @ rest"
  shows "\<exists>st'. wait_frame_inner amqp_time_infinite st = (Inr (OK, f), st')
    \<and> incoming st' = rest \<and> is_ready M (inp st') \<and> steady st' \<and> queued_frames st' = queued_frames st"
  using next_arrives [OF assms] by (auto simp: aside_def)

definition open_ok :: amqp_frame where
  "open_ok = method_frame 1 AMQP_CHANNEL_OPEN_OK_METHOD (M_Channel (Channel_open_ok []))"

lemma open_ok_fits: "fits 4096 open_ok" "frame_type open_ok = FRAME_METHOD" "frame_channel open_ok = 1"
  by (simp_all add: open_ok_def method_frame_def fits_4096 valid_frame_def frame_size_def wire_channel.simps wire_longstr_def be32_def)

lemma heartbeat_fits: "fits 4096 heartbeat_frame" "frame_type heartbeat_frame = FRAME_HEARTBEAT"
  by (simp_all add: heartbeat_frame_def fits_4096 valid_frame_def frame_size_def)

lemma received_frame:
  assumes "frame_size f \<le> 4096"
  shows "arriving (Received (wire_frame f) # rs) ps = wire_frame f @ arriving rs ps"
proof -
  have "length (wire_frame f) \<le> AMQP_INITIAL_INBOUND_SOCK_BUFFER_SIZE"
    using assms by (simp add: length_wire_frame AMQP_INITIAL_INBOUND_SOCK_BUFFER_SIZE_def)
  moreover have "wire_frame f \<noteq> []" by (simp add: wire_frame_def)
  ultimately show ?thesis by simp
qed

theorem wait_delivers_witness:
  "\<exists>st'. wait_frame_inner amqp_time_infinite
      (open_connection [Received (wire_frame heartbeat_frame), Received (wire_frame open_ok)] [] []) = (Inr (OK, open_ok), st')"
proof -
  let ?st = "open_connection [Received (wire_frame heartbeat_frame), Received (wire_frame open_ok)] [] []"
  have "incoming ?st = concat (map wire_frame [heartbeat_frame]) @ wire_frame open_ok @ []"
    using heartbeat_fits open_ok_fits by (simp add: received_frame fits_4096 del: arriving.simps(2))
  from wait_delivers [OF _ _ _ _ _ this, of 4096] show ?thesis
    by (simp add: heartbeat_fits open_ok_fits) blast
qed

text \<open>
  C5. A remote procedure call is answered: the request is sent as a method frame, and the call returns the
  first frame that concerns it, an expected reply or the close of the channel or of the connection. The
  frames that arrive before it are put into the queue, in their order and none lost; those behind it are still to come.
\<close>

theorem rpc_answered:
  assumes "frames_arrive (gs @ f # fs) st" "\<forall>g \<in> set gs. \<not> affects_rpc channel ids g" "affects_rpc channel ids f"
    and "valid_method m" "frame_size (method_frame channel (method_number m) m) \<le> outbound_len st" "can_send st"
    and "absorbs (frame_size (method_frame channel (method_number m) m)) (w_send (os st)) = Some ss"
  shows "\<exists>st'. amqp_simple_rpc channel (method_number m) ids m st = (Inr (rpc_result ids f), st')
    \<and> w_sent (os st') = w_sent (os st) @ wire_frame (method_frame channel (method_number m) m)
    \<and> queued_frames st' = queued_frames st @ gs \<and> frames_arrive fs st'"
proof -
  let ?f = "method_frame channel (method_number m) m"
  have "valid_frame ?f" "steady st" using assms(1,4) by (auto simp: method_frame_def valid_frame_def frames_arrive_def)
  with send_frame_absorbs [OF _ assms(5,6) _ assms(7)] obtain st1 where
    st1: "amqp_send_frame_inner ?f amqp_time_infinite st = (Inr 0, st1)" "put_out (wire_frame ?f) ss st st1" by blast
  have "frames_arrive (gs @ f # fs) st1" using put_out_arrive [OF st1(2)] assms(1) \<open>steady st\<close> by blast
  from wire.rpc_wait_answers [OF this _ assms(3)] assms(2) st1 show ?thesis
    by (auto simp: amqp_simple_rpc_def simple_rpc_inner_def io_bind_def amqp_send_method_def amqp_send_method_inner_def
        put_out_def outbound_same_def)
qed

theorem rpc_answered_witness:
  "\<exists>st'. amqp_simple_rpc 1 AMQP_CHANNEL_OPEN_METHOD [AMQP_CHANNEL_OPEN_OK_METHOD, 0] (M_Channel (Channel_open []))
      (open_connection (in_pieces (wire_frame open_ok)) [Accepted 5, Send_errno EINTR, Accepted 100] [Poll_errno EINTR, Poll_ready])
    = (Inr (rpc_reply AMQP_RESPONSE_NORMAL (Some (AMQP_CHANNEL_OPEN_OK_METHOD, M_Channel (Channel_open_ok [])))), st')"
proof -
  let ?m = "M_Channel (Channel_open [])"
  let ?st = "open_connection (in_pieces (wire_frame open_ok)) [Accepted 5, Send_errno EINTR, Accepted 100] [Poll_errno EINTR, Poll_ready]"
  have a: "frames_arrive ([] @ open_ok # []) ?st" using frames_arrive_one [OF open_ok_fits(1)] open_ok_fits(2) by simp
  have n: "method_number ?m = AMQP_CHANNEL_OPEN_METHOD" by simp
  have r: "affects_rpc 1 [AMQP_CHANNEL_OPEN_OK_METHOD, 0] open_ok"
    "rpc_result [AMQP_CHANNEL_OPEN_OK_METHOD, 0] open_ok
      = rpc_reply AMQP_RESPONSE_NORMAL (Some (AMQP_CHANNEL_OPEN_OK_METHOD, M_Channel (Channel_open_ok [])))"
    by (simp_all add: open_ok_def method_frame_def affects_rpc_def rpc_result_def frame_method_def)
  have "frame_size (method_frame 1 (method_number ?m) ?m) = 13"
    by (simp add: method_frame_def frame_size_def wire_channel.simps wire_shortstr_def)
  with rpc_answered [OF a _ r(1), of ?m "[]"] r(2) show ?thesis by auto
qed

text \<open>
  C11. What publishing sends: a run of \<^verbatim>\<open>amqp_basic_publish\<close> that reports success, in any state of the connection and
  with any results of the system calls, has handed to the system the bytes of the method frame, of the header
  frame with the length of the body, and of the body cut into pieces that fit the negotiated size of a frame, and nothing
  else. Put together the pieces are the body.
\<close>

theorem publish_sends:
  assumes "can_send st" "8 < frame_max (inp st)" "frame_max (inp st) < 2 ^ 31"
    and "valid_method (M_Basic (Basic_publish 0 exchange routing_key mandatory immediate))"
    and "valid_properties (Basic_properties (case properties of None \<Rightarrow> empty_properties | Some p \<Rightarrow> p))"
    and "amqp_basic_publish channel exchange routing_key mandatory immediate properties body st = (Inr OK, st')"
  shows "\<exists>cs. concat cs = body \<and> (\<forall>c \<in> set cs. c \<noteq> [] \<and> int (length c) + 8 \<le> frame_max (inp st))
    \<and> w_sent (os st') = w_sent (os st)
      @ wire_frame (method_frame channel AMQP_BASIC_PUBLISH_METHOD (M_Basic (Basic_publish 0 exchange routing_key mandatory immediate)))
      @ wire_frame (header_frame channel (of_nat (length body)) (case properties of None \<Rightarrow> empty_properties | Some p \<Rightarrow> p))
      @ concat (map (wire_frame \<circ> body_frame channel) cs)"
proof (intro exI conjI)
  let ?u = "nat (frame_max (inp st) - 8)"
  show "concat (chunks ?u body) = body" using assms(2) by (intro concat_chunks) simp
  show "\<forall>c \<in> set (chunks ?u body). c \<noteq> [] \<and> int (length c) + 8 \<le> frame_max (inp st)"
    using assms(2) chunks_bound by fastforce
  show "w_sent (os st') = w_sent (os st)
      @ wire_frame (method_frame channel AMQP_BASIC_PUBLISH_METHOD (M_Basic (Basic_publish 0 exchange routing_key mandatory immediate)))
      @ wire_frame (header_frame channel (of_nat (length body)) (case properties of None \<Rightarrow> empty_properties | Some p \<Rightarrow> p))
      @ concat (map (wire_frame \<circ> body_frame channel) (chunks ?u body))"
    using basic_publish_puts [OF assms] by (simp add: puts_OK publish_frames_def comp_def)
qed

text \<open>Publishing 5000 bytes with frames of at most 4096, to a system that takes the method frame in three parts.\<close>

abbreviation sample_body :: amqp_bytes where "sample_body \<equiv> replicate 5000 0x61"

definition sample_frames :: "amqp_frame list" where
  "sample_frames = publish_frames 1 4088 (M_Basic (Basic_publish 0 [] [0x71] False False)) empty_properties sample_body"

definition sample_sends :: "sys_send list" where
  "sample_sends = [Accepted 9, Accepted 0, Send_errno EINTR, Accepted 100, Accepted 100, Accepted 5000, Accepted 5000]"

lemma sample_frames:
  "sample_frames = [method_frame 1 AMQP_BASIC_PUBLISH_METHOD (M_Basic (Basic_publish 0 [] [0x71] False False)),
     header_frame 1 5000 empty_properties, body_frame 1 (replicate 4088 0x61), body_frame 1 (replicate 912 0x61)]"
  by (simp add: sample_frames_def publish_frames_def chunks.simps [of 4088] min_def)

lemma sample_frames_ok:
  "map frame_size sample_frames = [18, 22, 4096, 920]" "list_all (\<lambda>f. valid_frame (set_raw f)) sample_frames"
  by (simp_all add: sample_frames method_frame_def header_frame_def body_frame_def frame_size_def wire_basic.simps
      wire_shortstr_def be16_def be32_def be64_def wire_properties_def wire_flags_def empty_properties_def
      valid_frame_def set_raw_def valid_basic.simps valid_properties_def valid_flags_def valid_basic_properties_def
      valid_flagged_def wire_basic_properties_def wire_flagged_def UINT8_MAX_def)

lemma absorbs_frames_sizes: "map frame_size fs = map frame_size gs \<Longrightarrow> absorbs_frames fs ss = absorbs_frames gs ss"
proof (induction fs arbitrary: gs ss)
  case (Cons f fs)
  then obtain g gs' where "gs = g # gs'" "frame_size f = frame_size g" "map frame_size fs = map frame_size gs'" by (cases gs) auto
  with Cons.IH [of gs'] show ?case by (simp split: option.split)
qed simp

lemma sample_absorbed: "absorbs_frames sample_frames sample_sends = Some []"
  using sample_frames_ok(1) by (auto simp: sample_frames sample_sends_def)

lemma sample_sendable: "sendable (sample_frames ! 0) (open_connection rs ss ps)" "sendable (sample_frames ! Suc 0) (open_connection rs ss ps)"
  using sample_frames_ok by (auto simp: sample_frames sendable_def)

lemma sample_published:
  "\<exists>st'. amqp_basic_publish 1 [] [0x71] False False None sample_body (open_connection rs sample_sends ps) = (Inr OK, st')
    \<and> put_out (concat (map wire_frame sample_frames)) [] (open_connection rs sample_sends ps) st'"
  by (rule basic_publish_absorbs) (simp_all add: sample_frames_def [symmetric] sample_sendable sample_absorbed)

theorem publish_sends_witness:
  "\<exists>st' cs. amqp_basic_publish 1 [] [0x71] False False None sample_body (open_connection [] sample_sends []) = (Inr OK, st')
    \<and> concat cs = sample_body \<and> (\<forall>c \<in> set cs. length c \<le> 4088)"
proof -
  obtain st' where st': "amqp_basic_publish 1 [] [0x71] False False None sample_body (open_connection [] sample_sends []) = (Inr OK, st')"
    using sample_published by blast
  have "\<exists>cs. concat cs = sample_body \<and> (\<forall>c \<in> set cs. c \<noteq> [] \<and> int (length c) + 8 \<le> frame_max (inp (open_connection [] sample_sends [])))
    \<and> w_sent (os st') = w_sent (os (open_connection [] sample_sends []))
      @ wire_frame (method_frame 1 AMQP_BASIC_PUBLISH_METHOD (M_Basic (Basic_publish 0 [] [0x71] False False)))
      @ wire_frame (header_frame 1 (of_nat (length sample_body)) (case None of None \<Rightarrow> empty_properties | Some p \<Rightarrow> p))
      @ concat (map (wire_frame \<circ> body_frame 1) cs)"
    using sample_frames_ok(2)
    by (intro publish_sends [OF _ _ _ _ _ st'])
      (simp_all add: sample_frames method_frame_def header_frame_def valid_frame_def set_raw_def)
  then show ?thesis using st' by fastforce
qed

text \<open>
  Publishing succeeds: on an open connection, when the system takes the bytes, in pieces and with interruptions as
  it likes, \<^verbatim>\<open>amqp_basic_publish\<close> returns \<^verbatim>\<open>AMQP_STATUS_OK\<close>, all bytes have been sent, and what is still to
  be read is as it was.
\<close>

theorem publish_succeeds:
  assumes "can_send st" "steady st" "8 < frame_max (inp st)" "frame_max (inp st) \<le> int (outbound_len st)"
    and "fs = publish_frames channel (nat (frame_max (inp st) - 8)) (M_Basic (Basic_publish 0 exchange routing_key mandatory immediate))
      (case properties of None \<Rightarrow> empty_properties | Some p \<Rightarrow> p) body"
    and "sendable (fs ! 0) st" "sendable (fs ! 1) st" "absorbs_frames fs (w_send (os st)) = Some ss"
  shows "\<exists>st'. amqp_basic_publish channel exchange routing_key mandatory immediate properties body st = (Inr OK, st')
    \<and> w_sent (os st') = w_sent (os st) @ concat (map wire_frame fs) \<and> w_send (os st') = ss
    \<and> inp st' = inp st \<and> incoming st' = incoming st \<and> queued_frames st' = queued_frames st"
  using basic_publish_absorbs [OF assms] by (auto simp: put_out_def)

theorem publish_succeeds_witness:
  "\<exists>st'. amqp_basic_publish 1 [] [0x71] False False None sample_body (open_connection [] sample_sends []) = (Inr OK, st')
    \<and> w_sent (os st') = concat (map wire_frame sample_frames)"
proof -
  have "\<exists>st'. amqp_basic_publish 1 [] [0x71] False False None sample_body (open_connection [] sample_sends []) = (Inr OK, st')
    \<and> w_sent (os st') = w_sent (os (open_connection [] sample_sends [])) @ concat (map wire_frame sample_frames)
    \<and> w_send (os st') = [] \<and> inp st' = inp (open_connection [] sample_sends [])
    \<and> incoming st' = incoming (open_connection [] sample_sends []) \<and> queued_frames st' = queued_frames (open_connection [] sample_sends [])"
    by (rule publish_succeeds) (simp_all add: sample_frames_def [symmetric] sample_sendable sample_absorbed)
  then show ?thesis by auto
qed

lemma read_whole:
  assumes "frames_arrive (gs @ f # concat (map (\<lambda>(gs, c). gs @ [body_frame channel c]) L) @ fs) st"
    and "\<forall>g \<in> set (queued_frames st @ gs). frame_channel g \<noteq> channel"
    and "\<forall>(gs, c) \<in> set L. c \<noteq> [] \<and> (\<forall>g \<in> set gs. frame_channel g \<noteq> channel)"
    and "f = set_raw (header_frame channel (of_nat (length body)) p)" "body = concat (map snd L)" "length body < 2 ^ 64"
    and "valid_basic_properties p" "headers_clonable p"
  shows "\<exists>m st'. amqp_read_message channel st = (Inr (rpc_reply AMQP_RESPONSE_NORMAL None, m), st')
    \<and> hb_bytes (msg_body m) = body \<and> msg_properties m = p \<and> frames_arrive fs st'
    \<and> queued_frames st' = queued_frames st @ gs @ concat (map fst L)"
proof -
  have "frame_type f = FRAME_HEADER" "frame_channel f = channel"
    "frame_payload f = Properties_payload 60 (of_nat (length body)) (Basic_properties p) (wire_properties (Basic_properties p))"
    by (simp_all add: assms(4) header_frame_def set_raw_def)
  from wire.read_message_reassembles [OF assms(1) _ _ _ this assms(5,6) clone_properties_yields [OF assms(7,8)]] assms(2,3)
  show ?thesis by fastforce
qed

text \<open>
  C7. A message is read whole: \<^verbatim>\<open>amqp_read_message\<close> on a channel returns the properties and the body of the
  message whose header and body frames arrive there, in whatever pieces the body was cut and whatever frames of
  other channels arrive in between. Those are put into the queue in their order, and what is behind the
  message is still to come.
\<close>

theorem message_read_whole:
  assumes "frames_arrive (gs @ f # concat (map (\<lambda>(gs, c). gs @ [body_frame channel c]) L) @ fs) st"
    and "\<forall>g \<in> set (queued_frames st @ gs). frame_channel g \<noteq> channel"
    and "\<forall>(gs, c) \<in> set L. c \<noteq> [] \<and> (\<forall>g \<in> set gs. frame_channel g \<noteq> channel)"
    and "f = set_raw (header_frame channel (of_nat (length body)) p)" "body = concat (map snd L)" "length body < 2 ^ 64"
    and "valid_basic_properties p" "headers_clonable p"
  shows "\<exists>m st'. amqp_read_message channel st = (Inr (rpc_reply AMQP_RESPONSE_NORMAL None, m), st')
    \<and> hb_bytes (msg_body m) = body \<and> msg_properties m = p \<and> frames_arrive fs st'
    \<and> queued_frames st' = queued_frames st @ gs @ concat (map fst L)"
  using assms by (rule read_whole)

text \<open>
  C1. A message goes through: what a run of \<^verbatim>\<open>amqp_basic_publish\<close> sends behind its method frame, received on the
  same channel of another open connection with frames at least as long, is read back by \<^verbatim>\<open>amqp_read_message\<close> as the
  same properties and the same body.
\<close>

theorem publish_then_read:
  assumes "can_send st" "8 < frame_max (inp st)" "frame_max (inp st) < 2 ^ 30"
    and "valid_method (M_Basic (Basic_publish 0 exchange routing_key mandatory immediate))"
    and "valid_properties (Basic_properties p)" "headers_clonable p" "length body < 2 ^ 64"
    and "amqp_basic_publish channel exchange routing_key mandatory immediate (Some p) body st = (Inr OK, st')"
    and "w_sent (os st') = w_sent (os st)
      @ wire_frame (method_frame channel AMQP_BASIC_PUBLISH_METHOD (M_Basic (Basic_publish 0 exchange routing_key mandatory immediate))) @ content"
    and "steady st2" "is_ready M (inp st2)" "frame_max (inp st) \<le> M" "M < 2 ^ 31" "frame_size (header_frame channel (of_nat (length body)) p) \<le> nat (frame_max (inp st))"
    and "incoming st2 = content @ rest" "\<forall>g \<in> set (queued_frames st2). frame_channel g \<noteq> channel"
  shows "\<exists>m st2'. amqp_read_message channel st2 = (Inr (rpc_reply AMQP_RESPONSE_NORMAL None, m), st2')
    \<and> hb_bytes (msg_body m) = body \<and> msg_properties m = p"
proof -
  let ?u = "nat (frame_max (inp st) - 8)" and ?h = "set_raw (header_frame channel (of_nat (length body)) p)"
  let ?cs = "chunks ?u body"
  have u: "0 < ?u" using assms(2) by simp
  have "frame_max (inp st) < 2 ^ 31" using assms(3) by simp
  from basic_publish_puts [OF assms(1,2) this assms(4) _ assms(8)] assms(5,9)
  have content: "content = wire_frame ?h @ concat (map (wire_frame \<circ> body_frame channel) ?cs)"
    by (simp add: puts_OK publish_frames_def set_raw_bytes comp_def)
  have M: "size_of_int M = nat M" "frame_max (inp st) \<le> M" using assms(2,12,13) by (auto simp: size_of_int_def)
  have "fits M ?h" using assms(3,5,14) M assms(2) frame_size_set_raw [of "header_frame channel (of_nat (length body)) p"]
    by (auto simp: fits_def set_raw_def header_frame_def valid_frame_def)
  moreover have "fits M (body_frame channel c)" if "c \<in> set ?cs" for c
    using chunks_bound [OF that] M assms(2,3) by (auto simp: fits_def body_frame_def valid_frame_def frame_size_def)
  moreover have "frame_type ?h = FRAME_HEADER" by (simp add: set_raw_def header_frame_def)
  ultimately have arrive: "frames_arrive ([] @ ?h # concat (map (\<lambda>(gs, c). gs @ [body_frame channel c]) (map (Pair []) ?cs)) @ []) st2"
    unfolding frames_arrive_def using assms(10,11,15) content
    by (intro exI [of _ M] exI [of _ "?h # map (body_frame channel) ?cs"] exI [of _ rest])
      (auto simp: comp_def body_frame_def)
  have b: "body = concat (map snd (map (Pair []) ?cs))" using concat_chunks [OF u, of body] by (simp add: comp_def)
  have "valid_basic_properties p" using assms(5) by (simp add: valid_properties_def)
  moreover have "\<forall>(gs, c) \<in> set (map (Pair []) ?cs). c \<noteq> [] \<and> (\<forall>g \<in> set gs. frame_channel g \<noteq> channel)"
    using chunks_bound by fastforce
  ultimately show ?thesis
    using read_whole [OF arrive _ _ refl b assms(7)] assms(6,16) by auto
qed

text \<open>The sample message on its way to the reader, in three pieces.\<close>

lemma sample_arrives:
  "arriving (map (Received \<circ> wire_frame) (tl sample_frames)) [] = concat (map wire_frame (tl sample_frames))"
  using sample_frames_ok(1) by (auto simp: sample_frames received_frame simp del: arriving.simps(2))

lemma sample_header: "frame_size (header_frame 2 5 empty_properties) = 22" "fits 4096 (set_raw (header_frame 2 5 empty_properties))"
    "fits 4096 (body_frame 2 [1, 2, 3, 4, 5])" "valid_basic_properties empty_properties" "headers_clonable empty_properties"
    "valid_properties (Basic_properties empty_properties)"
  by (simp_all add: fits_4096 header_frame_def body_frame_def frame_size_def be16_def be64_def wire_properties_def wire_flags_def
      empty_properties_def valid_frame_def set_raw_def valid_properties_def valid_flags_def valid_basic_properties_def
      valid_flagged_def wire_basic_properties_def wire_flagged_def headers_clonable_def)

theorem message_read_whole_witness:
  "\<exists>m st'. amqp_read_message 2 (open_connection (map (Received \<circ> wire_frame)
        [set_raw (header_frame 2 5 empty_properties), open_ok, body_frame 2 [1, 2, 3, 4, 5]]) [] [])
      = (Inr (rpc_reply AMQP_RESPONSE_NORMAL None, m), st') \<and> hb_bytes (msg_body m) = [1, 2, 3, 4, 5]
    \<and> queued_frames st' = [open_ok]"
proof -
  let ?fs = "[set_raw (header_frame 2 5 empty_properties), open_ok, body_frame 2 [1, 2, 3, 4, 5]]"
  let ?st = "open_connection (map (Received \<circ> wire_frame) ?fs) [] []"
  let ?L = "[([open_ok], [1, 2, 3, 4, 5 :: u8])]"
  have "incoming ?st = concat (map wire_frame ?fs) @ []"
    using sample_header(2,3) open_ok_fits(1) by (simp add: received_frame fits_4096 del: arriving.simps(2))
  moreover have "\<forall>f \<in> set ?fs. fits 4096 f \<and> frame_type f \<noteq> FRAME_HEARTBEAT"
    using sample_header(2,3) open_ok_fits by (simp add: set_raw_def header_frame_def body_frame_def)
  ultimately have "frames_arrive ?fs ?st"
    unfolding frames_arrive_def by (intro exI [of _ 4096] exI [of _ ?fs] exI [of _ "[]"]) simp
  then have "frames_arrive ([] @ set_raw (header_frame 2 (of_nat (length [1, 2, 3, 4, 5 :: u8])) empty_properties)
      # concat (map (\<lambda>(gs, c). gs @ [body_frame 2 c]) ?L) @ []) ?st"
    by simp
  from message_read_whole [OF this _ _ refl _ _ sample_header(4,5)] show ?thesis
    using open_ok_fits(3) by simp blast
qed

theorem publish_then_read_witness:
  "\<exists>st' m st2'. amqp_basic_publish 1 [] [0x71] False False (Some empty_properties) sample_body (open_connection [] sample_sends []) = (Inr OK, st')
    \<and> amqp_read_message 1 (open_connection (map (Received \<circ> wire_frame) (tl sample_frames)) [] [])
      = (Inr (rpc_reply AMQP_RESPONSE_NORMAL None, m), st2') \<and> hb_bytes (msg_body m) = sample_body"
proof -
  have "amqp_basic_publish 1 [] [0x71] False False None sample_body st
      = amqp_basic_publish 1 [] [0x71] False False (Some empty_properties) sample_body st" for st
    by (simp only: amqp_basic_publish_def option.case)
  then obtain st' where st': "amqp_basic_publish 1 [] [0x71] False False (Some empty_properties) sample_body (open_connection [] sample_sends []) = (Inr OK, st')"
      "w_sent (os st') = concat (map wire_frame sample_frames)"
    using sample_published [of "[]" "[]"] by (auto simp: put_out_def)
  have "\<exists>m st2'. amqp_read_message 1 (open_connection (map (Received \<circ> wire_frame) (tl sample_frames)) [] [])
      = (Inr (rpc_reply AMQP_RESPONSE_NORMAL None, m), st2') \<and> hb_bytes (msg_body m) = sample_body \<and> msg_properties m = empty_properties"
    by (rule publish_then_read [OF _ _ _ _ sample_header(6,5) _ st'(1), where M = 4096 and rest = "[]"
          and content = "concat (map wire_frame (tl sample_frames))"])
      (use sample_frames_ok sample_arrives st'(2) in \<open>auto simp: sample_frames UINT8_MAX_def\<close>)
  with st'(1) show ?thesis by blast
qed

end
