(* ===== verification/Amqp_Destroy.thy ===== *)
theory Amqp_Destroy
  imports Amqp_Rpc Amqp_Setup
begin

text \<open>
  Destroying a connection (\<^verbatim>\<open>amqp_connection.c\<close>). Freeing a block that is not allocated is undefined behaviour: a block
  that \<^verbatim>\<open>amqp_destroy_connection\<close> frees itself is tested for it, those that \<open>empty_amqp_pool\<close> and
  \<open>amqp_socket_delete\<close> free are seen in \<open>h_stray\<close> of the heap. The theorem of this theory says that a connection whose
  blocks are its own is destroyed without one, and that every block of it is given back.
\<close>

section \<open>amqp\_connection.c: amqp\_destroy\_connection\<close>

definition free_live :: "nat \<Rightarrow> unit io" where
  "free_live b st =
    (if b \<in> set (h_live (c_heap (inp st))) then (Inr (), set_heap (free b (c_heap (inp st))) st)
     else (Inl Undefined_behaviour, st))"

text \<open>\<^verbatim>\<open>free\<close> of a pointer that may be \<^verbatim>\<open>NULL\<close>.\<close>

definition free_pointer :: "nat option \<Rightarrow> unit io" where
  "free_pointer p = (case p of None \<Rightarrow> io_return () | Some b \<Rightarrow> free_live b)"

definition empty_pool_of :: "amqp_pool \<Rightarrow> unit io" where
  "empty_pool_of pool st = (Inr (), set_heap (snd (empty_amqp_pool pool (c_heap (inp st)))) st)"

fun destroy_entries :: "(u16 \<times> nat \<times> amqp_pool) list \<Rightarrow> unit io" where
  "destroy_entries [] = io_return ()"
| "destroy_entries ((ch, b, pool) # rest) =
    io_bind (empty_pool_of pool) (\<lambda>_. io_bind (free_live b) (\<lambda>_. destroy_entries rest))"

definition pool_entries :: "amqp_state \<Rightarrow> (u16 \<times> nat \<times> amqp_pool) list" where
  "pool_entries st = concat (map (pool_table (inp st)) [0..<POOL_TABLE_SIZE])"

definition amqp_destroy_connection :: "int io" where
  "amqp_destroy_connection st =
    io_bind (destroy_entries (pool_entries st)) (\<lambda>_.
    io_bind (free_pointer (outbound_block st)) (\<lambda>_.
    io_bind (free_pointer (sock_inbound_block st)) (\<lambda>_.
    io_bind (\<lambda>s. (Inr (), amqp_socket_delete s)) (\<lambda>_.
    io_bind (empty_pool_of (properties_pool st)) (\<lambda>_.
    io_bind (free_live (state_block st)) (\<lambda>_. io_return OK)))))) st"

section \<open>What a connection owns\<close>

definition pool_owns :: "amqp_pool \<Rightarrow> nat set" where
  "pool_owns p = pool_blocks p \<union> pool_arrays p"

definition entry_owns :: "u16 \<times> nat \<times> amqp_pool \<Rightarrow> nat set" where
  "entry_owns = (\<lambda>(ch, b, p). insert b (pool_owns p))"

text \<open>The parts in the order in which they are freed.\<close>

definition parts :: "amqp_state \<Rightarrow> nat set list" where
  "parts st = map entry_owns (pool_entries st)
     @ [set_option (outbound_block st), set_option (sock_inbound_block st),
        set_option (map_option sock_block (socket st)), pool_owns (properties_pool st), {state_block st}]"

abbreviation live_blocks :: "amqp_state \<Rightarrow> nat set" where
  "live_blocks st \<equiv> set (h_live (c_heap (inp st)))"

definition owns_its_blocks :: "amqp_state \<Rightarrow> bool" where
  "owns_its_blocks st \<longleftrightarrow> heap_wf (c_heap (inp st)) \<and> sorted_wrt (\<lambda>A B. A \<inter> B = {}) (parts st)
     \<and> (\<forall>A \<in> set (parts st). A \<subseteq> live_blocks st)
     \<and> (\<forall>(ch, b, p) \<in> set (pool_entries st). pool_lists_wf p \<and> b \<notin> pool_owns p)
     \<and> pool_lists_wf (properties_pool st)"

lemma empty_pool_frees:
  assumes "heap_wf h" "pool_lists_wf p" "pool_owns p \<subseteq> set (h_live h)"
  shows "heap_wf (snd (empty_amqp_pool p h)) \<and> set (h_live (snd (empty_amqp_pool p h))) = set (h_live h) - pool_owns p"
proof -
  have own: "set (bl_blocks x) \<inter> set_option (bl_array x) = {}" "set (bl_blocks x) \<union> set_option (bl_array x) \<subseteq> set (h_live h)"
    "blocklist_wf x" if "x = pages p \<or> x = large_blocks p" for x
    using that assms(2,3) by (auto simp: pool_lists_wf_def pool_owns_def pool_blocks_def pool_arrays_def)
  obtain x h1 where e: "empty_blocklist (large_blocks p) h = (x, h1)" by fastforce
  note w = empty_blocklist_wf [OF assms(1) own(3) e own(2,1), simplified]
  obtain y h2 where f: "empty_blocklist (pages p) h1 = (y, h2)" by fastforce
  have "set (bl_blocks (pages p)) \<union> set_option (bl_array (pages p)) \<subseteq> set (h_live h1)"
    using w own(2) [of "pages p"] assms(2) by (auto simp: pool_lists_wf_def pool_blocks_def pool_arrays_def)
  note v = empty_blocklist_wf [OF _ own(3) f this own(1), simplified]
  have "snd (empty_amqp_pool p h) = h2" using e f by (simp add: empty_amqp_pool_def recycle_amqp_pool_def)
  with w v show ?thesis by (auto simp: pool_owns_def pool_blocks_def pool_arrays_def)
qed

text \<open>A step that frees the blocks \<open>A\<close> and nothing else.\<close>

definition frees :: "nat set \<Rightarrow> amqp_state \<Rightarrow> 'a outcome \<times> amqp_state \<Rightarrow> bool" where
  "frees A st = (\<lambda>(r, st'). (\<exists>v. r = Inr v) \<and> heap_wf (c_heap (inp st')) \<and> live_blocks st' = live_blocks st - A
     \<and> socket st' = socket st)"

lemma frees_bind:
  assumes "frees A st (m st)" "\<And>v st'. m st = (Inr v, st') \<Longrightarrow> frees B st' (f v st')"
  shows "frees (A \<union> B) st (io_bind m f st)"
proof -
  obtain r st1 where m: "m st = (r, st1)" by fastforce
  with assms(1) obtain v where v: "r = Inr v" "live_blocks st1 = live_blocks st - A" "socket st1 = socket st"
    by (auto simp: frees_def)
  from assms(2) [of v st1] m v show ?thesis by (auto simp: io_bind_def frees_def)
qed

lemma frees_return [simp]: "frees A st (io_return v st) \<longleftrightarrow> heap_wf (c_heap (inp st)) \<and> live_blocks st \<inter> A = {}"
  by (auto simp: frees_def io_return_def)

lemma frees_free [intro]: "heap_wf (c_heap (inp st)) \<Longrightarrow> b \<in> live_blocks st \<Longrightarrow> frees {b} st (free_live b st)"
  using free_wf [of "c_heap (inp st)" b] by (simp add: frees_def free_live_def set_heap_def)

lemma frees_pointer [intro]:
  "heap_wf (c_heap (inp st)) \<Longrightarrow> set_option p \<subseteq> live_blocks st \<Longrightarrow> frees (set_option p) st (free_pointer p st)"
  by (cases p) (auto simp: free_pointer_def)

lemma frees_pool [intro]:
  "heap_wf (c_heap (inp st)) \<Longrightarrow> pool_lists_wf p \<Longrightarrow> pool_owns p \<subseteq> live_blocks st
    \<Longrightarrow> frees (pool_owns p) st (empty_pool_of p st)"
  using empty_pool_frees [of "c_heap (inp st)" p] by (simp add: frees_def empty_pool_of_def set_heap_def)

lemma frees_result: "frees A st (Inr v, st') \<Longrightarrow> heap_wf (c_heap (inp st')) \<and> live_blocks st' = live_blocks st - A \<and> socket st' = socket st"
  by (simp add: frees_def)

lemma freesE:
  assumes "frees A st x"
  obtains v st' where "x = (Inr v, st')" "heap_wf (c_heap (inp st'))" "live_blocks st' = live_blocks st - A" "socket st' = socket st"
  using assms by (cases x) (auto simp: frees_def)

lemma destroy_entries_frees:
  assumes "heap_wf (c_heap (inp st))" "sorted_wrt (\<lambda>A B. A \<inter> B = {}) (map entry_owns es)"
    "\<forall>e \<in> set es. entry_owns e \<subseteq> live_blocks st" "\<forall>(ch, b, p) \<in> set es. pool_lists_wf p \<and> b \<notin> pool_owns p"
  shows "frees (\<Union> (entry_owns ` set es)) st (destroy_entries es st)"
  using assms
proof (induction es arbitrary: st)
  case (Cons e es)
  obtain ch b p where e: "e = (ch, b, p)" by (cases e)
  have p: "pool_lists_wf p" "b \<notin> pool_owns p" "b \<in> live_blocks st" "pool_owns p \<subseteq> live_blocks st"
    using Cons.prems e by (auto simp: entry_owns_def)
  have rest: "frees ({b} \<union> \<Union> (entry_owns ` set es)) st1 (io_bind (free_live b) (\<lambda>_. destroy_entries es) st1)"
    if "empty_pool_of p st = (Inr v, st1)" for v st1
  proof -
    note f = frees_result [OF frees_pool [OF Cons.prems(1) p(1,4), unfolded that]]
    show ?thesis
    proof (rule frees_bind)
      show "frees {b} st1 (free_live b st1)" using f p by auto
    next
      fix u st2
      assume "free_live b st1 = (Inr u, st2)"
      moreover have "frees {b} st1 (free_live b st1)" using f p by auto
      ultimately have g: "heap_wf (c_heap (inp st2))" "live_blocks st2 = live_blocks st - entry_owns e"
        using frees_result [of "{b}" st1 u st2] f e by (auto simp: entry_owns_def)
      show "frees (\<Union> (entry_owns ` set es)) st2 (destroy_entries es st2)"
        by (rule Cons.IH) (use g Cons.prems in \<open>auto simp: disjoint_iff subset_iff\<close>)
    qed
  qed
  have "pool_owns p \<union> ({b} \<union> \<Union> (entry_owns ` set es)) = \<Union> (entry_owns ` set (e # es))"
    using e by (auto simp: entry_owns_def)
  with frees_bind [of "pool_owns p" st "empty_pool_of p", OF frees_pool [OF Cons.prems(1) p(1,4)] rest] show ?case
    by (simp add: e)
qed simp

lemma socket_delete_live:
  assumes "heap_wf (c_heap (inp st))" "set_option (map_option sock_block (socket st)) \<subseteq> live_blocks st"
  shows "heap_wf (c_heap (inp (amqp_socket_delete st)))
    \<and> live_blocks (amqp_socket_delete st) = live_blocks st - set_option (map_option sock_block (socket st))"
  using free_wf [OF assms(1)] assms
  by (auto simp: amqp_socket_delete_def amqp_tcp_socket_delete_def set_heap_def split: option.split)

text \<open>The parts that are still there when it is their turn.\<close>

lemma part_left:
  assumes "A \<inter> (B \<union> C \<union> D \<union> P \<union> {b}) = {}" "B \<inter> (C \<union> D \<union> P \<union> {b}) = {}" "C \<inter> (D \<union> P \<union> {b}) = {}"
    "D \<inter> (P \<union> {b}) = {}" "P \<inter> {b} = {}" "B \<subseteq> L" "C \<subseteq> L" "D \<subseteq> L" "P \<subseteq> L" "b \<in> L"
  shows "B \<subseteq> L - A" "C \<subseteq> L - A - B" "D \<subseteq> L - A - B - C" "P \<subseteq> L - A - B - C - D" "b \<in> L - A - B - C - D - P"
  using assms by blast+

text \<open>
  C12. Destroying a connection gives everything back, once: when the blocks a connection refers to are live and
  no two of its parts share one, \<^verbatim>\<open>amqp_destroy_connection\<close> returns \<^verbatim>\<open>AMQP_STATUS_OK\<close>, and the blocks that
  remain allocated are those that are not of the connection: the entries of the pool table with their
  pools, the two buffers, the socket, the pool of the properties and the state itself are gone. None of the calls of
  \<^verbatim>\<open>free\<close> on the way, for the pages, large blocks and arrays of the pools and for the socket as for the others, is
  given a block that is not allocated; so none is freed twice.
\<close>

theorem destroy_frees_all:
  assumes "owns_its_blocks st"
  shows "\<exists>st'. amqp_destroy_connection st = (Inr OK, st') \<and> live_blocks st' = live_blocks st - \<Union> (set (parts st))
    \<and> h_stray (c_heap (inp st')) = []"
proof -
  let ?es = "pool_entries st" and ?E = "\<Union> (entry_owns ` set (pool_entries st))"
  let ?O = "set_option (outbound_block st)" and ?I = "set_option (sock_inbound_block st)"
  let ?S = "set_option (map_option sock_block (socket st))" and ?P = "pool_owns (properties_pool st)"
  note own = assms [unfolded owns_its_blocks_def parts_def]
  have wf: "heap_wf (c_heap (inp st))" and props: "pool_lists_wf (properties_pool st)" using own by simp_all
  have sub: "?E \<subseteq> live_blocks st" "?O \<subseteq> live_blocks st" "?I \<subseteq> live_blocks st" "?S \<subseteq> live_blocks st"
    "?P \<subseteq> live_blocks st" "state_block st \<in> live_blocks st"
    using own by auto
  have dis: "?E \<inter> (?O \<union> ?I \<union> ?S \<union> ?P \<union> {state_block st}) = {}" "?O \<inter> (?I \<union> ?S \<union> ?P \<union> {state_block st}) = {}"
    "?I \<inter> (?S \<union> ?P \<union> {state_block st}) = {}" "?S \<inter> (?P \<union> {state_block st}) = {}" "?P \<inter> {state_block st} = {}"
    using own by (auto simp: sorted_wrt_append)
  note left = part_left [OF dis sub(2-6)]
  have "frees ?E st (destroy_entries ?es st)"
    by (rule destroy_entries_frees) (use own in \<open>auto simp: sorted_wrt_append\<close>)
  then obtain st1 where s1: "destroy_entries ?es st = (Inr (), st1)" "heap_wf (c_heap (inp st1))"
      "live_blocks st1 = live_blocks st - ?E" "socket st1 = socket st"
    by (auto elim: freesE)
  have "frees ?O st1 (free_pointer (outbound_block st) st1)"
    by (rule frees_pointer) (use s1(2,3) left(1) in simp_all)
  then obtain st2 where s2: "free_pointer (outbound_block st) st1 = (Inr (), st2)" "heap_wf (c_heap (inp st2))"
      "live_blocks st2 = live_blocks st1 - ?O" "socket st2 = socket st"
    unfolding s1(4) [symmetric] by (auto elim: freesE)
  have "frees ?I st2 (free_pointer (sock_inbound_block st) st2)"
    by (rule frees_pointer) (use s1(3) s2(2,3) left(2) in simp_all)
  then obtain st3 where s3: "free_pointer (sock_inbound_block st) st2 = (Inr (), st3)" "heap_wf (c_heap (inp st3))"
      "live_blocks st3 = live_blocks st2 - ?I" "socket st3 = socket st"
    unfolding s2(4) [symmetric] by (auto elim: freesE)
  let ?st4 = "amqp_socket_delete st3"
  have l3: "live_blocks st3 = live_blocks st - ?E - ?O - ?I" unfolding s3(3) s2(3) s1(3) ..
  have s4: "heap_wf (c_heap (inp ?st4))" "live_blocks ?st4 = live_blocks st3 - ?S"
    using socket_delete_live [OF s3(2), unfolded s3(4) l3, OF left(3)] by (simp_all only: l3)
  have l4: "live_blocks ?st4 = live_blocks st - ?E - ?O - ?I - ?S" unfolding s4(2) l3 ..
  obtain st5 where s5: "empty_pool_of (properties_pool st) ?st4 = (Inr (), st5)" "heap_wf (c_heap (inp st5))"
      "live_blocks st5 = live_blocks ?st4 - ?P"
    using frees_pool [OF s4(1) props, unfolded l4, OF left(4)] by (elim freesE) simp
  have l5: "live_blocks st5 = live_blocks st - ?E - ?O - ?I - ?S - ?P" unfolding s5(3) l4 ..
  have b: "state_block st \<in> live_blocks st5" unfolding l5 by (rule left(5))
  obtain st6 where s6: "free_live (state_block st) st5 = (Inr (), st6)" "heap_wf (c_heap (inp st6))"
      "live_blocks st6 = live_blocks st5 - {state_block st}"
    using frees_free [OF s5(2) b] by (auto elim: freesE)
  have "live_blocks st6 = live_blocks st - \<Union> (set (parts st))"
    unfolding s6(3) l5 by (auto simp: parts_def)
  with s1(1) s2(1) s3(1) s5(1) s6(1,2) show ?thesis
    by (simp add: heap_wf_def amqp_destroy_connection_def io_bind_def io_return_def)
qed

section \<open>Freeing twice\<close>

lemma empty_pool_shrinks: "set (h_live (snd (empty_amqp_pool p h))) \<subseteq> set (h_live h)"
proof -
  have f: "set (h_live (fold free bs h)) \<subseteq> set (h_live h)" for bs h
  proof (induction bs arbitrary: h)
    case (Cons b bs)
    from Cons.IH [of "free b h"] show ?case by (auto simp: free_def)
  qed simp
  have "set (h_live (snd (empty_blocklist x h))) \<subseteq> set (h_live h)" for x h
    using f [of "bl_blocks x" h] by (auto simp: empty_blocklist_def free_def split: option.split)
  from this [of "pages p"] this [of "large_blocks p" h] show ?thesis
    by (auto simp: empty_amqp_pool_def recycle_amqp_pool_def split: prod.splits) (metis in_mono snd_conv)
qed

lemma destroy_entries_shrinks:
  "destroy_entries es st = (r, st') \<Longrightarrow> (r = Inr () \<or> r = Inl Undefined_behaviour) \<and> live_blocks st' \<subseteq> live_blocks st"
proof (induction es arbitrary: st)
  case (Cons e es)
  obtain ch b p where e: "e = (ch, b, p)" by (cases e)
  let ?h = "snd (empty_amqp_pool p (c_heap (inp st)))"
  from Cons.prems Cons.IH [of "set_heap (free b ?h) (set_heap ?h st)"] empty_pool_shrinks [of p "c_heap (inp st)"]
  show ?case
    by (auto simp: e io_bind_def empty_pool_of_def free_live_def set_heap_def free_def split: if_splits)
qed (simp add: io_return_def)

text \<open>A connection that still points to an outbound buffer that is gone frees it again.\<close>

lemma destroy_frees_twice:
  assumes "outbound_block st = Some b" "b \<notin> live_blocks st"
  shows "fst (amqp_destroy_connection st) = Inl Undefined_behaviour"
proof -
  obtain r st1 where d: "destroy_entries (pool_entries st) st = (r, st1)" by fastforce
  with destroy_entries_shrinks [OF d] assms show ?thesis
    by (auto simp: amqp_destroy_connection_def io_bind_def free_pointer_def free_live_def)
qed

end
