(* ===== verification/Amqp_Robust.thy ===== *)
theory Amqp_Robust
  imports Amqp_Messages Amqp_Destroy
begin

text \<open>
  What holds whatever the operating system does and the peer sends: the loops end, the invariants are kept,
  what is sent is a prefix of what was asked for. Then the queue and the pools, setting up a
  connection, and the negotiation of the login.
\<close>

section \<open>Loops that end\<close>

lemma queue_op_advances:
  assumes "(r, st2) \<in> {store_frame f st1, amqp_queue_frame f st1, amqp_put_back_frame f st1}" "conn_ok st1" "advances st st1"
  shows "(\<exists>v. r = Inr v) \<and> conn_ok st2 \<and> advances st st2"
  using queue_ops_end [OF assms(1)] assms(2,3) by (auto simp: advances_def)

lemma wait_recv_nonpos:
  assumes "wait_recv d st = (Inr (Wait_return v), st')"
  shows "v \<le> 0"
  using assms
  by (auto simp: wait_recv_def send_due_heartbeat_def wait_timed_out_def amqp_send_frame_def Let_def
      dest: send_frame_nonpos recv_with_timeout_nonpos split: prod.splits sum.splits if_splits amqp_status_enum.splits)

lemma wait_frame_nonpos: "wait_frame_loop b d st = (Inr (v, f), st') \<Longrightarrow> v \<le> 0"
proof (induction st arbitrary: b rule: advances_induct)
  case (step st)
  show ?case
    using step.prems step.IH consume_one_frame_nonpos [of st v f st'] wait_recv_nonpos [of d st v st']
    by (auto simp: wait_frame_loop.simps [of b d st] Let_def split: if_splits prod.splits sum.splits wait_next.splits)
qed

lemma rpc_wait_ends: "conn_ok st \<Longrightarrow> fst (rpc_wait channel ids deadline st) \<noteq> Inl Out_of_fuel"
proof (induction st rule: advances_induct)
  case (step st)
  obtain x st1 where c: "wait_frame_inner deadline st = (x, st1)" by fastforce
  note w = wait_frame_inner_delivers [OF step.prems, of deadline, unfolded c]
  show ?case
  proof (cases "\<exists>frame. x = Inr (OK, frame)")
    case False
    show ?thesis
    proof (cases x)
      case (Inr y)
      obtain v f where y: "y = (v, f)" by fastforce
      with False Inr have "v \<noteq> OK" by auto
      moreover have "v \<le> 0" using wait_frame_nonpos c Inr y by (auto simp: wait_frame_inner_def)
      ultimately show ?thesis using c Inr y by (simp add: rpc_wait.simps [of _ _ _ st])
    qed (use w c in \<open>simp add: rpc_wait.simps [of _ _ _ st]\<close>)
  next
    case True
    then obtain f where x: "x = Inr (OK, f)" by auto
    with w have s: "conn_ok st1" "advances st st1" by (simp_all add: delivers_result)
    obtain y st2 where q: "store_frame f st1 = (y, st2)" by fastforce
    have h: "(\<exists>v. y = Inr v) \<and> conn_ok st2 \<and> advances st st2"
      by (rule queue_op_advances [of _ _ f, OF _ s]) (simp add: q)
    with step.IH [of st2] c x show ?thesis
      by (auto simp: rpc_wait.simps [of _ _ _ st] q split: if_splits)
  qed
qed

text \<open>A frame of the channel: the queue gets shorter, or the connection advances.\<close>

lemma on_channel_ends:
  assumes "conn_ok st" "amqp_simple_wait_frame_on_channel channel st = (r, st')"
  shows "r \<noteq> Inl Out_of_fuel"
    and "r = Inr (OK, f) \<Longrightarrow> conn_ok st' \<and> (advances st st' \<or> length (queued_frames st') < length (queued_frames st)
          \<and> calls_left (os st') = calls_left (os st) \<and> bytes_left st' = bytes_left st)"
proof -
  have "r \<noteq> Inl Out_of_fuel \<and> (r = Inr (OK, f) \<longrightarrow> conn_ok st' \<and> (advances st st' \<or> length (queued_frames st') < length (queued_frames st)
          \<and> calls_left (os st') = calls_left (os st) \<and> bytes_left st' = bytes_left st))"
  proof (cases "dropWhile (\<lambda>f. frame_channel f \<noteq> channel) (queued_frames st)")
    case Nil
    with assms(2) have w: "wait_on_channel channel st = (r, st')" by (simp add: amqp_simple_wait_frame_on_channel_def)
    show ?thesis using wait_on_channel_delivers [OF assms(1), of channel] unfolding w
      by (cases r) (auto simp: delivers_result)
  next
    case (Cons g rest)
    have "length rest < length (queued_frames st)"
      using length_dropWhile_le [of "\<lambda>f. frame_channel f \<noteq> channel" "queued_frames st"] Cons by simp
    with Cons assms show ?thesis by (auto simp: amqp_simple_wait_frame_on_channel_def)
  qed
  then show "r \<noteq> Inl Out_of_fuel" "r = Inr (OK, f) \<Longrightarrow> conn_ok st' \<and> (advances st st' \<or> length (queued_frames st') < length (queued_frames st)
          \<and> calls_left (os st') = calls_left (os st) \<and> bytes_left st' = bytes_left st)" by auto
qed

lemma read_body_ends: "conn_ok st \<Longrightarrow> fst (read_body channel len acc st) \<noteq> Inl Out_of_fuel"
proof (induction channel len acc st rule: read_body.induct)
  case (1 channel len acc st)
  obtain r st1 where w: "amqp_simple_wait_frame_on_channel channel st = (r, st1)" by fastforce
  note e = on_channel_ends [OF 1(2) w]
  show ?case
  proof (cases "\<exists>f. r = Inr (OK, f)")
    case False
    with e(1) w show ?thesis by (auto simp: read_body.simps [of _ _ _ st] split: sum.split)
  next
    case True
    then obtain f where r: "r = Inr (OK, f)" by auto
    note p = e(2) [OF r]
    show ?thesis
      using 1(1) [OF _ w [symmetric] r refl] p w r
      by (auto simp: read_body.simps [of _ _ _ st] split: amqp_frame_payload.split)
  qed
qed

text \<open>
  The loops make progress: no loop goes round without using up a result of a system call, a byte in the buffer or a
  queued frame; such a round would give \<open>Out_of_fuel\<close>. Of an environment with finitely many results a wait uses up at most
  all of them. This is no bound on the time a wait takes: a peer that sends heartbeats for ever keeps it going.
\<close>

theorem waits_end:
  assumes "conn_ok st"
  shows "fst (wait_frame_inner deadline st) \<noteq> Inl Out_of_fuel
    \<and> fst (amqp_simple_wait_frame_on_channel channel st) \<noteq> Inl Out_of_fuel
    \<and> fst (amqp_try_recv st) \<noteq> Inl Out_of_fuel
    \<and> fst (rpc_wait channel ids deadline st) \<noteq> Inl Out_of_fuel
    \<and> fst (read_body channel len acc st) \<noteq> Inl Out_of_fuel"
proof (intro conjI)
  show "fst (wait_frame_inner deadline st) \<noteq> Inl Out_of_fuel"
    using wait_frame_inner_delivers [OF assms, of deadline] by (cases "wait_frame_inner deadline st") auto
  show "fst (amqp_simple_wait_frame_on_channel channel st) \<noteq> Inl Out_of_fuel"
    using on_channel_ends(1) [OF assms] by (cases "amqp_simple_wait_frame_on_channel channel st") auto
  show "fst (amqp_try_recv st) \<noteq> Inl Out_of_fuel"
    using amqp_try_recv_ends(1) [OF assms] by (cases "amqp_try_recv st") auto
qed (use assms rpc_wait_ends read_body_ends in blast)+

theorem waits_end_witness:
  "fst (wait_frame_inner amqp_time_infinite (open_connection [Received [1, 2, 3], Recv_errno EWOULDBLOCK] [] [Poll_timeout])) \<noteq> Inl Out_of_fuel"
  using waits_end [of "open_connection [Received [1, 2, 3], Recv_errno EWOULDBLOCK] [] [Poll_timeout]" amqp_time_infinite]
  by (simp add: conn_ok_def conn_inv_def buffer_ok_def open_connection_def)

section \<open>Sending and receiving whatever the system does\<close>

text \<open>
  C22. Sending a frame is all or a prefix: whenever \<^verbatim>\<open>amqp_send_frame_inner\<close> returns, whatever pieces the system accepts, whatever errors
  it reports and whatever arrives, what it has handed to the system is a prefix of the bytes of
  the frame, in order and none twice, although it may read and queue frames in between. It reports success
  only with the whole frame sent, which then fits the outbound buffer, and never a positive number.
\<close>

theorem send_frame_exact:
  assumes "valid_frame f" "can_send st" "amqp_send_frame_inner f deadline st = (Inr v, st')"
  shows "\<exists>k \<le> frame_size f. w_sent (os st') = w_sent (os st) @ take k (wire_frame f)
    \<and> (v = OK \<longrightarrow> k = frame_size f \<and> frame_size f \<le> outbound_len st) \<and> v \<le> 0"
  using send_frame_puts [OF assms] send_frame_nonpos [OF assms(3)] by (auto simp: puts_def length_wire_frame)

theorem send_frame_exact_witness:
  "\<exists>st'. amqp_send_frame_inner heartbeat_frame amqp_time_infinite (open_connection [] [Accepted 3, Send_errno EINTR, Accepted 9] [])
      = (Inr OK, st') \<and> w_sent (os st') = wire_frame heartbeat_frame"
proof -
  let ?st = "open_connection [] [Accepted 3, Send_errno EINTR, Accepted 9] []"
  have hb: "valid_frame heartbeat_frame" "frame_size heartbeat_frame = 8"
    by (simp_all add: heartbeat_frame_def valid_frame_def frame_size_def)
  then obtain st' where run: "amqp_send_frame_inner heartbeat_frame amqp_time_infinite ?st = (Inr OK, st')"
    using send_frame_absorbs [of heartbeat_frame ?st "[]"] by auto
  from send_frame_exact [OF hb(1) _ run] run hb(2) show ?thesis by (auto simp: length_wire_frame)
qed

text \<open>
  C32. The input machine keeps its invariant on any bytes at all: a call of \<^verbatim>\<open>amqp_handle_input\<close> that returns has consumed at
  least one byte and no more than it was given, and left the buffers, offsets and sizes of the
  connection consistent; it never runs on without an end. A call that does not return has crashed or reported a status.
\<close>

theorem input_keeps_invariant:
  assumes "conn_inv st" "d \<noteq> []" "length d < 2 ^ 31" "amqp_handle_input st d = (r, f, st')"
  shows "case r of Inr v \<Rightarrow> conn_inv st' \<and> 1 \<le> v \<and> v \<le> int (length d) | Inl e \<Rightarrow> e \<noteq> Out_of_fuel \<and> e \<noteq> Blocked"
  using handle_input_kept [OF assms(1-3)] assms(2,4) by (cases d) (auto simp: input_kept_def split: sum.splits)

theorem input_keeps_invariant_witness:
  "\<exists>r f st'. amqp_handle_input (inp (open_connection [] [] [])) [9, 9, 9] = (r, f, st') \<and> (\<forall>v. r = Inr v \<longrightarrow> conn_inv st' \<and> v \<le> 3)"
proof -
  obtain r f st' where run: "amqp_handle_input (inp (open_connection [] [] [])) [9, 9, 9] = (r, f, st')" by (metis prod_cases3)
  have "conn_inv (inp (open_connection [] [] []))" by (simp add: open_connection_def conn_inv_def)
  from input_keeps_invariant [OF this _ _ run] run show ?thesis by (auto split: sum.splits)
qed

section \<open>The queue and the pools\<close>

text \<open>
  Waiting on a channel loses frames: when a frame of the channel is in the queue, \<^verbatim>\<open>amqp_simple_wait_frame_on_channel\<close>
  returns the first one and unlinks it together with all frames before it, which belong to other channels
  and are never delivered.
\<close>

theorem on_channel_drops:
  assumes "queued_frames st = gs @ f # rest" "\<forall>g \<in> set gs. frame_channel g \<noteq> channel" "frame_channel f = channel"
  shows "amqp_simple_wait_frame_on_channel channel st = (Inr (OK, f), st\<lparr>queued_frames := rest\<rparr>)"
proof -
  have "dropWhile (\<lambda>f. frame_channel f \<noteq> channel) (queued_frames st) = f # rest"
    using assms by (simp add: dropWhile_append)
  then show ?thesis by (simp only: amqp_simple_wait_frame_on_channel_def list.case)
qed

theorem on_channel_drops_witness:
  "amqp_simple_wait_frame_on_channel 2 ((open_connection [] [] [])\<lparr>queued_frames := [body_frame 1 [7], body_frame 2 [8]]\<rparr>)
    = (Inr (OK, body_frame 2 [8]), (open_connection [] [] [])\<lparr>queued_frames := []\<rparr>)"
  using on_channel_drops [of "(open_connection [] [] [])\<lparr>queued_frames := [body_frame 1 [7], body_frame 2 [8]]\<rparr>" "[body_frame 1 [7]]" "body_frame 2 [8]" "[]" 2]
  by (simp add: body_frame_def)

lemma other_pool:
  assumes "ch' \<noteq> ch"
  shows "amqp_get_channel_pool ((put_channel_pool c ch' p)\<lparr>c_heap := h\<rparr>) ch = amqp_get_channel_pool c ch"
proof -
  have "map_of (map (\<lambda>(c, b, q). if c = ch' then (c, b, p) else (c, b, q)) xs) ch = map_of xs ch"
    for xs :: "(u16 \<times> nat \<times> amqp_pool) list"
    using assms by (induction xs) auto
  then show ?thesis by (simp add: amqp_get_channel_pool_def put_channel_pool_def)
qed

text \<open>
  C20. Releasing buffers spares what is still queued: \<^verbatim>\<open>amqp_release_buffers\<close> leaves the queue as it is, and the memory pool of
  every channel that has a frame in the queue.
\<close>

theorem release_spares_queued:
  assumes "conn_state (inp st) = CONNECTION_STATE_IDLE" "f \<in> set (queued_frames st)"
  shows "\<exists>st'. amqp_release_buffers st = (Inr (), st') \<and> queued_frames st' = queued_frames st
    \<and> amqp_get_channel_pool (inp st') (frame_channel f) = amqp_get_channel_pool (inp st) (frame_channel f)"
proof -
  let ?keeps = "\<lambda>st'. queued_frames st' = queued_frames st
    \<and> amqp_get_channel_pool (inp st') (frame_channel f) = amqp_get_channel_pool (inp st) (frame_channel f)"
  have one: "?keeps (amqp_maybe_release_buffers_on_channel ch st1)" if "?keeps st1" for ch st1
  proof (cases "ch = frame_channel f")
    case True
    then have "list_ex (\<lambda>g. frame_channel g = ch) (queued_frames st1)" using that assms(2) by (auto simp: list_ex_iff)
    with that show ?thesis by (simp add: amqp_maybe_release_buffers_on_channel_def)
  next
    case False
    with that show ?thesis
      by (auto simp: amqp_maybe_release_buffers_on_channel_def other_pool split: option.split prod.split)
  qed
  have "?keeps st1 \<Longrightarrow> ?keeps (fold amqp_maybe_release_buffers_on_channel chs st1)" for chs st1
  proof (induction chs arbitrary: st1)
    case (Cons ch chs)
    from Cons.IH [OF one [OF Cons.prems]] show ?case by simp
  qed simp
  from this [of st] show ?thesis using assms(1) by (simp add: amqp_release_buffers_def)
qed

theorem release_spares_queued_witness:
  "\<exists>st'. amqp_release_buffers ((open_connection [] [] [])\<lparr>queued_frames := [body_frame 1 [7]]\<rparr>) = (Inr (), st')
    \<and> queued_frames st' = [body_frame 1 [7]]"
  using release_spares_queued [of "(open_connection [] [] [])\<lparr>queued_frames := [body_frame 1 [7]]\<rparr>" "body_frame 1 [7]"]
  by (auto simp: open_connection_def)

section \<open>Setting up a connection\<close>

text \<open>
  C33. A new connection is well formed: with memory, \<^verbatim>\<open>amqp_new_connection\<close> returns a connection that satisfies the invariants of receiving
  and sending, with no socket and nothing queued, waiting for the first 8 bytes, with the default limits and timeout.
  Destroying it gives back exactly the blocks it took.
\<close>

theorem new_connection_ok:
  assumes "heap_ok h" "heap_wf h"
  shows "\<exists>st h'. amqp_new_connection stale w h = (Some st, h') \<and> c_heap (inp st) = h' \<and> heap_ok h'
    \<and> conn_ok st \<and> can_send st \<and> conn_state (inp st) = CONNECTION_STATE_INITIAL \<and> target_size (inp st) = 8
    \<and> frame_max (inp st) = 65536 \<and> outbound_len st = 65536 \<and> queued_frames st = [] \<and> amqp_get_sockfd st = -1
    \<and> handshake_timeout st = Some \<lparr>tv_sec = 12, tv_usec = 0\<rparr>
    \<and> (\<exists>st''. amqp_destroy_connection st = (Inr OK, st'') \<and> set (h_live (c_heap (inp st''))) = set (h_live h))"
proof -
  obtain b1 h1 where m1: "malloc sizeof_connection_state h = (Some b1, h1)" "heap_ok h1"
    using malloc_ok [OF assms(1), of sizeof_connection_state] malloc_heap_ok assms by (metis sizeof_connection_state_def zero_less_numeral)
  obtain b2 h2 where m2: "malloc 65536 h1 = (Some b2, h2)" "heap_ok h2"
    using malloc_ok [OF m1(2), of 65536] malloc_heap_ok m1(2) by (metis zero_less_numeral)
  obtain b3 h3 where m3: "malloc AMQP_INITIAL_INBOUND_SOCK_BUFFER_SIZE h2 = (Some b3, h3)" "heap_ok h3"
    using malloc_ok [OF m2(2), of AMQP_INITIAL_INBOUND_SOCK_BUFFER_SIZE] malloc_heap_ok m2(2)
    by (metis AMQP_INITIAL_INBOUND_SOCK_BUFFER_SIZE_def zero_less_numeral)
  note w1 = malloc_wf [OF m1(1) assms(2)]
  note w2 = malloc_wf [OF m2(1) conjunct1 [OF w1]]
  note w3 = malloc_wf [OF m3(1) conjunct1 [OF w2]]
  obtain st where st: "amqp_tune_connection 0 65536 0 (zeroed_state b1 h1 stale w) = (Inr 0, st)" "c_heap (inp st) = h2"
      "outbound_len st = 65536" "length (outbound_buffer st) = 65536" "frame_max (inp st) = 65536"
      "header_buffer (inp st) = replicate 8 0" "inbound_offset (inp st) = 0" "queued_frames st = []" "socket st = None"
      "sock_inbound_buffer st = []" "pool_table (inp st) = (\<lambda>_. [])" "outbound_block st = Some b2" "state_block st = b1"
    using m2 by (simp add: amqp_tune_connection_def zeroed_state_def arm_steady resize_outbound_def realloc_buffer_def
        size_of_int_def set_heap_def read_clock_def)
  let ?st = "initial_state b3 (set_heap h3 st)"
  have new: "amqp_new_connection stale w h = (Some ?st, h3)" "c_heap (inp ?st) = h3"
    using m1 m2 m3 st by (simp_all add: amqp_new_connection_def AMQP_INITIAL_FRAME_POOL_PAGE_SIZE_def initial_state_def set_heap_def)
  have parts: "parts ?st = [{b2}, {b3}, {}, {}, {b1}]" "pool_entries ?st = []"
    using st by (simp_all add: parts_def pool_entries_def initial_state_def set_heap_def pool_owns_def pool_defs
        init_amqp_pool_def entry_owns_def)
  have "owns_its_blocks ?st"
    using w1 w2 w3 parts new(2) by (auto simp: owns_its_blocks_def initial_state_def init_amqp_pool_def pool_defs)
  then obtain st' where "amqp_destroy_connection ?st = (Inr OK, st')" "live_blocks st' = set (h_live h)"
    using destroy_frees_all [of ?st] parts(1) new(2) w1 w2 w3 by auto
  with new st m3(2) show ?thesis
    by (simp add: initial_state_def set_heap_def conn_ok_def conn_inv_def buffer_ok_def can_send_def amqp_get_sockfd_def
        AMQP_DEFAULT_LOGIN_TIMEOUT_SEC_def)
qed

theorem new_connection_ok_witness:
  "\<exists>st h'. amqp_new_connection [] (os (open_connection [] [] [])) (c_heap (inp (open_connection [] [] []))) = (Some st, h') \<and> conn_ok st"
  using new_connection_ok [of "c_heap (inp (open_connection [] [] []))" "[]" "os (open_connection [] [] [])"]
  by (fastforce simp: open_connection_def heap_ok_def heap_wf_def)

text \<open>
  A frame size of zero destroys the outbound buffer: \<^verbatim>\<open>amqp_tune_connection\<close> with \<^verbatim>\<open>frame_max\<close> 0, the value that a login
  with no limit of the client negotiates, reports \<^verbatim>\<open>AMQP_STATUS_NO_MEMORY\<close> after \<^verbatim>\<open>realloc\<close> has freed the
  buffer, and keeps the pointer to it: \<^verbatim>\<open>amqp_destroy_connection\<close> then frees it again, which is undefined behaviour.
\<close>

theorem tune_zero_frees:
  assumes "conn_state (inp st) = CONNECTION_STATE_IDLE" "outbound_block st = Some b" "hb \<le> 0"
  shows "\<exists>st'. amqp_tune_connection chan 0 hb st = (Inr (code AMQP_STATUS_NO_MEMORY), st')
    \<and> outbound_block st' = Some b \<and> b \<notin> set (h_live (c_heap (inp st')))
    \<and> fst (amqp_destroy_connection st') = Inl Undefined_behaviour"
  using assms
  by (simp add: amqp_tune_connection_def arm_steady resize_outbound_def realloc_buffer_def size_of_int_def set_heap_def
      read_clock_def free_def destroy_frees_twice)

theorem tune_zero_frees_witness:
  "\<exists>st'. amqp_tune_connection 0 0 0 (open_connection [] [] []) = (Inr (code AMQP_STATUS_NO_MEMORY), st')
    \<and> outbound_block st' = Some 1 \<and> 1 \<notin> set (h_live (c_heap (inp st')))
    \<and> fst (amqp_destroy_connection st') = Inl Undefined_behaviour"
  by (rule tune_zero_frees) (auto simp: open_connection_def)

text \<open>A connection with the pool of channel 1: its entry is block 4, its page 5, the array of its pages 6.\<close>

theorem destroy_frees_all_witness:
  "\<exists>st'. amqp_destroy_connection ((open_connection [] [] [])\<lparr>inp := (inp (open_connection [] [] []))\<lparr>
       pool_table := (\<lambda>_. [])(1 := [(1, 4, (init_amqp_pool 4096)\<lparr>pages := \<lparr>bl_array = Some 6, bl_blocks = [5]\<rparr>\<rparr>)]),
       c_heap := \<lparr>h_grants = \<lambda>_ _. True, h_count = 9, h_live = [0, 1, 2, 3, 4, 5, 6, 8], h_size = \<lambda>_. 4096, h_stray = []\<rparr>\<rparr>\<rparr>) = (Inr OK, st')
     \<and> live_blocks st' = {8} \<and> h_stray (c_heap (inp st')) = []"
  (is "\<exists>st'. amqp_destroy_connection ?st = _ \<and> _")
proof -
  have e: "pool_entries ?st = [(1, 4, (init_amqp_pool 4096)\<lparr>pages := \<lparr>bl_array = Some 6, bl_blocks = [5]\<rparr>\<rparr>)]"
    by (simp add: pool_entries_def POOL_TABLE_SIZE_def upt_rec)
  have p: "parts ?st = [{4, 5, 6}, {1}, {3}, {2}, {}, {0}]"
    unfolding parts_def e by (auto simp: entry_owns_def pool_owns_def pool_defs init_amqp_pool_def open_connection_def)
  have "owns_its_blocks ?st"
    unfolding owns_its_blocks_def p e by (auto simp: heap_wf_def pool_owns_def pool_defs init_amqp_pool_def open_connection_def)
  from destroy_frees_all [OF this] show ?thesis unfolding p by auto
qed

section \<open>Negotiation\<close>

text \<open>
  The limits of a connection: the number of channels is never zero and exceeds neither side's limit, where 0 stands for
  none; the frame size and the heartbeat interval are the smaller of the two when both sides name one,
  the client's when the server does not, and 0 when the client says 0, whatever the server asks for.
\<close>

theorem negotiated_limits:
  "negotiate_channel_max s c = (if s = 0 then (if c = 0 then 0xFFFF else c) else if c = 0 then s else min s c)
   \<and> negotiate_frame_max sf cf = (if sf = 0 then cf else min sf cf)
   \<and> negotiate_heartbeat sh ch = (if sh = 0 then ch else min sh ch)"
  by (auto simp: negotiate_channel_max_def negotiate_frame_max_def negotiate_heartbeat_def min_def)

text \<open>The words of a list that are separated by single blanks.\<close>

fun split_blanks :: "amqp_bytes \<Rightarrow> amqp_bytes list" where
  "split_blanks [] = [[]]"
| "split_blanks (c # cs) =
    (if c = 0x20 then [] # split_blanks cs
     else (case split_blanks cs of [] \<Rightarrow> [[c]] | w # ws \<Rightarrow> (c # w) # ws))"

lemma split_blanks_unfold:
  "split_blanks xs = takeWhile (\<lambda>c. c \<noteq> 0x20) xs
    # (case dropWhile (\<lambda>c. c \<noteq> 0x20) xs of [] \<Rightarrow> [] | _ # rest \<Rightarrow> split_blanks rest)"
  by (induction xs) (auto split: list.splits)

lemma mechanism_loop_iff: "mechanism_loop m xs \<longleftrightarrow> m \<in> set (split_blanks xs)"
proof (induction m xs rule: mechanism_loop.induct)
  case (1 m xs)
  have e: "bytes_equal m w \<longleftrightarrow> m = w" for w by (auto simp: bytes_equal_def)
  show ?case
  proof (cases "dropWhile (\<lambda>c. c \<noteq> 0x20) xs")
    case Nil
    then show ?thesis by (subst mechanism_loop.simps, subst split_blanks_unfold) (simp only: list.case e, simp)
  next
    case (Cons c rest)
    let ?w = "takeWhile (\<lambda>c. c \<noteq> 0x20) xs"
    have "m = ?w \<or> mechanism_loop m rest = (m \<in> set (split_blanks rest))"
      using 1 [OF _ Cons] e by blast
    moreover have "mechanism_loop m xs = (m = ?w \<or> mechanism_loop m rest)"
      by (subst mechanism_loop.simps) (simp only: Cons list.case e, simp)
    moreover have "split_blanks xs = ?w # split_blanks rest"
      by (subst split_blanks_unfold) (simp only: Cons list.case)
    ultimately show ?thesis by auto
  qed
qed

text \<open>
  The mechanism is looked for word by word: \<^verbatim>\<open>sasl_mechanism_in_list\<close> answers whether the name of the method is one of the words,
  separated by blanks, of the list the server sent; an unknown method aborts the program.
\<close>

theorem sasl_mechanism_iff:
  "sasl_mechanism_in_list mechanisms method =
    (case method of
       AMQP_SASL_METHOD_UNDEFINED \<Rightarrow> Inl Aborted
     | AMQP_SASL_METHOD_PLAIN \<Rightarrow> Inr (ascii ''PLAIN'' \<in> set (split_blanks mechanisms))
     | AMQP_SASL_METHOD_EXTERNAL \<Rightarrow> Inr (ascii ''EXTERNAL'' \<in> set (split_blanks mechanisms)))"
proof -
  have c: "amqp_cstring_bytes (ascii ''PLAIN'') = ascii ''PLAIN''" "amqp_cstring_bytes (ascii ''EXTERNAL'') = ascii ''EXTERNAL''"
    "ascii ''PLAIN'' \<noteq> []" "ascii ''EXTERNAL'' \<noteq> []"
    by (simp_all add: amqp_cstring_bytes_def ascii_def)
  show ?thesis
    using c by (cases "mechanisms = []")
      (auto simp: sasl_mechanism_in_list_def sasl_method_name_def mechanism_loop_iff split: amqp_sasl_method_enum.split)
qed

end
