(* ===== verification/Amqp_Dial.thy ===== *)
theory Amqp_Dial
  imports Amqp_World
begin

text \<open>
  Opening a socket (\<^verbatim>\<open>amqp_socket.c\<close>): the wrappers \<^verbatim>\<open>amqp_os_socket_*\<close> of the system calls and the loop of
  \<^verbatim>\<open>amqp_open_socket_inner\<close> over the addresses of a host.

  Here the operating system keeps the table of open descriptors, \<open>d_open\<close>, each with its descriptor
  flags, its status flags and the address it is connected or connecting to. Whether the \<open>k\<close>-th system
  call fails, and with which error, is an input of the model: \<open>d_fails k\<close>; so is the pending error of a
  connection that was in progress, \<open>d_so_error k\<close>. A new descriptor is the lowest number that is not in
  use, as POSIX has it. Closing a descriptor releases its number whatever \<^verbatim>\<open>close\<close> reports, as on Linux.
  \<^verbatim>\<open>poll\<close> and the clock are those of \<open>Amqp_World\<close>. The code is that for POSIX systems; \<^verbatim>\<open>getaddrinfo\<close> is a
  parameter. \<^verbatim>\<open>SO_NOSIGPIPE\<close>, which Linux does not have, is not set.

  The lemmas say what the loop leaves in the table of descriptors, whatever the system answers.
\<close>

section \<open>The system\<close>

record addrinfo =
  ai_family :: int
  ai_socktype :: int
  ai_protocol :: int
  ai_addr :: amqp_bytes

text \<open>Host name, port and hints to the list of addresses; \<open>None\<close> is a failure.\<close>

type_synonym resolver = "amqp_bytes \<Rightarrow> string \<Rightarrow> int \<times> int \<times> int \<Rightarrow> addrinfo list option"

datatype dial_errno = EINPROGRESS | E_dial

record descriptor =
  fd :: int
  fd_flags :: u32
  fl_flags :: u32
  peer :: "amqp_bytes option"

record dial =
  d_fails :: "nat \<Rightarrow> dial_errno option"
  d_so_error :: "nat \<Rightarrow> int"
  d_calls :: nat
  d_open :: "descriptor list"
  d_world :: world

type_synonym 'a dialer = "dial \<Rightarrow> 'a \<times> dial"

definition FD_CLOEXEC :: u32 where "FD_CLOEXEC = 1"
definition O_NONBLOCK :: u32 where "O_NONBLOCK = 2048"
definition O_RDWR :: u32 where "O_RDWR = 2"

definition sys_call :: "dial_errno option dialer" where
  "sys_call d = (d_fails d (d_calls d), d\<lparr>d_calls := Suc (d_calls d)\<rparr>)"

definition lowest_free :: "descriptor list \<Rightarrow> int" where
  "lowest_free ds = hd (filter (\<lambda>n. n \<notin> fd ` set ds) (map int [0..<Suc (length ds)]))"

definition lookup_fd :: "int \<Rightarrow> dial \<Rightarrow> descriptor option" where
  "lookup_fd s d = find (\<lambda>x. fd x = s) (d_open d)"

definition update_fd :: "int \<Rightarrow> (descriptor \<Rightarrow> descriptor) \<Rightarrow> dial \<Rightarrow> dial" where
  "update_fd s f d = d\<lparr>d_open := map (\<lambda>x. if fd x = s then f x else x) (d_open d)\<rparr>"

text \<open>\<^verbatim>\<open>socket\<close>, \<^verbatim>\<open>close\<close>, \<^verbatim>\<open>fcntl\<close> and \<^verbatim>\<open>connect\<close>.\<close>

definition sys_socket :: "int \<Rightarrow> int \<Rightarrow> int \<Rightarrow> int dialer" where
  "sys_socket domain type protocol d =
    (case sys_call d of
       (Some _, d1) \<Rightarrow> (-1, d1)
     | (None, d1) \<Rightarrow>
         (let s = lowest_free (d_open d1)
          in (s, d1\<lparr>d_open := \<lparr>fd = s, fd_flags = 0, fl_flags = O_RDWR, peer = None\<rparr> # d_open d1\<rparr>)))"

definition sys_close :: "int \<Rightarrow> int dialer" where
  "sys_close s d =
    (case sys_call d of
       (e, d1) \<Rightarrow> (if e = None then 0 else -1, d1\<lparr>d_open := filter (\<lambda>x. fd x \<noteq> s) (d_open d1)\<rparr>))"

definition F_GETFD :: "int \<Rightarrow> u32 option dialer" where
  "F_GETFD s d =
    (case sys_call d of
       (None, d1) \<Rightarrow> (map_option fd_flags (lookup_fd s d1), d1)
     | (Some _, d1) \<Rightarrow> (None, d1))"

definition F_SETFD :: "int \<Rightarrow> u32 \<Rightarrow> int dialer" where
  "F_SETFD s flags d =
    (case sys_call d of
       (None, d1) \<Rightarrow> (0, update_fd s (\<lambda>x. x\<lparr>fd_flags := flags\<rparr>) d1)
     | (Some _, d1) \<Rightarrow> (-1, d1))"

definition F_GETFL :: "int \<Rightarrow> u32 option dialer" where
  "F_GETFL s d =
    (case sys_call d of
       (None, d1) \<Rightarrow> (map_option fl_flags (lookup_fd s d1), d1)
     | (Some _, d1) \<Rightarrow> (None, d1))"

definition F_SETFL :: "int \<Rightarrow> u32 \<Rightarrow> int dialer" where
  "F_SETFL s flags d =
    (case sys_call d of
       (None, d1) \<Rightarrow> (0, update_fd s (\<lambda>x. x\<lparr>fl_flags := flags\<rparr>) d1)
     | (Some _, d1) \<Rightarrow> (-1, d1))"

definition sys_connect :: "int \<Rightarrow> amqp_bytes \<Rightarrow> dial_errno option dialer" where
  "sys_connect s addr d =
    (case sys_call d of
       (e, d1) \<Rightarrow> (e, if e = Some E_dial then d1 else update_fd s (\<lambda>x. x\<lparr>peer := Some addr\<rparr>) d1))"

section \<open>amqp\_socket.c: the wrappers\<close>

unbundle bit_operations_syntax

definition amqp_os_socket_init :: int where
  "amqp_os_socket_init = status_code AMQP_STATUS_OK"

definition amqp_os_socket_close :: "int \<Rightarrow> int dialer" where
  "amqp_os_socket_close s = sys_close s"

definition amqp_os_socket_socket :: "int \<Rightarrow> int \<Rightarrow> int \<Rightarrow> int dialer" where
  "amqp_os_socket_socket domain type protocol d =
    (case sys_socket domain type protocol d of
       (s, d1) \<Rightarrow>
         if s < 0 then (s, d1)
         else
           (case F_GETFD s d1 of
              (None, d2) \<Rightarrow> (-1, snd (sys_close s d2))
            | (Some flags, d2) \<Rightarrow>
                (case F_SETFD s (flags OR FD_CLOEXEC) d2 of
                   (res, d3) \<Rightarrow> if res = -1 then (-1, snd (sys_close s d3)) else (s, d3))))"

definition amqp_os_socket_setsockopt :: "int \<Rightarrow> int dialer" where
  "amqp_os_socket_setsockopt sock d =
    (case sys_call d of (e, d1) \<Rightarrow> (if e = None then 0 else -1, d1))"

definition amqp_os_socket_setsockblock :: "int \<Rightarrow> bool \<Rightarrow> int dialer" where
  "amqp_os_socket_setsockblock sock block d =
    (case F_GETFL sock d of
       (None, d1) \<Rightarrow> (status_code AMQP_STATUS_SOCKET_ERROR, d1)
     | (Some arg, d1) \<Rightarrow>
         (case F_SETFL sock (if block then arg AND NOT O_NONBLOCK else arg OR O_NONBLOCK) d1 of
            (res, d2) \<Rightarrow>
              (if res < 0 then status_code AMQP_STATUS_SOCKET_ERROR else status_code AMQP_STATUS_OK, d2)))"

section \<open>amqp\_socket.c: amqp\_open\_socket\_inner\<close>

text \<open>\<open>poll\<close> on the world inside; it may still be waiting.\<close>

definition dial_poll :: "amqp_time \<Rightarrow> int outcome dialer" where
  "dial_poll deadline d = (case amqp_poll deadline (d_world d) of (r, w) \<Rightarrow> (r, d\<lparr>d_world := w\<rparr>))"

text \<open>\<^verbatim>\<open>getsockopt\<close> with \<^verbatim>\<open>SO_ERROR\<close>: it fails, or yields the pending error of the connection.\<close>

definition connection_result :: "int dialer" where
  "connection_result d =
    (case sys_call d of
       (e, d1) \<Rightarrow>
         (if e \<noteq> None \<or> d_so_error d (d_calls d) \<noteq> 0 then status_code AMQP_STATUS_SOCKET_ERROR
          else status_code AMQP_STATUS_OK, d1))"

text \<open>What the body of the loop does next: \<^verbatim>\<open>continue\<close> or \<^verbatim>\<open>break\<close>, with the value of \<^verbatim>\<open>last_error\<close>.\<close>

datatype dial_next = Dial_continue int | Dial_break int

text \<open>From \<^verbatim>\<open>connect\<close> to the end of the loop.\<close>

definition dial_connect :: "amqp_time \<Rightarrow> int \<Rightarrow> addrinfo \<Rightarrow> dial_next outcome dialer" where
  "dial_connect deadline s addr d =
    (case sys_connect s (ai_addr addr) d of
       (None, d1) \<Rightarrow> (Inr (Dial_break (status_code AMQP_STATUS_OK)), d1)
     | (Some E_dial, d1) \<Rightarrow> (Inr (Dial_break (status_code AMQP_STATUS_SOCKET_ERROR)), d1)
     | (Some EINPROGRESS, d1) \<Rightarrow>
         (case dial_poll deadline d1 of
            (Inl e, d2) \<Rightarrow> (Inl e, d2)
          | (Inr res, d2) \<Rightarrow>
              (case (if res = status_code AMQP_STATUS_OK then connection_result d2 else (res, d2)) of
                 (last_error, d3) \<Rightarrow>
                   (Inr (if last_error \<in> {status_code AMQP_STATUS_OK, status_code AMQP_STATUS_TIMEOUT,
                                          status_code AMQP_STATUS_TIMER_FAILURE}
                         then Dial_break last_error else Dial_continue last_error), d3))))"

definition dial_address :: "amqp_time \<Rightarrow> int \<Rightarrow> addrinfo \<Rightarrow> dial_next outcome dialer" where
  "dial_address deadline s addr d =
    (case amqp_os_socket_setsockopt s d of
       (res, d1) \<Rightarrow>
         if res \<noteq> 0 then (Inr (Dial_continue (status_code AMQP_STATUS_SOCKET_ERROR)), d1)
         else
           (case amqp_os_socket_setsockblock s False d1 of
              (res2, d2) \<Rightarrow>
                if res2 \<noteq> status_code AMQP_STATUS_OK
                then (Inr (Dial_continue (status_code AMQP_STATUS_SOCKET_ERROR)), d2)
                else dial_connect deadline s addr d2))"

text \<open>The loop over the addresses, with \<^verbatim>\<open>sockfd\<close> and \<^verbatim>\<open>last_error\<close>.\<close>

fun dial_loop :: "amqp_time \<Rightarrow> addrinfo list \<Rightarrow> int \<Rightarrow> int \<Rightarrow> (int \<times> int) outcome dialer" where
  "dial_loop deadline [] s last_error d = (Inr (s, last_error), d)"
| "dial_loop deadline (addr # rest) s last_error d =
    (case amqp_os_socket_socket (ai_family addr) (ai_socktype addr) (ai_protocol addr)
            (if s \<noteq> -1 then snd (amqp_os_socket_close s d) else d) of
       (s', d1) \<Rightarrow>
         if s' = -1 then dial_loop deadline rest (-1) (status_code AMQP_STATUS_SOCKET_ERROR) d1
         else
           (case dial_address deadline s' addr d1 of
              (Inl e, d2) \<Rightarrow> (Inl e, d2)
            | (Inr (Dial_break err), d2) \<Rightarrow> (Inr (s', err), d2)
            | (Inr (Dial_continue err), d2) \<Rightarrow> dial_loop deadline rest s' err d2))"

text \<open>\<^verbatim>\<open>PF_UNSPEC\<close>, \<^verbatim>\<open>SOCK_STREAM\<close>, \<^verbatim>\<open>IPPROTO_TCP\<close>, and the port in decimal.\<close>

definition dial_hint :: "int \<times> int \<times> int" where
  "dial_hint = (0, 1, 6)"

fun digits :: "nat \<Rightarrow> string" where
  "digits n = (if n < 10 then [char_of (48 + n)] else digits (n div 10) @ [char_of (48 + n mod 10)])"

declare digits.simps [simp del]

definition sprintf_d :: "int \<Rightarrow> string" where
  "sprintf_d n = (if n < 0 then CHR ''-'' # digits (nat (- n)) else digits (nat n))"

definition amqp_open_socket_inner :: "resolver \<Rightarrow> amqp_bytes \<Rightarrow> int \<Rightarrow> amqp_time \<Rightarrow> int outcome dialer" where
  "amqp_open_socket_inner getaddrinfo hostname portnumber deadline d =
    (if amqp_os_socket_init \<noteq> status_code AMQP_STATUS_OK then (Inr amqp_os_socket_init, d)
     else
       (case getaddrinfo hostname (sprintf_d portnumber) dial_hint of
          None \<Rightarrow> (Inr (status_code AMQP_STATUS_HOSTNAME_RESOLUTION_FAILED), d)
        | Some address_list \<Rightarrow>
            (case dial_loop deadline address_list (-1) 0 d of
               (Inl e, d1) \<Rightarrow> (Inl e, d1)
             | (Inr (s, last_error), d1) \<Rightarrow>
                 if last_error \<noteq> status_code AMQP_STATUS_OK
                 then (Inr last_error, if s \<noteq> -1 then snd (amqp_os_socket_close s d1) else d1)
                 else (Inr s, d1))))"

definition amqp_open_socket :: "resolver \<Rightarrow> amqp_bytes \<Rightarrow> int \<Rightarrow> int outcome dialer" where
  "amqp_open_socket getaddrinfo hostname portnumber =
    amqp_open_socket_inner getaddrinfo hostname portnumber amqp_time_infinite"

text \<open>A deadline from now, for the callers that are given a timeout.\<close>

definition dial_deadline :: "timeval option \<Rightarrow> amqp_time outcome dialer" where
  "dial_deadline timeout d =
    (case read_clock (d_world d) of (now, w) \<Rightarrow> (amqp_time_from_now now timeout, d\<lparr>d_world := w\<rparr>))"

definition amqp_open_socket_noblock ::
    "resolver \<Rightarrow> amqp_bytes \<Rightarrow> int \<Rightarrow> timeval option \<Rightarrow> int outcome dialer" where
  "amqp_open_socket_noblock getaddrinfo hostname portnumber timeout d =
    (case dial_deadline timeout d of
       (Inl (Status s), d1) \<Rightarrow> (Inr (status_code s), d1)
     | (Inl e, d1) \<Rightarrow> (Inl e, d1)
     | (Inr deadline, d1) \<Rightarrow> amqp_open_socket_inner getaddrinfo hostname portnumber deadline d1)"

section \<open>amqp\_socket.c, amqp\_tcp\_socket.c: opening the socket of a connection\<close>

definition amqp_socket_open_noblock ::
    "resolver \<Rightarrow> tcp_socket \<Rightarrow> amqp_bytes \<Rightarrow> int \<Rightarrow> timeval option \<Rightarrow> (int \<times> tcp_socket) outcome dialer" where
  "amqp_socket_open_noblock getaddrinfo self host port timeout d =
    (if sockfd self \<noteq> -1 then (Inr (amqp_tcp_socket_open self (sockfd self)), d)
     else
       (case amqp_open_socket_noblock getaddrinfo host port timeout d of
          (Inl e, d1) \<Rightarrow> (Inl e, d1)
        | (Inr opened, d1) \<Rightarrow> (Inr (amqp_tcp_socket_open self opened), d1)))"

definition amqp_socket_open :: "resolver \<Rightarrow> tcp_socket \<Rightarrow> amqp_bytes \<Rightarrow> int \<Rightarrow> (int \<times> tcp_socket) outcome dialer" where
  "amqp_socket_open getaddrinfo self host port = amqp_socket_open_noblock getaddrinfo self host port None"

section \<open>The table of descriptors\<close>

lemma lowest_free: "lowest_free ds \<notin> fd ` set ds \<and> 0 \<le> lowest_free ds"
proof -
  let ?ns = "map int [0..<Suc (length ds)]"
  have "card (set ?ns) = Suc (length ds)" by (simp add: card_image inj_on_def del: upt_Suc)
  moreover have "card (fd ` set ds) \<le> length ds"
    by (rule order_trans [OF card_image_le card_length]) simp
  ultimately have "\<not> set ?ns \<subseteq> fd ` set ds"
    by (metis List.finite_set Suc_n_not_le_n card_mono finite_imageI order_trans)
  then have "filter (\<lambda>n. n \<notin> fd ` set ds) ?ns \<noteq> []" by (auto simp: filter_empty_conv simp del: upt_Suc)
  from hd_in_set [OF this] show ?thesis by (auto simp: lowest_free_def simp del: upt_Suc)
qed

text \<open>The table is the old one \<open>ds\<close> and a descriptor \<open>s\<close> in front of it.\<close>

definition opened :: "descriptor list \<Rightarrow> int \<Rightarrow> (descriptor \<Rightarrow> bool) \<Rightarrow> dial \<Rightarrow> bool" where
  "opened ds s P d \<longleftrightarrow> (\<exists>x. d_open d = x # ds \<and> fd x = s \<and> s \<notin> fd ` set ds \<and> 0 \<le> s \<and> P x)"

definition close_on_exec :: "descriptor \<Rightarrow> bool" where
  "close_on_exec x \<longleftrightarrow> fd_flags x AND FD_CLOEXEC \<noteq> 0"

definition nonblocking :: "descriptor \<Rightarrow> bool" where
  "nonblocking x \<longleftrightarrow> fl_flags x AND O_NONBLOCK \<noteq> 0"

lemma or_and_self: "(x OR y) AND y = (y :: u32)"
  by (rule bit_word_eqI) (auto simp: bit_simps)

lemma flags_nonzero [simp]: "FD_CLOEXEC \<noteq> 0" "O_NONBLOCK \<noteq> 0"
  by (simp_all add: FD_CLOEXEC_def O_NONBLOCK_def)

lemma flags_set [simp]:
  "(x OR FD_CLOEXEC) AND FD_CLOEXEC \<noteq> 0" "(x OR O_NONBLOCK) AND O_NONBLOCK \<noteq> 0"
  by (simp_all add: or_and_self)

lemma opened_mono: "opened ds s P d \<Longrightarrow> (\<And>x. P x \<Longrightarrow> Q x) \<Longrightarrow> opened ds s Q d"
  by (auto simp: opened_def)

lemma opened_nonneg: "opened ds s P d \<Longrightarrow> 0 \<le> s \<and> s \<noteq> -1"
  by (auto simp: opened_def)

lemma opened_cong: "d_open d' = d_open d \<Longrightarrow> opened ds s P d' = opened ds s P d"
  by (simp add: opened_def)

lemma sys_call_open [simp]: "d_open (snd (sys_call d)) = d_open d"
  by (simp add: sys_call_def)

lemma opened_lookup: "opened ds s P d \<Longrightarrow> \<exists>x. lookup_fd s d = Some x \<and> P x"
  by (auto simp: opened_def lookup_fd_def)

lemma opened_update:
  assumes "opened ds s P d" "\<And>x. P x \<Longrightarrow> Q (f x)" "\<And>x. fd (f x) = fd x"
  shows "opened ds s Q (update_fd s f d)"
proof -
  from assms(1) obtain x where x: "d_open d = x # ds" "fd x = s" "s \<notin> fd ` set ds" "0 \<le> s" "P x"
    by (auto simp: opened_def)
  have "map (\<lambda>y. if fd y = s then f y else y) ds = ds"
    by (rule map_idI) (use x(3) in auto)
  with x assms(2,3) show ?thesis by (auto simp: opened_def update_fd_def)
qed

lemma opened_close:
  assumes "opened ds s P d"
  shows "d_open (snd (sys_close s d)) = ds"
proof -
  from assms obtain x where x: "d_open d = x # ds" "fd x = s" "s \<notin> fd ` set ds" by (auto simp: opened_def)
  have "filter (\<lambda>y. fd y \<noteq> s) ds = ds" by (rule filter_True) (use x(3) in auto)
  with x show ?thesis by (auto simp: sys_close_def sys_call_def)
qed

lemma os_socket_opened:
  assumes "amqp_os_socket_socket f t p d = (s, d')"
  shows "if s = -1 then d_open d' = d_open d else opened (d_open d) s (\<lambda>x. close_on_exec x \<and> peer x = None) d'"
proof (cases "d_fails d (d_calls d)")
  case (Some e)
  with assms show ?thesis by (auto simp: amqp_os_socket_socket_def sys_socket_def sys_call_def)
next
  case None
  let ?s = "lowest_free (d_open d)"
  obtain d1 where d1: "sys_socket f t p d = (?s, d1)" "opened (d_open d) ?s (\<lambda>x. peer x = None) d1"
    using None lowest_free [of "d_open d"] by (auto simp: sys_socket_def sys_call_def opened_def Let_def)
  note pos = opened_nonneg [OF d1(2)]
  obtain fl d2 where g: "F_GETFD ?s d1 = (fl, d2)" by fastforce
  then have d2: "opened (d_open d) ?s (\<lambda>x. peer x = None) d2"
    using opened_cong [of d2 d1] d1(2) by (auto simp: F_GETFD_def sys_call_def split: option.splits)
  show ?thesis
  proof (cases fl)
    case None
    with assms d1 g pos opened_close [OF d2] show ?thesis by (auto simp: amqp_os_socket_socket_def)
  next
    case (Some flags)
    obtain res d3 where h: "F_SETFD ?s (flags OR FD_CLOEXEC) d2 = (res, d3)" by fastforce
    have "opened (d_open d) ?s (\<lambda>x. peer x = None \<and> (res \<noteq> -1 \<longrightarrow> close_on_exec x)) d3"
    proof (cases "d_fails d2 (d_calls d2)")
      case None
      with h have "d3 = update_fd ?s (\<lambda>x. x\<lparr>fd_flags := flags OR FD_CLOEXEC\<rparr>) (d2\<lparr>d_calls := Suc (d_calls d2)\<rparr>)"
        by (simp add: F_SETFD_def sys_call_def)
      moreover have "opened (d_open d) ?s (\<lambda>x. peer x = None) (d2\<lparr>d_calls := Suc (d_calls d2)\<rparr>)"
        using d2 by (simp add: opened_def)
      ultimately show ?thesis by (auto intro!: opened_update [of _ _ "\<lambda>x. peer x = None"] simp: close_on_exec_def)
    next
      case (Some e)
      with h d2 show ?thesis by (auto simp: F_SETFD_def sys_call_def opened_def)
    qed
    then show ?thesis
      using assms d1 g Some h pos opened_close [of "d_open d" ?s _ d3]
      by (auto simp: amqp_os_socket_socket_def elim: opened_mono split: if_splits)
  qed
qed

lemma setsockopt_open: "amqp_os_socket_setsockopt s d = (r, d') \<Longrightarrow> d_open d' = d_open d"
  by (auto simp: amqp_os_socket_setsockopt_def sys_call_def)

lemma setsockblock_opened:
  assumes "opened ds s P d" "amqp_os_socket_setsockblock s False d = (r, d')"
    and "\<And>x flags. P x \<Longrightarrow> P (x\<lparr>fl_flags := flags\<rparr>)"
  shows "opened ds s (\<lambda>x. P x \<and> (r = status_code AMQP_STATUS_OK \<longrightarrow> nonblocking x)) d'"
proof -
  obtain fl d1 where g: "F_GETFL s d = (fl, d1)" by fastforce
  then have d1: "opened ds s P d1"
    using opened_cong [of d1 d] assms(1) by (auto simp: F_GETFL_def sys_call_def split: option.splits)
  show ?thesis
  proof (cases fl)
    case None
    with assms(2) g d1 show ?thesis by (auto simp: amqp_os_socket_setsockblock_def status_values opened_def)
  next
    case (Some arg)
    show ?thesis
    proof (cases "d_fails d1 (d_calls d1)")
      case None
      with assms(2) g Some
      have "d' = update_fd s (\<lambda>x. x\<lparr>fl_flags := arg OR O_NONBLOCK\<rparr>) (d1\<lparr>d_calls := Suc (d_calls d1)\<rparr>)"
        by (simp add: amqp_os_socket_setsockblock_def F_SETFL_def sys_call_def)
      moreover have "opened ds s P (d1\<lparr>d_calls := Suc (d_calls d1)\<rparr>)" using d1 by (simp add: opened_def)
      ultimately show ?thesis using assms(3) by (auto intro!: opened_update [of _ _ P] simp: nonblocking_def)
    next
      case (Some e)
      with assms(2) g \<open>fl = Some arg\<close> d1 show ?thesis
        by (auto simp: amqp_os_socket_setsockblock_def F_SETFL_def sys_call_def status_values opened_def)
    qed
  qed
qed

section \<open>The loop over the addresses\<close>

lemma poll_loop_sign:
  "poll_loop deadline clock k rs = (r, k', rs') \<Longrightarrow> case r of Inl e \<Rightarrow> e = Blocked | Inr v \<Rightarrow> v \<le> 0"
proof (induction rs arbitrary: k)
  case (Cons x rs)
  then show ?case
    by (fastforce simp: Let_def status_values split: if_splits sys_poll.splits errno.splits)
qed (auto simp: Let_def split: if_splits)

lemma dial_poll_result:
  assumes "dial_poll deadline d = (r, d')"
  shows "d_open d' = d_open d" "case r of Inl e \<Rightarrow> e = Blocked | Inr v \<Rightarrow> v \<le> 0"
  using assms poll_loop_sign [of deadline "w_clock (d_world d)" "w_ticks (d_world d)" "w_poll (d_world d)"]
  by (auto simp: dial_poll_def amqp_poll_def split: prod.splits)

definition ready_socket :: "addrinfo set \<Rightarrow> descriptor \<Rightarrow> bool" where
  "ready_socket addrs x \<longleftrightarrow> close_on_exec x \<and> nonblocking x \<and> peer x \<in> Some ` ai_addr ` addrs"

definition next_value :: "dial_next \<Rightarrow> int" where
  "next_value n = (case n of Dial_continue v \<Rightarrow> v | Dial_break v \<Rightarrow> v)"

lemma connection_result_open:
  "connection_result d = (r, d') \<Longrightarrow> d_open d' = d_open d \<and> r \<le> 0"
  by (auto simp: connection_result_def sys_call_def status_values)

lemma sys_connect_opened:
  assumes "opened ds s (\<lambda>x. close_on_exec x \<and> nonblocking x) d" "sys_connect s (ai_addr addr) d = (e, d')"
  shows "opened ds s (\<lambda>x. e \<noteq> Some E_dial \<longrightarrow> ready_socket {addr} x) d'"
proof (cases "e = Some E_dial")
  case True
  with assms show ?thesis by (auto simp: sys_connect_def sys_call_def opened_def)
next
  case False
  with assms(2) have d': "d' = update_fd s (\<lambda>x. x\<lparr>peer := Some (ai_addr addr)\<rparr>) (d\<lparr>d_calls := Suc (d_calls d)\<rparr>)"
    by (auto simp: sys_connect_def sys_call_def split: if_splits)
  have "opened ds s (\<lambda>x. close_on_exec x \<and> nonblocking x) (d\<lparr>d_calls := Suc (d_calls d)\<rparr>)"
    using assms(1) by (simp add: opened_def)
  then show ?thesis unfolding d'
    by (rule opened_update) (auto simp: ready_socket_def close_on_exec_def nonblocking_def)
qed

text \<open>What one address leaves: its socket is open; when \<open>last_error\<close> is fine, the socket is ready.\<close>

definition dialled :: "descriptor list \<Rightarrow> int \<Rightarrow> addrinfo \<Rightarrow> dial_next outcome \<times> dial \<Rightarrow> bool" where
  "dialled ds s addr = (\<lambda>(r, d). case r of
     Inl e \<Rightarrow> e = Blocked
   | Inr n \<Rightarrow> next_value n \<le> 0 \<and> opened ds s (\<lambda>x. next_value n = status_code AMQP_STATUS_OK \<longrightarrow> ready_socket {addr} x) d
        \<and> (\<forall>v. n = Dial_continue v \<longrightarrow> v < 0))"

lemma dialledI:
  "opened ds s P d \<Longrightarrow> v < 0 \<Longrightarrow> dialled ds s addr (Inr (Dial_continue v), d)"
  "opened ds s P d \<Longrightarrow> v \<le> 0 \<Longrightarrow> (\<And>x. P x \<Longrightarrow> v = 0 \<Longrightarrow> ready_socket {addr} x) \<Longrightarrow> dialled ds s addr (Inr (Dial_break v), d)"
  "dialled ds s addr (Inl Blocked, d)"
  by (auto simp: dialled_def next_value_def elim!: opened_mono)

lemma dial_connect_dialled:
  assumes "opened ds s (\<lambda>x. close_on_exec x \<and> nonblocking x) d"
  shows "dialled ds s addr (dial_connect deadline s addr d)"
proof -
  obtain e d1 where c: "sys_connect s (ai_addr addr) d = (e, d1)" by fastforce
  note op = sys_connect_opened [OF assms c]
  show ?thesis
  proof (cases "e = Some EINPROGRESS")
    case True
    obtain r d2 where p: "dial_poll deadline d1 = (r, d2)" by fastforce
    note f = dial_poll_result [OF p]
    show ?thesis
    proof (cases r)
      case (Inl x)
      with True c p f show ?thesis by (simp add: dial_connect_def dialledI)
    next
      case (Inr res)
      obtain v d3 where q: "(if res = status_code AMQP_STATUS_OK then connection_result d2 else (res, d2)) = (v, d3)" by fastforce
      with f Inr connection_result_open [of d2] have d3: "d_open d3 = d_open d1" "v \<le> 0" by (auto split: if_splits)
      from op True have "opened ds s (ready_socket {addr}) d1" by simp
      then have "opened ds s (ready_socket {addr}) d3" unfolding opened_cong [OF d3(1)] .
      with True c p Inr q d3 show ?thesis
        by (auto simp: dial_connect_def status_values intro!: dialledI)
    qed
  next
    case False
    then consider "e = None" | "e = Some E_dial" by (cases e; cases "the e") auto
    then show ?thesis
    proof cases
      case 1
      with op have "opened ds s (ready_socket {addr}) d1" by simp
      with 1 c show ?thesis by (auto simp: dial_connect_def status_values intro: dialledI)
    next
      case 2
      with op c show ?thesis by (auto simp: dial_connect_def status_values intro: dialledI)
    qed
  qed
qed

lemma dial_address_dialled:
  assumes "opened ds s (\<lambda>x. close_on_exec x \<and> peer x = None) d"
  shows "dialled ds s addr (dial_address deadline s addr d)"
proof -
  obtain r1 d1 where o: "amqp_os_socket_setsockopt s d = (r1, d1)" by fastforce
  have d1: "opened ds s close_on_exec d1"
    using opened_mono [OF assms] opened_cong [OF setsockopt_open [OF o]] by blast
  obtain r2 d2 where b: "amqp_os_socket_setsockblock s False d1 = (r2, d2)" by fastforce
  note d2 = setsockblock_opened [OF d1 b]
  have cl: "close_on_exec (x\<lparr>fl_flags := flags\<rparr>) = close_on_exec x" for x flags by (simp add: close_on_exec_def)
  show ?thesis
  proof (cases "r1 = 0 \<and> r2 = status_code AMQP_STATUS_OK")
    case True
    with d2 cl have "opened ds s (\<lambda>x. close_on_exec x \<and> nonblocking x) d2" by (auto elim: opened_mono)
    with True o b show ?thesis by (simp add: dial_address_def dial_connect_dialled)
  next
    case False
    with o b d1 d2 cl show ?thesis
      by (auto simp: dial_address_def status_values intro: dialledI)
  qed
qed

definition left_open :: "descriptor list \<Rightarrow> int \<Rightarrow> (descriptor \<Rightarrow> bool) \<Rightarrow> dial \<Rightarrow> bool" where
  "left_open ds s P d \<longleftrightarrow> (if s = -1 then d_open d = ds else opened ds s P d)"

lemma dial_loop_result:
  assumes "left_open ds s (\<lambda>_. True) d" "dial_loop deadline addrs s last_error d = (r, d')"
    "last_error \<le> 0" "last_error = 0 \<Longrightarrow> s = -1"
  shows "case r of Inl e \<Rightarrow> e = Blocked
    | Inr (s', v) \<Rightarrow> v \<le> 0 \<and> left_open ds s' (\<lambda>x. v = 0 \<longrightarrow> ready_socket (set addrs) x) d'"
  using assms
proof (induction addrs arbitrary: s last_error d)
  case Nil
  then show ?case by (auto simp: left_open_def elim!: opened_mono)
next
  case (Cons addr rest)
  let ?d = "if s \<noteq> -1 then snd (amqp_os_socket_close s d) else d"
  have ds: "d_open ?d = ds" using Cons.prems(1) opened_close by (auto simp: left_open_def amqp_os_socket_close_def)
  obtain s' d1 where o: "amqp_os_socket_socket (ai_family addr) (ai_socktype addr) (ai_protocol addr) ?d = (s', d1)"
    by fastforce
  note op = os_socket_opened [OF o, unfolded ds]
  have mono: "left_open ds v P d \<Longrightarrow> (\<And>x. P x \<Longrightarrow> Q x) \<Longrightarrow> left_open ds v Q d" for v P Q d
    using opened_mono [of ds v P d Q] by (auto simp: left_open_def)
  have up: "case r of Inl e \<Rightarrow> e = Blocked
      | Inr (s', v) \<Rightarrow> v \<le> 0 \<and> left_open ds s' (\<lambda>x. v = 0 \<longrightarrow> ready_socket (set (addr # rest)) x) d'"
    if "case r of Inl e \<Rightarrow> e = Blocked
      | Inr (s', v) \<Rightarrow> v \<le> 0 \<and> left_open ds s' (\<lambda>x. v = 0 \<longrightarrow> ready_socket (set rest) x) d'" for r
    using that by (auto split: sum.splits elim!: mono simp: ready_socket_def)
  show ?case
  proof (cases "s' = -1")
    case True
    with Cons.prems(2) o have l: "dial_loop deadline rest (-1) (status_code AMQP_STATUS_SOCKET_ERROR) d1 = (r, d')" by simp
    have "left_open ds (-1) (\<lambda>_. True) d1" using op True by (simp add: left_open_def)
    from up [OF Cons.IH [OF this l]] show ?thesis by (simp add: status_values)
  next
    case False
    with op have op': "opened ds s' (\<lambda>x. close_on_exec x \<and> peer x = None) d1" by simp
    obtain n d2 where a: "dial_address deadline s' addr d1 = (n, d2)" by fastforce
    note dl = dial_address_dialled [OF op', of addr deadline, unfolded a]
    show ?thesis
    proof (cases n)
      case (Inl e)
      with Cons.prems(2) o False a dl show ?thesis by (auto simp: dialled_def)
    next
      case (Inr m)
      show ?thesis
      proof (cases m)
        case (Dial_break v)
        with Cons.prems(2) o False a dl Inr show ?thesis
          by (auto simp: dialled_def next_value_def left_open_def status_values ready_socket_def elim!: opened_mono)
      next
        case (Dial_continue v)
        with Cons.prems(2) o False a Inr have l: "dial_loop deadline rest s' v d2 = (r, d')" by simp
        from dl Inr Dial_continue have v: "v < 0" "left_open ds s' (\<lambda>_. True) d2"
          using opened_mono [of ds s' _ d2 "\<lambda>_. True"] False by (auto simp: dialled_def left_open_def)
        from up [OF Cons.IH [OF v(2) l]] v(1) show ?thesis by simp
      qed
    qed
  qed
qed

text \<open>Dialling either adds one ready socket to the table or leaves the table as it was.\<close>

definition dial_result :: "resolver \<Rightarrow> amqp_bytes \<Rightarrow> int \<Rightarrow> descriptor list \<Rightarrow> int outcome \<times> dial \<Rightarrow> bool" where
  "dial_result getaddrinfo host port ds = (\<lambda>(r, d). case r of
     Inl e \<Rightarrow> e = Blocked
   | Inr res \<Rightarrow>
       if res < 0 then d_open d = ds
       else \<exists>x addrs. d_open d = x # ds \<and> fd x = res \<and> res \<notin> fd ` set ds
              \<and> getaddrinfo host (sprintf_d port) dial_hint = Some addrs \<and> peer x \<in> Some ` ai_addr ` set addrs
              \<and> fd_flags x AND FD_CLOEXEC \<noteq> 0 \<and> fl_flags x AND O_NONBLOCK \<noteq> 0)"

lemma open_socket_inner_result:
  "dial_result getaddrinfo host port (d_open d) (amqp_open_socket_inner getaddrinfo host port deadline d)"
proof (cases "getaddrinfo host (sprintf_d port) dial_hint")
  case None
  then show ?thesis
    by (simp add: amqp_open_socket_inner_def amqp_os_socket_init_def dial_result_def status_values)
next
  case (Some addrs)
  obtain r d1 where l: "dial_loop deadline addrs (-1) 0 d = (r, d1)" by fastforce
  have "left_open (d_open d) (-1) (\<lambda>_. True) d" by (simp add: left_open_def)
  note f = dial_loop_result [OF this l]
  show ?thesis
  proof (cases r)
    case (Inl e)
    with Some l f show ?thesis by (simp add: amqp_open_socket_inner_def amqp_os_socket_init_def dial_result_def)
  next
    case (Inr p)
    obtain s v where p: "p = (s, v)" by fastforce
    with Inr f have v: "v \<le> 0" "left_open (d_open d) s (\<lambda>x. v = 0 \<longrightarrow> ready_socket (set addrs) x) d1" by auto
    show ?thesis
    proof (cases "v = 0")
      case False
      with v have "v < 0" "s \<noteq> -1 \<Longrightarrow> d_open (snd (sys_close s d1)) = d_open d" "s = -1 \<Longrightarrow> d_open d1 = d_open d"
        using opened_close by (auto simp: left_open_def)
      with Some l Inr p False show ?thesis
        by (auto simp: amqp_open_socket_inner_def amqp_os_socket_init_def dial_result_def amqp_os_socket_close_def)
    next
      case True
      with v have "s = -1 \<and> d_open d1 = d_open d \<or> 0 \<le> s \<and> opened (d_open d) s (ready_socket (set addrs)) d1"
        by (auto simp: left_open_def opened_def split: if_splits)
      with True Some l Inr p show ?thesis
        by (auto simp: amqp_open_socket_inner_def amqp_os_socket_init_def dial_result_def left_open_def opened_def
            ready_socket_def close_on_exec_def nonblocking_def)
    qed
  qed
qed

text \<open>
  C13. Opening a socket leaks no descriptor: whatever the system calls answer, \<^verbatim>\<open>amqp_open_socket_inner\<close> either is still
  waiting in \<^verbatim>\<open>poll\<close>, or returns a negative status and leaves the table of open descriptors as it was, or
  returns a new descriptor, which is the only one added, is connected (or connecting) to one of the
  addresses \<^verbatim>\<open>getaddrinfo\<close> found, and is set to close on exec and not to block.
\<close>

theorem open_socket_leaks_nothing:
  "case amqp_open_socket_inner getaddrinfo host port deadline d of
     (Inl e, d') \<Rightarrow> e = Blocked
   | (Inr res, d') \<Rightarrow>
       if res < 0 then d_open d' = d_open d
       else \<exists>x addrs. d_open d' = x # d_open d \<and> fd x = res \<and> res \<notin> fd ` set (d_open d)
              \<and> getaddrinfo host (sprintf_d port) dial_hint = Some addrs \<and> peer x \<in> Some ` ai_addr ` set addrs
              \<and> fd_flags x AND FD_CLOEXEC \<noteq> 0 \<and> fl_flags x AND O_NONBLOCK \<noteq> 0"
  using open_socket_inner_result [of getaddrinfo host port d deadline]
  by (auto simp: dial_result_def split: prod.split sum.split)

section \<open>What the first address decides\<close>

text \<open>A system on which nothing is open and the calls fail as \<open>fails\<close> says.\<close>

definition quiet_system :: "(nat \<Rightarrow> dial_errno option) \<Rightarrow> sys_poll list \<Rightarrow> dial" where
  "quiet_system fails polls =
    \<lparr>d_fails = fails, d_so_error = \<lambda>_. 0, d_calls = 0, d_open = [],
     d_world = \<lparr>w_recv = [], w_send = [], w_poll = polls, w_close = [], w_clock = \<lambda>_. 1, w_ticks = 0, w_sent = []\<rparr>\<rparr>"

definition two_addresses :: resolver where
  "two_addresses host service hint =
    Some [\<lparr>ai_family = 10, ai_socktype = 1, ai_protocol = 6, ai_addr = [6]\<rparr>,
          \<lparr>ai_family = 2, ai_socktype = 1, ai_protocol = 6, ai_addr = [4]\<rparr>]"

lemmas dial_eval = amqp_open_socket_inner_def amqp_os_socket_init_def two_addresses_def quiet_system_def
  amqp_os_socket_socket_def sys_socket_def sys_call_def F_GETFD_def F_SETFD_def F_GETFL_def F_SETFL_def
  lookup_fd_def update_fd_def lowest_free_def dial_address_def amqp_os_socket_setsockopt_def
  amqp_os_socket_setsockblock_def dial_connect_def sys_connect_def dial_poll_def amqp_poll_def
  connection_result_def amqp_os_socket_close_def sys_close_def status_values

text \<open>
  A host with two addresses. When the first connection is refused after a while (the error is reported by
  \<^verbatim>\<open>getsockopt\<close>, the 8th call), the second address is tried and succeeds. When it is refused at once (by
  \<^verbatim>\<open>connect\<close>, the 7th call), the loop ends, and the second address is never tried.
\<close>

lemma refused_later:
  "fst (amqp_open_socket_inner two_addresses [] 5672 amqp_time_infinite
     (quiet_system (\<lambda>k. if k = 6 then Some EINPROGRESS else if k = 7 then Some E_dial else None) [Poll_ready])) = Inr 0"
  by (simp add: dial_eval amqp_time_infinite_def amqp_time_ms_until_def)

lemma refused_at_once:
  "fst (amqp_open_socket_inner two_addresses [] 5672 amqp_time_infinite
     (quiet_system (\<lambda>k. if k = 6 then Some E_dial else None) [])) = Inr (status_code AMQP_STATUS_SOCKET_ERROR)"
  by (simp add: dial_eval)

end
