(* ===== verification/Amqp_Hostcheck.thy ===== *)
theory Amqp_Hostcheck
  imports Prelude
begin

text \<open>
  The name check of the TLS transport (\<^verbatim>\<open>amqp_hostcheck.c\<close>): does a host name match the name in a
  certificate, which may have one wildcard in its first label?

  A C string is the list of its bytes before the terminating zero; reading at the end of a list is
  reading that zero. \<^verbatim>\<open>strchr\<close> returns the index of the byte. The theorem at the end says exactly
  which names match which patterns.
\<close>

section \<open>Case-insensitive comparison\<close>

definition amqp_raw_toupper :: "u8 \<Rightarrow> u8" where
  "amqp_raw_toupper c = (if 0x61 \<le> c \<and> c \<le> 0x7A then c - 0x20 else c)"

fun amqp_raw_equal :: "amqp_bytes \<Rightarrow> amqp_bytes \<Rightarrow> bool" where
  "amqp_raw_equal (x # xs) (y # ys) \<longleftrightarrow>
     (if amqp_raw_toupper x \<noteq> amqp_raw_toupper y then False else amqp_raw_equal xs ys)"
| "amqp_raw_equal [] [] \<longleftrightarrow> True"
| "amqp_raw_equal [] (y # ys) \<longleftrightarrow> False"
| "amqp_raw_equal (x # xs) [] \<longleftrightarrow> False"

fun amqp_raw_nequal :: "amqp_bytes \<Rightarrow> amqp_bytes \<Rightarrow> nat \<Rightarrow> bool" where
  "amqp_raw_nequal _ _ 0 \<longleftrightarrow> True"
| "amqp_raw_nequal (x # xs) (y # ys) (Suc n) \<longleftrightarrow>
     (if amqp_raw_toupper x \<noteq> amqp_raw_toupper y then False else amqp_raw_nequal xs ys n)"
| "amqp_raw_nequal [] [] (Suc n) \<longleftrightarrow> True"
| "amqp_raw_nequal [] (y # ys) (Suc n) \<longleftrightarrow> False"
| "amqp_raw_nequal (x # xs) [] (Suc n) \<longleftrightarrow> False"

fun strchr :: "amqp_bytes \<Rightarrow> u8 \<Rightarrow> nat option" where
  "strchr [] c = None"
| "strchr (x # xs) c = (if x = c then Some 0 else map_option Suc (strchr xs c))"

section \<open>Matching\<close>

datatype amqp_hostcheck_result = AMQP_HCR_NO_MATCH | AMQP_HCR_MATCH

abbreviation DOT :: u8 where "DOT \<equiv> 0x2E"
abbreviation STAR :: u8 where "STAR \<equiv> 0x2A"

definition hcr :: "bool \<Rightarrow> amqp_hostcheck_result" where
  "hcr b = (if b then AMQP_HCR_MATCH else AMQP_HCR_NO_MATCH)"

definition amqp_hostmatch :: "amqp_bytes \<Rightarrow> amqp_bytes \<Rightarrow> amqp_hostcheck_result" where
  "amqp_hostmatch hostname pattern =
    (case strchr pattern STAR of
       None \<Rightarrow> hcr (amqp_raw_equal pattern hostname)
     | Some wildcard \<Rightarrow>
         (case strchr pattern DOT of
            None \<Rightarrow> hcr (amqp_raw_equal pattern hostname)
          | Some label_end \<Rightarrow>
              if strchr (drop (label_end + 1) pattern) DOT = None \<or> label_end < wildcard
                 \<or> amqp_raw_nequal pattern [0x78, 0x6E, 0x2D, 0x2D] 4
              then hcr (amqp_raw_equal pattern hostname)
              else
                (case strchr hostname DOT of
                   None \<Rightarrow> AMQP_HCR_NO_MATCH
                 | Some hostname_label_end \<Rightarrow>
                     if \<not> amqp_raw_equal (drop label_end pattern) (drop hostname_label_end hostname)
                     then AMQP_HCR_NO_MATCH
                     else if hostname_label_end < label_end then AMQP_HCR_NO_MATCH
                     else
                       (let suffixlen = label_end - (wildcard + 1)
                        in hcr (amqp_raw_nequal pattern hostname wildcard
                             \<and> amqp_raw_nequal (drop (wildcard + 1) pattern)
                                 (drop (hostname_label_end - suffixlen) hostname) suffixlen)))))"

definition amqp_hostcheck :: "amqp_bytes option \<Rightarrow> amqp_bytes option \<Rightarrow> amqp_hostcheck_result" where
  "amqp_hostcheck match_pattern hostname =
    (case (match_pattern, hostname) of
       (Some pattern, Some host) \<Rightarrow>
         if pattern = [] \<or> host = [] then AMQP_HCR_NO_MATCH
         else if amqp_raw_equal host pattern then AMQP_HCR_MATCH
         else amqp_hostmatch host pattern
     | _ \<Rightarrow> AMQP_HCR_NO_MATCH)"

section \<open>Lemmas\<close>

text \<open>Equality up to the case of the letters.\<close>

abbreviation same_name :: "amqp_bytes \<Rightarrow> amqp_bytes \<Rightarrow> bool" where
  "same_name xs ys \<equiv> map amqp_raw_toupper xs = map amqp_raw_toupper ys"

lemma raw_equal_iff [simp]: "amqp_raw_equal xs ys \<longleftrightarrow> same_name xs ys"
  by (induction xs ys rule: amqp_raw_equal.induct) auto

lemma raw_nequal_iff [simp]: "amqp_raw_nequal xs ys n \<longleftrightarrow> same_name (take n xs) (take n ys)"
  by (induction xs ys n rule: amqp_raw_nequal.induct) auto

lemma strchr_None: "strchr xs c = None \<longleftrightarrow> c \<notin> set xs"
  by (induction xs) auto

lemma strchr_mem: "strchr xs c = Some i \<Longrightarrow> c \<in> set xs"
  by (metis option.distinct(1) strchr_None)

lemma strchr_append [simp]:
  "c \<notin> set ys \<Longrightarrow> strchr (ys @ zs) c = map_option (\<lambda>i. length ys + i) (strchr zs c)"
  by (cases "strchr zs c"; induction ys) auto

lemma first_label: "c \<in> set xs \<Longrightarrow> \<exists>ys zs. xs = ys @ c # zs \<and> c \<notin> set ys \<and> strchr xs c = Some (length ys)"
  using split_list_first [of c xs] by force

section \<open>The names that match\<close>

text \<open>
  RFC 6125, section 6.4.3, as this code has it: one wildcard that stands for at least one byte of the
  first label, at least two labels after it, and no internationalised label.
\<close>

definition wildcard_match :: "amqp_bytes \<Rightarrow> amqp_bytes \<Rightarrow> bool" where
  "wildcard_match pattern host \<longleftrightarrow>
    (\<exists>pre suf rest hpre mid hsuf hrest.
       pattern = pre @ STAR # suf @ DOT # rest \<and> STAR \<notin> set pre \<and> DOT \<notin> set pre \<and> DOT \<notin> set suf \<and> DOT \<in> set rest
       \<and> \<not> same_name (take 4 pattern) [0x78, 0x6E, 0x2D, 0x2D]
       \<and> host = hpre @ mid @ hsuf @ DOT # hrest \<and> DOT \<notin> set hpre \<and> DOT \<notin> set mid \<and> DOT \<notin> set hsuf \<and> mid \<noteq> []
       \<and> same_name hpre pre \<and> same_name hsuf suf \<and> same_name hrest rest)"

lemma hostmatch_wildcard:
  assumes "wildcard_match pattern host"
  shows "amqp_hostmatch host pattern = AMQP_HCR_MATCH"
proof -
  from assms obtain pre suf rest hpre mid hsuf hrest
    where p: "pattern = pre @ STAR # suf @ DOT # rest" "STAR \<notin> set pre" "DOT \<notin> set pre" "DOT \<notin> set suf" "DOT \<in> set rest"
      and x: "\<not> same_name (take 4 pattern) [0x78, 0x6E, 0x2D, 0x2D]"
      and h: "host = hpre @ mid @ hsuf @ DOT # hrest" "DOT \<notin> set hpre" "DOT \<notin> set mid" "DOT \<notin> set hsuf" "mid \<noteq> []"
      and eq: "same_name hpre pre" "same_name hsuf suf" "same_name hrest rest"
    unfolding wildcard_match_def by blast
  have len: "length hpre = length pre" "length hsuf = length suf"
    using eq by (metis length_map)+
  have "strchr pattern STAR = Some (length pre)" "strchr pattern DOT = Some (length pre + (1 + length suf))"
    using p by simp_all
  moreover have "strchr host DOT = Some (length pre + length mid + length suf)"
    using h len by simp
  moreover have "same_name (take (length pre) pattern) (take (length pre) host)"
    using p(1) h(1) eq(1) len by simp
  moreover have "same_name (take (length suf) (drop (length pre + 1) pattern))
      (take (length suf) (drop (length pre + length mid) host))"
    using p(1) h(1) eq(2) len by simp
  moreover have "0 < length mid" using h(5) by simp
  ultimately show ?thesis
    using p(1,5) h(1) x eq(3) len by (simp add: amqp_hostmatch_def hcr_def strchr_None)
qed

lemma wildcard_hostmatch:
  assumes "amqp_hostmatch host pattern = AMQP_HCR_MATCH" "\<not> same_name pattern host"
  shows "wildcard_match pattern host"
proof -
  have star: "STAR \<in> set pattern" and dot: "DOT \<in> set pattern"
    using assms by (auto simp: amqp_hostmatch_def hcr_def dest: strchr_mem split: option.splits if_splits)
  obtain pre q where pre: "pattern = pre @ STAR # q" "STAR \<notin> set pre" "strchr pattern STAR = Some (length pre)"
    using first_label [OF star] by blast
  obtain lab rest where lab: "pattern = lab @ DOT # rest" "DOT \<notin> set lab" "strchr pattern DOT = Some (length lab)"
    using first_label [OF dot] by blast
  from assms pre(3) lab(3) have cond: "DOT \<in> set rest" "length pre \<le> length lab"
      "\<not> same_name (take 4 pattern) [0x78, 0x6E, 0x2D, 0x2D]"
    using lab(1) by (auto simp: amqp_hostmatch_def hcr_def strchr_None split: if_splits)
  with assms pre(3) lab(3) have "DOT \<in> set host"
    using lab(1) by (auto simp: amqp_hostmatch_def hcr_def strchr_None dest: strchr_mem split: option.splits if_splits)
  then obtain hl hrest where hl: "host = hl @ DOT # hrest" "DOT \<notin> set hl" "strchr host DOT = Some (length hl)"
    using first_label by blast
  have "length pre \<noteq> length lab"
  proof
    assume "length pre = length lab"
    moreover have "pre @ STAR # q = lab @ DOT # rest" using pre(1) lab(1) by simp
    ultimately show False by simp
  qed
  then have less: "length pre < length lab" using cond(2) by simp
  then obtain suf where suf: "lab = pre @ STAR # suf"
    using pre(1) lab(1) by (auto simp: append_eq_append_conv2 append_eq_Cons_conv)
  let ?n = "length suf"
  have ns: "length lab - (length pre + 1) = ?n" using suf by simp
  from assms pre(3) lab(3) hl(3) cond have m:
    "same_name (DOT # rest) (DOT # hrest)" "length lab \<le> length hl"
    "same_name (take (length pre) pattern) (take (length pre) host)"
    "same_name (take ?n (drop (length pre + 1) pattern)) (take ?n (drop (length hl - ?n) host))"
    using lab(1) hl(1) ns by (auto simp: amqp_hostmatch_def hcr_def strchr_None Let_def split: if_splits)
  have ab: "length pre \<le> length hl - ?n" "?n \<le> length hl" using m(2) suf by simp_all
  have "take (length pre) (take (length hl - ?n) hl) @ drop (length pre) (take (length hl - ?n) hl) = take (length hl - ?n) hl"
    by (rule append_take_drop_id)
  with ab(1) have parts: "hl = take (length pre) hl @ drop (length pre) (take (length hl - ?n) hl) @ drop (length hl - ?n) hl"
    by (metis append_assoc append_take_drop_id min.absorb1 take_take)
  have "same_name (take (length pre) hl) pre" "same_name (drop (length hl - ?n) hl) suf"
    using m(3,4) pre(1) lab(1) suf hl(1) ab by auto
  moreover have "drop (length pre) (take (length hl - ?n) hl) \<noteq> []" using m(2) suf by simp
  ultimately show ?thesis unfolding wildcard_match_def
  proof (intro exI conjI)
    show "pattern = pre @ STAR # suf @ DOT # rest" using lab(1) suf by simp
    show "host = take (length pre) hl @ drop (length pre) (take (length hl - ?n) hl) @ drop (length hl - ?n) hl @ DOT # hrest"
      using hl(1) parts by (metis append_assoc)
  qed (use pre(2) lab(2) hl(2) suf cond m(1) in \<open>auto dest: in_set_takeD in_set_dropD\<close>)
qed

text \<open>
  C30. A host name matches a name of a certificate exactly if both are there and not empty, and they are
  the same up to the case of the letters or the host matches the wildcard of the first label.
\<close>

theorem hostcheck_iff:
  "amqp_hostcheck (Some pattern) (Some host) = AMQP_HCR_MATCH \<longleftrightarrow>
     pattern \<noteq> [] \<and> host \<noteq> [] \<and> (same_name pattern host \<or> wildcard_match pattern host)"
  using hostmatch_wildcard [of pattern host] wildcard_hostmatch [of host pattern]
  by (auto simp: amqp_hostcheck_def)

end
