(* ===== verification/Amqp_Hostname.thy ===== *)
theory Amqp_Hostname
  imports Amqp_Hostcheck
begin

text \<open>
  Does the certificate of a server name the host the client asked for
  (\<^verbatim>\<open>amqp_openssl_hostname_validation.c\<close>)?

  A certificate is what OpenSSL extracts from it: the names of the extension Subject Alternative Name, if
  the certificate has it, and the bytes of the Common Name, if they can be read. An ASN.1 string is the
  list of its bytes, zeros included; OpenSSL puts a zero behind it, so that as a C string it ends at its
  first zero.
\<close>

section \<open>Certificates\<close>

datatype general_name = GEN_DNS amqp_bytes | GEN_other

text \<open>
  What OpenSSL returns for a certificate. \<open>None\<close> as the alternative names is the \<^verbatim>\<open>NULL\<close> of \<^verbatim>\<open>X509_get_ext_d2i\<close>: the
  extension is not there, or it cannot be parsed or stands there twice, which the code does not tell apart.
\<close>

record x509 =
  subject_alt_name :: "general_name list option"
  common_name :: "amqp_bytes option"

definition c_string :: "amqp_bytes \<Rightarrow> amqp_bytes" where
  "c_string s = takeWhile (\<lambda>c. c \<noteq> 0) s"

section \<open>amqp\_openssl\_hostname\_validation.c\<close>

datatype amqp_hostname_validation_result =
    AMQP_HVR_MATCH_FOUND
  | AMQP_HVR_MATCH_NOT_FOUND
  | AMQP_HVR_NO_SAN_PRESENT
  | AMQP_HVR_MALFORMED_CERTIFICATE
  | AMQP_HVR_ERROR

definition amqp_matches_common_name :: "amqp_bytes \<Rightarrow> x509 \<Rightarrow> amqp_hostname_validation_result" where
  "amqp_matches_common_name hostname server_cert =
    (case common_name server_cert of
       None \<Rightarrow> AMQP_HVR_ERROR
     | Some asn1 \<Rightarrow>
         if length asn1 \<noteq> length (c_string asn1) then AMQP_HVR_MALFORMED_CERTIFICATE
         else if amqp_hostcheck (Some (c_string asn1)) (Some hostname) = AMQP_HCR_MATCH then AMQP_HVR_MATCH_FOUND
         else AMQP_HVR_MATCH_NOT_FOUND)"

text \<open>The loop over the names of the extension.\<close>

fun match_san_names :: "amqp_bytes \<Rightarrow> general_name list \<Rightarrow> amqp_hostname_validation_result" where
  "match_san_names hostname [] = AMQP_HVR_MATCH_NOT_FOUND"
| "match_san_names hostname (GEN_other # rest) = match_san_names hostname rest"
| "match_san_names hostname (GEN_DNS dns_name # rest) =
    (if length dns_name \<noteq> length (c_string dns_name) then AMQP_HVR_MALFORMED_CERTIFICATE
     else if amqp_hostcheck (Some (c_string dns_name)) (Some hostname) = AMQP_HCR_MATCH then AMQP_HVR_MATCH_FOUND
     else match_san_names hostname rest)"

definition amqp_matches_subject_alternative_name :: "amqp_bytes \<Rightarrow> x509 \<Rightarrow> amqp_hostname_validation_result" where
  "amqp_matches_subject_alternative_name hostname server_cert =
    (case subject_alt_name server_cert of
       None \<Rightarrow> AMQP_HVR_NO_SAN_PRESENT
     | Some san_names \<Rightarrow> match_san_names hostname san_names)"

definition amqp_ssl_validate_hostname :: "amqp_bytes option \<Rightarrow> x509 option \<Rightarrow> amqp_hostname_validation_result" where
  "amqp_ssl_validate_hostname hostname server_cert =
    (case (hostname, server_cert) of
       (Some host, Some cert) \<Rightarrow>
         (let result = amqp_matches_subject_alternative_name host cert
          in if result = AMQP_HVR_NO_SAN_PRESENT then amqp_matches_common_name host cert else result)
     | _ \<Rightarrow> AMQP_HVR_ERROR)"

section \<open>Which certificates name a host\<close>

text \<open>A name with a zero in it is malformed: its end is hidden from C code.\<close>

fun well_formed_name :: "general_name \<Rightarrow> bool" where
  "well_formed_name (GEN_DNS n) \<longleftrightarrow> 0 \<notin> set n"
| "well_formed_name GEN_other \<longleftrightarrow> True"

definition names_host :: "amqp_bytes \<Rightarrow> amqp_bytes \<Rightarrow> bool" where
  "names_host n host \<longleftrightarrow> 0 \<notin> set n \<and> amqp_hostcheck (Some n) (Some host) = AMQP_HCR_MATCH"

definition certificate_names :: "x509 \<Rightarrow> amqp_bytes \<Rightarrow> bool" where
  "certificate_names cert host \<longleftrightarrow>
    (case subject_alt_name cert of
       Some names \<Rightarrow> \<exists>before n rest. names = before @ GEN_DNS n # rest \<and> list_all well_formed_name before \<and> names_host n host
     | None \<Rightarrow> \<exists>n. common_name cert = Some n \<and> names_host n host)"

lemma c_string_length: "length s \<noteq> length (c_string s) \<longleftrightarrow> 0 \<in> set s"
proof
  assume "0 \<in> set s"
  then have "length (c_string s) < length s"
    unfolding c_string_def by (metis (mono_tags, lifting) le_neq_implies_less length_takeWhile_le nth_mem nth_length_takeWhile
        takeWhile_eq_all_conv takeWhile_eq_take take_all_iff)
  then show "length s \<noteq> length (c_string s)" by simp
next
  assume "length s \<noteq> length (c_string s)"
  then show "0 \<in> set s" by (metis (mono_tags, lifting) c_string_def takeWhile_eq_all_conv)
qed

lemma c_string_id: "0 \<notin> set s \<Longrightarrow> c_string s = s"
  unfolding c_string_def by (rule takeWhile_eq_all_conv [THEN iffD2]) auto

lemma match_san_names_iff:
  "match_san_names host names = AMQP_HVR_MATCH_FOUND \<longleftrightarrow>
   (\<exists>before n rest. names = before @ GEN_DNS n # rest \<and> list_all well_formed_name before \<and> names_host n host)"
  (is "_ \<longleftrightarrow> ?found host names")
proof (induction host names rule: match_san_names.induct)
  case (2 host rest)
  have "?found host (GEN_other # rest) \<longleftrightarrow> ?found host rest" (is "?l \<longleftrightarrow> ?r")
  proof
    assume ?l
    then obtain before n tail where "GEN_other # rest = before @ GEN_DNS n # tail" "list_all well_formed_name before" "names_host n host"
      by (elim exE conjE)
    then show ?r by (cases before) auto
  next
    assume ?r
    then obtain before n tail where "rest = before @ GEN_DNS n # tail" "list_all well_formed_name before" "names_host n host"
      by (elim exE conjE)
    then have "GEN_other # rest = (GEN_other # before) @ GEN_DNS n # tail" "list_all well_formed_name (GEN_other # before)"
      by (simp_all)
    with \<open>names_host n host\<close> show ?l by blast
  qed
  with 2 show ?case by simp
next
  case (3 host d rest)
  have "?found host (GEN_DNS d # rest) \<longleftrightarrow> names_host d host \<or> 0 \<notin> set d \<and> ?found host rest" (is "?l \<longleftrightarrow> ?r")
  proof
    assume ?l
    then obtain before n tail where split: "GEN_DNS d # rest = before @ GEN_DNS n # tail" "list_all well_formed_name before" "names_host n host"
      by (elim exE conjE)
    show ?r
    proof (cases before)
      case Nil
      with split(1,3) show ?r by simp
    next
      case (Cons g before')
      with split have "0 \<notin> set d" "rest = before' @ GEN_DNS n # tail" "list_all well_formed_name before'"
        by auto
      with split(3) show ?r by blast
    qed
  next
    assume ?r
    then show ?l
    proof
      assume "names_host d host"
      then show ?l by (intro exI [of _ "[]"] exI [of _ d] exI [of _ rest]) simp
    next
      assume "0 \<notin> set d \<and> ?found host rest"
      then obtain before n tail where "rest = before @ GEN_DNS n # tail" "list_all well_formed_name (GEN_DNS d # before)" "names_host n host"
        by auto
      then show ?l by (metis append_Cons)
    qed
  qed
  with 3 show ?case by (auto simp: c_string_length c_string_id names_host_def)
qed simp

lemma match_san_names_present: "match_san_names host names \<noteq> AMQP_HVR_NO_SAN_PRESENT"
  by (induction host names rule: match_san_names.induct) auto

lemma matches_common_name_iff:
  "amqp_matches_common_name host cert = AMQP_HVR_MATCH_FOUND \<longleftrightarrow> (\<exists>n. common_name cert = Some n \<and> names_host n host)"
  by (auto simp: amqp_matches_common_name_def names_host_def c_string_length c_string_id split: option.split)

lemma validate_hostname: "amqp_ssl_validate_hostname (Some host) (Some cert) = AMQP_HVR_MATCH_FOUND \<longleftrightarrow> certificate_names cert host"
  by (simp add: amqp_ssl_validate_hostname_def amqp_matches_subject_alternative_name_def certificate_names_def Let_def
      match_san_names_iff match_san_names_present matches_common_name_iff split: option.split)

text \<open>
  C34. A certificate is accepted for a host exactly if it names it: when it has the extension Subject Alternative
  Name, one of the DNS names there matches and neither it nor any DNS name before it has a zero byte in it;
  the Common Name counts only when the extension is missing, and then likewise. In particular a name
  like \<^verbatim>\<open>good.com\<close>, zero, \<^verbatim>\<open>.evil.com\<close> matches nothing.
\<close>

theorem validate_hostname_iff:
  "amqp_ssl_validate_hostname (Some host) (Some cert) = AMQP_HVR_MATCH_FOUND \<longleftrightarrow>
    (case subject_alt_name cert of
       Some names \<Rightarrow> \<exists>before n rest. names = before @ GEN_DNS n # rest \<and> list_all well_formed_name before
          \<and> 0 \<notin> set n \<and> amqp_hostcheck (Some n) (Some host) = AMQP_HCR_MATCH
     | None \<Rightarrow> \<exists>n. common_name cert = Some n \<and> 0 \<notin> set n \<and> amqp_hostcheck (Some n) (Some host) = AMQP_HCR_MATCH)"
  by (auto simp: validate_hostname certificate_names_def names_host_def split: option.split)

end
