(* ===== verification/Amqp_Tls.thy ===== *)
theory Amqp_Tls
  imports Amqp_Dial Amqp_Hostname
begin

text \<open>
  The TLS transport (\<^verbatim>\<open>amqp_openssl.c\<close>): sending, receiving, opening and closing a socket.

  OpenSSL is not part of the repository. What its functions answer is an input of the model: \<open>t_ret k\<close> is
  the value the \<open>k\<close>-th call returns, \<open>t_error k\<close> what \<^verbatim>\<open>SSL_get_error\<close>, \<^verbatim>\<open>ERR_peek_error\<close> or \<^verbatim>\<open>errno\<close> say
  after it, \<open>t_data k\<close> the plain text a call of \<^verbatim>\<open>SSL_read\<close> has, \<open>t_cert k\<close> the certificate of the peer. The model
  keeps what the code is responsible for: the \<^verbatim>\<open>SSL\<close> objects that are allocated (\<open>t_ssl\<close>), the
  certificates it holds a reference to (\<open>t_certs\<close>), the plain text that was handed over (\<open>t_sent\<close>), and the
  descriptors in \<open>t_dial\<close>. A call of OpenSSL with a \<^verbatim>\<open>NULL\<close> object is undefined behaviour.

  The lemmas at the end say when opening succeeds, in particular what was checked before, and what
  a failure leaves behind.
\<close>

section \<open>OpenSSL\<close>

definition SSL_ERROR_WANT_READ :: int where "SSL_ERROR_WANT_READ = 2"
definition SSL_ERROR_WANT_WRITE :: int where "SSL_ERROR_WANT_WRITE = 3"
definition SSL_ERROR_ZERO_RETURN :: int where "SSL_ERROR_ZERO_RETURN = 6"
definition X509_V_OK :: int where "X509_V_OK = 0"

record tls =
  t_ret :: "nat \<Rightarrow> int"
  t_error :: "nat \<Rightarrow> int"
  t_data :: "nat \<Rightarrow> amqp_bytes"
  t_cert :: "nat \<Rightarrow> x509 option"
  t_calls :: nat
  t_ssl :: "nat list"
  t_certs :: nat
  t_sent :: amqp_bytes
  t_dial :: dial

type_synonym 'a tls_io = "tls \<Rightarrow> 'a \<times> tls"

definition tls_call :: "int tls_io" where
  "tls_call t = (t_ret t (t_calls t), t\<lparr>t_calls := Suc (t_calls t)\<rparr>)"

text \<open>The error of the call before.\<close>

definition last_call_error :: "tls \<Rightarrow> int" where
  "last_call_error t = t_error t (t_calls t - 1)"

text \<open>\<^verbatim>\<open>SSL_new\<close> returns \<^verbatim>\<open>NULL\<close> or a new object, which is named by the number of the call.\<close>

definition SSL_new :: "nat option tls_io" where
  "SSL_new t =
    (case tls_call t of
       (r, t1) \<Rightarrow> if r = 0 then (None, t1) else (Some (t_calls t), t1\<lparr>t_ssl := t_calls t # t_ssl t1\<rparr>))"

definition SSL_free :: "nat option \<Rightarrow> tls \<Rightarrow> tls" where
  "SSL_free s t = (case s of None \<Rightarrow> t | Some o' \<Rightarrow> t\<lparr>t_ssl := removeAll o' (t_ssl t)\<rparr>)"

definition SSL_get_peer_certificate :: "x509 option tls_io" where
  "SSL_get_peer_certificate t =
    (let c = t_cert t (t_calls t)
     in (c, (snd (tls_call t))\<lparr>t_certs := (if c = None then t_certs t else t_certs t + 1)\<rparr>))"

definition X509_free :: "x509 option \<Rightarrow> tls \<Rightarrow> tls" where
  "X509_free c t = (if c = None then t else t\<lparr>t_certs := t_certs t - 1\<rparr>)"

text \<open>Calls of the operating system on the dialer inside.\<close>

definition on_dial :: "'a dialer \<Rightarrow> 'a tls_io" where
  "on_dial f t = (case f (t_dial t) of (r, d) \<Rightarrow> (r, t\<lparr>t_dial := d\<rparr>))"

section \<open>amqp\_openssl.c: the socket\<close>

record ssl_socket =
  ssl_block :: nat
  ssl_ctx :: "nat option"
  ssl_sockfd :: int
  ssl :: "nat option"
  verify_peer :: bool
  verify_hostname :: bool
  ssl_internal_error :: int

definition INT_MAX :: nat where "INT_MAX = 2147483647"

text \<open>The status for an error of \<^verbatim>\<open>SSL_write\<close> or \<^verbatim>\<open>SSL_read\<close>.\<close>

definition ssl_io_status :: "int \<Rightarrow> int" where
  "ssl_io_status err =
    (if err = SSL_ERROR_WANT_READ then AMQP_PRIVATE_STATUS_SOCKET_NEEDREAD
     else if err = SSL_ERROR_WANT_WRITE then AMQP_PRIVATE_STATUS_SOCKET_NEEDWRITE
     else if err = SSL_ERROR_ZERO_RETURN then status_code AMQP_STATUS_CONNECTION_CLOSED
     else status_code AMQP_STATUS_SSL_ERROR)"

definition amqp_ssl_socket_send :: "ssl_socket \<Rightarrow> amqp_bytes \<Rightarrow> (int \<times> ssl_socket) outcome tls_io" where
  "amqp_ssl_socket_send self buf t =
    (if ssl_sockfd self = -1 then (Inr (status_code AMQP_STATUS_SOCKET_CLOSED, self), t)
     else if length buf > INT_MAX then (Inr (status_code AMQP_STATUS_INVALID_PARAMETER, self), t)
     else if ssl self = None then (Inl Undefined_behaviour, t)
     else
       (case tls_call t of
          (res, t1) \<Rightarrow>
            if res \<le> 0
            then (Inr (ssl_io_status (last_call_error t1), self\<lparr>ssl_internal_error := last_call_error t1\<rparr>), t1)
            else (Inr (res, self\<lparr>ssl_internal_error := 0\<rparr>), t1\<lparr>t_sent := t_sent t1 @ take (nat res) buf\<rparr>)))"

text \<open>\<^verbatim>\<open>SSL_read\<close> returns the number of bytes it has, or a value that is not positive.\<close>

definition SSL_read :: "nat \<Rightarrow> (int \<times> amqp_bytes) tls_io" where
  "SSL_read len t =
    (let bs = take len (t_data t (t_calls t))
     in case tls_call t of (r, t1) \<Rightarrow> ((if bs \<noteq> [] then int (length bs) else min r 0, bs), t1))"

definition amqp_ssl_socket_recv :: "ssl_socket \<Rightarrow> nat \<Rightarrow> (int \<times> amqp_bytes \<times> ssl_socket) outcome tls_io" where
  "amqp_ssl_socket_recv self len t =
    (if ssl_sockfd self = -1 then (Inr (status_code AMQP_STATUS_SOCKET_CLOSED, [], self), t)
     else if len > INT_MAX then (Inr (status_code AMQP_STATUS_INVALID_PARAMETER, [], self), t)
     else if ssl self = None then (Inl Undefined_behaviour, t)
     else
       (case SSL_read len t of
          ((received, bs), t1) \<Rightarrow>
            if received \<le> 0
            then (Inr (ssl_io_status (last_call_error t1), [], self\<lparr>ssl_internal_error := last_call_error t1\<rparr>), t1)
            else (Inr (received, bs, self\<lparr>ssl_internal_error := 0\<rparr>), t1)))"

section \<open>amqp\_openssl.c: amqp\_ssl\_socket\_open\<close>

text \<open>The labels at the end of the function; each falls through to the next.\<close>

definition error_out1 :: "ssl_socket \<Rightarrow> ssl_socket tls_io" where
  "error_out1 self t = (self\<lparr>ssl := None\<rparr>, SSL_free (ssl self) t)"

definition error_out2 :: "ssl_socket \<Rightarrow> ssl_socket tls_io" where
  "error_out2 self t =
    error_out1 (self\<lparr>ssl_sockfd := -1\<rparr>) (snd (on_dial (amqp_os_socket_close (ssl_sockfd self)) t))"

definition error_out3 :: "ssl_socket \<Rightarrow> ssl_socket tls_io" where
  "error_out3 self t = error_out2 self (snd (tls_call t))"

definition error_out4 :: "x509 option \<Rightarrow> ssl_socket \<Rightarrow> ssl_socket tls_io" where
  "error_out4 cert self t = error_out3 self (X509_free cert t)"

lemma poll_OK_shorter:
  assumes "on_dial (dial_poll deadline) t = (Inr (status_code AMQP_STATUS_OK), t')"
  shows "length (w_poll (d_world (t_dial t'))) < length (w_poll (d_world (t_dial t)))"
proof -
  obtain r k rs where p: "poll_loop deadline (w_clock (d_world (t_dial t))) (w_ticks (d_world (t_dial t)))
      (w_poll (d_world (t_dial t))) = (r, k, rs)" by (metis prod.exhaust)
  with assms have r: "r = Inr 0" "w_poll (d_world (t_dial t')) = rs"
    by (auto simp: on_dial_def dial_poll_def amqp_poll_def status_values)
  have "-1 \<le> amqp_time_ms_until (w_clock (d_world (t_dial t)) (w_ticks (d_world (t_dial t)))) deadline"
    using p r(1) by (cases "w_poll (d_world (t_dial t))") (auto simp: Let_def split: if_splits)
  with poll_loop_shorter [OF p] r show ?thesis by auto
qed

text \<open>
  The loop around \<^verbatim>\<open>SSL_connect\<close>: it yields the status and the internal error when \<^verbatim>\<open>SSL_connect\<close> failed for
  good, and ends because every further round uses up a result of \<^verbatim>\<open>poll\<close>.
\<close>

function ssl_connect_loop :: "amqp_time \<Rightarrow> ssl_socket \<Rightarrow> (int \<times> ssl_socket) outcome tls_io" where
  "ssl_connect_loop deadline self t =
    (case tls_call t of
       (r, t1) \<Rightarrow>
         if r = 1 then (Inr (status_code AMQP_STATUS_OK, self), t1)
         else
           (let err = last_call_error t1; self1 = self\<lparr>ssl_internal_error := err\<rparr>
            in if err \<noteq> SSL_ERROR_WANT_READ \<and> err \<noteq> SSL_ERROR_WANT_WRITE
               then (Inr (status_code AMQP_STATUS_SSL_CONNECTION_FAILED, self1), t1)
               else
                 (case on_dial (dial_poll deadline) t1 of
                    (Inl e, t2) \<Rightarrow> (Inl e, t2)
                  | (Inr status, t2) \<Rightarrow>
                      if status = status_code AMQP_STATUS_OK then ssl_connect_loop deadline self1 t2
                      else (Inr (status, self1), t2))))"
  by pat_completeness auto
termination
proof (relation "measure (\<lambda>(d, s, t). length (w_poll (d_world (t_dial t))))")
  fix deadline self t r t1 err self1 u t2 status
  assume "(r, t1) = tls_call t" "(u, t2) = on_dial (dial_poll deadline) t1" "u = Inr status"
    "status = status_code AMQP_STATUS_OK"
  then have "length (w_poll (d_world (t_dial t2))) < length (w_poll (d_world (t_dial t1)))"
    using poll_OK_shorter [of deadline t1 t2] by simp
  moreover have "t_dial t1 = t_dial t" using \<open>(r, t1) = tls_call t\<close> by (simp add: tls_call_def)
  ultimately show "((deadline, self1, t2), deadline, self, t) \<in> measure (\<lambda>(d, s, t). length (w_poll (d_world (t_dial t))))"
    by simp
qed simp

declare ssl_connect_loop.simps [simp del]

text \<open>From the certificate of the peer on.\<close>

definition check_hostname :: "amqp_bytes \<Rightarrow> x509 option \<Rightarrow> ssl_socket \<Rightarrow> (int \<times> ssl_socket) tls_io" where
  "check_hostname host cert self t =
    (let self0 = self\<lparr>ssl_internal_error := 0\<rparr>;
         failed = status_code AMQP_STATUS_SSL_HOSTNAME_VERIFY_FAILED
     in if verify_hostname self \<and> cert = None then map_prod (Pair failed) id (error_out3 self0 t)
        else if verify_hostname self \<and> amqp_ssl_validate_hostname (Some host) cert \<noteq> AMQP_HVR_MATCH_FOUND
        then map_prod (Pair failed) id (error_out4 cert self0 t)
        else ((status_code AMQP_STATUS_OK, self0), X509_free cert t))"

definition check_peer :: "amqp_bytes \<Rightarrow> ssl_socket \<Rightarrow> (int \<times> ssl_socket) tls_io" where
  "check_peer host self t =
    (case SSL_get_peer_certificate t of
       (cert, t1) \<Rightarrow>
         (let failed = status_code AMQP_STATUS_SSL_PEER_VERIFY_FAILED
          in if verify_peer self then
               (if cert = None then map_prod (Pair failed) id (error_out3 (self\<lparr>ssl_internal_error := 0\<rparr>) t1)
                else
                  (case tls_call t1 of
                     (result, t2) \<Rightarrow>
                       if result \<noteq> X509_V_OK
                       then map_prod (Pair failed) id (error_out4 cert (self\<lparr>ssl_internal_error := result\<rparr>) t2)
                       else check_hostname host cert self t2))
             else check_hostname host cert self t1))"

text \<open>From the open socket on.\<close>

definition ssl_handshake :: "amqp_bytes \<Rightarrow> amqp_time \<Rightarrow> ssl_socket \<Rightarrow> (int \<times> ssl_socket) outcome tls_io" where
  "ssl_handshake host deadline self t =
    (case tls_call t of
       (status, t1) \<Rightarrow>
         if status = 0
         then map_prod (Inr \<circ> Pair (status_code AMQP_STATUS_SSL_ERROR)) id
                (error_out2 (self\<lparr>ssl_internal_error := last_call_error t1\<rparr>) t1)
         else
           (case ssl_connect_loop deadline self t1 of
              (Inl e, t2) \<Rightarrow> (Inl e, t2)
            | (Inr (status2, self2), t2) \<Rightarrow>
                if status2 \<noteq> status_code AMQP_STATUS_OK
                then map_prod (Inr \<circ> Pair status2) id (error_out2 self2 t2)
                else map_prod Inr id (check_peer host self2 t2)))"

text \<open>The end of \<^verbatim>\<open>amqp_ssl_socket_open\<close>, once there is a deadline.\<close>

definition dial_and_shake ::
    "resolver \<Rightarrow> ssl_socket \<Rightarrow> amqp_bytes \<Rightarrow> int \<Rightarrow> amqp_time \<Rightarrow> (int \<times> ssl_socket) outcome tls_io" where
  "dial_and_shake getaddrinfo self host port deadline t =
    (case on_dial (amqp_open_socket_inner getaddrinfo host port deadline) t of
       (Inl e, t3) \<Rightarrow> (Inl e, t3)
     | (Inr new_fd, t3) \<Rightarrow>
         if new_fd < 0
         then map_prod (Inr \<circ> Pair new_fd) id
                (error_out1 (self\<lparr>ssl_sockfd := -1, ssl_internal_error := t_error t3 (t_calls t3)\<rparr>) t3)
         else ssl_handshake host deadline (self\<lparr>ssl_sockfd := new_fd\<rparr>) t3)"

definition amqp_ssl_socket_open ::
    "resolver \<Rightarrow> ssl_socket \<Rightarrow> amqp_bytes \<Rightarrow> int \<Rightarrow> timeval option \<Rightarrow> (int \<times> ssl_socket) outcome tls_io" where
  "amqp_ssl_socket_open getaddrinfo self host port timeout t =
    (if ssl_sockfd self \<noteq> -1 then (Inr (status_code AMQP_STATUS_SOCKET_INUSE, self), t)
     else
       (case SSL_new t of
          (None, t1) \<Rightarrow>
            (Inr (status_code AMQP_STATUS_SSL_ERROR,
                  self\<lparr>ssl := None, ssl_internal_error := last_call_error t1\<rparr>), t1)
        | (Some s, t1) \<Rightarrow>
            (case on_dial (dial_deadline timeout) t1 of
               (Inl (Status st), t2) \<Rightarrow> (Inr (status_code st, self\<lparr>ssl := Some s\<rparr>), t2)
             | (Inl e, t2) \<Rightarrow> (Inl e, t2)
             | (Inr deadline, t2) \<Rightarrow> dial_and_shake getaddrinfo (self\<lparr>ssl := Some s\<rparr>) host port deadline t2)))"

section \<open>amqp\_openssl.c: closing\<close>

datatype amqp_socket_close_enum = AMQP_SC_NONE | AMQP_SC_FORCE

definition amqp_ssl_socket_close :: "ssl_socket \<Rightarrow> amqp_socket_close_enum \<Rightarrow> (int \<times> ssl_socket) outcome tls_io" where
  "amqp_ssl_socket_close self force t =
    (if ssl_sockfd self = -1 then (Inr (status_code AMQP_STATUS_SOCKET_CLOSED, self), t)
     else if force = AMQP_SC_NONE \<and> ssl self = None then (Inl Undefined_behaviour, t)
     else
       (let t1 = SSL_free (ssl self) (if force = AMQP_SC_NONE then snd (tls_call t) else t);
            self1 = self\<lparr>ssl := None\<rparr>
        in case on_dial (amqp_os_socket_close (ssl_sockfd self)) t1 of
             (r, t2) \<Rightarrow>
               if r \<noteq> 0 then (Inr (status_code AMQP_STATUS_SOCKET_ERROR, self1), t2)
               else (Inr (status_code AMQP_STATUS_OK, self1\<lparr>ssl_sockfd := -1\<rparr>), t2)))"

definition amqp_ssl_socket_get_sockfd :: "ssl_socket \<Rightarrow> int" where
  "amqp_ssl_socket_get_sockfd self = ssl_sockfd self"

section \<open>What opening leaves behind\<close>

text \<open>The answers of OpenSSL to come are the same, and what is allocated too.\<close>

definition same_oracle :: "tls \<Rightarrow> tls \<Rightarrow> bool" where
  "same_oracle t t' \<longleftrightarrow> t_ret t' = t_ret t \<and> t_error t' = t_error t \<and> t_cert t' = t_cert t \<and> t_calls t \<le> t_calls t'"

definition same_objects :: "tls \<Rightarrow> tls \<Rightarrow> bool" where
  "same_objects t t' \<longleftrightarrow> t_ssl t' = t_ssl t \<and> t_certs t' = t_certs t \<and> d_open (t_dial t') = d_open (t_dial t)"

definition same_setting :: "ssl_socket \<Rightarrow> ssl_socket \<Rightarrow> bool" where
  "same_setting self self' \<longleftrightarrow> ssl self' = ssl self \<and> ssl_sockfd self' = ssl_sockfd self
     \<and> verify_peer self' = verify_peer self \<and> verify_hostname self' = verify_hostname self"

lemmas tls_frame = same_oracle_def same_objects_def same_setting_def

lemma poll_keeps:
  assumes "on_dial (dial_poll deadline) t = (r, t')"
  shows "same_oracle t t' \<and> same_objects t t' \<and> t_calls t' = t_calls t \<and> (case r of Inl e \<Rightarrow> e = Blocked | Inr v \<Rightarrow> v \<le> 0)"
proof -
  obtain d where d: "dial_poll deadline (t_dial t) = (r, d)" "t' = t\<lparr>t_dial := d\<rparr>"
    using assms by (auto simp: on_dial_def split: prod.splits)
  from d(2) dial_poll_result [OF d(1)] show ?thesis by (simp add: tls_frame)
qed

lemma ssl_connect_loop_result:
  assumes "ssl_connect_loop deadline self t = (r, t')"
  shows "same_oracle t t' \<and> same_objects t t' \<and> t_calls t < t_calls t'
    \<and> (case r of Inl e \<Rightarrow> e = Blocked
       | Inr (status, self') \<Rightarrow> same_setting self self'
           \<and> (status = status_code AMQP_STATUS_OK \<longrightarrow> t_ret t (t_calls t' - 1) = 1))"
  using assms
proof (induction deadline self t rule: ssl_connect_loop.induct)
  case (1 deadline self t)
  obtain t1 where t1: "tls_call t = (t_ret t (t_calls t), t1)" "same_oracle t t1" "same_objects t t1" "t_calls t1 = Suc (t_calls t)"
    by (simp add: tls_call_def tls_frame)
  let ?err = "last_call_error t1"
  let ?self1 = "self\<lparr>ssl_internal_error := ?err\<rparr>"
  have self1: "same_setting self ?self1" "same_setting self self" by (simp_all add: tls_frame)
  show ?case
  proof (cases "t_ret t (t_calls t) = 1 \<or> ?err \<noteq> SSL_ERROR_WANT_READ \<and> ?err \<noteq> SSL_ERROR_WANT_WRITE")
    case True
    with "1.prems" t1 self1 show ?thesis
      by (auto simp: ssl_connect_loop.simps [of deadline self t] status_values Let_def split: if_splits)
  next
    case False
    obtain x t2 where p: "on_dial (dial_poll deadline) t1 = (x, t2)" by fastforce
    note k = poll_keeps [OF p]
    from False t1 p have eq: "ssl_connect_loop deadline self t =
        (case x of Inl e \<Rightarrow> (Inl e, t2)
         | Inr status \<Rightarrow> if status = status_code AMQP_STATUS_OK then ssl_connect_loop deadline ?self1 t2 else (Inr (status, ?self1), t2))"
      by (subst ssl_connect_loop.simps) (auto simp: Let_def)
    show ?thesis
    proof (cases "x = Inr (status_code AMQP_STATUS_OK)")
      case True
      with eq "1.prems" have l: "ssl_connect_loop deadline ?self1 t2 = (r, t')" by simp
      have "same_oracle t2 t' \<and> same_objects t2 t' \<and> t_calls t2 < t_calls t'
          \<and> (case r of Inl e \<Rightarrow> e = Blocked
             | Inr (status, self') \<Rightarrow> same_setting ?self1 self'
                 \<and> (status = status_code AMQP_STATUS_OK \<longrightarrow> t_ret t2 (t_calls t' - 1) = 1))"
        by (rule "1.IH" [OF t1(1) [symmetric] _ refl refl _ p [symmetric] True refl l]) (use False in auto)
      with k t1 self1 show ?thesis by (auto simp: tls_frame split: sum.splits)
    next
      case False
      with eq "1.prems" k t1 self1 show ?thesis by (cases x) (auto simp: tls_frame)
    qed
  qed
qed

text \<open>The socket holds the object \<open>s\<close> and a descriptor on top of \<open>S\<close> and \<open>ds\<close>, or nothing.\<close>

definition holding :: "nat \<Rightarrow> nat list \<Rightarrow> descriptor list \<Rightarrow> nat \<Rightarrow> ssl_socket \<times> tls \<Rightarrow> bool" where
  "holding s S ds C = (\<lambda>(self, t). ssl self = Some s \<and> t_ssl t = s # S \<and> s \<notin> set S \<and> t_certs t = C
     \<and> opened ds (ssl_sockfd self) (\<lambda>_. True) (t_dial t))"

definition released :: "nat list \<Rightarrow> descriptor list \<Rightarrow> nat \<Rightarrow> ssl_socket \<times> tls \<Rightarrow> bool" where
  "released S ds C = (\<lambda>(self, t). ssl self = None \<and> ssl_sockfd self = -1 \<and> t_ssl t = S \<and> t_certs t = C \<and> d_open (t_dial t) = ds)"

lemma tls_call_objects [simp]: "same_objects t (snd (tls_call t))"
  by (simp add: tls_call_def tls_frame)

lemma holding_objects: "same_objects t t' \<Longrightarrow> same_setting self self' \<Longrightarrow> holding s S ds C (self', t') = holding s S ds C (self, t)"
  by (simp add: holding_def tls_frame opened_def)

lemma error_out2_released:
  assumes "holding s S ds C (self, t)"
  shows "released S ds C (error_out2 self t)"
proof -
  from assms have h: "ssl self = Some s" "t_ssl t = s # S" "s \<notin> set S" "t_certs t = C" "opened ds (ssl_sockfd self) (\<lambda>_. True) (t_dial t)"
    by (simp_all add: holding_def)
  obtain r d where c: "sys_close (ssl_sockfd self) (t_dial t) = (r, d)" by fastforce
  with opened_close [OF h(5)] have "d_open d = ds" by simp
  with h c show ?thesis
    by (simp add: error_out2_def error_out1_def released_def SSL_free_def on_dial_def amqp_os_socket_close_def)
qed

lemma error_out3_released: "holding s S ds C (self, t) \<Longrightarrow> released S ds C (error_out3 self t)"
  by (simp add: error_out3_def error_out2_released holding_objects [of t _ self self] same_setting_def)

lemma error_out4_released: "holding s S ds (Suc C) (self, t) \<Longrightarrow> released S ds C (error_out4 (Some c) self t)"
  unfolding error_out4_def by (rule error_out3_released [of s]) (simp add: holding_def X509_free_def)

text \<open>What was checked when the handshake is over: \<open>cert\<close> is the certificate of the peer.\<close>

definition trusted :: "ssl_socket \<Rightarrow> amqp_bytes \<Rightarrow> x509 option \<Rightarrow> int \<Rightarrow> bool" where
  "trusted self host cert result \<longleftrightarrow> (verify_peer self \<longrightarrow> cert \<noteq> None \<and> result = X509_V_OK)
     \<and> (verify_hostname self \<longrightarrow> (\<exists>c. cert = Some c \<and> certificate_names c host))"

lemma check_hostname_result:
  assumes "holding s S ds (C + (if cert = None then 0 else 1)) (self, t)" "check_hostname host cert self t = ((status, self'), t')"
  shows "if status = status_code AMQP_STATUS_OK
    then holding s S ds C (self', t') \<and> trusted (self\<lparr>verify_peer := False\<rparr>) host cert 0
    else released S ds C (self', t')"
proof -
  let ?self = "self\<lparr>ssl_internal_error := 0\<rparr>"
  have h: "holding s S ds (C + (if cert = None then 0 else 1)) (?self, t)"
    using assms(1) holding_objects [of t t self ?self] by (simp add: tls_frame)
  consider (missing) "verify_hostname self" "cert = None"
    | (other) c where "verify_hostname self" "cert = Some c" "amqp_ssl_validate_hostname (Some host) cert \<noteq> AMQP_HVR_MATCH_FOUND"
    | (fine) "verify_hostname self \<Longrightarrow> \<exists>c. cert = Some c \<and> amqp_ssl_validate_hostname (Some host) cert = AMQP_HVR_MATCH_FOUND"
    by (cases cert) auto
  then show ?thesis
  proof cases
    case missing
    with assms(2) h error_out3_released [of s S ds C ?self t] show ?thesis
      by (cases "error_out3 ?self t") (auto simp: check_hostname_def Let_def status_values)
  next
    case other
    with assms(2) h error_out4_released [of s S ds C ?self t c] show ?thesis
      by (cases "error_out4 (Some c) ?self t") (auto simp: check_hostname_def Let_def status_values)
  next
    case fine
    then have ok: "verify_hostname self \<Longrightarrow> \<exists>c. cert = Some c \<and> certificate_names c host"
      using validate_hostname by fastforce
    have "check_hostname host cert self t = ((status_code AMQP_STATUS_OK, ?self), X509_free cert t)"
      using fine by (cases "verify_hostname self") (auto simp: check_hostname_def Let_def)
    with assms(2) have "status = status_code AMQP_STATUS_OK" "self' = ?self" "t' = X509_free cert t" by auto
    with h ok show ?thesis by (auto simp: holding_def X509_free_def trusted_def status_values)
  qed
qed

lemma check_peer_result:
  assumes "holding s S ds C (self, t)" "check_peer host self t = ((status, self'), t')"
  shows "if status = status_code AMQP_STATUS_OK
    then holding s S ds C (self', t') \<and> trusted self host (t_cert t (t_calls t)) (t_ret t (Suc (t_calls t)))
    else released S ds C (self', t')"
proof -
  let ?c = "t_cert t (t_calls t)"
  let ?C = "C + (if ?c = None then 0 else 1)"
  obtain t1 where t1: "SSL_get_peer_certificate t = (?c, t1)" "same_oracle t t1" "t_calls t1 = Suc (t_calls t)"
      "holding s S ds ?C (self, t1)"
    using assms(1) by (auto simp: SSL_get_peer_certificate_def tls_call_def holding_def tls_frame Let_def)
  obtain t2 where t2: "tls_call t1 = (t_ret t1 (t_calls t1), t2)" "same_objects t1 t2"
    by (simp add: tls_call_def tls_frame)
  have h2: "holding s S ds ?C (self', t2) = holding s S ds ?C (self, t1)" if "same_setting self self'" for self'
    by (rule holding_objects [OF t2(2) that])
  have r: "t_ret t1 (t_calls t1) = t_ret t (Suc (t_calls t))" using t1 by (simp add: same_oracle_def)
  have setting: "same_setting self self" "same_setting self (self\<lparr>ssl_internal_error := e\<rparr>)" for e by (simp_all add: tls_frame)
  consider (skipped) "\<not> verify_peer self" | (missing) "verify_peer self" "?c = None"
    | (bad) c where "verify_peer self" "?c = Some c" "t_ret t (Suc (t_calls t)) \<noteq> X509_V_OK"
    | (good) c where "verify_peer self" "?c = Some c" "t_ret t (Suc (t_calls t)) = X509_V_OK"
    by (cases ?c) auto
  then show ?thesis
  proof cases
    case skipped
    with assms(2) t1(1) have "check_hostname host ?c self t1 = ((status, self'), t')" by (simp add: check_peer_def)
    from check_hostname_result [OF t1(4) this] skipped show ?thesis by (auto simp: trusted_def split: if_splits)
  next
    case missing
    have "holding s S ds C (self\<lparr>ssl_internal_error := 0\<rparr>, t1)"
      using t1(4) missing holding_objects [of t1 t1 self "self\<lparr>ssl_internal_error := 0\<rparr>"] by (simp add: tls_frame)
    from error_out3_released [OF this] missing assms(2) t1(1) show ?thesis
      by (cases "error_out3 (self\<lparr>ssl_internal_error := 0\<rparr>) t1") (auto simp: check_peer_def Let_def status_values)
  next
    case bad
    let ?self = "self\<lparr>ssl_internal_error := t_ret t (Suc (t_calls t))\<rparr>"
    have "holding s S ds (Suc C) (?self, t2)" using h2 [OF setting(2)] t1(4) bad by simp
    from error_out4_released [OF this, of c] bad assms(2) t1(1) t2(1) r show ?thesis
      by (cases "error_out4 (Some c) ?self t2") (auto simp: check_peer_def Let_def status_values)
  next
    case good
    with assms(2) t1(1) t2(1) r have k: "check_hostname host ?c self t2 = ((status, self'), t')"
      by (simp add: check_peer_def Let_def)
    have "holding s S ds ?C (self, t2)" using h2 [OF setting(1)] t1(4) by simp
    from check_hostname_result [OF this k] good show ?thesis by (auto simp: trusted_def split: if_splits)
  qed
qed

lemma ssl_handshake_result:
  assumes "holding s S ds C (self, t)" "ssl_handshake host deadline self t = (r, t')"
  shows "case r of Inl e \<Rightarrow> e = Blocked
    | Inr (status, self') \<Rightarrow>
        if status = status_code AMQP_STATUS_OK
        then holding s S ds C (self', t')
          \<and> (\<exists>k \<ge> t_calls t. t_ret t k = 1 \<and> trusted self host (t_cert t (k + 1)) (t_ret t (k + 2)))
        else released S ds C (self', t')"
proof -
  obtain t1 where t1: "tls_call t = (t_ret t (t_calls t), t1)" "same_oracle t t1" "same_objects t t1"
    by (simp add: tls_call_def tls_frame)
  have h1: "holding s S ds C (self', t1)" if "same_setting self self'" for self'
    using assms(1) holding_objects [OF t1(3) that] by simp
  show ?thesis
  proof (cases "t_ret t (t_calls t) = 0")
    case True
    let ?self = "self\<lparr>ssl_internal_error := last_call_error t1\<rparr>"
    have "holding s S ds C (?self, t1)" by (rule h1) (simp add: tls_frame)
    from error_out2_released [OF this] True assms(2) t1(1) show ?thesis
      by (cases "error_out2 ?self t1") (auto simp: ssl_handshake_def status_values)
  next
    case False
    obtain x t2 where l: "ssl_connect_loop deadline self t1 = (x, t2)" by fastforce
    note k = ssl_connect_loop_result [OF l]
    show ?thesis
    proof (cases x)
      case (Inl e)
      with False assms(2) t1(1) l k show ?thesis by (auto simp: ssl_handshake_def)
    next
      case (Inr p)
      obtain status2 self2 where p: "p = (status2, self2)" by (cases p)
      with k Inr have k2: "same_oracle t1 t2" "same_objects t1 t2" "t_calls t1 < t_calls t2" "same_setting self self2"
        "status2 = status_code AMQP_STATUS_OK \<Longrightarrow> t_ret t1 (t_calls t2 - 1) = 1" by auto
      have h2: "holding s S ds C (self2, t2)"
        using h1 [of self] holding_objects [OF k2(2,4)] by (simp add: same_setting_def)
      show ?thesis
      proof (cases "status2 = status_code AMQP_STATUS_OK")
        case False
        with error_out2_released [OF h2] \<open>t_ret t (t_calls t) \<noteq> 0\<close> assms(2) t1(1) l Inr p show ?thesis
          by (cases "error_out2 self2 t2") (auto simp: ssl_handshake_def)
      next
        case True
        obtain status self' u where c: "check_peer host self2 t2 = ((status, self'), u)" by (metis prod.exhaust)
        with True \<open>t_ret t (t_calls t) \<noteq> 0\<close> assms(2) t1(1) l Inr p have r: "r = Inr (status, self')" "t' = u"
          by (auto simp: ssl_handshake_def)
        have same: "t_ret t2 = t_ret t" "t_cert t2 = t_cert t" "t_calls t \<le> t_calls t2 - 1" "t_ret t (t_calls t2 - 1) = 1"
          "Suc (t_calls t2 - 1) = t_calls t2"
          using t1(2) k2(1,3) k2(5) [OF True] by (auto simp: same_oracle_def)
        have tr: "trusted self2 host cert v = trusted self host cert v" for cert v
          using k2(4) by (simp add: trusted_def same_setting_def)
        have "\<exists>k \<ge> t_calls t. t_ret t k = 1 \<and> trusted self host (t_cert t (k + 1)) (t_ret t (k + 2))"
          if "trusted self host (t_cert t (t_calls t2)) (t_ret t (Suc (t_calls t2)))"
          by (rule exI [of _ "t_calls t2 - 1"]) (use same that in auto)
        with check_peer_result [OF h2 c] r same tr show ?thesis by (auto split: if_splits)
      qed
    qed
  qed
qed

lemma dial_deadline_keeps: "dial_deadline timeout d = (r, d') \<Longrightarrow> d_open d' = d_open d"
  by (auto simp: dial_deadline_def split: prod.splits)

lemma dial_deadline_status: "dial_deadline timeout d = (Inl e, d') \<Longrightarrow> \<exists>st. e = Status st \<and> st \<noteq> AMQP_STATUS_OK"
  by (auto simp: dial_deadline_def amqp_time_from_now_def time_after_def Let_def split: prod.splits option.splits if_splits)

lemma SSL_new_object:
  assumes "SSL_new t = (s, t1)" "\<forall>s \<in> set (t_ssl t). s < t_calls t"
  shows "t_certs t1 = t_certs t" "t_dial t1 = t_dial t" "t_ret t1 = t_ret t" "t_cert t1 = t_cert t"
    "case s of None \<Rightarrow> t_ssl t1 = t_ssl t | Some o' \<Rightarrow> t_ssl t1 = o' # t_ssl t \<and> o' \<notin> set (t_ssl t)"
  using assms by (auto simp: SSL_new_def tls_call_def split: if_splits)

lemma dial_and_shake_result:
  assumes "dial_and_shake getaddrinfo self host port deadline t = (Inr (status, self'), t')"
    and "ssl self = Some s" "t_ssl t = s # S" "s \<notin> set S"
  shows "if status = status_code AMQP_STATUS_OK
    then holding s S (d_open (t_dial t)) (t_certs t) (self', t')
      \<and> (\<exists>k. t_ret t k = 1 \<and> trusted self host (t_cert t (k + 1)) (t_ret t (k + 2)))
    else released S (d_open (t_dial t)) (t_certs t) (self', t')"
proof -
  obtain y d where od: "amqp_open_socket_inner getaddrinfo host port deadline (t_dial t) = (y, d)" by fastforce
  let ?t3 = "t\<lparr>t_dial := d\<rparr>"
  have t3: "on_dial (amqp_open_socket_inner getaddrinfo host port deadline) t = (y, ?t3)" using od by (simp add: on_dial_def)
  note res = open_socket_inner_result [of getaddrinfo host port "t_dial t" deadline, unfolded od dial_result_def prod.case]
  obtain new_fd where y: "y = Inr new_fd" using assms(1) t3 by (cases y) (auto simp: dial_and_shake_def)
  show ?thesis
  proof (cases "new_fd < 0")
    case True
    with assms t3 y res show ?thesis
      by (auto simp: dial_and_shake_def error_out1_def SSL_free_def released_def status_values)
  next
    case False
    let ?self = "self\<lparr>ssl_sockfd := new_fd\<rparr>"
    have h: "holding s S (d_open (t_dial t)) (t_certs t) (?self, ?t3)"
      using res y False assms(2-4) by (auto simp: holding_def opened_def)
    have "ssl_handshake host deadline ?self ?t3 = (Inr (status, self'), t')"
      using assms(1) t3 y False by (simp add: dial_and_shake_def)
    moreover have "trusted ?self host c v = trusted self host c v" for c v by (simp add: trusted_def)
    ultimately show ?thesis using ssl_handshake_result [OF h] by fastforce
  qed
qed

text \<open>
  C6. A TLS connection is open only when it was verified. When \<^verbatim>\<open>amqp_ssl_socket_open\<close> returns
  \<^verbatim>\<open>AMQP_STATUS_OK\<close>, \<^verbatim>\<open>SSL_connect\<close> has succeeded, a peer that has to be verified showed a certificate for which
  \<^verbatim>\<open>SSL_get_verify_result\<close> is \<^verbatim>\<open>X509_V_OK\<close>, and when the host name has to be verified the certificate names the
  host; one new \<^verbatim>\<open>SSL\<close> object and one new descriptor are in use. When it returns anything else nothing
  is left behind, neither object, certificate nor descriptor, but for one case: a timeout that
  gives no deadline loses the new \<^verbatim>\<open>SSL\<close> object.
\<close>

theorem tls_open_verified:
  assumes "amqp_ssl_socket_open getaddrinfo self host port timeout t = (Inr (status, self'), t')"
    and "ssl_sockfd self = -1" "\<forall>s \<in> set (t_ssl t). s < t_calls t"
  shows "(status = status_code AMQP_STATUS_OK \<and> t_certs t' = t_certs t
        \<and> (\<exists>x s. d_open (t_dial t') = x # d_open (t_dial t) \<and> fd x = ssl_sockfd self' \<and> t_ssl t' = s # t_ssl t \<and> ssl self' = Some s)
        \<and> (\<exists>k. t_ret t k = 1
             \<and> (verify_peer self \<longrightarrow> t_cert t (k + 1) \<noteq> None \<and> t_ret t (k + 2) = X509_V_OK)
             \<and> (verify_hostname self \<longrightarrow> (\<exists>c. t_cert t (k + 1) = Some c \<and> certificate_names c host))))
    \<or> (status \<noteq> status_code AMQP_STATUS_OK \<and> ssl_sockfd self' = -1
        \<and> d_open (t_dial t') = d_open (t_dial t) \<and> t_certs t' = t_certs t
        \<and> (t_ssl t' = t_ssl t \<and> ssl self' = None
           \<or> (\<exists>s e. fst (dial_deadline timeout (t_dial t)) = Inl e \<and> t_ssl t' = s # t_ssl t \<and> ssl self' = Some s)))"
proof -
  obtain s t1 where n: "SSL_new t = (s, t1)" by fastforce
  note t1 = SSL_new_object [OF n assms(3)]
  obtain x d where dd: "dial_deadline timeout (t_dial t) = (x, d)" by fastforce
  let ?t2 = "t1\<lparr>t_dial := d\<rparr>"
  have t2: "on_dial (dial_deadline timeout) t1 = (x, ?t2)" using dd t1 by (simp add: on_dial_def)
  note d2 = dial_deadline_keeps [OF dd]
  show ?thesis
  proof (cases s)
    case None
    with n assms(1,2) t1 show ?thesis by (auto simp: amqp_ssl_socket_open_def status_values)
  next
    case (Some o')
    show ?thesis
    proof (cases x)
      case (Inl e)
      with dd obtain st where st: "e = Status st" "st \<noteq> AMQP_STATUS_OK" using dial_deadline_status by blast
      then have "status_code st \<noteq> 0" by (cases st) (simp_all add: status_values)
      with st Inl Some n assms(1,2) t1 t2 d2 dd show ?thesis by (auto simp: amqp_ssl_socket_open_def status_values)
    next
      case (Inr deadline)
      have "dial_and_shake getaddrinfo (self\<lparr>ssl := Some o'\<rparr>) host port deadline ?t2 = (Inr (status, self'), t')"
        using assms(1,2) Some n t2 Inr by (simp add: amqp_ssl_socket_open_def)
      from dial_and_shake_result [OF this, of o' "t_ssl t"] Some t1 d2 show ?thesis
        by (auto simp: holding_def released_def trusted_def opened_def split: if_splits)
    qed
  qed
qed

text \<open>A fresh socket, and a library that grants everything to a server whose certificate names the host \<^verbatim>\<open>a\<close>.\<close>

definition fresh_ssl_socket :: "nat \<Rightarrow> nat \<Rightarrow> ssl_socket" where
  "fresh_ssl_socket b ctx =
    \<lparr>ssl_block = b, ssl_ctx = Some ctx, ssl_sockfd = -1, ssl = None, verify_peer = True, verify_hostname = True,
     ssl_internal_error = 0\<rparr>"

definition trusting_library :: tls where
  "trusting_library =
    \<lparr>t_ret = \<lambda>k. if k = 4 then 0 else 1, t_error = \<lambda>_. 0, t_data = \<lambda>_. [],
     t_cert = \<lambda>_. Some \<lparr>subject_alt_name = Some [GEN_other, GEN_DNS [0x41]], common_name = None\<rparr>,
     t_calls = 0, t_ssl = [], t_certs = 0, t_sent = [], t_dial = quiet_system (\<lambda>_. None) []\<rparr>"

lemmas tls_eval = amqp_ssl_socket_open_def dial_and_shake_def SSL_new_def tls_call_def on_dial_def dial_deadline_def read_clock_def
  amqp_time_from_now_def ssl_handshake_def ssl_connect_loop.simps check_peer_def check_hostname_def
  SSL_get_peer_certificate_def X509_free_def X509_V_OK_def amqp_ssl_validate_hostname_def
  amqp_matches_subject_alternative_name_def c_string_def amqp_hostcheck_def Let_def

theorem tls_open_verified_witness:
  "\<exists>self' t'. amqp_ssl_socket_open two_addresses (fresh_ssl_socket 0 1) [0x61] 5671 None trusting_library
       = (Inr (status_code AMQP_STATUS_OK, self'), t')
     \<and> (\<exists>x s. d_open (t_dial t') = [x] \<and> fd x = ssl_sockfd self' \<and> t_ssl t' = [s])
     \<and> (\<exists>k c. t_cert trusting_library (k + 1) = Some c \<and> certificate_names c [0x61])"
proof -
  have "\<exists>self' t'.
    amqp_ssl_socket_open two_addresses (fresh_ssl_socket 0 1) [0x61] 5671 None trusting_library
      = (Inr (status_code AMQP_STATUS_OK, self'), t')"
    by (simp add: tls_eval dial_eval trusting_library_def fresh_ssl_socket_def amqp_raw_toupper_def)
  then obtain self' t' where o':
    "amqp_ssl_socket_open two_addresses (fresh_ssl_socket 0 1) [0x61] 5671 None trusting_library
      = (Inr (status_code AMQP_STATUS_OK, self'), t')" by blast
  have lib: "ssl_sockfd (fresh_ssl_socket 0 1) = -1" "verify_hostname (fresh_ssl_socket 0 1)" "t_ssl trusting_library = []"
      "d_open (t_dial trusting_library) = []"
    by (simp_all add: trusting_library_def fresh_ssl_socket_def quiet_system_def)
  from tls_open_verified [OF o'] lib
  have "(\<exists>x s. d_open (t_dial t') = [x] \<and> fd x = ssl_sockfd self' \<and> t_ssl t' = [s])
      \<and> (\<exists>k c. t_cert trusting_library (k + 1) = Some c \<and> certificate_names c [0x61])" by fastforce
  with o' show ?thesis by blast
qed

section \<open>A close that fails\<close>

text \<open>
  When \<^verbatim>\<open>close\<close> reports an error the descriptor is kept although the \<^verbatim>\<open>SSL\<close> object is gone: sending on
  such a socket passes \<^verbatim>\<open>NULL\<close> to \<^verbatim>\<open>SSL_write\<close>.
\<close>

lemma send_after_failed_close:
  assumes "amqp_ssl_socket_close self force t = (Inr (status_code AMQP_STATUS_SOCKET_ERROR, self'), t')"
    and "length buf \<le> INT_MAX"
  shows "ssl self' = None \<and> amqp_ssl_socket_send self' buf t' = (Inl Undefined_behaviour, t')"
proof -
  have "ssl self' = None \<and> ssl_sockfd self' \<noteq> -1"
    using assms(1) by (auto simp: amqp_ssl_socket_close_def Let_def status_values split: if_splits prod.splits)
  with assms(2) show ?thesis by (simp add: amqp_ssl_socket_send_def)
qed

end
