(* ===== verification/Amqp_Tls_Setup.thy ===== *)
theory Amqp_Tls_Setup
  imports Amqp_Tls Amqp_Mem
begin

text \<open>
  The TLS transport (\<^verbatim>\<open>amqp_openssl.c\<close>): creating, configuring and deleting a socket, and setting up the
  library, as it is built on POSIX with \<^verbatim>\<open>ENABLE_THREAD_SAFETY\<close>.

  The static variables of the file are fields of the record. A context is named by the number of the call that made it;
  its options are \<open>g_options\<close>. The number of locks OpenSSL wants is a parameter.
\<close>

section \<open>State\<close>

type_synonym any_socket = "tcp_socket + ssl_socket"

record openssl =
  g_tls :: tls
  g_heap :: heap
  g_ctxs :: "nat list"
  g_options :: "nat \<Rightarrow> u64"
  g_bios :: nat
  g_rsas :: nat
  g_socket :: "any_socket option"
  open_ssl_connections :: int
  do_initialize_openssl :: bool
  openssl_initialized :: bool
  openssl_lockarray :: "nat option"
  init_mutex_held :: bool
  callbacks_set :: bool

type_synonym 'a ssl_io = "openssl \<Rightarrow> 'a \<times> openssl"

definition lib_call :: "int ssl_io" where
  "lib_call g = (case tls_call (g_tls g) of (r, t) \<Rightarrow> (r, g\<lparr>g_tls := t\<rparr>))"

section \<open>Setting up the library\<close>

definition lock_init_mutex :: "int ssl_io" where
  "lock_init_mutex g = (case lib_call g of (r, g1) \<Rightarrow> (r, if r = 0 then g1\<lparr>init_mutex_held := True\<rparr> else g1))"

definition unlock_init_mutex :: "openssl \<Rightarrow> openssl" where
  "unlock_init_mutex g = (snd (lib_call g))\<lparr>init_mutex_held := False\<rparr>"

definition sizeof_mutex :: nat where "sizeof_mutex = 40"

text \<open>The loop that initialises the locks; it answers whether all calls succeeded.\<close>

fun init_locks :: "nat \<Rightarrow> bool ssl_io" where
  "init_locks 0 g = (True, g)"
| "init_locks (Suc n) g = (case lib_call g of (r, g1) \<Rightarrow> if r \<noteq> 0 then (False, g1) else init_locks n g1)"

text \<open>The array of locks: it is there, or it is made; the answer is whether it is there then.\<close>

definition make_lockarray :: "nat \<Rightarrow> bool ssl_io" where
  "make_lockarray num_locks g =
    (if openssl_lockarray g \<noteq> None then (True, g)
     else
       (case malloc (num_locks * sizeof_mutex) (g_heap g) of
          (None, h) \<Rightarrow> (False, g\<lparr>g_heap := h\<rparr>)
        | (Some b, h) \<Rightarrow>
            (case init_locks num_locks (g\<lparr>g_heap := h, openssl_lockarray := Some b\<rparr>) of
               (True, g1) \<Rightarrow> (True, g1)
             | (False, g1) \<Rightarrow> (False, g1\<lparr>g_heap := free b (g_heap g1), openssl_lockarray := None\<rparr>))))"

definition initialize_openssl :: "nat \<Rightarrow> int ssl_io" where
  "initialize_openssl num_locks g =
    (case lock_init_mutex g of
       (r, g1) \<Rightarrow>
         if r \<noteq> 0 then (-1, g1)
         else
           (case (if do_initialize_openssl g1 then make_lockarray num_locks g1 else (True, g1)) of
              (False, g2) \<Rightarrow> (-1, unlock_init_mutex g2)
            | (True, g2) \<Rightarrow>
                (0, unlock_init_mutex (g2\<lparr>
                   callbacks_set := callbacks_set g2 \<or> do_initialize_openssl g2 \<and> open_ssl_connections g2 = 0,
                   openssl_initialized := openssl_initialized g2 \<or> do_initialize_openssl g2,
                   open_ssl_connections := open_ssl_connections g2 + 1\<rparr>))))"

definition destroy_openssl :: "int ssl_io" where
  "destroy_openssl g =
    (case lock_init_mutex g of
       (r, g1) \<Rightarrow>
         if r \<noteq> 0 then (-1, g1)
         else
           (let n = (if open_ssl_connections g1 > 0 then open_ssl_connections g1 - 1 else open_ssl_connections g1)
            in (0, unlock_init_mutex (g1\<lparr>open_ssl_connections := n,
                     callbacks_set := callbacks_set g1 \<and> \<not> (n = 0 \<and> do_initialize_openssl g1)\<rparr>))))"

definition amqp_set_initialize_ssl_library :: "bool \<Rightarrow> openssl \<Rightarrow> openssl" where
  "amqp_set_initialize_ssl_library do_initialize g =
    (if \<not> openssl_initialized g then g\<lparr>do_initialize_openssl := do_initialize\<rparr> else g)"

section \<open>Creating and deleting a socket\<close>

definition on_tls :: "'a tls_io \<Rightarrow> 'a ssl_io" where
  "on_tls f g = (case f (g_tls g) of (r, t) \<Rightarrow> (r, g\<lparr>g_tls := t\<rparr>))"

definition SSL_CTX_free :: "nat option \<Rightarrow> openssl \<Rightarrow> openssl" where
  "SSL_CTX_free ctx g = (case ctx of None \<Rightarrow> g | Some c \<Rightarrow> g\<lparr>g_ctxs := removeAll c (g_ctxs g)\<rparr>)"

definition amqp_ssl_socket_delete :: "ssl_socket \<Rightarrow> unit outcome ssl_io" where
  "amqp_ssl_socket_delete self g =
    (case on_tls (amqp_ssl_socket_close self AMQP_SC_NONE) g of
       (Inl e, g1) \<Rightarrow> (Inl e, g1)
     | (Inr (_, self1), g1) \<Rightarrow>
         (let g2 = SSL_CTX_free (ssl_ctx self1) g1
          in (Inr (), snd (destroy_openssl (g2\<lparr>g_heap := free (ssl_block self1) (g_heap g2)\<rparr>)))))"

text \<open>
  \<^verbatim>\<open>amqp_set_socket\<close> of the connection: the socket it had is deleted. What closing a TCP socket reports is ignored by \<^verbatim>\<open>amqp_tcp_socket_delete\<close>.
\<close>

definition delete_socket :: "any_socket \<Rightarrow> unit outcome ssl_io" where
  "delete_socket s g =
    (case s of
       Inl tcp \<Rightarrow>
         (let g1 = (if sockfd tcp = -1 then g else snd (on_tls (on_dial (amqp_os_socket_close (sockfd tcp))) g))
          in (Inr (), g1\<lparr>g_heap := free (sock_block tcp) (g_heap g1)\<rparr>))
     | Inr self \<Rightarrow> amqp_ssl_socket_delete self g)"

definition set_any_socket :: "any_socket \<Rightarrow> unit outcome ssl_io" where
  "set_any_socket s g =
    (case g_socket g of
       None \<Rightarrow> (Inr (), g\<lparr>g_socket := Some s\<rparr>)
     | Some old \<Rightarrow>
         (case delete_socket old g of
            (Inl e, g1) \<Rightarrow> (Inl e, g1)
          | (Inr _, g1) \<Rightarrow> (Inr (), g1\<lparr>g_socket := Some s\<rparr>)))"

definition sizeof_ssl_socket :: nat where "sizeof_ssl_socket = 48"

definition SSL_OP_NO_SSLv2 :: u64 where "SSL_OP_NO_SSLv2 = 2 ^ 24"
definition SSL_OP_NO_SSLv3 :: u64 where "SSL_OP_NO_SSLv3 = 2 ^ 25"
definition SSL_OP_NO_TLSv1 :: u64 where "SSL_OP_NO_TLSv1 = 2 ^ 26"
definition SSL_OP_NO_TLSv1_1 :: u64 where "SSL_OP_NO_TLSv1_1 = 2 ^ 28"
definition SSL_OP_NO_TLSv1_2 :: u64 where "SSL_OP_NO_TLSv1_2 = 2 ^ 27"

unbundle bit_operations_syntax

definition SSL_CTX_set_options :: "nat \<Rightarrow> u64 \<Rightarrow> openssl \<Rightarrow> openssl" where
  "SSL_CTX_set_options c opts g = g\<lparr>g_options := (g_options g)(c := g_options g c OR opts)\<rparr>"

definition SSL_CTX_clear_options :: "nat \<Rightarrow> u64 \<Rightarrow> openssl \<Rightarrow> openssl" where
  "SSL_CTX_clear_options c opts g = g\<lparr>g_options := (g_options g)(c := g_options g c AND NOT opts)\<rparr>"

definition SSL_CTX_new :: "nat option ssl_io" where
  "SSL_CTX_new g =
    (let k = t_calls (g_tls g)
     in case lib_call g of
          (r, g1) \<Rightarrow>
            if r = 0 then (None, g1) else (Some k, g1\<lparr>g_ctxs := k # g_ctxs g1, g_options := (g_options g1)(k := 0)\<rparr>))"

definition new_ssl_socket :: "nat \<Rightarrow> ssl_socket" where
  "new_ssl_socket b =
    \<lparr>ssl_block = b, ssl_ctx = None, ssl_sockfd = -1, ssl = None, verify_peer = True, verify_hostname = True,
     ssl_internal_error = 0\<rparr>"

definition amqp_ssl_socket_new :: "nat \<Rightarrow> ssl_socket option outcome ssl_io" where
  "amqp_ssl_socket_new num_locks g =
    (case malloc sizeof_ssl_socket (g_heap g) of
       (None, h) \<Rightarrow> (Inr None, g\<lparr>g_heap := h\<rparr>)
     | (Some b, h) \<Rightarrow>
         (case initialize_openssl num_locks (g\<lparr>g_heap := h\<rparr>) of
            (status, g1) \<Rightarrow>
              if status \<noteq> 0
              then map_prod (map_sum id (\<lambda>_. None)) id (amqp_ssl_socket_delete (new_ssl_socket b) g1)
              else
                (case SSL_CTX_new g1 of
                   (None, g2) \<Rightarrow>
                     map_prod (map_sum id (\<lambda>_. None)) id (amqp_ssl_socket_delete (new_ssl_socket b) g2)
                 | (Some c, g2) \<Rightarrow>
                     (let self = (new_ssl_socket b)\<lparr>ssl_ctx := Some c\<rparr>
                      in map_prod (map_sum id (\<lambda>_. Some self)) id
                           (set_any_socket (Inr self)
                              (SSL_CTX_set_options c (SSL_OP_NO_SSLv2 OR SSL_OP_NO_SSLv3) g2))))))"

section \<open>Configuring a socket\<close>

text \<open>A function that is given a socket of another class aborts the program.\<close>

definition ssl_only :: "any_socket \<Rightarrow> (ssl_socket \<Rightarrow> 'a ssl_io) \<Rightarrow> 'a outcome ssl_io" where
  "ssl_only base f g =
    (case base of Inl _ \<Rightarrow> (Inl Aborted, g) | Inr self \<Rightarrow> (case f self g of (r, g1) \<Rightarrow> (Inr r, g1)))"

text \<open>A call that has to return 1.\<close>

definition ctx_call :: "int ssl_io" where
  "ctx_call g = (case lib_call g of (r, g1) \<Rightarrow> (if r \<noteq> 1 then status_code AMQP_STATUS_SSL_ERROR else status_code AMQP_STATUS_OK, g1))"

definition amqp_ssl_socket_set_cacert :: "any_socket \<Rightarrow> int outcome ssl_io" where
  "amqp_ssl_socket_set_cacert base = ssl_only base (\<lambda>_. ctx_call)"

definition amqp_ssl_socket_set_cert :: "any_socket \<Rightarrow> int outcome ssl_io" where
  "amqp_ssl_socket_set_cert base = ssl_only base (\<lambda>_. ctx_call)"

definition amqp_ssl_socket_set_key :: "any_socket \<Rightarrow> int outcome ssl_io" where
  "amqp_ssl_socket_set_key base =
    ssl_only base
      (\<lambda>_ g. case ctx_call g of (r, g1) \<Rightarrow> if r \<noteq> status_code AMQP_STATUS_OK then (r, g1) else ctx_call g1)"

definition password_cb :: "unit outcome" where
  "password_cb = Inl Aborted"

text \<open>The labels \<^verbatim>\<open>exit\<close> and \<^verbatim>\<open>error\<close> of \<^verbatim>\<open>amqp_ssl_socket_set_key_buffer\<close>: the two objects are freed, if they are there.\<close>

definition key_buffer_exit :: "int \<Rightarrow> bool \<Rightarrow> bool \<Rightarrow> int ssl_io" where
  "key_buffer_exit status buf rsa g =
    (status, g\<lparr>g_bios := (if buf then g_bios g - 1 else g_bios g), g_rsas := (if rsa then g_rsas g - 1 else g_rsas g)\<rparr>)"

text \<open>Without a password callback: an encrypted key ends in \<^verbatim>\<open>password_cb\<close>, here \<open>encrypted\<close>.\<close>

definition amqp_ssl_socket_set_key_buffer :: "bool \<Rightarrow> any_socket \<Rightarrow> nat \<Rightarrow> int outcome ssl_io" where
  "amqp_ssl_socket_set_key_buffer encrypted base n g =
    (case base of
       Inl _ \<Rightarrow> (Inl Aborted, g)
     | Inr self \<Rightarrow>
         if n > INT_MAX then (Inr (status_code AMQP_STATUS_INVALID_PARAMETER), g)
         else
           (case ctx_call g of
              (r, g1) \<Rightarrow>
                if r \<noteq> status_code AMQP_STATUS_OK then (Inr r, g1)
                else
                  (case lib_call g1 of
                     (buf, g2) \<Rightarrow>
                       if buf = 0 then apfst Inr (key_buffer_exit (status_code AMQP_STATUS_SSL_ERROR) False False g2)
                       else
                         (case lib_call (g2\<lparr>g_bios := g_bios g2 + 1\<rparr>) of
                            (rsa, g3) \<Rightarrow>
                              if encrypted then (map_sum id (\<lambda>_. 0) password_cb, g3)
                              else if rsa = 0
                              then apfst Inr (key_buffer_exit (status_code AMQP_STATUS_SSL_ERROR) True False g3)
                              else
                                (case lib_call (g3\<lparr>g_rsas := g_rsas g3 + 1\<rparr>) of
                                   (status, g4) \<Rightarrow>
                                     apfst Inr
                                       (key_buffer_exit (if status \<noteq> 1 then status_code AMQP_STATUS_SSL_ERROR else status)
                                          True True g4))))))"

definition amqp_ssl_socket_set_verify_peer :: "bool \<Rightarrow> any_socket \<Rightarrow> any_socket outcome" where
  "amqp_ssl_socket_set_verify_peer v base =
    (case base of Inl _ \<Rightarrow> Inl Aborted | Inr self \<Rightarrow> Inr (Inr (self\<lparr>verify_peer := v\<rparr>)))"

definition amqp_ssl_socket_set_verify_hostname :: "bool \<Rightarrow> any_socket \<Rightarrow> any_socket outcome" where
  "amqp_ssl_socket_set_verify_hostname v base =
    (case base of Inl _ \<Rightarrow> Inl Aborted | Inr self \<Rightarrow> Inr (Inr (self\<lparr>verify_hostname := v\<rparr>)))"

definition amqp_ssl_socket_set_verify :: "bool \<Rightarrow> any_socket \<Rightarrow> any_socket outcome" where
  "amqp_ssl_socket_set_verify v base =
    (case amqp_ssl_socket_set_verify_peer v base of
       Inl e \<Rightarrow> Inl e
     | Inr base1 \<Rightarrow> amqp_ssl_socket_set_verify_hostname v base1)"

text \<open>The versions of the protocol, with OpenSSL's three options.\<close>

definition AMQP_TLSv1 :: int where "AMQP_TLSv1 = 1"
definition AMQP_TLSv1_1 :: int where "AMQP_TLSv1_1 = 2"
definition AMQP_TLSv1_2 :: int where "AMQP_TLSv1_2 = 3"
definition AMQP_TLSvLATEST :: int where "AMQP_TLSvLATEST = 0xFFFF"

definition latest :: "int \<Rightarrow> int" where
  "latest v = (if v = AMQP_TLSvLATEST then AMQP_TLSv1_2 else v)"

definition disabled_versions :: "int \<Rightarrow> int \<Rightarrow> u64" where
  "disabled_versions lo hi =
    (if lo > AMQP_TLSv1 then SSL_OP_NO_TLSv1 else 0)
    OR (if lo > AMQP_TLSv1_1 \<or> hi < AMQP_TLSv1_1 then SSL_OP_NO_TLSv1_1 else 0)
    OR (if hi < AMQP_TLSv1_2 then SSL_OP_NO_TLSv1_2 else 0)"

definition amqp_ssl_socket_set_ssl_versions :: "any_socket \<Rightarrow> int \<Rightarrow> int \<Rightarrow> int outcome ssl_io" where
  "amqp_ssl_socket_set_ssl_versions base vmin vmax g =
    (case base of
       Inl _ \<Rightarrow> (Inl Aborted, g)
     | Inr self \<Rightarrow>
         (let lo = latest vmin; hi = latest vmax
          in if lo > hi then (Inr (status_code AMQP_STATUS_INVALID_PARAMETER), g)
             else if hi > AMQP_TLSv1_2 \<or> lo > AMQP_TLSv1_2 then (Inr (status_code AMQP_STATUS_UNSUPPORTED), g)
             else
               (case ssl_ctx self of
                  None \<Rightarrow> (Inl Undefined_behaviour, g)
                | Some c \<Rightarrow>
                    (Inr (status_code AMQP_STATUS_OK),
                     SSL_CTX_set_options c (disabled_versions lo hi)
                       (SSL_CTX_clear_options c (SSL_OP_NO_TLSv1 OR SSL_OP_NO_TLSv1_1 OR SSL_OP_NO_TLSv1_2) g)))))"

section \<open>The mutex and the counter\<close>

lemma lib_call_keeps [simp]:
  "init_mutex_held (snd (lib_call g)) = init_mutex_held g" "open_ssl_connections (snd (lib_call g)) = open_ssl_connections g"
  "g_options (snd (lib_call g)) = g_options g" "g_bios (snd (lib_call g)) = g_bios g" "g_rsas (snd (lib_call g)) = g_rsas g"
  by (simp_all add: lib_call_def tls_call_def)

lemma lib_call_eq: "lib_call g = (t_ret (g_tls g) (t_calls (g_tls g)), snd (lib_call g))"
  by (simp add: lib_call_def tls_call_def)

lemma init_locks_keeps: "init_locks n g = (b, g') \<Longrightarrow> open_ssl_connections g' = open_ssl_connections g"
proof (induction n arbitrary: g)
  case (Suc n)
  then show ?case
    by (subst (asm) init_locks.simps, subst (asm) lib_call_eq) (fastforce split: if_splits)
qed simp

lemma make_lockarray_keeps: "make_lockarray n g = (b, g') \<Longrightarrow> open_ssl_connections g' = open_ssl_connections g"
  by (auto simp: make_lockarray_def dest: init_locks_keeps split: if_splits option.splits prod.splits bool.splits)

lemma lock_init_mutex_keeps: "lock_init_mutex g = (r, g') \<Longrightarrow> open_ssl_connections g' = open_ssl_connections g
    \<and> (r \<noteq> 0 \<longrightarrow> init_mutex_held g' = init_mutex_held g)"
  by (subst (asm) lock_init_mutex_def, subst (asm) lib_call_eq) (auto split: if_splits)

lemma unlock_init_mutex_keeps [simp]:
  "init_mutex_held (unlock_init_mutex g) = False" "open_ssl_connections (unlock_init_mutex g) = open_ssl_connections g"
  by (simp_all add: unlock_init_mutex_def)

text \<open>Both functions give the mutex back on every path, and count exactly the calls that succeed.\<close>

lemma initialize_counts:
  assumes "initialize_openssl n g = (r, g')" "\<not> init_mutex_held g"
  shows "\<not> init_mutex_held g' \<and> r \<in> {0, -1}
    \<and> open_ssl_connections g' = open_ssl_connections g + (if r = 0 then 1 else 0)"
proof -
  obtain m g1 where m: "lock_init_mutex g = (m, g1)" by fastforce
  note k = lock_init_mutex_keeps [OF m]
  obtain b g2 where l: "(if do_initialize_openssl g1 then make_lockarray n g1 else (True, g1)) = (b, g2)" by fastforce
  then have "open_ssl_connections g2 = open_ssl_connections g1" by (auto dest: make_lockarray_keeps split: if_splits)
  with assms k m l show ?thesis by (cases b) (auto simp: initialize_openssl_def split: if_splits)
qed

lemma destroy_counts:
  assumes "destroy_openssl g = (r, g')" "\<not> init_mutex_held g"
  shows "\<not> init_mutex_held g' \<and> r \<in> {0, -1} \<and> open_ssl_connections g' =
    (if r = 0 \<and> open_ssl_connections g > 0 then open_ssl_connections g - 1 else open_ssl_connections g)"
proof -
  obtain m g1 where m: "lock_init_mutex g = (m, g1)" by fastforce
  with assms lock_init_mutex_keeps [OF m] show ?thesis by (auto simp: destroy_openssl_def Let_def split: if_splits)
qed

text \<open>
  A socket whose library could not be set up is deleted like any other, so that it lowers the count it
  never raised: the connections of other sockets are forgotten.
\<close>

lemma failed_new_forgets:
  assumes "malloc sizeof_ssl_socket (g_heap g) = (Some b, h)" "\<not> init_mutex_held g"
    and "initialize_openssl n (g\<lparr>g_heap := h\<rparr>) = (r, g1)" "r \<noteq> 0"
    and "fst (destroy_openssl (g1\<lparr>g_heap := free b (g_heap g1)\<rparr>)) = 0" "open_ssl_connections g > 0"
  shows "\<exists>g'. amqp_ssl_socket_new n g = (Inr None, g') \<and> open_ssl_connections g' = open_ssl_connections g - 1"
proof -
  have g1: "\<not> init_mutex_held g1" "open_ssl_connections g1 = open_ssl_connections g"
    using initialize_counts [OF assms(3)] assms(2,4) by auto
  obtain g2 where d: "destroy_openssl (g1\<lparr>g_heap := free b (g_heap g1)\<rparr>) = (0, g2)"
    using assms(5) by (metis prod.collapse)
  from destroy_counts [OF this] g1 assms(6) have g2: "open_ssl_connections g2 = open_ssl_connections g - 1" by simp
  have "amqp_ssl_socket_delete (new_ssl_socket b) g1 = (Inr (), g2)"
    using d by (simp add: amqp_ssl_socket_delete_def on_tls_def amqp_ssl_socket_close_def new_ssl_socket_def SSL_CTX_free_def Let_def)
  with assms(1,3,4) g2 show ?thesis by (auto simp: amqp_ssl_socket_new_def)
qed

section \<open>Configuring\<close>

text \<open>Success is reported as 1, which is no status: \<^verbatim>\<open>AMQP_STATUS_OK\<close> is 0. The objects are freed on every path.\<close>

lemma set_key_buffer_result:
  assumes "amqp_ssl_socket_set_key_buffer encrypted (Inr self) n g = (Inr r, g')"
  shows "(r = 1 \<or> r = status_code AMQP_STATUS_SSL_ERROR \<or> r = status_code AMQP_STATUS_INVALID_PARAMETER)
    \<and> g_bios g' = g_bios g \<and> g_rsas g' = g_rsas g"
proof -
  have k: "ctx_call g = (if t_ret (g_tls g) (t_calls (g_tls g)) \<noteq> 1 then status_code AMQP_STATUS_SSL_ERROR
      else status_code AMQP_STATUS_OK, snd (lib_call g))" for g
    by (subst ctx_call_def, subst lib_call_eq) simp
  have c: "(case lib_call g of (x, y) \<Rightarrow> f x y) = f (t_ret (g_tls g) (t_calls (g_tls g))) (snd (lib_call g))"
    for g and f :: "int \<Rightarrow> openssl \<Rightarrow> int outcome \<times> openssl"
    by (subst lib_call_eq) simp
  show ?thesis
    using assms unfolding amqp_ssl_socket_set_key_buffer_def k
    by (auto simp: c key_buffer_exit_def password_cb_def split: if_splits)
qed

text \<open>A new socket verifies its peer and does not speak SSL 2 or 3.\<close>

lemma destroy_keeps_options: "destroy_openssl g = (r, g') \<Longrightarrow> g_options g' = g_options g"
  by (subst (asm) destroy_openssl_def, subst (asm) lock_init_mutex_def, subst (asm) lib_call_eq)
    (auto simp: unlock_init_mutex_def Let_def split: if_splits)

lemma delete_keeps_options: "delete_socket s g = (r, g') \<Longrightarrow> g_options g' = g_options g"
  by (auto simp: delete_socket_def amqp_ssl_socket_delete_def on_tls_def SSL_CTX_free_def Let_def destroy_keeps_options [OF surjective_pairing]
      split: sum.splits prod.splits option.splits if_splits)

lemma set_any_socket_keeps: "set_any_socket s g = (r, g') \<Longrightarrow> g_options g' = g_options g"
  by (auto simp: set_any_socket_def split: option.splits prod.splits sum.splits dest: delete_keeps_options)

lemma no_socket [simp]: "map_sum id (\<lambda>_. None) x \<noteq> Inr (Some y)"
  by (cases x) auto

lemma new_socket_secure:
  assumes "amqp_ssl_socket_new n g = (Inr (Some self), g')"
  shows "verify_peer self \<and> verify_hostname self
    \<and> (\<exists>c. ssl_ctx self = Some c \<and> g_options g' c = SSL_OP_NO_SSLv2 OR SSL_OP_NO_SSLv3)"
proof -
  obtain b h where b: "malloc sizeof_ssl_socket (g_heap g) = (Some b, h)"
    using assms by (cases "malloc sizeof_ssl_socket (g_heap g)"; cases "fst (malloc sizeof_ssl_socket (g_heap g))")
      (auto simp: amqp_ssl_socket_new_def)
  obtain r g1 where i: "initialize_openssl n (g\<lparr>g_heap := h\<rparr>) = (r, g1)" by fastforce
  have r: "r = 0"
    using assms b i by (auto simp: amqp_ssl_socket_new_def map_prod_def split: prod.splits if_splits)
  obtain x g2 where c: "SSL_CTX_new g1 = (x, g2)" by fastforce
  have "x \<noteq> None"
    using assms b i r c by (cases x) (auto simp: amqp_ssl_socket_new_def map_prod_def split: prod.splits)
  then obtain c where x: "x = Some c" by auto
  have c2: "g_options g2 c = 0"
    using \<open>SSL_CTX_new g1 = (x, g2)\<close> x by (subst (asm) SSL_CTX_new_def, subst (asm) lib_call_eq) (auto simp: Let_def split: if_splits)
  let ?self = "(new_ssl_socket b)\<lparr>ssl_ctx := Some c\<rparr>" and ?g = "SSL_CTX_set_options c (SSL_OP_NO_SSLv2 OR SSL_OP_NO_SSLv3) g2"
  obtain y g3 where s: "set_any_socket (Inr ?self) ?g = (y, g3)" by fastforce
  have "self = ?self" "g' = g3"
    using assms b i r \<open>SSL_CTX_new g1 = (x, g2)\<close> x s
    by (auto simp: amqp_ssl_socket_new_def Let_def map_sum_def split: sum.splits)
  with set_any_socket_keeps [OF s] c2 show ?thesis by (simp add: new_ssl_socket_def SSL_CTX_set_options_def)
qed

text \<open>The options for the versions, bit by bit.\<close>

lemmas version_defs = AMQP_TLSv1_def AMQP_TLSv1_1_def AMQP_TLSv1_2_def AMQP_TLSvLATEST_def

lemma option_bits:
  "bit SSL_OP_NO_TLSv1 n \<longleftrightarrow> n = 26" "bit SSL_OP_NO_TLSv1_1 n \<longleftrightarrow> n = 28" "bit SSL_OP_NO_TLSv1_2 n \<longleftrightarrow> n = 27"
  unfolding SSL_OP_NO_TLSv1_def SSL_OP_NO_TLSv1_1_def SSL_OP_NO_TLSv1_2_def
  by (simp_all only: bit_exp_iff possible_bit_word) auto

lemma disabled_bit:
  "bit (disabled_versions lo hi) n \<longleftrightarrow>
    n = 26 \<and> 1 < lo \<or> n = 28 \<and> (2 < lo \<or> hi < 2) \<or> n = 27 \<and> hi < 3"
  by (auto simp: disabled_versions_def version_defs bit_simps option_bits)

lemma version_options_bit:
  "bit (opts AND NOT (SSL_OP_NO_TLSv1 OR SSL_OP_NO_TLSv1_1 OR SSL_OP_NO_TLSv1_2) OR disabled_versions lo hi) n \<longleftrightarrow>
    (if n \<in> {26, 27, 28} then bit (disabled_versions lo hi) n else bit opts n)"
proof (cases "n < 64")
  case True
  then show ?thesis by (auto simp: bit_simps option_bits disabled_bit)
next
  case False
  then show ?thesis by (auto simp: disabled_bit dest: bit_imp_le_length)
qed

text \<open>
  Restricting the versions of the protocol is exact. For versions of the enumeration,
  where \<^verbatim>\<open>AMQP_TLSvLATEST\<close> stands for TLS 1.2, \<^verbatim>\<open>amqp_ssl_socket_set_ssl_versions\<close> returns \<^verbatim>\<open>AMQP_STATUS_INVALID_PARAMETER\<close> when the
  least is above the greatest; otherwise it returns \<^verbatim>\<open>AMQP_STATUS_OK\<close>, and a version is switched off
  in the context exactly when it lies outside of the two, whatever was set before; the other options stay.
\<close>

theorem ssl_versions_exact:
  assumes "ssl_ctx self = Some c" "vmin \<in> {AMQP_TLSv1, AMQP_TLSv1_1, AMQP_TLSv1_2, AMQP_TLSvLATEST}"
    "vmax \<in> {AMQP_TLSv1, AMQP_TLSv1_1, AMQP_TLSv1_2, AMQP_TLSvLATEST}"
    and "amqp_ssl_socket_set_ssl_versions (Inr self) vmin vmax g = (r, g')"
  shows "if latest vmax < latest vmin then r = Inr (status_code AMQP_STATUS_INVALID_PARAMETER) \<and> g' = g
    else r = Inr (status_code AMQP_STATUS_OK)
      \<and> (g_options g' c AND SSL_OP_NO_TLSv1 = 0 \<longleftrightarrow> latest vmin \<le> AMQP_TLSv1 \<and> AMQP_TLSv1 \<le> latest vmax)
      \<and> (g_options g' c AND SSL_OP_NO_TLSv1_1 = 0 \<longleftrightarrow> latest vmin \<le> AMQP_TLSv1_1 \<and> AMQP_TLSv1_1 \<le> latest vmax)
      \<and> (g_options g' c AND SSL_OP_NO_TLSv1_2 = 0 \<longleftrightarrow> latest vmin \<le> AMQP_TLSv1_2 \<and> AMQP_TLSv1_2 \<le> latest vmax)
      \<and> g_options g' c AND NOT (SSL_OP_NO_TLSv1 OR SSL_OP_NO_TLSv1_1 OR SSL_OP_NO_TLSv1_2)
        = g_options g c AND NOT (SSL_OP_NO_TLSv1 OR SSL_OP_NO_TLSv1_1 OR SSL_OP_NO_TLSv1_2)"
proof (cases "latest vmax < latest vmin")
  case True
  with assms(4) show ?thesis by (auto simp: amqp_ssl_socket_set_ssl_versions_def Let_def)
next
  case False
  have range: "latest vmin \<in> {1, 2, 3}" "latest vmax \<in> {1, 2, 3}"
    using assms(2,3) by (auto simp: latest_def version_defs)
  have r: "r = Inr (status_code AMQP_STATUS_OK)"
    and o: "g_options g' c = g_options g c AND NOT (SSL_OP_NO_TLSv1 OR SSL_OP_NO_TLSv1_1 OR SSL_OP_NO_TLSv1_2)
        OR disabled_versions (latest vmin) (latest vmax)"
    using False assms(1,4) range
    by (auto simp: amqp_ssl_socket_set_ssl_versions_def Let_def AMQP_TLSv1_2_def SSL_CTX_set_options_def SSL_CTX_clear_options_def)
  have v: "g_options g' c AND 2 ^ n = 0 \<longleftrightarrow> \<not> bit (disabled_versions (latest vmin) (latest vmax)) n" if "n \<in> {26, 27, 28}" for n
    unfolding o and_exp_eq_0_iff_not_bit version_options_bit using that by simp
  have "g_options g' c AND NOT (SSL_OP_NO_TLSv1 OR SSL_OP_NO_TLSv1_1 OR SSL_OP_NO_TLSv1_2)
        = g_options g c AND NOT (SSL_OP_NO_TLSv1 OR SSL_OP_NO_TLSv1_1 OR SSL_OP_NO_TLSv1_2)"
  proof (rule bit_word_eqI)
    fix n :: nat
    assume "n < LENGTH(64)"
    then show "bit (g_options g' c AND NOT (SSL_OP_NO_TLSv1 OR SSL_OP_NO_TLSv1_1 OR SSL_OP_NO_TLSv1_2)) n
      = bit (g_options g c AND NOT (SSL_OP_NO_TLSv1 OR SSL_OP_NO_TLSv1_1 OR SSL_OP_NO_TLSv1_2)) n"
      by (cases "n \<in> {26, 27, 28}") (simp_all only: o bit_and_iff version_options_bit, auto simp: bit_simps option_bits)
  qed
  moreover have "g_options g' c AND SSL_OP_NO_TLSv1 = 0 \<longleftrightarrow> latest vmin \<le> AMQP_TLSv1 \<and> AMQP_TLSv1 \<le> latest vmax"
    using v [of 26] range by (auto simp: SSL_OP_NO_TLSv1_def AMQP_TLSv1_def disabled_bit)
  moreover have "g_options g' c AND SSL_OP_NO_TLSv1_1 = 0 \<longleftrightarrow> latest vmin \<le> AMQP_TLSv1_1 \<and> AMQP_TLSv1_1 \<le> latest vmax"
    using v [of 28] by (auto simp: SSL_OP_NO_TLSv1_1_def AMQP_TLSv1_1_def disabled_bit)
  moreover have "g_options g' c AND SSL_OP_NO_TLSv1_2 = 0 \<longleftrightarrow> latest vmin \<le> AMQP_TLSv1_2 \<and> AMQP_TLSv1_2 \<le> latest vmax"
    using v [of 27] range by (auto simp: SSL_OP_NO_TLSv1_2_def AMQP_TLSv1_2_def disabled_bit)
  ultimately show ?thesis using False r by simp
qed

definition sample_library :: openssl where
  "sample_library =
    \<lparr>g_tls = trusting_library, g_heap = \<lparr>h_grants = \<lambda>_ _. True, h_count = 0, h_live = [], h_size = \<lambda>_. 0, h_stray = []\<rparr>, g_ctxs = [1],
     g_options = \<lambda>_. 0, g_bios = 0, g_rsas = 0, g_socket = None, open_ssl_connections = 0, do_initialize_openssl = True,
     openssl_initialized = False, openssl_lockarray = None, init_mutex_held = False, callbacks_set = False\<rparr>"

theorem ssl_versions_exact_witness:
  "\<exists>g'. amqp_ssl_socket_set_ssl_versions (Inr (fresh_ssl_socket 0 1)) AMQP_TLSv1_1 AMQP_TLSvLATEST sample_library
       = (Inr (status_code AMQP_STATUS_OK), g')
     \<and> g_options g' 1 AND SSL_OP_NO_TLSv1 \<noteq> 0 \<and> g_options g' 1 AND SSL_OP_NO_TLSv1_1 = 0 \<and> g_options g' 1 AND SSL_OP_NO_TLSv1_2 = 0"
proof -
  obtain r g' where g: "amqp_ssl_socket_set_ssl_versions (Inr (fresh_ssl_socket 0 1)) AMQP_TLSv1_1 AMQP_TLSvLATEST sample_library
      = (r, g')" by fastforce
  have "ssl_ctx (fresh_ssl_socket 0 1) = Some 1" by (simp add: fresh_ssl_socket_def)
  from ssl_versions_exact [OF this _ _ g] show ?thesis
    unfolding g by (simp add: latest_def version_defs)
qed

end
