(* ===== verification/Tools_Common.thy ===== *)
theory Tools_Common
  imports Amqp_Messages Amqp_Destroy Amqp_Dial
begin

text \<open>
  What the command line tools share (\<^verbatim>\<open>tools/common.c\<close>): the connection options, connecting and
  disconnecting, reading all of the input, writing, and copying the body of a message to a descriptor.

  A tool is a computation over the process, \<open>tool\<close>, which has the connection and what the process reads and
  writes; it may end early with \<^verbatim>\<open>exit\<close>. What the system calls return is an input of the model, as in
  \<open>Amqp_World\<close>. The tools do not look at what \<^verbatim>\<open>malloc\<close>, \<^verbatim>\<open>realloc\<close> and \<^verbatim>\<open>strdup\<close> return; runs in which these
  are refused are not modelled, and the messages on standard error are not either, except for the text
  of a reply.
\<close>

section \<open>The process\<close>

text \<open>
  \<open>Over_tls\<close> is the end of the model, not of the program: from there on the connection is one over TLS.
\<close>

datatype tool_end = Exit nat | Fault fault | Over_tls

text \<open>A call of \<^verbatim>\<open>read\<close> that succeeds gets up to \<open>Suc k\<close> bytes, if there are any.\<close>

datatype sys_read = Reads nat | Read_errno errno

record tool =
  t_conn :: amqp_state
  t_input :: amqp_bytes
  t_reads :: "sys_read list"
  t_writes :: "sys_send list"
  t_output :: "(int \<times> amqp_bytes) list"
  t_dial :: dial
  t_codes :: "int list"
  t_open :: "int list"

text \<open>A computation over a process in the state \<open>'s\<close>; a \<open>run\<close> is one of a tool.\<close>

type_synonym ('s, 'a) process = "'s \<Rightarrow> (tool_end + 'a) \<times> 's"

type_synonym 'a run = "(tool, 'a) process"

definition t_return :: "'a \<Rightarrow> ('s, 'a) process" where
  "t_return v t = (Inr v, t)"

definition t_bind :: "('s, 'a) process \<Rightarrow> ('a \<Rightarrow> ('s, 'b) process) \<Rightarrow> ('s, 'b) process" where
  "t_bind m f t = (case m t of (Inl e, t') \<Rightarrow> (Inl e, t') | (Inr v, t') \<Rightarrow> f v t')"

text \<open>A call of the library.\<close>

definition on_conn :: "'a io \<Rightarrow> 'a run" where
  "on_conn m t =
    (case m (t_conn t) of
       (Inl e, st) \<Rightarrow> (Inl (Fault e), t\<lparr>t_conn := st\<rparr>)
     | (Inr v, st) \<Rightarrow> (Inr v, t\<lparr>t_conn := st\<rparr>))"

section \<open>Dying\<close>

definition die :: "('s, 'a) process" where
  "die t = (Inl (Exit 1), t)"

definition die_errno :: "int \<Rightarrow> unit run" where
  "die_errno err = (if err = 0 then t_return () else die)"

definition die_amqp_error :: "int \<Rightarrow> unit run" where
  "die_amqp_error err = (if err \<ge> 0 then t_return () else die)"

text \<open>\<^verbatim>\<open>snprintf\<close> into the 512 bytes of \<^verbatim>\<open>s\<close>; \<^verbatim>\<open>%.*s\<close> stops at a zero byte, \<^verbatim>\<open>%08X\<close> has eight digits.\<close>

definition snprintf_512 :: "amqp_bytes \<Rightarrow> amqp_bytes" where
  "snprintf_512 text = take 511 text"

fun hex_text :: "nat \<Rightarrow> nat \<Rightarrow> amqp_bytes" where
  "hex_text 0 n = []"
| "hex_text (Suc k) n = hex_text k (n div 16) @ [hex_char (n mod 16)]"

definition amqp_server_exception_string :: "amqp_rpc_reply \<Rightarrow> amqp_bytes outcome" where
  "amqp_server_exception_string r =
    (case reply r of
       None \<Rightarrow> Inr (snprintf_512 (ascii ''unknown server error, method id 0x'' @ hex_text 8 0))
     | Some (mid, decoded) \<Rightarrow>
         if mid = AMQP_CONNECTION_CLOSE_METHOD then
           (case decoded of
              M_Connection (Connection_close reply_code reply_text _ _) \<Rightarrow>
                Inr (snprintf_512 (ascii ''server connection error '' @ dec_text (unat reply_code) @ ascii '', message: ''
                  @ amqp_cstring_bytes reply_text))
            | _ \<Rightarrow> Inl Undefined_behaviour)
         else if mid = AMQP_CHANNEL_CLOSE_METHOD then
           (case decoded of
              M_Channel (Channel_close reply_code reply_text _ _) \<Rightarrow>
                Inr (snprintf_512 (ascii ''server channel error '' @ dec_text (unat reply_code) @ ascii '', message: ''
                  @ amqp_cstring_bytes reply_text))
            | _ \<Rightarrow> Inl Undefined_behaviour)
         else Inr (snprintf_512 (ascii ''unknown server error, method id 0x'' @ hex_text 8 (unat mid))))"

definition amqp_rpc_reply_string :: "amqp_rpc_reply \<Rightarrow> amqp_bytes outcome" where
  "amqp_rpc_reply_string r =
    (case reply_type r of
       AMQP_RESPONSE_NORMAL \<Rightarrow> Inr (ascii ''normal response'')
     | AMQP_RESPONSE_NONE \<Rightarrow> Inr (ascii ''missing RPC reply type'')
     | AMQP_RESPONSE_LIBRARY_EXCEPTION \<Rightarrow> Inr (ascii (amqp_error_string2 (library_error r)))
     | AMQP_RESPONSE_SERVER_EXCEPTION \<Rightarrow> amqp_server_exception_string r)"

definition die_rpc :: "amqp_rpc_reply \<Rightarrow> unit run" where
  "die_rpc r =
    (if reply_type r = AMQP_RESPONSE_NORMAL then t_return ()
     else (case amqp_rpc_reply_string r of Inl e \<Rightarrow> (\<lambda>t. (Inl (Fault e), t)) | Inr _ \<Rightarrow> die))"

section \<open>The connection options\<close>

text \<open>The variables that \<^verbatim>\<open>connect_options\<close> sets; the files of the TLS options are not among them.\<close>

record connect_options =
  amqp_url :: "amqp_bytes option"
  amqp_server :: "amqp_bytes option"
  amqp_port :: int
  amqp_vhost :: "amqp_bytes option"
  amqp_username :: "amqp_bytes option"
  amqp_password :: "amqp_bytes option"
  amqp_heartbeat :: int
  amqp_ssl :: bool

definition no_options :: connect_options where
  "no_options =
    \<lparr>amqp_url = None, amqp_server = None, amqp_port = -1, amqp_vhost = None, amqp_username = None,
     amqp_password = None, amqp_heartbeat = 0, amqp_ssl = False\<rparr>"

text \<open>The parts of \<^verbatim>\<open>init_connection_info\<close>; \<open>None\<close> is the end in \<^verbatim>\<open>die\<close>.\<close>

definition info_from_url :: "connect_options \<Rightarrow> amqp_connection_info option" where
  "info_from_url opts =
    (case amqp_url opts of
       None \<Rightarrow> Some amqp_default_connection_info
     | Some url \<Rightarrow> (case amqp_parse_url url of Inl _ \<Rightarrow> None | Inr ci \<Rightarrow> Some ci))"

text \<open>\<^verbatim>\<open>strtol\<close> returns a \<^verbatim>\<open>long\<close>, which is assigned to the \<^verbatim>\<open>int\<close> \<^verbatim>\<open>ci->port\<close>.\<close>

definition to_int :: "int \<Rightarrow> int" where
  "to_int n = sint (word_of_int n :: 32 word)"

definition server_port :: "amqp_bytes \<Rightarrow> int option" where
  "server_port text =
    (case strtol text of
       None \<Rightarrow> None
     | Some (n, port_end) \<Rightarrow>
         if to_int n < 0 \<or> to_int n > 65535 \<or> port_end \<noteq> [] then None else Some (to_int n))"

definition info_from_server :: "bool \<Rightarrow> connect_options \<Rightarrow> amqp_connection_info \<Rightarrow> amqp_connection_info option" where
  "info_from_server with_ssl opts ci =
    (case amqp_server opts of
       None \<Rightarrow> Some ci
     | Some server \<Rightarrow>
         if amqp_url opts \<noteq> None then None
         else
           (case (case dropWhile (\<lambda>c. c \<noteq> 0x3A) server of
                    [] \<Rightarrow> Some ci
                  | _ # rest \<Rightarrow>
                      if amqp_port opts \<ge> 0 then None
                      else map_option (\<lambda>p. ci\<lparr>host := takeWhile (\<lambda>c. c \<noteq> 0x3A) server, port := p\<rparr>) (server_port rest)) of
              None \<Rightarrow> None
            | Some ci' \<Rightarrow> if with_ssl \<and> amqp_ssl opts \<and> \<not> ssl ci' then None else Some ci'))"

text \<open>An option that the URL excludes: its value is set, or the tool dies.\<close>

definition info_option ::
    "connect_options \<Rightarrow> bool \<Rightarrow> (amqp_connection_info \<Rightarrow> amqp_connection_info) \<Rightarrow> amqp_connection_info \<Rightarrow> amqp_connection_info option" where
  "info_option opts given set_field ci =
    (if given then if amqp_url opts \<noteq> None then None else Some (set_field ci) else Some ci)"

definition init_connection_info :: "bool \<Rightarrow> connect_options \<Rightarrow> amqp_connection_info run" where
  "init_connection_info with_ssl opts =
    (case Option.bind (info_from_url opts) (\<lambda>ci.
          Option.bind (info_from_server with_ssl opts ci) (\<lambda>ci.
          Option.bind (info_option opts (amqp_port opts \<ge> 0) (port_update (\<lambda>_. amqp_port opts)) ci) (\<lambda>ci.
          Option.bind (info_option opts (amqp_username opts \<noteq> None) (user_update (\<lambda>_. the (amqp_username opts))) ci) (\<lambda>ci.
          Option.bind (info_option opts (amqp_password opts \<noteq> None) (password_update (\<lambda>_. the (amqp_password opts))) ci) (\<lambda>ci.
          Option.bind (info_option opts (amqp_vhost opts \<noteq> None) (vhost_update (\<lambda>_. the (amqp_vhost opts))) ci) (\<lambda>ci.
          if amqp_heartbeat opts < 0 then None else Some ci)))))) of
       None \<Rightarrow> die
     | Some ci \<Rightarrow> t_return ci)"

section \<open>Connecting and disconnecting\<close>

text \<open>The socket the connection points to is opened in place.\<close>

definition open_connection_socket :: "resolver \<Rightarrow> tcp_socket \<Rightarrow> amqp_connection_info \<Rightarrow> int run" where
  "open_connection_socket getaddrinfo sock ci t =
    (case amqp_socket_open getaddrinfo sock (host ci) (port ci) (t_dial t) of
       (Inl e, d) \<Rightarrow> (Inl (Fault e), t\<lparr>t_dial := d\<rparr>)
     | (Inr (status, sock'), d) \<Rightarrow> (Inr status, t\<lparr>t_dial := d, t_conn := (t_conn t)\<lparr>socket := Some sock'\<rparr>\<rparr>))"

definition login_and_open :: "amqp_bytes \<Rightarrow> int \<Rightarrow> amqp_connection_info \<Rightarrow> unit run" where
  "login_and_open platform hb ci =
    t_bind (on_conn (amqp_login platform (vhost ci) 0 131072 hb AMQP_SASL_METHOD_PLAIN [user ci, password ci])) (\<lambda>r.
    t_bind (die_rpc r) (\<lambda>_.
    t_bind (on_conn (amqp_channel_open 1)) (\<lambda>ok.
      if ok = None then (\<lambda>t. die_rpc (amqp_get_rpc_reply (t_conn t)) t) else t_return ())))"

text \<open>
  The world \<open>w\<close>, the heap and the stale memory are those the connection starts with. A connection that could not
  be created is passed on as \<^verbatim>\<open>NULL\<close>.
\<close>

definition make_connection ::
    "bool \<Rightarrow> connect_options \<Rightarrow> amqp_bytes \<Rightarrow> resolver \<Rightarrow> amqp_bytes \<Rightarrow> world \<Rightarrow> heap \<Rightarrow> unit run" where
  "make_connection with_ssl opts platform getaddrinfo stale w h =
    t_bind (init_connection_info with_ssl opts) (\<lambda>ci.
      case amqp_new_connection stale w h of
        (None, _) \<Rightarrow> (\<lambda>t. (Inl (Fault Undefined_behaviour), t))
      | (Some st, _) \<Rightarrow>
          if ssl ci then (if with_ssl then (\<lambda>t. (Inl Over_tls, t\<lparr>t_conn := st\<rparr>)) else die)
          else
            (case amqp_tcp_socket_new st of
               (None, st1) \<Rightarrow> (\<lambda>t. die (t\<lparr>t_conn := st1\<rparr>))
             | (Some sock, st1) \<Rightarrow>
                 (\<lambda>t. t_bind (open_connection_socket getaddrinfo sock ci)
                        (\<lambda>status. if status \<noteq> 0 then die else login_and_open platform (amqp_heartbeat opts) ci)
                        (t\<lparr>t_conn := st1\<rparr>))))"

definition AMQP_REPLY_SUCCESS :: int where "AMQP_REPLY_SUCCESS = 200"

definition close_connection :: "unit run" where
  "close_connection =
    t_bind (on_conn (amqp_channel_close 1 AMQP_REPLY_SUCCESS)) (\<lambda>r.
    t_bind (die_rpc r) (\<lambda>_.
    t_bind (on_conn (amqp_connection_close AMQP_REPLY_SUCCESS)) (\<lambda>r.
    t_bind (die_rpc r) (\<lambda>_.
    t_bind (on_conn amqp_destroy_connection) die_amqp_error))))"

section \<open>Reading and writing\<close>

text \<open>
  The loop of \<^verbatim>\<open>read_all\<close>: \<open>space\<close> is the size of the buffer, \<open>acc\<close> what is in it. The callers read
  standard input.
\<close>

fun read_loop :: "sys_read list \<Rightarrow> amqp_bytes \<Rightarrow> nat \<Rightarrow> amqp_bytes \<Rightarrow> (tool_end + amqp_bytes) \<times> sys_read list \<times> amqp_bytes" where
  "read_loop [] input space acc = (Inl (Fault Blocked), [], input)"
| "read_loop (Reads k # rs) input space acc =
    (let got = take (min (Suc k) (space - length acc)) input
     in if got = [] then (Inr acc, rs, input)
        else read_loop rs (drop (length got) input)
               (if length (acc @ got) = space then 2 * space else space) (acc @ got))"
| "read_loop (Read_errno EINTR # rs) input space acc = read_loop rs input space acc"
| "read_loop (Read_errno _ # rs) input space acc = (Inl (Exit 1), rs, input)"

definition read_all :: "amqp_bytes run" where
  "read_all t =
    (case read_loop (t_reads t) (t_input t) 4096 [] of
       (r, rs, input) \<Rightarrow> (r, t\<lparr>t_reads := rs, t_input := input\<rparr>))"

text \<open>An interrupted \<^verbatim>\<open>write\<close> is not repeated.\<close>

fun write_loop :: "sys_send list \<Rightarrow> amqp_bytes \<Rightarrow> (tool_end + unit) \<times> sys_send list \<times> amqp_bytes" where
  "write_loop [] data = (if data = [] then (Inr (), [], []) else (Inl (Fault Blocked), [], []))"
| "write_loop (r # rs) data =
    (if data = [] then (Inr (), r # rs, [])
     else
       (case r of
          Accepted n \<Rightarrow>
            (case write_loop rs (drop n data) of (res, rs', out) \<Rightarrow> (res, rs', take n data @ out))
        | Send_errno _ \<Rightarrow> (Inl (Exit 1), rs, [])))"

definition write_all_fd :: "int \<Rightarrow> amqp_bytes \<Rightarrow> unit run" where
  "write_all_fd fildes data t =
    (case write_loop (t_writes t) data of
       (r, rs, out) \<Rightarrow> (r, t\<lparr>t_writes := rs, t_output := t_output t @ [(fildes, out)]\<rparr>))"

definition cstring_bytes :: "amqp_bytes option \<Rightarrow> amqp_bytes" where
  "cstring_bytes str = (case str of None \<Rightarrow> [] | Some s \<Rightarrow> amqp_cstring_bytes s)"

section \<open>Copying a body\<close>

text \<open>A frame was taken from the queue or from what arrives.\<close>

definition frame_taken :: "amqp_state \<Rightarrow> amqp_state \<Rightarrow> bool" where
  "frame_taken st st' \<longleftrightarrow> advances st st'
     \<or> length (queued_frames st') < length (queued_frames st)
       \<and> calls_left (os st') = calls_left (os st) \<and> bytes_left st' = bytes_left st"

text \<open>The loop over the body frames; \<open>remaining\<close> is a \<^verbatim>\<open>size_t\<close>.\<close>

function copy_rest :: "int \<Rightarrow> nat \<Rightarrow> unit run" where
  "copy_rest fildes remaining t =
    (if remaining = 0 then (Inr (), t)
     else
       (case on_conn amqp_simple_wait_frame t of
          (Inl e, t1) \<Rightarrow> (Inl e, t1)
        | (Inr (res, frame), t1) \<Rightarrow>
            if res < 0 then die t1
            else if frame_type frame \<noteq> FRAME_BODY then die t1
            else
              (case frame_payload frame of
                 Body_payload fragment \<Rightarrow>
                   (case write_all_fd fildes fragment t1 of
                      (Inl e, t2) \<Rightarrow> (Inl e, t2)
                    | (Inr _, t2) \<Rightarrow>
                        if frame_taken (t_conn t) (t_conn t2)
                        then copy_rest fildes (sz_sub remaining (length fragment)) t2
                        else (Inl (Fault Out_of_fuel), t2))
               | _ \<Rightarrow> (Inl (Fault Undefined_behaviour), t1))))"
  by pat_completeness auto
termination
  by (relation "inv_image (less_than <*lex*> less_than <*lex*> less_than)
      (\<lambda>(fildes, n, t). (calls_left (os (t_conn t)), bytes_left (t_conn t), length (queued_frames (t_conn t))))")
    (auto simp: frame_taken_def advances_def)

declare copy_rest.simps [simp del]

definition copy_body :: "int \<Rightarrow> unit run" where
  "copy_body fildes =
    t_bind (on_conn amqp_simple_wait_frame) (\<lambda>(res, frame).
      t_bind (die_amqp_error res) (\<lambda>_.
        if frame_type frame \<noteq> FRAME_HEADER then die
        else
          (case frame_payload frame of
             Properties_payload _ body_size _ _ \<Rightarrow> copy_rest fildes (unat body_size)
           | _ \<Rightarrow> (\<lambda>t. (Inl (Fault Undefined_behaviour), t)))))"

text \<open>A process with a connection and nothing else to do.\<close>

definition idle_tool :: "amqp_state \<Rightarrow> tool" where
  "idle_tool st = \<lparr>t_conn = st, t_input = [], t_reads = [], t_writes = [], t_output = [],
     t_dial = \<lparr>d_fails = \<lambda>_. None, d_so_error = \<lambda>_. 0, d_calls = 0, d_open = [], d_world = os st\<rparr>, t_codes = [], t_open = [0, 1, 2]\<rparr>"

section \<open>Reading and writing: lemmas\<close>

lemma read_loop_step:
  assumes "n = min (Suc k) (space - length acc)" "take n input \<noteq> []"
  shows "read_loop (Reads k # rs) input space acc
    = read_loop rs (drop n input) (if length (acc @ take n input) = space then 2 * space else space) (acc @ take n input)"
proof -
  have "drop (length (take n input)) input = drop n input" by (cases "n \<le> length input") auto
  with assms show ?thesis by (simp only: read_loop.simps Let_def if_False)
qed

lemma read_loop_returns:
  assumes "list_all (\<lambda>r. r = Read_errno EINTR \<or> (\<exists>k. r = Reads k)) rs"
    and "length input < length (filter (\<lambda>r. r \<noteq> Read_errno EINTR) rs)" "length acc < space"
  shows "\<exists>rs'. read_loop rs input space acc = (Inr (acc @ input), rs', [])"
  using assms
proof (induction rs arbitrary: input space acc)
  case (Cons r rs)
  show ?case
  proof (cases r)
    case (Reads k)
    define n where "n = min (Suc k) (space - length acc)"
    have n: "0 < n" "n \<le> space - length acc" using Cons.prems(3) by (simp_all add: n_def)
    show ?thesis
    proof (cases "input = []")
      case False
      let ?space = "if length (acc @ take n input) = space then 2 * space else space"
      from n False have got: "take n input \<noteq> []" by simp
      have "length (acc @ take n input) \<le> space" using n Cons.prems(3) by simp
      then have len: "length (acc @ take n input) < ?space" using Cons.prems(3) by simp
      have "length (drop n input) < length input" using n(1) False by simp
      then have "length (drop n input) < length (filter (\<lambda>r. r \<noteq> Read_errno EINTR) rs)"
        using Cons.prems(2) Reads by simp
      from Cons.IH [OF _ this len] Cons.prems(1) show ?thesis
        by (simp only: Reads read_loop_step [OF n_def got]) simp
    qed (simp add: Reads)
  qed (use Cons in simp)
qed simp

lemma write_loop_prefix:
  "write_loop rs data = (r, rs', out) \<Longrightarrow> (\<exists>rest. data = out @ rest \<and> (r = Inr () \<longrightarrow> rest = []))"
proof (induction rs arbitrary: data r rs' out)
  case (Cons x rs)
  show ?case
  proof (cases "\<exists>n. x = Accepted n \<and> data \<noteq> []")
    case True
    then obtain n where x: "x = Accepted n" "data \<noteq> []" by blast
    obtain r1 rs1 out1 where w: "write_loop rs (drop n data) = (r1, rs1, out1)" by (metis prod_cases3)
    with Cons.prems x have "r = r1" "out = take n data @ out1" by auto
    with Cons.IH [OF w] show ?thesis by (metis append.assoc append_take_drop_id)
  qed (use Cons.prems in \<open>auto split: if_splits sys_send.splits\<close>)
qed (auto split: if_splits)

text \<open>
  All of standard input: however many bytes each call of \<^verbatim>\<open>read\<close> gets and however often one is
  interrupted, \<^verbatim>\<open>read_all\<close> returns exactly what there is to read, growing its buffer on the way.
\<close>

theorem read_all_whole:
  assumes "list_all (\<lambda>r. r = Read_errno EINTR \<or> (\<exists>k. r = Reads k)) (t_reads t)"
    and "length (t_input t) < length (filter (\<lambda>r. r \<noteq> Read_errno EINTR) (t_reads t))"
  shows "\<exists>t'. read_all t = (Inr (t_input t), t') \<and> t_input t' = []"
  using read_loop_returns [OF assms, of "[]" 4096] by (auto simp: read_all_def)

theorem read_all_whole_witness:
  "\<exists>t'. read_all ((idle_tool (open_connection [] [] []))\<lparr>t_input := [1, 2, 3], t_reads := [Reads 0, Read_errno EINTR, Reads 9, Reads 4, Reads 4]\<rparr>)
    = (Inr [1, 2, 3], t')"
  using read_all_whole [of "(idle_tool (open_connection [] [] []))\<lparr>t_input := [1, 2, 3], t_reads := [Reads 0, Read_errno EINTR, Reads 9, Reads 4, Reads 4]\<rparr>"]
  by (simp add: idle_tool_def) blast

lemma write_all_fd_prefix:
  assumes "write_all_fd out data t = (r, t')"
  shows "\<exists>written. t_output t' = t_output t @ [(out, written)] \<and> (\<exists>rest. data = written @ rest \<and> (r = Inr () \<longrightarrow> rest = []))"
  using assms write_loop_prefix by (auto simp: write_all_fd_def split: prod.splits)

section \<open>The connection options: lemmas\<close>

lemma parse_vhost_ssl: "parse_vhost prt delim url ci = Some ci' \<Longrightarrow> ssl ci' = ssl ci"
  by (auto simp: parse_vhost_def split: option.splits if_splits prod.splits)

lemma parse_port_ssl: "parse_port prt delim url ci = Some ci' \<Longrightarrow> ssl ci' = ssl ci"
  by (auto simp: parse_port_def dest: parse_vhost_ssl split: option.splits if_splits prod.splits)

lemma parse_host_ssl: "parse_host hst prt delim url ci = Some ci' \<Longrightarrow> ssl ci' = ssl ci"
  by (auto simp: parse_host_def dest!: parse_port_ssl split: option.splits if_splits prod.splits)

lemma parse_ssl:
  assumes "parse_authority url ci = Some ci'"
  shows "ssl ci' = ssl ci"
proof -
  have "ssl ci2 = ssl ci1" if "parse_userinfo hst prt delim url1 ci1 = Some ci2" for hst prt delim url1 ci1 ci2
    using that by (auto simp: parse_userinfo_def Let_def dest!: parse_host_ssl split: option.splits if_splits prod.splits)
  with assms show ?thesis by (fastforce simp: parse_authority_def split: option.splits if_splits prod.splits)
qed

lemma parse_url_ssl:
  assumes "amqp_parse_url url = Inr ci"
  shows "ssl ci \<longleftrightarrow> take 8 url = AMQPS_SCHEME"
proof -
  have "take 7 url \<noteq> AMQP_SCHEME" if "take 8 url = AMQPS_SCHEME"
    using arg_cong [OF that, of "take 7"] by simp
  with assms show ?thesis
    by (auto simp: amqp_parse_url_def amqp_default_connection_info_def dest!: parse_ssl split: option.splits if_splits)
qed

lemma connection_info_cases:
  assumes "init_connection_info with_ssl opts t = (Inr ci, t')"
  obtains ci0 ci1 where "info_from_url opts = Some ci0" "info_from_server with_ssl opts ci0 = Some ci1"
    "ssl ci = ssl ci1" "host ci = host ci1" "t' = t"
  using assms
  by (auto simp: init_connection_info_def die_def t_return_def info_option_def bind_eq_Some_conv split: option.splits if_splits)

lemma server_port_range: "server_port text = Some p \<Longrightarrow> 0 \<le> p \<and> p \<le> 65535"
  by (auto simp: server_port_def split: option.splits if_splits)

text \<open>
  C35. Two connection options do not do what they are for. TLS is used exactly if the URL begins with \<^verbatim>\<open>amqps://\<close>,
  whatever \<^verbatim>\<open>--ssl\<close> says: without a URL the tools that accept their options connect in the clear. And a
  server without a port is not connected to: the host is that of the URL, which is then absent, and so the
  default, localhost.
\<close>

theorem options_without_effect:
  assumes "init_connection_info with_ssl opts t = (Inr ci, t')"
  shows "(ssl ci \<longleftrightarrow> (\<exists>url. amqp_url opts = Some url \<and> take 8 url = AMQPS_SCHEME))
    \<and> (\<forall>server. amqp_server opts = Some server \<and> 0x3A \<notin> set server \<longrightarrow> host ci = ascii ''localhost'')"
proof -
  obtain ci0 ci1 where c: "info_from_url opts = Some ci0" "info_from_server with_ssl opts ci0 = Some ci1"
    "ssl ci = ssl ci1" "host ci = host ci1"
    by (rule connection_info_cases [OF assms])
  have "ssl ci1 = ssl ci0"
    using c(2) by (auto simp: info_from_server_def split: option.splits if_splits list.splits)
  moreover have "ssl ci0 \<longleftrightarrow> (\<exists>url. amqp_url opts = Some url \<and> take 8 url = AMQPS_SCHEME)"
    using c(1) parse_url_ssl
    by (auto simp: info_from_url_def amqp_default_connection_info_def split: option.splits sum.splits)
  moreover have "host ci = ascii ''localhost''" if s: "amqp_server opts = Some server" "0x3A \<notin> set server" for server
  proof -
    have "dropWhile (\<lambda>c. c \<noteq> 0x3A) server = []" using s(2) by auto
    then have "ci1 = ci0" "amqp_url opts = None"
      using c(2) by (simp_all add: info_from_server_def s(1) del: dropWhile_eq_Nil_conv split: if_splits)
    with c(1,4) show ?thesis
      by (auto simp: info_from_url_def amqp_default_connection_info_def ascii_def)
  qed
  ultimately show ?thesis using c(3) by auto
qed

lemmas connection_info_eval = init_connection_info_def info_from_url_def info_from_server_def info_option_def no_options_def
  t_return_def die_def

theorem options_without_effect_witness:
  "(\<forall>t. init_connection_info True (no_options\<lparr>amqp_server := Some (ascii ''broker'')\<rparr>) t = (Inr amqp_default_connection_info, t))
    \<and> host amqp_default_connection_info = ascii ''localhost'' \<and> \<not> ssl amqp_default_connection_info"
proof -
  let ?opts = "no_options\<lparr>amqp_server := Some (ascii ''broker'')\<rparr>"
  have i: "init_connection_info True ?opts t = (Inr amqp_default_connection_info, t)" for t
    by (simp add: connection_info_eval ascii_def amqp_default_connection_info_def)
  from options_without_effect [OF i] show ?thesis
    using i by (simp add: no_options_def ascii_def)
qed

text \<open>Asking for TLS without a URL: nothing secures the connection, and with a server the tool gives up.\<close>

lemma ssl_option_ignored: "init_connection_info True (no_options\<lparr>amqp_ssl := True\<rparr>) t = (Inr amqp_default_connection_info, t)"
  by (simp add: connection_info_eval)

lemma ssl_option_dies:
  "amqp_ssl opts \<Longrightarrow> amqp_server opts \<noteq> None \<Longrightarrow> init_connection_info True opts t = (Inl (Exit 1), t)"
proof -
  assume a: "amqp_ssl opts" "amqp_server opts \<noteq> None"
  have "info_from_server True opts ci = None" if "info_from_url opts = Some ci" for ci
    using a that by (auto simp: info_from_server_def info_from_url_def amqp_default_connection_info_def
        split: option.splits if_splits list.splits)
  then show ?thesis by (auto simp: init_connection_info_def die_def split: option.split) (metis (no_types, lifting) bind_eq_Some_conv option.distinct(1))
qed

text \<open>A port behind the server that does not fit into an \<^verbatim>\<open>int\<close> is cut off, and may then pass the check.\<close>

lemma server_port_wraps: "server_port (ascii ''4294972968'') = Some 5672"
  by (simp add: server_port_def strtol_def ascii_def is_space_def dec_digit_def to_int_def)

section \<open>Copying a body: lemmas\<close>

fun takes :: "sys_send list \<Rightarrow> amqp_bytes list \<Rightarrow> sys_send list option" where
  "takes rs [] = Some rs"
| "takes rs (c # cs) = (case write_loop rs c of (Inr _, rs', _) \<Rightarrow> takes rs' cs | _ \<Rightarrow> None)"

text \<open>
  The loops over the fragments of a body end with the one that completes it: a fragment without bytes may stand
  anywhere but at the end.
\<close>

definition ends_with_bytes :: "amqp_bytes list \<Rightarrow> bool" where
  "ends_with_bytes cs \<longleftrightarrow> cs = [] \<or> last cs \<noteq> []"

lemma ends_with_bytes_Nil [simp]: "ends_with_bytes []"
  by (simp add: ends_with_bytes_def)

lemma ends_with_bytes_Cons:
  assumes "ends_with_bytes (c # cs)"
  shows "0 < length (concat (c # cs))" "ends_with_bytes cs"
proof -
  have "last (c # cs) \<noteq> []" "last (c # cs) \<in> set (c # cs)" using assms by (simp_all add: ends_with_bytes_def)
  then have "concat (c # cs) \<noteq> []" unfolding concat_eq_Nil_conv by blast
  then show "0 < length (concat (c # cs))" unfolding length_greater_0_conv .
  show "ends_with_bytes cs" using assms by (auto simp: ends_with_bytes_def split: if_splits)
qed

locale ticking_source = frame_source +
  assumes any_ticks: "source fs st \<Longrightarrow> source fs (st\<lparr>os := (os st)\<lparr>w_ticks := k\<rparr>\<rparr>)"
begin

lemma simple_wait_aside:
  assumes "source (f # fs) st" "queued_frames st = []"
  shows "\<exists>st'. amqp_simple_wait_frame st = (Inr (0, f), st') \<and> source fs st' \<and> aside st st' \<and> advances st st'"
proof -
  let ?st = "st\<lparr>os := (os st)\<lparr>w_ticks := Suc (w_ticks (os st))\<rparr>\<rparr>"
  obtain st' where "wait_frame_inner amqp_time_infinite ?st = (Inr (0, f), st')" "source fs st'" "aside ?st st'" "advances ?st st'"
    using next_frame [OF any_ticks [OF assms(1)]] by blast
  with assms(2) show ?thesis
    by (auto simp: amqp_simple_wait_frame_def amqp_simple_wait_frame_noblock_def read_clock_def amqp_time_from_now_def
        aside_def outbound_same_def advances_def calls_left_def bytes_left_def)
qed

lemma simple_wait_finds:
  assumes "source (f # fs) st" "queued_frames st = []"
  shows "\<exists>st'. amqp_simple_wait_frame st = (Inr (0, f), st') \<and> source fs st' \<and> queued_frames st' = [] \<and> advances st st'"
  using simple_wait_aside [OF assms] assms(2) by (auto simp: aside_def)

lemma copy_rest_writes:
  assumes "source (map (body_frame channel) cs @ fs) (t_conn t)" "queued_frames (t_conn t) = []"
    and "ends_with_bytes cs" "length (concat cs) < 2 ^ 64" "takes (t_writes t) cs = Some rs"
  shows "\<exists>st'. copy_rest out (length (concat cs)) t
      = (Inr (), t\<lparr>t_conn := st', t_writes := rs, t_output := t_output t @ map (Pair out) cs\<rparr>)
    \<and> source fs st' \<and> aside (t_conn t) st' \<and> (advances (t_conn t) st' \<or> st' = t_conn t)"
  using assms
proof (induction cs arbitrary: t)
  case Nil
  then show ?case by (intro exI [of _ "t_conn t"]) (simp add: copy_rest.simps [of _ _ t] aside_def outbound_same_def)
next
  case (Cons c cs)
  obtain st1 where st1: "amqp_simple_wait_frame (t_conn t) = (Inr (0, body_frame channel c), st1)"
      "source (map (body_frame channel) cs @ fs) st1" "aside (t_conn t) st1" "advances (t_conn t) st1"
    using simple_wait_aside Cons.prems(1,2) by (metis append_Cons list.simps(9))
  obtain rs1 where w: "write_loop (t_writes t) c = (Inr (), rs1, c)" "takes rs1 cs = Some rs"
    using Cons.prems(5) write_loop_prefix by (fastforce split: prod.splits sum.splits)
  let ?t = "t\<lparr>t_conn := st1, t_writes := rs1, t_output := t_output t @ [(out, c)]\<rparr>"
  have "copy_rest out (length (concat (c # cs))) t = copy_rest out (length (concat cs)) ?t"
    using st1(1,4) w(1) ends_with_bytes_Cons(1) [OF Cons.prems(3)] Cons.prems(4)
    by (auto simp: copy_rest.simps [of _ _ t] on_conn_def body_frame_def write_all_fd_def frame_taken_def)
  moreover have q: "queued_frames (t_conn ?t) = []" using st1(3) Cons.prems(2) by (simp add: aside_def)
  obtain st' where "copy_rest out (length (concat cs)) ?t
        = (Inr (), ?t\<lparr>t_conn := st', t_writes := rs, t_output := t_output ?t @ map (Pair out) cs\<rparr>)"
      "source fs st'" "aside st1 st'" "advances st1 st' \<or> st' = st1"
    using Cons.IH [OF _ q] ends_with_bytes_Cons(2) [OF Cons.prems(3)] Cons.prems(4) st1(2) w(2) by auto
  ultimately show ?case using st1(3,4) advances_trans [OF st1(4)] aside_trans [OF st1(3)] by auto
qed

lemma copy_body_whole:
  assumes "source (f # map (body_frame channel) cs @ fs) (t_conn t)" "queued_frames (t_conn t) = []"
    and "frame_type f = FRAME_HEADER" "frame_payload f = Properties_payload cls (of_nat (length body)) p raw"
    and "body = concat cs" "ends_with_bytes cs" "length body < 2 ^ 64" "takes (t_writes t) cs = Some rs"
  shows "\<exists>st'. copy_body out t = (Inr (), t\<lparr>t_conn := st', t_writes := rs, t_output := t_output t @ map (Pair out) cs\<rparr>)
    \<and> source fs st' \<and> aside (t_conn t) st' \<and> advances (t_conn t) st'"
proof -
  obtain st1 where st1: "amqp_simple_wait_frame (t_conn t) = (Inr (0, f), st1)"
      "source (map (body_frame channel) cs @ fs) st1" "aside (t_conn t) st1" "advances (t_conn t) st1"
    using simple_wait_aside [OF assms(1,2)] by blast
  have q: "queued_frames st1 = []" using st1(3) assms(2) by (simp add: aside_def)
  have "copy_body out t = copy_rest out (length (concat cs)) (t\<lparr>t_conn := st1\<rparr>)"
    using st1(1) assms(3-5,7)
    by (simp add: copy_body_def t_bind_def on_conn_def die_amqp_error_def t_return_def unat_of_nat)
  with copy_rest_writes [of channel cs fs "t\<lparr>t_conn := st1\<rparr>" rs out] st1(2-4) q assms(5-8) advances_trans [OF st1(4)]
    aside_trans [OF st1(3)]
  show ?thesis by auto
qed

text \<open>A fragment that is too long is written, and the count of what remains wraps around.\<close>

lemma copy_rest_overruns:
  assumes "source (body_frame channel c # fs) (t_conn t)" "queued_frames (t_conn t) = []"
    and "0 < n" "n < length c" "length c < 2 ^ 64" "write_loop (t_writes t) c = (Inr (), rs, c)"
  shows "\<exists>t'. copy_rest out n t = copy_rest out (2 ^ 64 - (length c - n)) t' \<and> t_output t' = t_output t @ [(out, c)]"
proof -
  obtain st1 where st1: "amqp_simple_wait_frame (t_conn t) = (Inr (0, body_frame channel c), st1)" "advances (t_conn t) st1"
    using simple_wait_finds [OF assms(1,2)] by blast
  let ?t = "t\<lparr>t_conn := st1, t_writes := rs, t_output := t_output t @ [(out, c)]\<rparr>"
  have "copy_rest out n t = copy_rest out (2 ^ 64 - (length c - n)) ?t"
    using st1 assms(3-6) by (simp add: copy_rest.simps [of _ _ t] on_conn_def body_frame_def write_all_fd_def frame_taken_def sz_sub_wraps)
  moreover have "t_output ?t = t_output t @ [(out, c)]" by simp
  ultimately show ?thesis by blast
qed

end

interpretation ticking_wire: ticking_source frames_arrive
proof unfold_locales
  fix fs st k
  assume "frames_arrive fs st"
  then show "frames_arrive fs (st\<lparr>os := (os st)\<lparr>w_ticks := k\<rparr>\<rparr>)"
    by (simp add: frames_arrive_def steady_def amqp_get_sockfd_def buffer_ok_def incoming_def)
qed

text \<open>
  The body of a message is copied whole: with the frames of a message on their way, \<^verbatim>\<open>copy_body\<close> writes the
  fragments of the body in their order, each completely, whatever pieces \<^verbatim>\<open>write\<close> accepts, and leaves what
  comes behind the message where it is.
\<close>

theorem copy_body_writes:
  assumes "frames_arrive (set_raw (header_frame channel (of_nat (length body)) p) # map (body_frame channel) cs @ fs) (t_conn t)"
    and "queued_frames (t_conn t) = []" "body = concat cs" "ends_with_bytes cs" "length body < 2 ^ 64"
    and "takes (t_writes t) cs = Some rs"
  shows "\<exists>t'. copy_body out t = (Inr (), t') \<and> t_output t' = t_output t @ map (Pair out) cs
    \<and> frames_arrive fs (t_conn t')"
proof -
  have "frame_payload (set_raw (header_frame channel (of_nat (length body)) p))
      = Properties_payload 60 (of_nat (length body)) (Basic_properties p) (wire_properties (Basic_properties p))"
    "frame_type (set_raw (header_frame channel (of_nat (length body)) p)) = FRAME_HEADER"
    by (simp_all add: set_raw_def header_frame_def)
  from ticking_wire.copy_body_whole [OF assms(1,2) this(2,1) assms(3-6), of out] show ?thesis by force
qed

theorem copy_body_writes_witness:
  "\<exists>t'. copy_body 1 ((idle_tool (open_connection (map (Received \<circ> wire_frame)
        [set_raw (header_frame 2 5 empty_properties), body_frame 2 [1, 2, 3, 4, 5]]) [] []))\<lparr>t_writes := [Accepted 2, Accepted 7]\<rparr>)
      = (Inr (), t') \<and> t_output t' = [(1, [1, 2, 3, 4, 5])]"
proof -
  let ?fs = "[set_raw (header_frame 2 5 empty_properties), body_frame 2 [1, 2, 3, 4, 5]]"
  let ?st = "open_connection (map (Received \<circ> wire_frame) ?fs) [] []"
  let ?t = "(idle_tool ?st)\<lparr>t_writes := [Accepted 2, Accepted 7]\<rparr>"
  have "incoming ?st = concat (map wire_frame ?fs) @ []"
    using sample_header(2,3) by (simp add: received_frame fits_4096 del: arriving.simps(2))
  moreover have "\<forall>f \<in> set ?fs. fits 4096 f \<and> frame_type f \<noteq> FRAME_HEARTBEAT"
    using sample_header(2,3) by (simp add: set_raw_def header_frame_def body_frame_def)
  ultimately have "frames_arrive ?fs ?st"
    unfolding frames_arrive_def by (intro exI [of _ 4096] exI [of _ ?fs] exI [of _ "[]"]) simp
  then have "frames_arrive (set_raw (header_frame 2 (of_nat (length [1, 2, 3, 4, 5 :: u8])) empty_properties)
      # map (body_frame 2) [[1, 2, 3, 4, 5]] @ []) (t_conn ?t)"
    by (simp add: idle_tool_def)
  from copy_body_writes [OF this, of "[]" 1] show ?thesis by (simp add: idle_tool_def ends_with_bytes_def) blast
qed

text \<open>The text of a reply fits into the buffer.\<close>

lemma exception_string_fits: "amqp_server_exception_string r = Inr s \<Longrightarrow> length s < 512"
  by (auto simp: amqp_server_exception_string_def snprintf_512_def split: option.splits if_splits amqp_method_struct.splits
      connection_method.splits channel_method.splits)

end
