(* ===== verification/Tools_Consume.thy ===== *)
theory Tools_Consume
  imports Tools_Common
begin

text \<open>
  The tools that receive messages and manage queues: \<^verbatim>\<open>amqp-consume\<close> (\<^verbatim>\<open>tools/consume.c\<close>) with the child
  processes it pipes the bodies to (\<^verbatim>\<open>tools/unix/process.c\<close>), \<^verbatim>\<open>amqp-get\<close>, \<^verbatim>\<open>amqp-declare-queue\<close> and
  \<^verbatim>\<open>amqp-delete-queue\<close>.

  \<open>t_codes\<close> has what the system calls of \<^verbatim>\<open>process.c\<close> return one after the other, zero behind its end; a new
  descriptor is the lowest one that is not open. The number of messages is not bounded by the range of \<^verbatim>\<open>int\<close>.
\<close>

section \<open>unix/process.c\<close>

definition sys_code :: "int run" where
  "sys_code t =
    (case t_codes t of [] \<Rightarrow> (Inr 0, t) | c # cs \<Rightarrow> (Inr c, t\<lparr>t_codes := cs\<rparr>))"

definition lowest_descriptor :: "int list \<Rightarrow> int" where
  "lowest_descriptor fds = hd (filter (\<lambda>n. n \<notin> set fds) (map int [0..<Suc (length fds)]))"

definition new_descriptor :: "int run" where
  "new_descriptor t =
    (let n = lowest_descriptor (t_open t) in (Inr n, t\<lparr>t_open := n # t_open t\<rparr>))"

definition close_descriptor :: "int \<Rightarrow> unit run" where
  "close_descriptor n =
    t_bind sys_code (\<lambda>err.
      if err \<noteq> 0 then die_errno err else (\<lambda>t. (Inr (), t\<lparr>t_open := remove1 n (t_open t)\<rparr>)))"

text \<open>
  \<^verbatim>\<open>pipe\<close>, the five calls that set up and start the child, \<^verbatim>\<open>posix_spawn_file_actions_destroy\<close>, and the end
  of the pipe that belongs to the child is closed. The result is the end to write to.
\<close>

definition checked_call :: "unit run" where
  "checked_call = t_bind sys_code die_errno"

definition pipeline :: "int run" where
  "pipeline =
    t_bind checked_call (\<lambda>_.
    t_bind new_descriptor (\<lambda>reading.
    t_bind new_descriptor (\<lambda>writing.
    t_bind checked_call (\<lambda>_.
    t_bind checked_call (\<lambda>_.
    t_bind checked_call (\<lambda>_.
    t_bind checked_call (\<lambda>_.
    t_bind checked_call (\<lambda>_.
    t_bind checked_call (\<lambda>_.
    t_bind (close_descriptor reading) (\<lambda>_. t_return writing))))))))))"

text \<open>Whether the child has exited with status zero.\<close>

definition finish_pipeline :: "int \<Rightarrow> bool run" where
  "finish_pipeline infd =
    t_bind (close_descriptor infd) (\<lambda>_.
    t_bind sys_code (\<lambda>status.
      if status < 0 then die
      else t_return (status mod 128 = 0 \<and> status div 256 mod 256 = 0)))"

section \<open>consume.c\<close>

definition stringify_byte :: "u8 \<Rightarrow> amqp_bytes" where
  "stringify_byte c =
    (if c \<ge> 32 \<and> c \<noteq> 127 then [c]
     else [0x5C, 0x30 + drop_bit 6 c, 0x30 + (drop_bit 3 c AND 7), 0x30 + (c AND 7)])"

definition stringify_bytes :: "amqp_bytes \<Rightarrow> amqp_bytes" where
  "stringify_bytes bytes = concat (map stringify_byte bytes)"

text \<open>\<^verbatim>\<open>strtok_r\<close> with a comma as the delimiter: the next token and what is behind it.\<close>

definition strtok_comma :: "amqp_bytes \<Rightarrow> (amqp_bytes \<times> amqp_bytes) option" where
  "strtok_comma s =
    (case dropWhile (\<lambda>c. c = 0x2C) s of
       [] \<Rightarrow> None
     | c # cs \<Rightarrow> Some (takeWhile (\<lambda>c. c \<noteq> 0x2C) (c # cs), tl (dropWhile (\<lambda>c. c \<noteq> 0x2C) (c # cs))))"

lemma strtok_comma_shorter:
  assumes "strtok_comma s = Some (token, rest)"
  shows "length rest < length s"
proof -
  obtain c cs where c: "dropWhile (\<lambda>c. c = 0x2C) s = c # cs" "rest = tl (dropWhile (\<lambda>c. c \<noteq> 0x2C) (c # cs))"
    using assms by (auto simp: strtok_comma_def split: list.splits)
  have "c \<noteq> 0x2C" using c(1) hd_dropWhile [of "\<lambda>c. c = 0x2C" s] by auto
  then have "length rest \<le> length cs"
    using length_dropWhile_le [of "\<lambda>c. c \<noteq> 0x2C" cs] by (simp add: c(2))
  moreover have "length (c # cs) \<le> length s" using length_dropWhile_le [of "\<lambda>c. c = 0x2C" s] by (simp only: c(1))
  ultimately show ?thesis by simp
qed

text \<open>The loop over the keys to bind; \<^verbatim>\<open>routing_key_count\<close> stays zero, so that \<^verbatim>\<open>MAX_LISTEN_KEYS\<close> is no limit.\<close>

function bind_keys :: "amqp_bytes \<Rightarrow> amqp_bytes \<Rightarrow> amqp_bytes \<Rightarrow> unit run" where
  "bind_keys queue exchange keys =
    (case strtok_comma keys of
       None \<Rightarrow> t_return ()
     | Some (token, rest) \<Rightarrow>
         t_bind (on_conn (amqp_queue_bind 1 queue exchange (cstring_bytes (Some token)) [])) (\<lambda>ok.
         t_bind (if ok = None then (\<lambda>t. die_rpc (amqp_get_rpc_reply (t_conn t)) t) else t_return ()) (\<lambda>_.
           bind_keys queue exchange rest)))"
  by pat_completeness auto
termination by (relation "measure (\<lambda>(q, e, k). length k)") (auto dest: strtok_comma_shorter)

declare bind_keys.simps [simp del]

text \<open>The name of the queue: the one given, or the one the server chose.\<close>

definition declared_name :: "amqp_bytes option \<Rightarrow> amqp_method_struct option \<Rightarrow> amqp_bytes run" where
  "declared_name queue res =
    (case queue of
       Some q \<Rightarrow> t_return (cstring_bytes queue)
     | None \<Rightarrow>
         (case res of
            Some (M_Queue (Queue_declare_ok name _ _)) \<Rightarrow> t_return name
          | _ \<Rightarrow> (\<lambda>t. (Inl (Fault Undefined_behaviour), t))))"

definition setup_queue ::
    "amqp_bytes option \<Rightarrow> amqp_bytes option \<Rightarrow> amqp_bytes option \<Rightarrow> bool \<Rightarrow> bool \<Rightarrow> amqp_bytes run" where
  "setup_queue queue exchange routing_key decl exclusive =
    (if exchange = None \<and> routing_key \<noteq> None then die
     else if queue = None \<or> exchange \<noteq> None \<or> decl \<or> exclusive then
       t_bind (on_conn (amqp_queue_declare 1 (cstring_bytes queue) False False exclusive True [])) (\<lambda>res.
       t_bind (if res = None then (\<lambda>t. die_rpc (amqp_get_rpc_reply (t_conn t)) t) else t_return ()) (\<lambda>_.
       t_bind (declared_name queue res) (\<lambda>queue_bytes.
         case exchange of
           None \<Rightarrow> t_return queue_bytes
         | Some ex \<Rightarrow>
             (case routing_key of
                None \<Rightarrow> (\<lambda>t. (Inl (Fault Undefined_behaviour), t))
              | Some keys \<Rightarrow>
                  t_bind (bind_keys queue_bytes (amqp_cstring_bytes ex) keys) (\<lambda>_. t_return queue_bytes)))))
     else t_return (cstring_bytes queue))"

definition AMQP_CONSUME_MAX_PREFETCH_COUNT :: int where "AMQP_CONSUME_MAX_PREFETCH_COUNT = 65535"

definition in_prefetch_range :: "int \<Rightarrow> bool" where
  "in_prefetch_range n \<longleftrightarrow> n > 0 \<and> n \<le> AMQP_CONSUME_MAX_PREFETCH_COUNT"

definition set_qos :: "int \<Rightarrow> unit run" where
  "set_qos n =
    t_bind (on_conn (amqp_basic_qos 1 0 (word_of_int n) False)) (\<lambda>ok.
      if ok = None then (\<lambda>t. die_rpc (amqp_get_rpc_reply (t_conn t)) t) else t_return ())"

text \<open>One delivery: the body is piped to a child, and acknowledged if the child succeeds.\<close>

definition consume_one :: "bool \<Rightarrow> u64 \<Rightarrow> unit run" where
  "consume_one no_ack delivery_tag =
    t_bind pipeline (\<lambda>infd.
    t_bind (copy_body infd) (\<lambda>_.
    t_bind (finish_pipeline infd) (\<lambda>ok.
    t_bind (if ok \<and> \<not> no_ack then t_bind (on_conn (amqp_basic_ack 1 delivery_tag False)) die_amqp_error
            else t_return ()) (\<lambda>_.
      on_conn amqp_maybe_release_buffers))))"

text \<open>The delivery tag of a frame that is a delivery.\<close>

definition delivery_of :: "amqp_frame \<Rightarrow> u64 option outcome" where
  "delivery_of frame =
    (case frame_method frame of
       None \<Rightarrow> Inr None
     | Some (mid, decoded) \<Rightarrow>
         if mid \<noteq> AMQP_BASIC_DELIVER_METHOD then Inr None
         else
           (case decoded of
              M_Basic (Basic_deliver _ delivery_tag _ _ _) \<Rightarrow> Inr (Some delivery_tag)
            | _ \<Rightarrow> Inl Undefined_behaviour))"

text \<open>The loop over the frames from the \<open>i\<close>-th on; every frame counts, not only the deliveries.\<close>

function consume_loop :: "bool \<Rightarrow> int \<Rightarrow> int \<Rightarrow> unit run" where
  "consume_loop no_ack count i t =
    (if count < 0 \<or> i < count then
       (case on_conn amqp_simple_wait_frame t of
          (Inl e, t1) \<Rightarrow> (Inl e, t1)
        | (Inr (res, frame), t1) \<Rightarrow>
            if res < 0 then die t1
            else
              (case delivery_of frame of
                 Inl e \<Rightarrow> (Inl (Fault e), t1)
               | Inr None \<Rightarrow>
                   if frame_taken (t_conn t) (t_conn t1) then consume_loop no_ack count (i + 1) t1
                   else (Inl (Fault Out_of_fuel), t1)
               | Inr (Some delivery_tag) \<Rightarrow>
                   (case consume_one no_ack delivery_tag t1 of
                      (Inl e, t2) \<Rightarrow> (Inl e, t2)
                    | (Inr _, t2) \<Rightarrow>
                        if frame_taken (t_conn t) (t_conn t2) then consume_loop no_ack count (i + 1) t2
                        else (Inl (Fault Out_of_fuel), t2))))
     else (Inr (), t))"
  by pat_completeness auto
termination
  by (relation "inv_image (less_than <*lex*> less_than <*lex*> less_than)
      (\<lambda>(a, c, i, t). (calls_left (os (t_conn t)), bytes_left (t_conn t), length (queued_frames (t_conn t))))")
    (auto simp: frame_taken_def advances_def)

declare consume_loop.simps [simp del]

definition do_consume :: "amqp_bytes \<Rightarrow> bool \<Rightarrow> int \<Rightarrow> int \<Rightarrow> unit run" where
  "do_consume queue no_ack count prefetch_count =
    t_bind (if in_prefetch_range count then set_qos count else t_return ()) (\<lambda>_.
    t_bind (if in_prefetch_range prefetch_count \<and> \<not> (in_prefetch_range count \<and> prefetch_count \<ge> count)
            then set_qos prefetch_count else t_return ()) (\<lambda>_.
    t_bind (on_conn (amqp_basic_consume 1 queue [] False no_ack False [])) (\<lambda>ok.
    t_bind (if ok = None then (\<lambda>t. die_rpc (amqp_get_rpc_reply (t_conn t)) t) else t_return ()) (\<lambda>_.
      consume_loop no_ack count 0))))"

record consume_options =
  c_queue :: "amqp_bytes option"
  c_exchange :: "amqp_bytes option"
  c_routing_key :: "amqp_bytes option"
  c_declare :: bool
  c_exclusive :: bool
  c_no_ack :: bool
  c_count :: int
  c_prefetch_count :: int
  c_command :: "amqp_bytes list"

definition consume_main :: "unit run \<Rightarrow> consume_options \<Rightarrow> nat run" where
  "consume_main connect opts =
    (if c_command opts = [] then t_return 1
     else
       t_bind connect (\<lambda>_.
       t_bind (setup_queue (c_queue opts) (c_exchange opts) (c_routing_key opts) (c_declare opts) (c_exclusive opts)) (\<lambda>queue_bytes.
       t_bind (do_consume queue_bytes (c_no_ack opts) (c_count opts) (c_prefetch_count opts)) (\<lambda>_.
       t_bind close_connection (\<lambda>_. t_return 0)))))"

section \<open>get.c\<close>

definition do_get :: "amqp_bytes option \<Rightarrow> bool run" where
  "do_get queue =
    t_bind (on_conn (amqp_basic_get 1 (cstring_bytes queue) True)) (\<lambda>r.
    t_bind (die_rpc r) (\<lambda>_.
      if map_option fst (reply r) = Some AMQP_BASIC_GET_EMPTY_METHOD then t_return False
      else t_bind (copy_body 1) (\<lambda>_. t_return True)))"

definition get_main :: "unit run \<Rightarrow> amqp_bytes option \<Rightarrow> nat run" where
  "get_main connect queue =
    (if queue = None then t_return 1
     else
       t_bind connect (\<lambda>_.
       t_bind (do_get queue) (\<lambda>got_something.
       t_bind close_connection (\<lambda>_. t_return (if got_something then 0 else 2)))))"

section \<open>declare\_queue.c, delete\_queue.c\<close>

definition printf_line :: "amqp_bytes \<Rightarrow> unit run" where
  "printf_line text t = (Inr (), t\<lparr>t_output := t_output t @ [(1, text @ [0x0A])]\<rparr>)"

definition declare_queue_main :: "unit run \<Rightarrow> amqp_bytes option \<Rightarrow> bool \<Rightarrow> nat run" where
  "declare_queue_main connect queue durable =
    (if queue = None then t_return 1
     else
       t_bind connect (\<lambda>_.
       t_bind (on_conn (amqp_queue_declare 1 (cstring_bytes queue) False durable False False [])) (\<lambda>res.
       t_bind (if res = None then (\<lambda>t. die_rpc (amqp_get_rpc_reply (t_conn t)) t) else t_return ()) (\<lambda>_.
       t_bind (case res of
                 Some (M_Queue (Queue_declare_ok name _ _)) \<Rightarrow> printf_line (amqp_cstring_bytes name)
               | _ \<Rightarrow> (\<lambda>t. (Inl (Fault Undefined_behaviour), t))) (\<lambda>_.
       t_bind close_connection (\<lambda>_. t_return 0))))))"

definition delete_queue_main :: "unit run \<Rightarrow> amqp_bytes option \<Rightarrow> bool \<Rightarrow> bool \<Rightarrow> nat run" where
  "delete_queue_main connect queue if_unused if_empty =
    (if queue = None \<or> queue = Some [] then t_return 1
     else
       t_bind connect (\<lambda>_.
       t_bind (on_conn (amqp_queue_delete 1 (cstring_bytes queue) if_unused if_empty)) (\<lambda>res.
       t_bind (if res = None then (\<lambda>t. die_rpc (amqp_get_rpc_reply (t_conn t)) t) else t_return ()) (\<lambda>_.
       t_bind (case res of
                 Some (M_Queue (Queue_delete_ok message_count)) \<Rightarrow> printf_line (dec_text (unat message_count))
               | _ \<Rightarrow> (\<lambda>t. (Inl (Fault Undefined_behaviour), t))) (\<lambda>_.
       t_bind close_connection (\<lambda>_. t_return 0))))))"

section \<open>Escaping\<close>

text \<open>The buffer of four times the length, and one, is enough. A backslash is not escaped, so that the text is ambiguous.\<close>

lemma stringify_fits: "length (stringify_bytes bytes) \<le> 4 * length bytes"
  by (induction bytes) (auto simp: stringify_bytes_def stringify_byte_def)

lemma stringify_ambiguous: "stringify_bytes [0] = stringify_bytes [0x5C, 0x30, 0x30, 0x30]"
  by (simp add: stringify_bytes_def stringify_byte_def)

section \<open>Keys\<close>

text \<open>The keys that are bound are the pieces between the commas that are not empty.\<close>

fun split_commas :: "amqp_bytes \<Rightarrow> amqp_bytes \<Rightarrow> amqp_bytes list" where
  "split_commas [] piece = [piece]"
| "split_commas (c # cs) piece = (if c = 0x2C then piece # split_commas cs [] else split_commas cs (piece @ [c]))"

fun bind_all :: "amqp_bytes \<Rightarrow> amqp_bytes \<Rightarrow> amqp_bytes list \<Rightarrow> unit run" where
  "bind_all queue exchange [] = t_return ()"
| "bind_all queue exchange (key # keys) =
    t_bind (on_conn (amqp_queue_bind 1 queue exchange (cstring_bytes (Some key)) [])) (\<lambda>ok.
    t_bind (if ok = None then (\<lambda>t. die_rpc (amqp_get_rpc_reply (t_conn t)) t) else t_return ()) (\<lambda>_.
      bind_all queue exchange keys))"

lemma split_commas_append: "0x2C \<notin> set xs \<Longrightarrow> split_commas (xs @ ys) piece = split_commas ys (piece @ xs)"
  by (induction xs arbitrary: piece) auto

lemma strtok_none: "strtok_comma s = None \<Longrightarrow> filter (\<lambda>w. w \<noteq> []) (split_commas s []) = []"
proof (induction s)
  case (Cons c s)
  then show ?case by (cases "c = 0x2C") (auto simp: strtok_comma_def split: list.splits)
qed simp

lemma strtok_some: "strtok_comma s = Some (token, rest) \<Longrightarrow>
    filter (\<lambda>w. w \<noteq> []) (split_commas s []) = token # filter (\<lambda>w. w \<noteq> []) (split_commas rest [])"
proof (induction s)
  case (Cons c s)
  show ?case
  proof (cases "c = 0x2C")
    case True
    with Cons show ?thesis by (auto simp: strtok_comma_def)
  next
    case False
    let ?P = "\<lambda>c :: u8. c \<noteq> 0x2C"
    have t: "token = c # takeWhile ?P s" "rest = tl (dropWhile ?P s)"
      using Cons.prems False by (auto simp: strtok_comma_def)
    have "0x2C \<notin> set (takeWhile ?P s)" by (auto dest: set_takeWhileD)
    from split_commas_append [OF this, of "dropWhile ?P s" "[c]"]
    have "split_commas (c # s) [] = split_commas (dropWhile ?P s) token" using False by (simp add: t(1))
    then show ?thesis
      using t hd_dropWhile [of ?P s] by (cases "dropWhile ?P s") auto
  qed
qed (simp add: strtok_comma_def)

lemma bind_keys_all: "bind_keys queue exchange keys = bind_all queue exchange (filter (\<lambda>w. w \<noteq> []) (split_commas keys []))"
proof (induction keys rule: measure_induct_rule [of length])
  case (less keys)
  show ?case
  proof (cases "strtok_comma keys")
    case None
    with strtok_none [OF this] show ?thesis by (simp add: bind_keys.simps [of _ _ keys])
  next
    case (Some x)
    obtain token rest where x: "strtok_comma keys = Some (token, rest)" using Some by (cases x) simp
    from less.IH [OF strtok_comma_shorter [OF x]] x strtok_some [OF x] show ?thesis
      by (simp add: bind_keys.simps [of _ _ keys])
  qed
qed

text \<open>An exchange without a routing key: the queue is declared, then the tool copies a string that is not there.\<close>

lemma exchange_without_key: "fst (setup_queue queue (Some ex) None decl exclusive t) \<noteq> Inr q"
  by (auto simp: setup_queue_def t_bind_def split: prod.splits sum.splits)

section \<open>Children\<close>

lemma lowest_descriptor_free: "lowest_descriptor fds \<notin> set fds"
proof -
  let ?ns = "map int [0..<Suc (length fds)]"
  have "card (set ?ns) = Suc (length fds)" by (simp add: card_image inj_on_def del: upt_Suc)
  moreover have "card (set fds) \<le> length fds" by (rule card_length)
  ultimately have "\<not> set ?ns \<subseteq> set fds"
    by (metis List.finite_set Suc_n_not_le_n card_mono order_trans)
  then have "filter (\<lambda>n. n \<notin> set fds) ?ns \<noteq> []" by (auto simp: filter_empty_conv simp del: upt_Suc)
  from hd_in_set [OF this] show ?thesis by (simp add: lowest_descriptor_def del: upt_Suc)
qed

text \<open>When no system call fails, a child has a pipe of its own, and nothing stays open.\<close>

definition pipe_end :: "int list \<Rightarrow> int" where
  "pipe_end fds = lowest_descriptor (lowest_descriptor fds # fds)"

lemma pipeline_opens:
  assumes "t_codes t = []"
  shows "pipeline t = (Inr (pipe_end (t_open t)), t\<lparr>t_open := pipe_end (t_open t) # t_open t\<rparr>)"
  using assms lowest_descriptor_free [of "lowest_descriptor (t_open t) # t_open t"]
  by (simp add: pipeline_def checked_call_def sys_code_def die_errno_def close_descriptor_def t_bind_def t_return_def
      new_descriptor_def Let_def pipe_end_def)

lemma finish_pipeline_closes:
  "t_codes t = [] \<Longrightarrow> t_open t = w # fds \<Longrightarrow> finish_pipeline w t = (Inr True, t\<lparr>t_open := fds\<rparr>)"
  by (simp add: finish_pipeline_def sys_code_def close_descriptor_def t_bind_def t_return_def)

section \<open>Consuming\<close>

lemma takes_append: "takes rs (as @ bs) = (case takes rs as of None \<Rightarrow> None | Some rs' \<Rightarrow> takes rs' bs)"
  by (induction as arbitrary: rs) (auto split: prod.splits sum.splits)

text \<open>
  A delivery on the wire: the method with all its fields, the header with the properties, and the body in its
  fragments. Nothing is fixed in it; the consumer tag is what the server or the client has chosen.
\<close>

record delivery =
  dv_consumer_tag :: amqp_bytes
  dv_tag :: u64
  dv_redelivered :: bool
  dv_exchange :: amqp_bytes
  dv_routing_key :: amqp_bytes
  dv_properties :: amqp_basic_properties
  dv_fragments :: "amqp_bytes list"

definition deliver_frame :: "u16 \<Rightarrow> delivery \<Rightarrow> amqp_frame" where
  "deliver_frame channel m = method_frame channel AMQP_BASIC_DELIVER_METHOD
     (M_Basic (Basic_deliver (dv_consumer_tag m) (dv_tag m) (dv_redelivered m) (dv_exchange m) (dv_routing_key m)))"

definition content_header :: "u16 \<Rightarrow> delivery \<Rightarrow> amqp_frame" where
  "content_header channel m = set_raw (header_frame channel (of_nat (length (concat (dv_fragments m)))) (dv_properties m))"

definition delivery_frames :: "u16 \<Rightarrow> delivery \<Rightarrow> amqp_frame list" where
  "delivery_frames channel m =
     deliver_frame channel m # content_header channel m # map (body_frame channel) (dv_fragments m)"

text \<open>A body the code reads to its end.\<close>

definition whole_body :: "delivery \<Rightarrow> bool" where
  "whole_body m \<longleftrightarrow> ends_with_bytes (dv_fragments m) \<and> length (concat (dv_fragments m)) < 2 ^ 64"

text \<open>The acknowledgement of a delivery.\<close>

definition ack_frame :: "int \<Rightarrow> delivery \<Rightarrow> amqp_frame" where
  "ack_frame n_Channelid m =
     method_frame (word_of_int n_Channelid) AMQP_BASIC_ACK_METHOD (M_Basic (Basic_ack (dv_tag m) False))"

lemma delivery_of_deliver [simp]: "delivery_of (deliver_frame channel m) = Inr (Some (dv_tag m))"
  by (simp add: delivery_of_def deliver_frame_def frame_method_def method_frame_def)

lemma content_header_fields:
  "frame_type (content_header channel m) = FRAME_HEADER"
  "\<exists>cls raw. frame_payload (content_header channel m)
     = Properties_payload cls (of_nat (length (concat (dv_fragments m)))) (Basic_properties (dv_properties m)) raw"
  by (simp_all add: content_header_def set_raw_def header_frame_def)

lemma ack_frame_valid: "valid_frame (ack_frame n m)" "frame_size (ack_frame n m) = 21"
  by (simp_all add: ack_frame_def method_frame_def valid_frame_def frame_size_def wire_basic.simps be64_def
      valid_basic.simps)

lemma amqp_basic_ack_frame:
  "amqp_basic_ack (word_of_int n) (dv_tag m) False = amqp_send_frame_inner (ack_frame n m) amqp_time_infinite"
  by (simp add: amqp_basic_ack_def amqp_send_method_def amqp_send_method_inner_def ack_frame_def)

locale releasing_source = ticking_source +
  assumes releases: "source fs st \<Longrightarrow> \<exists>st'. amqp_maybe_release_buffers st = (Inr (), st') \<and> source fs st'
      \<and> aside st st' \<and> os st' = os st \<and> bytes_left st' = bytes_left st"

locale acking_source = releasing_source +
  assumes sends: "source fs st \<Longrightarrow> can_send st \<Longrightarrow> valid_frame f \<Longrightarrow> frame_size f \<le> outbound_len st
    \<Longrightarrow> absorbs (frame_size f) (w_send (os st)) = Some ss
    \<Longrightarrow> \<exists>st'. amqp_send_frame_inner f amqp_time_infinite st = (Inr 0, st') \<and> put_out (wire_frame f) ss st st' \<and> source fs st'"
begin

lemma acknowledges:
  assumes "source fs st" "can_send st" "21 \<le> outbound_len st" "absorbs 21 (w_send (os st)) = Some ss"
  obtains st' where "amqp_basic_ack (word_of_int n) (dv_tag m) False st = (Inr 0, st')"
    "put_out (wire_frame (ack_frame n m)) ss st st'" "source fs st'" "advances st st'"
proof -
  obtain st' where st': "amqp_send_frame_inner (ack_frame n m) amqp_time_infinite st = (Inr 0, st')"
      "put_out (wire_frame (ack_frame n m)) ss st st'" "source fs st'"
    using sends [OF assms(1,2) ack_frame_valid(1)] assms(3,4) by (metis ack_frame_valid(2))
  moreover have "advances st st'"
    using absorbs_shorter [OF assms(4)] st'(2) by (simp add: advances_def calls_left_def put_out_def)
  ultimately show thesis by (intro that) (simp_all add: amqp_basic_ack_frame)
qed

end

text \<open>The acknowledgements for \<open>ms\<close>, and that the connection can send them.\<close>

definition acks_for :: "bool \<Rightarrow> delivery list \<Rightarrow> amqp_frame list" where
  "acks_for no_ack ms = (if no_ack then [] else map (ack_frame 1) ms)"

lemma acks_for_Nil [simp]: "acks_for no_ack [] = []"
  by (simp add: acks_for_def)

definition can_ack :: "bool \<Rightarrow> amqp_state \<Rightarrow> bool" where
  "can_ack no_ack st \<longleftrightarrow> no_ack \<or> can_send st \<and> 21 \<le> outbound_len st"

text \<open>What the acknowledgements of a state \<open>st'\<close> behind \<open>st\<close> have been.\<close>

definition has_acked :: "amqp_frame list \<Rightarrow> sys_send list \<Rightarrow> amqp_state \<Rightarrow> amqp_state \<Rightarrow> bool" where
  "has_acked acks ss st st' \<longleftrightarrow> w_sent (os st') = w_sent (os st) @ concat (map wire_frame acks) \<and> w_send (os st') = ss
     \<and> queued_frames st' = queued_frames st \<and> outbound_len st' = outbound_len st
     \<and> length (outbound_buffer st') = length (outbound_buffer st)"

lemma has_acked_trans: "has_acked as ss1 st st1 \<Longrightarrow> has_acked bs ss2 st1 st2 \<Longrightarrow> has_acked (as @ bs) ss2 st st2"
  by (simp add: has_acked_def)

lemma has_acked_can_ack: "has_acked as ss st st' \<Longrightarrow> can_ack no_ack st' = can_ack no_ack st"
  by (simp add: has_acked_def can_ack_def can_send_def)

lemma aside_acked: "aside st st' \<Longrightarrow> has_acked [] (w_send (os st)) st st'"
  by (simp add: aside_def outbound_same_def has_acked_def)

lemma put_out_acked: "put_out (wire_frame f) ss st st' \<Longrightarrow> has_acked [f] ss st st'"
  by (simp add: put_out_def has_acked_def)

context acking_source
begin

text \<open>What follows a child that has succeeded.\<close>

lemma acks_or_not:
  assumes "source fs (t_conn t)" "can_ack no_ack (t_conn t)"
    and "absorbs_frames (acks_for no_ack [m]) (w_send (os (t_conn t))) = Some ss"
  shows "\<exists>st'. t_bind (if \<not> no_ack then t_bind (on_conn (amqp_basic_ack 1 (dv_tag m) False)) die_amqp_error else t_return ())
      (\<lambda>_. on_conn amqp_maybe_release_buffers) t = (Inr (), t\<lparr>t_conn := st'\<rparr>)
    \<and> source fs st' \<and> has_acked (acks_for no_ack [m]) ss (t_conn t) st' \<and> (advances (t_conn t) st' \<or> calls_left (os st') = calls_left (os (t_conn t)) \<and> bytes_left st' = bytes_left (t_conn t))"
proof (cases no_ack)
  case True
  obtain st' where "amqp_maybe_release_buffers (t_conn t) = (Inr (), st')" "source fs st'" "aside (t_conn t) st'"
      "os st' = os (t_conn t)" "bytes_left st' = bytes_left (t_conn t)"
    using releases [OF assms(1)] by blast
  with True assms(3) show ?thesis
    by (intro exI [of _ st']) (auto simp: t_bind_def t_return_def on_conn_def acks_for_def dest: aside_acked)
next
  case False
  then have a: "can_send (t_conn t)" "21 \<le> outbound_len (t_conn t)" "absorbs 21 (w_send (os (t_conn t))) = Some ss"
    using assms(2,3) by (auto simp: can_ack_def acks_for_def ack_frame_valid(2) split: option.splits)
  obtain st1 where st1: "amqp_basic_ack (word_of_int 1) (dv_tag m) False (t_conn t) = (Inr 0, st1)"
      "put_out (wire_frame (ack_frame 1 m)) ss (t_conn t) st1" "source fs st1" "advances (t_conn t) st1"
    using acknowledges [OF assms(1) a] by blast
  obtain st2 where st2: "amqp_maybe_release_buffers st1 = (Inr (), st2)" "source fs st2" "aside st1 st2"
      "os st2 = os st1" "bytes_left st2 = bytes_left st1"
    using releases [OF st1(3)] by blast
  have "has_acked [ack_frame 1 m] ss (t_conn t) st2"
    using has_acked_trans [OF put_out_acked [OF st1(2)] aside_acked [OF st2(3)]] st1(2) by (simp add: put_out_def)
  moreover have "advances (t_conn t) st2" using st1(4) st2(4,5) by (simp add: advances_def)
  ultimately show ?thesis
    using False st1(1) st2(1,2)
    by (intro exI [of _ st2]) (simp add: t_bind_def t_return_def on_conn_def die_amqp_error_def acks_for_def)
qed

lemma consume_one_pipes:
  assumes "source (content_header channel m # map (body_frame channel) (dv_fragments m) @ fs) (t_conn t)"
    and "queued_frames (t_conn t) = []" "t_codes t = []" "whole_body m" "takes (t_writes t) (dv_fragments m) = Some rs"
    and "w = pipe_end (t_open t)" "can_ack no_ack (t_conn t)"
    and "absorbs_frames (acks_for no_ack [m]) (w_send (os (t_conn t))) = Some ss"
  shows "\<exists>st'. consume_one no_ack (dv_tag m) t
      = (Inr (), t\<lparr>t_conn := st', t_writes := rs, t_output := t_output t @ map (Pair w) (dv_fragments m)\<rparr>)
    \<and> source fs st' \<and> has_acked (acks_for no_ack [m]) ss (t_conn t) st' \<and> advances (t_conn t) st'"
proof -
  let ?cs = "dv_fragments m" and ?t = "t\<lparr>t_open := w # t_open t\<rparr>"
  have src: "source (content_header channel m # map (body_frame channel) ?cs @ fs) (t_conn ?t)" "queued_frames (t_conn ?t) = []"
    "takes (t_writes ?t) ?cs = Some rs" using assms(1,2,5) by simp_all
  obtain cls raw where h: "frame_payload (content_header channel m)
      = Properties_payload cls (of_nat (length (concat ?cs))) (Basic_properties (dv_properties m)) raw"
    using content_header_fields(2) by blast
  have body: "ends_with_bytes ?cs" "length (concat ?cs) < 2 ^ 64" using assms(4) by (simp_all add: whole_body_def)
  obtain st1 where st1: "copy_body w ?t = (Inr (), ?t\<lparr>t_conn := st1, t_writes := rs, t_output := t_output t @ map (Pair w) ?cs\<rparr>)"
      "source fs st1" "aside (t_conn t) st1" "advances (t_conn t) st1"
    using copy_body_whole [OF src(1,2) content_header_fields(1) h refl body src(3), of w] by auto
  let ?t1 = "t\<lparr>t_conn := st1, t_writes := rs, t_output := t_output t @ map (Pair w) ?cs\<rparr>"
  note acked1 = aside_acked [OF st1(3)]
  have "source fs (t_conn ?t1)" "can_ack no_ack (t_conn ?t1)"
    "absorbs_frames (acks_for no_ack [m]) (w_send (os (t_conn ?t1))) = Some ss"
    using st1(2) assms(7,8) acked1 has_acked_can_ack [OF acked1, of no_ack] by (simp_all add: has_acked_def)
  from acks_or_not [OF this] obtain st2 where
    st2: "t_bind (if \<not> no_ack then t_bind (on_conn (amqp_basic_ack 1 (dv_tag m) False)) die_amqp_error else t_return ())
        (\<lambda>_. on_conn amqp_maybe_release_buffers) ?t1 = (Inr (), ?t1\<lparr>t_conn := st2\<rparr>)"
      "source fs st2" "has_acked (acks_for no_ack [m]) ss st1 st2"
      "advances st1 st2 \<or> calls_left (os st2) = calls_left (os st1) \<and> bytes_left st2 = bytes_left st1" by auto
  have "consume_one no_ack (dv_tag m) t = (Inr (), ?t1\<lparr>t_conn := st2\<rparr>)"
    using pipeline_opens [OF assms(3)] st1(1) st2(1) assms(3,6)
    by (simp add: consume_one_def t_bind_def [of pipeline] t_bind_def [of "copy_body _"] t_bind_def [of "finish_pipeline _"]
        finish_pipeline_closes [where fds = "t_open t"])
  moreover have "advances (t_conn t) st2" using st1(4) st2(4) by (auto simp: advances_def)
  ultimately show ?thesis using st2(2) has_acked_trans [OF acked1 st2(3)] by (intro exI [of _ st2]) simp
qed

lemma consume_loop_pipes:
  assumes "source (concat (map (delivery_frames channel) ms) @ fs) (t_conn t)"
    and "queued_frames (t_conn t) = []" "t_codes t = []" "list_all whole_body ms"
    and "takes (t_writes t) (concat (map dv_fragments ms)) = Some rs" "w = pipe_end (t_open t)"
    and "can_ack no_ack (t_conn t)" "absorbs_frames (acks_for no_ack ms) (w_send (os (t_conn t))) = Some ss"
    and "0 \<le> i"
  shows "\<exists>st'. consume_loop no_ack (i + int (length ms)) i t
      = (Inr (), t\<lparr>t_conn := st', t_writes := rs, t_output := t_output t @ map (Pair w) (concat (map dv_fragments ms))\<rparr>)
    \<and> source fs st' \<and> has_acked (acks_for no_ack ms) ss (t_conn t) st'"
  using assms
proof (induction ms arbitrary: t i)
  case Nil
  then have "t = t\<lparr>t_writes := rs\<rparr>" by simp
  with Nil show ?case
    by (intro exI [of _ "t_conn t"]) (simp add: consume_loop.simps [of _ _ _ t] has_acked_def)
next
  case (Cons m ms)
  let ?fs = "concat (map (delivery_frames channel) ms) @ fs"
  obtain rs1 where rs1: "takes (t_writes t) (dv_fragments m) = Some rs1" "takes rs1 (concat (map dv_fragments ms)) = Some rs"
    using Cons.prems(5) by (auto simp: takes_append split: option.splits)
  obtain ss1 where ss1: "absorbs_frames (acks_for no_ack [m]) (w_send (os (t_conn t))) = Some ss1"
      "absorbs_frames (acks_for no_ack ms) ss1 = Some ss" "acks_for no_ack (m # ms) = acks_for no_ack [m] @ acks_for no_ack ms"
    using Cons.prems(8) by (auto simp: acks_for_def split: if_splits option.splits)
  have src: "source (deliver_frame channel m # content_header channel m # map (body_frame channel) (dv_fragments m) @ ?fs) (t_conn t)"
    using Cons.prems(1) by (simp add: delivery_frames_def [of _ m])
  obtain st1 where st1: "amqp_simple_wait_frame (t_conn t) = (Inr (0, deliver_frame channel m), st1)"
      "source (content_header channel m # map (body_frame channel) (dv_fragments m) @ ?fs) st1"
      "aside (t_conn t) st1" "advances (t_conn t) st1"
    using simple_wait_aside [OF src Cons.prems(2)] by blast
  note acked1 = aside_acked [OF st1(3)]
  have one: "can_ack no_ack st1" "w_send (os st1) = w_send (os (t_conn t))" "queued_frames st1 = []"
    using has_acked_can_ack [OF acked1] acked1 Cons.prems(2,7) by (simp_all add: has_acked_def)
  obtain st2 where st2: "consume_one no_ack (dv_tag m) (t\<lparr>t_conn := st1\<rparr>)
        = (Inr (), t\<lparr>t_conn := st2, t_writes := rs1, t_output := t_output t @ map (Pair w) (dv_fragments m)\<rparr>)"
      "source ?fs st2" "has_acked (acks_for no_ack [m]) ss1 st1 st2" "advances st1 st2"
    using consume_one_pipes [of channel m ?fs "t\<lparr>t_conn := st1\<rparr>" rs1 w no_ack ss1] st1(2) one Cons.prems(3,4,6) rs1(1) ss1(1)
    by auto
  note acked2 = has_acked_trans [OF acked1 st2(3)]
  let ?t = "t\<lparr>t_conn := st2, t_writes := rs1, t_output := t_output t @ map (Pair w) (dv_fragments m)\<rparr>"
  have "consume_loop no_ack (i + int (length (m # ms))) i t = consume_loop no_ack (i + int (length (m # ms))) (i + 1) ?t"
    using st1(1) st2(1) advances_trans [OF st1(4) st2(4)] Cons.prems(9)
    by (simp add: consume_loop.simps [of _ _ _ t] on_conn_def frame_taken_def)
  moreover have "i + int (length (m # ms)) = (i + 1) + int (length ms)" by simp
  moreover have two: "queued_frames st2 = []" "can_ack no_ack st2" "w_send (os st2) = ss1"
    using acked2 has_acked_can_ack [OF acked2] Cons.prems(2,7) by (simp_all add: has_acked_def)
  obtain st' where "consume_loop no_ack ((i + 1) + int (length ms)) (i + 1) ?t
        = (Inr (), ?t\<lparr>t_conn := st', t_writes := rs,
             t_output := t_output ?t @ map (Pair w) (concat (map dv_fragments ms))\<rparr>)"
      "source fs st'" "has_acked (acks_for no_ack ms) ss st2 st'"
    using Cons.IH [of ?t "i + 1"] st2(2) two Cons.prems(3,4,6,9) rs1(2) ss1(2) by auto
  ultimately show ?case
    using has_acked_trans [OF acked2, of "acks_for no_ack ms" ss st'] by (auto simp: ss1(3) add.assoc)
qed

end

lemma released_all:
  assumes "steady st" "is_ready M (inp st)"
  shows "\<exists>c. fold amqp_maybe_release_buffers_on_channel chs st = st\<lparr>inp := c\<rparr> \<and> is_ready M c"
  using assms
proof (induction chs arbitrary: st)
  case Nil
  then show ?case by (intro exI [of _ "inp st"]) simp
next
  case (Cons ch chs)
  obtain c where "amqp_maybe_release_buffers_on_channel ch st = st\<lparr>inp := c\<rparr>" "is_ready M c"
    using released [OF Cons.prems] by blast
  with Cons.IH [of "st\<lparr>inp := c\<rparr>"] Cons.prems(1) show ?case by simp
qed

interpretation releasing_wire: releasing_source frames_arrive
proof unfold_locales
  fix fs st
  assume "frames_arrive fs st"
  then obtain M gs rest where a: "steady st" "is_ready M (inp st)" "\<forall>g \<in> set gs. fits M g"
      "fs = filter (\<lambda>g. frame_type g \<noteq> FRAME_HEARTBEAT) gs" "incoming st = concat (map wire_frame gs) @ rest"
    by (auto simp: frames_arrive_def)
  obtain c where c: "fold amqp_maybe_release_buffers_on_channel (channels_with_pool (inp st)) st = st\<lparr>inp := c\<rparr>" "is_ready M c"
    using released_all [OF a(1,2)] by blast
  have "amqp_maybe_release_buffers st = (Inr (), st\<lparr>inp := c\<rparr>)"
    using c(1) a(2) by (auto simp: amqp_maybe_release_buffers_def amqp_release_buffers_def amqp_release_buffers_ok_def
        is_ready_def idle_def)
  moreover have "frames_arrive fs (st\<lparr>inp := c\<rparr>)"
    unfolding frames_arrive_def using a c(2) by (intro exI [of _ M] exI [of _ gs] exI [of _ rest]) simp
  ultimately show "\<exists>st'. amqp_maybe_release_buffers st = (Inr (), st') \<and> frames_arrive fs st'
      \<and> aside st st' \<and> os st' = os st \<and> bytes_left st' = bytes_left st"
    by (intro exI [of _ "st\<lparr>inp := c\<rparr>"]) (simp add: bytes_left_def aside_def outbound_same_def)
qed

interpretation acking_wire: acking_source frames_arrive
proof unfold_locales
  fix fs st f ss
  assume a: "frames_arrive fs st" "can_send st" "valid_frame f" "frame_size f \<le> outbound_len st"
    "absorbs (frame_size f) (w_send (os st)) = Some ss"
  have s: "steady st" using a(1) by (auto simp: frames_arrive_def)
  from send_frame_absorbs [OF a(3,4,2) s a(5)] put_out_arrive s a(1)
  show "\<exists>st'. amqp_send_frame_inner f amqp_time_infinite st = (Inr 0, st') \<and> put_out (wire_frame f) ss st st' \<and> frames_arrive fs st'"
    by blast
qed


text \<open>A message in two fragments, delivered again, with a tag the server has chosen.\<close>

definition sample_delivery :: delivery where
  "sample_delivery = \<lparr>dv_consumer_tag = ascii ''amq.ctag-1'', dv_tag = 7, dv_redelivered = True, dv_exchange = ascii ''demo'',
     dv_routing_key = ascii ''B'', dv_properties = empty_properties, dv_fragments = [[1, 2], [3]]\<rparr>"

lemma sample_delivery_frames:
  "delivery_frames 1 sample_delivery = [method_frame 1 AMQP_BASIC_DELIVER_METHOD
      (M_Basic (Basic_deliver (ascii ''amq.ctag-1'') 7 True (ascii ''demo'') (ascii ''B''))),
    set_raw (header_frame 1 3 empty_properties), body_frame 1 [1, 2], body_frame 1 [3]]"
  by (simp add: delivery_frames_def deliver_frame_def content_header_def sample_delivery_def)

lemma sample_delivery_fits: "f \<in> set (delivery_frames 1 sample_delivery) \<Longrightarrow> fits 4096 f \<and> frame_type f \<noteq> FRAME_HEARTBEAT"
  unfolding sample_delivery_frames
  by (auto simp: fits_4096 method_frame_def header_frame_def body_frame_def frame_size_def wire_basic.simps wire_shortstr_def
      be16_def be64_def wire_properties_def wire_flags_def empty_properties_def valid_frame_def set_raw_def valid_basic.simps
      valid_properties_def valid_flags_def valid_basic_properties_def valid_flagged_def wire_basic_properties_def wire_flagged_def
      UINT8_MAX_def ascii_def)


text \<open>A frame that is no delivery uses up one of the messages to receive.\<close>

lemma other_frame_counts:
  assumes "i < count" "on_conn amqp_simple_wait_frame t = (Inr (0, frame), t1)" "delivery_of frame = Inr None"
    and "frame_taken (t_conn t) (t_conn t1)"
  shows "consume_loop no_ack count i t = consume_loop no_ack count (i + 1) t1"
  using assms by (simp add: consume_loop.simps [of _ _ _ t])

end
