(* ===== verification/Amqp_Envelope.thy ===== *)
theory Amqp_Envelope
  imports Tools_Consume
begin

text \<open>
  Consuming a message: \<^verbatim>\<open>amqp_consume_message\<close> waits for a delivery and reads the message behind it into an envelope.
\<close>

section \<open>Strings on the heap\<close>

lemma malloc_dup_ok:
  assumes "heap_ok h"
  obtains b h' where "amqp_bytes_malloc_dup src h = (b, h')" "heap_ok h'" "hb_bytes b = src" "\<not> amqp_bytes_malloc_dup_failed b"
proof -
  obtain r h' where m: "malloc (length src) h = (r, h')" by fastforce
  then have "heap_ok h'" using assms by simp
  moreover have "src \<noteq> [] \<Longrightarrow> r \<noteq> None" using malloc_ok [OF assms, of "length src"] m by auto
  ultimately show thesis
    using that [of "\<lparr>hb_bytes = src, hb_block = r\<rparr>" h'] m
    by (cases "src = []") (auto simp: amqp_bytes_malloc_dup_def amqp_bytes_malloc_dup_failed_def)
qed

lemma with_heap_dup:
  assumes "heap_ok (c_heap (inp st))"
  obtains b h where "with_heap (amqp_bytes_malloc_dup src) st = (Inr b, set_heap h st)" "heap_ok h" "hb_bytes b = src"
    "\<not> amqp_bytes_malloc_dup_failed b"
proof -
  obtain b h where "amqp_bytes_malloc_dup src (c_heap (inp st)) = (b, h)" "heap_ok h" "hb_bytes b = src"
    "\<not> amqp_bytes_malloc_dup_failed b" by (rule malloc_dup_ok [OF assms])
  then show thesis using that [of b h] by (simp add: with_heap_def)
qed

section \<open>The envelope\<close>

text \<open>What an envelope says of a delivery and its message.\<close>

definition envelope_holds :: "amqp_envelope \<Rightarrow> u16 \<Rightarrow> basic_method \<Rightarrow> amqp_basic_properties \<Rightarrow> amqp_bytes \<Rightarrow> bool" where
  "envelope_holds env channel m p body \<longleftrightarrow>
    m = Basic_deliver (hb_bytes (env_consumer_tag env)) (env_delivery_tag env) (env_redelivered env)
      (hb_bytes (env_exchange env)) (hb_bytes (env_routing_key env))
    \<and> env_channel env = channel \<and> msg_properties (env_message env) = p \<and> hb_bytes (msg_body (env_message env)) = body"

lemma consume_delivery_reads:
  assumes "heap_ok (c_heap (inp st))"
    and "\<And>h. heap_ok h \<Longrightarrow> \<exists>msg st'. amqp_read_message channel (set_heap h st) = (Inr (rpc_reply AMQP_RESPONSE_NORMAL None, msg), st')
      \<and> msg_properties msg = p \<and> hb_bytes (msg_body msg) = body \<and> P st'"
  shows "\<exists>env st'. consume_delivery channel consumer_tag tag redelivered exchange routing_key st
      = (Inr (rpc_reply AMQP_RESPONSE_NORMAL None, env), st')
    \<and> envelope_holds env channel (Basic_deliver consumer_tag tag redelivered exchange routing_key) p body \<and> P st'"
proof -
  obtain b1 h1 where 1: "with_heap (amqp_bytes_malloc_dup consumer_tag) st = (Inr b1, set_heap h1 st)" "heap_ok h1"
    "hb_bytes b1 = consumer_tag" "\<not> amqp_bytes_malloc_dup_failed b1" by (rule with_heap_dup [OF assms(1)])
  have "heap_ok (c_heap (inp (set_heap h1 st)))" using 1(2) by (simp add: set_heap_def)
  then obtain b2 h2 where 2: "with_heap (amqp_bytes_malloc_dup exchange) (set_heap h1 st) = (Inr b2, set_heap h2 (set_heap h1 st))"
    "heap_ok h2" "hb_bytes b2 = exchange" "\<not> amqp_bytes_malloc_dup_failed b2" by (rule with_heap_dup)
  have "heap_ok (c_heap (inp (set_heap h2 (set_heap h1 st))))" using 2(2) by (simp add: set_heap_def)
  then obtain b3 h3 where 3: "with_heap (amqp_bytes_malloc_dup routing_key) (set_heap h2 (set_heap h1 st))
      = (Inr b3, set_heap h3 (set_heap h2 (set_heap h1 st)))"
    "heap_ok h3" "hb_bytes b3 = routing_key" "\<not> amqp_bytes_malloc_dup_failed b3" by (rule with_heap_dup)
  have "set_heap h3 (set_heap h2 (set_heap h1 st)) = set_heap h3 st" by (simp add: set_heap_def)
  moreover obtain msg st' where "amqp_read_message channel (set_heap h3 st) = (Inr (rpc_reply AMQP_RESPONSE_NORMAL None, msg), st')"
      "msg_properties msg = p" "hb_bytes (msg_body msg) = body" "P st'"
    using assms(2) [OF 3(2)] by blast
  ultimately show ?thesis
    using 1 2 3 by (simp add: consume_delivery_def io_bind_def io_return_def Let_def rpc_reply_def envelope_holds_def)
qed

context ticking_source
begin

lemma consume_message_reads:
  assumes "source (d # gs0 @ f # concat (map (\<lambda>(gs, c). gs @ [body_frame channel c]) L) @ fs) st" "queued_frames st = []"
    and "d = method_frame channel AMQP_BASIC_DELIVER_METHOD (M_Basic m)" "m = Basic_deliver consumer_tag tag redelivered exchange routing_key"
    and "\<And>g. g \<in> set gs0 \<Longrightarrow> frame_channel g \<noteq> channel"
    and "\<And>gs c. (gs, c) \<in> set L \<Longrightarrow> c \<noteq> [] \<and> (\<forall>g \<in> set gs. frame_channel g \<noteq> channel)"
    and "frame_type f = FRAME_HEADER" "frame_channel f = channel"
    and "frame_payload f = Properties_payload cls (of_nat (length body)) (Basic_properties p) raw"
    and "body = concat (map snd L)" "length body < 2 ^ 64" "yields (amqp_basic_properties_clone p) (Inr p)"
  shows "\<exists>env st'. amqp_consume_message None st = (Inr (rpc_reply AMQP_RESPONSE_NORMAL None, env), st')
    \<and> envelope_holds env channel m p body \<and> source fs st' \<and> queued_frames st' = gs0 @ concat (map fst L)"
proof -
  let ?F = "gs0 @ f # concat (map (\<lambda>(gs, c). gs @ [body_frame channel c]) L) @ fs"
  obtain st1 where st1: "amqp_simple_wait_frame st = (Inr (0, d), st1)" "source ?F st1" "queued_frames st1 = []"
    using simple_wait_finds [OF assms(1,2)] by blast
  let ?P = "\<lambda>st'. source fs st' \<and> queued_frames st' = gs0 @ concat (map fst L)"
  have read: "\<exists>msg st'. amqp_read_message channel (set_heap h st1) = (Inr (rpc_reply AMQP_RESPONSE_NORMAL None, msg), st')
      \<and> msg_properties msg = p \<and> hb_bytes (msg_body msg) = body \<and> ?P st'" if "heap_ok h" for h
  proof -
    have s: "source ?F (set_heap h st1)" using any_heap [OF st1(2) that] by (simp add: set_heap_def)
    have q: "g \<in> set (queued_frames (set_heap h st1)) \<Longrightarrow> frame_channel g \<noteq> channel" for g
      using st1(3) by (simp add: set_heap_def)
    from read_message_reassembles [OF s assms(5,6) q assms(7-12)] st1(3) show ?thesis
      by (simp add: set_heap_def) blast
  qed
  obtain env st' where "consume_delivery channel consumer_tag tag redelivered exchange routing_key st1
      = (Inr (rpc_reply AMQP_RESPONSE_NORMAL None, env), st')" "envelope_holds env channel m p body" "?P st'"
    using consume_delivery_reads [OF has_heap [OF st1(2)] read] unfolding assms(4) by blast
  moreover have "amqp_consume_message None st = consume_delivery channel consumer_tag tag redelivered exchange routing_key st1"
    using st1(1) assms(3,4)
    by (simp add: amqp_consume_message_def amqp_simple_wait_frame_def [symmetric] io_bind_def frame_method_def method_frame_def)
  ultimately show ?thesis by auto
qed

end

text \<open>
  C8. A delivery is consumed whole: when the frames of a delivery and its message arrive, \<^verbatim>\<open>amqp_consume_message\<close> without a timeout
  returns an envelope with the consumer tag, the delivery tag, the exchange and the routing key of the delivery and with the
  properties and the body of the message, in whatever pieces the body was cut and past frames of other channels,
  which are put into the queue.
\<close>

theorem delivery_consumed_whole:
  assumes "frames_arrive (method_frame channel AMQP_BASIC_DELIVER_METHOD (M_Basic m)
      # hdr # concat (map (\<lambda>(gs, c). gs @ [body_frame channel c]) L) @ fs) st" "queued_frames st = []"
    and "m = Basic_deliver consumer_tag tag redelivered exchange routing_key"
    and "hdr = set_raw (header_frame channel (of_nat (length body)) p)"
    and "\<forall>(gs, c) \<in> set L. c \<noteq> [] \<and> (\<forall>g \<in> set gs. frame_channel g \<noteq> channel)"
    and "body = concat (map snd L)" "length body < 2 ^ 64" "valid_basic_properties p" "headers_clonable p"
  shows "\<exists>env st'. amqp_consume_message None st = (Inr (rpc_reply AMQP_RESPONSE_NORMAL None, env), st')
    \<and> envelope_holds env channel m p body \<and> frames_arrive fs st' \<and> queued_frames st' = concat (map fst L)"
proof -
  have h: "frame_type hdr = FRAME_HEADER" "frame_channel hdr = channel"
    "frame_payload hdr = Properties_payload 60 (of_nat (length body)) (Basic_properties p) (wire_properties (Basic_properties p))"
    by (simp_all add: assms(4) header_frame_def set_raw_def)
  have src: "frames_arrive (method_frame channel AMQP_BASIC_DELIVER_METHOD (M_Basic m)
      # [] @ hdr # concat (map (\<lambda>(gs, c). gs @ [body_frame channel c]) L) @ fs) st" using assms(1) by simp
  from ticking_wire.consume_message_reads [OF src assms(2) refl assms(3) _ _ h assms(6,7) clone_properties_yields [OF assms(8,9)]] assms(5)
  show ?thesis by fastforce
qed

theorem delivery_consumed_whole_witness:
  "\<exists>env st'. amqp_consume_message None (open_connection (map (Received \<circ> wire_frame) (delivery_frames 1 sample_delivery)) [] [])
      = (Inr (rpc_reply AMQP_RESPONSE_NORMAL None, env), st')
    \<and> env_delivery_tag env = 7 \<and> env_redelivered env \<and> hb_bytes (msg_body (env_message env)) = [1, 2, 3]"
proof -
  let ?fs = "delivery_frames 1 sample_delivery"
  let ?st = "open_connection (map (Received \<circ> wire_frame) ?fs) [] []"
  let ?L = "[([], [1, 2]), ([], [3])] :: (amqp_frame list \<times> amqp_bytes) list"
  have "incoming ?st = concat (map wire_frame ?fs) @ []"
    using sample_delivery_fits unfolding sample_delivery_frames by (simp add: received_frame fits_4096 del: arriving.simps(2))
  then have "frames_arrive ?fs ?st"
    unfolding frames_arrive_def using sample_delivery_fits by (intro exI [of _ 4096] exI [of _ ?fs] exI [of _ "[]"]) simp
  then have a: "frames_arrive (method_frame 1 AMQP_BASIC_DELIVER_METHOD (M_Basic (Basic_deliver (ascii ''amq.ctag-1'') 7 True (ascii ''demo'') (ascii ''B'')))
      # set_raw (header_frame 1 (of_nat (length [1, 2, 3 :: u8])) empty_properties)
      # concat (map (\<lambda>(gs, c). gs @ [body_frame 1 c]) ?L) @ []) ?st"
    unfolding sample_delivery_frames by simp
  from delivery_consumed_whole [OF a _ refl refl _ _ _ sample_header(4,5)] show ?thesis
    by (auto simp: envelope_holds_def)
qed

end
