(* ===== verification/Tools_Publish.thy ===== *)
theory Tools_Publish
  imports Tools_Common
begin

text \<open>
  The tool \<^verbatim>\<open>amqp-publish\<close> (\<^verbatim>\<open>tools/publish.c\<close>): the message properties from the options, the headers among
  them, and the messages from an option, from all of standard input or from each of its lines.

  The variables the options set are the record \<open>publish_options\<close>; parsing the command line is the work of
  another library. Standard input is read line by line through the buffers of the C library, whose reads are
  taken to succeed.
\<close>

section \<open>The message properties\<close>

record publish_options =
  opt_exchange :: "amqp_bytes option"
  opt_routing_key :: "amqp_bytes option"
  opt_delivery :: u8
  opt_content_type :: "amqp_bytes option"
  opt_content_encoding :: "amqp_bytes option"
  opt_headers :: "amqp_bytes list"
  opt_reply_to :: "amqp_bytes option"
  opt_body :: "amqp_bytes option"
  opt_line_buffered :: bool

text \<open>A header is a key and a value behind the first colon; blanks in front of the value are skipped.\<close>

definition header_entry :: "amqp_bytes \<Rightarrow> amqp_table_entry option" where
  "header_entry pos =
    (case dropWhile (\<lambda>c. c \<noteq> 0x3A) pos of
       [] \<Rightarrow> None
     | _ # colon \<Rightarrow>
         Some (amqp_cstring_bytes (takeWhile (\<lambda>c. c \<noteq> 0x3A) pos),
               FV_Utf8 (amqp_cstring_bytes (dropWhile (\<lambda>c. c = 0x20) colon))))"

text \<open>
  The table has an entry for every \<^verbatim>\<open>--header\<close>; those left over, for the ones without a colon, stay as
  \<^verbatim>\<open>calloc\<close> made them.
\<close>

definition header_table :: "amqp_bytes list \<Rightarrow> amqp_table" where
  "header_table headers =
    (let entries = List.map_filter header_entry headers
     in entries @ replicate (length headers - length entries) ([], FV_Other 0))"

definition flag_if :: "bool \<Rightarrow> amqp_flags \<Rightarrow> amqp_flags" where
  "flag_if given flag = (if given then flag else 0)"

definition publish_properties :: "publish_options \<Rightarrow> amqp_basic_properties" where
  "publish_properties opts =
    empty_properties
      \<lparr>bp_flags := AMQP_BASIC_DELIVERY_MODE_FLAG
          OR flag_if (opt_content_type opts \<noteq> None) AMQP_BASIC_CONTENT_TYPE_FLAG
          OR flag_if (opt_content_encoding opts \<noteq> None) AMQP_BASIC_CONTENT_ENCODING_FLAG
          OR flag_if (opt_reply_to opts \<noteq> None) AMQP_BASIC_REPLY_TO_FLAG
          OR flag_if (opt_headers opts \<noteq> []) AMQP_BASIC_HEADERS_FLAG,
       bp_delivery_mode := Some (opt_delivery opts),
       bp_content_type := map_option amqp_cstring_bytes (opt_content_type opts),
       bp_content_encoding := map_option amqp_cstring_bytes (opt_content_encoding opts),
       bp_reply_to := map_option amqp_cstring_bytes (opt_reply_to opts),
       bp_headers := (if opt_headers opts = [] then None else Some (header_table (opt_headers opts)))\<rparr>"

section \<open>Publishing\<close>

definition do_publish :: "publish_options \<Rightarrow> amqp_basic_properties \<Rightarrow> amqp_bytes \<Rightarrow> unit run" where
  "do_publish opts props body =
    t_bind (on_conn (amqp_basic_publish 1 (cstring_bytes (opt_exchange opts)) (cstring_bytes (opt_routing_key opts))
              False False (Some props) body)) die_amqp_error"

definition MAX_LINE_LENGTH :: nat where "MAX_LINE_LENGTH = 32768"

text \<open>\<^verbatim>\<open>fgets\<close> into a buffer of \<open>n\<close> bytes: the bytes up to the newline, at most \<open>n - 1\<close>, and what is behind them.\<close>

definition fgets :: "nat \<Rightarrow> amqp_bytes \<Rightarrow> (amqp_bytes \<times> amqp_bytes) option" where
  "fgets n input =
    (if input = [] then None
     else
       (let line = take (n - 1) (takeWhile (\<lambda>c. c \<noteq> 0x0A) input @ take 1 (dropWhile (\<lambda>c. c \<noteq> 0x0A) input))
        in Some (line, drop (length line) input)))"

text \<open>The length of a line is that of the string in the buffer, which ends at a zero byte.\<close>

function publish_lines :: "publish_options \<Rightarrow> amqp_basic_properties \<Rightarrow> unit run" where
  "publish_lines opts props t =
    (case fgets MAX_LINE_LENGTH (t_input t) of
       None \<Rightarrow> (Inr (), t)
     | Some (line, rest) \<Rightarrow>
         (case do_publish opts props (amqp_cstring_bytes line) (t\<lparr>t_input := rest\<rparr>) of
            (Inl e, t1) \<Rightarrow> (Inl e, t1)
          | (Inr _, t1) \<Rightarrow>
              if length (t_input t1) < length (t_input t) then publish_lines opts props t1
              else (Inl (Fault Out_of_fuel), t1)))"
  by pat_completeness auto
termination by (relation "measure (\<lambda>(opts, props, t). length (t_input t))") auto

declare publish_lines.simps [simp del]

text \<open>What \<^verbatim>\<open>main\<close> does between connecting and disconnecting.\<close>

definition publish_input :: "publish_options \<Rightarrow> amqp_basic_properties \<Rightarrow> unit run" where
  "publish_input opts props =
    t_bind (case opt_body opts of
              Some body \<Rightarrow> t_return (amqp_cstring_bytes body)
            | None \<Rightarrow>
                if opt_line_buffered opts then t_bind (publish_lines opts props) (\<lambda>_. t_return [])
                else read_all)
      (\<lambda>body_bytes. if \<not> opt_line_buffered opts then do_publish opts props body_bytes else t_return ())"

definition publish_main :: "unit run \<Rightarrow> publish_options \<Rightarrow> nat run" where
  "publish_main connect opts =
    (if opt_exchange opts = None \<and> opt_routing_key opts = None then t_return 1
     else
       t_bind connect (\<lambda>_.
       t_bind (publish_input opts (publish_properties opts)) (\<lambda>_.
       t_bind close_connection (\<lambda>_. t_return 0))))"

section \<open>Encoders that fail\<close>

definition never_encodes :: "enc \<Rightarrow> bool" where
  "never_encodes f \<longleftrightarrow> (\<forall>st st'. f st \<noteq> (None, st'))"

named_theorems never_intros \<open>encoders that fail\<close>

lemma never_fail [never_intros]: "never_encodes (e_fail s)"
  by (simp add: never_encodes_def e_fail_def)

lemma never_seq [never_intros]: "never_encodes f \<or> never_encodes g \<Longrightarrow> never_encodes (e_seq f g)"
  by (auto simp: never_encodes_def e_seq_def split: prod.splits option.splits)

lemma never_block [never_intros]: "\<exists>f \<in> set fs. never_encodes f \<Longrightarrow> never_encodes (e_block fs)"
proof (induction fs)
  case (Cons f fs)
  have "e_block (f # fs) = e_seq f (e_block fs)" by (rule ext) simp
  with Cons never_seq [of f "e_block fs"] show ?case by auto
qed simp

lemma never_sized [never_intros]: "\<exists>f \<in> set fs. never_encodes f \<Longrightarrow> never_encodes (encode_sized fs)"
  using never_block [of fs]
  by (auto simp: never_encodes_def encode_sized_def split: prod.splits option.splits)

lemma never_table:
  assumes "(key, FV_Other k) \<in> set t"
  shows "never_encodes (amqp_encode_table t)"
proof -
  have "never_encodes (amqp_encode_field_value (FV_Other k))"
    by (subst amqp_encode_field_value.simps) (auto intro!: never_intros)
  then have "never_encodes (e_block [e_try AMQP_STATUS_TABLE_TOO_BIG (amqp_encode_8 (of_nat (length key))),
      e_try AMQP_STATUS_TABLE_TOO_BIG (amqp_encode_bytes key), amqp_encode_field_value (FV_Other k)])"
    by (intro never_block) simp
  then show ?thesis unfolding amqp_encode_table_def
    by (intro never_sized) (use assms in \<open>force simp del: e_block.simps amqp_encode_field_value.simps\<close>)
qed

lemma never_properties:
  assumes "bp_flags p AND AMQP_BASIC_HEADERS_FLAG \<noteq> 0" "bp_headers p = Some t" "(key, FV_Other k) \<in> set t"
  shows "never_encodes (encode_properties_body 60 (Basic_properties p))"
proof -
  have "never_encodes (encode_basic_properties (bp_flags p) p)" unfolding encode_basic_properties_def
    by (rule never_block) (use assms never_table [OF assms(3)] in \<open>simp add: e_flagged_def\<close>)
  then show ?thesis
    by (simp add: encode_properties_body_def encode_properties_switch_def never_seq)
qed

text \<open>
  Their failure is a status: an encoder does not write out of the buffer, moves the offset forward, and reports no
  success as a failure. The offset may be up to \<open>k\<close> bytes behind the buffer, where \<open>encode_sized\<close> starts.
\<close>

definition sane :: "nat \<Rightarrow> enc \<Rightarrow> bool" where
  "sane k f \<longleftrightarrow> (\<forall>buf off. in_memory buf \<longrightarrow> off \<le> length buf + k \<longrightarrow>
     (case f (buf, off) of
        (None, buf', off') \<Rightarrow> length buf' = length buf \<and> off \<le> off' \<and> off' \<le> max off (length buf)
      | (Some e, _) \<Rightarrow> \<exists>s. e = Status s \<and> s \<noteq> AMQP_STATUS_OK))"

named_theorems sane_intros \<open>encoders whose failures are statuses\<close>

lemma saneD:
  assumes "sane k f" "in_memory buf" "off \<le> length buf + k" "f (buf, off) = (r, buf', off')"
  shows "r = None \<and> length buf' = length buf \<and> off \<le> off' \<and> off' \<le> max off (length buf)
    \<or> (\<exists>s. r = Some (Status s) \<and> s \<noteq> AMQP_STATUS_OK)"
  using assms(1) [unfolded sane_def, rule_format, OF assms(2,3)] assms(4) by (cases r) simp_all

lemma sane_fail [sane_intros]: "s \<noteq> AMQP_STATUS_OK \<Longrightarrow> sane k (e_fail s)"
  by (simp add: sane_def e_fail_def)

lemma sane_base:
  assumes "s \<noteq> AMQP_STATUS_OK" "k \<le> 8" "m \<le> 8" "\<And>b off. put b off = mem_write b off bs" "length bs = m"
  shows "sane k (e_try s (encode_base m put))"
  using assms by (auto simp: sane_def e_try_def encode_base_def mem_write_def Let_def)

lemma sane_numbers [sane_intros]:
  assumes "s \<noteq> AMQP_STATUS_OK" "k \<le> 8"
  shows "sane k (e_try s (amqp_encode_8 b))" "sane k (e_try s (amqp_encode_16 w))" "sane k (e_try s (amqp_encode_32 d))"
    "sane k (e_try s (amqp_encode_64 q))"
proof -
  show "sane k (e_try s (amqp_encode_8 b))" unfolding amqp_encode_8_def
    by (rule sane_base [OF assms, of _ _ "[b]"]) (simp_all add: amqp_e8_def)
  show "sane k (e_try s (amqp_encode_16 w))" unfolding amqp_encode_16_def
    by (rule sane_base [OF assms, of _ _ "be16 w"]) (simp_all add: amqp_e16_def be16_def)
  show "sane k (e_try s (amqp_encode_32 d))" unfolding amqp_encode_32_def
    by (rule sane_base [OF assms, of _ _ "be32 d"]) (simp_all add: amqp_e32_def be32_def)
  show "sane k (e_try s (amqp_encode_64 q))" unfolding amqp_encode_64_def
    by (rule sane_base [OF assms, of _ _ "be64 q"]) (simp_all add: amqp_e64_def be64_def)
qed

lemma sane_bytes [sane_intros]:
  assumes "s \<noteq> AMQP_STATUS_OK" "k \<le> 8" "length bs < 2 ^ 62"
  shows "sane k (e_try s (amqp_encode_bytes bs))"
  using assms by (auto simp: sane_def e_try_def amqp_encode_bytes_def mem_write_def Let_def)

lemma sane_seq [sane_intros]:
  assumes "sane k f" "sane k g"
  shows "sane k (e_seq f g)"
  unfolding sane_def
proof (intro allI impI)
  fix buf :: amqp_bytes and off
  assume b: "in_memory buf" "off \<le> length buf + k"
  obtain r buf1 off1 where f: "f (buf, off) = (r, buf1, off1)" by (metis prod_cases3)
  obtain r2 buf2 off2 where g: "g (buf1, off1) = (r2, buf2, off2)" by (metis prod_cases3)
  show "case e_seq f g (buf, off) of
      (None, buf', off') \<Rightarrow> length buf' = length buf \<and> off \<le> off' \<and> off' \<le> max off (length buf)
    | (Some e, _) \<Rightarrow> \<exists>s. e = Status s \<and> s \<noteq> AMQP_STATUS_OK"
  proof (cases r)
    case None
    with saneD [OF assms(1) b f] have "length buf1 = length buf" "off \<le> off1" "off1 \<le> max off (length buf)" by auto
    moreover from this b(2) have "off1 \<le> length buf1 + k" by simp
    moreover have "in_memory buf1" using calculation(1) b(1) by simp
    ultimately show ?thesis using saneD [OF assms(2) _ _ g] None f g by (auto simp: e_seq_def split: option.split)
  next
    case (Some e)
    with saneD [OF assms(1) b f] f show ?thesis by (simp add: e_seq_def)
  qed
qed

lemma sane_block [sane_intros]: "(\<And>f. f \<in> set fs \<Longrightarrow> sane k f) \<Longrightarrow> sane k (e_block fs)"
proof (induction fs)
  case Nil
  show ?case by (simp add: sane_def)
next
  case (Cons f fs)
  have "e_block (f # fs) = e_seq f (e_block fs)" by (rule ext) simp
  with Cons sane_seq [of k f "e_block fs"] show ?case by auto
qed

lemma sane_sized:
  assumes "sane (k + 4) (e_block fs)" "k + 4 \<le> 8"
  shows "sane k (encode_sized fs)"
  unfolding sane_def
proof (intro allI impI)
  fix buf :: amqp_bytes and off
  assume b: "in_memory buf" "off \<le> length buf + k"
  have o4: "sz_add off 4 = off + 4" using b assms(2) by simp
  obtain r buf1 off1 where e: "e_block fs (buf, off + 4) = (r, buf1, off1)" by (metis prod_cases3)
  show "case encode_sized fs (buf, off) of
      (None, buf', off') \<Rightarrow> length buf' = length buf \<and> off \<le> off' \<and> off' \<le> max off (length buf)
    | (Some e, _) \<Rightarrow> \<exists>s. e = Status s \<and> s \<noteq> AMQP_STATUS_OK"
  proof (cases r)
    case (Some x)
    with saneD [OF assms(1) b(1) _ e] b(2) e o4 show ?thesis by (simp add: encode_sized_def)
  next
    case None
    with saneD [OF assms(1) b(1) _ e] b(2)
    have l: "length buf1 = length buf" "off + 4 \<le> off1" "off1 \<le> max (off + 4) (length buf)" by auto
    let ?w = "of_nat (sz_sub (sz_sub off1 off) 4) :: u32"
    show ?thesis
      using None e o4 l b assms(2)
      by (auto simp: encode_sized_def e_try_def amqp_encode_32_def encode_base_def amqp_e32_def mem_write_def be32_def Let_def)
  qed
qed

lemma sane_value [sane_intros]:
  assumes "k \<le> 8"
  shows "length bs < 2 ^ 62 \<Longrightarrow> sane k (amqp_encode_field_value (FV_Utf8 bs))" "sane k (amqp_encode_field_value (FV_Other kind))"
  using assms by (subst amqp_encode_field_value.simps; force intro!: sane_intros)+

lemma sane_table:
  assumes "\<And>key v. (key, v) \<in> set t \<Longrightarrow> length key < 2 ^ 62 \<and> sane 4 (amqp_encode_field_value v)"
  shows "sane 0 (amqp_encode_table t)"
  unfolding amqp_encode_table_def
  by (intro sane_sized sane_block) (use assms in \<open>auto intro!: sane_intros simp del: e_block.simps amqp_encode_field_value.simps\<close>)

lemma sane_flag_words: "sane 0 (encode_flag_words flags)"
proof (induction flags rule: encode_flag_words.induct)
  case (1 flags)
  then show ?case
    by (subst encode_flag_words.simps) (auto simp: Let_def intro!: sane_intros)
qed

text \<open>A header frame whose properties cannot be encoded is refused with a status, and nothing is sent.\<close>

definition refused_properties :: "amqp_basic_properties \<Rightarrow> bool" where
  "refused_properties p \<longleftrightarrow>
     never_encodes (encode_properties_body 60 (Basic_properties p)) \<and> sane 0 (encode_properties_body 60 (Basic_properties p))"

lemma refused_encode:
  assumes "refused_properties p" "in_memory part"
  obtains s part' where "amqp_encode_properties 60 (Basic_properties p) part = (Inl (Status s), part')" "s \<noteq> AMQP_STATUS_OK"
proof -
  obtain r buf off where r: "encode_properties_body 60 (Basic_properties p) (part, 0) = (r, buf, off)" by (metis prod_cases3)
  with assms(1) have "r \<noteq> None" unfolding refused_properties_def never_encodes_def by metis
  with saneD [of 0 "encode_properties_body 60 (Basic_properties p)" part 0 r buf off] r assms obtain s where "r = Some (Status s)" "s \<noteq> AMQP_STATUS_OK"
    by (auto simp: refused_properties_def)
  with r that show thesis by (simp add: amqp_encode_properties_def)
qed

lemma refused_to_bytes:
  assumes "refused_properties p" "20 \<le> length buf" "in_memory buf"
  obtains s where "amqp_frame_to_bytes (header_frame channel n p) buf = Inl (Status s)" "s \<noteq> AMQP_STATUS_OK"
proof -
  let ?f = "header_frame channel n p"
  obtain buf1 where b1: "write_all [(0, [frame_type ?f]), (1, be16 (frame_channel ?f))] buf = Some buf1" "length buf1 = length buf"
    using assms(2) write_all_length by (fastforce simp: mem_write_def be16_def)
  obtain buf2 where b2: "write_all [(HEADER_SIZE, be16 60), (HEADER_SIZE + 2, be16 0), (HEADER_SIZE + 4, be64 n)] buf1 = Some buf2"
      "length buf2 = length buf"
    using assms(2) b1(2) write_all_length by (fastforce simp: mem_write_def be16_def be64_def HEADER_SIZE_def)
  let ?n = "length buf - 20"
  have n: "sz_sub (sz_sub (sz_sub (length buf1) HEADER_SIZE) 12) FOOTER_SIZE = ?n"
    using assms(2,3) b1(2) by (simp add: HEADER_SIZE_def FOOTER_SIZE_def)
  obtain part where part: "mem_read buf2 (HEADER_SIZE + 12) ?n = Some part" "in_memory part"
    using assms(2,3) b2(2) by (simp add: mem_read_def HEADER_SIZE_def)
  obtain s part' where "amqp_encode_properties 60 (Basic_properties p) part = (Inl (Status s), part')" "s \<noteq> AMQP_STATUS_OK"
    by (rule refused_encode [OF assms(1) part(2)])
  with b1(1) b2(1) n part(1) that show thesis
    by (simp add: amqp_frame_to_bytes_def frame_body_to_bytes_def encode_slice_def header_frame_def)
qed

lemma refused_header:
  assumes "refused_properties p" "can_send st" "20 \<le> outbound_len st"
  obtains v where "amqp_send_frame_inner (header_frame channel n p) deadline st = (Inr v, st)" "v < 0"
proof -
  have b: "20 \<le> length (outbound_buffer st)" "in_memory (outbound_buffer st)" "length (outbound_buffer st) = outbound_len st"
    using assms(2,3) by (simp_all add: can_send_def)
  obtain s where s: "amqp_frame_to_bytes (header_frame channel n p) (outbound_buffer st) = Inl (Status s)" "s \<noteq> AMQP_STATUS_OK"
    by (rule refused_to_bytes [OF assms(1) b(1,2)])
  then have "amqp_send_frame_inner (header_frame channel n p) deadline st = (Inr (status_code s), st)"
    using b(3) by (simp add: amqp_send_frame_inner_def return_code_def)
  moreover have "status_code s < 0" using s(2) by (rule code_negative)
  ultimately show thesis using that by blast
qed

text \<open>The method is sent, then the header is refused.\<close>

definition publish_method :: "u16 \<Rightarrow> amqp_bytes \<Rightarrow> amqp_bytes \<Rightarrow> amqp_frame" where
  "publish_method channel exchange routing_key =
     method_frame channel AMQP_BASIC_PUBLISH_METHOD (M_Basic (Basic_publish 0 exchange routing_key False False))"

lemma basic_publish_refused:
  assumes refused: "refused_properties p" and st: "can_send st" "steady st" "20 \<le> outbound_len st"
    and f: "sendable (publish_method channel exchange routing_key) st"
    and ss: "absorbs (frame_size (publish_method channel exchange routing_key)) (w_send (os st)) = Some ss"
  obtains res st' where "amqp_basic_publish channel exchange routing_key False False (Some p) body st = (Inr res, st')" "res < 0"
    "w_sent (os st') = w_sent (os st) @ wire_frame (publish_method channel exchange routing_key)"
proof -
  let ?f = "publish_method channel exchange routing_key" and ?st0 = "st\<lparr>os := snd (read_clock (os st))\<rparr>"
  have st0: "put_out [] (w_send (os st)) st ?st0" "check_recv_heartbeat st = (Inr 0, ?st0)" "can_send ?st0" "steady ?st0"
    using st(1,2) steady_tick [of st] by (simp_all add: put_out_def incoming_def read_clock_def can_send_def
        check_recv_heartbeat_def steady_def amqp_time_has_past_def amqp_time_infinite_def)
  have "sendable ?f ?st0" using f put_out_sendable [OF st0(1)] by simp
  moreover have "absorbs_frames [?f] (w_send (os ?st0)) = Some ss" using ss by (simp add: read_clock_def)
  ultimately obtain st1 where st1: "amqp_send_frame_inner ?f amqp_time_infinite ?st0 = (Inr 0, st1)"
      "put_out (wire_frame ?f) (w_send (os st1)) ?st0 st1" "can_send st1"
    by (rule send_one [OF _ st0(3,4)])
  have "20 \<le> outbound_len st1" using st(3) st0(1) st1(2) by (simp add: put_out_def)
  then obtain v where v: "amqp_send_frame_inner (header_frame channel (of_nat (length body)) p) amqp_time_infinite st1 = (Inr v, st1)"
      "v < 0"
    by (rule refused_header [OF refused st1(3)])
  have "amqp_basic_publish channel exchange routing_key False False (Some p) body st = (Inr v, st1)"
    using st0(2) st1(1) v
    by (simp add: amqp_basic_publish_def Let_def io_bind_def io_return_def amqp_send_method_inner_def publish_method_def)
  with v(2) st0(1) st1(2) that show thesis by (simp add: put_out_def)
qed

section \<open>Headers\<close>

lemma header_table_kept:
  "list_all (\<lambda>h. 0x3A \<in> set h) headers \<Longrightarrow> header_table headers = map (the \<circ> header_entry) headers"
proof (induction headers)
  case (Cons h hs)
  then have "header_entry h \<noteq> None" by (auto simp: header_entry_def split: list.splits)
  with Cons show ?case by (auto simp: header_table_def map_filter_simps Let_def)
qed (simp add: header_table_def map_filter_simps)

lemma length_map_filter: "length (List.map_filter f xs) \<le> length xs"
  by (induction xs) (auto simp: map_filter_simps split: option.split)

lemma header_table_left_over:
  assumes "h \<in> set headers" "0x3A \<notin> set h"
  shows "([], FV_Other 0) \<in> set (header_table headers)"
proof -
  have "dropWhile (\<lambda>c. c \<noteq> 0x3A) h = []" using assms(2) by auto
  then have n: "header_entry h = None" by (simp add: header_entry_def del: dropWhile_eq_Nil_conv)
  obtain as bs where "headers = as @ h # bs" using assms(1) by (metis split_list)
  with n have "List.map_filter header_entry headers = List.map_filter header_entry as @ List.map_filter header_entry bs"
    by (simp add: map_filter_def)
  with length_map_filter [of header_entry as] length_map_filter [of header_entry bs] \<open>headers = as @ h # bs\<close>
  have "length (List.map_filter header_entry headers) < length headers" by simp
  then show ?thesis by (auto simp: header_table_def Let_def)
qed

text \<open>With a colon in every header the properties are valid and are encoded as they are.\<close>

lemma header_entry_short:
  "h \<in> set hs \<Longrightarrow> 0x3A \<in> set h \<Longrightarrow> length h \<le> 255 \<Longrightarrow>
    (case the (header_entry h) of (key, value) \<Rightarrow> length key \<le> 255 \<and> valid_field_value value)"
  using length_takeWhile_le [of "\<lambda>c. c \<noteq> 0x3A" h] length_takeWhile_le [of "\<lambda>c. c \<noteq> 0" "takeWhile (\<lambda>c. c \<noteq> 0x3A) h"]
    length_dropWhile_le [of "\<lambda>c. c \<noteq> 0x3A" h]
  by (auto simp: header_entry_def amqp_cstring_bytes_def valid_field_value.simps split: list.splits
      intro: le_less_trans [OF order_trans [OF length_takeWhile_le length_dropWhile_le]])

lemma publish_properties_valid:
  assumes "list_all (\<lambda>h. 0x3A \<in> set h \<and> length h \<le> 255) (opt_headers opts)"
    and "length (concat (map wire_entry (header_table (opt_headers opts)))) < 2 ^ 32"
    and "\<forall>s \<in> set_option (opt_content_type opts) \<union> set_option (opt_content_encoding opts) \<union> set_option (opt_reply_to opts).
      length (amqp_cstring_bytes s) \<le> 255"
  shows "valid_basic_properties (publish_properties opts)"
proof -
  have "valid_table (header_table (opt_headers opts))"
    using assms(1,2) header_table_kept [of "opt_headers opts"] header_entry_short
    by (auto simp: valid_table_def list_all_iff)
  with assms(3) show ?thesis
    by (cases "opt_headers opts = []"; cases "opt_content_type opts"; cases "opt_content_encoding opts"; cases "opt_reply_to opts")
      (simp_all add: publish_properties_def valid_basic_properties_def valid_flagged_def flag_if_def empty_properties_def
        valid_flags_def UINT8_MAX_def)
qed

section \<open>Lines\<close>

text \<open>A line is never empty, fits into the buffer, and only its last byte is a newline.\<close>

lemma fgets_line:
  assumes "fgets n input = Some (line, rest)" "1 < n"
  shows "input = line @ rest" "line \<noteq> []" "length line < n" "0x0A \<notin> set (butlast line)"
    "last line = 0x0A \<or> length line = n - 1 \<or> rest = []"
proof -
  let ?P = "\<lambda>c :: u8. c \<noteq> 0x0A"
  let ?line = "takeWhile ?P input @ take 1 (dropWhile ?P input)"
  have "input \<noteq> []" and line: "line = take (n - 1) ?line" and rest: "rest = drop (length line) input"
    using assms(1) by (auto simp: fgets_def Let_def split: if_splits)
  have i: "input = ?line @ drop 1 (dropWhile ?P input)"
    by (metis append.assoc append_take_drop_id takeWhile_dropWhile_id)
  then have "line @ drop (n - 1) ?line @ drop 1 (dropWhile ?P input) = input"
    unfolding line by (metis append.assoc append_take_drop_id)
  then show "input = line @ rest" unfolding rest by (metis append_eq_conv_conj)
  have "?line \<noteq> []" using \<open>input \<noteq> []\<close> i by (cases "dropWhile ?P input") auto
  then show "line \<noteq> []" "length line < n" using assms(2) line by auto
  have full: "0x0A \<notin> set (butlast ?line)" "dropWhile ?P input \<noteq> [] \<Longrightarrow> last ?line = 0x0A"
    using hd_dropWhile [of ?P input]
    by (cases "dropWhile ?P input"; auto simp: butlast_append dest: set_takeWhileD in_set_butlastD)+
  obtain tail where tail: "?line = line @ tail" unfolding line using append_take_drop_id by metis
  have "set (butlast line) \<subseteq> set (butlast ?line)"
    unfolding tail by (cases "tail = []") (auto simp: butlast_append dest: in_set_butlastD)
  then show "0x0A \<notin> set (butlast line)" using full(1) by auto
  show "last line = 0x0A \<or> length line = n - 1 \<or> rest = []"
  proof (cases "n - 1 < length ?line")
    case True
    then show ?thesis unfolding line by simp
  next
    case False
    then have "line = ?line" unfolding line by (simp only: take_all not_less)
    with full(2) i rest show ?thesis by (cases "dropWhile ?P input") auto
  qed
qed

lemma do_publish_input: "do_publish opts props body t = (r, t') \<Longrightarrow> t_input t' = t_input t"
  by (auto simp: do_publish_def t_bind_def on_conn_def die_amqp_error_def t_return_def die_def split: prod.splits sum.splits if_splits)

text \<open>Every line is published as a message of its own, up to its first zero byte.\<close>

lemma publish_lines_step:
  "publish_lines opts props t =
    (case fgets MAX_LINE_LENGTH (t_input t) of
       None \<Rightarrow> (Inr (), t)
     | Some (line, rest) \<Rightarrow>
         t_bind (do_publish opts props (amqp_cstring_bytes line)) (\<lambda>_. publish_lines opts props) (t\<lparr>t_input := rest\<rparr>))"
proof (cases "fgets MAX_LINE_LENGTH (t_input t)")
  case (Some x)
  obtain line rest where x: "fgets MAX_LINE_LENGTH (t_input t) = Some (line, rest)" using Some by (cases x) simp
  note f = fgets_line [OF x, unfolded MAX_LINE_LENGTH_def, simplified]
  obtain r t1 where d: "do_publish opts props (amqp_cstring_bytes line) (t\<lparr>t_input := rest\<rparr>) = (r, t1)" by fastforce
  have "length (t_input t1) < length (t_input t)" using do_publish_input [OF d] f(1,2) by simp
  with x d show ?thesis by (simp add: publish_lines.simps [of _ _ t] t_bind_def split: sum.split)
qed (simp add: publish_lines.simps [of _ _ t])

text \<open>With \<^verbatim>\<open>--body\<close> and \<^verbatim>\<open>--line-buffered\<close> together nothing is published, and the tool reports success.\<close>

lemma body_and_lines_publish_nothing:
  "opt_body opts = Some body \<Longrightarrow> opt_line_buffered opts \<Longrightarrow> publish_input opts props t = (Inr (), t)"
  by (simp add: publish_input_def t_bind_def t_return_def)

section \<open>A header without a colon\<close>

lemma header_table_sane:
  assumes "list_all in_memory headers" "(key, v) \<in> set (header_table headers)"
  shows "length key < 2 ^ 62 \<and> sane 4 (amqp_encode_field_value v)"
proof -
  have "\<exists>h \<in> set hs. header_entry h = Some e" if "e \<in> set (List.map_filter header_entry hs)" for e hs
    using that by (induction hs) (auto simp: map_filter_simps split: option.splits)
  moreover have "(key, v) = ([], FV_Other 0) \<or> (key, v) \<in> set (List.map_filter header_entry headers)"
    using assms(2) by (auto simp: header_table_def Let_def)
  ultimately consider "(key, v) = ([], FV_Other 0)" | h where "h \<in> set headers" "header_entry h = Some (key, v)"
    by blast
  then show ?thesis
  proof cases
    case 1
    then show ?thesis using sane_value(2) [of 4 0] by (simp del: amqp_encode_field_value.simps)
  next
    case 2
    have h: "length h < 2 ^ 56" using assms(1) 2(1) by (simp add: list_all_iff)
    obtain c colon where c: "dropWhile (\<lambda>c. c \<noteq> 0x3A) h = c # colon"
        "key = amqp_cstring_bytes (takeWhile (\<lambda>c. c \<noteq> 0x3A) h)" "v = FV_Utf8 (amqp_cstring_bytes (dropWhile (\<lambda>c. c = 0x20) colon))"
      using 2(2) by (auto simp: header_entry_def split: list.splits)
    have short: "length (amqp_cstring_bytes bs) \<le> length bs" for bs
      by (simp add: amqp_cstring_bytes_def length_takeWhile_le)
    have "length key \<le> length h" using short order_trans length_takeWhile_le unfolding c(2) by blast
    moreover have "length (c # colon) \<le> length h" using length_dropWhile_le [of "\<lambda>c. c \<noteq> 0x3A" h] by (simp only: c(1))
    then have "length (amqp_cstring_bytes (dropWhile (\<lambda>c. c = 0x20) colon)) \<le> length h"
      using short [of "dropWhile (\<lambda>c. c = 0x20) colon"] length_dropWhile_le [of "\<lambda>c. c = 0x20" colon] by simp
    ultimately show ?thesis using h sane_value(1) [of 4] unfolding c(3) by simp
  qed
qed

lemma sane_flagged:
  "(flags AND fmask \<noteq> 0 \<Longrightarrow> \<exists>v. field = Some v \<and> sane k (e v)) \<Longrightarrow> sane k (e_flagged flags fmask e field)"
  using sane_block [of "[]" k] by (auto simp: e_flagged_def)

lemma sane_shortstr: "sane 0 (e_shortstr bs)"
  by (auto simp: e_shortstr_def UINT8_MAX_def intro!: sane_intros)

lemma sane_all: "list_all (sane k) fs \<Longrightarrow> sane k (e_block fs)"
  by (rule sane_block) (simp add: list_all_iff)

lemma publish_flag:
  "bp_flags (publish_properties opts) AND fmask = (AMQP_BASIC_DELIVERY_MODE_FLAG AND fmask)
      OR flag_if (opt_content_type opts \<noteq> None) (AMQP_BASIC_CONTENT_TYPE_FLAG AND fmask)
      OR flag_if (opt_content_encoding opts \<noteq> None) (AMQP_BASIC_CONTENT_ENCODING_FLAG AND fmask)
      OR flag_if (opt_reply_to opts \<noteq> None) (AMQP_BASIC_REPLY_TO_FLAG AND fmask)
      OR flag_if (opt_headers opts \<noteq> []) (AMQP_BASIC_HEADERS_FLAG AND fmask)"
  by (simp add: publish_properties_def flag_if_def bit.conj_disj_distrib2)

lemma flag_if_simps [simp]: "flag_if given 0 = 0" "flag_if given m = 0 \<longleftrightarrow> given \<longrightarrow> m = 0"
  by (auto simp: flag_if_def)

lemma publish_fields:
  "bp_delivery_mode (publish_properties opts) = Some (opt_delivery opts)"
  "bp_content_type (publish_properties opts) = map_option amqp_cstring_bytes (opt_content_type opts)"
  "bp_content_encoding (publish_properties opts) = map_option amqp_cstring_bytes (opt_content_encoding opts)"
  "bp_reply_to (publish_properties opts) = map_option amqp_cstring_bytes (opt_reply_to opts)"
  "bp_headers (publish_properties opts) = (if opt_headers opts = [] then None else Some (header_table (opt_headers opts)))"
  by (simp_all add: publish_properties_def)

lemma publish_properties_refused:
  assumes "h \<in> set (opt_headers opts)" "0x3A \<notin> set h" "list_all in_memory (opt_headers opts)"
  shows "refused_properties (publish_properties opts)"
proof -
  let ?p = "publish_properties opts" and ?t = "header_table (opt_headers opts)"
  have ne: "opt_headers opts \<noteq> []" using assms(1) by auto
  have t: "bp_flags ?p AND AMQP_BASIC_HEADERS_FLAG \<noteq> 0" "bp_headers ?p = Some ?t"
    using ne by (simp_all add: publish_properties_def flag_if_def or.assoc [symmetric] or_and_self)
  then have "never_encodes (encode_properties_body 60 (Basic_properties ?p))"
    using never_properties header_table_left_over [OF assms(1,2)] by blast
  moreover have "sane 0 (amqp_encode_table ?t)" 
    using sane_table header_table_sane assms(3) by blast
  then have "sane 0 (encode_basic_properties (bp_flags ?p) ?p)"
    unfolding encode_basic_properties_def
    by (intro sane_all) (simp only: list.pred_inject, intro conjI TrueI sane_flagged;
      insert ne, simp add: publish_flag publish_fields sane_shortstr sane_numbers)
  ultimately show ?thesis using sane_flag_words [of "bp_flags ?p"]
    by (simp add: refused_properties_def encode_properties_body_def encode_properties_switch_def sane_seq)
qed

text \<open>There is a message to publish: the body that is given, a line, or all of standard input when it can be read to its end.\<close>

definition has_message :: "publish_options \<Rightarrow> tool \<Rightarrow> bool" where
  "has_message opts t \<longleftrightarrow>
    (if opt_line_buffered opts then opt_body opts = None \<and> t_input t \<noteq> []
     else opt_body opts \<noteq> None \<or> (case read_all t of (Inr _, _) \<Rightarrow> True | (Inl _, _) \<Rightarrow> False))"

text \<open>
  C36. A header that is ignored is not ignored: when a \<^verbatim>\<open>--header\<close> has no colon, the tool says that it ignores it
  and goes on, but its entry in the table has no type and the properties cannot be encoded. With a message to publish, be it
  from \<^verbatim>\<open>--body\<close>, from standard input or from the first of its lines, and a connection that takes what is sent, the method
  \<^verbatim>\<open>basic.publish\<close> goes out and nothing behind it, neither header nor body, and the tool exits with status 1.
\<close>

theorem ignored_header_fails:
  assumes "h \<in> set (opt_headers opts)" "0x3A \<notin> set h" "list_all in_memory (opt_headers opts)"
    and "opt_exchange opts \<noteq> None \<or> opt_routing_key opts \<noteq> None"
    and "connect t0 = (Inr (), t)" "has_message opts t"
    and "can_send (t_conn t)" "steady (t_conn t)" "20 \<le> outbound_len (t_conn t)"
    and "f = publish_method 1 (cstring_bytes (opt_exchange opts)) (cstring_bytes (opt_routing_key opts))"
    and "sendable f (t_conn t)" "absorbs (frame_size f) (w_send (os (t_conn t))) = Some ss"
  shows "\<exists>t'. publish_main connect opts t0 = (Inl (Exit 1), t')
    \<and> w_sent (os (t_conn t')) = w_sent (os (t_conn t)) @ wire_frame f"
proof -
  let ?p = "publish_properties opts"
  note refused = publish_properties_refused [OF assms(1-3)]
  have do: "\<exists>t'. do_publish opts ?p body t1 = (Inl (Exit 1), t') \<and> w_sent (os (t_conn t')) = w_sent (os (t_conn t)) @ wire_frame f"
    if "t_conn t1 = t_conn t" for body t1
  proof -
    obtain res st' where "amqp_basic_publish 1 (cstring_bytes (opt_exchange opts)) (cstring_bytes (opt_routing_key opts))
          False False (Some ?p) body (t_conn t) = (Inr res, st')" "res < 0" "w_sent (os st') = w_sent (os (t_conn t)) @ wire_frame f"
      using basic_publish_refused [OF refused assms(7-9) assms(11,12) [unfolded assms(10)]] unfolding assms(10) by metis
    with that show ?thesis by (simp add: do_publish_def t_bind_def on_conn_def die_amqp_error_def die_def)
  qed
  have "\<exists>t'. publish_input opts ?p t = (Inl (Exit 1), t') \<and> w_sent (os (t_conn t')) = w_sent (os (t_conn t)) @ wire_frame f"
  proof (cases "opt_line_buffered opts")
    case True
    with assms(6) have l: "opt_body opts = None" "t_input t \<noteq> []" by (simp_all add: has_message_def)
    then obtain line rest where fg: "fgets MAX_LINE_LENGTH (t_input t) = Some (line, rest)" by (auto simp: fgets_def Let_def)
    obtain t' where "do_publish opts ?p (amqp_cstring_bytes line) (t\<lparr>t_input := rest\<rparr>) = (Inl (Exit 1), t')"
        "w_sent (os (t_conn t')) = w_sent (os (t_conn t)) @ wire_frame f"
      using do [of "t\<lparr>t_input := rest\<rparr>" "amqp_cstring_bytes line"] by auto
    with True l(1) fg show ?thesis by (simp add: publish_input_def publish_lines_step [of _ _ t] t_bind_def)
  next
    case False
    show ?thesis
    proof (cases "opt_body opts")
      case (Some body)
      with False do [of t "amqp_cstring_bytes body"] show ?thesis by (simp add: publish_input_def t_bind_def t_return_def)
    next
      case None
      obtain body t1 where r: "read_all t = (Inr body, t1)"
        using assms(6) False None by (auto simp: has_message_def split: prod.splits sum.splits)
      then have "t_conn t1 = t_conn t" by (auto simp: read_all_def split: prod.splits)
      from do [OF this, of body] r False None show ?thesis by (simp add: publish_input_def t_bind_def)
    qed
  qed
  with assms(4,5) show ?thesis by (auto simp: publish_main_def t_bind_def)
qed

definition sample_publish :: publish_options where
  "sample_publish =
    \<lparr>opt_exchange = None, opt_routing_key = Some [0x71], opt_delivery = 1, opt_content_type = None, opt_content_encoding = None,
     opt_headers = [ascii ''key'', ascii ''k: v''], opt_reply_to = None, opt_body = None, opt_line_buffered = True\<rparr>"

text \<open>The system would take a hundred bytes and more; it is given the 18 of the method.\<close>

theorem ignored_header_fails_witness:
  "\<exists>t'. publish_main (t_return ()) sample_publish
        ((idle_tool (open_connection [] [Accepted 5, Send_errno EINTR, Accepted 100, Accepted 100] []))\<lparr>t_input := [0x61, 0x0A]\<rparr>)
      = (Inl (Exit 1), t')
    \<and> w_sent (os (t_conn t')) = wire_frame (publish_method 1 [] [0x71])"
proof -
  let ?t = "(idle_tool (open_connection [] [Accepted 5, Send_errno EINTR, Accepted 100, Accepted 100] []))\<lparr>t_input := [0x61, 0x0A]\<rparr>"
  have size: "frame_size (publish_method 1 [] [0x71]) = 18" "valid_frame (publish_method 1 [] [0x71])"
    by (simp_all add: publish_method_def method_frame_def frame_size_def wire_basic.simps wire_shortstr_def be16_def valid_frame_def
        valid_basic.simps UINT8_MAX_def)
  have conn: "can_send (t_conn ?t)" "steady (t_conn ?t)" "20 \<le> outbound_len (t_conn ?t)" "w_sent (os (t_conn ?t)) = []"
    "sendable (publish_method 1 [] [0x71]) (t_conn ?t)"
    "absorbs (frame_size (publish_method 1 [] [0x71])) (w_send (os (t_conn ?t))) = Some [Accepted 100]"
    using size by (simp_all add: idle_tool_def sendable_def publish_method_def method_frame_def set_raw_def)
  have opts: "ascii ''key'' \<in> set (opt_headers sample_publish)" "0x3A \<notin> set (ascii ''key'')"
    "list_all in_memory (opt_headers sample_publish)" "opt_exchange sample_publish \<noteq> None \<or> opt_routing_key sample_publish \<noteq> None"
    "publish_method 1 [] [0x71] = publish_method 1 (cstring_bytes (opt_exchange sample_publish)) (cstring_bytes (opt_routing_key sample_publish))"
    "has_message sample_publish ?t"
    by (simp_all add: sample_publish_def ascii_def cstring_bytes_def amqp_cstring_bytes_def has_message_def)
  have "t_return () ?t = (Inr (), ?t)" by (simp add: t_return_def)
  from ignored_header_fails [of _ _ "t_return ()" ?t ?t, OF opts(1-4) this opts(6) conn(1-3) opts(5) conn(5,6)] conn(4) show ?thesis by simp
qed

end
