(* ===== verification/Tools_Ends.thy ===== *)
theory Tools_Ends
  imports Tools_Consume Amqp_Robust
begin

text \<open>
  The loops of the tools end: copying a body and consuming messages use up, in every round, a result of a
  system call, a byte of the buffer or a queued frame, whatever the broker sends and the system answers. The checks
  for progress in \<open>copy_rest\<close> and \<open>consume_loop\<close> never fail.
\<close>

section \<open>Operations that use nothing up or something\<close>

text \<open>What is left to read has not grown.\<close>

definition no_gain :: "amqp_state \<Rightarrow> amqp_state \<Rightarrow> bool" where
  "no_gain st st' \<longleftrightarrow> advances st st'
     \<or> calls_left (os st') = calls_left (os st) \<and> bytes_left st' = bytes_left st
       \<and> length (queued_frames st') \<le> length (queued_frames st)"

lemma no_gain_refl [simp]: "no_gain st st" by (simp add: no_gain_def)

lemma no_gain_trans: "no_gain a b \<Longrightarrow> no_gain b c \<Longrightarrow> no_gain a c"
  by (auto simp: no_gain_def advances_def)

lemma taken_no_gain: "frame_taken a b \<Longrightarrow> no_gain b c \<Longrightarrow> frame_taken a c"
  by (auto simp: no_gain_def frame_taken_def advances_def)

lemma taken_gain: "frame_taken a b \<Longrightarrow> no_gain a b"
  by (auto simp: no_gain_def frame_taken_def advances_def)

lemma taken_trans: "no_gain a b \<Longrightarrow> frame_taken b c \<Longrightarrow> frame_taken a c"
  by (auto simp: no_gain_def frame_taken_def advances_def)

lemma try_send_no_gain: "amqp_try_send b deadline st = (Inr v, st') \<Longrightarrow> no_gain st st'"
  using amqp_try_send_result [of b deadline st "Inr v" st'] others_fields [of st' st]
  by (auto simp: sent_prefix_def same_input_def no_gain_def advances_def)

lemma arm_send_no_gain: "arm_send_heartbeat st = (r, st') \<Longrightarrow> no_gain st st'"
  by (auto simp: arm_send_heartbeat_def read_clock_def no_gain_def calls_left_def bytes_left_def split: sum.splits)

lemma send_encoded_no_gain: "send_encoded deadline b st = (Inr OK, st') \<Longrightarrow> no_gain st st'"
proof (induction st arbitrary: b rule: advances_induct)
  case (step st)
  let ?t = "amqp_time_first deadline (next_recv_heartbeat st)"
  obtain x st1 where t: "amqp_try_send b ?t st = (x, st1)" by fastforce
  note d = step.prems [unfolded send_encoded.simps [of deadline b st] Let_def t prod.case]
  obtain n where x: "x = Inr n" using d by (cases x) auto
  note g = try_send_no_gain [OF t [unfolded x]]
  show ?case
  proof (cases "0 \<le> n \<and> int (length b) \<noteq> n")
    case False
    then have "arm_send_heartbeat st1 = (Inr OK, st')" using d x by (auto simp: status_values split: if_splits)
    then show ?thesis using no_gain_trans [OF g arm_send_no_gain] by blast
  next
    case True
    obtain y st2 where rc: "amqp_try_recv st1 = (y, st2)" by fastforce
    have "advances st st2 \<and> send_encoded deadline (drop (nat n) b) st2 = (Inr OK, st')"
      using True d x rc by (cases y) (auto simp: status_values split: if_splits)
    then show ?thesis using no_gain_trans [of st st2 st'] step.IH [of st2] by (auto simp: no_gain_def)
  qed
qed

lemma send_frame_no_gain: "amqp_send_frame_inner f deadline st = (Inr OK, st') \<Longrightarrow> no_gain st st'"
proof -
  assume run: "amqp_send_frame_inner f deadline st = (Inr OK, st')"
  have "return_code (Inl e :: int outcome) \<noteq> Inr OK" for e using return_code_Inr [of "Inl e" OK] by auto
  then obtain buf n where "send_encoded deadline (take n buf) (st\<lparr>outbound_buffer := buf\<rparr>) = (Inr OK, st')"
    using run by (auto simp: amqp_send_frame_inner_def split: if_splits sum.splits prod.splits)
  from send_encoded_no_gain [OF this] show ?thesis
    by (simp add: no_gain_def advances_def bytes_left_def)
qed

lemma ack_to_bytes:
  "amqp_frame_to_bytes (method_frame channel AMQP_BASIC_ACK_METHOD (M_Basic (Basic_ack tag multiple))) buf \<noteq> Inl Out_of_fuel"
proof -
  have "fst (amqp_encode_method AMQP_BASIC_ACK_METHOD (M_Basic (Basic_ack tag multiple)) part) \<noteq> Inl Out_of_fuel" for part
    by (auto simp: amqp_encode_method_def encode_method_switch_def other_classes encode_basic_def
        encode_basic_ack_def e_seq_def e_try_def amqp_encode_8_def amqp_encode_64_def encode_base_def amqp_e8_def amqp_e64_def
        e_fail_def Let_def split: option.splits prod.splits if_splits)
  then have "encode_slice (amqp_encode_method AMQP_BASIC_ACK_METHOD (M_Basic (Basic_ack tag multiple))) off len b \<noteq> Inl Out_of_fuel"
    for off len b
    by (auto simp: encode_slice_def split: option.splits prod.splits sum.splits) (metis fst_conv)
  then show ?thesis
    by (auto simp: amqp_frame_to_bytes_def frame_body_to_bytes_def method_frame_def split: option.splits sum.splits prod.splits if_splits)
qed

lemma basic_ack_ends:
  assumes "conn_ok st" "amqp_basic_ack channel tag multiple st = (r, st')"
  shows "r \<noteq> Inl Out_of_fuel" "r = Inr v \<Longrightarrow> v \<le> 0" "r = Inr OK \<Longrightarrow> conn_ok st' \<and> no_gain st st'"
proof -
  have run: "amqp_send_frame_inner (method_frame channel AMQP_BASIC_ACK_METHOD (M_Basic (Basic_ack tag multiple))) amqp_time_infinite st = (r, st')"
    using assms(2) by (simp add: amqp_basic_ack_def amqp_send_method_def amqp_send_method_inner_def)
  note e = amqp_send_frame_inner_ends [OF assms(1) run ack_to_bytes]
  show "r \<noteq> Inl Out_of_fuel" using e by auto
  show "r = Inr v \<Longrightarrow> v \<le> 0" using run send_frame_nonpos by blast
  show "r = Inr OK \<Longrightarrow> conn_ok st' \<and> no_gain st st'" using e run send_frame_no_gain by auto
qed

lemma release_no_gain:
  assumes "conn_ok st" "amqp_maybe_release_buffers st = (r, st')"
  shows "r \<noteq> Inl Out_of_fuel" "r = Inr () \<Longrightarrow> conn_ok st' \<and> no_gain st st'"
proof -
  have f: "conn_ok (fold amqp_maybe_release_buffers_on_channel chs s) = conn_ok s \<and> no_gain s (fold amqp_maybe_release_buffers_on_channel chs s)"
    for chs s
  proof (induction chs arbitrary: s)
    case (Cons ch chs)
    have "no_gain s (amqp_maybe_release_buffers_on_channel ch s)" using maybe_release_ends [of ch s] by (simp add: no_gain_def)
    with Cons [of "amqp_maybe_release_buffers_on_channel ch s"] maybe_release_ends(1) [of ch s] show ?case
      using no_gain_trans by auto
  qed simp
  show "r \<noteq> Inl Out_of_fuel" "r = Inr () \<Longrightarrow> conn_ok st' \<and> no_gain st st'"
    using assms f by (auto simp: amqp_maybe_release_buffers_def amqp_release_buffers_def split: if_splits)
qed

section \<open>Waiting for one frame\<close>

lemma simple_wait_ends:
  assumes "conn_ok st" "amqp_simple_wait_frame st = (r, st')"
  shows "r \<noteq> Inl Out_of_fuel" "r = Inr (v, f) \<Longrightarrow> v \<le> 0" "r = Inr (OK, f) \<Longrightarrow> conn_ok st' \<and> frame_taken st st'"
proof -
  let ?st = "st\<lparr>os := (os st)\<lparr>w_ticks := Suc (w_ticks (os st))\<rparr>\<rparr>"
  have st: "conn_ok ?st" using assms(1) by (simp add: conn_ok_def buffer_ok_def)
  have "r \<noteq> Inl Out_of_fuel \<and> (\<forall>v f. r = Inr (v, f) \<longrightarrow> v \<le> 0) \<and> (\<forall>f. r = Inr (OK, f) \<longrightarrow> conn_ok st' \<and> frame_taken st st')"
  proof (cases "queued_frames st")
    case Nil
    then have w: "wait_frame_inner amqp_time_infinite ?st = (r, st')"
      using assms(2) by (simp add: amqp_simple_wait_frame_def amqp_simple_wait_frame_noblock_def read_clock_def amqp_time_from_now_def)
    have "advances ?st s \<Longrightarrow> advances st s" for s by (simp add: advances_def calls_left_def bytes_left_def)
    moreover have "v \<le> 0" if "r = Inr (v, f)" for v f
      using wait_frame_nonpos w that by (auto simp: wait_frame_inner_def)
    ultimately show ?thesis using wait_frame_inner_delivers [OF st, of amqp_time_infinite] unfolding w
      by (cases r) (auto simp: delivers_result frame_taken_def)
  next
    case (Cons g rest)
    then have "r = Inr (OK, g)" "st' = ?st\<lparr>queued_frames := rest\<rparr>"
      using assms(2) by (auto simp: amqp_simple_wait_frame_def amqp_simple_wait_frame_noblock_def read_clock_def amqp_time_from_now_def)
    with st Cons show ?thesis by (auto simp: frame_taken_def calls_left_def bytes_left_def conn_ok_def buffer_ok_def)
  qed
  then show "r \<noteq> Inl Out_of_fuel" "r = Inr (v, f) \<Longrightarrow> v \<le> 0" "r = Inr (OK, f) \<Longrightarrow> conn_ok st' \<and> frame_taken st st'" by blast+
qed

section \<open>The tools\<close>

text \<open>A step of a tool: when it goes on, the connection is in order and has gained nothing.\<close>

definition tool_ends :: "tool \<Rightarrow> (tool_end + 'a) \<times> tool \<Rightarrow> bool" where
  "tool_ends t x \<longleftrightarrow> fst x \<noteq> Inl (Fault Out_of_fuel)
     \<and> (\<forall>v. fst x = Inr v \<longrightarrow> conn_ok (t_conn (snd x)) \<and> no_gain (t_conn t) (t_conn (snd x)))"

lemma tool_ends_trans: "no_gain (t_conn t) (t_conn t1) \<Longrightarrow> tool_ends t1 x \<Longrightarrow> tool_ends t x"
  using no_gain_trans by (auto simp: tool_ends_def)

lemma tool_ends_bind:
  assumes "tool_ends t (m t)" "\<And>v t1. m t = (Inr v, t1) \<Longrightarrow> conn_ok (t_conn t1) \<Longrightarrow> tool_ends t1 (f v t1)"
  shows "tool_ends t (t_bind m f t)"
proof (cases "m t")
  case (Pair r t1)
  show ?thesis
  proof (cases r)
    case (Inr v)
    with assms(1) Pair have "conn_ok (t_conn t1)" "no_gain (t_conn t) (t_conn t1)" by (auto simp: tool_ends_def)
    with assms(2) Pair Inr tool_ends_trans show ?thesis by (simp add: t_bind_def)
  qed (use assms(1) Pair in \<open>auto simp: t_bind_def tool_ends_def\<close>)
qed

lemma tool_ends_same:
  "conn_ok (t_conn t) \<Longrightarrow> t_conn (snd x) = t_conn t \<Longrightarrow> fst x \<noteq> Inl (Fault Out_of_fuel) \<Longrightarrow> tool_ends t x"
  by (simp add: tool_ends_def)

lemma write_loop_fuel: "fst (write_loop rs d) \<noteq> Inl (Fault Out_of_fuel)"
proof (induction rs arbitrary: d)
  case (Cons r rs)
  show ?case
  proof (cases "\<exists>n. r = Accepted n \<and> d \<noteq> []")
    case True
    then obtain n where "r = Accepted n" "d \<noteq> []" by blast
    with Cons [of "drop n d"] show ?thesis by (auto split: prod.splits)
  qed (auto split: sys_send.splits)
qed simp

lemma write_all_fd_ends:
  "fst (write_all_fd out d t) \<noteq> Inl (Fault Out_of_fuel)" "t_conn (snd (write_all_fd out d t)) = t_conn t"
  using write_loop_fuel [of "t_writes t" d] by (auto simp: write_all_fd_def split: prod.splits)

lemma copy_rest_ends: "conn_ok (t_conn t) \<Longrightarrow> tool_ends t (copy_rest out n t)"
proof (induction out n t rule: copy_rest.induct)
  case (1 out n t)
  show ?case
  proof (cases "n = 0")
    case False
    obtain r st1 where w: "amqp_simple_wait_frame (t_conn t) = (r, st1)" by fastforce
    note e = simple_wait_ends [OF 1(2) w]
    show ?thesis
    proof (cases "\<exists>f fragment. r = Inr (OK, f) \<and> frame_type f = FRAME_BODY \<and> frame_payload f = Body_payload fragment")
      case False
      with e(1,2) w \<open>n \<noteq> 0\<close> show ?thesis
        by (cases r) (auto simp: copy_rest.simps [of _ _ t] on_conn_def tool_ends_def die_def not_less split: amqp_frame_payload.splits if_splits dest: antisym)
    next
      case True
      then obtain f fragment where f: "r = Inr (OK, f)" "frame_type f = FRAME_BODY" "frame_payload f = Body_payload fragment" by blast
      note c = e(3) [OF f(1)]
      let ?t1 = "t\<lparr>t_conn := st1\<rparr>"
      obtain s t2 where wr: "write_all_fd out fragment ?t1 = (s, t2)" by fastforce
      have k: "s \<noteq> Inl (Fault Out_of_fuel)" "t_conn t2 = st1" using write_all_fd_ends [of out fragment ?t1] wr by simp_all
      have taken: "frame_taken (t_conn t) (t_conn t2)" using c k by simp
      show ?thesis
      proof (cases s)
        case (Inl x)
        with k f w wr False \<open>n \<noteq> 0\<close> show ?thesis
          by (simp add: copy_rest.simps [of _ _ t] on_conn_def tool_ends_def)
      next
        case (Inr u)
        have "tool_ends t2 (copy_rest out (sz_sub n (length fragment)) t2)"
          by (rule 1(1) [of "Inr (OK, f)" ?t1 "(OK, f)" OK f fragment s t2 u])
            (use False w f wr Inr taken c k in \<open>simp_all add: on_conn_def\<close>)
        then have "tool_ends t (copy_rest out (sz_sub n (length fragment)) t2)"
          using tool_ends_trans [OF taken_gain [OF taken]] by blast
        with False w f wr Inr taken show ?thesis by (simp add: copy_rest.simps [of _ _ t] on_conn_def)
      qed
    qed
  qed (use 1(2) in \<open>simp add: copy_rest.simps [of _ _ t] tool_ends_def\<close>)
qed

lemma copy_body_ends:
  assumes "conn_ok (t_conn t)"
  shows "tool_ends t (copy_body out t)"
proof -
  obtain r st1 where w: "amqp_simple_wait_frame (t_conn t) = (r, st1)" by fastforce
  note e = simple_wait_ends [OF assms w]
  let ?t1 = "t\<lparr>t_conn := st1\<rparr>"
  show ?thesis
  proof (cases "\<exists>f. r = Inr (OK, f)")
    case False
    with e(1,2) w show ?thesis
      by (cases r) (auto simp: copy_body_def t_bind_def on_conn_def tool_ends_def die_def die_amqp_error_def not_less
          split: if_splits dest: antisym)
  next
    case True
    then obtain f where f: "r = Inr (OK, f)" by blast
    note c = e(3) [OF f]
    have "tool_ends t (copy_rest out n ?t1)" for n
      by (rule tool_ends_trans [of t ?t1]) (use taken_gain [OF conjunct2 [OF c]] copy_rest_ends [of ?t1] c in simp_all)
    with w f show ?thesis
      by (auto simp: copy_body_def t_bind_def on_conn_def die_amqp_error_def t_return_def die_def tool_ends_def
          split: amqp_frame_payload.split)
  qed
qed

text \<open>What does not touch the connection.\<close>

definition off_conn :: "'a run \<Rightarrow> bool" where
  "off_conn m \<longleftrightarrow> (\<forall>t. t_conn (snd (m t)) = t_conn t \<and> fst (m t) \<noteq> Inl (Fault Out_of_fuel))"

lemma off_conn_bind: "off_conn m \<Longrightarrow> (\<And>v. off_conn (f v)) \<Longrightarrow> off_conn (t_bind m f)"
proof -
  assume a: "off_conn m" "\<And>v. off_conn (f v)"
  show "off_conn (t_bind m f)" unfolding off_conn_def
  proof
    fix t
    obtain r t1 where m: "m t = (r, t1)" by fastforce
    with a(1) have "t_conn t1 = t_conn t" "r \<noteq> Inl (Fault Out_of_fuel)" by (auto simp: off_conn_def dest: spec [of _ t])
    then show "t_conn (snd (t_bind m f t)) = t_conn t \<and> fst (t_bind m f t) \<noteq> Inl (Fault Out_of_fuel)"
      using a(2) m by (cases r) (simp_all add: t_bind_def off_conn_def)
  qed
qed

lemma off_conn_basic:
  "off_conn (t_return v)" "off_conn die" "off_conn (die_errno e)" "off_conn (die_amqp_error i)" "off_conn sys_code" "off_conn new_descriptor"
  by (auto simp: off_conn_def t_return_def die_def die_errno_def die_amqp_error_def sys_code_def new_descriptor_def Let_def split: list.splits)

lemma off_conn_close: "off_conn (close_descriptor n)"
proof -
  have "off_conn (\<lambda>t. (Inr (), t\<lparr>t_open := remove1 n (t_open t)\<rparr>))" by (simp add: off_conn_def)
  then show ?thesis unfolding close_descriptor_def by (intro off_conn_bind off_conn_basic) (simp add: off_conn_basic)
qed

lemma off_conn_process: "off_conn pipeline" "off_conn (finish_pipeline n)"
  unfolding pipeline_def checked_call_def finish_pipeline_def
  by (intro off_conn_bind off_conn_basic off_conn_close; simp add: off_conn_basic)+

lemma off_conn_ends: "off_conn m \<Longrightarrow> conn_ok (t_conn t) \<Longrightarrow> tool_ends t (m t)"
  by (simp add: off_conn_def tool_ends_same)

lemma ack_ends:
  assumes "conn_ok (t_conn t)"
  shows "tool_ends t (t_bind (on_conn (amqp_basic_ack channel tag multiple)) die_amqp_error t)"
proof -
  obtain r st1 where a: "amqp_basic_ack channel tag multiple (t_conn t) = (r, st1)" by fastforce
  note e = basic_ack_ends [OF assms a]
  show ?thesis
  proof (cases r)
    case (Inr v)
    with a e show ?thesis
      by (cases "v = OK") (auto simp: t_bind_def on_conn_def die_amqp_error_def t_return_def die_def tool_ends_def dest: antisym)
  qed (use a e(1) in \<open>auto simp: t_bind_def on_conn_def tool_ends_def\<close>)
qed

lemma consume_one_ends:
  assumes "conn_ok (t_conn t)"
  shows "tool_ends t (consume_one no_ack tag t)"
  unfolding consume_one_def
proof (intro tool_ends_bind)
  show "tool_ends t (pipeline t)" using off_conn_ends off_conn_process assms by blast
next
  fix infd and t1 :: tool
  assume "conn_ok (t_conn t1)"
  then show "tool_ends t1 (copy_body infd t1)" by (rule copy_body_ends)
next
  fix t2 :: tool
  assume "conn_ok (t_conn t2)"
  then show "tool_ends t2 (finish_pipeline infd t2)" for infd using off_conn_ends off_conn_process by blast
next
  fix ok and t3 :: tool
  assume "conn_ok (t_conn t3)"
  then show "tool_ends t3 ((if ok \<and> \<not> no_ack then t_bind (on_conn (amqp_basic_ack 1 tag False)) die_amqp_error else t_return ()) t3)"
    using ack_ends off_conn_ends [OF off_conn_basic(1) [of "()"], of t3] by simp
next
  fix t4 :: tool
  assume c: "conn_ok (t_conn t4)"
  obtain r st where "amqp_maybe_release_buffers (t_conn t4) = (r, st)" by fastforce
  with release_no_gain [OF c this] show "tool_ends t4 (on_conn amqp_maybe_release_buffers t4)"
    by (auto simp: on_conn_def tool_ends_def split: sum.splits)
qed

lemma consume_loop_ends: "conn_ok (t_conn t) \<Longrightarrow> fst (consume_loop no_ack count i t) \<noteq> Inl (Fault Out_of_fuel)"
proof (induction no_ack count i t rule: consume_loop.induct)
  case (1 no_ack count i t)
  show ?case
  proof (cases "count < 0 \<or> i < count")
    case True
    obtain r st1 where w: "amqp_simple_wait_frame (t_conn t) = (r, st1)" by fastforce
    note e = simple_wait_ends [OF 1(3) w]
    let ?t1 = "t\<lparr>t_conn := st1\<rparr>"
    note step = consume_loop.simps [of no_ack count i t]
    show ?thesis
    proof (cases "\<exists>f. r = Inr (OK, f)")
      case False
      with e(1,2) w True show ?thesis
        by (cases r) (auto simp: step on_conn_def die_def not_less split: if_splits dest: antisym)
    next
      case True
      then obtain f where f: "r = Inr (OK, f)" by blast
      note c = e(3) [OF f]
      have taken: "frame_taken (t_conn t) (t_conn ?t1)" using c by simp
      show ?thesis
      proof (cases "delivery_of f")
        case (Inl e)
        have "e = Undefined_behaviour"
          using Inl by (auto simp: delivery_of_def split: option.splits prod.splits if_splits amqp_method_struct.splits basic_method.splits)
        with w f \<open>count < 0 \<or> i < count\<close> Inl show ?thesis by (simp add: step on_conn_def)
      next
        case (Inr d)
        show ?thesis
        proof (cases d)
          case None
          have "fst (consume_loop no_ack count (i + 1) ?t1) \<noteq> Inl (Fault Out_of_fuel)"
            by (rule 1(1) [of "Inr (OK, f)" ?t1 "(OK, f)" OK f d])
              (use \<open>count < 0 \<or> i < count\<close> w f Inr None taken c in \<open>simp_all add: on_conn_def\<close>)
          with w f \<open>count < 0 \<or> i < count\<close> Inr None taken show ?thesis by (simp add: step on_conn_def)
        next
          case (Some tag)
          obtain s t2 where one: "consume_one no_ack tag ?t1 = (s, t2)" by fastforce
          have o: "tool_ends ?t1 (s, t2)" using consume_one_ends [of ?t1 no_ack tag] c one by simp
          show ?thesis
          proof (cases s)
            case (Inl x)
            with o w f \<open>count < 0 \<or> i < count\<close> Inr Some one show ?thesis by (simp add: step on_conn_def tool_ends_def)
          next
            case u: (Inr u)
            have c2: "conn_ok (t_conn t2)" "frame_taken (t_conn t) (t_conn t2)"
              using o u taken_no_gain [OF taken, of "t_conn t2"] by (simp_all add: tool_ends_def)
            have "fst (consume_loop no_ack count (i + 1) t2) \<noteq> Inl (Fault Out_of_fuel)"
              by (rule 1(2) [of "Inr (OK, f)" ?t1 "(OK, f)" OK f d tag s t2 u])
                (use \<open>count < 0 \<or> i < count\<close> w f Inr Some one u c2 in \<open>simp_all add: on_conn_def\<close>)
            with w f \<open>count < 0 \<or> i < count\<close> Inr Some one u c2 show ?thesis by (simp add: step on_conn_def)
          qed
        qed
      qed
    qed
  qed (simp add: consume_loop.simps [of no_ack count i t])
qed

text \<open>
  The tools do not loop: on a connection in order, whatever the broker sends and the system answers, copying a body and
  the loop of \<^verbatim>\<open>amqp-consume\<close> go on only after they have used something up, so that they end, or block in a system call.
\<close>

theorem tool_loops_end:
  assumes "conn_ok (t_conn t)"
  shows "fst (copy_body out t) \<noteq> Inl (Fault Out_of_fuel)
    \<and> fst (consume_loop no_ack count i t) \<noteq> Inl (Fault Out_of_fuel)"
  using copy_body_ends [OF assms, of out] consume_loop_ends [OF assms] by (simp add: tool_ends_def)

theorem tool_loops_end_witness:
  "fst (consume_loop False (-1) 0 (idle_tool (open_connection [Received [1, 2, 3], Recv_errno EWOULDBLOCK] [] [Poll_timeout])))
    \<noteq> Inl (Fault Out_of_fuel)"
  using tool_loops_end [of "idle_tool (open_connection [Received [1, 2, 3], Recv_errno EWOULDBLOCK] [] [Poll_timeout])" 1 False "-1" 0]
  by (simp add: idle_tool_def conn_ok_def conn_inv_def buffer_ok_def open_connection_def)

end
