(* ===== verification/Client_Receive.thy ===== *)
theory Client_Receive
  imports Tools_Consume
begin

text \<open>
  The programs of the repository that talk to a broker: the receiver (\<^verbatim>\<open>c/recveive/src\<close>: \<^verbatim>\<open>rabbitmq.cpp\<close>,
  \<^verbatim>\<open>mq.cpp\<close>, \<^verbatim>\<open>utils.cpp\<close> and the threads of \<^verbatim>\<open>server.cpp\<close>) and the sender (\<^verbatim>\<open>c/send/src\<close>), which share these
  sources up to a few constants.

  A program is a computation over \<open>client\<close>: a connection of one of its threads, what was printed on standard output,
  the flag \<^verbatim>\<open>gg_nFlags\<close> and the alarm that is set. A \<^verbatim>\<open>malloc\<close> that is refused is not modelled; what is printed on
  standard error is not either.
\<close>

section \<open>The process\<close>

record client =
  cl_conn :: amqp_state
  cl_dial :: dial
  cl_stdout :: amqp_bytes
  gg_nFlags :: int
  cl_alarm :: "nat option"

type_synonym 'a client_run = "(client, 'a) process"

definition in_client :: "'a io \<Rightarrow> 'a client_run" where
  "in_client m c =
    (case m (cl_conn c) of
       (Inl e, st) \<Rightarrow> (Inl (Fault e), c\<lparr>cl_conn := st\<rparr>)
     | (Inr v, st) \<Rightarrow> (Inr v, c\<lparr>cl_conn := st\<rparr>))"

definition undefined_run :: "'a client_run" where
  "undefined_run c = (Inl (Fault Undefined_behaviour), c)"

definition printf :: "amqp_bytes \<Rightarrow> unit client_run" where
  "printf text c = (Inr (), c\<lparr>cl_stdout := cl_stdout c @ text\<rparr>)"

definition fmt_d :: "int \<Rightarrow> amqp_bytes" where
  "fmt_d n = (if n < 0 then 0x2D # dec_text (nat (- n)) else dec_text (nat n))"

section \<open>utils.cpp\<close>

definition die_on_error :: "int \<Rightarrow> unit client_run" where
  "die_on_error x = (if x < 0 then die else t_return ())"

text \<open>Whether the struct behind \<^verbatim>\<open>reply.decoded\<close> is the one its method number says.\<close>

definition reply_readable :: "amqp_rpc_reply \<Rightarrow> bool" where
  "reply_readable r =
    (case reply r of
       None \<Rightarrow> True
     | Some (mid, decoded) \<Rightarrow>
         if mid = AMQP_CONNECTION_CLOSE_METHOD
         then (case decoded of M_Connection (Connection_close _ _ _ _) \<Rightarrow> True | _ \<Rightarrow> False)
         else if mid = AMQP_CHANNEL_CLOSE_METHOD
         then (case decoded of M_Channel (Channel_close _ _ _ _) \<Rightarrow> True | _ \<Rightarrow> False)
         else True)"

definition die_on_amqp_error :: "amqp_rpc_reply \<Rightarrow> unit client_run" where
  "die_on_amqp_error x =
    (case reply_type x of
       AMQP_RESPONSE_NORMAL \<Rightarrow> t_return ()
     | AMQP_RESPONSE_NONE \<Rightarrow> die
     | AMQP_RESPONSE_LIBRARY_EXCEPTION \<Rightarrow> die
     | AMQP_RESPONSE_SERVER_EXCEPTION \<Rightarrow> if reply_readable x then die else undefined_run)"

definition die_on_last_reply :: "unit client_run" where
  "die_on_last_reply c = die_on_amqp_error (amqp_get_rpc_reply (cl_conn c)) c"

section \<open>rabbitmq.cpp: logging in\<close>

definition open_socket :: "resolver \<Rightarrow> amqp_bytes \<Rightarrow> int \<Rightarrow> int client_run" where
  "open_socket getaddrinfo hostname n_Port c =
    (case amqp_open_socket getaddrinfo hostname n_Port (cl_dial c) of
       (Inl e, d) \<Rightarrow> (Inl (Fault e), c\<lparr>cl_dial := d\<rparr>)
     | (Inr s, d) \<Rightarrow> (Inr s, c\<lparr>cl_dial := d\<rparr>))"

definition login_on_channel :: "amqp_bytes \<Rightarrow> int \<Rightarrow> amqp_bytes \<Rightarrow> amqp_bytes \<Rightarrow> unit client_run" where
  "login_on_channel platform n_Channelid p_cLogName p_cLogPassWord =
    t_bind (in_client (amqp_login platform (ascii ''/'') n_Channelid 131072 0 AMQP_SASL_METHOD_PLAIN
                         [p_cLogName, p_cLogPassWord])) (\<lambda>r.
    t_bind (die_on_amqp_error r) (\<lambda>_.
    t_bind (in_client (amqp_channel_open (word_of_int n_Channelid))) (\<lambda>_. die_on_last_reply)))"

text \<open>
  The world \<open>w\<close>, the heap and the stale memory are those the connection starts with. A connection that could
  not be created is used as it is.
\<close>

definition LogToRabbitmq ::
    "amqp_bytes \<Rightarrow> resolver \<Rightarrow> amqp_bytes \<Rightarrow> world \<Rightarrow> heap \<Rightarrow> int \<Rightarrow> amqp_bytes \<Rightarrow> int \<Rightarrow> amqp_bytes \<Rightarrow> amqp_bytes
     \<Rightarrow> unit client_run" where
  "LogToRabbitmq platform getaddrinfo stale w h n_Channelid p_cHostName n_Port p_cLogName p_cLogPassWord =
    (case amqp_new_connection stale w h of (created, _) \<Rightarrow>
       t_bind (open_socket getaddrinfo p_cHostName n_Port) (\<lambda>n_SockFd.
       t_bind (die_on_error n_SockFd) (\<lambda>_.
         case created of
           None \<Rightarrow> undefined_run
         | Some conn \<Rightarrow>
             (\<lambda>c. t_bind (in_client (amqp_set_sockfd n_SockFd))
                    (\<lambda>_. login_on_channel platform n_Channelid p_cLogName p_cLogPassWord) (c\<lparr>cl_conn := conn\<rparr>)))))"

section \<open>rabbitmq.cpp: exchange, queue and binding\<close>

definition DeclareExchange :: "int \<Rightarrow> amqp_bytes \<Rightarrow> amqp_bytes \<Rightarrow> bool \<Rightarrow> bool \<Rightarrow> bool \<Rightarrow> bool \<Rightarrow> unit client_run" where
  "DeclareExchange n_Channelid p_cExchange P_cExchangeType nPassive nDurable nAuto_delete nInternal =
    t_bind (in_client (amqp_exchange_declare (word_of_int n_Channelid) (amqp_cstring_bytes p_cExchange)
              (amqp_cstring_bytes P_cExchangeType) nPassive nDurable nAuto_delete nInternal []))
      (\<lambda>_. die_on_last_reply)"

definition DeclareQueue :: "int \<Rightarrow> amqp_bytes \<Rightarrow> bool \<Rightarrow> bool \<Rightarrow> bool \<Rightarrow> bool \<Rightarrow> unit client_run" where
  "DeclareQueue n_Channelid p_cQueueName nPassive nDurable nExclusive nAutoDelete =
    t_bind (in_client (amqp_queue_declare (word_of_int n_Channelid) (amqp_cstring_bytes p_cQueueName)
              nPassive nDurable nExclusive nAutoDelete []))
      (\<lambda>_. die_on_last_reply)"

definition BlindExchangeQueue :: "int \<Rightarrow> amqp_bytes \<Rightarrow> amqp_bytes \<Rightarrow> amqp_bytes \<Rightarrow> unit client_run" where
  "BlindExchangeQueue n_Channelid p_cQueueName p_cExchange p_cBindingKey =
    t_bind (in_client (amqp_queue_bind (word_of_int n_Channelid) (amqp_cstring_bytes p_cQueueName)
              (amqp_cstring_bytes p_cExchange) (amqp_cstring_bytes p_cBindingKey) []))
      (\<lambda>_. die_on_last_reply)"

text \<open>What \<^verbatim>\<open>amqp_basic_qos\<close> returns is not looked at.\<close>

definition RabbitmqConsume :: "int \<Rightarrow> amqp_bytes \<Rightarrow> unit client_run" where
  "RabbitmqConsume n_Channelid p_cQueueName =
    t_bind (in_client (amqp_basic_qos (word_of_int n_Channelid) 0 1 False)) (\<lambda>_.
    t_bind (in_client (amqp_basic_consume (word_of_int n_Channelid) (amqp_cstring_bytes p_cQueueName) []
              False False False []))
      (\<lambda>_. die_on_last_reply))"

section \<open>rabbitmq.cpp: publishing\<close>

text \<open>The properties with the delivery mode are filled in, and \<^verbatim>\<open>NULL\<close> is passed in their place.\<close>

definition MqMessagePublish :: "int \<Rightarrow> amqp_bytes \<Rightarrow> amqp_bytes \<Rightarrow> amqp_bytes \<Rightarrow> unit client_run" where
  "MqMessagePublish nChannelid p_cExchange p_cQueueName p_cMessageBody =
    t_bind (in_client (amqp_basic_publish (word_of_int nChannelid) (amqp_cstring_bytes p_cExchange)
              (amqp_cstring_bytes p_cQueueName) False False None (amqp_cstring_bytes p_cMessageBody)))
      die_on_error"

section \<open>mq.cpp\<close>

definition Mqinit ::
    "unit client_run \<Rightarrow> int \<Rightarrow> amqp_bytes \<Rightarrow> amqp_bytes \<Rightarrow> amqp_bytes \<Rightarrow> amqp_bytes \<Rightarrow> unit client_run" where
  "Mqinit log_in nChannelid p_cExchange p_cQueueName p_cBindingKey p_cExchangeType =
    t_bind log_in (\<lambda>_.
    t_bind (DeclareExchange nChannelid p_cExchange p_cExchangeType False False False False) (\<lambda>_.
    t_bind (DeclareQueue nChannelid p_cQueueName False True False False) (\<lambda>_.
    t_bind (BlindExchangeQueue nChannelid p_cQueueName p_cExchange p_cBindingKey) (\<lambda>_.
      RabbitmqConsume nChannelid p_cQueueName))))"

text \<open>
  The length is an \<^verbatim>\<open>int\<close>: with one more it has to fit, or nothing is defined. The body \<^verbatim>\<open>m\<close> raises the flag and
  sets the alarm.
\<close>

definition HandlerMqMessage :: "amqp_bytes \<Rightarrow> unit client_run" where
  "HandlerMqMessage bytes =
    (if length bytes + 1 \<ge> 2 ^ 31 then undefined_run
     else
       (let p_cBuffer = amqp_cstring_bytes bytes
        in t_bind (printf (ascii ''receive:'' @ p_cBuffer @ [0x0A])) (\<lambda>_.
             if p_cBuffer = ascii ''m'' then
               t_bind (printf (ascii ''message count'' @ [0x0A]))
                 (\<lambda>_ c. (Inr (), c\<lparr>gg_nFlags := 1, cl_alarm := Some 2\<rparr>))
             else t_return ())))"

section \<open>rabbitmq.cpp: receiving\<close>

text \<open>The loop over the body frames, with \<^verbatim>\<open>body_received\<close>; every \<^verbatim>\<open>break\<close> leaves it as it is.\<close>

function receive_body :: "nat \<Rightarrow> nat \<Rightarrow> nat client_run" where
  "receive_body body_target body_received c =
    (if \<not> body_received < body_target then (Inr body_received, c)
     else
       (case in_client amqp_simple_wait_frame c of
          (Inl e, c1) \<Rightarrow> (Inl e, c1)
        | (Inr (res, frame), c1) \<Rightarrow>
            if res < 0 then (Inr body_received, c1)
            else if frame_type frame \<noteq> FRAME_BODY then (Inr body_received, c1)
            else
              (case frame_payload frame of
                 Body_payload fragment \<Rightarrow>
                   (let n = sz_add body_received (length fragment);
                        c2 = snd (printf (ascii ''ok!'' @ [0x0A]) c1)
                    in if n > body_target then (Inr n, c2)
                       else
                         (case HandlerMqMessage fragment c2 of
                            (Inl e, c3) \<Rightarrow> (Inl e, c3)
                          | (Inr _, c3) \<Rightarrow>
                              if frame_taken (cl_conn c) (cl_conn c3) then receive_body body_target n c3
                              else (Inl (Fault Out_of_fuel), c3)))
               | _ \<Rightarrow> (Inl (Fault Undefined_behaviour), c1))))"
  by pat_completeness auto
termination
  by (relation "inv_image (less_than <*lex*> less_than <*lex*> less_than)
      (\<lambda>(a, n, c). (calls_left (os (cl_conn c)), bytes_left (cl_conn c), length (queued_frames (cl_conn c))))")
    (auto simp: frame_taken_def advances_def)

declare receive_body.simps [simp del]

definition print_content_type :: "amqp_properties \<Rightarrow> unit client_run" where
  "print_content_type p =
    (if properties_flags p AND AMQP_BASIC_CONTENT_TYPE_FLAG = 0 then t_return ()
     else
       (case p of
          Basic_properties bp \<Rightarrow>
            (case bp_content_type bp of
               None \<Rightarrow> undefined_run
             | Some t \<Rightarrow> printf (ascii ''Content-type: '' @ amqp_cstring_bytes t @ [0x0A]))
        | _ \<Rightarrow> undefined_run))"

text \<open>The header and the body behind a delivery: whether the message is complete, else the outer loop is left.\<close>

definition receive_content :: "bool client_run" where
  "receive_content =
    t_bind (in_client amqp_simple_wait_frame) (\<lambda>(res, frame).
      if res < 0 \<or> frame_type frame \<noteq> FRAME_HEADER then t_return False
      else
        (case frame_payload frame of
           Properties_payload _ body_size p _ \<Rightarrow>
             t_bind (print_content_type p) (\<lambda>_.
             t_bind (receive_body (unat body_size) 0) (\<lambda>body_received.
               t_return (body_received = unat body_size)))
         | _ \<Rightarrow> undefined_run))"

text \<open>The tag is printed as an \<^verbatim>\<open>unsigned\<close> of 32 bits.\<close>

definition delivery_line :: "u64 \<Rightarrow> amqp_bytes \<Rightarrow> amqp_bytes \<Rightarrow> amqp_bytes" where
  "delivery_line delivery_tag exchange routing_key =
    ascii ''Delivery '' @ dec_text (unat delivery_tag mod 2 ^ 32) @ ascii '', exchange '' @ amqp_cstring_bytes exchange
      @ ascii '' routingkey '' @ amqp_cstring_bytes routing_key @ [0x0A]"

text \<open>What is done with a method; for every one but a delivery the loop goes on with the next frame.\<close>

definition receive_method :: "int \<Rightarrow> u32 \<Rightarrow> amqp_method_struct \<Rightarrow> bool client_run" where
  "receive_method n_Channelid mid decoded =
    (case amqp_method_name mid of
       None \<Rightarrow> undefined_run
     | Some name \<Rightarrow>
         t_bind (printf (ascii ''Method '' @ ascii name @ [0x0A])) (\<lambda>_.
           if mid \<noteq> AMQP_BASIC_DELIVER_METHOD then t_return True
           else
             (case decoded of
                M_Basic (Basic_deliver _ delivery_tag _ exchange routing_key) \<Rightarrow>
                  t_bind (printf (delivery_line delivery_tag exchange routing_key)) (\<lambda>_.
                  t_bind receive_content (\<lambda>complete.
                    if \<not> complete then t_return False
                    else t_bind (in_client (amqp_basic_ack (word_of_int n_Channelid) delivery_tag False))
                           (\<lambda>_. t_return True)))
              | _ \<Rightarrow> undefined_run)))"

text \<open>One round of the outer loop: whether there is another one.\<close>

definition receive_round :: "int \<Rightarrow> bool client_run" where
  "receive_round n_Channelid =
    t_bind (in_client amqp_maybe_release_buffers) (\<lambda>_.
    t_bind (in_client amqp_simple_wait_frame) (\<lambda>(res, frame).
    t_bind (printf (ascii ''Result '' @ fmt_d res @ [0x0A])) (\<lambda>_.
      if res < 0 then t_return False
      else
        t_bind (printf (ascii ''Frame type '' @ fmt_d (int (unat (frame_type frame))) @ ascii '', channel ''
                  @ fmt_d (int (unat (frame_channel frame))) @ [0x0A])) (\<lambda>_.
          if frame_type frame \<noteq> FRAME_METHOD then t_return True
          else
            (case frame_method frame of
               None \<Rightarrow> undefined_run
             | Some (mid, decoded) \<Rightarrow> receive_method n_Channelid mid decoded)))))"

function ReandMqMessage :: "int \<Rightarrow> unit client_run" where
  "ReandMqMessage n_Channelid c =
    (case receive_round n_Channelid c of
       (Inl e, c1) \<Rightarrow> (Inl e, c1)
     | (Inr again, c1) \<Rightarrow>
         if \<not> again then (Inr (), c1)
         else if frame_taken (cl_conn c) (cl_conn c1) then ReandMqMessage n_Channelid c1
         else (Inl (Fault Out_of_fuel), c1))"
  by pat_completeness auto
termination
  by (relation "inv_image (less_than <*lex*> less_than <*lex*> less_than)
      (\<lambda>(n, c). (calls_left (os (cl_conn c)), bytes_left (cl_conn c), length (queued_frames (cl_conn c))))")
    (auto simp: frame_taken_def advances_def)

declare ReandMqMessage.simps [simp del]

section \<open>server.cpp\<close>

definition OnSIGALRMHandler :: "unit client_run" where
  "OnSIGALRMHandler = t_bind (printf (ascii ''time up!'' @ [0x0A])) (\<lambda>_ c. (Inr (), c\<lparr>gg_nFlags := 0, cl_alarm := None\<rparr>))"

text \<open>The end of both threads and of the sender.\<close>

definition close_client :: "unit client_run" where
  "close_client =
    t_bind (in_client (amqp_channel_close 1 AMQP_REPLY_SUCCESS)) (\<lambda>r.
    t_bind (die_on_amqp_error r) (\<lambda>_.
    t_bind (in_client (amqp_connection_close AMQP_REPLY_SUCCESS)) (\<lambda>r.
    t_bind (die_on_amqp_error r) (\<lambda>_.
    t_bind (in_client amqp_destroy_connection) die_on_error))))"

text \<open>One round of the loop of \<^verbatim>\<open>thread_A\<close>, which never ends.\<close>

definition thread_A_round :: "unit client_run" where
  "thread_A_round c =
    (if gg_nFlags c \<noteq> 0
     then t_bind (MqMessagePublish 1 (ascii ''demo'') (ascii ''A'') (ascii ''hello world!''))
            (\<lambda>_. printf (ascii ''[As]:send ok!'' @ [0x0A])) c
     else (Inr (), c))"

text \<open>
  The queue of \<^verbatim>\<open>thread_B\<close> is not durable and is deleted with its consumer. The function has to return a pointer and its end
  is reached without one.
\<close>

definition thread_B :: "unit client_run \<Rightarrow> unit client_run" where
  "thread_B log_in =
    t_bind (printf (ascii ''thread_B'' @ [0x0A])) (\<lambda>_.
    t_bind log_in (\<lambda>_.
    t_bind (DeclareExchange 1 (ascii ''demo'') (ascii ''direct'') False False False False) (\<lambda>_.
    t_bind (DeclareQueue 1 (ascii ''B'') False False False True) (\<lambda>_.
    t_bind (BlindExchangeQueue 1 (ascii ''B'') (ascii ''demo'') (ascii ''B'')) (\<lambda>_.
    t_bind (RabbitmqConsume 1 (ascii ''B'')) (\<lambda>_.
    t_bind (ReandMqMessage 1) (\<lambda>_.
    t_bind close_client (\<lambda>_. undefined_run))))))))"

text \<open>The program \<^verbatim>\<open>send\<close>; it ends with status zero.\<close>

definition send_main :: "unit client_run \<Rightarrow> nat client_run" where
  "send_main log_in =
    t_bind (Mqinit log_in 1 (ascii ''test1'') (ascii ''test1'') (ascii ''test1'') (ascii ''direct'')) (\<lambda>_.
    t_bind (MqMessagePublish 1 (ascii ''test1'') (ascii ''test1'') (ascii ''asdfas'')) (\<lambda>_.
    t_bind close_client (\<lambda>_. t_return 0)))"

section \<open>What a delivery prints\<close>

definition fragment_report :: "amqp_bytes \<Rightarrow> amqp_bytes" where
  "fragment_report fragment =
    ascii ''ok!'' @ [0x0A] @ ascii ''receive:'' @ amqp_cstring_bytes fragment @ [0x0A]
      @ (if amqp_cstring_bytes fragment = ascii ''m'' then ascii ''message count'' @ [0x0A] else [])"

text \<open>The state behind fragments: the connection, the text that was printed, and the flag that one of them may have raised.\<close>

definition handed_over :: "amqp_state \<Rightarrow> amqp_bytes \<Rightarrow> amqp_bytes list \<Rightarrow> client \<Rightarrow> client" where
  "handed_over st text cs c =
    (if \<exists>f \<in> set cs. amqp_cstring_bytes f = ascii ''m'' then c\<lparr>gg_nFlags := 1, cl_alarm := Some 2\<rparr> else c)
      \<lparr>cl_conn := st, cl_stdout := cl_stdout c @ text\<rparr>"

lemma handed_over_fields [simp]:
  "cl_conn (handed_over st text cs c) = st" "cl_stdout (handed_over st text cs c) = cl_stdout c @ text"
  "gg_nFlags (handed_over st text cs c)
    = (if \<exists>f \<in> set cs. amqp_cstring_bytes f = ascii ''m'' then 1 else gg_nFlags c)"
  "(handed_over st text cs c)\<lparr>cl_conn := st'\<rparr> = handed_over st' text cs c"
  by (simp_all add: handed_over_def)

lemma handed_over_trans:
  "handed_over st2 t2 cs2 (handed_over st1 t1 cs1 c) = handed_over st2 (t1 @ t2) (cs1 @ cs2) c"
  by (auto simp: handed_over_def)

lemma printf_over: "printf text c = (Inr (), handed_over (cl_conn c) text [] c)"
  by (simp add: printf_def handed_over_def)

lemma conn_over: "c\<lparr>cl_conn := st\<rparr> = handed_over st [] [] c"
  by (simp add: handed_over_def)

lemma in_client_over:
  "m (cl_conn c) = (Inr v, st) \<Longrightarrow> in_client m c = (Inr v, handed_over st [] [] c)"
  by (simp add: in_client_def handed_over_def)

definition small_fragment :: "amqp_bytes \<Rightarrow> bool" where
  "small_fragment f \<longleftrightarrow> length f + 1 < 2 ^ 31"

lemma HandlerMqMessage_over:
  assumes "small_fragment f"
  shows "HandlerMqMessage f (handed_over st (t @ ascii ''ok!'' @ [0x0A]) cs c)
    = (Inr (), handed_over st (t @ fragment_report f) (cs @ [f]) c)"
  using assms
  by (simp add: HandlerMqMessage_def small_fragment_def fragment_report_def printf_def t_bind_def t_return_def Let_def
      handed_over_def)

section \<open>Receiving from a source of frames\<close>

definition content_type_report :: "amqp_basic_properties \<Rightarrow> amqp_bytes" where
  "content_type_report p =
    (if bp_flags p AND AMQP_BASIC_CONTENT_TYPE_FLAG = 0 then []
     else ascii ''Content-type: '' @ amqp_cstring_bytes (the (bp_content_type p)) @ [0x0A])"

text \<open>The field is set where the flag says so, as in what the decoder builds.\<close>

definition has_content_type :: "amqp_basic_properties \<Rightarrow> bool" where
  "has_content_type p \<longleftrightarrow> bp_flags p AND AMQP_BASIC_CONTENT_TYPE_FLAG = 0 \<or> bp_content_type p \<noteq> None"

lemma print_content_type_over:
  assumes "has_content_type p"
  shows "print_content_type (Basic_properties p) c = (Inr (), handed_over (cl_conn c) (content_type_report p) [] c)"
proof (cases "bp_flags p AND AMQP_BASIC_CONTENT_TYPE_FLAG = 0")
  case True
  then show ?thesis by (simp add: print_content_type_def content_type_report_def t_return_def handed_over_def)
next
  case False
  with assms show ?thesis
    by (auto simp: print_content_type_def content_type_report_def has_content_type_def printf_over)
qed

definition good_delivery :: "delivery \<Rightarrow> bool" where
  "good_delivery m \<longleftrightarrow> has_content_type (dv_properties m) \<and> list_all small_fragment (dv_fragments m) \<and> whole_body m"

context ticking_source
begin

lemma receive_body_reports:
  assumes "source (map (body_frame channel) cs @ fs) (cl_conn c)" "queued_frames (cl_conn c) = []"
    and "list_all small_fragment cs" "ends_with_bytes cs" "n + length (concat cs) = body_target" "body_target < 2 ^ 64"
  shows "\<exists>st'. receive_body body_target n c = (Inr body_target, handed_over st' (concat (map fragment_report cs)) cs c)
    \<and> source fs st' \<and> aside (cl_conn c) st' \<and> (advances (cl_conn c) st' \<or> st' = cl_conn c)"
  using assms
proof (induction cs arbitrary: c n)
  case Nil
  have "handed_over (cl_conn c) [] [] c = c" by (simp add: handed_over_def)
  with Nil show ?case
    by (intro exI [of _ "cl_conn c"]) (simp add: receive_body.simps [of _ _ c] aside_def)
next
  case (Cons f cs)
  obtain st1 where st1: "amqp_simple_wait_frame (cl_conn c) = (Inr (0, body_frame channel f), st1)"
      "source (map (body_frame channel) cs @ fs) st1" "aside (cl_conn c) st1" "advances (cl_conn c) st1"
    using simple_wait_aside Cons.prems(1,2) by (metis append_Cons list.simps(9))
  let ?c = "handed_over st1 (fragment_report f) [f] c"
  have f: "small_fragment f" "n < body_target" "sz_add n (length f) = n + length f" "n + length f \<le> body_target"
    using Cons.prems(3,5,6) ends_with_bytes_Cons(1) [OF Cons.prems(4)] by auto
  have "receive_body body_target n c = receive_body body_target (n + length f) ?c"
    using st1(1,4) f HandlerMqMessage_over [OF f(1), of st1 "[]" "[]" c]
    by (simp add: receive_body.simps [of _ n c] in_client_over body_frame_def printf_over frame_taken_def
        handed_over_trans Let_def)
  moreover obtain st' where "receive_body body_target (n + length f) ?c
        = (Inr body_target, handed_over st' (concat (map fragment_report cs)) cs ?c)"
      "source fs st'" "aside st1 st'" "advances st1 st' \<or> st' = st1"
    using Cons.IH [of ?c "n + length f"] Cons.prems(2,3,5,6) ends_with_bytes_Cons(2) [OF Cons.prems(4)] st1(2,3)
    by (auto simp: aside_def)
  ultimately show ?case
    using st1(3,4) advances_trans [OF st1(4)] aside_trans [OF st1(3)] by (auto simp: handed_over_trans)
qed

text \<open>The header and the body of a message.\<close>

lemma receive_content_reports:
  assumes "source (content_header channel m # map (body_frame channel) (dv_fragments m) @ fs) (cl_conn c)"
    and "queued_frames (cl_conn c) = []" "good_delivery m"
  shows "\<exists>st'. receive_content c = (Inr True,
      handed_over st' (content_type_report (dv_properties m) @ concat (map fragment_report (dv_fragments m))) (dv_fragments m) c)
    \<and> source fs st' \<and> aside (cl_conn c) st' \<and> advances (cl_conn c) st'"
proof -
  let ?cs = "dv_fragments m" and ?h = "content_header channel m"
  have good: "has_content_type (dv_properties m)" "list_all small_fragment ?cs" "ends_with_bytes ?cs" "length (concat ?cs) < 2 ^ 64"
    using assms(3) by (simp_all add: good_delivery_def whole_body_def)
  obtain cls raw where h: "frame_payload ?h
      = Properties_payload cls (of_nat (length (concat ?cs))) (Basic_properties (dv_properties m)) raw"
    using content_header_fields(2) by blast
  obtain st1 where st1: "amqp_simple_wait_frame (cl_conn c) = (Inr (0, ?h), st1)"
      "source (map (body_frame channel) ?cs @ fs) st1" "aside (cl_conn c) st1" "advances (cl_conn c) st1"
    using simple_wait_aside [OF assms(1,2)] by blast
  let ?c = "handed_over st1 (content_type_report (dv_properties m)) [] c"
  obtain st2 where st2: "receive_body (length (concat ?cs)) 0 ?c
        = (Inr (length (concat ?cs)), handed_over st2 (concat (map fragment_report ?cs)) ?cs ?c)"
      "source fs st2" "aside st1 st2" "advances st1 st2 \<or> st2 = st1"
    using receive_body_reports [of channel ?cs fs ?c 0] st1(2,3) assms(2) good(2-4) by (auto simp: aside_def)
  have "receive_content c = (Inr True,
      handed_over st2 (content_type_report (dv_properties m) @ concat (map fragment_report ?cs)) ?cs c)"
    using st1(1) st2(1) h content_header_fields(1) [of channel m] good(4) print_content_type_over [OF good(1)]
    by (simp add: receive_content_def t_bind_def t_return_def in_client_over handed_over_trans unat_of_nat del: length_concat)
  with st2(2-4) st1(3,4) show ?thesis
    using advances_trans [OF st1(4)] aside_trans [OF st1(3)] by blast
qed

end

definition delivery_head :: "u16 \<Rightarrow> delivery \<Rightarrow> amqp_bytes" where
  "delivery_head channel m =
     ascii ''Result 0'' @ [0x0A] @ ascii ''Frame type 1, channel '' @ dec_text (unat channel) @ [0x0A]
       @ ascii ''Method AMQP_BASIC_DELIVER_METHOD'' @ [0x0A] @ delivery_line (dv_tag m) (dv_exchange m) (dv_routing_key m)"

definition delivery_report :: "u16 \<Rightarrow> delivery \<Rightarrow> amqp_bytes" where
  "delivery_report channel m =
     delivery_head channel m @ content_type_report (dv_properties m) @ concat (map fragment_report (dv_fragments m))"

context acking_source
begin

text \<open>Up to the delivery: what was decoded before is released, and the delivery is waited for.\<close>

lemma receive_round_starts:
  assumes "source (deliver_frame channel m # fs) (cl_conn c)" "queued_frames (cl_conn c) = []"
  obtains st1 where "receive_round n c = t_bind receive_content (\<lambda>complete.
        if \<not> complete then t_return False
        else t_bind (in_client (amqp_basic_ack (word_of_int n) (dv_tag m) False)) (\<lambda>_. t_return True))
      (handed_over st1 (delivery_head channel m) [] c)"
    and "source fs st1" "aside (cl_conn c) st1" "advances (cl_conn c) st1"
proof -
  obtain st0 where st0: "amqp_maybe_release_buffers (cl_conn c) = (Inr (), st0)" "source (deliver_frame channel m # fs) st0"
      "aside (cl_conn c) st0" "os st0 = os (cl_conn c)" "bytes_left st0 = bytes_left (cl_conn c)"
    using releases [OF assms(1)] by blast
  obtain st1 where st1: "amqp_simple_wait_frame st0 = (Inr (0, deliver_frame channel m), st1)"
      "source fs st1" "aside st0 st1" "advances st0 st1"
    using simple_wait_aside [OF st0(2)] assms(2) st0(3) by (auto simp: aside_def)
  show thesis
  proof (rule that [of st1])
    show "receive_round n c = t_bind receive_content (\<lambda>complete.
        if \<not> complete then t_return False
        else t_bind (in_client (amqp_basic_ack (word_of_int n) (dv_tag m) False)) (\<lambda>_. t_return True))
      (handed_over st1 (delivery_head channel m) [] c)"
      using st0(1) st1(1)
      by (simp add: receive_round_def t_bind_def [of "in_client _"] t_bind_def [of "printf _"] in_client_over printf_over
          handed_over_trans deliver_frame_def frame_method_def method_frame_def receive_method_def amqp_method_name_def
          fmt_d_def dec_text.simps [of 0] dec_text.simps [of "Suc 0"] delivery_head_def ascii_def)
    show "source fs st1" by (rule st1(2))
    show "aside (cl_conn c) st1" using aside_trans st0(3) st1(3) by blast
    show "advances (cl_conn c) st1" using st1(4) st0(4,5) by (auto simp: advances_def)
  qed
qed

lemma receive_round_acks:
  assumes "source (delivery_frames channel m @ fs) (cl_conn c)" "queued_frames (cl_conn c) = []"
    and "good_delivery m" "can_send (cl_conn c)" "21 \<le> outbound_len (cl_conn c)"
    and "absorbs 21 (w_send (os (cl_conn c))) = Some ss"
  shows "\<exists>st'. receive_round n c = (Inr True, handed_over st' (delivery_report channel m) (dv_fragments m) c)
    \<and> source fs st' \<and> has_acked [ack_frame n m] ss (cl_conn c) st' \<and> advances (cl_conn c) st'"
proof -
  let ?rest = "content_header channel m # map (body_frame channel) (dv_fragments m) @ fs"
  have src: "source (deliver_frame channel m # ?rest) (cl_conn c)" using assms(1) by (simp add: delivery_frames_def)
  obtain st1 where st1: "receive_round n c = t_bind receive_content (\<lambda>complete.
        if \<not> complete then t_return False
        else t_bind (in_client (amqp_basic_ack (word_of_int n) (dv_tag m) False)) (\<lambda>_. t_return True))
      (handed_over st1 (delivery_head channel m) [] c)"
      "source ?rest st1" "aside (cl_conn c) st1" "advances (cl_conn c) st1"
    using receive_round_starts [OF src assms(2)] by blast
  let ?c = "handed_over st1 (delivery_head channel m) [] c"
    and ?out = "content_type_report (dv_properties m) @ concat (map fragment_report (dv_fragments m))"
  obtain st2 where st2: "receive_content ?c = (Inr True, handed_over st2 ?out (dv_fragments m) ?c)"
      "source fs st2" "aside st1 st2" "advances st1 st2"
    using receive_content_reports [of channel m fs ?c] st1(2,3) assms(2,3) by (auto simp: aside_def)
  note a = aside_acked [OF aside_trans [OF st1(3) st2(3)]]
  have "can_send st2" "21 \<le> outbound_len st2" "absorbs 21 (w_send (os st2)) = Some ss"
    using a assms(4-6) by (simp_all add: has_acked_def can_send_def)
  from acknowledges [OF st2(2) this] obtain st3 where
    st3: "amqp_basic_ack (word_of_int n) (dv_tag m) False st2 = (Inr 0, st3)"
      "put_out (wire_frame (ack_frame n m)) ss st2 st3" "source fs st3" "advances st2 st3" by blast
  have "receive_round n c = (Inr True, handed_over st3 (delivery_report channel m) (dv_fragments m) c)"
    unfolding st1(1) using st2(1) st3(1)
    by (simp add: t_bind_def t_return_def in_client_over handed_over_trans delivery_report_def)
  moreover have "advances (cl_conn c) st3" using advances_trans st1(4) st2(4) st3(4) by blast
  ultimately show ?thesis using st3(3) has_acked_trans [OF a put_out_acked [OF st3(2)]] by auto
qed

lemma ReandMqMessage_acks:
  assumes "source (concat (map (delivery_frames channel) ms) @ fs) (cl_conn c)" "queued_frames (cl_conn c) = []"
    and "list_all good_delivery ms" "can_send (cl_conn c)" "21 \<le> outbound_len (cl_conn c)"
    and "absorbs_frames (map (ack_frame n) ms) (w_send (os (cl_conn c))) = Some ss"
  shows "\<exists>st'. ReandMqMessage n c = ReandMqMessage n
      (handed_over st' (concat (map (delivery_report channel) ms)) (concat (map dv_fragments ms)) c)
    \<and> source fs st' \<and> has_acked (map (ack_frame n) ms) ss (cl_conn c) st'"
  using assms
proof (induction ms arbitrary: c)
  case Nil
  have "handed_over (cl_conn c) [] [] c = c" by (simp add: handed_over_def)
  with Nil show ?case by (intro exI [of _ "cl_conn c"]) (simp add: has_acked_def)
next
  case (Cons m ms)
  obtain ss1 where ss1: "absorbs 21 (w_send (os (cl_conn c))) = Some ss1" "absorbs_frames (map (ack_frame n) ms) ss1 = Some ss"
    using Cons.prems(6) by (auto simp: ack_frame_valid(2) split: option.splits)
  have src: "source (delivery_frames channel m @ concat (map (delivery_frames channel) ms) @ fs) (cl_conn c)" "good_delivery m"
    using Cons.prems(1,3) by simp_all
  obtain st1 where st1: "receive_round n c = (Inr True, handed_over st1 (delivery_report channel m) (dv_fragments m) c)"
      "source (concat (map (delivery_frames channel) ms) @ fs) st1" "has_acked [ack_frame n m] ss1 (cl_conn c) st1"
      "advances (cl_conn c) st1"
    using receive_round_acks [OF src(1) Cons.prems(2) src(2) Cons.prems(4,5) ss1(1)] by blast
  let ?c = "handed_over st1 (delivery_report channel m) (dv_fragments m) c"
  have "ReandMqMessage n c = ReandMqMessage n ?c"
    using st1(1,4) by (simp add: ReandMqMessage.simps [of n c] frame_taken_def)
  moreover have s1: "queued_frames st1 = []" "can_send st1" "21 \<le> outbound_len st1" "w_send (os st1) = ss1"
    using st1(3) Cons.prems(2,4,5) by (simp_all add: has_acked_def can_send_def)
  obtain st' where "ReandMqMessage n ?c = ReandMqMessage n
        (handed_over st' (concat (map (delivery_report channel) ms)) (concat (map dv_fragments ms)) ?c)"
      "source fs st'" "has_acked (map (ack_frame n) ms) ss st1 st'"
    using Cons.IH [of ?c] Cons.prems(3) st1(2) s1 ss1(2) by auto
  ultimately show ?case
    using has_acked_trans [OF st1(3), of "map (ack_frame n) ms" ss st'] by (auto simp: handed_over_trans)
qed

end


definition idle_client :: "amqp_state \<Rightarrow> client" where
  "idle_client st = \<lparr>cl_conn = st,
     cl_dial = \<lparr>d_fails = \<lambda>_. None, d_so_error = \<lambda>_. 0, d_calls = 0, d_open = [], d_world = os st\<rparr>,
     cl_stdout = [], gg_nFlags = 0, cl_alarm = None\<rparr>"

text \<open>The message \<^verbatim>\<open>m\<close> on channel 1, delivered for the second time, with an empty fragment in front.\<close>

definition sample_m :: delivery where
  "sample_m = \<lparr>dv_consumer_tag = ascii ''amq.ctag-1'', dv_tag = 7, dv_redelivered = True, dv_exchange = ascii ''demo'',
     dv_routing_key = ascii ''B'', dv_properties = empty_properties, dv_fragments = [[], [0x6D]]\<rparr>"

lemma sample_m_frames:
  "delivery_frames 1 sample_m = [method_frame 1 AMQP_BASIC_DELIVER_METHOD
      (M_Basic (Basic_deliver (ascii ''amq.ctag-1'') 7 True (ascii ''demo'') (ascii ''B''))),
    set_raw (header_frame 1 1 empty_properties), body_frame 1 [], body_frame 1 [0x6D]]"
  by (simp add: delivery_frames_def deliver_frame_def content_header_def sample_m_def)

lemma sample_m_fits: "f \<in> set (delivery_frames 1 sample_m) \<Longrightarrow> fits 4096 f \<and> frame_type f \<noteq> FRAME_HEARTBEAT"
  unfolding sample_m_frames
  by (auto simp: fits_4096 method_frame_def header_frame_def body_frame_def frame_size_def wire_basic.simps wire_shortstr_def
      be16_def be64_def wire_properties_def wire_flags_def empty_properties_def valid_frame_def set_raw_def valid_basic.simps
      valid_properties_def valid_flags_def valid_basic_properties_def valid_flagged_def wire_basic_properties_def wire_flagged_def
      UINT8_MAX_def ascii_def)

lemma sample_m_arrives:
  "frames_arrive (delivery_frames 1 sample_m)
    (open_connection (map (Received \<circ> wire_frame) (delivery_frames 1 sample_m)) ss [])"
proof -
  let ?fs = "delivery_frames 1 sample_m"
  let ?st = "open_connection (map (Received \<circ> wire_frame) ?fs) ss []"
  have "incoming ?st = concat (map wire_frame ?fs) @ []"
    using sample_m_fits unfolding sample_m_frames by (simp add: received_frame fits_4096 del: arriving.simps(2))
  then show ?thesis
    unfolding frames_arrive_def using sample_m_fits by (intro exI [of _ 4096] exI [of _ ?fs] exI [of _ "[]"]) simp
qed


section \<open>Incomplete messages\<close>

context ticking_source
begin

text \<open>The fragments \<open>cs\<close> do not complete the body, and what comes behind them is no fragment, or one that is too long.\<close>

lemma receive_body_stops:
  assumes "source (map (body_frame channel) cs @ g # fs) (cl_conn c)" "queued_frames (cl_conn c) = []"
    and "list_all small_fragment cs" "n + length (concat cs) < body_target" "body_target < 2 ^ 64"
    and "frame_type g \<noteq> FRAME_BODY
      \<or> (\<exists>b. g = body_frame channel b \<and> body_target < n + length (concat cs) + length b \<and> n + length (concat cs) + length b < 2 ^ 64)"
  shows "\<exists>k st' out. receive_body body_target n c = (Inr k, handed_over st' out cs c) \<and> k \<noteq> body_target \<and> aside (cl_conn c) st'"
  using assms
proof (induction cs arbitrary: c n)
  case Nil
  obtain st1 where st1: "amqp_simple_wait_frame (cl_conn c) = (Inr (0, g), st1)" "aside (cl_conn c) st1"
    using simple_wait_aside [of g fs "cl_conn c"] Nil.prems(1,2) by auto
  show ?case
  proof (cases "frame_type g = FRAME_BODY")
    case False
    with st1 Nil.prems(4) show ?thesis
      by (intro exI [of _ n] exI [of _ st1] exI [of _ "[]"]) (simp add: receive_body.simps [of _ n c] in_client_over)
  next
    case True
    then obtain b where b: "g = body_frame channel b" "body_target < n + length b" "n + length b < 2 ^ 64"
      using Nil.prems(6) by auto
    with st1 Nil.prems(4) show ?thesis
      by (intro exI [of _ "n + length b"] exI [of _ st1] exI [of _ "ascii ''ok!'' @ [0x0A]"])
        (simp add: receive_body.simps [of _ n c] in_client_over body_frame_def Let_def printf_over handed_over_trans)
  qed
next
  case (Cons f cs)
  obtain st1 where st1: "amqp_simple_wait_frame (cl_conn c) = (Inr (0, body_frame channel f), st1)"
      "source (map (body_frame channel) cs @ g # fs) st1" "aside (cl_conn c) st1" "advances (cl_conn c) st1"
    using simple_wait_aside Cons.prems(1,2) by (metis append_Cons list.simps(9))
  let ?c = "handed_over st1 (fragment_report f) [f] c"
  have f: "small_fragment f" "n < body_target" "sz_add n (length f) = n + length f" "n + length f \<le> body_target"
    using Cons.prems(3-5) by auto
  have "receive_body body_target n c = receive_body body_target (n + length f) ?c"
    using st1(1,4) f HandlerMqMessage_over [OF f(1), of st1 "[]" "[]" c]
    by (simp add: receive_body.simps [of _ n c] in_client_over body_frame_def printf_over frame_taken_def
        handed_over_trans Let_def)
  moreover obtain k st' out where "receive_body body_target (n + length f) ?c = (Inr k, handed_over st' out cs ?c)"
      "k \<noteq> body_target" "aside st1 st'"
    using Cons.IH [of ?c "n + length f"] Cons.prems(2-6) st1(2,3) by (auto simp: aside_def add.assoc)
  ultimately show ?case using aside_trans [OF st1(3)] by (auto simp: handed_over_trans)
qed

end

text \<open>
  The frames behind a delivery that do not make a message: no header, or a header and fragments that do not complete the
  body, and then a frame that is no fragment, or a fragment that is too long.
\<close>

inductive cut_short :: "u16 \<Rightarrow> amqp_frame list \<Rightarrow> bool" for channel where
  no_header: "frame_type g \<noteq> FRAME_HEADER \<Longrightarrow> cut_short channel [g]"
| no_body: "has_content_type p \<Longrightarrow> list_all small_fragment cs \<Longrightarrow> length (concat cs) < announced \<Longrightarrow> announced < 2 ^ 64
    \<Longrightarrow> frame_type g \<noteq> FRAME_BODY
        \<or> (\<exists>b. g = body_frame channel b \<and> announced < length (concat cs) + length b \<and> length (concat cs) + length b < 2 ^ 64)
    \<Longrightarrow> cut_short channel (set_raw (header_frame channel (of_nat announced) p) # map (body_frame channel) cs @ [g])"

context acking_source
begin

lemma receive_content_stops:
  assumes "cut_short channel gs" "source (gs @ fs) (cl_conn c)" "queued_frames (cl_conn c) = []"
  shows "\<exists>c'. receive_content c = (Inr False, c') \<and> aside (cl_conn c) (cl_conn c')"
  using assms
proof cases
  case (no_header g)
  obtain st1 where st1: "amqp_simple_wait_frame (cl_conn c) = (Inr (0, g), st1)" "aside (cl_conn c) st1"
    using simple_wait_aside [of g fs "cl_conn c"] assms(2,3) no_header(1) by auto
  with no_header(2) show ?thesis
    by (intro exI [of _ "handed_over st1 [] [] c"]) (simp add: receive_content_def t_bind_def t_return_def in_client_over)
next
  case (no_body p cs announced g)
  let ?h = "set_raw (header_frame channel (of_nat announced) p)"
  have h: "frame_type ?h = FRAME_HEADER" "\<exists>cls raw. frame_payload ?h = Properties_payload cls (of_nat announced) (Basic_properties p) raw"
    by (simp_all add: set_raw_def header_frame_def)
  obtain st1 where st1: "amqp_simple_wait_frame (cl_conn c) = (Inr (0, ?h), st1)"
      "source (map (body_frame channel) cs @ g # fs) st1" "aside (cl_conn c) st1"
    using simple_wait_aside [of ?h "map (body_frame channel) cs @ g # fs" "cl_conn c"] assms(2,3) no_body(1) by auto
  let ?c = "handed_over st1 (content_type_report p) [] c"
  obtain k st2 out where st2: "receive_body announced 0 ?c = (Inr k, handed_over st2 out cs ?c)" "k \<noteq> announced" "aside st1 st2"
    using receive_body_stops [of channel cs g fs ?c 0 announced] st1(2,3) assms(3) no_body(3-6) by (auto simp: aside_def)
  have u: "unat (of_nat announced :: u64) = announced" using no_body(5) by (simp add: unat_of_nat)
  obtain cls raw where "frame_payload ?h = Properties_payload cls (of_nat announced) (Basic_properties p) raw" using h(2) by blast
  then have "receive_content c = (Inr False, handed_over st2 out cs ?c)"
    using st1(1) st2(1,2) h(1) print_content_type_over [OF no_body(2)] u
    by (simp add: receive_content_def t_bind_def t_return_def in_client_over handed_over_trans)
  with st1(3) st2(3) aside_trans show ?thesis by fastforce
qed

lemma ReandMqMessage_stops:
  assumes "source (deliver_frame channel m # gs @ fs) (cl_conn c)" "queued_frames (cl_conn c) = []" "cut_short channel gs"
  shows "\<exists>c'. ReandMqMessage n c = (Inr (), c') \<and> w_sent (os (cl_conn c')) = w_sent (os (cl_conn c))"
proof -
  obtain st1 where st1: "receive_round n c = t_bind receive_content (\<lambda>complete.
        if \<not> complete then t_return False
        else t_bind (in_client (amqp_basic_ack (word_of_int n) (dv_tag m) False)) (\<lambda>_. t_return True))
      (handed_over st1 (delivery_head channel m) [] c)"
      "source (gs @ fs) st1" "aside (cl_conn c) st1"
    using receive_round_starts [OF assms(1,2)] by blast
  obtain c' where c': "receive_content (handed_over st1 (delivery_head channel m) [] c) = (Inr False, c')" "aside st1 (cl_conn c')"
    using receive_content_stops [OF assms(3), of fs "handed_over st1 (delivery_head channel m) [] c"] st1(2,3) assms(2)
    by (auto simp: aside_def)
  have "receive_round n c = (Inr False, c')" using st1(1) c'(1) by (simp add: t_bind_def t_return_def)
  with st1(3) c'(2) show ?thesis
    by (intro exI [of _ c']) (simp add: ReandMqMessage.simps [of n c] aside_def outbound_same_def)
qed

end

text \<open>
  C15. A message that is cut short is not acknowledged: when the frames behind a delivery, whatever its fields, do not make a
  message of the announced length (no header comes next, or a header and fragments, empty ones among them, that do not
  complete the body, and then a frame that is no fragment or a fragment that is too long), \<^verbatim>\<open>ReandMqMessage\<close> returns and
  nothing has been sent.
\<close>

theorem unfinished_not_acknowledged:
  assumes "frames_arrive (deliver_frame channel m # gs @ fs) (cl_conn c)" "queued_frames (cl_conn c) = []" "cut_short channel gs"
  shows "\<exists>c'. ReandMqMessage n c = (Inr (), c') \<and> w_sent (os (cl_conn c')) = w_sent (os (cl_conn c))"
  using acking_wire.ReandMqMessage_stops [OF assms] .

text \<open>A delivery that is followed by another one.\<close>

theorem unfinished_not_acknowledged_witness:
  "\<exists>c'. ReandMqMessage 1 (idle_client (open_connection (map (Received \<circ> wire_frame)
        [deliver_frame 1 sample_m, deliver_frame 1 sample_m]) [Accepted 100] [])) = (Inr (), c')
    \<and> w_sent (os (cl_conn c')) = []"
proof -
  let ?d = "deliver_frame 1 sample_m"
  let ?st = "open_connection (map (Received \<circ> wire_frame) [?d, ?d]) [Accepted 100] []"
  have d: "fits 4096 ?d" "frame_type ?d = FRAME_METHOD"
    using sample_m_fits [of ?d] by (simp_all add: delivery_frames_def deliver_frame_def method_frame_def)
  then have "incoming ?st = concat (map wire_frame [?d, ?d]) @ []"
    by (simp add: received_frame fits_4096 del: arriving.simps(2))
  with d have "frames_arrive (?d # [?d] @ []) (cl_conn (idle_client ?st))"
    unfolding frames_arrive_def by (intro exI [of _ 4096] exI [of _ "[?d, ?d]"] exI [of _ "[]"]) (simp add: idle_client_def)
  moreover have "cut_short 1 [?d]" using d(2) by (intro no_header) simp
  ultimately show ?thesis
    using unfinished_not_acknowledged [of 1 sample_m "[?d]" "[]" "idle_client ?st" 1] by (simp add: idle_client_def)
qed

end
