(* ===== verification/Client_Setup.thy ===== *)
theory Client_Setup
  imports Client_Receive
begin

text \<open>
  Setting up the exchange, the queue, the binding and the consumer of the clients (\<^verbatim>\<open>Mqinit\<close>, \<^verbatim>\<open>thread_B\<close>) as a
  conversation with the broker, and what the sender publishes.
\<close>

section \<open>A conversation\<close>

text \<open>
  A request: whether a refusal ends the program, the method of the reply, and the request itself. \<open>conversation\<close> makes the
  requests one after the other.
\<close>

type_synonym request = "bool \<times> u32 \<times> amqp_method_struct"

definition ask :: "u16 \<Rightarrow> request \<Rightarrow> unit client_run" where
  "ask channel = (\<lambda>(checked, reply_id, m).
    t_bind (in_client (amqp_simple_rpc_decoded channel (method_number m) reply_id m))
      (\<lambda>_. if checked then die_on_last_reply else t_return ()))"

fun conversation :: "u16 \<Rightarrow> request list \<Rightarrow> unit client_run" where
  "conversation channel [] = t_return ()"
| "conversation channel (r # rs) = t_bind (ask channel r) (\<lambda>_. conversation channel rs)"

definition request_frame :: "u16 \<Rightarrow> request \<Rightarrow> amqp_frame" where
  "request_frame channel = (\<lambda>(_, _, m). method_frame channel (method_number m) m)"

text \<open>The answer is the reply, or the close of the channel or of the connection.\<close>

definition refuses :: "request \<Rightarrow> amqp_frame \<Rightarrow> bool" where
  "refuses = (\<lambda>(checked, reply_id, _) f. checked \<and> reply_type (rpc_result [reply_id, 0] f) \<noteq> AMQP_RESPONSE_NORMAL)"

definition answers :: "u16 \<Rightarrow> request \<Rightarrow> amqp_frame \<Rightarrow> bool" where
  "answers channel = (\<lambda>(_, reply_id, _) f. affects_rpc channel [reply_id, 0] f \<and> reply_readable (rpc_result [reply_id, 0] f))"

text \<open>The requests that are made: up to the first one that is refused.\<close>

fun asked :: "request list \<Rightarrow> amqp_frame list \<Rightarrow> request list" where
  "asked (r # rs) (f # fs) = r # (if refuses r f then [] else asked rs fs)"
| "asked _ _ = []"

definition accepted :: "request list \<Rightarrow> amqp_frame list \<Rightarrow> bool" where
  "accepted rs fs \<longleftrightarrow> (\<forall>(r, f) \<in> set (zip rs fs). \<not> refuses r f)"

definition sendable_request :: "u16 \<Rightarrow> amqp_state \<Rightarrow> request \<Rightarrow> bool" where
  "sendable_request channel st = (\<lambda>(checked, reply_id, m). valid_method m
     \<and> frame_size (method_frame channel (method_number m) m) \<le> outbound_len st)"

lemma t_bind_assoc: "t_bind (t_bind m f) g = t_bind m (\<lambda>v. t_bind (f v) g)"
  by (auto simp: t_bind_def fun_eq_iff split: prod.splits sum.splits)

lemma t_return_bind: "t_bind (t_return v) f = f v"
  by (simp add: t_bind_def t_return_def fun_eq_iff)

lemma t_bind_unit: "t_bind m t_return = m"
  by (auto simp: t_bind_def t_return_def fun_eq_iff split: prod.splits sum.splits)

section \<open>The requests of the clients\<close>

definition setup_requests :: "bool \<Rightarrow> bool \<Rightarrow> amqp_bytes \<Rightarrow> amqp_bytes \<Rightarrow> amqp_bytes \<Rightarrow> amqp_bytes \<Rightarrow> request list" where
  "setup_requests durable auto_delete exchange typ queue key =
    [(True, AMQP_EXCHANGE_DECLARE_OK_METHOD,
        M_Exchange (Exchange_declare 0 (amqp_cstring_bytes exchange) (amqp_cstring_bytes typ) False False False False False [])),
     (True, AMQP_QUEUE_DECLARE_OK_METHOD,
        M_Queue (Queue_declare 0 (amqp_cstring_bytes queue) False durable False auto_delete False [])),
     (True, AMQP_QUEUE_BIND_OK_METHOD,
        M_Queue (Queue_bind 0 (amqp_cstring_bytes queue) (amqp_cstring_bytes exchange) (amqp_cstring_bytes key) False [])),
     (False, AMQP_BASIC_QOS_OK_METHOD, M_Basic (Basic_qos 0 1 False)),
     (True, AMQP_BASIC_CONSUME_OK_METHOD,
        M_Basic (Basic_consume 0 (amqp_cstring_bytes queue) [] False False False False []))]"

lemmas request_defs = DeclareExchange_def DeclareQueue_def BlindExchangeQueue_def RabbitmqConsume_def
  amqp_exchange_declare_def amqp_queue_declare_def amqp_queue_bind_def amqp_basic_qos_def amqp_basic_consume_def

lemma Mqinit_converses:
  "Mqinit log_in n exchange queue key typ
    = t_bind log_in (\<lambda>_. conversation (word_of_int n) (setup_requests True False exchange typ queue key))"
  by (simp add: Mqinit_def setup_requests_def request_defs ask_def t_bind_assoc t_return_bind t_bind_unit)

lemma thread_B_converses:
  "thread_B log_in = t_bind (printf (ascii ''thread_B'' @ [0x0A])) (\<lambda>_. t_bind log_in (\<lambda>_.
     t_bind (conversation 1 (setup_requests False True (ascii ''demo'') (ascii ''direct'') (ascii ''B'') (ascii ''B''))) (\<lambda>_.
     t_bind (ReandMqMessage 1) (\<lambda>_. t_bind close_client (\<lambda>_. undefined_run)))))"
  by (simp add: thread_B_def setup_requests_def request_defs ask_def t_bind_assoc t_return_bind t_bind_unit)

section \<open>The conversation on the wire\<close>

lemma rpc_decoded_answers:
  assumes "frames_arrive (f # fs) st" "affects_rpc channel [reply_id, 0] f" "valid_method m" "can_send st"
    and "frame_size (method_frame channel (method_number m) m) \<le> outbound_len st"
    and "absorbs (frame_size (method_frame channel (method_number m) m)) (w_send (os st)) = Some ss"
  shows "\<exists>v st'. amqp_simple_rpc_decoded channel (method_number m) reply_id m st = (Inr v, st')
    \<and> amqp_get_rpc_reply st' = rpc_result [reply_id, 0] f \<and> frames_arrive fs st'
    \<and> can_send st' \<and> outbound_len st' = outbound_len st \<and> w_send (os st') = ss
    \<and> w_sent (os st') = w_sent (os st) @ wire_frame (method_frame channel (method_number m) m)"
proof -
  let ?f = "method_frame channel (method_number m) m"
  have v: "valid_frame ?f" "steady st" using assms(1,3) by (auto simp: method_frame_def valid_frame_def frames_arrive_def)
  obtain st1 where st1: "amqp_send_frame_inner ?f amqp_time_infinite st = (Inr 0, st1)" "put_out (wire_frame ?f) ss st st1"
    using send_frame_absorbs [OF v(1) assms(5,4) v(2) assms(6)] by blast
  have "frames_arrive ([] @ f # fs) st1" using put_out_arrive [OF st1(2)] assms(1) v(2) by auto
  from wire.rpc_wait_answers [OF this _ assms(2)] obtain st2 where
    st2: "rpc_wait channel [reply_id, 0] amqp_time_infinite st1 = (Inr (rpc_result [reply_id, 0] f), st2)"
      "frames_arrive fs st2" "outbound_same st1 st2" "w_send (os st2) = w_send (os st1)" by auto
  let ?r = "rpc_result [reply_id, 0] f"
  let ?st = "st2\<lparr>most_recent_api_result := ?r\<rparr>"
  have "amqp_simple_rpc_decoded channel (method_number m) reply_id m st
      = (Inr (if reply_type ?r = AMQP_RESPONSE_NORMAL then map_option snd (reply ?r) else None), ?st)"
    using st1(1) st2(1)
    by (simp add: amqp_simple_rpc_decoded_def simple_rpc_decoded_inner_def simple_rpc_inner_def io_bind_def
        amqp_send_method_def amqp_send_method_inner_def)
  moreover have "frames_arrive fs ?st"
    using st2(2) by (simp add: frames_arrive_def steady_def amqp_get_sockfd_def buffer_ok_def incoming_def)
  moreover have "can_send ?st" "outbound_len ?st = outbound_len st" "w_send (os ?st) = ss"
    "w_sent (os ?st) = w_sent (os st) @ wire_frame ?f"
    using st1(2) st2(3,4) assms(4) by (simp_all add: put_out_def outbound_same_def can_send_def)
  ultimately show ?thesis by (intro exI conjI) (assumption | simp add: amqp_get_rpc_reply_def)+
qed

lemma die_on_last_reply_result:
  assumes "affects_rpc channel [reply_id, 0] f" "amqp_get_rpc_reply (cl_conn c) = rpc_result [reply_id, 0] f"
    and "reply_readable (rpc_result [reply_id, 0] f)"
  shows "die_on_last_reply c = (if reply_type (rpc_result [reply_id, 0] f) = AMQP_RESPONSE_NORMAL then Inr () else Inl (Exit 1), c)"
  using assms
  by (auto simp: die_on_last_reply_def die_on_amqp_error_def affects_rpc_def rpc_result_def rpc_reply_def t_return_def die_def
      split: option.splits prod.splits)

text \<open>The answers \<open>as\<close> are those to the requests that are made, and no request waits for an answer.\<close>

definition answered :: "u16 \<Rightarrow> request list \<Rightarrow> amqp_frame list \<Rightarrow> bool" where
  "answered channel rs as \<longleftrightarrow> list_all2 (answers channel) (asked rs as) as \<and> (length as = length rs \<or> \<not> accepted rs as)"

lemma conversation_asks:
  assumes "frames_arrive (as @ fs) (cl_conn c)" "answered channel rs as"
    and "list_all (sendable_request channel (cl_conn c)) rs" "can_send (cl_conn c)"
    and "absorbs_frames (map (request_frame channel) (asked rs as)) (w_send (os (cl_conn c))) = Some ss"
  shows "\<exists>c'. conversation channel rs c = (if accepted rs as then Inr () else Inl (Exit 1), c')
    \<and> w_sent (os (cl_conn c')) = w_sent (os (cl_conn c)) @ concat (map (wire_frame \<circ> request_frame channel) (asked rs as))
    \<and> frames_arrive fs (cl_conn c')"
  using assms
proof (induction rs arbitrary: as c)
  case Nil
  then show ?case by (simp add: t_return_def accepted_def answered_def)
next
  case (Cons r rs)
  obtain checked reply_id m where r: "r = (checked, reply_id, m)" by (cases r)
  obtain f as' where as: "as = f # as'" using Cons.prems(2) by (cases as) (auto simp: answered_def accepted_def)
  have "answers channel r f" using Cons.prems(2) by (simp add: answered_def as)
  then have f: "affects_rpc channel [reply_id, 0] f" "reply_readable (rpc_result [reply_id, 0] f)"
    by (simp_all add: answers_def r)
  have s: "valid_method m" "frame_size (method_frame channel (method_number m) m) \<le> outbound_len (cl_conn c)"
    using Cons.prems(3) by (simp_all add: sendable_request_def r)
  obtain ss1 where ss1: "absorbs (frame_size (method_frame channel (method_number m) m)) (w_send (os (cl_conn c))) = Some ss1"
      "absorbs_frames (map (request_frame channel) (if refuses r f then [] else asked rs as')) ss1 = Some ss"
    using Cons.prems(5) by (auto simp: as request_frame_def r split: option.splits)
  obtain v st1 where st1: "amqp_simple_rpc_decoded channel (method_number m) reply_id m (cl_conn c) = (Inr v, st1)"
      "amqp_get_rpc_reply st1 = rpc_result [reply_id, 0] f" "frames_arrive (as' @ fs) st1"
      "can_send st1" "outbound_len st1 = outbound_len (cl_conn c)" "w_send (os st1) = ss1"
      "w_sent (os st1) = w_sent (os (cl_conn c)) @ wire_frame (request_frame channel r)"
    using rpc_decoded_answers [OF _ f(1) s(1) Cons.prems(4) s(2) ss1(1), of "as' @ fs"] Cons.prems(1)
    by (auto simp: as request_frame_def r)
  let ?c = "c\<lparr>cl_conn := st1\<rparr>"
  have ask: "ask channel r c = (if refuses r f then Inl (Exit 1) else Inr (), ?c)"
    using st1(1,2) die_on_last_reply_result [OF f(1), of ?c] f(2)
    by (simp add: ask_def r t_bind_def in_client_def refuses_def t_return_def)
  show ?case
  proof (cases "refuses r f")
    case True
    then have "as' = []" using Cons.prems(2) by (simp add: answered_def as)
    with True ask st1(3,7) show ?thesis
      by (intro exI [of _ ?c]) (simp add: as t_bind_def accepted_def)
  next
    case False
    have s': "list_all (sendable_request channel (cl_conn ?c)) rs"
      using Cons.prems(3) st1(5) by (simp add: sendable_request_def)
    have a: "answered channel rs as'" using Cons.prems(2) False by (auto simp: answered_def as accepted_def)
    obtain c' where "conversation channel rs ?c = (if accepted rs as' then Inr () else Inl (Exit 1), c')"
        "w_sent (os (cl_conn c')) = w_sent (os st1) @ concat (map (wire_frame \<circ> request_frame channel) (asked rs as'))"
        "frames_arrive fs (cl_conn c')"
      using Cons.IH [of as' ?c, OF _ a s'] st1(3,4,6) ss1(2) False by (auto simp: comp_def)
    with False ask st1(7) show ?thesis
      by (intro exI [of _ c']) (simp add: as t_bind_def accepted_def comp_def)
  qed
qed

text \<open>
  C16. Setting up is a conversation: behind the login \<^verbatim>\<open>Mqinit\<close> sends the declarations of the exchange and of the queue,
  the binding, the prefetch count and the request to consume, each when the one before has been answered, up to the first
  request that is refused, and dies there with status 1; only a refusal of the prefetch count goes unnoticed.
\<close>

theorem setup_converses:
  assumes "frames_arrive (as @ fs) (cl_conn c)" "answered (word_of_int n) rs as"
    and "rs = setup_requests True False exchange typ queue key"
    and "list_all (sendable_request (word_of_int n) (cl_conn c)) rs" "can_send (cl_conn c)"
    and "absorbs_frames (map (request_frame (word_of_int n)) (asked rs as)) (w_send (os (cl_conn c))) = Some ss"
  shows "\<exists>c'. Mqinit (t_return ()) n exchange queue key typ c = (if accepted rs as then Inr () else Inl (Exit 1), c')
    \<and> w_sent (os (cl_conn c')) = w_sent (os (cl_conn c)) @ concat (map (wire_frame \<circ> request_frame (word_of_int n)) (asked rs as))
    \<and> frames_arrive fs (cl_conn c')"
  using conversation_asks [OF assms(1,2,4-6)] by (simp add: Mqinit_converses t_return_bind assms(3))

text \<open>The exchange is declared, and the queue refused with the close of the channel.\<close>

definition sample_answers :: "amqp_frame list" where
  "sample_answers =
    [method_frame 1 AMQP_EXCHANGE_DECLARE_OK_METHOD (M_Exchange Exchange_declare_ok),
     method_frame 1 AMQP_CHANNEL_CLOSE_METHOD (M_Channel (Channel_close 405 [] 0 0))]"

abbreviation sample_requests :: "request list" where
  "sample_requests \<equiv> setup_requests True False [0x65] [0x64] [0x71] [0x6B]"

lemmas sample_eval = sample_answers_def setup_requests_def answers_def refuses_def affects_rpc_def rpc_result_def rpc_reply_def
  frame_method_def method_frame_def reply_readable_def accepted_def answered_def

lemma sample_asked: "asked sample_requests sample_answers = take 2 sample_requests" "\<not> accepted sample_requests sample_answers"
  "answered 1 sample_requests sample_answers"
  by (simp_all add: sample_eval)

lemma sample_answers_fit: "f \<in> set sample_answers \<Longrightarrow> fits 4096 f \<and> frame_type f \<noteq> FRAME_HEARTBEAT"
  by (auto simp: sample_answers_def fits_4096 method_frame_def frame_size_def valid_frame_def wire_exchange.simps wire_channel.simps
      wire_shortstr_def be16_def valid_channel.simps valid_exchange.simps UINT8_MAX_def)

lemma sample_requests_fit:
  "list_all (sendable_request 1 (open_connection rs ss ps)) sample_requests"
  "absorbs_frames (map (request_frame 1) (take 2 sample_requests)) [Accepted 100, Accepted 7, Accepted 100] = Some []"
  by (simp_all add: setup_requests_def sendable_request_def request_frame_def frame_size_def method_frame_def amqp_cstring_bytes_def
      wire_exchange.simps wire_queue.simps wire_basic.simps wire_shortstr_def be16_def be32_def
      valid_exchange.simps valid_queue.simps valid_basic.simps UINT8_MAX_def valid_table_def wire_table_def wire_sized_def)

theorem setup_converses_witness:
  "\<exists>c'. Mqinit (t_return ()) 1 [0x65] [0x71] [0x6B] [0x64]
      (idle_client (open_connection (map (Received \<circ> wire_frame) sample_answers) [Accepted 100, Accepted 7, Accepted 100] []))
      = (Inl (Exit 1), c')
    \<and> w_sent (os (cl_conn c')) = concat (map (wire_frame \<circ> request_frame 1) (take 2 sample_requests))"
proof -
  let ?st = "open_connection (map (Received \<circ> wire_frame) sample_answers) [Accepted 100, Accepted 7, Accepted 100] []"
  have "incoming ?st = concat (map wire_frame sample_answers) @ []"
    using sample_answers_fit by (simp add: sample_answers_def received_frame fits_4096 del: arriving.simps(2))
  then have "frames_arrive (sample_answers @ []) (cl_conn (idle_client ?st))"
    unfolding frames_arrive_def using sample_answers_fit
    by (intro exI [of _ 4096] exI [of _ sample_answers] exI [of _ "[]"]) (simp add: idle_client_def)
  from setup_converses [OF this, of 1 sample_requests "[0x65]" "[0x64]" "[0x71]" "[0x6B]" "[]"] sample_requests_fit
  show ?thesis by (simp add: sample_asked idle_client_def) blast
qed

section \<open>What the sender publishes\<close>

text \<open>
  C37. The messages of the clients are not persistent: \<^verbatim>\<open>MqMessagePublish\<close>, when the system takes the bytes, sends the message
  with the body up to its first zero byte, behind a header without any property; the delivery mode that was asked
  for is not in it.
\<close>

theorem publish_not_persistent:
  assumes "can_send (cl_conn c)" "steady (cl_conn c)" "8 < frame_max (inp (cl_conn c))"
    and "frame_max (inp (cl_conn c)) \<le> int (outbound_len (cl_conn c))"
    and "fs = publish_frames (word_of_int n) (nat (frame_max (inp (cl_conn c)) - 8))
      (M_Basic (Basic_publish 0 (amqp_cstring_bytes exchange) (amqp_cstring_bytes queue) False False))
      empty_properties (amqp_cstring_bytes body)"
    and "sendable (fs ! 0) (cl_conn c)" "sendable (fs ! 1) (cl_conn c)"
    and "absorbs_frames fs (w_send (os (cl_conn c))) = Some ss"
  shows "\<exists>c'. MqMessagePublish n exchange queue body c = (Inr (), c')
    \<and> w_sent (os (cl_conn c')) = w_sent (os (cl_conn c)) @ concat (map wire_frame fs)
    \<and> (\<forall>f \<in> set fs. frame_type f = FRAME_HEADER \<longrightarrow>
        f = header_frame (word_of_int n) (of_nat (length (amqp_cstring_bytes body))) empty_properties)
    \<and> bp_flags empty_properties AND AMQP_BASIC_DELIVERY_MODE_FLAG = 0"
proof -
  have fs: "fs = publish_frames (word_of_int n) (nat (frame_max (inp (cl_conn c)) - 8))
      (M_Basic (Basic_publish 0 (amqp_cstring_bytes exchange) (amqp_cstring_bytes queue) False False))
      (case None of None \<Rightarrow> empty_properties | Some p \<Rightarrow> p) (amqp_cstring_bytes body)"
    using assms(5) by simp
  obtain st' where st': "amqp_basic_publish (word_of_int n) (amqp_cstring_bytes exchange) (amqp_cstring_bytes queue) False False
      None (amqp_cstring_bytes body) (cl_conn c) = (Inr 0, st')" "put_out (concat (map wire_frame fs)) ss (cl_conn c) st'"
    using basic_publish_absorbs [OF assms(1-4) fs assms(6-8)] by blast
  have "MqMessagePublish n exchange queue body c = (Inr (), c\<lparr>cl_conn := st'\<rparr>)"
    using st'(1) by (simp add: MqMessagePublish_def t_bind_def in_client_def die_on_error_def t_return_def)
  moreover have "f = header_frame (word_of_int n) (of_nat (length (amqp_cstring_bytes body))) empty_properties"
    if "f \<in> set fs" "frame_type f = FRAME_HEADER" for f
    using that by (auto simp: assms(5) publish_frames_def method_frame_def body_frame_def)
  ultimately show ?thesis
    using st'(2) by (intro exI [of _ "c\<lparr>cl_conn := st'\<rparr>"]) (simp add: put_out_def empty_properties_def)
qed

theorem publish_not_persistent_witness:
  "\<exists>c'. MqMessagePublish 1 [] [0x71] (sample_body @ [0, 0x62]) (idle_client (open_connection [] sample_sends [])) = (Inr (), c')
    \<and> w_sent (os (cl_conn c')) = concat (map wire_frame sample_frames)"
proof -
  have b: "amqp_cstring_bytes (sample_body @ [0, 0x62]) = sample_body" "amqp_cstring_bytes [] = []" "amqp_cstring_bytes [0x71] = [0x71]"
    by (simp_all add: amqp_cstring_bytes_def takeWhile_append)
  let ?c = "idle_client (open_connection [] sample_sends [])"
  have c: "cl_conn ?c = open_connection [] sample_sends []" by (simp add: idle_client_def)
  have f: "sample_frames = publish_frames (word_of_int 1) (nat (frame_max (inp (cl_conn ?c)) - 8))
      (M_Basic (Basic_publish 0 (amqp_cstring_bytes []) (amqp_cstring_bytes [0x71]) False False))
      empty_properties (amqp_cstring_bytes (sample_body @ [0, 0x62]))"
    by (simp add: c b sample_frames_def)
  from publish_not_persistent [OF _ _ _ _ f, of "[]"] show ?thesis
    by (simp add: c sample_sendable sample_absorbed) blast
qed

end
