(* ===== verification/Client_Threads.thy ===== *)
theory Client_Threads
  imports Client_Receive
begin

text \<open>
  The threads of the receiving program (\<^verbatim>\<open>c/recveive/src/server.cpp\<close>) and what they share. \<^verbatim>\<open>thread_B\<close> receives, and for the
  message \<^verbatim>\<open>m\<close> its handler raises \<^verbatim>\<open>gg_nFlags\<close> and then sets the alarm; while \<^verbatim>\<open>thread_A\<close> finds the flag raised it publishes
  and sleeps; the signal handler of the alarm lowers the flag. The steps of the threads and the signal interleave
  in any order. Each access to the flag is one step; in C++ the accesses race, and a compiler may merge them.
\<close>

section \<open>The steps\<close>

text \<open>Where a thread stands; \<open>Setting_alarm\<close> is between the two statements of \<^verbatim>\<open>HandlerMqMessage\<close>.\<close>

datatype a_place = Testing | Publishing | Sleeping
datatype b_place = Receiving | Setting_alarm

text \<open>\<open>late\<close> counts the messages \<^verbatim>\<open>thread_A\<close> has published since the flag was lowered.\<close>

record threads =
  flag :: int
  alarm_set :: bool
  a_at :: a_place
  b_at :: b_place
  late :: nat

text \<open>\<^verbatim>\<open>main\<close> sets an alarm before it creates the threads.\<close>

definition main_start :: threads where
  "main_start = \<lparr>flag = 0, alarm_set = True, a_at = Testing, b_at = Receiving, late = 0\<rparr>"

inductive thread_step :: "threads \<Rightarrow> threads \<Rightarrow> bool" where
  A_tests: "a_at s = Testing \<Longrightarrow> thread_step s (s\<lparr>a_at := if flag s \<noteq> 0 then Publishing else Testing\<rparr>)"
| A_publishes: "a_at s = Publishing
    \<Longrightarrow> thread_step s (s\<lparr>a_at := Sleeping, late := if flag s = 0 then Suc (late s) else late s\<rparr>)"
| A_wakes: "a_at s = Sleeping \<Longrightarrow> thread_step s (s\<lparr>a_at := Testing\<rparr>)"
| B_raises: "b_at s = Receiving \<Longrightarrow> thread_step s (s\<lparr>flag := 1, b_at := Setting_alarm, late := 0\<rparr>)"
| B_sets: "b_at s = Setting_alarm \<Longrightarrow> thread_step s (s\<lparr>alarm_set := True, b_at := Receiving\<rparr>)"
| alarm_rings: "alarm_set s \<Longrightarrow> thread_step s (s\<lparr>flag := 0, alarm_set := False, late := if flag s = 0 then late s else 0\<rparr>)"

code_pred thread_step .

text \<open>The two statements are what the handler of \<^verbatim>\<open>thread_B\<close> does for the message \<^verbatim>\<open>m\<close>, and the signal handler is the step \<open>alarm_rings\<close>.\<close>

lemma handler_steps:
  "HandlerMqMessage [0x6D] c = (Inr (), c\<lparr>cl_stdout := cl_stdout c @ ascii ''receive:m'' @ [0x0A] @ ascii ''message count'' @ [0x0A],
     gg_nFlags := 1, cl_alarm := Some 2\<rparr>)"
  "OnSIGALRMHandler c = (Inr (), c\<lparr>cl_stdout := cl_stdout c @ ascii ''time up!'' @ [0x0A], gg_nFlags := 0, cl_alarm := None\<rparr>)"
  by (simp_all add: HandlerMqMessage_def OnSIGALRMHandler_def amqp_cstring_bytes_def ascii_def t_bind_def printf_def Let_def)

section \<open>Publishing stops\<close>

text \<open>A raised flag has an alarm; behind a lowered one at most the message that was being published is published.\<close>

definition threads_inv :: "threads \<Rightarrow> bool" where
  "threads_inv s \<longleftrightarrow> (flag s \<noteq> 0 \<longrightarrow> alarm_set s \<or> b_at s = Setting_alarm)
     \<and> late s \<le> 1 \<and> (late s = 1 \<longrightarrow> a_at s \<noteq> Publishing) \<and> (flag s \<noteq> 0 \<longrightarrow> late s = 0)"

lemma threads_inv_step: "thread_step s s' \<Longrightarrow> threads_inv s \<Longrightarrow> threads_inv s'"
  by (induction rule: thread_step.induct) (auto simp: threads_inv_def)

lemma threads_inv_reachable: "thread_step\<^sup>*\<^sup>* main_start s \<Longrightarrow> threads_inv s"
  by (induction rule: rtranclp_induct) (auto simp: threads_inv_def main_start_def dest: threads_inv_step)

text \<open>
  C38. Publishing stops: however the threads and the alarm interleave, whenever the flag is raised an alarm is set that will lower
  it, or is about to be, and after the flag was lowered \<^verbatim>\<open>thread_A\<close> publishes at most one message more, until another
  \<^verbatim>\<open>m\<close> is received.
\<close>

theorem publishing_stops:
  assumes "thread_step\<^sup>*\<^sup>* main_start s"
  shows "(flag s \<noteq> 0 \<longrightarrow> alarm_set s \<or> b_at s = Setting_alarm) \<and> late s \<le> 1"
  using threads_inv_reachable [OF assms] by (simp add: threads_inv_def)

lemma steps_trans: "thread_step s s1 \<Longrightarrow> thread_step\<^sup>*\<^sup>* s1 s2 \<Longrightarrow> thread_step\<^sup>*\<^sup>* s s2"
  by (rule converse_rtranclp_into_rtranclp)

text \<open>A message that is published behind the alarm.\<close>

lemma late_message:
  "thread_step\<^sup>*\<^sup>* main_start \<lparr>flag = 0, alarm_set = False, a_at = Sleeping, b_at = Receiving, late = 1\<rparr>"
proof -
  have "thread_step main_start \<lparr>flag = 1, alarm_set = True, a_at = Testing, b_at = Setting_alarm, late = 0\<rparr>"
    using B_raises [of main_start] by (simp add: main_start_def)
  moreover have "thread_step \<dots> \<lparr>flag = 1, alarm_set = True, a_at = Testing, b_at = Receiving, late = 0\<rparr>"
    using B_sets [of "\<lparr>flag = 1, alarm_set = True, a_at = Testing, b_at = Setting_alarm, late = 0\<rparr>"] by simp
  moreover have "thread_step \<dots> \<lparr>flag = 1, alarm_set = True, a_at = Publishing, b_at = Receiving, late = 0\<rparr>"
    using A_tests [of "\<lparr>flag = 1, alarm_set = True, a_at = Testing, b_at = Receiving, late = 0\<rparr>"] by simp
  moreover have "thread_step \<dots> \<lparr>flag = 0, alarm_set = False, a_at = Publishing, b_at = Receiving, late = 0\<rparr>"
    using alarm_rings [of "\<lparr>flag = 1, alarm_set = True, a_at = Publishing, b_at = Receiving, late = 0\<rparr>"] by simp
  moreover have "thread_step \<dots> \<lparr>flag = 0, alarm_set = False, a_at = Sleeping, b_at = Receiving, late = 1\<rparr>"
    using A_publishes [of "\<lparr>flag = 0, alarm_set = False, a_at = Publishing, b_at = Receiving, late = 0\<rparr>"] by simp
  ultimately show ?thesis by (meson rtranclp.rtrancl_refl steps_trans)
qed

theorem publishing_stops_witness:
  "thread_step\<^sup>*\<^sup>* main_start \<lparr>flag = 0, alarm_set = False, a_at = Sleeping, b_at = Receiving, late = 1\<rparr> \<and> (1::nat) \<le> 1"
  using publishing_stops [OF late_message] late_message by simp

text \<open>
  A message \<^verbatim>\<open>m\<close> can be lost: the alarm that was set before, by \<^verbatim>\<open>main\<close> or for another \<^verbatim>\<open>m\<close>, rings between the two
  statements of the handler, and nothing is published.
\<close>

lemma message_lost:
  "thread_step\<^sup>*\<^sup>* \<lparr>flag = 0, alarm_set = True, a_at = p, b_at = Receiving, late = n\<rparr>
     \<lparr>flag = 0, alarm_set = True, a_at = p, b_at = Receiving, late = 0\<rparr>" (is "thread_step\<^sup>*\<^sup>* ?s _")
proof -
  have "thread_step ?s \<lparr>flag = 1, alarm_set = True, a_at = p, b_at = Setting_alarm, late = 0\<rparr>"
    using B_raises [of ?s] by simp
  moreover have "thread_step \<dots> \<lparr>flag = 0, alarm_set = False, a_at = p, b_at = Setting_alarm, late = 0\<rparr>"
    using alarm_rings [of "\<lparr>flag = 1, alarm_set = True, a_at = p, b_at = Setting_alarm, late = 0\<rparr>"] by simp
  moreover have "thread_step \<dots> \<lparr>flag = 0, alarm_set = True, a_at = p, b_at = Receiving, late = 0\<rparr>"
    using B_sets [of "\<lparr>flag = 0, alarm_set = False, a_at = p, b_at = Setting_alarm, late = 0\<rparr>"] by simp
  ultimately show ?thesis by (meson rtranclp.rtrancl_refl steps_trans)
qed

end
