(* ===== verification/Client_Epoll.thy ===== *)
theory Client_Epoll
  imports Tools_Consume
begin

text \<open>
  The sockets, the event handlers and the signals of the clients (\<^verbatim>\<open>IPv4socket.cpp\<close>, \<^verbatim>\<open>epoll.cpp\<close> and
  \<^verbatim>\<open>signal.cpp\<close> under \<^verbatim>\<open>c/recveive/src\<close>, \<^verbatim>\<open>c/send/src\<close> and \<^verbatim>\<open>c/back/src\<close>, three copies of the same text).

  What the system calls return are inputs: \<open>po_codes\<close> for \<^verbatim>\<open>socket\<close>, \<^verbatim>\<open>bind\<close>, \<^verbatim>\<open>listen\<close>, \<^verbatim>\<open>connect\<close>,
  \<^verbatim>\<open>accept\<close>, \<^verbatim>\<open>socketpair\<close>, \<^verbatim>\<open>sigaction\<close> and for setting flags, zero behind the end of the list, where a descriptor that is returned is the lowest that is not open;
  \<open>po_recvs\<close> for \<^verbatim>\<open>recv\<close>. The results of \<^verbatim>\<open>epoll_ctl\<close> and \<^verbatim>\<open>close\<close> are not looked at. Of the errors that are
  printed the model has no text.
\<close>

section \<open>The process\<close>

datatype notice =
    Accept_failed
  | New_user
  | Client_left
  | Client_data int amqp_bytes int
  | Got_signal int
  | Receive_signals

type_synonym sockaddr_in = "u16 \<times> u32"

text \<open>\<^verbatim>\<open>struct PROCESS_SIGNAL_DATE\<close>: the ends of the pair of sockets the signal handler writes to.\<close>

record process_signal_date =
  m_nRdFd :: int
  m_nWrFd :: int

record poller =
  po_errno :: errno
  po_codes :: "int list"
  po_recvs :: "sys_recv list"
  po_open :: "int list"
  po_addresses :: "(int \<times> sockaddr_in) list"
  po_nonblocking :: "int list"
  po_watched :: "(int \<times> bool) list"
  po_printed :: "notice list"
  po_signal :: process_signal_date
  po_sent :: "(int \<times> amqp_bytes) list"
  po_handled :: "int list"

type_synonym 'a poll_run = "(poller, 'a) process"

definition next_code :: "int poll_run" where
  "next_code p =
    (case po_codes p of
       [] \<Rightarrow> (Inr 0, p)
     | n # ns \<Rightarrow> (Inr n, p\<lparr>po_codes := ns\<rparr>))"

text \<open>A call that returns a descriptor, or minus one.\<close>

definition new_fd :: "int poll_run" where
  "new_fd =
    t_bind next_code (\<lambda>n p.
      if n < 0 then (Inr (-1), p)
      else (let sd = lowest_descriptor (po_open p) in (Inr sd, p\<lparr>po_open := sd # po_open p\<rparr>)))"

definition close_fd :: "int \<Rightarrow> unit poll_run" where
  "close_fd sd p = (Inr (), p\<lparr>po_open := remove1 sd (po_open p)\<rparr>)"

definition notify :: "notice \<Rightarrow> unit poll_run" where
  "notify n p = (Inr (), p\<lparr>po_printed := po_printed p @ [n]\<rparr>)"

definition use_address :: "int \<Rightarrow> sockaddr_in \<Rightarrow> unit poll_run" where
  "use_address sd a p = (Inr (), p\<lparr>po_addresses := po_addresses p @ [(sd, a)]\<rparr>)"

text \<open>\<^verbatim>\<open>recv\<close> with room for \<open>n\<close> bytes: what it returns and the bytes; what did not fit is there for the next call.\<close>

definition recv_into :: "nat \<Rightarrow> (int \<times> amqp_bytes) poll_run" where
  "recv_into n p =
    (case po_recvs p of
       [] \<Rightarrow> (Inl (Fault Blocked), p)
     | Received b # rs \<Rightarrow>
         (Inr (int (length (take n b)), take n b), p\<lparr>po_recvs := (if drop n b = [] then rs else Received (drop n b) # rs)\<rparr>)
     | Recv_errno e # rs \<Rightarrow> (Inr (-1, []), p\<lparr>po_recvs := rs, po_errno := e\<rparr>))"

section \<open>IPv4socket.cpp\<close>

text \<open>An address that cannot be parsed leaves the zeros of \<^verbatim>\<open>bzero\<close>.\<close>

definition ip_address :: "(amqp_bytes \<Rightarrow> u32 option) \<Rightarrow> amqp_bytes \<Rightarrow> u32" where
  "ip_address inet_pton ip = (case inet_pton ip of None \<Rightarrow> 0 | Some a \<Rightarrow> a)"

definition CreatIpv4TcpCleintSocket :: "(amqp_bytes \<Rightarrow> u32 option) \<Rightarrow> amqp_bytes option \<Rightarrow> int \<Rightarrow> int poll_run" where
  "CreatIpv4TcpCleintSocket inet_pton pfcIp nPort =
    (case pfcIp of
       None \<Rightarrow> (\<lambda>p. (Inl (Fault Undefined_behaviour), p))
     | Some ip \<Rightarrow>
         t_bind new_fd (\<lambda>nSockFd.
           if nSockFd < 0 then t_return (-1)
           else
             t_bind (use_address nSockFd (word_of_int nPort, ip_address inet_pton ip)) (\<lambda>_.
             t_bind next_code (\<lambda>n.
               if n < 0 then t_bind (close_fd nSockFd) (\<lambda>_. t_return (-1)) else t_return nSockFd))))"

text \<open>\<^verbatim>\<open>INADDR_ANY\<close> is zero.\<close>

definition bind_address :: "(amqp_bytes \<Rightarrow> u32 option) \<Rightarrow> amqp_bytes option \<Rightarrow> int \<Rightarrow> sockaddr_in" where
  "bind_address inet_pton pfcIp nPort =
    (word_of_int nPort, case pfcIp of None \<Rightarrow> 0 | Some ip \<Rightarrow> ip_address inet_pton ip)"

definition CreatIpv4TcpServerSocket ::
    "(amqp_bytes \<Rightarrow> u32 option) \<Rightarrow> amqp_bytes option \<Rightarrow> int \<Rightarrow> int poll_run" where
  "CreatIpv4TcpServerSocket inet_pton pfcIp nPort =
    t_bind new_fd (\<lambda>nSockFd.
      if nSockFd < 0 then t_return (-1)
      else
        t_bind (use_address nSockFd (bind_address inet_pton pfcIp nPort)) (\<lambda>_.
        t_bind next_code (\<lambda>n.
          if n < 0 then t_return (-1)
          else t_bind next_code (\<lambda>n. if n < 0 then t_return (-1) else t_return nSockFd))))"

definition CreatIpv4UdpSocket ::
    "(amqp_bytes \<Rightarrow> u32 option) \<Rightarrow> amqp_bytes option \<Rightarrow> int \<Rightarrow> int poll_run" where
  "CreatIpv4UdpSocket inet_pton pfcIp nPort =
    t_bind new_fd (\<lambda>nSockFd.
      if nSockFd < 0 then t_return (-1)
      else
        t_bind (use_address nSockFd (bind_address inet_pton pfcIp nPort)) (\<lambda>_.
        t_bind next_code (\<lambda>n. if n < 0 then t_return (-1) else t_return nSockFd)))"

text \<open>The flags of a descriptor are zero or \<^verbatim>\<open>O_NONBLOCK\<close>; setting them may fail.\<close>

definition O_NONBLOCK_flag :: int where "O_NONBLOCK_flag = 2048"

definition SetNonblocking :: "int \<Rightarrow> int poll_run" where
  "SetNonblocking nFd =
    t_bind next_code (\<lambda>n p.
      if n < 0 then (Inr (-1), p)
      else (Inr (if nFd \<in> set (po_nonblocking p) then O_NONBLOCK_flag else 0),
        p\<lparr>po_nonblocking := List.insert nFd (po_nonblocking p)\<rparr>))"

section \<open>signal.cpp\<close>

text \<open>
  \<^verbatim>\<open>MainProcessSignalProcessing\<close> returns nothing where it has handled signals, and its result is used.
  \<^verbatim>\<open>SIGUSR1\<close>, \<^verbatim>\<open>SIGHUP\<close> and \<^verbatim>\<open>SIGPIPE\<close> are printed.
\<close>

definition SIGUSR1 :: int where "SIGUSR1 = 10"
definition SIGHUP :: int where "SIGHUP = 1"
definition SIGPIPE :: int where "SIGPIPE = 13"

definition signal_notices :: "amqp_bytes \<Rightarrow> notice list" where
  "signal_notices gcSignals = map Got_signal (filter (\<lambda>s. s \<in> {SIGUSR1, SIGHUP, SIGPIPE}) (map uint gcSignals))"

definition MainProcessSignalProcessing :: "int poll_run" where
  "MainProcessSignalProcessing =
    t_bind (recv_into 1024) (\<lambda>(nRet, gcSignals).
      if nRet = -1 then t_return 0
      else if nRet = 0 then t_return 0
      else (\<lambda>p. (Inl (Fault Undefined_behaviour), p\<lparr>po_printed := po_printed p @ signal_notices gcSignals\<rparr>)))"

text \<open>The calls are inside of \<^verbatim>\<open>assert\<close>, which is compiled in.\<close>

definition SigSet :: "int \<Rightarrow> unit poll_run" where
  "SigSet nSigNum =
    t_bind next_code (\<lambda>n p.
      if n = -1 then (Inl (Fault Aborted), p) else (Inr (), p\<lparr>po_handled := List.insert nSigNum (po_handled p)\<rparr>))"

text \<open>The first byte of the number in memory is its lowest one.\<close>

definition MainProcessSigHandler :: "int \<Rightarrow> unit poll_run" where
  "MainProcessSigHandler nSigNum p =
    (Inr (), p\<lparr>po_sent := po_sent p @ [(m_nWrFd (po_signal p), [word_of_int nSigNum])], po_printed := po_printed p @ [Receive_signals]\<rparr>)"

definition signal_fds :: "process_signal_date \<Rightarrow> unit poll_run" where
  "signal_fds s p = (Inr (), p\<lparr>po_signal := s\<rparr>)"

text \<open>\<^verbatim>\<open>socketpair\<close> opens two descriptors.\<close>

definition socketpair :: "(int \<times> int) poll_run" where
  "socketpair =
    t_bind next_code (\<lambda>n p.
      if n = -1 then (Inl (Fault Aborted), p)
      else
        (let sd0 = lowest_descriptor (po_open p); sd1 = lowest_descriptor (sd0 # po_open p)
         in (Inr (sd0, sd1), p\<lparr>po_open := sd1 # sd0 # po_open p\<rparr>)))"

definition ProcessSigInit :: "unit poll_run" where
  "ProcessSigInit =
    t_bind socketpair (\<lambda>(sd0, sd1).
    t_bind (SetNonblocking sd1) (\<lambda>_.
    t_bind (SetNonblocking sd0) (\<lambda>_.
    t_bind (signal_fds \<lparr>m_nRdFd = sd0, m_nWrFd = sd1\<rparr>) (\<lambda>_.
    t_bind (SigSet SIGUSR1) (\<lambda>_.
    t_bind (SigSet SIGHUP) (\<lambda>_. SigSet SIGPIPE))))))"

section \<open>epoll.cpp\<close>

definition AddFdToEpoll :: "int \<Rightarrow> bool \<Rightarrow> unit poll_run" where
  "AddFdToEpoll nListenFd nEnable =
    t_bind (\<lambda>p. (Inr (), p\<lparr>po_watched := po_watched p @ [(nListenFd, nEnable)]\<rparr>))
      (\<lambda>_. t_bind (SetNonblocking nListenFd) (\<lambda>_. t_return ()))"

definition DeleteFdFromEpoll :: "int \<Rightarrow> unit poll_run" where
  "DeleteFdFromEpoll nListenFd p = (Inr (), p\<lparr>po_watched := filter (\<lambda>(sd, _). sd \<noteq> nListenFd) (po_watched p)\<rparr>)"

text \<open>The bits \<^verbatim>\<open>EPOLLIN\<close> and \<^verbatim>\<open>EPOLLRDHUP\<close> of an event.\<close>

record epoll_event =
  ev_fd :: int
  ev_in :: bool
  ev_rdhup :: bool

definition accept_client :: "bool \<Rightarrow> unit poll_run" where
  "accept_client edge =
    t_bind new_fd (\<lambda>nConnFd.
      if nConnFd < 0 then notify Accept_failed
      else t_bind (AddFdToEpoll nConnFd edge) (\<lambda>_. notify New_user))"

definition client_gone :: "int \<Rightarrow> unit poll_run" where
  "client_gone sd = t_bind (notify Client_left) (\<lambda>_. t_bind (DeleteFdFromEpoll sd) (\<lambda>_. close_fd sd))"

text \<open>Data of a client, level-triggered; \<^verbatim>\<open>errno\<close> is looked at although \<^verbatim>\<open>recv\<close> may not have failed.\<close>

definition lt_read :: "int \<Rightarrow> unit poll_run" where
  "lt_read nSockFd =
    t_bind (recv_into 1023) (\<lambda>(nRet, gcBuff) p.
      if nRet \<le> 0 \<and> po_errno p \<noteq> EWOULDBLOCK
      then t_bind (DeleteFdFromEpoll nSockFd) (\<lambda>_. t_bind (notify Client_left) (\<lambda>_. close_fd nSockFd)) p
      else notify (Client_data nRet (amqp_cstring_bytes gcBuff) nSockFd) p)"

definition lt_event :: "int \<Rightarrow> epoll_event \<Rightarrow> unit poll_run" where
  "lt_event nListenFd ev p =
    (if ev_fd ev = m_nRdFd (po_signal p) \<and> ev_in ev then t_bind MainProcessSignalProcessing (\<lambda>_. t_return ())
     else if nListenFd = ev_fd ev then accept_client False
     else if ev_rdhup ev then client_gone (ev_fd ev)
     else if ev_in ev then lt_read (ev_fd ev)
     else t_return ()) p"

fun lt :: "int \<Rightarrow> epoll_event list \<Rightarrow> unit poll_run" where
  "lt nListenFd [] = t_return ()"
| "lt nListenFd (ev # evs) = t_bind (lt_event nListenFd ev) (\<lambda>_. lt nListenFd evs)"

text \<open>What is left to receive, in calls and bytes.\<close>

definition recvs_left :: "poller \<Rightarrow> nat" where
  "recvs_left p = sum_list (map (\<lambda>r. case r of Received b \<Rightarrow> Suc (length b) | Recv_errno e \<Rightarrow> 1) (po_recvs p))"

lemma recv_into_less: "recv_into 1023 p = (Inr v, p') \<Longrightarrow> recvs_left p' < recvs_left p"
  by (auto simp: recv_into_def recvs_left_def split: list.splits sys_recv.splits if_splits)

lemma notify_left: "recvs_left (snd (notify n p)) = recvs_left p"
  by (simp add: notify_def recvs_left_def)

text \<open>Data of a client, edge-triggered: the loop goes on when there is nothing more, and at the end of the data.\<close>

function et_read :: "int \<Rightarrow> unit poll_run" where
  "et_read nSockFd p =
    (case recv_into 1023 p of
       (Inl e, p1) \<Rightarrow> (Inl e, p1)
     | (Inr (nRet, gcBuff), p1) \<Rightarrow>
         if nRet < 0 then
           (if po_errno p1 = EWOULDBLOCK then et_read nSockFd p1
            else t_bind (DeleteFdFromEpoll nSockFd) (\<lambda>_. close_fd nSockFd) p1)
         else et_read nSockFd (snd (notify (Client_data nRet (amqp_cstring_bytes gcBuff) nSockFd) p1)))"
  by pat_completeness auto
termination
  by (relation "measure (\<lambda>(sd, p). recvs_left p)") (auto simp: notify_left dest!: recv_into_less [OF sym] recv_into_less)

declare et_read.simps [simp del]

definition et_event :: "int \<Rightarrow> epoll_event \<Rightarrow> unit poll_run" where
  "et_event nListenFd ev =
    (if nListenFd = ev_fd ev then accept_client True
     else if ev_rdhup ev then client_gone (ev_fd ev)
     else if ev_in ev then et_read (ev_fd ev)
     else t_return ())"

fun et :: "int \<Rightarrow> epoll_event list \<Rightarrow> unit poll_run" where
  "et nListenFd [] = t_return ()"
| "et nListenFd (ev # evs) = t_bind (et_event nListenFd ev) (\<lambda>_. et nListenFd evs)"

section \<open>The descriptors of the sockets\<close>

lemma lowest_descriptor_nonneg: "0 \<le> lowest_descriptor fds"
proof -
  let ?ns = "map int [0..<Suc (length fds)]"
  have "card (set ?ns) = Suc (length fds)" by (simp add: card_image inj_on_def del: upt_Suc)
  then have "\<not> set ?ns \<subseteq> set fds" using card_mono [of "set fds" "set ?ns"] card_length [of fds] by auto
  then have "filter (\<lambda>n. n \<notin> set fds) ?ns \<noteq> []" by (auto simp: filter_empty_conv simp del: upt_Suc)
  then have "lowest_descriptor fds \<in> set ?ns"
    unfolding lowest_descriptor_def by (meson filter_is_subset hd_in_set subset_iff)
  then show ?thesis by auto
qed

text \<open>The result of the next call.\<close>

definition next_of :: "poller \<Rightarrow> int" where
  "next_of p = (case po_codes p of [] \<Rightarrow> 0 | n # _ \<Rightarrow> n)"

lemma next_code_eq: "next_code p = (Inr (next_of p), p\<lparr>po_codes := tl (po_codes p)\<rparr>)"
  by (cases p; cases "po_codes p") (auto simp: next_code_def next_of_def)

lemma new_fd_eq:
  "new_fd p =
    (if next_of p < 0 then (Inr (-1), p\<lparr>po_codes := tl (po_codes p)\<rparr>)
     else (Inr (lowest_descriptor (po_open p)),
       p\<lparr>po_codes := tl (po_codes p), po_open := lowest_descriptor (po_open p) # po_open p\<rparr>))"
  by (simp add: new_fd_def t_bind_def next_code_eq Let_def)

lemmas socket_defs = CreatIpv4TcpCleintSocket_def CreatIpv4TcpServerSocket_def CreatIpv4UdpSocket_def
  t_bind_def t_return_def use_address_def close_fd_def next_code_eq new_fd_eq

text \<open>
  The descriptors of the sockets: connecting returns a new descriptor, which is open, or minus one, and then no
  descriptor more is open than before. The sockets that are bound do not keep to this: when \<^verbatim>\<open>bind\<close> or \<^verbatim>\<open>listen\<close>
  fails they return minus one, and the descriptor stays open.
\<close>

theorem socket_descriptors:
  "(\<exists>r p'. CreatIpv4TcpCleintSocket inet_pton (Some ip) nPort p = (Inr r, p')
     \<and> (if r = -1 then po_open p' = po_open p else r \<notin> set (po_open p) \<and> po_open p' = r # po_open p))
   \<and> (\<exists>r p'. CreatIpv4TcpServerSocket inet_pton any_ip nPort p = (Inr r, p')
     \<and> po_open p' = (if next_of p < 0 then po_open p else lowest_descriptor (po_open p) # po_open p))
   \<and> (\<exists>r p'. CreatIpv4UdpSocket inet_pton any_ip nPort p = (Inr r, p')
     \<and> po_open p' = (if next_of p < 0 then po_open p else lowest_descriptor (po_open p) # po_open p))"
  using lowest_descriptor_free [of "po_open p"] lowest_descriptor_nonneg [of "po_open p"]
  by (auto simp: socket_defs)

text \<open>A port that is in use.\<close>

lemma server_socket_leaks:
  assumes "po_codes p = [0, -1]"
  shows "fst (CreatIpv4TcpServerSocket inet_pton None nPort p) = Inr (-1)"
    "po_open (snd (CreatIpv4TcpServerSocket inet_pton None nPort p)) = lowest_descriptor (po_open p) # po_open p"
  using assms lowest_descriptor_nonneg [of "po_open p"] by (simp_all add: socket_defs next_of_def)

section \<open>What is watched is open\<close>

definition watch_ok :: "poller \<Rightarrow> bool" where
  "watch_ok p \<longleftrightarrow> distinct (po_open p) \<and> fst ` set (po_watched p) \<subseteq> set (po_open p)"

text \<open>A step that keeps this, however it ends.\<close>

definition keeps :: "'a poll_run \<Rightarrow> bool" where
  "keeps m \<longleftrightarrow> (\<forall>p. watch_ok p \<longrightarrow> watch_ok (snd (m p)))"

lemma keeps_bind: "keeps m \<Longrightarrow> (\<And>v. keeps (f v)) \<Longrightarrow> keeps (t_bind m f)"
  unfolding keeps_def t_bind_def by (auto split: prod.splits sum.splits)

lemma keeps_return: "keeps (t_return v)"
  by (simp add: keeps_def t_return_def)

lemma keeps_notify: "keeps (notify n)"
  by (simp add: keeps_def notify_def watch_ok_def)

lemma keeps_recv: "keeps (recv_into n)"
  by (auto simp: keeps_def recv_into_def watch_ok_def split: list.splits sys_recv.splits)

lemma keeps_gone: "watch_ok p \<Longrightarrow> watch_ok (snd (t_bind (DeleteFdFromEpoll sd) (\<lambda>_. close_fd sd) p))"
  by (auto simp: watch_ok_def t_bind_def DeleteFdFromEpoll_def close_fd_def)

lemma keeps_client_gone: "keeps (client_gone sd)"
proof -
  have "keeps (t_bind (DeleteFdFromEpoll sd) (\<lambda>_. close_fd sd))" using keeps_gone by (simp add: keeps_def)
  then show ?thesis unfolding client_gone_def by (rule keeps_bind [OF keeps_notify])
qed

lemma keeps_accept: "keeps (accept_client edge)"
  using lowest_descriptor_free lowest_descriptor_nonneg
  by (auto simp: keeps_def accept_client_def t_bind_def new_fd_eq notify_def AddFdToEpoll_def SetNonblocking_def next_code_eq t_return_def
      watch_ok_def not_less)

lemma keeps_signal: "keeps MainProcessSignalProcessing"
  unfolding MainProcessSignalProcessing_def
proof (intro keeps_bind keeps_recv)
  show "keeps (case x of (nRet, gcSignals) \<Rightarrow> if nRet = -1 then t_return 0 else if nRet = 0 then t_return 0
      else (\<lambda>p. (Inl (Fault Undefined_behaviour), p\<lparr>po_printed := po_printed p @ signal_notices gcSignals\<rparr>)))"
    for x :: "int \<times> amqp_bytes"
    by (auto simp: keeps_def t_return_def watch_ok_def split: prod.split)
qed

lemma keeps_lt_read: "keeps (lt_read sd)"
  unfolding lt_read_def
proof (intro keeps_bind keeps_recv)
  show "keeps (case x of (nRet, gcBuff) \<Rightarrow> (\<lambda>p. if nRet \<le> 0 \<and> po_errno p \<noteq> EWOULDBLOCK
      then t_bind (DeleteFdFromEpoll sd) (\<lambda>_. t_bind (notify Client_left) (\<lambda>_. close_fd sd)) p
      else notify (Client_data nRet (amqp_cstring_bytes gcBuff) sd) p))" for x :: "int \<times> amqp_bytes"
    by (auto simp: keeps_def t_bind_def notify_def DeleteFdFromEpoll_def close_fd_def watch_ok_def split: prod.split)
qed

lemma keeps_et_read: "keeps (et_read sd)"
proof -
  have "watch_ok p \<longrightarrow> watch_ok (snd (et_read sd p))" for p
  proof (induction sd p rule: et_read.induct)
    case (1 sd p)
    obtain x p1 where r: "recv_into 1023 p = (x, p1)" by fastforce
    have k: "watch_ok p \<Longrightarrow> watch_ok p1" using keeps_recv [of 1023] r by (simp add: keeps_def) (metis snd_conv)
    show ?case
    proof (cases x)
      case (Inr v)
      obtain nRet gcBuff where v: "v = (nRet, gcBuff)" by (cases v)
      have n: "watch_ok p1 \<Longrightarrow> watch_ok (snd (notify (Client_data nRet (amqp_cstring_bytes gcBuff) sd) p1))"
        using keeps_notify by (simp add: keeps_def)
      from 1 [OF r [symmetric] Inr v [symmetric]] k n keeps_gone [of p1 sd] r Inr v
      show ?thesis by (auto simp: et_read.simps [of sd p])
    qed (use r k in \<open>simp add: et_read.simps [of sd p]\<close>)
  qed
  then show ?thesis by (simp add: keeps_def)
qed

lemma keeps_lt: "keeps (lt nListenFd evs)"
proof (induction evs)
  case (Cons ev evs)
  have "keeps (lt_event nListenFd ev)"
    using keeps_bind [OF keeps_signal keeps_return, of "\<lambda>_. ()"] keeps_accept keeps_client_gone keeps_lt_read keeps_return [of "()"]
    by (auto simp: keeps_def lt_event_def)
  with Cons show ?case by (auto intro: keeps_bind)
qed (simp add: keeps_return)

lemma keeps_et: "keeps (et nListenFd evs)"
proof (induction evs)
  case (Cons ev evs)
  have "keeps (et_event nListenFd ev)"
    unfolding et_event_def by (auto intro: keeps_return keeps_accept keeps_client_gone keeps_et_read)
  with Cons show ?case by (auto intro: keeps_bind)
qed (simp add: keeps_return)

text \<open>
  C40. What is watched is open: handling any events, level-triggered or edge-triggered, keeps that every descriptor in the
  interest list is open and no descriptor is open twice, whatever the system calls return and however it ends.
\<close>

theorem events_keep_watched:
  assumes "watch_ok p"
  shows "watch_ok (snd (lt nListenFd evs p)) \<and> watch_ok (snd (et nListenFd evs p))"
  using assms keeps_lt keeps_et by (auto simp: keeps_def)

definition sample_poller :: poller where
  "sample_poller = \<lparr>po_errno = E_other, po_codes = [], po_recvs = [Received [0x61], Received []], po_open = [3, 0, 1, 2],
     po_addresses = [], po_nonblocking = [], po_watched = [(3, False)], po_printed = [],
     po_signal = \<lparr>m_nRdFd = 9, m_nWrFd = 10\<rparr>, po_sent = [], po_handled = []\<rparr>"

theorem events_keep_watched_witness:
  "watch_ok (snd (lt 3 [\<lparr>ev_fd = 3, ev_in = True, ev_rdhup = False\<rparr>, \<lparr>ev_fd = 4, ev_in = True, ev_rdhup = False\<rparr>] sample_poller))"
proof -
  have "watch_ok sample_poller" by (simp add: watch_ok_def sample_poller_def)
  from events_keep_watched [OF this] show ?thesis by blast
qed

section \<open>The edge-triggered loop\<close>

text \<open>An error other than that there is nothing to receive.\<close>

fun hard_error :: "sys_recv \<Rightarrow> bool" where
  "hard_error (Recv_errno e) = (e \<noteq> EWOULDBLOCK)"
| "hard_error (Received b) = False"

text \<open>
  C39. The edge-triggered loop does not end with the data: it is left when, and only when, \<^verbatim>\<open>recv\<close> reports an error other than that
  there is nothing to receive; it goes on calling \<^verbatim>\<open>recv\<close> when there is nothing to receive, and when the peer has closed the
  connection.
\<close>

theorem et_read_ends:
  "fst (et_read sd p) = (if list_ex hard_error (po_recvs p) then Inr () else Inl (Fault Blocked))"
proof (induction sd p rule: et_read.induct)
  case (1 sd p)
  show ?case
  proof (cases "po_recvs p")
    case (Cons r rs)
    show ?thesis
    proof (cases r)
      case (Received b)
      let ?p = "p\<lparr>po_recvs := (if drop 1023 b = [] then rs else Received (drop 1023 b) # rs)\<rparr>"
      have r: "recv_into 1023 p = (Inr (int (length (take 1023 b)), take 1023 b), ?p)"
        using Cons Received by (simp add: recv_into_def)
      have "fst (et_read sd p) = fst (et_read sd (snd (notify (Client_data (int (length (take 1023 b))) (amqp_cstring_bytes (take 1023 b)) sd) ?p)))"
        using r by (simp add: et_read.simps [of sd p])
      with 1(2) [OF r [symmetric] refl refl] Cons Received show ?thesis by (auto simp: notify_def)
    next
      case (Recv_errno e)
      let ?p = "p\<lparr>po_recvs := rs, po_errno := e\<rparr>"
      have r: "recv_into 1023 p = (Inr (-1, []), ?p)" using Cons Recv_errno by (simp add: recv_into_def)
      show ?thesis
      proof (cases "e = EWOULDBLOCK")
        case True
        with r 1(1) [OF r [symmetric] refl refl] Cons Recv_errno show ?thesis by (simp add: et_read.simps [of sd p])
      next
        case False
        with r Cons Recv_errno show ?thesis
          by (simp add: et_read.simps [of sd p] t_bind_def DeleteFdFromEpoll_def close_fd_def)
      qed
    qed
  qed (simp add: et_read.simps [of sd p] recv_into_def)
qed

text \<open>The level-triggered handler keeps a connection that the peer has closed, if \<^verbatim>\<open>errno\<close> is still that of an earlier call.\<close>

lemma lt_keeps_closed:
  assumes "po_recvs p = Received [] # rs" "po_errno p = EWOULDBLOCK"
  shows "po_open (snd (lt_read sd p)) = po_open p" "po_watched (snd (lt_read sd p)) = po_watched p"
  using assms by (simp_all add: lt_read_def t_bind_def recv_into_def notify_def)

text \<open>A signal that arrives has no defined effect.\<close>

lemma signal_undefined:
  assumes "po_recvs p = Received (s # ss) # rs" "ev_fd ev = m_nRdFd (po_signal p)" "ev_in ev"
  shows "fst (lt nListenFd (ev # evs) p) = Inl (Fault Undefined_behaviour)"
  using assms by (simp add: lt_event_def MainProcessSignalProcessing_def t_bind_def recv_into_def)

text \<open>With all calls granted, the three signals are handled and the byte the handler sends is the one the other end knows.\<close>

lemma ProcessSigInit_handles:
  assumes "po_codes p = []"
  shows "\<exists>p'. ProcessSigInit p = (Inr (), p') \<and> {SIGUSR1, SIGHUP, SIGPIPE} \<subseteq> set (po_handled p')
    \<and> {m_nRdFd (po_signal p'), m_nWrFd (po_signal p')} \<subseteq> set (po_open p') \<and> m_nRdFd (po_signal p') \<noteq> m_nWrFd (po_signal p')"
  using assms lowest_descriptor_free [of "lowest_descriptor (po_open p) # po_open p"]
  by (auto simp: ProcessSigInit_def socketpair_def SetNonblocking_def signal_fds_def SigSet_def t_bind_def next_code_def Let_def)

lemma signal_byte_known:
  assumes "s \<in> {SIGUSR1, SIGHUP, SIGPIPE}"
  shows "signal_notices (snd (last (po_sent (snd (MainProcessSigHandler s p))))) = [Got_signal s]"
  using assms by (auto simp: MainProcessSigHandler_def signal_notices_def SIGUSR1_def SIGHUP_def SIGPIPE_def)

end
