(* ===== verification/Client_Dump.thy ===== *)
theory Client_Dump
  imports Amqp_Publish Amqp_Login
begin

text \<open>
  The hexadecimal dump of the clients and of the examples of the library (\<^verbatim>\<open>amqp_dump\<close> in \<^verbatim>\<open>utils.cpp\<close> and
  \<^verbatim>\<open>rabbitmq-c-master/examples/utils.c\<close>), as the text it prints, and that it shows the rows of the buffer except
  those that repeat the row before.
\<close>

section \<open>The program\<close>

text \<open>\<^verbatim>\<open>%0kX\<close>: at least \<open>k\<close> digits.\<close>

fun hex_digits :: "nat \<Rightarrow> amqp_bytes" where
  "hex_digits n = (if n < 16 then [hex_char n] else hex_digits (n div 16) @ [hex_char (n mod 16)])"

declare hex_digits.simps [simp del]

definition fmt_X :: "nat \<Rightarrow> nat \<Rightarrow> amqp_bytes" where
  "fmt_X k n = replicate (k - length (hex_digits n)) 0x30 @ hex_digits n"

definition isprint :: "u8 \<Rightarrow> bool" where
  "isprint c \<longleftrightarrow> 32 \<le> c \<and> c \<le> 126"

text \<open>The separator in the middle of a row.\<close>

definition middle :: "nat \<Rightarrow> amqp_bytes" where
  "middle i = (if i = 8 then ascii '' :'' else [])"

text \<open>The \<^verbatim>\<open>numinrow\<close> characters of a row are the list \<open>chs\<close>.\<close>

definition dump_row :: "nat \<Rightarrow> amqp_bytes \<Rightarrow> amqp_bytes" where
  "dump_row count chs =
    fmt_X 8 (count - length chs) @ ascii '':''
    @ (if chs \<noteq> [] then
         concat (map (\<lambda>i. middle i @ ascii '' '' @ fmt_X 2 (unat (chs ! i))) [0..<length chs])
         @ concat (map (\<lambda>i. middle i @ ascii ''   '') [length chs..<16])
         @ ascii ''  ''
         @ map (\<lambda>c. if isprint c then c else 0x2E) chs
       else [])
    @ [0x0A]"

text \<open>The array \<^verbatim>\<open>oldchs\<close>, all zeros at first, and \<^verbatim>\<open>chs\<close> up to \<^verbatim>\<open>numinrow\<close>.\<close>

record dump =
  du_count :: nat
  du_chs :: amqp_bytes
  du_oldchs :: amqp_bytes
  du_showed_dots :: bool
  du_printed :: amqp_bytes

definition dots_line :: amqp_bytes where
  "dots_line = ascii ''          .. .. .. .. .. .. .. .. : .. .. .. .. .. .. .. ..'' @ [0x0A]"

definition end_row :: "dump \<Rightarrow> dump" where
  "end_row d =
    (let d1 = (if du_oldchs d = du_chs d then
                 (if \<not> du_showed_dots d then d\<lparr>du_showed_dots := True, du_printed := du_printed d @ dots_line\<rparr> else d)
               else d\<lparr>du_showed_dots := False, du_printed := du_printed d @ dump_row (du_count d) (du_chs d)\<rparr>)
     in d1\<lparr>du_oldchs := du_chs d, du_chs := []\<rparr>)"

definition dump_byte :: "u8 \<Rightarrow> dump \<Rightarrow> dump" where
  "dump_byte ch d =
    (let d1 = (if length (du_chs d) = 16 then end_row d else d)
     in d1\<lparr>du_count := du_count d1 + 1, du_chs := du_chs d1 @ [ch]\<rparr>)"

definition end_dump :: "dump \<Rightarrow> amqp_bytes" where
  "end_dump d =
    du_printed d @ dump_row (du_count d) (du_chs d)
    @ (if du_chs d \<noteq> [] then fmt_X 8 (du_count d) @ ascii '':'' @ [0x0A] else [])"

definition amqp_dump :: "amqp_bytes \<Rightarrow> amqp_bytes" where
  "amqp_dump buffer =
    end_dump (fold dump_byte buffer
      \<lparr>du_count = 0, du_chs = [], du_oldchs = replicate 16 0, du_showed_dots = False, du_printed = []\<rparr>)"

section \<open>The rows\<close>

text \<open>
  The text for the rows from the offset \<open>off\<close> on: a row that repeats the one before, \<open>prev\<close>, is left out, a line of dots
  stands for the first of them; the last row is always shown, and behind it the length.
\<close>

fun shown_rows :: "nat \<Rightarrow> amqp_bytes \<Rightarrow> bool \<Rightarrow> amqp_bytes list \<Rightarrow> amqp_bytes" where
  "shown_rows off prev dots [] = dump_row off []"
| "shown_rows off prev dots [r] = dump_row (off + length r) r @ fmt_X 8 (off + length r) @ ascii '':'' @ [0x0A]"
| "shown_rows off prev dots (r # rs) =
    (if r = prev then (if dots then [] else dots_line) else dump_row (off + 16) r) @ shown_rows (off + 16) r (r = prev) rs"

lemma chunks_short: "0 < length xs \<Longrightarrow> length xs \<le> n \<Longrightarrow> chunks n xs = [xs]"
  by (cases n) (simp_all add: chunks.simps [of _ xs])

lemma chunks_full: "length xs = n \<Longrightarrow> 0 < n \<Longrightarrow> chunks n (xs @ ys) = xs # chunks n ys"
  by (subst chunks.simps) auto

lemma dump_from:
  assumes "length (du_chs d) \<le> 16" "du_count d = off + length (du_chs d)"
  shows "end_dump (fold dump_byte bs d)
    = du_printed d @ shown_rows off (du_oldchs d) (du_showed_dots d) (chunks 16 (du_chs d @ bs))"
  using assms
proof (induction bs arbitrary: d off)
  case Nil
  then show ?case
    by (cases "du_chs d = []") (simp_all add: end_dump_def chunks_short)
next
  case (Cons ch bs)
  show ?case
  proof (cases "length (du_chs d) = 16")
    case False
    let ?d = "d\<lparr>du_count := du_count d + 1, du_chs := du_chs d @ [ch]\<rparr>"
    have "dump_byte ch d = ?d" using False by (simp add: dump_byte_def)
    with Cons.IH [of ?d off] Cons.prems False show ?thesis by simp
  next
    case True
    let ?e = "end_row d"
    let ?d = "?e\<lparr>du_count := du_count d + 1, du_chs := [ch]\<rparr>"
    have e: "du_count ?e = du_count d" "du_chs ?e = []" "du_oldchs ?e = du_chs d"
      "du_showed_dots ?e = (du_chs d = du_oldchs d)"
      "du_printed ?e = du_printed d @ (if du_chs d = du_oldchs d then (if du_showed_dots d then [] else dots_line)
         else dump_row (off + 16) (du_chs d))"
      using True Cons.prems(2) by (auto simp: end_row_def Let_def)
    have "dump_byte ch d = ?d" using True e(1,2) by (simp add: dump_byte_def)
    moreover have "end_dump (fold dump_byte bs ?d) = du_printed ?e @ shown_rows (off + 16) (du_chs d) (du_chs d = du_oldchs d) (chunks 16 (ch # bs))"
      using Cons.IH [of ?d "off + 16"] Cons.prems(2) True e by simp
    moreover obtain r rs where "chunks 16 (ch # bs) = r # rs"
      by (simp add: chunks.simps [of 16 "ch # bs"])
    ultimately show ?thesis using e(5) chunks_full [OF True, of "ch # bs"] by simp
  qed
qed

text \<open>
  The dump shows the rows: the text \<^verbatim>\<open>amqp_dump\<close> prints is that of the rows of sixteen bytes with their offsets, without
  those that repeat the row before them, in any buffer; a row of zeros at the beginning counts as a repetition.
\<close>

theorem dump_shows_rows: "amqp_dump buffer = shown_rows 0 (replicate 16 0) False (chunks 16 buffer)"
  using dump_from [of "\<lparr>du_count = 0, du_chs = [], du_oldchs = replicate 16 0, du_showed_dots = False, du_printed = []\<rparr>" 0 buffer]
  by (simp add: amqp_dump_def)

text \<open>Sixteen zeros at the beginning are not shown, only the dots.\<close>

lemma dump_hides_zeros:
  assumes "z = replicate 16 0" "bs \<noteq> []"
  shows "amqp_dump (z @ bs) = dots_line @ shown_rows 16 z True (chunks 16 bs)"
proof -
  obtain r rs where "chunks 16 bs = r # rs" using assms(2) by (simp add: chunks.simps [of 16 bs])
  moreover have "length z = 16" using assms(1) by simp
  ultimately show ?thesis using chunks_full [of z 16 bs] by (simp add: dump_shows_rows flip: assms(1))
qed

end
