(* ===== verification/Ngx_Queue.thy ===== *)
theory Ngx_Queue
  imports Main "HOL-Library.Multiset"
begin

text \<open>
  The doubly linked queue of nginx (\<^verbatim>\<open>ngx_queue.h\<close>, \<^verbatim>\<open>ngx_queue.c\<close>), which the repository carries in
  \<^verbatim>\<open>src/nginx\<close> and \<^verbatim>\<open>src/work\<close>. The links are embedded in the elements; a queue is a node of its own, the
  sentinel, in a ring with its elements.

  The memory holds the two links of every node; a macro is the sequence of its assignments, each of which reads
  the memory the one before it left. Debugging, which clears the links of a removed node, is off.

  The predicate \<open>ring m h xs\<close> says that the queue \<open>h\<close> holds the elements \<open>xs\<close> in the memory \<open>m\<close>. The lemmas
  give the list operation that each macro performs.
\<close>

section \<open>ngx\_queue.h\<close>

record ngx_links =
  prev_of :: "nat \<Rightarrow> nat"
  next_of :: "nat \<Rightarrow> nat"

definition set_prev :: "nat \<Rightarrow> nat \<Rightarrow> ngx_links \<Rightarrow> ngx_links" where
  "set_prev q v m = m\<lparr>prev_of := (prev_of m)(q := v)\<rparr>"

definition set_next :: "nat \<Rightarrow> nat \<Rightarrow> ngx_links \<Rightarrow> ngx_links" where
  "set_next q v m = m\<lparr>next_of := (next_of m)(q := v)\<rparr>"

definition ngx_queue_init :: "nat \<Rightarrow> ngx_links \<Rightarrow> ngx_links" where
  "ngx_queue_init q m = set_next q q (set_prev q q m)"

definition ngx_queue_empty :: "nat \<Rightarrow> ngx_links \<Rightarrow> bool" where
  "ngx_queue_empty h m \<longleftrightarrow> h = prev_of m h"

definition ngx_queue_insert_head :: "nat \<Rightarrow> nat \<Rightarrow> ngx_links \<Rightarrow> ngx_links" where
  "ngx_queue_insert_head h x m =
    (let m1 = set_next x (next_of m h) m;
         m2 = set_prev (next_of m1 x) x m1;
         m3 = set_prev x h m2
     in set_next h x m3)"

abbreviation ngx_queue_insert_after :: "nat \<Rightarrow> nat \<Rightarrow> ngx_links \<Rightarrow> ngx_links" where
  "ngx_queue_insert_after \<equiv> ngx_queue_insert_head"

definition ngx_queue_insert_tail :: "nat \<Rightarrow> nat \<Rightarrow> ngx_links \<Rightarrow> ngx_links" where
  "ngx_queue_insert_tail h x m =
    (let m1 = set_prev x (prev_of m h) m;
         m2 = set_next (prev_of m1 x) x m1;
         m3 = set_next x h m2
     in set_prev h x m3)"

definition ngx_queue_head :: "nat \<Rightarrow> ngx_links \<Rightarrow> nat" where
  "ngx_queue_head h m = next_of m h"

definition ngx_queue_last :: "nat \<Rightarrow> ngx_links \<Rightarrow> nat" where
  "ngx_queue_last h m = prev_of m h"

definition ngx_queue_remove :: "nat \<Rightarrow> ngx_links \<Rightarrow> ngx_links" where
  "ngx_queue_remove x m =
    (let m1 = set_prev (next_of m x) (prev_of m x) m
     in set_next (prev_of m1 x) (next_of m1 x) m1)"

text \<open>The elements from \<open>q\<close> on move to the queue \<open>n\<close>.\<close>

definition ngx_queue_split :: "nat \<Rightarrow> nat \<Rightarrow> nat \<Rightarrow> ngx_links \<Rightarrow> ngx_links" where
  "ngx_queue_split h q n m =
    (let m1 = set_prev n (prev_of m h) m;
         m2 = set_next (prev_of m1 n) n m1;
         m3 = set_next n q m2;
         m4 = set_prev h (prev_of m3 q) m3;
         m5 = set_next (prev_of m4 h) h m4
     in set_prev q n m5)"

text \<open>The elements of \<open>n\<close> are added to \<open>h\<close>.\<close>

definition ngx_queue_add :: "nat \<Rightarrow> nat \<Rightarrow> ngx_links \<Rightarrow> ngx_links" where
  "ngx_queue_add h n m =
    (let m1 = set_next (prev_of m h) (next_of m n) m;
         m2 = set_prev (next_of m1 n) (prev_of m1 h) m1;
         m3 = set_prev h (prev_of m2 n) m2
     in set_next (prev_of m3 h) h m3)"

section \<open>ngx\_queue.c\<close>

text \<open>The loops go on as long as the links lead; on memory that is no queue they need not end.\<close>

partial_function (option) middle_loop :: "nat \<Rightarrow> ngx_links \<Rightarrow> nat \<Rightarrow> nat \<Rightarrow> nat option" where
  "middle_loop queue m mid nxt =
    (let mid' = next_of m mid; nxt' = next_of m nxt
     in if nxt' = ngx_queue_last queue m then Some mid'
        else
          (let nxt'' = next_of m nxt'
           in if nxt'' = ngx_queue_last queue m then Some mid' else middle_loop queue m mid' nxt''))"

definition ngx_queue_middle :: "nat \<Rightarrow> ngx_links \<Rightarrow> nat option" where
  "ngx_queue_middle queue m =
    (if ngx_queue_head queue m = ngx_queue_last queue m then Some (ngx_queue_head queue m)
     else middle_loop queue m (ngx_queue_head queue m) (ngx_queue_head queue m))"

text \<open>The \<^verbatim>\<open>do\<close> loop goes back over the elements that are greater than \<open>q\<close>.\<close>

partial_function (option) sort_back :: "nat \<Rightarrow> (nat \<Rightarrow> nat \<Rightarrow> int) \<Rightarrow> nat \<Rightarrow> ngx_links \<Rightarrow> nat \<Rightarrow> nat option" where
  "sort_back queue cmp q m prv =
    (if cmp prv q \<le> 0 then Some prv
     else
       (let prv' = prev_of m prv
        in if prv' = queue then Some prv' else sort_back queue cmp q m prv'))"

partial_function (option) sort_loop :: "nat \<Rightarrow> (nat \<Rightarrow> nat \<Rightarrow> int) \<Rightarrow> nat \<Rightarrow> ngx_links \<Rightarrow> ngx_links option" where
  "sort_loop queue cmp q m =
    (if q = queue then Some m
     else
       (let prv = prev_of m q; nxt = next_of m q; m1 = ngx_queue_remove q m
        in case sort_back queue cmp q m1 prv of
             None \<Rightarrow> None
           | Some prv' \<Rightarrow> sort_loop queue cmp nxt (ngx_queue_insert_after prv' q m1)))"

definition ngx_queue_sort :: "nat \<Rightarrow> (nat \<Rightarrow> nat \<Rightarrow> int) \<Rightarrow> ngx_links \<Rightarrow> ngx_links option" where
  "ngx_queue_sort queue cmp m =
    (if ngx_queue_head queue m = ngx_queue_last queue m then Some m
     else sort_loop queue cmp (next_of m (ngx_queue_head queue m)) m)"

section \<open>Rings\<close>

fun linked :: "ngx_links \<Rightarrow> nat list \<Rightarrow> bool" where
  "linked m (a # b # xs) \<longleftrightarrow> next_of m a = b \<and> prev_of m b = a \<and> linked m (b # xs)"
| "linked m _ \<longleftrightarrow> True"

definition ring :: "ngx_links \<Rightarrow> nat \<Rightarrow> nat list \<Rightarrow> bool" where
  "ring m h xs \<longleftrightarrow> distinct (h # xs) \<and> linked m (h # xs @ [h])"

lemma linked_append: "linked m (xs @ x # ys) \<longleftrightarrow> linked m (xs @ [x]) \<and> linked m (x # ys)"
  by (induction m xs rule: linked.induct) auto

lemma linked_cong:
  "(\<And>a. a \<in> set (butlast xs) \<Longrightarrow> next_of m' a = next_of m a) \<Longrightarrow> (\<And>a. a \<in> set (tl xs) \<Longrightarrow> prev_of m' a = prev_of m a)
   \<Longrightarrow> linked m' xs = linked m xs"
  by (induction m xs rule: linked.induct) auto

lemma in_tl: "b \<in> set (tl zs) \<Longrightarrow> b \<in> set zs"
  by (cases zs) auto

lemma linked_prev: "linked m zs \<Longrightarrow> b \<in> set (tl zs) \<Longrightarrow> prev_of m b \<in> set (butlast zs)"
  by (induction m zs rule: linked.induct) auto

text \<open>A chain is kept when the links between its nodes are.\<close>

lemma linked_keep:
  assumes "linked m zs" "\<And>a. a \<in> set (butlast zs) \<Longrightarrow> next_of m' a = next_of m a"
    and "\<And>b. b \<in> set (tl zs) \<Longrightarrow> prev_of m b \<in> set (butlast zs) \<Longrightarrow> prev_of m' b = prev_of m b"
  shows "linked m' zs"
  using assms(1) linked_cong [of zs m' m] assms(2,3) linked_prev [OF assms(1)] by blast

lemmas links_simps = set_prev_def set_next_def Let_def

text \<open>A ring cut between \<open>as\<close> and \<open>bs\<close>: the two nodes at the cut, and the chains on both sides.\<close>

lemma linked_cut:
  assumes "us @ [l] = h # as" "r # vs = bs @ [h]"
  shows "linked m (h # as @ bs @ [h]) \<longleftrightarrow> linked m (us @ [l]) \<and> next_of m l = r \<and> prev_of m r = l \<and> linked m (r # vs)"
proof -
  have "h # as @ bs @ [h] = us @ l # r # vs" using assms by (metis append.assoc append_Cons append_Nil)
  with linked_append [of m us l "r # vs"] show ?thesis by simp
qed

lemma cut_exists:
  obtains us l r vs where "us @ [l] = h # as" "r # vs = bs @ [h]" "l = last (h # as)" "r = hd (bs @ [h])"
proof
  show "butlast (h # as) @ [last (h # as)] = h # as" by (rule append_butlast_last_id) simp
  show "hd (bs @ [h]) # tl (bs @ [h]) = bs @ [h]" by (rule hd_Cons_tl) simp
qed (rule refl)+

lemma ring_cut:
  assumes "ring m h (as @ bs)" "us @ [l] = h # as" "r # vs = bs @ [h]"
  shows "linked m (us @ [l])" "linked m (r # vs)" "next_of m l = r" "prev_of m r = l"
    "l \<notin> set us" "l \<notin> set bs" "set (butlast (r # vs)) = set bs" "set (us @ [l]) = insert h (set as)"
    "set (r # vs) = insert h (set bs)" "distinct (h # as @ bs)"
proof -
  have d: "distinct (h # as @ bs)" "linked m (h # as @ bs @ [h])" using assms(1) by (simp_all add: ring_def)
  then show "linked m (us @ [l])" "linked m (r # vs)" "next_of m l = r" "prev_of m r = l" "distinct (h # as @ bs)"
    using linked_cut [OF assms(2,3), of m] by simp_all
  show e: "set (us @ [l]) = insert h (set as)" "set (r # vs) = insert h (set bs)" "set (butlast (r # vs)) = set bs"
    unfolding assms(2,3) by simp_all
  have "distinct (us @ [l])" unfolding assms(2) using d(1) by simp
  then show "l \<notin> set us" by simp
  have "l \<in> insert h (set as)" using e(1) by auto
  with d(1) show "l \<notin> set bs" by auto
qed

lemma ring_last: "ring m h xs \<Longrightarrow> prev_of m h = last (h # xs)"
  using ring_cut(4) [of m h xs "[]" "butlast (h # xs)" "last (h # xs)" h "[]"] by simp

lemma ring_head: "ring m h xs \<Longrightarrow> next_of m h = hd (xs @ [h])"
  using ring_cut(3) [of m h "[]" xs "[]" h "hd (xs @ [h])" "tl (xs @ [h])"] by simp

lemma ring_empty: "ring m h xs \<Longrightarrow> ngx_queue_empty h m \<longleftrightarrow> xs = []"
  using ring_last [of m h xs] by (auto simp: ngx_queue_empty_def ring_def dest: last_in_set split: if_splits)

lemma ring_init: "ring (ngx_queue_init h m) h []"
  by (simp add: ring_def ngx_queue_init_def links_simps)

text \<open>Insertion behind any node of the ring, the sentinel or an element.\<close>

lemma ring_insert_after:
  assumes "ring m h (as @ bs)" "x \<notin> set (h # as @ bs)"
  shows "ring (ngx_queue_insert_after (last (h # as)) x m) h (as @ x # bs)"
proof -
  obtain us l r vs where c: "us @ [l] = h # as" "r # vs = bs @ [h]" "l = last (h # as)" by (rule cut_exists)
  note r = ring_cut [OF assms(1) c(1,2)]
  let ?m = "ngx_queue_insert_after l x m"
  have x: "x \<notin> set (us @ [l])" "x \<notin> set (r # vs)" "x \<notin> set bs" using assms(2) r(8,9) by auto
  have m: "next_of ?m = (next_of m)(x := r, l := x)" "prev_of ?m = (prev_of m)(r := x, x := l)"
    using x r(3) by (auto simp: ngx_queue_insert_head_def links_simps)
  have "linked ?m (us @ [l])"
    by (rule linked_keep [OF r(1)]) (use x r(4,5) in \<open>auto simp: m dest: in_tl\<close>)
  moreover have "linked ?m (r # vs)"
    by (rule linked_keep [OF r(2)]) (use x r(4,6,7) in \<open>auto simp: m\<close>)
  ultimately have "linked ?m (us @ l # x # r # vs)"
    using x linked_append [of ?m us l "x # r # vs"] by (simp add: m)
  moreover have "us @ l # x # r # vs = h # as @ x # bs @ [h]"
  proof -
    have "us @ l # x # r # vs = (us @ [l]) @ x # (r # vs)" by simp
    then show ?thesis unfolding c(1,2) by simp
  qed
  ultimately have "linked ?m (h # as @ x # bs @ [h])" by (simp only:)
  then have "ring ?m h (as @ x # bs)" using assms by (auto simp: ring_def simp del: linked.simps)
  then show ?thesis by (simp only: c(3))
qed

lemma ring_insert_head: "ring m h xs \<Longrightarrow> x \<notin> set (h # xs) \<Longrightarrow> ring (ngx_queue_insert_head h x m) h (x # xs)"
  using ring_insert_after [of m h "[]" xs x] by simp

lemma ring_insert_tail:
  assumes "ring m h xs" "x \<notin> set (h # xs)"
  shows "ring (ngx_queue_insert_tail h x m) h (xs @ [x])"
proof -
  have l: "next_of m (last (h # xs)) = h" "prev_of m h = last (h # xs)"
    using ring_cut(3,4) [of m h xs "[]" "butlast (h # xs)" "last (h # xs)" h "[]"] assms(1) by simp_all
  have "last (h # xs) \<noteq> x" using assms(2) by (metis last_in_set list.distinct(1))
  then have "ngx_queue_insert_tail h x m = ngx_queue_insert_after (last (h # xs)) x m"
    using l assms(2)
    by (intro ngx_links.equality) (auto simp: ngx_queue_insert_tail_def ngx_queue_insert_head_def links_simps fun_eq_iff)
  with ring_insert_after [of m h xs "[]" x] assms show ?thesis by simp
qed

lemma ring_insert_all:
  "ring m h xs \<Longrightarrow> distinct (h # xs @ ys) \<Longrightarrow> ring (fold (ngx_queue_insert_tail h) ys m) h (xs @ ys)"
proof (induction ys arbitrary: m xs)
  case (Cons y ys)
  from ring_insert_tail [OF Cons.prems(1), of y] Cons.prems(2) have "ring (ngx_queue_insert_tail h y m) h (xs @ [y])" by auto
  with Cons.IH [of _ "xs @ [y]"] Cons.prems(2) show ?case by simp
qed simp

lemma ring_remove:
  assumes "ring m h (as @ x # bs)"
  shows "ring (ngx_queue_remove x m) h (as @ bs)"
proof -
  obtain us l where c: "us @ [l] = h # as" "l = last (h # as)" by (rule cut_exists [of h as "[]"]) 
  obtain r vs where d: "r # vs = bs @ [h]" using cut_exists [of h as bs] by metis
  then have e: "x # r # vs = (x # bs) @ [h]" by simp
  note k = ring_cut [OF assms c(1) e]
  have x: "next_of m x = r" "prev_of m r = x" "linked m (r # vs)" "prev_of m x = l"
    using k(2,4) by simp_all
  have "r \<in> insert h (set bs)" using arg_cong [OF d, of set] by auto
  then have "x \<noteq> r" using k(10) by auto
  moreover have "set (butlast (r # vs)) = set bs" unfolding d by simp
  moreover have "x \<notin> set (us @ [l])" unfolding k(8) using k(10) by auto
  ultimately have n: "x \<notin> set us" "x \<notin> set bs" "x \<noteq> r" "x \<noteq> l" "l \<notin> set us" "l \<notin> set bs" "set (butlast (r # vs)) = set bs"
    using k(5,6,10) by auto
  let ?m = "ngx_queue_remove x m"
  have m: "next_of ?m = (next_of m)(l := r)" "prev_of ?m = (prev_of m)(r := l)"
    using x n by (auto simp: ngx_queue_remove_def links_simps)
  have "linked ?m (us @ [l])"
    by (rule linked_keep [OF k(1)]) (use n(1,5) x(2) in \<open>auto simp: m\<close>)
  moreover have "linked ?m (r # vs)"
    by (rule linked_keep [OF x(3)]) (use n(2,6,7) x(2) in \<open>auto simp: m\<close>)
  ultimately have "linked ?m (h # as @ bs @ [h])" using linked_cut [OF c(1) d, of ?m] by (simp add: m)
  with k(10) show ?thesis by (auto simp: ring_def)
qed

section \<open>Splitting and adding\<close>

lemma linked_parts: "linked m (xs @ ys) \<Longrightarrow> linked m xs \<and> linked m ys"
  by (induction m xs rule: linked.induct) (auto elim: linked.elims(2))

lemma ring_prev: "ring m h (as @ x # bs) \<Longrightarrow> prev_of m x = last (h # as)"
  using ring_cut(4) [of m h as "x # bs" "butlast (h # as)" "last (h # as)" x "bs @ [h]"] by simp

lemma ring_next: "ring m h (as @ x # bs) \<Longrightarrow> next_of m x = hd (bs @ [h])"
  using ring_cut(3) [of m h "as @ [x]" bs "h # as" x "hd (bs @ [h])" "tl (bs @ [h])"] by simp

text \<open>A chain that is closed at its sentinel is a ring.\<close>

lemma close_ring:
  assumes "linked m (h # xs)" "distinct (h # xs)" "next_of m (last (h # xs)) = h" "prev_of m h = last (h # xs)"
  shows "ring m h xs"
proof -
  have "h # xs = butlast (h # xs) @ [last (h # xs)]" by (rule append_butlast_last_id [symmetric]) simp
  then have "linked m (butlast (h # xs) @ [last (h # xs)])" using assms(1) by simp
  then have "linked m (butlast (h # xs) @ last (h # xs) # [h])"
    using linked_append [of m "butlast (h # xs)" "last (h # xs)" "[h]"] assms(3,4) by simp
  moreover have "butlast (h # xs) @ last (h # xs) # [h] = h # xs @ [h]"
    using append_butlast_last_id [of "h # xs"] by (metis append.assoc append_Cons append_Nil list.distinct(1))
  ultimately have "linked m (h # xs @ [h])" by (simp only:)
  with assms(2) show ?thesis by (simp only: ring_def)
qed

lemma chain_of_ring: "ring m h xs \<Longrightarrow> linked m (h # xs)"
  using linked_parts [of m "h # xs" "[h]"] by (simp add: ring_def)

lemma in_butlast: "distinct zs \<Longrightarrow> a \<in> set (butlast zs) \<Longrightarrow> a \<in> set zs \<and> a \<noteq> last zs"
  by (induction zs rule: rev_induct) auto

lemma ring_split:
  assumes "ring m h (as @ q # bs)" "n \<notin> set (h # as @ q # bs)"
  shows "ring (ngx_queue_split h q n m) h as" "ring (ngx_queue_split h q n m) n (q # bs)"
proof -
  define l where "l = last (h # as)"
  define z where "z = last (q # bs)"
  let ?m = "ngx_queue_split h q n m"
  have d: "distinct (h # as @ q # bs)" using assms(1) by (simp add: ring_def)
  have l: "l \<in> set (h # as)" "l \<notin> set (q # bs)" and z: "z \<in> set (q # bs)" "z \<notin> set (h # as)"
    using d last_in_set [of "h # as"] last_in_set [of "q # bs"] unfolding l_def z_def by auto
  have p: "prev_of m h = z" "prev_of m q = l"
    using ring_last [OF assms(1)] ring_prev [OF assms(1)] by (simp_all add: l_def z_def)
  have "l \<noteq> z" "l \<noteq> n" "z \<noteq> n" "q \<noteq> h" "q \<noteq> n" "h \<noteq> n" using l z assms(2) d by auto
  then have m: "next_of ?m = (next_of m)(z := n, n := q, l := h)" "prev_of ?m = (prev_of m)(n := z, h := l, q := n)"
    by (auto simp: ngx_queue_split_def links_simps p)
  have c: "linked m (h # as)" "linked m (q # bs)"
    using linked_parts [of m "h # as" "q # bs"] chain_of_ring [OF assms(1)] by simp_all
  have "linked ?m (h # as)"
    by (rule linked_keep [OF c(1)])
      (use in_butlast [of "h # as"] d z(2) assms(2) l_def in \<open>auto simp: m simp del: butlast.simps last.simps\<close>)
  then show "ring ?m h as"
    by (rule close_ring) (use d \<open>l \<noteq> z\<close> \<open>l \<noteq> n\<close> \<open>q \<noteq> h\<close> \<open>h \<noteq> n\<close> in \<open>simp_all add: m l_def [symmetric] del: last.simps\<close>)
  have "linked ?m (q # bs)"
    by (rule linked_keep [OF c(2)])
      (use in_butlast [of "q # bs"] d l(2) assms(2) z_def in \<open>auto simp: m simp del: butlast.simps last.simps\<close>)
  then have "linked ?m (n # q # bs)" using \<open>l \<noteq> n\<close> by (simp add: m)
  moreover have "last (n # q # bs) = z" by (simp add: z_def)
  ultimately show "ring ?m n (q # bs)"
    by (intro close_ring) (use d assms(2) \<open>l \<noteq> z\<close> \<open>z \<noteq> n\<close> \<open>q \<noteq> n\<close> \<open>h \<noteq> n\<close> in \<open>simp_all add: m del: last.simps linked.simps\<close>)
qed

text \<open>Two chains that are joined.\<close>

lemma linked_join:
  assumes "linked m xs" "linked m ys" "xs \<noteq> []" "ys \<noteq> []" "next_of m (last xs) = hd ys" "prev_of m (hd ys) = last xs"
  shows "linked m (xs @ ys)"
proof -
  obtain us l where xs: "xs = us @ [l]" using assms(3) by (metis rev_exhaust)
  obtain r vs where ys: "ys = r # vs" using assms(4) by (cases ys) auto
  have "linked m (us @ l # r # vs)"
    using linked_append [of m us l "r # vs"] assms by (simp add: xs ys)
  then show ?thesis by (simp add: xs ys)
qed

lemma ring_add:
  assumes "ring m h xs" "ring m n ys" "distinct (h # xs @ n # ys)"
  shows "ring (ngx_queue_add h n m) h (xs @ ys)"
proof -
  define l where "l = last (h # xs)"
  define r where "r = hd (ys @ [n])"
  define z where "z = last (n # ys)"
  let ?m = "ngx_queue_add h n m"
  have p: "prev_of m h = l" "next_of m n = r" "prev_of m n = z"
    using ring_last [OF assms(1)] ring_head [OF assms(2)] ring_last [OF assms(2)] by (simp_all add: l_def r_def z_def)
  have l: "l \<in> set (h # xs)" unfolding l_def by (rule last_in_set) simp
  have r: "r \<in> set (ys @ [n])" unfolding r_def by (rule hd_in_set) simp
  have z: "z \<in> set (n # ys)" unfolding z_def by (rule last_in_set) simp
  have ne: "l \<noteq> n" "r \<noteq> h" "h \<noteq> n" "z \<noteq> h" "z \<noteq> l" using l r z assms(3) by auto
  show ?thesis
  proof (cases "ys = []")
    case True
    have m: "next_of ?m = (next_of m)(l := h)" "prev_of ?m = (prev_of m)(n := l, h := l)"
      using ne True by (simp_all add: ngx_queue_add_def links_simps p r_def fun_eq_iff)
    have "linked ?m (h # xs)"
      by (rule linked_keep [OF chain_of_ring [OF assms(1)]])
        (use in_butlast [of "h # xs"] assms(3) l_def in \<open>auto simp: m simp del: butlast.simps last.simps\<close>)
    then show ?thesis
      by (simp only: True append_Nil2)
        (rule close_ring; use assms(3) ne in \<open>simp_all add: m l_def [symmetric] del: last.simps linked.simps\<close>)
  next
    case False
    then have r': "r \<in> set ys" "r = hd ys" and z': "z \<in> set ys" "z = last ys" by (simp_all add: r_def z_def)
    have ne': "r \<noteq> n" "z \<noteq> n" using r'(1) z'(1) assms(3) by auto
    then have m: "next_of ?m = (next_of m)(l := r, z := h)" "prev_of ?m = (prev_of m)(r := l, h := z)"
      using ne by (auto simp: ngx_queue_add_def links_simps p)
    have "linked ?m (h # xs)"
      by (rule linked_keep [OF chain_of_ring [OF assms(1)]])
        (use in_butlast [of "h # xs"] assms(3) l_def r'(1) z'(1) in \<open>auto simp: m simp del: butlast.simps last.simps\<close>)
    moreover have "linked ?m ys"
    proof (rule linked_keep)
      show "linked m ys" using linked_parts [of m "[n]" ys] chain_of_ring [OF assms(2)] by simp
      have "distinct ys" using assms(3) by simp
      then show "next_of ?m a = next_of m a" if "a \<in> set (butlast ys)" for a
        using in_butlast [of ys a] that z'(2) l assms(3) by (auto simp: m)
      show "prev_of ?m b = prev_of m b" if b: "b \<in> set (tl ys)" for b
      proof -
        have "b \<in> set ys" using b by (rule in_tl)
        moreover have "b \<noteq> r" using b r'(2) \<open>distinct ys\<close> False by (cases ys) auto
        moreover have "b \<noteq> h" using \<open>b \<in> set ys\<close> assms(3) by auto
        ultimately show ?thesis by (simp add: m)
      qed
    qed
    ultimately have "linked ?m ((h # xs) @ ys)"
      by (rule linked_join) (use False ne r'(2) in \<open>simp_all add: m l_def [symmetric] del: last.simps linked.simps\<close>)
    moreover have "last (h # xs @ ys) = z" using False by (simp add: z'(2))
    ultimately show ?thesis
      by (intro close_ring) (use assms(3) ne in \<open>simp_all add: m del: last.simps linked.simps\<close>)
  qed
qed

section \<open>The middle\<close>

lemma ring_nth_next:
  assumes "ring m h xs" "Suc i < length xs"
  shows "next_of m (xs ! i) = xs ! Suc i"
proof -
  have "ring m h (take i xs @ xs ! i # drop (Suc i) xs)"
    using assms by (simp add: id_take_nth_drop [symmetric])
  from ring_next [OF this] assms(2) show ?thesis by (simp add: hd_append hd_drop_conv_nth)
qed

lemma middle_loop_finds:
  assumes "ring m h xs" "Suc (2 * i) < length xs"
  shows "middle_loop h m (xs ! i) (xs ! (2 * i)) = Some (xs ! (length xs div 2))"
  using assms(2)
proof (induction "length xs - 2 * i" arbitrary: i rule: less_induct)
  case less
  define k where "k = length xs - 1"
  have last: "ngx_queue_last h m = xs ! k"
    using ring_last [OF assms(1)] less.prems by (auto simp: ngx_queue_last_def k_def last_conv_nth)
  have eq: "xs ! j = xs ! k \<longleftrightarrow> j = k" if "j < length xs" for j
    using that assms(1) less.prems by (auto simp: ring_def k_def nth_eq_iff_index_eq)
  have n: "next_of m (xs ! i) = xs ! Suc i" "next_of m (xs ! (2 * i)) = xs ! Suc (2 * i)"
    using ring_nth_next [OF assms(1)] less.prems by simp_all
  note step = middle_loop.simps [of h m "xs ! i" "xs ! (2 * i)"] last n Let_def
  consider (even) "Suc (2 * i) = k" | (odd) "Suc (Suc (2 * i)) = k" | (on) "Suc (Suc (Suc (2 * i))) < length xs"
    using less.prems by (auto simp: k_def) linarith
  then show ?case
  proof cases
    case even
    then have "length xs div 2 = Suc i" using less.prems by (auto simp: k_def)
    with even show ?thesis by (simp add: step)
  next
    case odd
    then have "length xs div 2 = Suc i" "Suc (Suc (2 * i)) < length xs" using less.prems by (auto simp: k_def)
    with odd show ?thesis using ring_nth_next [OF assms(1), of "Suc (2 * i)"] by (simp add: step eq)
  next
    case on
    then have "middle_loop h m (xs ! Suc i) (xs ! (2 * Suc i)) = Some (xs ! (length xs div 2))"
      by (intro less.hyps) simp_all
    moreover have "Suc (2 * i) \<noteq> k" "Suc (Suc (2 * i)) \<noteq> k" using on by (auto simp: k_def)
    ultimately show ?thesis using on ring_nth_next [OF assms(1), of "Suc (2 * i)"] by (simp add: step eq)
  qed
qed

text \<open>The middle element, or the first one of the second half.\<close>

theorem ngx_queue_middle_finds:
  assumes "ring m h xs" "xs \<noteq> []"
  shows "ngx_queue_middle h m = Some (xs ! (length xs div 2))"
proof -
  have h: "ngx_queue_head h m = xs ! 0" "ngx_queue_last h m = last xs"
    using ring_head [OF assms(1)] ring_last [OF assms(1)] assms(2)
    by (simp_all add: ngx_queue_head_def ngx_queue_last_def hd_conv_nth hd_append)
  have e: "xs ! 0 = last xs \<longleftrightarrow> length xs = 1"
    using assms by (auto simp: last_conv_nth ring_def nth_eq_iff_index_eq le_Suc_eq)
  show ?thesis
  proof (cases "length xs = 1")
    case False
    then have "Suc (2 * 0) < length xs" using assms(2) by (cases xs) auto
    from middle_loop_finds [OF assms(1) this] False e h show ?thesis by (simp add: ngx_queue_middle_def)
  qed (use e h in \<open>simp add: ngx_queue_middle_def\<close>)
qed

section \<open>Sorting\<close>

text \<open>The comparison that \<^verbatim>\<open>ngx_queue_sort\<close> is called with is that of a key of the elements.\<close>

definition compares :: "(nat \<Rightarrow> nat \<Rightarrow> int) \<Rightarrow> (nat \<Rightarrow> 'k :: linorder) \<Rightarrow> bool" where
  "compares cmp key \<longleftrightarrow> (\<forall>a b. cmp a b \<le> 0 \<longleftrightarrow> key a \<le> key b)"

lemma sort_back_finds:
  assumes "ring m h (as @ bs @ cs)" "as @ bs \<noteq> []"
    and "\<forall>b \<in> set bs. 0 < cmp b q" "as \<noteq> [] \<longrightarrow> cmp (last as) q \<le> 0"
  shows "sort_back h cmp q m (last (as @ bs)) = Some (last (h # as))"
  using assms
proof (induction bs arbitrary: cs rule: rev_induct)
  case Nil
  then show ?case by (simp add: sort_back.simps [of h cmp q m "last as"])
next
  case (snoc b bs)
  have prev: "prev_of m b = last (h # as @ bs)"
    using ring_prev [of m h "as @ bs" b cs] snoc.prems(1) by simp
  show ?case
  proof (cases "as @ bs = []")
    case True
    with prev snoc.prems(3) show ?thesis by (simp add: sort_back.simps [of h cmp q m b])
  next
    case False
    then have "last (as @ bs) \<in> set (as @ bs)" by (rule last_in_set)
    then have "last (as @ bs) \<noteq> h" using snoc.prems(1) by (auto simp: ring_def)
    moreover have "sort_back h cmp q m (last (as @ bs)) = Some (last (h # as))"
      using snoc.IH [of "b # cs"] snoc.prems False by simp
    moreover have "prev_of m b = last (as @ bs)" using prev False by (auto simp del: last_append)
    ultimately have "sort_back h cmp q m b = Some (last (h # as))"
      using snoc.prems(3) by (simp add: sort_back.simps [of h cmp q m b] Let_def del: last_append last.simps)
    then show ?thesis by simp
  qed
qed

lemma dropped_greater:
  assumes "sorted (map key zs)" "b \<in> set (dropWhile (\<lambda>a. key a \<le> key q) zs)"
  shows "key q < key b"
proof -
  let ?P = "\<lambda>a. key a \<le> key q"
  obtain c cs where c: "dropWhile ?P zs = c # cs" using assms(2) by (cases "dropWhile ?P zs") auto
  then have "key q < key c" using hd_dropWhile [of ?P zs] by (auto simp: not_le)
  moreover have "sorted (map key (takeWhile ?P zs @ c # cs))" using assms(1) by (simp only: c [symmetric] takeWhile_dropWhile_id)
  then have "key c \<le> key b" using assms(2) c by (auto simp: sorted_append)
  ultimately show ?thesis by simp
qed

text \<open>A step of the sort: \<open>q\<close> moves behind the last element that is not greater.\<close>

lemma sort_step:
  assumes "compares cmp key" "ring m h (zs @ q # rest)" "sorted (map key zs)" "zs \<noteq> []"
    and "as = takeWhile (\<lambda>a. key a \<le> key q) zs" "bs = dropWhile (\<lambda>a. key a \<le> key q) zs"
  shows "\<exists>m'. sort_loop h cmp q m = sort_loop h cmp (hd (rest @ [h])) m' \<and> ring m' h (as @ q # bs @ rest)"
proof -
  let ?m = "ngx_queue_remove q m"
  have zs: "zs = as @ bs" by (simp add: assms(5,6))
  have r: "ring ?m h (as @ bs @ rest)" using ring_remove [OF assms(2)] by (simp add: zs)
  have "\<forall>b \<in> set bs. key q < key b" using dropped_greater [OF assms(3)] assms(6) by simp
  then have "\<forall>b \<in> set bs. 0 < cmp b q" using assms(1) by (auto simp: compares_def not_le [symmetric])
  moreover have "cmp (last as) q \<le> 0" if "as \<noteq> []"
    using last_in_set [OF that] assms(1) by (auto simp: assms(5) compares_def dest: set_takeWhileD)
  ultimately have "sort_back h cmp q ?m (last zs) = Some (last (h # as))"
    using sort_back_finds [OF r] assms(4) by (simp add: zs)
  moreover have "prev_of m q = last zs" "next_of m q = hd (rest @ [h])"
    using ring_prev [OF assms(2)] ring_next [OF assms(2)] assms(4) by simp_all
  moreover have "q \<noteq> h" "q \<notin> set (h # as @ bs @ rest)" using assms(2) by (auto simp: ring_def zs)
  ultimately show ?thesis
    using ring_insert_after [OF r, of q] by (intro exI [of _ "ngx_queue_insert_after (last (h # as)) q ?m"])
      (simp add: sort_loop.simps [of h cmp q m] Let_def)
qed

lemma sort_loop_sorts:
  assumes "compares cmp key" "ring m h (zs @ rest)" "sorted (map key zs)" "zs \<noteq> []"
    and "mset (zs @ rest) = mset xs" "\<forall>k. filter (\<lambda>x. k = key x) (zs @ rest) = filter (\<lambda>x. k = key x) xs"
  shows "\<exists>m'. sort_loop h cmp (hd (rest @ [h])) m = Some m' \<and> ring m' h (sort_key key xs)"
  using assms(2-)
proof (induction rest arbitrary: m zs)
  case Nil
  have "sort_key key xs = zs"
    by (rule properties_for_sort_key) (use Nil.prems in simp_all)
  with Nil.prems(1) show ?case by (simp add: sort_loop.simps [of h cmp h m])
next
  case (Cons q rest)
  let ?P = "\<lambda>a. key a \<le> key q"
  define as bs where d: "as = takeWhile ?P zs" "bs = dropWhile ?P zs"
  have zs: "zs = as @ bs" by (simp add: d)
  obtain m1 where m1: "sort_loop h cmp q m = sort_loop h cmp (hd (rest @ [h])) m1" "ring m1 h (as @ q # bs @ rest)"
    using sort_step [OF assms(1) Cons.prems(1-3) d] by blast
  have greater: "key q < key b" if "b \<in> set bs" for b
    using dropped_greater [OF Cons.prems(2)] that by (simp add: d(2))
  have "key a \<le> key q" if "a \<in> set as" for a using that by (auto simp: d(1) dest: set_takeWhileD)
  moreover have "sorted (map key as)" "sorted (map key bs)" "\<forall>a \<in> set as. \<forall>b \<in> set bs. key a \<le> key b"
    using Cons.prems(2) by (simp_all add: zs sorted_append)
  ultimately have "sorted (map key (as @ q # bs))" using greater by (simp add: sorted_append less_imp_le)
  moreover have "filter (\<lambda>x. k = key x) (as @ q # bs @ rest) = filter (\<lambda>x. k = key x) xs" for k
  proof -
    have "filter (\<lambda>x. k = key x) bs = []" if "k = key q"
      using greater that by (force simp: filter_empty_conv)
    then have "filter (\<lambda>x. k = key x) (as @ q # bs @ rest) = filter (\<lambda>x. k = key x) (zs @ q # rest)"
      by (auto simp: zs)
    with Cons.prems(5) show ?thesis by simp
  qed
  moreover have "mset (as @ q # bs @ rest) = mset xs" using Cons.prems(4) by (simp add: zs)
  ultimately have "\<exists>m'. sort_loop h cmp (hd (rest @ [h])) m1 = Some m' \<and> ring m' h (sort_key key xs)"
    using Cons.IH [of m1 "as @ q # bs"] m1(2) by simp
  with m1(1) show ?case by simp
qed

text \<open>
  C19. The queue is sorted by a stable insertion sort: on a queue that holds \<open>xs\<close>, \<^verbatim>\<open>ngx_queue_sort\<close> ends, and leaves a
  queue that holds \<open>xs\<close> sorted by the key that is compared, elements with the same key in their order.
\<close>

theorem ngx_queue_sort_sorts:
  assumes "ring m h xs" "compares cmp key"
  shows "\<exists>m'. ngx_queue_sort h cmp m = Some m' \<and> ring m' h (sort_key key xs)"
proof (cases xs)
  case Nil
  with ring_head [OF assms(1)] ring_last [OF assms(1)] assms(1) show ?thesis
    by (simp add: ngx_queue_sort_def ngx_queue_head_def ngx_queue_last_def)
next
  case (Cons x rest)
  have h: "ngx_queue_head h m = x" "next_of m x = hd (rest @ [h])"
    using ring_head [OF assms(1)] ring_next [of m h "[]" x rest] assms(1) by (simp_all add: ngx_queue_head_def Cons)
  have loop: "\<exists>m'. sort_loop h cmp (hd (rest @ [h])) m = Some m' \<and> ring m' h (sort_key key xs)"
    by (rule sort_loop_sorts [OF assms(2), of m h "[x]"]) (use assms(1) in \<open>auto simp: Cons\<close>)
  have "rest = []" if "ngx_queue_last h m = x"
  proof (rule ccontr)
    assume "rest \<noteq> []"
    then have "ngx_queue_last h m \<in> set rest" using ring_last [OF assms(1)] by (simp add: ngx_queue_last_def Cons)
    with that assms(1) show False by (simp add: ring_def Cons)
  qed
  then show ?thesis using loop h assms(1) by (auto simp: ngx_queue_sort_def Cons)
qed

theorem ngx_queue_sort_sorts_witness:
  "\<exists>m'. ngx_queue_sort 0 (\<lambda>a b. int (a mod 2) - int (b mod 2))
        (fold (ngx_queue_insert_tail 0) [3, 2, 1, 4] (ngx_queue_init 0 \<lparr>prev_of = \<lambda>_. 0, next_of = \<lambda>_. 0\<rparr>)) = Some m'
    \<and> ring m' 0 [2, 4, 3, 1]"
proof -
  let ?m = "fold (ngx_queue_insert_tail 0) [3, 2, 1, 4] (ngx_queue_init 0 \<lparr>prev_of = \<lambda>_. 0, next_of = \<lambda>_. 0\<rparr>)"
  have "ring ?m 0 ([] @ [3, 2, 1, 4])" by (rule ring_insert_all [OF ring_init]) simp_all
  moreover have "compares (\<lambda>a b. int (a mod 2) - int (b mod 2)) (\<lambda>n. n mod 2)" by (simp add: compares_def)
  ultimately show ?thesis using ngx_queue_sort_sorts [of ?m 0 "[3, 2, 1, 4]"] by fastforce
qed

end
