(* ===== verification/Ngx_Pool.thy ===== *)
theory Ngx_Pool
  imports Amqp_Pool "HOL-Library.Multiset"
begin

text \<open>
  The memory pools of nginx (\<^verbatim>\<open>ngx_palloc.c\<close>, \<^verbatim>\<open>ngx_alloc.c\<close>), which the repository carries in \<^verbatim>\<open>src/nginx\<close>, on the heap
  of \<open>Amqp_Mem\<close>: a pool is a chain of blocks of one size from which small requests are cut off, and a list of
  large requests, each a block of its own. The entries of that list and the cleanup handlers lie in the pool.

  A pointer into a block is the block and an offset; \<^verbatim>\<open>posix_memalign\<close> aligns the blocks, so that an offset is
  aligned exactly if the address is. A pointer that has been handed out may lie outside of its block: what the code
  does not check is not checked here. The contents of the memory are not modelled.
\<close>

unbundle bit_operations_syntax

section \<open>ngx\_palloc.h\<close>

definition sizeof_ngx_pool_t :: nat where "sizeof_ngx_pool_t = 80"

definition sizeof_ngx_pool_data_t :: nat where "sizeof_ngx_pool_data_t = 32"

definition sizeof_ngx_pool_large_t :: nat where "sizeof_ngx_pool_large_t = 16"

definition sizeof_ngx_pool_cleanup_t :: nat where "sizeof_ngx_pool_cleanup_t = 24"

definition NGX_ALIGNMENT :: nat where "NGX_ALIGNMENT = 8"

lemmas ngx_sizes = sizeof_ngx_pool_t_def sizeof_ngx_pool_data_t_def sizeof_ngx_pool_large_t_def
  sizeof_ngx_pool_cleanup_t_def NGX_ALIGNMENT_def

text \<open>A block of the chain: \<open>nb_last\<close> and \<open>nb_end\<close> are offsets in it.\<close>

record ngx_block =
  nb_base :: nat
  nb_last :: nat
  nb_end :: nat
  nb_failed :: nat

text \<open>An entry of the list of large allocations, with its own place, and a cleanup handler with its argument.\<close>

record ngx_large =
  nl_at :: addr
  nl_alloc :: "nat option"

record ngx_cleanup =
  nc_at :: addr
  nc_handler :: "nat option"
  nc_data :: "addr option"

text \<open>The first block holds the pool; \<open>np_current\<close> is the number of a block.\<close>

record ngx_pool =
  np_blocks :: "ngx_block list"
  np_max :: nat
  np_current :: nat
  np_large :: "ngx_large list"
  np_cleanup :: "ngx_cleanup list"

definition ngx_align_ptr :: "nat \<Rightarrow> nat \<Rightarrow> nat" where
  "ngx_align_ptr p a = (p + (a - 1)) div a * a"

section \<open>ngx\_alloc.c\<close>

definition ngx_alloc :: "nat \<Rightarrow> heap \<Rightarrow> nat option \<times> heap" where
  "ngx_alloc amount h = malloc amount h"

text \<open>
  \<^verbatim>\<open>posix_memalign\<close> fails with \<^verbatim>\<open>EINVAL\<close>, and \<^verbatim>\<open>ngx_memalign\<close> returns \<^verbatim>\<open>NULL\<close>, if the alignment is no power of two that is a
  multiple of the size of a pointer.
\<close>

definition posix_alignment :: "nat \<Rightarrow> bool" where
  "posix_alignment a \<longleftrightarrow> a \<noteq> 0 \<and> a mod 8 = 0 \<and> a AND (a - 1) = 0"

definition ngx_memalign :: "nat \<Rightarrow> nat \<Rightarrow> heap \<Rightarrow> nat option \<times> heap" where
  "ngx_memalign alignment amount h = (if posix_alignment alignment then malloc amount h else (None, h))"

lemma ngx_memalign_16 [simp]: "ngx_memalign 16 amount h = malloc amount h"
  by (simp add: ngx_memalign_def posix_alignment_def)

text \<open>The region that is set to zero is part of the result.\<close>

definition ngx_calloc :: "nat \<Rightarrow> heap \<Rightarrow> region list \<times> nat option \<times> heap" where
  "ngx_calloc amount h =
    (case ngx_alloc amount h of (r, h') \<Rightarrow> (case r of None \<Rightarrow> [] | Some p \<Rightarrow> [((p, 0), amount)], r, h'))"

section \<open>ngx\_palloc.c\<close>

text \<open>
  \<^verbatim>\<open>ngx_pagesize\<close> is a global variable that nginx sets when it starts; nothing in the repository sets it. A size below that of
  the header makes the header run over the end of the block.
\<close>

definition ngx_create_pool :: "nat \<Rightarrow> nat \<Rightarrow> heap \<Rightarrow> ngx_pool option outcome \<times> heap" where
  "ngx_create_pool ngx_pagesize amount h =
    (case ngx_memalign 16 amount h of
       (None, h') \<Rightarrow> (Inr None, h')
     | (Some p, h') \<Rightarrow>
         if amount < sizeof_ngx_pool_t then (Inl Memory_fault, h')
         else
           (let rest = sz_sub amount sizeof_ngx_pool_t
            in (Inr (Some
                 \<lparr>np_blocks = [\<lparr>nb_base = p, nb_last = sizeof_ngx_pool_t, nb_end = amount, nb_failed = 0\<rparr>],
                  np_max = (if rest < sz_sub ngx_pagesize 1 then rest else sz_sub ngx_pagesize 1),
                  np_current = 0, np_large = [], np_cleanup = []\<rparr>), h')))"

text \<open>The handlers are called, the newest first, with their arguments; then everything is freed.\<close>

definition ngx_destroy_pool :: "ngx_pool \<Rightarrow> heap \<Rightarrow> (nat \<times> addr option) list \<times> heap" where
  "ngx_destroy_pool pool h =
    (List.map_filter (\<lambda>c. map_option (\<lambda>f. (f, nc_data c)) (nc_handler c)) (np_cleanup pool),
     fold (\<lambda>b. free (nb_base b)) (np_blocks pool) (fold (\<lambda>l. free_opt (nl_alloc l)) (np_large pool) h))"

definition ngx_reset_pool :: "ngx_pool \<Rightarrow> heap \<Rightarrow> ngx_pool \<times> heap" where
  "ngx_reset_pool pool h =
    (pool\<lparr>np_blocks := map (\<lambda>b. b\<lparr>nb_last := sizeof_ngx_pool_t, nb_failed := 0\<rparr>) (np_blocks pool),
          np_current := 0, np_large := []\<rparr>,
     fold (\<lambda>l. free_opt (nl_alloc l)) (np_large pool) h)"

text \<open>The \<^verbatim>\<open>do\<close> loop of \<^verbatim>\<open>ngx_palloc\<close> and, without alignment, of \<^verbatim>\<open>ngx_pnalloc\<close>.\<close>

fun palloc_loop :: "bool \<Rightarrow> nat \<Rightarrow> ngx_block list \<Rightarrow> (addr \<times> ngx_block list) option" where
  "palloc_loop align amount [] = None"
| "palloc_loop align amount (p # ps) =
    (let m = (if align then ngx_align_ptr (nb_last p) NGX_ALIGNMENT else nb_last p)
     in if sz_sub (nb_end p) m \<ge> amount then Some ((nb_base p, m), p\<lparr>nb_last := m + amount\<rparr> # ps)
        else map_option (\<lambda>(a, ps'). (a, p # ps')) (palloc_loop align amount ps))"

text \<open>The loop to the end of the chain, from block \<open>i\<close> on; \<open>current\<close> moves behind a block that failed too often.\<close>

fun failed_loop :: "nat \<Rightarrow> ngx_block list \<Rightarrow> nat \<Rightarrow> ngx_block list \<times> nat" where
  "failed_loop i (p # q # ps) current =
    (case failed_loop (Suc i) (q # ps) (if nb_failed p > 4 then Suc i else current) of
       (ps', current') \<Rightarrow> (p\<lparr>nb_failed := nb_failed p + 1\<rparr> # ps', current'))"
| "failed_loop i ps current = (ps, current)"

definition ngx_palloc_block :: "ngx_pool \<Rightarrow> nat \<Rightarrow> heap \<Rightarrow> addr option \<times> ngx_pool \<times> heap" where
  "ngx_palloc_block pool amount h =
    (let psize = nb_end (hd (np_blocks pool))
     in case ngx_memalign 16 psize h of
          (None, h') \<Rightarrow> (None, pool, h')
        | (Some b, h') \<Rightarrow>
            (let m = ngx_align_ptr sizeof_ngx_pool_data_t NGX_ALIGNMENT;
                 (ps, current) = failed_loop (np_current pool) (drop (np_current pool) (np_blocks pool)) (np_current pool)
             in (Some (b, m),
                 pool\<lparr>np_blocks := take (np_current pool) (np_blocks pool) @ ps
                        @ [\<lparr>nb_base = b, nb_last = m + amount, nb_end = psize, nb_failed = 0\<rparr>],
                      np_current := current\<rparr>, h')))"

text \<open>A request that is not above \<open>np_max\<close>.\<close>

definition palloc_small :: "bool \<Rightarrow> ngx_pool \<Rightarrow> nat \<Rightarrow> heap \<Rightarrow> addr option \<times> ngx_pool \<times> heap" where
  "palloc_small align pool amount h =
    (case palloc_loop align amount (drop (np_current pool) (np_blocks pool)) of
       Some (a, ps) \<Rightarrow> (Some a, pool\<lparr>np_blocks := take (np_current pool) (np_blocks pool) @ ps\<rparr>, h)
     | None \<Rightarrow> ngx_palloc_block pool amount h)"

text \<open>The loop of \<^verbatim>\<open>ngx_palloc_large\<close> looks for an entry without a block, among the first five.\<close>

fun large_loop :: "nat \<Rightarrow> nat \<Rightarrow> ngx_large list \<Rightarrow> ngx_large list option" where
  "large_loop p n [] = None"
| "large_loop p n (l # ls) =
    (if nl_alloc l = None then Some (l\<lparr>nl_alloc := Some p\<rparr> # ls)
     else if n > 3 then None
     else map_option ((#) l) (large_loop p (n + 1) ls))"

text \<open>
  \<^verbatim>\<open>ngx_palloc\<close> with \<^verbatim>\<open>ngx_palloc_large\<close>, which calls it for the entry of the list; without an end if such an entry
  is itself too large for the pool.
\<close>

partial_function (option) ngx_palloc :: "ngx_pool \<Rightarrow> nat \<Rightarrow> heap \<Rightarrow> (addr option \<times> ngx_pool \<times> heap) option" where
  "ngx_palloc pool amount h =
    (if amount \<le> np_max pool then Some (palloc_small True pool amount h)
     else
       (case ngx_alloc amount h of
          (None, h1) \<Rightarrow> Some (None, pool, h1)
        | (Some p, h1) \<Rightarrow>
            (case large_loop p 0 (np_large pool) of
               Some ls \<Rightarrow> Some (Some (p, 0), pool\<lparr>np_large := ls\<rparr>, h1)
             | None \<Rightarrow>
                 Option.bind (ngx_palloc pool sizeof_ngx_pool_large_t h1) (\<lambda>(large, pool', h2).
                   case large of
                     None \<Rightarrow> Some (None, pool', free p h2)
                   | Some a \<Rightarrow>
                       Some (Some (p, 0), pool'\<lparr>np_large := \<lparr>nl_at = a, nl_alloc = Some p\<rparr> # np_large pool'\<rparr>, h2)))))"

text \<open>The end of \<^verbatim>\<open>ngx_palloc_large\<close> and of \<^verbatim>\<open>ngx_pmemalign\<close>: the block is put on the list.\<close>

definition push_large :: "nat \<Rightarrow> ngx_pool \<Rightarrow> heap \<Rightarrow> (addr option \<times> ngx_pool \<times> heap) option" where
  "push_large p pool h =
    Option.bind (ngx_palloc pool sizeof_ngx_pool_large_t h) (\<lambda>(large, pool', h').
      case large of
        None \<Rightarrow> Some (None, pool', free p h')
      | Some a \<Rightarrow> Some (Some (p, 0), pool'\<lparr>np_large := \<lparr>nl_at = a, nl_alloc = Some p\<rparr> # np_large pool'\<rparr>, h'))"

definition ngx_palloc_large :: "ngx_pool \<Rightarrow> nat \<Rightarrow> heap \<Rightarrow> (addr option \<times> ngx_pool \<times> heap) option" where
  "ngx_palloc_large pool amount h =
    (case ngx_alloc amount h of
       (None, h1) \<Rightarrow> Some (None, pool, h1)
     | (Some p, h1) \<Rightarrow>
         (case large_loop p 0 (np_large pool) of
            Some ls \<Rightarrow> Some (Some (p, 0), pool\<lparr>np_large := ls\<rparr>, h1)
          | None \<Rightarrow> push_large p pool h1))"

lemma ngx_palloc_cases:
  "ngx_palloc pool amount h =
    (if amount \<le> np_max pool then Some (palloc_small True pool amount h) else ngx_palloc_large pool amount h)"
  unfolding ngx_palloc_large_def push_large_def by (rule ngx_palloc.simps)

definition ngx_pnalloc :: "ngx_pool \<Rightarrow> nat \<Rightarrow> heap \<Rightarrow> (addr option \<times> ngx_pool \<times> heap) option" where
  "ngx_pnalloc pool amount h =
    (if amount \<le> np_max pool then Some (palloc_small False pool amount h) else ngx_palloc_large pool amount h)"

definition ngx_pmemalign :: "ngx_pool \<Rightarrow> nat \<Rightarrow> nat \<Rightarrow> heap \<Rightarrow> (addr option \<times> ngx_pool \<times> heap) option" where
  "ngx_pmemalign pool amount alignment h =
    (case ngx_memalign alignment amount h of
       (None, h1) \<Rightarrow> Some (None, pool, h1)
     | (Some p, h1) \<Rightarrow> push_large p pool h1)"

definition ngx_pcalloc :: "ngx_pool \<Rightarrow> nat \<Rightarrow> heap \<Rightarrow> (region list \<times> addr option \<times> ngx_pool \<times> heap) option" where
  "ngx_pcalloc pool amount h =
    map_option (\<lambda>(r, x). (case r of None \<Rightarrow> [] | Some p \<Rightarrow> [(p, amount)], r, x)) (ngx_palloc pool amount h)"

text \<open>Whether the result is \<^verbatim>\<open>NGX_OK\<close>; freeing \<^verbatim>\<open>NULL\<close> finds an entry that has been freed before.\<close>

fun pfree_loop :: "nat option \<Rightarrow> ngx_large list \<Rightarrow> ngx_large list option" where
  "pfree_loop p [] = None"
| "pfree_loop p (l # ls) =
    (if p = nl_alloc l then Some (l\<lparr>nl_alloc := None\<rparr> # ls) else map_option ((#) l) (pfree_loop p ls))"

definition ngx_pfree :: "ngx_pool \<Rightarrow> nat option \<Rightarrow> heap \<Rightarrow> bool \<times> ngx_pool \<times> heap" where
  "ngx_pfree pool p h =
    (case pfree_loop p (np_large pool) of
       Some ls \<Rightarrow> (True, pool\<lparr>np_large := ls\<rparr>, free_opt p h)
     | None \<Rightarrow> (False, pool, h))"

definition ngx_pool_cleanup_add ::
    "ngx_pool \<Rightarrow> nat \<Rightarrow> heap \<Rightarrow> (ngx_cleanup option \<times> ngx_pool \<times> heap) option" where
  "ngx_pool_cleanup_add p amount h =
    Option.bind (ngx_palloc p sizeof_ngx_pool_cleanup_t h) (\<lambda>(r, p1, h1).
      case r of
        None \<Rightarrow> Some (None, p1, h1)
      | Some c \<Rightarrow>
          Option.bind (if amount \<noteq> 0 then ngx_palloc p1 amount h1 else Some (None, p1, h1)) (\<lambda>(dat, p2, h2).
            if amount \<noteq> 0 \<and> dat = None then Some (None, p2, h2)
            else
              (let entry = \<lparr>nc_at = c, nc_handler = None, nc_data = dat\<rparr>
               in Some (Some entry, p2\<lparr>np_cleanup := entry # np_cleanup p2\<rparr>, h2))))"

section \<open>The invariant\<close>

text \<open>What matters of a block: its number, how far it is used, and its end.\<close>

definition shape :: "ngx_block list \<Rightarrow> (nat \<times> nat \<times> nat) list" where
  "shape bs = map (\<lambda>b. (nb_base b, nb_last b, nb_end b)) bs"

definition large_blocks_of :: "ngx_large list \<Rightarrow> nat list" where
  "large_blocks_of ls = List.map_filter nl_alloc ls"

definition owned_blocks :: "ngx_pool \<Rightarrow> nat list" where
  "owned_blocks p = map fst (shape (np_blocks p)) @ large_blocks_of (np_large p)"

definition block_size :: "ngx_pool \<Rightarrow> nat" where
  "block_size p = snd (snd (hd (shape (np_blocks p))))"

definition header_size :: "ngx_pool \<Rightarrow> nat \<Rightarrow> nat" where
  "header_size p b = (if b = fst (hd (shape (np_blocks p))) then sizeof_ngx_pool_t else sizeof_ngx_pool_data_t)"

text \<open>The live blocks are those of the pool and \<open>others\<close>.\<close>

definition ngx_inv :: "nat set \<Rightarrow> ngx_pool \<Rightarrow> heap \<Rightarrow> bool" where
  "ngx_inv others p h \<longleftrightarrow>
     heap_wf h \<and> distinct (owned_blocks p) \<and> others \<inter> set (owned_blocks p) = {}
     \<and> set (h_live h) = others \<union> set (owned_blocks p)
     \<and> np_current p < length (np_blocks p)
     \<and> 80 \<le> block_size p \<and> block_size p < 2 ^ 63 \<and> 8 dvd block_size p
     \<and> 16 \<le> np_max p \<and> np_max p + 80 \<le> block_size p
     \<and> (\<forall>(b, l, e) \<in> set (shape (np_blocks p)). e = block_size p \<and> header_size p b \<le> l \<and> l \<le> e \<and> h_size h b = e)
     \<and> (\<forall>l \<in> set (np_large p). fst (nl_at l) \<in> fst ` set (shape (np_blocks p)))"

text \<open>A region lies in the used part of a block behind its header, or in a block of its own.\<close>

fun held :: "ngx_pool \<Rightarrow> heap \<Rightarrow> region \<Rightarrow> bool" where
  "held p h ((b, i), n) \<longleftrightarrow>
     (\<exists>l e. (b, l, e) \<in> set (shape (np_blocks p)) \<and> header_size p b \<le> i \<and> i + n \<le> l)
     \<or> b \<in> set (large_blocks_of (np_large p)) \<and> i + n \<le> h_size h b"

definition all_apart :: "region list \<Rightarrow> bool" where
  "all_apart R \<longleftrightarrow> sorted_wrt apart R"

definition entry_regions :: "ngx_pool \<Rightarrow> region list" where
  "entry_regions p = map (\<lambda>l. (nl_at l, sizeof_ngx_pool_large_t)) (np_large p)"

text \<open>The regions \<open>R\<close> in use and the entries of the list of large blocks.\<close>

definition ngx_good :: "nat set \<Rightarrow> region list \<Rightarrow> ngx_pool \<Rightarrow> heap \<Rightarrow> bool" where
  "ngx_good others R p h \<longleftrightarrow>
     ngx_inv others p h \<and> all_apart (R @ entry_regions p) \<and> (\<forall>r \<in> set (R @ entry_regions p). held p h r)"

lemma apart_sym: "apart r s \<Longrightarrow> apart s r"
  by (cases "(r, s)" rule: apart.cases) auto

lemma all_apart_simps [simp]:
  "all_apart []" "all_apart (r # R) \<longleftrightarrow> (\<forall>s \<in> set R. apart r s) \<and> all_apart R"
  by (simp_all add: all_apart_def)

lemma all_apart_append:
  "all_apart (R @ S) \<longleftrightarrow> all_apart R \<and> all_apart S \<and> (\<forall>r \<in> set R. \<forall>s \<in> set S. apart r s)"
  by (simp add: all_apart_def sorted_wrt_append)

text \<open>Only the shape of the blocks matters.\<close>

lemma ngx_good_shape:
  assumes "shape (np_blocks p') = shape (np_blocks p)" "np_max p' = np_max p" "np_large p' = np_large p"
    and "np_current p' < length (np_blocks p')" "ngx_good others R p h"
  shows "ngx_good others R p' h"
proof -
  have "block_size p' = block_size p" "header_size p' = header_size p" "owned_blocks p' = owned_blocks p"
    "entry_regions p' = entry_regions p"
    using assms(1,3) by (simp_all add: block_size_def header_size_def owned_blocks_def entry_regions_def fun_eq_iff)
  moreover from this have "held p' h r = held p h r" for r
    using assms(1,3) by (cases r rule: region_cases) simp
  ultimately show ?thesis using assms by (simp add: ngx_good_def ngx_inv_def)
qed

lemma ngx_goodD:
  assumes "ngx_good others R p h"
  shows "heap_wf h" "distinct (owned_blocks p)" "set (h_live h) = others \<union> set (owned_blocks p)"
    "others \<inter> set (owned_blocks p) = {}"
    "\<And>b l e. (b, l, e) \<in> set (shape (np_blocks p)) \<Longrightarrow> e = block_size p \<and> header_size p b \<le> l \<and> l \<le> e \<and> h_size h b = e"
    "8 dvd block_size p" "block_size p < 2 ^ 63" "np_current p < length (np_blocks p)" "16 \<le> np_max p"
    "np_max p + 80 \<le> block_size p" "\<And>l. l \<in> set (np_large p) \<Longrightarrow> fst (nl_at l) \<in> fst ` set (shape (np_blocks p))"
  using assms by (auto simp: ngx_good_def ngx_inv_def)

section \<open>Small requests\<close>

lemma align_props:
  "p \<le> ngx_align_ptr p 8" "8 dvd ngx_align_ptr p 8" "p \<le> e \<Longrightarrow> 8 dvd e \<Longrightarrow> ngx_align_ptr p 8 \<le> e"
proof -
  show "p \<le> ngx_align_ptr p 8" "8 dvd ngx_align_ptr p 8" unfolding ngx_align_ptr_def by presburger+
  assume "p \<le> e" "8 dvd e"
  then show "ngx_align_ptr p 8 \<le> e" unfolding ngx_align_ptr_def by presburger
qed

lemma palloc_loop_found:
  assumes "palloc_loop align n bs = Some (a, bs')" "\<forall>b \<in> set bs. nb_last b \<le> nb_end b \<and> nb_end b < 2 ^ 63 \<and> 8 dvd nb_end b"
  shows "\<exists>pre b post m. bs = pre @ b # post \<and> bs' = pre @ b\<lparr>nb_last := m + n\<rparr> # post \<and> a = (nb_base b, m)
    \<and> nb_last b \<le> m \<and> m + n \<le> nb_end b \<and> (align \<longrightarrow> 8 dvd m)"
  using assms
proof (induction bs arbitrary: bs')
  case (Cons b bs)
  define m where "m = (if align then ngx_align_ptr (nb_last b) NGX_ALIGNMENT else nb_last b)"
  have m: "nb_last b \<le> m" "m \<le> nb_end b" "align \<longrightarrow> 8 dvd m"
    using align_props [of "nb_last b"] Cons.prems(2) by (auto simp: m_def NGX_ALIGNMENT_def)
  have step: "palloc_loop align n (b # bs) = (if n \<le> nb_end b - m then Some ((nb_base b, m), b\<lparr>nb_last := m + n\<rparr> # bs)
      else map_option (\<lambda>(a, bs'). (a, b # bs')) (palloc_loop align n bs))"
    using m(2) Cons.prems(2) by (simp add: m_def [symmetric] Let_def)
  show ?case
  proof (cases "n \<le> nb_end b - m")
    case True
    with step Cons.prems(1) m show ?thesis
      by (intro exI [of _ "[]"] exI [of _ b] exI [of _ bs] exI [of _ m]) auto
  next
    case False
    then obtain cs where cs: "palloc_loop align n bs = Some (a, cs)" "bs' = b # cs" using step Cons.prems(1) by auto
    obtain pre c post k where "bs = pre @ c # post \<and> cs = pre @ c\<lparr>nb_last := k + n\<rparr> # post \<and> a = (nb_base c, k)
        \<and> nb_last c \<le> k \<and> k + n \<le> nb_end c \<and> (align \<longrightarrow> 8 dvd k)"
      using Cons.IH [OF cs(1)] Cons.prems(2) by auto
    then show ?thesis by (intro exI [of _ "b # pre"] exI [of _ c] exI [of _ post] exI [of _ k]) (simp add: cs(2))
  qed
qed simp

text \<open>A region is cut off behind the used part of a block.\<close>

lemma ngx_good_cut:
  assumes good: "ngx_good others R p h" and bs: "np_blocks p = pre @ b # post"
    and m: "nb_last b \<le> m" "m + n \<le> nb_end b"
  shows "ngx_good others (((nb_base b, m), n) # R) (p\<lparr>np_blocks := pre @ b\<lparr>nb_last := m + n\<rparr> # post\<rparr>) h"
proof -
  let ?p = "p\<lparr>np_blocks := pre @ b\<lparr>nb_last := m + n\<rparr> # post\<rparr>"
  note D = ngx_goodD [OF good]
  have sh: "shape (np_blocks p) = shape pre @ (nb_base b, nb_last b, nb_end b) # shape post"
    "shape (np_blocks ?p) = shape pre @ (nb_base b, m + n, nb_end b) # shape post"
    by (simp_all add: shape_def bs)
  have b: "(nb_base b, nb_last b, nb_end b) \<in> set (shape (np_blocks p))" by (simp add: sh)
  have "block_size ?p = block_size p" "header_size ?p c = header_size p c" "owned_blocks ?p = owned_blocks p" for c
    unfolding block_size_def header_size_def owned_blocks_def sh by (cases "shape pre"; simp)+
  then have eq: "block_size ?p = block_size p" "header_size ?p = header_size p" "owned_blocks ?p = owned_blocks p"
    "entry_regions ?p = entry_regions p" "np_large ?p = np_large p"
    by (simp_all add: entry_regions_def fun_eq_iff)
  have only: "l = nb_last b \<and> e = nb_end b" if "(nb_base b, l, e) \<in> set (shape (np_blocks p))" for l e
    using that D(2) unfolding owned_blocks_def sh by (force simp: shape_def)
  have keep: "held ?p h r" if r: "held p h r" for r
  proof (cases r rule: region_cases)
    case (1 c i k)
    then show ?thesis using r m eq unfolding 1 held.simps sh by (auto simp: trans_le_add1)
  qed
  have new: "held ?p h ((nb_base b, m), n)"
    using D(5) [OF b] m unfolding held.simps eq sh by (intro disjI1 exI [of _ "m + n"] exI [of _ "nb_end b"]) auto
  have off: "apart ((nb_base b, m), n) r" if r: "held p h r" for r
  proof (cases r rule: region_cases)
    case (1 c i k)
    have "nb_base b \<notin> set (large_blocks_of (np_large p))" using D(2) unfolding owned_blocks_def sh by auto
    with r 1 only [of _ _] m show ?thesis by (cases "c = nb_base b") auto
  qed
  have "\<forall>(c, l, e) \<in> set (shape (np_blocks ?p)). e = block_size p \<and> header_size p c \<le> l \<and> l \<le> e \<and> h_size h c = e"
    using D(5) [OF b] D(5) m unfolding sh by auto
  moreover have "fst ` set (shape (np_blocks ?p)) = fst ` set (shape (np_blocks p))" unfolding sh by auto
  ultimately have "ngx_inv others ?p h"
    using good unfolding ngx_good_def ngx_inv_def eq by (simp add: bs)
  with good keep new off show ?thesis by (auto simp: ngx_good_def eq all_apart_append)
qed

text \<open>A new block at the end of the chain, a part of which is taken.\<close>

lemma hd_shape: "bs \<noteq> [] \<Longrightarrow> hd (shape (bs @ cs)) = hd (shape bs)"
  by (cases bs) (simp_all add: shape_def)

lemma ngx_good_block:
  assumes good: "ngx_good others R p h" and m: "malloc (block_size p) h = (Some k, h')" and n: "32 + n \<le> block_size p"
    and bs: "shape bs = shape (np_blocks p)" and cur: "cur \<le> length bs"
  defines "p' \<equiv> p\<lparr>np_blocks := bs @ [\<lparr>nb_base = k, nb_last = 32 + n, nb_end = block_size p, nb_failed = 0\<rparr>], np_current := cur\<rparr>"
  shows "ngx_good others (((k, 32), n) # R) p' h'"
proof -
  note D = ngx_goodD [OF good]
  note w = malloc_wf [OF m D(1), simplified]
  have ne: "np_blocks p \<noteq> []" "bs \<noteq> []" using D(8) bs by (auto simp: shape_def)
  have sh: "shape (np_blocks p') = shape (np_blocks p) @ [(k, 32 + n, block_size p)]"
    by (simp add: p'_def shape_def bs [unfolded shape_def])
  have k: "k \<notin> set (owned_blocks p)" "k \<notin> others" using w D(3) by auto
  have "hd (shape (np_blocks p')) = hd (shape (np_blocks p))"
    unfolding sh using ne by (cases "np_blocks p") (simp_all add: shape_def)
  then have eq: "block_size p' = block_size p" "header_size p' = header_size p" "entry_regions p' = entry_regions p" "np_large p' = np_large p"
    by (simp_all add: block_size_def header_size_def fun_eq_iff entry_regions_def p'_def)
  have own: "set (owned_blocks p') = insert k (set (owned_blocks p))" "distinct (owned_blocks p')"
    using k D(2) unfolding owned_blocks_def sh eq by auto
  have "hd (shape (np_blocks p)) \<in> set (shape (np_blocks p))" using ne by (intro hd_in_set) (simp add: shape_def)
  then have "fst (hd (shape (np_blocks p))) \<noteq> k" using k by (auto simp: owned_blocks_def)
  then have hk: "header_size p k = 32" by (simp add: header_size_def sizeof_ngx_pool_data_t_def)
  have old: "h_size h' b = h_size h b" if "b \<in> set (h_live h)" for b
    using w that by auto
  have blk: "b \<in> set (h_live h)" if "(b, l, e) \<in> set (shape (np_blocks p))" for b l e
    using that D(3) by (force simp: owned_blocks_def)
  have lrg: "b \<in> set (h_live h)" if "b \<in> set (large_blocks_of (np_large p))" for b
    using that D(3) by (auto simp: owned_blocks_def)
  have keep: "held p' h' r" if r: "held p h r" for r
  proof (cases r rule: region_cases)
    case (1 c i j)
    then show ?thesis using r old blk lrg unfolding 1 held.simps sh eq by auto
  qed
  have off: "apart ((k, 32), n) r" if r: "held p h r" for r
  proof (cases r rule: region_cases)
    case (1 c i j)
    then have "c \<in> set (h_live h)" using r blk lrg by auto
    then show ?thesis using w 1 by auto
  qed
  have new: "held p' h' ((k, 32), n)" unfolding held.simps sh eq hk by auto
  have "\<forall>(c, l, e) \<in> set (shape (np_blocks p')). e = block_size p \<and> header_size p c \<le> l \<and> l \<le> e \<and> h_size h' c = e"
    using D(5) old blk w n hk unfolding sh by fastforce
  moreover have "np_current p' < length (np_blocks p')" "np_max p' = np_max p" using cur by (simp_all add: p'_def)
  moreover have "fst ` set (shape (np_blocks p')) = insert k (fst ` set (shape (np_blocks p)))" unfolding sh by auto
  ultimately have "ngx_inv others p' h'"
    using good w own k unfolding ngx_good_def ngx_inv_def eq by auto
  with good keep new off show ?thesis by (auto simp: ngx_good_def eq)
qed

lemma shape_length: "shape bs = shape cs \<Longrightarrow> length bs = length cs"
  unfolding shape_def by (rule map_eq_imp_length_eq)

lemma failed_loop_shape:
  "failed_loop i bs cur = (bs', cur') \<Longrightarrow> shape bs' = shape bs \<and> (cur' = cur \<or> cur' < i + length bs)"
  by (induction i bs cur arbitrary: bs' cur' rule: failed_loop.induct) (fastforce simp: shape_def split: prod.splits if_splits)+

text \<open>What a request does: the region that is handed out joins those in use.\<close>

definition hand_out :: "nat \<Rightarrow> region list \<Rightarrow> addr option \<times> ngx_pool \<times> heap \<Rightarrow> region list \<times> ngx_pool \<times> heap" where
  "hand_out n R x = (case x of (None, p, h) \<Rightarrow> (R, p, h) | (Some a, p, h) \<Rightarrow> ((a, n) # R, p, h))"

definition good_state :: "nat set \<Rightarrow> region list \<times> ngx_pool \<times> heap \<Rightarrow> bool" where
  "good_state others x = (case x of (R, p, h) \<Rightarrow> ngx_good others R p h)"

lemma hand_out_simps [simp]: "hand_out n R (None, p, h) = (R, p, h)" "hand_out n R (Some a, p, h) = ((a, n) # R, p, h)"
  by (simp_all add: hand_out_def)

lemma good_state_simp [simp]: "good_state others (R, p, h) = ngx_good others R p h"
  by (simp add: good_state_def)

lemma palloc_block_good:
  assumes good: "ngx_good others R p h" and n: "n \<le> np_max p"
  shows "good_state others (hand_out n R (ngx_palloc_block p n h))"
proof -
  note D = ngx_goodD [OF good]
  obtain b bs where bs: "np_blocks p = b # bs" using D(8) by (cases "np_blocks p") auto
  then have psize: "nb_end (hd (np_blocks p)) = block_size p" by (simp add: block_size_def shape_def)
  obtain r h' where m: "malloc (block_size p) h = (r, h')" by fastforce
  note w = malloc_wf [OF m D(1)]
  obtain ps cur where f: "failed_loop (np_current p) (drop (np_current p) (np_blocks p)) (np_current p) = (ps, cur)" by fastforce
  note s = failed_loop_shape [OF f]
  show ?thesis
  proof (cases r)
    case None
    have "ngx_good others R p h'"
    proof -
      have "held p h' x = held p h x" for x using w None by (cases x rule: region_cases) simp
      with good w None show ?thesis by (simp add: ngx_good_def ngx_inv_def)
    qed
    with None m show ?thesis by (simp add: ngx_palloc_block_def psize)
  next
    case (Some k)
    have "shape (take (np_current p) (np_blocks p) @ ps) = shape (np_blocks p)"
      using s by (simp add: shape_def) (metis append_take_drop_id map_append)
    moreover have "cur \<le> length (take (np_current p) (np_blocks p) @ ps)"
      using s shape_length [of ps] D(8) by auto
    ultimately have "ngx_good others (((k, 32), n) # R)
        (p\<lparr>np_blocks := (take (np_current p) (np_blocks p) @ ps) @ [\<lparr>nb_base = k, nb_last = 32 + n, nb_end = block_size p, nb_failed = 0\<rparr>],
           np_current := cur\<rparr>) h'"
      by (intro ngx_good_block [OF good]) (use m Some n D(10) in auto)
    then show ?thesis
      using Some m f by (simp add: ngx_palloc_block_def psize ngx_align_ptr_def ngx_sizes)
  qed
qed

lemma palloc_small_good:
  assumes good: "ngx_good others R p h" and n: "n \<le> np_max p"
  shows "good_state others (hand_out n R (palloc_small align p n h))"
proof (cases "palloc_loop align n (drop (np_current p) (np_blocks p))")
  case None
  with palloc_block_good [OF assms] show ?thesis by (simp add: palloc_small_def)
next
  case (Some x)
  obtain a bs' where x: "palloc_loop align n (drop (np_current p) (np_blocks p)) = Some (a, bs')" using Some by (cases x) simp
  note D = ngx_goodD [OF good]
  have "nb_last b \<le> nb_end b \<and> nb_end b < 2 ^ 63 \<and> 8 dvd nb_end b" if "b \<in> set (np_blocks p)" for b
    using D(5) [of "nb_base b" "nb_last b" "nb_end b"] D(6,7) that by (auto simp: shape_def)
  then obtain pre b post m where c: "drop (np_current p) (np_blocks p) = pre @ b # post"
      "bs' = pre @ b\<lparr>nb_last := m + n\<rparr> # post" "a = (nb_base b, m)" "nb_last b \<le> m" "m + n \<le> nb_end b"
    using palloc_loop_found [OF x] by (meson in_set_dropD)
  have "np_blocks p = (take (np_current p) (np_blocks p) @ pre) @ b # post" using c(1) by (metis append.assoc append_take_drop_id)
  from ngx_good_cut [OF good this c(4,5)] show ?thesis by (simp add: palloc_small_def x c(2,3))
qed

text \<open>The entry of a large block is cut off from the chain.\<close>

lemma palloc_loop_base: "palloc_loop align n bs = Some (a, bs') \<Longrightarrow> fst a \<in> fst ` set (shape bs')"
  by (induction align n bs arbitrary: bs' rule: palloc_loop.induct) (auto simp: shape_def Let_def split: if_splits)

lemma palloc_small_base: "palloc_small align p n h = (Some a, p', h') \<Longrightarrow> fst a \<in> fst ` set (shape (np_blocks p'))"
  by (auto simp: palloc_small_def ngx_palloc_block_def Let_def image_Un shape_def
      dest!: palloc_loop_base split: option.splits prod.splits)

lemma palloc_small_large: "palloc_small align p n h = (r, p', h') \<Longrightarrow> np_large p' = np_large p \<and> np_max p' = np_max p"
  by (auto simp: palloc_small_def ngx_palloc_block_def Let_def split: option.splits prod.splits)

section \<open>Large requests\<close>

text \<open>A block that is about to join the pool is counted with the others until it has.\<close>

lemma good_malloc:
  assumes good: "ngx_good others R p h" and m: "malloc n h = (Some k, h')"
  shows "ngx_good (insert k others) R p h'" "k \<notin> others" "h_size h' k = n"
proof -
  note D = ngx_goodD [OF good]
  note w = malloc_wf [OF m D(1), simplified]
  show k: "k \<notin> others" "h_size h' k = n" using w D(3) by auto
  have own: "b \<noteq> k" if "b \<in> set (owned_blocks p)" for b using that w D(3) by auto
  have "held p h' r" if r: "held p h r" for r
    using r own w by (cases r rule: region_cases) (auto simp: owned_blocks_def)
  moreover have "h_size h' b = h_size h b" if "(b, l, e) \<in> set (shape (np_blocks p))" for b l e
    using own [of b] that w by (force simp: owned_blocks_def)
  then have "\<forall>(b, l, e) \<in> set (shape (np_blocks p)). e = block_size p \<and> header_size p b \<le> l \<and> l \<le> e \<and> h_size h' b = e"
    using D(5) by fastforce
  ultimately show "ngx_good (insert k others) R p h'"
    using good w own unfolding ngx_good_def ngx_inv_def by auto
qed

lemma good_malloc_none: "ngx_good others R p h \<Longrightarrow> malloc n h = (None, h') \<Longrightarrow> ngx_good others R p h'"
proof -
  assume a: "ngx_good others R p h" "malloc n h = (None, h')"
  note w = malloc_wf [OF a(2) ngx_goodD(1) [OF a(1)], simplified]
  have "held p h' x = held p h x" for x using w by (cases x rule: region_cases) simp
  with a(1) w show ?thesis by (simp add: ngx_good_def ngx_inv_def)
qed

text \<open>A block of the others, or of the list, that is freed.\<close>

lemma good_free:
  assumes good: "ngx_good (insert k others) R p h" and k: "k \<notin> others"
  shows "ngx_good others R p (free k h)"
proof -
  note D = ngx_goodD [OF good]
  have "k \<in> set (h_live h)" using D(3) by auto
  note w = free_wf [OF D(1) this]
  have "held p (free k h) x = held p h x" for x using w by (cases x rule: region_cases) simp
  then show ?thesis using good w k D(3,4) unfolding ngx_good_def ngx_inv_def by auto
qed

text \<open>The block \<open>k\<close> joins the list.\<close>

lemma good_adopt:
  assumes good: "ngx_good (insert k others) R p h" and k: "k \<notin> others" "n \<le> h_size h k"
    and ls: "mset (large_blocks_of ls) = mset (k # large_blocks_of (np_large p))"
    and entries: "all_apart (R' @ map (\<lambda>l. (nl_at l, sizeof_ngx_pool_large_t)) ls)"
      "set (R' @ map (\<lambda>l. (nl_at l, sizeof_ngx_pool_large_t)) ls) = set (R @ entry_regions p)"
    and base: "\<forall>l \<in> set ls. fst (nl_at l) \<in> fst ` set (shape (np_blocks p))"
  shows "ngx_good others (((k, 0), n) # R') (p\<lparr>np_large := ls\<rparr>) h"
proof -
  let ?p = "p\<lparr>np_large := ls\<rparr>"
  note D = ngx_goodD [OF good]
  have k': "k \<notin> set (owned_blocks p)" using D(4) by auto
  have lb: "set (large_blocks_of ls) = insert k (set (large_blocks_of (np_large p)))"
    using arg_cong [OF ls, of set_mset] by simp
  have dist: "distinct (map fst (shape (np_blocks p)) @ large_blocks_of ls)"
    using D(2) k' mset_eq_imp_distinct_iff [OF ls] lb by (auto simp: owned_blocks_def)
  have eq: "block_size ?p = block_size p" "header_size ?p = header_size p" "set (owned_blocks ?p) = insert k (set (owned_blocks p))"
    "entry_regions ?p = map (\<lambda>l. (nl_at l, sizeof_ngx_pool_large_t)) ls" "distinct (owned_blocks ?p)"
    using dist by (auto simp: block_size_def header_size_def owned_blocks_def entry_regions_def fun_eq_iff lb)
  have keep: "held ?p h r" if "held p h r" for r
    using that lb eq by (cases r rule: region_cases) auto
  have off: "apart ((k, 0), n) r" if r: "held p h r" for r
    using r k' by (cases r rule: region_cases) (force simp: owned_blocks_def)
  have "held ?p h ((k, 0), n)" using lb k by simp
  moreover have "ngx_inv others ?p h"
    using good k base eq unfolding ngx_good_def ngx_inv_def by auto
  moreover have "held p h r" if "r \<in> set (R' @ entry_regions ?p)" for r
    using that good entries(2) unfolding eq by (auto simp: ngx_good_def)
  ultimately show ?thesis using entries(1) keep off unfolding ngx_good_def eq by auto
qed

lemma all_apart_move: "all_apart (x # R @ S) \<Longrightarrow> all_apart (R @ x # S)"
  using apart_sym by (auto simp: all_apart_append)

lemma same_places:
  assumes "map nl_at ls' = map nl_at ls"
  shows "map (\<lambda>l. (nl_at l, c)) ls' = map (\<lambda>l. (nl_at l, c)) ls" "nl_at ` set ls' = nl_at ` set ls"
proof -
  show "map (\<lambda>l. (nl_at l, c)) ls' = map (\<lambda>l. (nl_at l, c)) ls"
    using arg_cong [OF assms, of "map (\<lambda>a. (a, c))"] by (simp add: comp_def)
  show "nl_at ` set ls' = nl_at ` set ls" using arg_cong [OF assms, of set] by simp
qed

lemma large_loop_slot:
  "large_loop k i ls = Some ls' \<Longrightarrow> mset (large_blocks_of ls') = mset (k # large_blocks_of ls) \<and> map nl_at ls' = map nl_at ls"
  by (induction k i ls arbitrary: ls' rule: large_loop.induct)
    (auto simp: large_blocks_of_def map_filter_simps split: if_splits option.splits)

lemma push_large_good:
  assumes good: "ngx_good (insert k others) R p h" and k: "k \<notin> others" "n \<le> h_size h k"
  shows "\<exists>x. push_large k p h = Some x \<and> good_state others (hand_out n R x)"
proof -
  have max: "16 \<le> np_max p" using ngx_goodD(9) [OF good] .
  obtain r p' h' where s: "palloc_small True p 16 h = (r, p', h')" by (metis prod_cases3)
  have g: "good_state (insert k others) (hand_out 16 R (r, p', h'))"
    using palloc_small_good [OF good max, of True] by (simp add: s)
  have "ngx_palloc p sizeof_ngx_pool_large_t h = Some (r, p', h')"
    using max by (simp add: ngx_palloc_cases s sizeof_ngx_pool_large_t_def)
  note push = push_large_def [of k p h, unfolded this Option.bind.simps prod.case]
  show ?thesis
  proof (cases r)
    case None
    with g good_free [OF _ k(1)] push show ?thesis by simp
  next
    case (Some a)
    have a: "fst a \<in> fst ` set (shape (np_blocks p'))" using palloc_small_base s Some by blast
    have g': "ngx_good (insert k others) ((a, 16) # R) p' h'" using g Some by simp
    have size: "n \<le> h_size h' k"
    proof -
      have "k < h_count h" using ngx_goodD(1,3) [OF good] by (auto simp: heap_wf_def)
      then have "h_size h' k = h_size h k"
        using s by (auto simp: palloc_small_def ngx_palloc_block_def malloc_def Let_def
            split: option.splits prod.splits if_splits)
      with k show ?thesis by simp
    qed
    have "ngx_good others (((k, 0), n) # R) (p'\<lparr>np_large := \<lparr>nl_at = a, nl_alloc = Some k\<rparr> # np_large p'\<rparr>) h'"
    proof (rule good_adopt [OF g' k(1) size])
      show "all_apart (R @ map (\<lambda>l. (nl_at l, sizeof_ngx_pool_large_t)) (\<lparr>nl_at = a, nl_alloc = Some k\<rparr> # np_large p'))"
        using g' all_apart_move [of "(a, 16)" R "entry_regions p'"] by (simp add: ngx_good_def entry_regions_def sizeof_ngx_pool_large_t_def)
    qed (use a ngx_goodD(11) [OF g'] in \<open>auto simp: large_blocks_of_def map_filter_simps entry_regions_def sizeof_ngx_pool_large_t_def\<close>)
    with push Some show ?thesis by simp
  qed
qed

lemma palloc_large_good:
  assumes good: "ngx_good others R p h"
  shows "\<exists>x. ngx_palloc_large p n h = Some x \<and> good_state others (hand_out n R x)"
proof -
  obtain r h1 where m: "malloc n h = (r, h1)" by fastforce
  show ?thesis
  proof (cases r)
    case None
    with good_malloc_none [OF good] m show ?thesis by (simp add: ngx_palloc_large_def ngx_alloc_def)
  next
    case (Some k)
    note g = good_malloc [OF good m [unfolded Some]]
    show ?thesis
    proof (cases "large_loop k 0 (np_large p)")
      case None
      with push_large_good [OF g(1,2), of n] g(3) m Some show ?thesis by (simp add: ngx_palloc_large_def ngx_alloc_def)
    next
      case (Some ls)
      note l = large_loop_slot [OF Some]
      have e: "map (\<lambda>l. (nl_at l, sizeof_ngx_pool_large_t)) ls = entry_regions p"
        using same_places(1) [OF conjunct2 [OF l]] by (simp add: entry_regions_def)
      have "fst (nl_at x) \<in> fst ` set (shape (np_blocks p))" if "x \<in> set ls" for x
      proof -
        have "nl_at x \<in> nl_at ` set (np_large p)" using that same_places(2) [OF conjunct2 [OF l]] by blast
        then show ?thesis using ngx_goodD(11) [OF good] by auto
      qed
      then have "ngx_good others (((k, 0), n) # R) (p\<lparr>np_large := ls\<rparr>) h1"
        using good by (intro good_adopt [OF g(1,2)]) (auto simp: g(3) l e ngx_good_def)
      with m \<open>r = Some k\<close> Some show ?thesis by (simp add: ngx_palloc_large_def ngx_alloc_def)
    qed
  qed
qed

lemma palloc_good:
  "ngx_good others R p h \<Longrightarrow> \<exists>x. ngx_palloc p n h = Some x \<and> good_state others (hand_out n R x)"
  using palloc_large_good palloc_small_good [where align = True] by (simp add: ngx_palloc_cases del: split_paired_Ex)

lemma pnalloc_good:
  "ngx_good others R p h \<Longrightarrow> \<exists>x. ngx_pnalloc p n h = Some x \<and> good_state others (hand_out n R x)"
  using palloc_large_good palloc_small_good [where align = False] by (simp add: ngx_pnalloc_def del: split_paired_Ex)

lemma pmemalign_good:
  assumes good: "ngx_good others R p h"
  shows "\<exists>x. ngx_pmemalign p n alignment h = Some x \<and> good_state others (hand_out n R x)"
proof -
  obtain r h1 where m: "malloc n h = (r, h1)" by fastforce
  show ?thesis
  proof (cases r)
    case None
    with good_malloc_none [OF good] good m show ?thesis by (simp add: ngx_pmemalign_def ngx_memalign_def)
  next
    case (Some k)
    note g = good_malloc [OF good m [unfolded Some]]
    from push_large_good [OF g(1,2), of n] g(3) good m Some show ?thesis by (simp add: ngx_pmemalign_def ngx_memalign_def)
  qed
qed

section \<open>Freeing and resetting\<close>

lemma pfree_loop_entry:
  "pfree_loop q ls = Some ls' \<Longrightarrow> map nl_at ls' = map nl_at ls
    \<and> mset (large_blocks_of ls) = mset (large_blocks_of ls') + mset (case q of None \<Rightarrow> [] | Some k \<Rightarrow> [k])"
  by (induction q ls arbitrary: ls' rule: pfree_loop.induct)
    (auto simp: large_blocks_of_def map_filter_simps split: if_splits option.splits)

definition not_in :: "nat option \<Rightarrow> region \<Rightarrow> bool" where
  "not_in q r \<longleftrightarrow> Some (fst (fst r)) \<noteq> q"

lemma pfree_good:
  assumes good: "ngx_good others R p h" and run: "ngx_pfree p q h = (True, p', h')"
  shows "ngx_good others (filter (not_in q) R) p' h'"
proof -
  obtain ls where ls: "pfree_loop q (np_large p) = Some ls" "p' = p\<lparr>np_large := ls\<rparr>" "h' = free_opt q h"
    using run by (auto simp: ngx_pfree_def split: option.splits)
  note e = pfree_loop_entry [OF ls(1)]
  note D = ngx_goodD [OF good]
  have E: "entry_regions p' = entry_regions p"
    using same_places(1) [OF conjunct1 [OF e]] by (simp add: entry_regions_def ls(2))
  have blocks: "np_blocks p' = np_blocks p" "block_size p' = block_size p" "header_size p' = header_size p"
    "np_current p' = np_current p" "np_max p' = np_max p"
    by (simp_all add: ls(2) block_size_def header_size_def fun_eq_iff)
  have lb: "set (large_blocks_of ls) = set (large_blocks_of (np_large p)) - set_option q \<and> distinct (large_blocks_of ls)
      \<and> set_option q \<subseteq> set (large_blocks_of (np_large p))"
  proof -
    have "distinct (large_blocks_of (np_large p))" using D(2) by (simp add: owned_blocks_def)
    moreover have "mset (large_blocks_of (np_large p)) = mset (large_blocks_of ls @ (case q of None \<Rightarrow> [] | Some k \<Rightarrow> [k]))"
      using e by simp
    ultimately have "distinct (large_blocks_of ls @ (case q of None \<Rightarrow> [] | Some k \<Rightarrow> [k]))"
      "set (large_blocks_of (np_large p)) = set (large_blocks_of ls @ (case q of None \<Rightarrow> [] | Some k \<Rightarrow> [k]))"
      using mset_eq_imp_distinct_iff mset_eq_setD by blast+
    then show ?thesis by (cases q) auto
  qed
  have q: "set_option q \<inter> fst ` set (shape (np_blocks p)) = {}"
    using lb D(2) by (auto simp: owned_blocks_def)
  have h': "heap_wf h' \<and> h_size h' = h_size h \<and> set (h_live h') = set (h_live h) - set_option q"
    using free_wf [OF D(1)] D(1,3) lb by (cases q) (simp_all add: ls(3) free_opt_def owned_blocks_def)
  have own: "set (owned_blocks p') = set (owned_blocks p) - set_option q" "distinct (owned_blocks p')"
    using lb q D(2) by (auto simp: owned_blocks_def ls(2))
  have at: "fst (nl_at l) \<in> fst ` set (shape (np_blocks p))" if "l \<in> set ls" for l
  proof -
    have "nl_at l \<in> nl_at ` set (np_large p)" using that same_places(2) [OF conjunct1 [OF e]] by blast
    then show ?thesis using D(11) by auto
  qed
  have held: "held p' h' r" if "held p h r" "not_in q r" for r
  proof (cases r rule: region_cases)
    case (1 b i n)
    have "np_large p' = ls" by (simp add: ls(2))
    with that lb h' show ?thesis unfolding 1 held.simps blocks by (auto simp: not_in_def)
  qed
  have entries: "not_in q r" if "r \<in> set (entry_regions p)" for r
    using that D(11) q by (auto simp: entry_regions_def not_in_def)
  have "set_option q \<inter> others = {}" using lb D(4) by (auto simp: owned_blocks_def)
  then have "ngx_inv others p' h'"
    using good own h' at unfolding ngx_good_def ngx_inv_def blocks by (auto simp: ls(2))
  moreover have "held p' h' r" if "r \<in> set (filter (not_in q) R @ entry_regions p)" for r
    using that good held [of r] entries [of r] unfolding ngx_good_def by (auto simp del: held.simps)
  moreover have "all_apart (filter (not_in q) R @ entry_regions p)"
    using good by (auto simp: ngx_good_def all_apart_def sorted_wrt_append sorted_wrt_filter)
  ultimately show ?thesis unfolding ngx_good_def E by blast
qed

lemma fold_free_opt_wf:
  "heap_wf h \<Longrightarrow> distinct (large_blocks_of ls) \<Longrightarrow> set (large_blocks_of ls) \<subseteq> set (h_live h)
    \<Longrightarrow> heap_wf (fold (\<lambda>l. free_opt (nl_alloc l)) ls h) \<and> h_size (fold (\<lambda>l. free_opt (nl_alloc l)) ls h) = h_size h
    \<and> set (h_live (fold (\<lambda>l. free_opt (nl_alloc l)) ls h)) = set (h_live h) - set (large_blocks_of ls)"
proof (induction ls arbitrary: h)
  case (Cons l ls)
  show ?case
  proof (cases "nl_alloc l")
    case None
    with Cons show ?thesis by (simp add: free_opt_def large_blocks_of_def map_filter_simps)
  next
    case (Some k)
    with Cons.IH [of "free k h"] free_wf [OF Cons.prems(1), of k] Cons.prems(2,3) show ?thesis
      by (auto simp: free_opt_def large_blocks_of_def map_filter_simps)
  qed
qed (simp add: large_blocks_of_def map_filter_simps)

lemma large_freed:
  assumes good: "ngx_good others R p h"
  defines "h' \<equiv> fold (\<lambda>l. free_opt (nl_alloc l)) (np_large p) h"
  shows "heap_wf h' \<and> h_size h' = h_size h \<and> set (h_live h') = set (h_live h) - set (large_blocks_of (np_large p))"
  unfolding h'_def
  by (rule fold_free_opt_wf) (use ngx_goodD(1-3) [OF good] in \<open>auto simp: owned_blocks_def\<close>)

lemma reset_good:
  assumes good: "ngx_good others R p h" and run: "ngx_reset_pool p h = (p', h')"
  shows "ngx_good others [] p' h'"
proof -
  note D = ngx_goodD [OF good]
  note w = large_freed [OF good]
  have p': "np_blocks p' = map (\<lambda>b. b\<lparr>nb_last := sizeof_ngx_pool_t, nb_failed := 0\<rparr>) (np_blocks p)" "np_large p' = []"
    "np_current p' = 0" "np_max p' = np_max p" "h' = fold (\<lambda>l. free_opt (nl_alloc l)) (np_large p) h"
    using run by (auto simp: ngx_reset_pool_def)
  have ne: "np_blocks p \<noteq> []" using D(8) by auto
  have sh: "shape (np_blocks p') = map (\<lambda>(b, l, e). (b, 80, e)) (shape (np_blocks p))"
    by (simp add: p' shape_def ngx_sizes)
  have eq: "block_size p' = block_size p" "header_size p' = header_size p" "owned_blocks p' = map fst (shape (np_blocks p))"
    using ne unfolding block_size_def header_size_def owned_blocks_def sh p'(2)
    by (cases "np_blocks p"; simp add: shape_def fun_eq_iff large_blocks_of_def map_filter_simps comp_def case_prod_beta)+
  have "header_size p b \<le> 80" for b by (simp add: header_size_def ngx_sizes)
  moreover have "80 \<le> block_size p" using good by (simp add: ngx_good_def ngx_inv_def)
  ultimately have "\<forall>(b, l, e) \<in> set (shape (np_blocks p')). e = block_size p \<and> header_size p b \<le> l \<and> l \<le> e \<and> h_size h' b = e"
    using D(5) w unfolding sh p'(5) by fastforce
  moreover have "set (h_live h') = others \<union> set (map fst (shape (np_blocks p)))" "heap_wf h'"
    using w D(2-4) unfolding p'(5) owned_blocks_def by auto
  moreover have "distinct (map fst (shape (np_blocks p)))" "others \<inter> set (map fst (shape (np_blocks p))) = {}"
    using D(2,4) by (auto simp: owned_blocks_def)
  ultimately have "ngx_inv others p' h'"
    using good ne unfolding ngx_good_def ngx_inv_def eq by (simp add: p'(1-4))
  then show ?thesis by (simp add: ngx_good_def entry_regions_def p'(2))
qed

lemma good_forget: "ngx_good others (r # R) p h \<Longrightarrow> ngx_good others R p h"
  by (auto simp: ngx_good_def)

lemma good_cleanup [simp]: "ngx_good others R (p\<lparr>np_cleanup := c\<rparr>) h = ngx_good others R p h"
proof
  assume a: "ngx_good others R (p\<lparr>np_cleanup := c\<rparr>) h"
  show "ngx_good others R p h"
    by (rule ngx_good_shape [OF _ _ _ _ a]) (use ngx_goodD(8) [OF a] in simp_all)
next
  assume a: "ngx_good others R p h"
  show "ngx_good others R (p\<lparr>np_cleanup := c\<rparr>) h"
    by (rule ngx_good_shape [OF _ _ _ _ a]) (use ngx_goodD(8) [OF a] in simp_all)
qed

text \<open>The regions of a cleanup handler: its argument and the handler itself.\<close>

definition cleanup_regions :: "nat \<Rightarrow> ngx_cleanup option \<Rightarrow> region list" where
  "cleanup_regions n r =
    (case r of None \<Rightarrow> [] | Some c \<Rightarrow> map (\<lambda>a. (a, n)) (case nc_data c of None \<Rightarrow> [] | Some a \<Rightarrow> [a]) @ [(nc_at c, sizeof_ngx_pool_cleanup_t)])"

lemma cleanup_add_good:
  assumes good: "ngx_good others R p h"
  shows "\<exists>r p' h'. ngx_pool_cleanup_add p n h = Some (r, p', h') \<and> ngx_good others (cleanup_regions n r @ R) p' h'"
proof -
  obtain r p1 h1 where 1: "ngx_palloc p sizeof_ngx_pool_cleanup_t h = Some (r, p1, h1)"
      "good_state others (hand_out sizeof_ngx_pool_cleanup_t R (r, p1, h1))"
    using palloc_good [OF good, of sizeof_ngx_pool_cleanup_t] by (metis prod_cases3)
  show ?thesis
  proof (cases r)
    case None
    with 1 show ?thesis by (simp add: ngx_pool_cleanup_add_def cleanup_regions_def)
  next
    case (Some c)
    let ?R = "(c, sizeof_ngx_pool_cleanup_t) # R"
    have g: "ngx_good others ?R p1 h1" using 1(2) Some by simp
    show ?thesis
    proof (cases "n = 0")
      case True
      with 1(1) Some g show ?thesis by (simp add: ngx_pool_cleanup_add_def cleanup_regions_def Let_def)
    next
      case False
      obtain d p2 h2 where 2: "ngx_palloc p1 n h1 = Some (d, p2, h2)" "good_state others (hand_out n ?R (d, p2, h2))"
        using palloc_good [OF g, of n] by (metis prod_cases3)
      show ?thesis
        using 1(1) 2 Some False by (cases d) (auto simp: ngx_pool_cleanup_add_def cleanup_regions_def Let_def dest: good_forget)
    qed
  qed
qed

section \<open>The life of a pool\<close>

lemma create_good:
  assumes "heap_wf h" "8 dvd n" "96 \<le> n" "n < 2 ^ 63" "pg = 0 \<or> 17 \<le> pg \<and> pg < 2 ^ 64"
    and "ngx_create_pool pg n h = (Inr (Some p), h')"
  shows "ngx_good (set (h_live h)) [] p h'"
proof -
  obtain k where m: "malloc n h = (Some k, h')"
      and p: "p = \<lparr>np_blocks = [\<lparr>nb_base = k, nb_last = 80, nb_end = n, nb_failed = 0\<rparr>],
        np_max = (if n - 80 < sz_sub pg 1 then n - 80 else sz_sub pg 1), np_current = 0, np_large = [], np_cleanup = []\<rparr>"
    using assms(3,4,6) by (auto simp: ngx_create_pool_def ngx_sizes Let_def split: prod.splits option.splits if_splits)
  note w = malloc_wf [OF m assms(1), simplified]
  have "16 \<le> sz_sub pg 1" using assms(5) by (auto simp: sz_sub_wraps)
  then have "16 \<le> np_max p \<and> np_max p + 80 \<le> n" using assms(3) by (auto simp: p)
  with w assms(2-4) show ?thesis
    by (auto simp: ngx_good_def ngx_inv_def p shape_def owned_blocks_def large_blocks_of_def map_filter_simps
        block_size_def header_size_def ngx_sizes entry_regions_def)
qed

lemma destroy_live:
  assumes good: "ngx_good others R p h"
  shows "set (h_live (snd (ngx_destroy_pool p h))) = others \<and> h_stray (snd (ngx_destroy_pool p h)) = []"
proof -
  note D = ngx_goodD [OF good]
  note w = large_freed [OF good]
  let ?g = "fold (\<lambda>l. free_opt (nl_alloc l)) (np_large p) h" and ?bs = "map fst (shape (np_blocks p))"
  have "fold (\<lambda>b. free (nb_base b)) bs g = fold free (map fst (shape bs)) g" for bs g
    by (induction bs arbitrary: g) (simp_all add: shape_def)
  then have d: "snd (ngx_destroy_pool p h) = fold free ?bs ?g" by (simp add: ngx_destroy_pool_def)
  have bs: "distinct ?bs" "set ?bs \<inter> set (large_blocks_of (np_large p)) = {}"
    "set (h_live ?g) = others \<union> set ?bs" "others \<inter> set ?bs = {}"
    using D(2-4) w by (auto simp: owned_blocks_def)
  have g: "heap_wf ?g" "set ?bs \<subseteq> set (h_live ?g)" using w bs(3) by blast+
  have "heap_wf (fold free ?bs ?g) \<and> set (h_live (fold free ?bs ?g)) = set (h_live ?g) - set ?bs"
    using fold_free_wf [OF g(1) bs(1) g(2)] by blast
  with bs(3,4) show ?thesis unfolding d heap_wf_def by auto
qed

text \<open>The calls of a program, and the regions it may use after each.\<close>

datatype pool_call = Palloc nat | Pnalloc nat | Pcalloc nat | Pmemalign nat nat | Pfree "nat option" | Cleanup_add nat | Reset_pool

fun ngx_step :: "pool_call \<Rightarrow> region list \<times> ngx_pool \<times> heap \<Rightarrow> (region list \<times> ngx_pool \<times> heap) option" where
  "ngx_step (Palloc n) (R, p, h) = map_option (hand_out n R) (ngx_palloc p n h)"
| "ngx_step (Pnalloc n) (R, p, h) = map_option (hand_out n R) (ngx_pnalloc p n h)"
| "ngx_step (Pcalloc n) (R, p, h) = map_option (\<lambda>(zeroed, x). hand_out n R x) (ngx_pcalloc p n h)"
| "ngx_step (Pmemalign n alignment) (R, p, h) = map_option (hand_out n R) (ngx_pmemalign p n alignment h)"
| "ngx_step (Pfree q) (R, p, h) =
    (case ngx_pfree p q h of (ok, x) \<Rightarrow> Some (if ok then filter (not_in q) R else R, x))"
| "ngx_step (Cleanup_add n) (R, p, h) =
    map_option (\<lambda>(r, x). (cleanup_regions n r @ R, x)) (ngx_pool_cleanup_add p n h)"
| "ngx_step Reset_pool (R, p, h) = Some ([], ngx_reset_pool p h)"

fun ngx_run :: "pool_call list \<Rightarrow> region list \<times> ngx_pool \<times> heap \<Rightarrow> (region list \<times> ngx_pool \<times> heap) option" where
  "ngx_run [] x = Some x"
| "ngx_run (c # cs) x = Option.bind (ngx_step c x) (ngx_run cs)"

lemma map_some: "\<exists>x. f = Some x \<and> P (g x) \<Longrightarrow> \<exists>y. map_option g f = Some y \<and> P y"
  by auto

lemma ngx_step_good:
  assumes good: "ngx_good others R p h"
  shows "\<exists>y. ngx_step c (R, p, h) = Some y \<and> good_state others y"
proof (cases c)
  case (Palloc n)
  with palloc_good [OF good, of n] show ?thesis by (simp only: ngx_step.simps) (rule map_some)
next
  case (Pnalloc n)
  with pnalloc_good [OF good, of n] show ?thesis by (simp only: ngx_step.simps) (rule map_some)
next
  case (Pcalloc n)
  obtain r p' h' where "ngx_palloc p n h = Some (r, p', h')" "good_state others (hand_out n R (r, p', h'))"
    using palloc_good [OF good, of n] by (metis prod_cases3)
  with Pcalloc show ?thesis by (simp add: ngx_pcalloc_def del: split_paired_Ex)
next
  case (Pmemalign n a)
  with pmemalign_good [OF good, of n a] show ?thesis by (simp only: ngx_step.simps) (rule map_some)
next
  case (Pfree q)
  obtain ok p' h' where f: "ngx_pfree p q h = (ok, p', h')" by (metis prod_cases3)
  show ?thesis
  proof (cases ok)
    case True
    with pfree_good [OF good, of q p' h'] f Pfree show ?thesis by simp
  next
    case False
    with f good Pfree show ?thesis by (auto simp: ngx_pfree_def split: option.splits)
  qed
next
  case (Cleanup_add n)
  with cleanup_add_good [OF good, of n] show ?thesis by auto
next
  case Reset_pool
  with reset_good [OF good] show ?thesis by (cases "ngx_reset_pool p h") simp
qed

lemma ngx_run_good: "good_state others x \<Longrightarrow> \<exists>y. ngx_run cs x = Some y \<and> good_state others y"
proof (induction cs arbitrary: x)
  case (Cons c cs)
  obtain R p h where x: "x = (R, p, h)" by (metis prod_cases3)
  obtain y where "ngx_step c x = Some y" "good_state others y"
    using ngx_step_good [of others R p h c] Cons.prems by (auto simp: x)
  with Cons.IH [of y] show ?case by simp
qed simp

lemma good_regions:
  assumes good: "ngx_good others R p h" and r: "((b, i), n) \<in> set R"
  shows "b \<in> set (h_live h) \<and> i + n \<le> h_size h b"
proof -
  have "held p h ((b, i), n)" using good r by (auto simp: ngx_good_def simp del: held.simps)
  then show ?thesis
    using ngx_goodD(3,5) [OF good] by (fastforce simp: owned_blocks_def image_iff)
qed

text \<open>
  C18. A pool of a suitable size is safe and leaks nothing. Let the size of the pool be a multiple of eight, at least 96 and
  below \<open>2 ^ 63\<close>, and let \<^verbatim>\<open>ngx_pagesize\<close> be unset (0) or at least 17. Then, for every sequence of requests, frees, cleanup
  handlers and resets and whatever requests the system refuses, every call returns, the regions that are in use never
  overlap and lie inside of live blocks, and when the pool is destroyed the blocks that are left are those from before
  it was created. From the first call to the destruction no block is freed that is not allocated, in particular none
  twice. The conditions on the size are needed: the last section shows that a pool whose size is no multiple of
  eight, as the only one of the repository with its 100 bytes, hands out memory behind its block
  (\<open>unaligned_pool_overruns\<close>), and that in one of less than 96 bytes a large request never returns
  (\<open>small_pool_never_returns\<close>).
\<close>

theorem ngx_pool_safe:
  assumes "heap_wf h" "8 dvd n" "96 \<le> n" "n < 2 ^ 63" "pg = 0 \<or> 17 \<le> pg \<and> pg < 2 ^ 64"
    and "ngx_create_pool pg n h = (Inr (Some p), h1)"
  shows "\<exists>R p' h'. ngx_run cs ([], p, h1) = Some (R, p', h')
    \<and> sorted_wrt apart R \<and> (\<forall>((b, i), m) \<in> set R. b \<in> set (h_live h') \<and> i + m \<le> h_size h' b)
    \<and> set (h_live (snd (ngx_destroy_pool p' h'))) = set (h_live h) \<and> h_stray (snd (ngx_destroy_pool p' h')) = []"
proof -
  have "good_state (set (h_live h)) ([], p, h1)" using create_good [OF assms] by simp
  then obtain R p' h' where run: "ngx_run cs ([], p, h1) = Some (R, p', h')" "ngx_good (set (h_live h)) R p' h'"
    using ngx_run_good by (metis good_state_simp prod_cases3)
  moreover have "sorted_wrt apart R" using run(2) by (simp add: ngx_good_def all_apart_append) (simp add: all_apart_def)
  ultimately show ?thesis using good_regions [OF run(2)] destroy_live [OF run(2)] by auto
qed

theorem ngx_pool_safe_witness:
  "\<exists>R p' h'. ngx_run [Palloc 10, Pnalloc 5, Palloc 1000, Cleanup_add 8, Pfree (Some 1), Palloc 40, Reset_pool, Palloc 100]
      ([], \<lparr>np_blocks = [\<lparr>nb_base = 0, nb_last = 80, nb_end = 160, nb_failed = 0\<rparr>], np_max = 80, np_current = 0,
            np_large = [], np_cleanup = []\<rparr>,
       \<lparr>h_grants = \<lambda>k n. k \<noteq> 3, h_count = 1, h_live = [0], h_size = \<lambda>_. 160, h_stray = []\<rparr>) = Some (R, p', h')
    \<and> sorted_wrt apart R \<and> set (h_live (snd (ngx_destroy_pool p' h'))) = {} \<and> h_stray (snd (ngx_destroy_pool p' h')) = []"
proof -
  let ?h = "\<lparr>h_grants = \<lambda>k n. k \<noteq> 3, h_count = 0, h_live = [], h_size = \<lambda>_. 160, h_stray = []\<rparr>"
  have "ngx_create_pool 0 160 ?h = (Inr (Some \<lparr>np_blocks = [\<lparr>nb_base = 0, nb_last = 80, nb_end = 160, nb_failed = 0\<rparr>], np_max = 80,
      np_current = 0, np_large = [], np_cleanup = []\<rparr>), \<lparr>h_grants = \<lambda>k n. k \<noteq> 3, h_count = 1, h_live = [0], h_size = \<lambda>_. 160, h_stray = []\<rparr>)"
    by (simp add: ngx_create_pool_def malloc_def ngx_sizes Let_def sz_sub_def fun_eq_iff)
  from ngx_pool_safe [OF _ _ _ _ _ this, of "[Palloc 10, Pnalloc 5, Palloc 1000, Cleanup_add 8, Pfree (Some 1), Palloc 40, Reset_pool, Palloc 100]"]
  show ?thesis by (simp add: heap_wf_def del: ngx_run.simps ngx_step.simps) blast
qed

section \<open>Sizes that do not work\<close>

text \<open>
  When the size is no multiple of eight, as in the repository, where it is 100, the pool can be filled to its end, and
  the next request gets memory behind the block: the aligned pointer is past \<^verbatim>\<open>d.end\<close>, and the difference wraps around.
\<close>

lemma unaligned_pool_overruns:
  assumes "ngx_create_pool 0 n h = (Inr (Some p), h1)" "80 < n" "n < 2 ^ 63" "n mod 8 \<noteq> 0" "0 < m" "m \<le> n - 80"
  shows "\<exists>b p1 i p2. ngx_palloc p (n - 80) h1 = Some (Some (b, 80), p1, h1) \<and> ngx_palloc p1 m h1 = Some (Some (b, i), p2, h1)
    \<and> h_size h1 b = n \<and> n < i"
proof -
  obtain k where k: "malloc n h = (Some k, h1)"
      and p: "p = \<lparr>np_blocks = [\<lparr>nb_base = k, nb_last = 80, nb_end = n, nb_failed = 0\<rparr>],
        np_max = n - 80, np_current = 0, np_large = [], np_cleanup = []\<rparr>"
    using assms(1-3) by (auto simp: ngx_create_pool_def ngx_sizes Let_def sz_sub_wraps split: prod.splits option.splits if_splits)
  have size: "h_size h1 k = n" using k by (auto simp: malloc_def Let_def split: if_splits)
  define i where "i = ngx_align_ptr n 8"
  have i: "n < i" "i < n + 8" using assms(4) unfolding i_def ngx_align_ptr_def by presburger+
  have "sz_sub n i = 2 ^ 64 - (i - n)" using i assms(3) by (intro sz_sub_wraps) simp_all
  then have "m \<le> sz_sub n i" using i assms(3,6) by simp
  note fits = this
  let ?p1 = "p\<lparr>np_blocks := [\<lparr>nb_base = k, nb_last = n, nb_end = n, nb_failed = 0\<rparr>]\<rparr>"
  have 1: "ngx_palloc p (n - 80) h1 = Some (Some (k, 80), ?p1, h1)"
    using assms(2,3) by (simp add: ngx_palloc_cases p palloc_small_def ngx_sizes Let_def ngx_align_ptr_def)
  have "ngx_palloc ?p1 m h1 = Some (Some (k, i), ?p1\<lparr>np_blocks := [\<lparr>nb_base = k, nb_last = i + m, nb_end = n, nb_failed = 0\<rparr>]\<rparr>, h1)"
    using assms(6) fits by (simp add: ngx_palloc_cases p palloc_small_def ngx_sizes Let_def i_def [symmetric])
  with 1 size i(1) show ?thesis by blast
qed

text \<open>
  A pool too small for the entry of a large block, of less than 96 bytes: when the system refuses nothing,
  \<^verbatim>\<open>ngx_palloc\<close> and \<^verbatim>\<open>ngx_palloc_large\<close> call each other without an end.
\<close>

lemma small_pool_never_returns:
  assumes "np_max p < 16" "np_max p < n" "np_large p = []" "heap_ok h"
  shows "ngx_palloc p n h = None"
proof -
  have "False" if "ngx_palloc p n h = Some y" for y
  proof -
    have "np_max p < 16 \<longrightarrow> np_max p < n \<longrightarrow> np_large p = [] \<longrightarrow> heap_ok h \<longrightarrow> False"
      using that
    proof (rule ngx_palloc.raw_induct [rotated])
      fix palloc p n h y
      assume IH: "\<And>p n h y. palloc p n h = Some y \<Longrightarrow> np_max p < 16 \<longrightarrow> np_max p < n \<longrightarrow> np_large p = [] \<longrightarrow> heap_ok h \<longrightarrow> False"
        and run: "(if n \<le> np_max p then Some (palloc_small True p n h)
          else case ngx_alloc n h of (None, h1) \<Rightarrow> Some (None, p, h1)
            | (Some q, h1) \<Rightarrow>
                (case large_loop q 0 (np_large p) of
                   None \<Rightarrow> Option.bind (palloc p sizeof_ngx_pool_large_t h1) (\<lambda>(large, pool', h2).
                     case large of None \<Rightarrow> Some (None, pool', free q h2)
                     | Some a \<Rightarrow> Some (Some (q, 0), pool'\<lparr>np_large := \<lparr>nl_at = a, nl_alloc = Some q\<rparr> # np_large pool'\<rparr>, h2))
                 | Some ls \<Rightarrow> Some (Some (q, 0), p\<lparr>np_large := ls\<rparr>, h1))) = Some y"
      show "np_max p < 16 \<longrightarrow> np_max p < n \<longrightarrow> np_large p = [] \<longrightarrow> heap_ok h \<longrightarrow> False"
      proof (intro impI)
        assume a: "np_max p < 16" "np_max p < n" "np_large p = []" "heap_ok h"
        obtain q h1 where m: "malloc n h = (Some q, h1)" "heap_ok h1"
          using malloc_ok [OF a(4), of n] a(2,4) malloc_heap_ok by (metis gr_zeroI not_less_zero)
        with run a obtain x where "palloc p 16 h1 = Some x" by (auto simp: ngx_alloc_def ngx_sizes bind_eq_Some_conv)
        from IH [OF this] a m show False by simp
      qed
    qed
    with assms show False by simp
  qed
  then show ?thesis by (cases "ngx_palloc p n h") auto
qed

text \<open>
  A reset forgets the large blocks but not the cleanup handlers: their places are handed out again, and
  \<^verbatim>\<open>ngx_destroy_pool\<close> reads them afterwards.
\<close>

lemma reset_keeps_cleanups:
  "\<exists>c p h. ngx_run [Cleanup_add 0, Reset_pool, Palloc 24]
      ([], \<lparr>np_blocks = [\<lparr>nb_base = 0, nb_last = 80, nb_end = 160, nb_failed = 0\<rparr>], np_max = 80, np_current = 0,
            np_large = [], np_cleanup = []\<rparr>,
       \<lparr>h_grants = \<lambda>k n. True, h_count = 1, h_live = [0], h_size = \<lambda>_. 160, h_stray = []\<rparr>) = Some ([(nc_at c, 24)], p, h)
    \<and> np_cleanup p = [c]"
  by (simp add: ngx_pool_cleanup_add_def ngx_palloc_cases palloc_small_def ngx_sizes Let_def ngx_align_ptr_def
      ngx_reset_pool_def cleanup_regions_def)

end
