(* ===== verification/Spec2Isabelle.thy ===== *)
theory Spec2Isabelle
  imports Amqp_Url Amqp_Robust Amqp_Tls_Setup Amqp_Envelope Tools_Publish Tools_Ends Client_Setup Client_Threads Client_Epoll Client_Dump Ngx_Queue Ngx_Pool
begin

text \<open>
  A verification library for rabbitmq-c, the AMQP 0-9-1 client library the programs of this
  repository are built on (\<^verbatim>\<open>src/rabbitmq-c-master/librabbitmq\<close>), for its command line tools, and for the
  clients of the repository.

  \<^bold>\<open>The program.\<close> A client calls the API (\<^verbatim>\<open>amqp_api.c\<close>, \<^verbatim>\<open>amqp_consumer.c\<close>, the wrappers at the end
  of \<^verbatim>\<open>amqp_framing.c\<close>); the API exchanges frames with the broker through \<^verbatim>\<open>amqp_socket.c\<close>, which
  hands the bytes it receives to \<^verbatim>\<open>amqp_handle_input\<close> and the frames it sends to
  \<^verbatim>\<open>amqp_frame_to_bytes\<close> (\<^verbatim>\<open>amqp_connection.c\<close>). The payload of a frame is a method or a set of content
  properties, written and read by \<^verbatim>\<open>amqp_framing.c\<close>, whose tables are written and read by
  \<^verbatim>\<open>amqp_table.c\<close>, all in terms of the integers and byte strings of \<^verbatim>\<open>amqp_private.h\<close>. Everything a
  decoder builds lives in the memory pool of its channel (\<^verbatim>\<open>amqp_mem.c\<close>). The bytes travel over a TCP
  socket (\<^verbatim>\<open>amqp_tcp_socket.c\<close>) or a TLS socket (\<^verbatim>\<open>amqp_openssl.c\<close>). The library models this stack, from the system
  calls up to the API.

  \<^bold>\<open>The theories: data and codecs.\<close>

  \<^item> \<open>Prelude\<close>: the machine types, \<^verbatim>\<open>size_t\<close> arithmetic (\<open>sz_add\<close>, \<open>sz_sub\<close>, \<open>sz_mul\<close> wrap at
    \<open>2 ^ 64\<close>), reads and writes of a byte buffer that return \<open>None\<close> outside of it, and the facts on
    buffers the other theories share.
  \<^item> \<open>Amqp_Status\<close>: the status codes of \<^verbatim>\<open>amqp.h\<close>, their texts (\<^verbatim>\<open>amqp_error_string2\<close>), and the type
    \<open>fault\<close> of what can end a call: a status, an access outside a buffer (\<open>Memory_fault\<close>), an abort,
    undefined behaviour, a system call that has not returned, or the end of the fuel of a model function.
  \<^item> \<open>Amqp_Mem\<close>, \<open>Amqp_Pool\<close>: the pool allocator on an explicit heap. Which requests the heap refuses
    is a parameter of the heap (\<open>h_grants\<close>); a call of \<open>free\<close> on a block that is not allocated is recorded in
    it (\<open>h_stray\<close>), so that a property can say that no block is freed twice. The lemmas give the invariant of a pool, that the
    regions it hands out are disjoint and inside live blocks, and what emptying it frees.
  \<^item> \<open>Amqp_Codec\<close>: the big-endian codecs and the bounds checks of \<^verbatim>\<open>amqp_private.h\<close>, and the contracts
    of the layers above as locales: \<open>wire_format\<close> (an encoder writes exactly a given byte string or
    fails, and the decoder reads it back) and \<open>wire_codec\<close> (in addition, the decoder stays in bounds
    on arbitrary bytes).
  \<^item> \<open>Amqp_Table\<close>, \<open>Amqp_Table_Codec\<close>: field values, arrays and tables. The decoder's recursion is
    bounded by fuel: \<open>amqp_decode_table\<close> starts with three times the length of the buffer and three,
    every nested call starts at least one byte further, and the safety of the decoder includes that it
    never runs out. \<open>table\<close> interprets \<open>wire_codec\<close>.
  \<^item> \<open>Amqp_Alloc\<close>, \<open>Amqp_Table_Ops\<close>: strings in the heap and in a pool; cloning, comparing and looking up
    tables, and merging the capabilities of a client.
  \<^item> \<open>Framing_Base\<close>, one theory per AMQP class from \<open>Framing_Connection\<close> to \<open>Framing_Tx\<close>, and
    \<open>Amqp_Framing\<close>: the 64 methods, a definition for the encoder and one for the decoder of each,
    and the two switches. Every class interprets the locale \<open>method_class\<close>; \<open>method_codec\<close> puts the
    classes together.
  \<^item> \<open>Amqp_Properties\<close>: the content properties with their flag words. \<open>properties\<close> interprets
    \<open>wire_format\<close>; the decoder is not a \<open>wire_codec\<close>, because its flag loop can shift too far.
  \<^item> \<open>Amqp_Url\<close>, \<open>Amqp_Hostcheck\<close>, \<open>Amqp_Hostname\<close>: \<^verbatim>\<open>amqp_parse_url\<close> with its escapes, the wildcard match of a host
    name, and the search for a host name in a certificate.

  \<^bold>\<open>Frames.\<close>

  \<^item> \<open>Amqp_Connection\<close>: the record of the input machine, the pools of the channels,
    \<^verbatim>\<open>amqp_handle_input\<close> and \<^verbatim>\<open>amqp_frame_to_bytes\<close>.
  \<^item> \<open>Amqp_Frames\<close>: what a frame is on the wire, that \<^verbatim>\<open>amqp_frame_to_bytes\<close> writes it and
    \<^verbatim>\<open>amqp_handle_input\<close> reads it.
  \<^item> \<open>Amqp_Input\<close>, \<open>Amqp_Pieces\<close>: the invariant of the input machine between calls, that the bytes of a frame may
    arrive in any pieces, and safety on arbitrary bytes.

  \<^bold>\<open>The connection and the world.\<close>

  \<^item> \<open>Amqp_Time\<close>: deadlines. \<open>Amqp_World\<close>: the system calls of a run as lists of results, the class of TCP sockets and
    \<^verbatim>\<open>amqp_poll\<close>. \<open>Amqp_Dial\<close>: the table of open descriptors and the loop that opens a socket.
  \<^item> \<open>Amqp_Tls\<close>, \<open>Amqp_Tls_Setup\<close>: the class of TLS sockets; the answers of OpenSSL are inputs.
  \<^item> \<open>Amqp_Socket\<close>: the record \<open>amqp_state\<close> of a whole connection (the world is its last field), the frame queue,
    releasing buffers and the heartbeat timers. \<open>Amqp_Transfer\<close>: \<^verbatim>\<open>amqp_try_send\<close>, \<^verbatim>\<open>amqp_send_frame\<close>, \<^verbatim>\<open>recv_with_timeout\<close>,
    \<^verbatim>\<open>amqp_try_recv\<close>. \<open>Amqp_Wait\<close>: \<^verbatim>\<open>wait_frame_inner\<close> and the functions that wait on a channel. \<open>Amqp_Setup\<close>, \<open>Amqp_Destroy\<close>:
    creating, tuning and destroying a connection. \<open>Amqp_Rpc\<close>, \<open>Amqp_Login\<close>, \<open>Amqp_Api\<close>, \<open>Amqp_Consumer\<close>: the RPC engine,
    the handshake, publishing and the other calls of the API, reading messages and envelopes.

  \<^bold>\<open>What the code does.\<close>

  \<^item> \<open>Amqp_Ends\<close>, \<open>Amqp_Send\<close>: every loop ends, whatever the system answers; what reaches the wire is a prefix of the
    frames.
  \<^item> \<open>Amqp_Publish\<close>, \<open>Amqp_Stream\<close>, \<open>Amqp_Delivery\<close>, \<open>Amqp_Exchange\<close>: the frames of a message and how its body is cut,
    the bytes that arrive as a stream, and what a waiting function makes of them. The locale
    \<open>frame_source\<close> states what its clients need of waiting for one frame: \<open>wait_on_channel\<close>,
    an RPC and reading a message are proved inside it, and \<open>wire\<close> interprets it on \<^verbatim>\<open>wait_frame_inner\<close>.
  \<^item> \<open>Amqp_Messages\<close>, \<open>Amqp_Robust\<close>: the properties of the exchange of messages, up to a message that is published
    on one connection and read on another, and those of setting up, negotiating and releasing.
    \<open>Amqp_Envelope\<close>: consuming a delivery into an envelope.

  \<^bold>\<open>The command line tools\<close> (\<^verbatim>\<open>src/rabbitmq-c-master/tools\<close>).

  \<^item> \<open>Tools_Common\<close>: a tool as a computation that may exit, with the options, connecting and disconnecting,
    reading all of the input, writing, and copying the body of a message. The locale \<open>ticking_source\<close> extends
    \<open>frame_source\<close> for the functions that read the clock before they wait.
  \<^item> \<open>Tools_Publish\<close>: \<^verbatim>\<open>amqp-publish\<close>, its properties and headers, and its line mode. \<open>Tools_Consume\<close>: the child
    processes of \<^verbatim>\<open>unix/process.c\<close>, \<^verbatim>\<open>amqp-consume\<close>, \<^verbatim>\<open>amqp-get\<close>, and the tools that declare and delete a queue; it also
    holds the frames of a delivery (\<open>delivery\<close>, \<open>delivery_frames\<close>) and the locale \<open>acking_source\<close>, which adds sending an
    acknowledgement to a source of frames.
  \<^item> \<open>Tools_Ends\<close>: the loops of the tools end.

  \<^bold>\<open>The clients\<close> (\<^verbatim>\<open>src/c/recveive/src\<close>, and copies under \<^verbatim>\<open>src/c/send\<close> and \<^verbatim>\<open>src/c/back\<close>).

  \<^item> \<open>Client_Receive\<close>: logging in, declaring, publishing and the loop that receives and acknowledges, on the computations of
    \<open>Tools_Common\<close>, with the deliveries and the locale \<open>acking_source\<close> of \<open>Tools_Consume\<close>. \<open>Client_Setup\<close>: setting up as a conversation
    with the broker (\<open>conversation\<close>), and what is published. \<open>Client_Threads\<close>: the two threads and the alarm as a step
    relation. \<open>Client_Epoll\<close>: sockets, event handlers and signals. \<open>Client_Dump\<close>: the hexadecimal dump.

  \<^bold>\<open>The nginx library\<close> (\<^verbatim>\<open>src/nginx/src\<close>, and copies under \<^verbatim>\<open>src/work\<close>).

  \<^item> \<open>Ngx_Queue\<close>: the doubly linked queue as assignments to links; \<open>ring m h xs\<close> says which list a queue holds, and the
    lemmas give the list operation of each macro, the middle and the sort. \<open>Ngx_Pool\<close>: the memory pools, on the heap of
    \<open>Amqp_Mem\<close>, with the invariant of a pool over the regions that are in use.

  The present theory states the properties of the codecs and the input machine.

  \<^bold>\<open>Conventions.\<close> A pointer to decoded data is the data itself; a byte string is a list of bytes. The
  state a decoder threads (\<open>dec_state\<close>) has the offset, the pool and the heap. Loops are structural
  recursions or have a termination proof, so that every definition is a total, executable function.
  The loops that follow the links of a queue, and \<open>ngx_palloc\<close>, which calls itself on a new block, need not end; they
  are partial functions (\<open>None\<close> when they do not end), and the lemmas prove when they return.
  A loop around system calls is checked for progress in every round (\<open>advances\<close>: a result of a system
  call was used up, or bytes of the buffer were); without progress it would end with \<open>Out_of_fuel\<close>, and \<open>waits_end\<close>
  shows that this never happens. The results are finite lists, and a system call for which none is left yields \<open>Blocked\<close>:
  what is shown is progress. A broker that sends heartbeats for ever keeps a wait that has no timeout going for ever, in the code
  as in the model.
  The hypothesis \<open>heap_ok\<close> says that the heap refuses nothing; it occurs where a result is promised, and
  never in a safety statement. \<open>in_memory\<close> says that a buffer is shorter than \<open>2 ^ 56\<close> bytes, more than an address space holds.

  \<^bold>\<open>Not modelled.\<close> The code for Windows and the variant of \<^verbatim>\<open>amqp_poll\<close> on \<^verbatim>\<open>select\<close>; OpenSSL, \<^verbatim>\<open>getaddrinfo\<close> and the
  kernel, whose answers are inputs; a connection whose socket is a TLS socket (the record \<open>amqp_state\<close> has a TCP
  socket, and the properties of TLS are those of the socket itself); the two callbacks that pass the locks of OpenSSL
  on to pthreads; \<^verbatim>\<open>amqp_version\<close>; what the command line tools leave to popt and print on standard error, and a tool that connects over TLS;
  the examples and tests of the
  library; the earlier versions of the clients (\<^verbatim>\<open>src/exchange\<close>, \<^verbatim>\<open>src/receive\<close>, \<^verbatim>\<open>src/send\<close> and their demonstrations), which make
  the same calls in one function each; the wrappers around an MQTT library and a logger, and the scripts in Python.
\<close>

section \<open>Sample inputs\<close>

definition sample_heap :: heap where
  "sample_heap = \<lparr>h_grants = \<lambda>_ _. True, h_count = 0, h_live = [], h_size = \<lambda>_. 0, h_stray = []\<rparr>"

definition sample_state :: dec_state where
  "sample_state = \<lparr>d_off = 0, d_pool = init_amqp_pool 0, d_heap = sample_heap\<rparr>"

lemma sample_state_ok [simp]: "heap_ok (d_heap sample_state)" "d_off sample_state = 0"
  by (simp_all add: sample_state_def sample_heap_def heap_ok_def)

lemmas enc_eval = encode_sized_def e_seq_def e_try_def amqp_encode_8_def amqp_encode_16_def
  amqp_encode_32_def amqp_encode_64_def encode_base_def amqp_encode_bytes_def amqp_e8_def
  amqp_e16_def amqp_e32_def amqp_e64_def mem_write_def be16_def be32_def be64_def blit_def
  amqp_encode_field_value.simps Let_def sz_add_def sz_sub_def

section \<open>Tables\<close>

text \<open>
  C21. A table that the encoder accepts comes back from the decoder: decoding the buffer from the
  offset where the table was written returns the same table, entry by entry and nested value by
  nested value, and leaves the offset where the encoder left it.
\<close>

theorem table_roundtrip:
  assumes "valid_table t" "in_memory buf" "off \<le> length buf"
    and "amqp_encode_table t (buf, off) = (None, (buf', off'))"
    and "d_off d = off" "heap_ok (d_heap d)"
  shows "\<exists>d'. amqp_decode_table buf' d = (Inr t, d') \<and> d_off d' = off'"
  using assms by (rule table.roundtrip)

theorem table_roundtrip_witness:
  "\<exists>d'. amqp_decode_table [0,0,0,16,1,1,0x49,0,0,0,5,1,2,0x41,0,0,0,2,0x74,1,0,0,0,0] sample_state
     = (Inr [([1], FV_I32 5), ([2], FV_Array [FV_Boolean True])], d') \<and> d_off d' = 20"
proof (rule table_roundtrip [of _ "[0,0,0,0,0,0,0,0,0,0,0,0,0,0,0,0,0,0,0,0,0,0,0,0]" 0])
  show "valid_table [([1], FV_I32 5), ([2], FV_Array [FV_Boolean True])]"
    by (simp add: valid_table_def valid_field_value.simps wire_entry_def wire_field_value.simps
        wire_sized_def be32_def be16_def)
  show "amqp_encode_table [([1], FV_I32 5), ([2], FV_Array [FV_Boolean True])] ([0,0,0,0,0,0,0,0,0,0,0,0,0,0,0,0,0,0,0,0,0,0,0,0], 0)
      = (None, ([0,0,0,16,1,1,0x49,0,0,0,5,1,2,0x41,0,0,0,2,0x74,1,0,0,0,0], 20))"
    by (simp add: amqp_encode_table_def enc_eval)
qed simp_all

section \<open>Methods\<close>

text \<open>
  C2. A method struct that \<^verbatim>\<open>amqp_encode_method\<close> accepts comes back from
  \<^verbatim>\<open>amqp_decode_method\<close>, for all 64 methods of the protocol: the decoder, given the method
  number and the encoded bytes, returns the same struct, and it consumes as many bytes as the
  encoder said it wrote.
\<close>

theorem method_roundtrip:
  assumes "valid_method m" "length buf < 2 ^ 31" "heap_ok (d_heap d)"
    and "amqp_encode_method (method_number m) m buf = (Inr n, buf')"
  shows "\<exists>d'. amqp_decode_method (method_number m) buf' d = (Inr m, d') \<and> int (d_off d') = n"
proof -
  have fits: "length (wire_method m) \<le> length buf"
    using amqp_encode_method_too_big [OF assms(1,2)] assms(4) by fastforce
  with amqp_encode_method_fits [OF assms(1,2)] assms(4)
  have n: "n = int (length (wire_method m))" and buf': "buf' = blit buf 0 (wire_method m)"
    by simp_all
  have "in_memory buf'" "at_off buf' (d_off (d\<lparr>d_off := 0\<rparr>)) (wire_method m)"
    using assms(2) fits buf' by simp_all
  then show ?thesis
    using readsE [OF decode_method_switch_reads [OF assms(1)], of buf' "d\<lparr>d_off := 0\<rparr>"] assms(3) n
    by (auto simp: amqp_decode_method_def)
qed

theorem method_roundtrip_witness:
  "\<exists>d'. amqp_decode_method AMQP_BASIC_ACK_METHOD [0,0,0,0,0,0,0,7,1,0] sample_state
     = (Inr (M_Basic (Basic_ack 7 True)), d') \<and> int (d_off d') = 9"
  using method_roundtrip [of "M_Basic (Basic_ack 7 True)" "[0,0,0,0,0,0,0,0,0,0]" sample_state 9
      "[0,0,0,0,0,0,0,7,1,0]"]
  by (simp add: amqp_encode_method_def encode_method_switch_def other_classes encode_basic_def
      encode_basic_ack_def enc_eval put_bit_def as_int_def)

text \<open>
  C25. \<^verbatim>\<open>amqp_encode_method\<close> writes the wire format of the method at the start of the buffer and
  returns its length exactly when it fits; a buffer that is too short gives an error status and
  never a write out of bounds.
\<close>

theorem method_encode_iff_fits:
  assumes "valid_method m" "length buf < 2 ^ 31"
  shows "case amqp_encode_method (method_number m) m buf of
      (Inr n, buf') \<Rightarrow> length (wire_method m) \<le> length buf \<and> n = int (length (wire_method m))
         \<and> buf' = blit buf 0 (wire_method m)
    | (Inl e, _) \<Rightarrow> length buf < length (wire_method m) \<and> (\<exists>s. e = Status s)"
  using amqp_encode_method_fits [OF assms] amqp_encode_method_too_big [OF assms]
  by (cases "length (wire_method m) \<le> length buf") auto

theorem method_encode_iff_fits_witness:
  "\<exists>s. fst (amqp_encode_method AMQP_BASIC_ACK_METHOD (M_Basic (Basic_ack 7 True)) [0, 0, 0]) = Inl (Status s)"
  using method_encode_iff_fits [of "M_Basic (Basic_ack 7 True)" "[0, 0, 0]"]
  by (auto simp: wire_basic.simps split: prod.splits sum.splits)

text \<open>
  C9. \<^verbatim>\<open>amqp_decode_method\<close> is safe on every method number and every byte string, however
  malformed: it returns a struct that belongs to the method number without reading past the end,
  or an error status. It never reads out of bounds, and the recursion into nested tables ends.
\<close>

theorem method_decode_safe:
  assumes "in_memory encoded" "amqp_decode_method n encoded d = (r, d')"
  shows "(\<exists>m. r = Inr m \<and> method_number m = n \<and> d_off d' \<le> length encoded) \<or> (\<exists>s. r = Inl (Status s))"
  using method_codec.decode_safe [of encoded "d\<lparr>d_off := 0\<rparr>" n r d'] returnsD [OF decode_method_switch_number] assms
  unfolding amqp_decode_method_def by fastforce

theorem method_decode_safe_witness:
  "\<exists>r d'. amqp_decode_method AMQP_BASIC_ACK_METHOD [0, 0, 0] sample_state = (r, d')
     \<and> ((\<exists>m. r = Inr m \<and> method_number m = AMQP_BASIC_ACK_METHOD \<and> d_off d' \<le> length [0, 0, 0 :: u8])
        \<or> (\<exists>s. r = Inl (Status s)))"
  using method_decode_safe [of "[0, 0, 0]" AMQP_BASIC_ACK_METHOD sample_state]
  by (cases "amqp_decode_method AMQP_BASIC_ACK_METHOD [0, 0, 0] sample_state") simp

text \<open>
  The switches of \<^verbatim>\<open>amqp_method_name\<close>, \<^verbatim>\<open>amqp_decode_method\<close> and
  \<^verbatim>\<open>amqp_encode_method\<close> agree on which method numbers exist: a number without a name is refused
  by both codecs as \<^verbatim>\<open>AMQP_STATUS_UNKNOWN_METHOD\<close>, and one with a name is not.
\<close>

theorem method_unknown_iff_unnamed:
  "(amqp_method_name n = None) =
    ((\<forall>encoded d. fst (amqp_decode_method n encoded d) = Inl (Status AMQP_STATUS_UNKNOWN_METHOD))
     \<and> (\<forall>m encoded. fst (amqp_encode_method n m encoded) = Inl (Status AMQP_STATUS_UNKNOWN_METHOD)))"
proof
  assume "amqp_method_name n = None"
  then show "(\<forall>encoded d. fst (amqp_decode_method n encoded d) = Inl (Status AMQP_STATUS_UNKNOWN_METHOD))
     \<and> (\<forall>m encoded. fst (amqp_encode_method n m encoded) = Inl (Status AMQP_STATUS_UNKNOWN_METHOD))"
    by (simp add: amqp_decode_method_def amqp_encode_method_def unnamed_method d_fail_def e_fail_def)
next
  assume "(\<forall>encoded d. fst (amqp_decode_method n encoded d) = Inl (Status AMQP_STATUS_UNKNOWN_METHOD))
     \<and> (\<forall>m encoded. fst (amqp_encode_method n m encoded) = Inl (Status AMQP_STATUS_UNKNOWN_METHOD))"
  then have "fst (amqp_decode_method n [] no_memory_state) = Inl (Status AMQP_STATUS_UNKNOWN_METHOD)"
    by blast
  then show "amqp_method_name n = None"
    using named_method [of n]
    by (cases "amqp_method_name n") (auto simp: amqp_decode_method_def allocates_def no_memory_state_def)
qed

section \<open>Content properties\<close>

text \<open>
  C26. Content properties come back: what \<^verbatim>\<open>amqp_encode_properties\<close> wrote, the flag words and the
  fields they announce, \<^verbatim>\<open>amqp_decode_properties\<close> reads back as the same flags and the same
  fields, and it leaves the other fields unwritten.
\<close>

theorem properties_roundtrip:
  assumes "valid_properties p" "length buf < 2 ^ 31" "heap_ok (d_heap d)"
    and "amqp_encode_properties (properties_class p) p buf = (Inr n, buf')"
  shows "\<exists>d'. amqp_decode_properties (properties_class p) buf' d = (Inr p, d') \<and> int (d_off d') = n"
proof -
  obtain off where enc: "encode_properties_body (properties_class p) p (buf, 0) = (None, (buf', off))"
    and n: "n = as_int off"
    using assms(4) by (auto simp: amqp_encode_properties_def split: prod.splits option.splits)
  have off: "off < 2 ^ 31"
    using properties.encode_success [of p "properties_class p" buf 0 buf' off] assms(1,2) enc by auto
  have "\<exists>d'. decode_properties_body (properties_class p) buf' (d\<lparr>d_off := 0\<rparr>) = (Inr p, d') \<and> d_off d' = off"
    by (rule properties.roundtrip [OF _ _ _ enc]) (use assms in simp_all)
  with n off show ?thesis by (auto simp: amqp_decode_properties_def as_int_small)
qed

definition sample_properties :: amqp_properties where
  "sample_properties = Basic_properties
    \<lparr>bp_flags = AMQP_BASIC_CONTENT_TYPE_FLAG OR AMQP_BASIC_DELIVERY_MODE_FLAG, bp_content_type = Some [0x61],
     bp_content_encoding = None, bp_headers = None, bp_delivery_mode = Some 2, bp_priority = None,
     bp_correlation_id = None, bp_reply_to = None, bp_expiration = None, bp_message_id = None,
     bp_timestamp = None, bp_type = None, bp_user_id = None, bp_app_id = None, bp_cluster_id = None\<rparr>"

theorem properties_roundtrip_witness:
  "\<exists>d'. amqp_decode_properties 60 [0x90,0,1,0x61,2,0] sample_state = (Inr sample_properties, d') \<and> int (d_off d') = 5"
proof -
  have "valid_properties sample_properties"
    by (simp add: sample_properties_def valid_properties_def valid_flags_def valid_basic_properties_def
        valid_flagged_def UINT8_MAX_def)
  moreover have "amqp_encode_properties 60 sample_properties [0,0,0,0,0,0] = (Inr 5, [0x90,0,1,0x61,2,0])"
    by (simp add: sample_properties_def amqp_encode_properties_def encode_properties_body_def
        encode_flag_words.simps encode_properties_switch_def encode_basic_properties_def e_flagged_def
        e_shortstr_def UINT8_MAX_def enc_eval as_int_def)
  ultimately show ?thesis
    using properties_roundtrip [of sample_properties "[0,0,0,0,0,0]" sample_state 5 "[0x90,0,1,0x61,2,0]"]
    by (simp add: sample_properties_def)
qed

text \<open>
  C27. \<^verbatim>\<open>amqp_decode_properties\<close> on arbitrary bytes: it stays inside the buffer and reports errors
  as a status, with one exception, which it meets exactly when the third flag word is reached: the
  shift by 32 bits in the flag loop is undefined behaviour.
\<close>

theorem properties_decode_outcome:
  assumes "in_memory encoded" "amqp_decode_properties c encoded d = (r, d')"
  shows "(if 6 \<le> length encoded \<and> bit (encoded ! 1) 0 \<and> bit (encoded ! 3) 0
          then r = Inl Undefined_behaviour
          else (\<exists>p. r = Inr p \<and> d_off d' \<le> length encoded) \<or> (\<exists>s. r = Inl (Status s)))"
  using decode_properties_run [of encoded "d\<lparr>d_off := 0\<rparr>" c r d']
    decode_properties_overrun [of encoded "d\<lparr>d_off := 0\<rparr>" c] assms
  by (cases r) (auto simp: amqp_decode_properties_def flag_words_overrun_def)

theorem properties_decode_outcome_witness:
  "fst (amqp_decode_properties 60 [0, 1, 0, 1, 0, 0] sample_state) = Inl Undefined_behaviour"
  using properties_decode_outcome [of "[0, 1, 0, 1, 0, 0]" 60 sample_state]
  by (cases "amqp_decode_properties 60 [0, 1, 0, 1, 0, 0] sample_state") simp

section \<open>Frames\<close>

definition sample_connection :: amqp_connection where
  "sample_connection =
    \<lparr>pool_table = \<lambda>_. [], c_heap = sample_heap, conn_state = CONNECTION_STATE_IDLE, channel_max = 0,
     frame_max = 131072, header_buffer = [0,0,0,0,0,0,0,0], inbound_buffer = In_header_buffer,
     inbound_offset = 0, target_size = 7, stale_memory = []\<rparr>"

lemma sample_connection_ok [simp]:
  "idle sample_connection" "heap_ok (c_heap sample_connection)" "frame_max sample_connection = 131072"
  "conn_inv sample_connection" "pending sample_connection = []"
  by (simp_all add: sample_connection_def sample_heap_def idle_def heap_ok_def conn_inv_def pending_def)

text \<open>
  C3. A frame comes back: the bytes \<^verbatim>\<open>amqp_frame_to_bytes\<close> wrote, method, header, body or heartbeat,
  fed to \<^verbatim>\<open>amqp_handle_input\<close> of an idle connection whose \<^verbatim>\<open>frame_max\<close> admits them, give the same
  frame, consume exactly its bytes whatever follows them, and leave the connection idle.
\<close>

theorem frame_roundtrip:
  assumes "valid_frame f" "length buf < 2 ^ 31" "amqp_frame_to_bytes f buf = Inr (buf', n)"
    and "idle st" "heap_ok (c_heap st)" "n \<le> size_of_int (frame_max st)"
  shows "\<exists>st'. amqp_handle_input st (take n buf' @ rest) = (Inr (int n), f, st') \<and> idle st'"
proof -
  have fits: "frame_size f \<le> length buf" by (rule amqp_frame_to_bytes_success [OF assms(1-3)])
  with amqp_frame_to_bytes_fits [OF assms(1,2)] assms(3)
  have "n = frame_size f" "take n buf' = wire_frame f"
    by (auto simp: blit_def length_wire_frame)
  with handle_input_frame [OF assms(1) _ _ assms(4,5)] assms(2,6) fits show ?thesis
    by (auto simp: ready_after_def)
qed

theorem frame_roundtrip_witness:
  "\<exists>st'. amqp_handle_input sample_connection ([3,0,5,0,0,0,2,0x68,0x69,206] @ [1])
     = (Inr 10, \<lparr>frame_type = 3, frame_channel = 5, frame_payload = Body_payload [0x68,0x69]\<rparr>, st') \<and> idle st'"
proof -
  let ?f = "\<lparr>frame_type = 3, frame_channel = 5, frame_payload = Body_payload [0x68,0x69]\<rparr>"
  have "amqp_frame_to_bytes ?f [0,0,0,0,0,0,0,0,0,0,0,0] = Inr ([3,0,5,0,0,0,2,0x68,0x69,206,0,0], 10)"
    by (simp add: amqp_frame_to_bytes_def frame_body_to_bytes_def mem_write_def blit_def be16_def be32_def
        HEADER_SIZE_def FOOTER_SIZE_def)
  from frame_roundtrip [OF _ _ this, of sample_connection "[1]"] show ?thesis
    by (simp add: valid_frame_def size_of_int_def)
qed

text \<open>
  C4. It does not matter how the stream of bytes is cut: a call with \<open>d1 @ d2\<close> does what a call with
  \<open>d1\<close> does when that completes a frame or fails, and otherwise what a call with \<open>d1\<close> followed by
  one with \<open>d2\<close> does, down to the whole state of the connection and its pools.
\<close>

theorem input_cut_anywhere:
  assumes "conn_inv st" "d1 \<noteq> []" "d2 \<noteq> []" "length d1 + length d2 < 2 ^ 31"
    and "7 \<le> length (pending st @ d1 @ d2) \<Longrightarrow> length_ok (pending st @ d1 @ d2)"
  shows "amqp_handle_input st (d1 @ d2) = continue_with (length d1) d2 (amqp_handle_input st d1)"
  using assms by (intro handle_input_split)

theorem input_cut_anywhere_witness:
  "amqp_handle_input sample_connection ([3,0,5,0] @ [0,0,2,0x68,0x69,206])
    = continue_with (length [3,0,5,0 :: u8]) [0,0,2,0x68,0x69,206] (amqp_handle_input sample_connection [3,0,5,0])"
  using input_cut_anywhere [of sample_connection "[3,0,5,0]" "[0,0,2,0x68,0x69,206]"]
  by (simp add: length_ok_def length_field_def from_be32_def from_be16_def)

text \<open>
  C23. \<^verbatim>\<open>amqp_handle_input\<close> is safe on arbitrary bytes as long as the length field of each frame is
  in range: below \<open>2 ^ 32 - 8\<close>, at least 4 in a method frame and at least 12 in a header frame. Then
  no call leaves a buffer or aborts; it keeps the invariant of the connection or reports a status.
  The one exception is undefined behaviour, the shift by 32 bits in the flag loop of the property decoder: it is met
  only if the bytes collected so far and those given make a complete header frame whose first two flag words
  announce a third.
\<close>

theorem input_stays_in_bounds:
  assumes "conn_inv st"
    and "7 \<le> length (pending st @ d) \<Longrightarrow> length_ok (pending st @ d) \<and> payload_ok (pending st @ d)"
  shows "case amqp_handle_input st d of
      (Inr n, _, st') \<Rightarrow> conn_inv st'
    | (Inl e, _, _) \<Rightarrow> (\<exists>s. e = Status s) \<or> e = Undefined_behaviour \<and> third_flag_word (pending st @ d)"
  using handle_input_safe [OF assms]
  by (cases "amqp_handle_input st d") (auto simp: input_safe_def split: sum.splits)

theorem input_stays_in_bounds_witness:
  "case amqp_handle_input sample_connection [1,0,0,0,0,0,4,0,10,0,51,206] of
      (Inr n, _, st') \<Rightarrow> conn_inv st'
    | (Inl e, _, _) \<Rightarrow> (\<exists>s. e = Status s)"
proof -
  let ?d = "[1,0,0,0,0,0,4,0,10,0,51,206] :: amqp_bytes"
  have f: "length_field ?d = 4" by (simp add: length_field_def from_be32_def from_be16_def)
  then have "\<not> third_flag_word (pending sample_connection @ ?d)" by (simp add: third_flag_word_def)
  with input_stays_in_bounds [of sample_connection ?d] f show ?thesis
    by (auto simp: length_ok_def payload_ok_def split: sum.splits)
qed

text \<open>
  C28. Why the length field has to be in range: a field between \<open>2 ^ 32 - 7\<close> and \<open>2 ^ 32 - 2\<close>
  wraps around in the computation of the frame size, passes the check against \<^verbatim>\<open>frame_max\<close>, and the
  bytes that follow are copied out of the eight-byte buffer.
\<close>

theorem input_length_wraps:
  assumes "idle st" "heap_ok (c_heap st)" "7 \<le> size_of_int (frame_max st)"
    and "2 ^ 32 - 7 \<le> unat len" "unat len \<le> 2 ^ 32 - 2" "2 \<le> length rest" "in_memory rest"
  shows "fst (amqp_handle_input st ([ft] @ be16 ch @ be32 len @ rest)) = Inl Memory_fault"
  using assms by (rule handle_input_overflow)

theorem input_length_wraps_witness:
  "fst (amqp_handle_input sample_connection ([1] @ be16 0 @ be32 0xFFFFFFFB @ [1,2,3,4])) = Inl Memory_fault"
  using input_length_wraps [of sample_connection "0xFFFFFFFB" "[1,2,3,4]" 1 0] by (simp add: size_of_int_def)

section \<open>Memory pools\<close>

text \<open>
  C24. The regions a pool hands out are safe whatever requests the heap refuses: no two of them
  overlap, and each, of the requested size rounded up to eight, is 8-byte aligned and lies inside a
  live block.
\<close>

theorem pool_regions_safe:
  assumes "heap_wf h" "psize < 2 ^ 63" "\<forall>n \<in> set ns. 0 < n \<and> n \<le> 2 ^ 63"
    and "pool_run ns [] (init_amqp_pool psize) h = (R, p, h')"
  shows "sorted_wrt apart R
    \<and> (\<forall>((b, i), n) \<in> set R. b \<in> set (h_live h') \<and> i + n \<le> h_size h' b \<and> 8 dvd i)"
proof -
  have "regions_inv p h' R"
    using pool_run_inv [OF init_pool_inv [OF assms(1,2)] _ assms(3,4)] by simp
  then show ?thesis by (auto simp: regions_inv_def)
qed

theorem pool_regions_safe_witness:
  "sorted_wrt apart (fst (pool_run [10, 5000, 4090] [] (init_amqp_pool 0) sample_heap))"
  using pool_regions_safe [of sample_heap 0 "[10, 5000, 4090]"]
  by (cases "pool_run [10, 5000, 4090] [] (init_amqp_pool 0) sample_heap")
    (simp add: sample_heap_def heap_wf_def)

text \<open>
  No leak: when the heap grants the requests, emptying a pool leaves exactly the blocks that were
  allocated before the pool was used.
\<close>

theorem pool_no_leak:
  assumes "heap_wf h" "heap_ok h" "psize < 2 ^ 63" "\<forall>n \<in> set ns. 0 < n \<and> n \<le> 2 ^ 63"
    and "pool_run ns [] (init_amqp_pool psize) h = (R, p, h')"
  shows "set (h_live (snd (empty_amqp_pool p h'))) = set (h_live h)"
proof -
  let ?p = "init_amqp_pool psize"
  have inv: "pool_inv ?p h" by (rule init_pool_inv [OF assms(1,3)])
  have "accounted (set (h_live h)) ?p h"
    by (simp add: accounted_def init_amqp_pool_def pool_blocks_def pool_arrays_def)
  then have "accounted (set (h_live h)) p h'"
    using pool_run_accounted [OF inv _ _ assms(2,4,5)] by simp
  moreover have "pool_inv p h'" using pool_run_inv [OF inv _ assms(4,5)] by simp
  ultimately show ?thesis
    using empty_pool_live [of p h'] by (cases "empty_amqp_pool p h'") (auto simp: accounted_def)
qed

theorem pool_no_leak_witness:
  "case pool_run [10, 5000] [] (init_amqp_pool 0) sample_heap of
     (R, p, h') \<Rightarrow> set (h_live (snd (empty_amqp_pool p h'))) = {}"
  using pool_no_leak [of sample_heap 0 "[10, 5000]"]
  by (cases "pool_run [10, 5000] [] (init_amqp_pool 0) sample_heap")
    (simp add: sample_heap_def heap_wf_def heap_ok_def)

text \<open>
  The leak that remains: when the heap grants a new page and refuses the array that records it,
  the allocation fails and the page stays allocated after the pool is emptied.
\<close>

theorem pool_page_leaks:
  assumes "heap_wf h" "psize < 2 ^ 63" "0 < n" "round8 n \<le> pagesize (init_amqp_pool psize)"
    and "h_grants h (h_count h) (pagesize (init_amqp_pool psize))" "\<not> h_grants h (Suc (h_count h)) 8"
  shows "case amqp_pool_alloc (init_amqp_pool psize) n h of
    (r, p, h') \<Rightarrow> r = None \<and> h_count h \<in> set (h_live (snd (empty_amqp_pool p h')))"
  using assms
  by (simp add: amqp_pool_alloc_def amqp_pool_alloc_page_def init_amqp_pool_def malloc_def record_pool_block_def
      empty_amqp_pool_def recycle_amqp_pool_def empty_blocklist_def Let_def)

theorem pool_page_leaks_witness:
  "case amqp_pool_alloc (init_amqp_pool 0) 16 \<lparr>h_grants = \<lambda>k _. k = 0, h_count = 0, h_live = [], h_size = \<lambda>_. 0, h_stray = []\<rparr> of
    (r, p, h') \<Rightarrow> r = None \<and> 0 \<in> set (h_live (snd (empty_amqp_pool p h')))"
  using pool_page_leaks [of "\<lparr>h_grants = \<lambda>k _. k = 0, h_count = 0, h_live = [], h_size = \<lambda>_. 0, h_stray = []\<rparr>" 0 16]
  by (simp add: heap_wf_def round8_def init_amqp_pool_def)

end
